(* ===== verification/Go_Base.thy ===== *)
theory Go_Base
  imports Main "HOL-Library.Word" "HOL-Library.Multiset" "HOL-Library.List_Lexorder" "HOL-Library.Char_ord"
begin

text \<open>
  What every component of the operator shares: the error values of the Go code, Go maps as partial
  functions together with the order in which a \<^verbatim>\<open>range\<close> loop visits their keys, and the generic
  lemmas on lists, folds and maps that the component proofs use. The collection \<^verbatim>\<open>go_simps\<close>
  gathers the unfolding equations of the small library functions, so that a component proof can
  say \<^verbatim>\<open>simp add: go_simps\<close>.
\<close>

named_theorems go_simps \<open>unfolding equations of the modelled Go library functions\<close>

section \<open>Errors\<close>

text \<open>
  A Go \<^verbatim>\<open>error\<close> is \<^verbatim>\<open>nil\<close> or a value: the model writes it as an option. The constructors are the
  kinds of error values the code makes or tells apart: the constants of type \<^verbatim>\<open>redisutil.Error\<close>,
  the messages built by \<^verbatim>\<open>fmt.Errorf\<close> and \<^verbatim>\<open>errors.New\<close> (by their format string and arguments), the
  errors of \<^verbatim>\<open>strconv\<close>, the errors the redis client reports, which \<^verbatim>\<open>handleError\<close> splits into
  timeouts, \<^verbatim>\<open>*net.OpError\<close> and the rest, and the struct \<^verbatim>\<open>ClusterInfosError\<close> with its fields
  \<^verbatim>\<open>errs\<close>, \<^verbatim>\<open>partial\<close> and \<^verbatim>\<open>inconsistent\<close>.
\<close>

datatype err =
    ErrConst string
  | Errorf string "string list"
  | ErrSyntax
  | ErrRange
  | ErrTimeout string
  | ErrOp string
  | ErrServer string
  | ErrClusterInfos "(string \<times> err) list" bool bool

section \<open>Go maps and range loops\<close>

text \<open>
  A Go map is a partial function. A \<^verbatim>\<open>range\<close> loop visits every key once, in an order the language
  leaves open: a loop over a map is a recursion over a list of keys, and \<open>range_order ks m\<close> says
  that the list is one the language allows.
\<close>

definition range_order :: "'k list \<Rightarrow> ('k \<rightharpoonup> 'v) \<Rightarrow> bool" where
  "range_order ks m \<longleftrightarrow> distinct ks \<and> set ks = dom m"

text \<open>\<^verbatim>\<open>m[k]\<close> on a map of slices reads \<^verbatim>\<open>nil\<close> (the empty slice) for a missing key.\<close>

definition slice_at :: "('k \<rightharpoonup> 'a list) \<Rightarrow> 'k \<Rightarrow> 'a list" where
  "slice_at m k = (case m k of None \<Rightarrow> [] | Some xs \<Rightarrow> xs)"

text \<open>\<^verbatim>\<open>m[k] = append(m[k], xs...)\<close>\<close>

definition map_append :: "('k \<rightharpoonup> 'a list) \<Rightarrow> 'k \<Rightarrow> 'a list \<Rightarrow> ('k \<rightharpoonup> 'a list)" where
  "map_append m k xs = m(k \<mapsto> slice_at m k @ xs)"

lemma slice_at_empty [simp]: "slice_at Map.empty k = []"
  by (simp add: slice_at_def)

lemma slice_at_upd [simp]: "slice_at (m(k \<mapsto> xs)) k' = (if k' = k then xs else slice_at m k')"
  by (simp add: slice_at_def)

lemma slice_at_map_append [simp]:
  "slice_at (map_append m k xs) k' = (if k' = k then slice_at m k @ xs else slice_at m k')"
  by (simp add: map_append_def)

lemma dom_map_append [simp]: "dom (map_append m k xs) = insert k (dom m)"
  by (simp add: map_append_def)

lemma slice_at_not_dom: "k \<notin> dom m \<Longrightarrow> slice_at m k = []"
  by (simp add: slice_at_def domIff)

lemma range_orderD:
  assumes "range_order ks m"
  shows "distinct ks" and "set ks = dom m" and "finite (dom m)"
proof -
  show "distinct ks" and d: "set ks = dom m"
    using assms by (auto simp: range_order_def)
  show "finite (dom m)"
    unfolding d [symmetric] by simp
qed

lemma slice_at_none [simp]: "slice_at (\<lambda>_. None) k = []"
  by (simp add: slice_at_def)

text \<open>Everything a map of slices holds at a list of keys.\<close>

definition slots_of :: "('k \<rightharpoonup> 'v list) \<Rightarrow> 'k list \<Rightarrow> 'v list" where
  "slots_of m ks = concat (map (slice_at m) ks)"

lemma slots_of_map_append:
  "distinct ks \<Longrightarrow> k \<in> set ks \<Longrightarrow> mset (slots_of (map_append m k xs) ks) = mset (slots_of m ks) + mset xs"
proof (induction ks)
  case (Cons a ks)
  have "slots_of (map_append m k xs) ks = slots_of m ks" if "k \<notin> set ks"
    using that unfolding slots_of_def by (intro arg_cong [where f = concat] map_cong) auto
  with Cons show ?case by (cases "a = k") (auto simp: slots_of_def)
qed simp

section \<open>Lists\<close>

lemma distinct_concat_map_iff:
  "distinct xs \<Longrightarrow> distinct (concat (map f xs)) \<longleftrightarrow>
     (\<forall>x \<in> set xs. distinct (f x)) \<and>
     (\<forall>x \<in> set xs. \<forall>y \<in> set xs. x \<noteq> y \<longrightarrow> set (f x) \<inter> set (f y) = {})"
  by (induction xs) (auto 4 3)

lemma filter_notin_disjoint: "set xs \<inter> set ys = {} \<Longrightarrow> filter (\<lambda>x. x \<notin> set ys) xs = xs"
  by (induction xs) auto

lemma sum_list_map_update:
  fixes f :: "'a \<Rightarrow> int"
  assumes "distinct xs" and "x \<in> set xs"
  shows "sum_list (map (\<lambda>y. if y = x then f y + d else f y) xs) = sum_list (map f xs) + d"
  using assms
proof (induction xs)
  case Nil
  then show ?case by simp
next
  case (Cons a xs)
  show ?case
  proof (cases "a = x")
    case True
    with Cons.prems have "x \<notin> set xs" by simp
    then have "sum_list (map (\<lambda>y. if y = x then f y + d else f y) xs) = sum_list (map f xs)"
      by (intro arg_cong [where f = sum_list] map_cong) auto
    with True show ?thesis by simp
  next
    case False
    with Cons show ?thesis by simp
  qed
qed

section \<open>Maps with their order\<close>

text \<open>\<^verbatim>\<open>m[k] = v\<close> on a map given by its entries.\<close>

fun alist_put :: "'k \<Rightarrow> 'v \<Rightarrow> ('k \<times> 'v) list \<Rightarrow> ('k \<times> 'v) list" where
  "alist_put k v [] = [(k, v)]"
| "alist_put k v ((k', v') # al) = (if k' = k then (k, v) # al else (k', v') # alist_put k v al)"

lemma map_of_alist_put [simp]: "map_of (alist_put k v al) = (map_of al)(k \<mapsto> v)"
  by (induction k v al rule: alist_put.induct) auto

lemma keys_alist_put: "set (map fst (alist_put k v al)) = insert k (set (map fst al))"
  by (induction k v al rule: alist_put.induct) auto

lemma distinct_alist_put: "distinct (map fst al) \<Longrightarrow> distinct (map fst (alist_put k v al))"
  by (induction k v al rule: alist_put.induct) (auto simp: keys_alist_put [simplified])

lemma alist_put_notin: "k \<notin> set (map fst al) \<Longrightarrow> alist_put k v al = al @ [(k, v)]"
  by (induction k v al rule: alist_put.induct) auto

end
