(* ===== verification/Go_Strings.thy ===== *)
theory Go_Strings
  imports Go_Base
begin

text \<open>
  The functions of Go's \<^verbatim>\<open>strings\<close> and \<^verbatim>\<open>strconv\<close> packages that the operator calls, on byte strings:
  splitting and joining at a separator byte, prefixes and suffixes, and the decimal notation of
  unsigned and signed 64-bit integers, with the round trips the slot and address codecs rest on.
\<close>

section \<open>Splitting and joining\<close>

text \<open>\<^verbatim>\<open>strings.Split(s, sep)\<close> for a separator of one byte: never empty, \<open>[s]\<close> when there is none.\<close>

fun Split :: "char \<Rightarrow> string \<Rightarrow> string list" where
  "Split c [] = [[]]"
| "Split c (x # xs) =
     (if x = c then [] # Split c xs
      else (case Split c xs of [] \<Rightarrow> [[x]] | w # ws \<Rightarrow> (x # w) # ws))"

fun Join :: "string \<Rightarrow> string list \<Rightarrow> string" where
  "Join sep [] = []"
| "Join sep [w] = w"
| "Join sep (w # ws) = w @ sep @ Join sep ws"

definition TrimPrefix :: "string \<Rightarrow> string \<Rightarrow> string" where
  "TrimPrefix s p = (if take (length p) s = p then drop (length p) s else s)"

definition HasSuffix :: "string \<Rightarrow> string \<Rightarrow> bool" where
  "HasSuffix s p \<longleftrightarrow> length p \<le> length s \<and> drop (length s - length p) s = p"

definition HasPrefix :: "string \<Rightarrow> string \<Rightarrow> bool" where
  "HasPrefix s p \<longleftrightarrow> take (length p) s = p"

definition TrimSuffix :: "string \<Rightarrow> string \<Rightarrow> string" where
  "TrimSuffix s p = (if HasSuffix s p then take (length s - length p) s else s)"

lemma Split_not_Nil [simp]: "Split c s \<noteq> []"
  by (cases s) (auto split: list.splits)

lemma Split_no_sep: "c \<notin> set s \<Longrightarrow> Split c s = [s]"
  by (induction s) auto

lemma Split_append_sep: "c \<notin> set w \<Longrightarrow> Split c (w @ c # s) = w # Split c s"
  by (induction w) auto

lemma Split_Join:
  "ws \<noteq> [] \<Longrightarrow> \<forall>w \<in> set ws. c \<notin> set w \<Longrightarrow> Split c (Join [c] ws) = ws"
  by (induction "[c]" ws rule: Join.induct) (auto simp: Split_no_sep Split_append_sep)

lemma Split_no_sep_inside: "w \<in> set (Split c s) \<Longrightarrow> c \<notin> set w"
proof (induction s arbitrary: w)
  case Nil
  then show ?case by simp
next
  case (Cons x xs)
  then show ?case
    by (cases "Split c xs") (auto split: if_splits)
qed

lemma HasSuffix_append [simp]: "HasSuffix (s @ p) p"
  by (simp add: HasSuffix_def)

lemma TrimSuffix_append [simp]: "TrimSuffix (s @ p) p = s"
  by (simp add: TrimSuffix_def)

lemma TrimPrefix_append [simp]: "TrimPrefix (p @ s) p = s"
  by (simp add: TrimPrefix_def)

section \<open>Decimal numbers\<close>

text \<open>\<^verbatim>\<open>strconv.FormatUint(n, 10)\<close> and \<^verbatim>\<open>strconv.Itoa\<close> on natural numbers.\<close>

definition digit_char :: "nat \<Rightarrow> char" where
  "digit_char d = char_of (48 + d)"

fun format_nat :: "nat \<Rightarrow> string" where
  "format_nat n =
     (if n < 10 then [digit_char n] else format_nat (n div 10) @ [digit_char (n mod 10)])"

declare format_nat.simps [simp del]

definition Itoa :: "int \<Rightarrow> string" where
  "Itoa i = (if i < 0 then CHR ''-'' # format_nat (nat (- i)) else format_nat (nat i))"

definition is_digit :: "char \<Rightarrow> bool" where
  "is_digit c \<longleftrightarrow> 48 \<le> (of_char c :: nat) \<and> (of_char c :: nat) \<le> 57"

definition digit_val :: "char \<Rightarrow> nat" where
  "digit_val c = of_char c - 48"

text \<open>
  \<^verbatim>\<open>strconv.ParseUint(s, 10, 64)\<close>: the loop over the bytes, which stops at the first byte that is no
  digit (\<^verbatim>\<open>ErrSyntax\<close>, value 0) and at the first digit that takes the number past 64 bits
  (\<^verbatim>\<open>ErrRange\<close>, value \<^verbatim>\<open>1<<64 - 1\<close>).
\<close>

fun parse_uint_loop :: "string \<Rightarrow> nat \<Rightarrow> nat \<times> err option" where
  "parse_uint_loop [] n = (n, None)"
| "parse_uint_loop (c # cs) n =
     (if \<not> is_digit c then (0, Some ErrSyntax)
      else if 10 * n + digit_val c \<ge> 2 ^ 64 then (2 ^ 64 - 1, Some ErrRange)
      else parse_uint_loop cs (10 * n + digit_val c))"

definition ParseUint :: "string \<Rightarrow> nat \<times> err option" where
  "ParseUint s = (if s = [] then (0, Some ErrSyntax) else parse_uint_loop s 0)"

text \<open>\<^verbatim>\<open>strconv.ParseInt(s, 10, 64)\<close>, and \<^verbatim>\<open>strconv.Atoi\<close> on a 64-bit platform.\<close>

definition ParseInt :: "string \<Rightarrow> int \<times> err option" where
  "ParseInt s =
     (if s = [] then (0, Some ErrSyntax)
      else
        let neg = (hd s = CHR ''-'');
            rest = (if hd s = CHR ''-'' \<or> hd s = CHR ''+'' then tl s else s)
        in case ParseUint rest of
             (un, e) \<Rightarrow>
               if e = Some ErrSyntax then (0, e)
               else if \<not> neg \<and> un \<ge> 2 ^ 63 then (2 ^ 63 - 1, Some ErrRange)
               else if neg \<and> un > 2 ^ 63 then (- (2 ^ 63), Some ErrRange)
               else ((if neg then - int un else int un), None))"

lemma of_char_digit_char: "d < 10 \<Longrightarrow> (of_char (digit_char d) :: nat) = 48 + d"
  by (simp add: digit_char_def)

lemma is_digit_digit_char [simp]: "d < 10 \<Longrightarrow> is_digit (digit_char d)"
  by (simp add: is_digit_def of_char_digit_char)

lemma digit_val_digit_char [simp]: "d < 10 \<Longrightarrow> digit_val (digit_char d) = d"
  by (simp add: digit_val_def of_char_digit_char)

lemma format_nat_not_Nil [simp]: "format_nat n \<noteq> []"
  by (subst format_nat.simps) simp

lemma format_nat_digits: "c \<in> set (format_nat n) \<Longrightarrow> is_digit c"
proof (induction n rule: format_nat.induct)
  case (1 n)
  show ?case
  proof (cases "n < 10")
    case True
    with "1.prems" show ?thesis by (simp add: format_nat.simps [of n])
  next
    case False
    with "1" show ?thesis by (auto simp: format_nat.simps [of n])
  qed
qed

lemma format_nat_no_char: "\<not> is_digit c \<Longrightarrow> c \<notin> set (format_nat n)"
  using format_nat_digits by blast

lemma parse_uint_loop_append:
  "parse_uint_loop xs n = (k, None) \<Longrightarrow> parse_uint_loop (xs @ ys) n = parse_uint_loop ys k"
  by (induction xs n rule: parse_uint_loop.induct) (auto split: if_splits)

lemma parse_uint_loop_format_nat: "n < 2 ^ 64 \<Longrightarrow> parse_uint_loop (format_nat n) 0 = (n, None)"
proof (induction n rule: format_nat.induct)
  case (1 n)
  show ?case
  proof (cases "n < 10")
    case True
    then show ?thesis by (simp add: format_nat.simps [of n])
  next
    case False
    have "n div 10 < 2 ^ 64" using "1.prems" by linarith
    with "1.IH" False have "parse_uint_loop (format_nat (n div 10)) 0 = (n div 10, None)"
      by simp
    from parse_uint_loop_append [OF this] False "1.prems" show ?thesis
      by (simp add: format_nat.simps [of n])
  qed
qed

lemma ParseUint_format_nat [simp]: "n < 2 ^ 64 \<Longrightarrow> ParseUint (format_nat n) = (n, None)"
  by (simp add: ParseUint_def parse_uint_loop_format_nat)

lemma parse_uint_loop_bound: "n < 2 ^ 64 \<Longrightarrow> parse_uint_loop s n = (k, e) \<Longrightarrow> k < 2 ^ 64"
  by (induction s n rule: parse_uint_loop.induct) (auto split: if_splits)

lemma ParseUint_bound: "fst (ParseUint s) < 2 ^ 64"
  using parse_uint_loop_bound [of 0 s] by (cases "parse_uint_loop s 0") (auto simp: ParseUint_def)

lemma ParseUint_bad_char:
  assumes "c \<in> set s" and "\<not> is_digit c"
  shows "snd (ParseUint s) \<noteq> None"
proof -
  have "snd (parse_uint_loop s n) \<noteq> None" if "c \<in> set s" for s n
    using that assms(2) by (induction s n rule: parse_uint_loop.induct) auto
  with assms show ?thesis by (auto simp: ParseUint_def)
qed

lemma not_digit_seps [simp]:
  "\<not> is_digit (CHR ''-'')" "\<not> is_digit (CHR ''['')" "\<not> is_digit (CHR '']'')"
  "\<not> is_digit (CHR '' '')" "\<not> is_digit (CHR '','')" "\<not> is_digit (CHR '':'')"
  "\<not> is_digit (CHR ''+'')" "\<not> is_digit (CHR ''@'')"
  by (simp_all add: is_digit_def)

lemma format_nat_no_seps [simp]:
  "CHR ''-'' \<notin> set (format_nat n)" "CHR ''['' \<notin> set (format_nat n)" "CHR '']'' \<notin> set (format_nat n)"
  "CHR '' '' \<notin> set (format_nat n)" "CHR '','' \<notin> set (format_nat n)" "CHR '':'' \<notin> set (format_nat n)"
  "CHR ''@'' \<notin> set (format_nat n)" "CHR ''+'' \<notin> set (format_nat n)"
  by (simp_all add: format_nat_no_char)

lemma hd_format_nat_sign [simp]:
  "hd (format_nat n) \<noteq> CHR ''-''" "hd (format_nat n) \<noteq> CHR ''+''"
  using format_nat_no_seps by (metis format_nat_not_Nil hd_in_set)+

lemma format_nat_inj: "format_nat n = format_nat m \<Longrightarrow> n = m"
proof (induction n arbitrary: m rule: format_nat.induct)
  case (1 n)
  have digit: "a = b" if "digit_char a = digit_char b" "a < 10" "b < 10" for a b :: nat
    using that of_char_eq_iff [of "digit_char a" "digit_char b"] by (simp add: digit_char_def)
  show ?case
  proof (cases "n < 10 \<or> m < 10")
    case True
    then show ?thesis using "1.prems" digit format_nat_not_Nil [of "m div 10", symmetric]
      by (auto simp: format_nat.simps [of n] format_nat.simps [of m] split: if_splits)
  next
    case False
    then have "format_nat (n div 10) = format_nat (m div 10)" "n mod 10 = m mod 10"
      using "1.prems" digit [of "n mod 10" "m mod 10"] by (simp_all add: format_nat.simps [of n] format_nat.simps [of m])
    with "1.IH" False have "n div 10 = m div 10" "n mod 10 = m mod 10" by simp_all
    then show ?thesis by (metis div_mult_mod_eq)
  qed
qed

lemma Itoa_inj: "Itoa (int i) = Itoa (int j) \<longleftrightarrow> i = j"
  using format_nat_inj by (auto simp: Itoa_def)

lemma ParseInt_Itoa:
  assumes "- (2 ^ 63) \<le> i" and "i < 2 ^ 63"
  shows "ParseInt (Itoa i) = (i, None)"
proof (cases "i < 0")
  case True
  then have "nat (- i) < 2 ^ 64" using assms by (simp add: nat_less_iff)
  with True assms show ?thesis
    by (simp add: ParseInt_def Itoa_def)
next
  case False
  then have "nat i < 2 ^ 64" using assms by (simp add: nat_less_iff)
  with False assms show ?thesis
    by (simp add: ParseInt_def Itoa_def)
qed

section \<open>Case, blanks and fields\<close>

text \<open>
  \<^verbatim>\<open>strings.ToLower\<close>, \<^verbatim>\<open>strings.ToUpper\<close>, \<^verbatim>\<open>strings.TrimSpace\<close> and \<^verbatim>\<open>strings.Fields\<close> on ASCII
  text; a byte above 127 is left as it is.
\<close>

definition lower_char :: "char \<Rightarrow> char" where
  "lower_char c = (let n = (of_char c :: nat) in if 65 \<le> n \<and> n \<le> 90 then char_of (n + 32) else c)"

definition upper_char :: "char \<Rightarrow> char" where
  "upper_char c = (let n = (of_char c :: nat) in if 97 \<le> n \<and> n \<le> 122 then char_of (n - 32) else c)"

definition ToLower :: "string \<Rightarrow> string" where "ToLower = map lower_char"

definition ToUpper :: "string \<Rightarrow> string" where "ToUpper = map upper_char"

definition is_space :: "char \<Rightarrow> bool" where
  "is_space c \<longleftrightarrow> (let n = (of_char c :: nat) in n = 32 \<or> (9 \<le> n \<and> n \<le> 13))"

definition TrimSpace :: "string \<Rightarrow> string" where
  "TrimSpace s = rev (dropWhile is_space (rev (dropWhile is_space s)))"

fun fields_loop :: "string \<Rightarrow> string \<Rightarrow> string list" where
  "fields_loop [] w = (if w = [] then [] else [w])"
| "fields_loop (c # cs) w =
     (if is_space c then (if w = [] then fields_loop cs [] else w # fields_loop cs [])
      else fields_loop cs (w @ [c]))"

definition Fields :: "string \<Rightarrow> string list" where
  "Fields s = fields_loop s []"

lemma lower_char_digit [simp]: "is_digit c \<Longrightarrow> lower_char c = c"
  by (auto simp: lower_char_def is_digit_def Let_def)

lemma ToLower_append [simp]: "ToLower (s @ t) = ToLower s @ ToLower t"
  by (simp add: ToLower_def)

lemma ToLower_format_nat [simp]: "ToLower (format_nat n) = format_nat n"
  unfolding ToLower_def by (rule map_idI) (simp add: format_nat_digits)

section \<open>Network addresses\<close>

text \<open>\<^verbatim>\<open>strings.LastIndex(s, sep)\<close> for a separator of one byte; \<open>None\<close> is \<^verbatim>\<open>-1\<close>.\<close>

fun LastIndex :: "string \<Rightarrow> char \<Rightarrow> nat option" where
  "LastIndex [] c = None"
| "LastIndex (x # xs) c =
     (case LastIndex xs c of Some i \<Rightarrow> Some (Suc i) | None \<Rightarrow> if x = c then Some 0 else None)"

fun IndexByte :: "string \<Rightarrow> char \<Rightarrow> nat option" where
  "IndexByte [] c = None"
| "IndexByte (x # xs) c = (if x = c then Some 0 else map_option Suc (IndexByte xs c))"

text \<open>\<^verbatim>\<open>net.JoinHostPort\<close>: a host with a colon in it (an IPv6 address) goes into brackets.\<close>

definition JoinHostPort :: "string \<Rightarrow> string \<Rightarrow> string" where
  "JoinHostPort host port =
     (if CHR '':'' \<in> set host then ''['' @ host @ '']:'' @ port else host @ '':'' @ port)"

text \<open>\<^verbatim>\<open>net.SplitHostPort\<close>, with its error cases.\<close>

definition SplitHostPort :: "string \<Rightarrow> string \<times> string \<times> err option" where
  "SplitHostPort hostport =
     (let bad = (\<lambda>why. ([], [], Some (Errorf why [hostport])));
          finish = (\<lambda>host j k i.
            if CHR ''['' \<in> set (drop j hostport) then bad ''unexpected [ in address''
            else if CHR '']'' \<in> set (drop k hostport) then bad ''unexpected ] in address''
            else (host, drop (Suc i) hostport, None))
      in case LastIndex hostport (CHR '':'') of
           None \<Rightarrow> bad ''missing port in address''
         | Some i \<Rightarrow>
             if hd hostport = CHR ''['' then
               (case IndexByte hostport (CHR '']'') of
                  None \<Rightarrow> bad ''missing ] in address''
                | Some e \<Rightarrow>
                    if e + 1 = length hostport then bad ''missing port in address''
                    else if e + 1 = i then finish (take (e - 1) (drop 1 hostport)) 1 (e + 1) i
                    else if hostport ! (e + 1) = CHR '':'' then bad ''too many colons in address''
                    else bad ''missing port in address'')
             else
               (let host = take i hostport in
                if CHR '':'' \<in> set host then bad ''too many colons in address''
                else finish host 0 0 i))"

lemma LastIndex_none: "LastIndex s c = None \<longleftrightarrow> c \<notin> set s"
  by (induction s) (auto split: option.splits)

lemma LastIndex_append_last: "c \<notin> set t \<Longrightarrow> LastIndex (s @ c # t) c = Some (length s)"
  by (induction s) (auto simp: LastIndex_none split: option.splits)

lemma IndexByte_first: "c \<notin> set s \<Longrightarrow> IndexByte (s @ c # t) c = Some (length s)"
  by (induction s) auto

lemma SplitHostPort_JoinHostPort:
  assumes "CHR '':'' \<notin> set port" "CHR ''['' \<notin> set (host @ port)" "CHR '']'' \<notin> set (host @ port)"
  shows "SplitHostPort (JoinHostPort host port) = (host, port, None)"
proof (cases "CHR '':'' \<in> set host")
  case True
  let ?hp = "CHR ''['' # host @ '']:'' @ port"
  have "LastIndex ?hp (CHR '':'') = Some (length host + 2)"
    using LastIndex_append_last [of "CHR '':''" port "CHR ''['' # host @ '']''"] assms(1) by simp
  moreover have "IndexByte ?hp (CHR '']'') = Some (length host + 1)"
    using IndexByte_first [of "CHR '']''" "CHR ''['' # host" "CHR '':'' # port"] assms(3) by simp
  ultimately show ?thesis
    using True assms by (simp add: SplitHostPort_def JoinHostPort_def)
next
  case False
  have "LastIndex (host @ CHR '':'' # port) (CHR '':'') = Some (length host)"
    using LastIndex_append_last [of "CHR '':''" port host] assms(1) by simp
  moreover have "hd (host @ CHR '':'' # port) \<noteq> CHR ''[''"
    using assms(2) by (cases host) auto
  ultimately show ?thesis
    using False assms by (simp add: SplitHostPort_def JoinHostPort_def)
qed

section \<open>Searching\<close>

text \<open>\<^verbatim>\<open>strings.Contains\<close>\<close>

fun str_contains :: "string \<Rightarrow> string \<Rightarrow> bool" where
  "str_contains [] p = (p = [])"
| "str_contains (c # cs) p = (take (length p) (c # cs) = p \<or> str_contains cs p)"

text \<open>
  \<^verbatim>\<open>FindStringSubmatch\<close> for an expression that is a literal prefix followed by one group of one or
  more characters of a class, \<^verbatim>\<open>prefix([class]+)\<close>: the group of the leftmost match.
\<close>

fun find_submatch :: "string \<Rightarrow> (char \<Rightarrow> bool) \<Rightarrow> string \<Rightarrow> string option" where
  "find_submatch p P [] = None"
| "find_submatch p P (c # cs) =
     (if take (length p) (c # cs) = p \<and> takeWhile P (drop (length p) (c # cs)) \<noteq> []
      then Some (takeWhile P (drop (length p) (c # cs))) else find_submatch p P cs)"

definition is_lower :: "char \<Rightarrow> bool" where
  "is_lower c \<longleftrightarrow> 97 \<le> (of_char c :: nat) \<and> (of_char c :: nat) \<le> 122"

lemma find_submatch_here:
  assumes "p \<noteq> []" and "w \<noteq> []" and "\<forall>c \<in> set w. P c" and "rest = [] \<or> \<not> P (hd rest)"
  shows "find_submatch p P (p @ w @ rest) = Some w"
proof -
  have "takeWhile P (w @ rest) = w"
    using assms(3,4) by (cases rest) (auto simp: takeWhile_append)
  moreover obtain c cs where "p @ w @ rest = c # cs"
    using assms(1) by (cases "p @ w @ rest") auto
  ultimately show ?thesis
    using assms(2) by (metis append_eq_conv_conj find_submatch.simps(2))
qed

end
