(* ===== verification/Redis_Slot.thy ===== *)
theory Redis_Slot
  imports Go_Strings
begin

text \<open>
  The slots of \<^verbatim>\<open>utils/redisutil/slot.go\<close>: the textual notation of slots, slot ranges and
  importing/migrating slots in the output of \<^verbatim>\<open>CLUSTER NODES\<close>, the compression of a slot list into
  ranges, and the slice operations that add and remove slots. A slot is a \<^verbatim>\<open>uint64\<close>, kept at its
  width: \<^verbatim>\<open>BuildSlotSlice\<close> compares a counter that wraps around with its upper bound.
\<close>

section \<open>Data\<close>

type_synonym slot = "64 word"

record SlotRange =
  sr_Min :: slot
  sr_Max :: slot

record ImportingSlot =
  is_SlotID :: slot
  is_FromNodeID :: string

record MigratingSlot =
  ms_SlotID :: slot
  ms_ToNodeID :: string

definition slotSeparator :: string where "slotSeparator = ''-''"
definition importingSeparator :: string where "importingSeparator = ''-<-''"
definition migratingSeparator :: string where "migratingSeparator = ''->-''"

section \<open>Operations\<close>

text \<open>\<^verbatim>\<open>int(s)\<close>: the same 64 bits read as a signed number.\<close>

definition Slot_ToInt :: "slot \<Rightarrow> int" where
  "Slot_ToInt s = sint s"

definition Slot_String :: "slot \<Rightarrow> string" where
  "Slot_String s = format_nat (unat s)"

definition DecodeSlot :: "string \<Rightarrow> slot \<times> err option" where
  "DecodeSlot s = (case ParseUint s of (v, e) \<Rightarrow> (word_of_nat v, e))"

definition SlotRange_String :: "SlotRange \<Rightarrow> string" where
  "SlotRange_String r = Slot_String (sr_Min r) @ slotSeparator @ Slot_String (sr_Max r)"

definition SlotRange_Total :: "SlotRange \<Rightarrow> int" where
  "SlotRange_Total r = sint (sr_Max r - sr_Min r + 1)"

definition ImportingSlot_String :: "ImportingSlot \<Rightarrow> string" where
  "ImportingSlot_String s = Slot_String (is_SlotID s) @ importingSeparator @ is_FromNodeID s"

definition MigratingSlot_String :: "MigratingSlot \<Rightarrow> string" where
  "MigratingSlot_String s = Slot_String (ms_SlotID s) @ migratingSeparator @ ms_ToNodeID s"

text \<open>
  \<^verbatim>\<open>for s := min; s <= max; s++\<close> with a counter that wraps around: for the largest \<^verbatim>\<open>uint64\<close> the
  condition never fails, so the loop is a function into options and not returning is \<open>None\<close>.
\<close>

partial_function (option) BuildSlotSlice_loop :: "slot \<Rightarrow> slot \<Rightarrow> slot list \<Rightarrow> slot list option" where
  "BuildSlotSlice_loop s mx slots =
     (if s \<le> mx then BuildSlotSlice_loop (s + 1) mx (slots @ [s]) else Some slots)"

definition BuildSlotSlice :: "slot \<Rightarrow> slot \<Rightarrow> slot list option" where
  "BuildSlotSlice mn mx = BuildSlotSlice_loop mn mx []"

text \<open>The four results of \<^verbatim>\<open>DecodeSlotRange\<close>; \<open>None\<close> is a call that does not return.\<close>

type_synonym decoded_slots =
  "slot list \<times> ImportingSlot option \<times> MigratingSlot option \<times> err option"

definition DecodeSlotRange :: "string \<Rightarrow> decoded_slots option" where
  "DecodeSlotRange str =
     (let val = Split (CHR ''-'') str in
      if length val = 3 then
        (let separator = slotSeparator @ val ! 1 @ slotSeparator in
         case DecodeSlot (TrimPrefix (val ! 0) ''['') of
           (slot, e) \<Rightarrow>
             if e \<noteq> None then Some ([], None, None, e)
             else if separator = importingSeparator then
               Some ([], Some \<lparr>is_SlotID = slot, is_FromNodeID = TrimSuffix (val ! 2) '']''\<rparr>, None, e)
             else if separator = migratingSeparator then
               Some ([], None, Some \<lparr>ms_SlotID = slot, ms_ToNodeID = TrimSuffix (val ! 2) '']''\<rparr>, e)
             else Some ([], None, None, Some (Errorf ''impossible to decode slot %s'' [str])))
      else if length val > 0 then
        (case DecodeSlot (val ! 0) of
           (mn, e) \<Rightarrow>
             if e \<noteq> None then Some ([], None, None, e)
             else if length val > 1 then
               (case DecodeSlot (val ! 1) of
                  (mx, e') \<Rightarrow>
                    if e' \<noteq> None then Some ([], None, None, e')
                    else map_option (\<lambda>slots. (slots, None, None, e')) (BuildSlotSlice mn mx))
             else map_option (\<lambda>slots. (slots, None, None, e)) (BuildSlotSlice mn mn))
      else Some ([], None, None, Some (Errorf (''impossible to decode slot '' @ [CHR 0x27] @ ''%s'' @ [CHR 0x27]) [str])))"

text \<open>
  The loop of \<^verbatim>\<open>SlotRangesFromSlots\<close> over the sorted slice, with the variables \<^verbatim>\<open>ranges\<close>, \<^verbatim>\<open>min\<close>,
  \<^verbatim>\<open>max\<close> and \<^verbatim>\<open>first\<close>. The function sorts its argument in place: the first component of its
  result is the argument after the call.
\<close>

fun slot_ranges_loop ::
    "slot list \<Rightarrow> SlotRange list \<Rightarrow> slot \<Rightarrow> slot \<Rightarrow> bool \<Rightarrow> SlotRange list \<times> slot \<times> slot \<times> bool" where
  "slot_ranges_loop [] ranges mn mx first = (ranges, mn, mx, first)"
| "slot_ranges_loop (slot # slots) ranges mn mx first =
     (if first then slot_ranges_loop slots ranges slot slot False
      else if slot > mx + 1 then
        slot_ranges_loop slots (ranges @ [\<lparr>sr_Min = mn, sr_Max = mx\<rparr>]) slot slot False
      else slot_ranges_loop slots ranges mn slot False)"

definition SlotRangesFromSlots :: "slot list \<Rightarrow> slot list \<times> SlotRange list" where
  "SlotRangesFromSlots slots =
     (let sorted_slots = sort slots in
      case slot_ranges_loop sorted_slots [] 0 0 True of
        (ranges, mn, mx, first) \<Rightarrow>
          (sorted_slots, if \<not> first then ranges @ [\<lparr>sr_Min = mn, sr_Max = mx\<rparr>] else ranges))"

text \<open>\<^verbatim>\<open>fmt.Sprintf("%s", ranges)\<close> prints the strings of the ranges in brackets, separated by blanks.\<close>

definition SlotSlice_String :: "slot list \<Rightarrow> string" where
  "SlotSlice_String s = ''['' @ Join '' '' (map SlotRange_String (snd (SlotRangesFromSlots s))) @ '']''"

fun Contains :: "slot list \<Rightarrow> slot \<Rightarrow> bool" where
  "Contains [] e = False"
| "Contains (a # s) e = (if a = e then True else Contains s e)"

text \<open>
  \<^verbatim>\<open>RemoveSlots\<close> and \<^verbatim>\<open>RemoveSlot\<close>: index loops that cut the element out of the slice they run over;
  \<^verbatim>\<open>i--\<close> followed by the loop's \<^verbatim>\<open>i++\<close> leaves the index where it was.
\<close>

function RemoveSlots_loop :: "nat \<Rightarrow> slot list \<Rightarrow> slot list \<Rightarrow> slot list" where
  "RemoveSlots_loop i slots removedSlots =
     (if i < length slots then
        if Contains removedSlots (slots ! i)
        then RemoveSlots_loop i (take i slots @ drop (Suc i) slots) removedSlots
        else RemoveSlots_loop (Suc i) slots removedSlots
      else slots)"
  by pat_completeness auto
termination
  by (relation "measure (\<lambda>(i, slots, r). length slots - i)") auto

declare RemoveSlots_loop.simps [simp del]

definition RemoveSlots :: "slot list \<Rightarrow> slot list \<Rightarrow> slot list" where
  "RemoveSlots slots removedSlots = RemoveSlots_loop 0 slots removedSlots"

function RemoveSlot_loop :: "nat \<Rightarrow> slot list \<Rightarrow> slot \<Rightarrow> slot list" where
  "RemoveSlot_loop i slots removedSlot =
     (if i < length slots then
        if slots ! i = removedSlot then take i slots @ drop (Suc i) slots
        else RemoveSlot_loop (Suc i) slots removedSlot
      else slots)"
  by pat_completeness auto
termination
  by (relation "measure (\<lambda>(i, slots, r). length slots - i)") auto

declare RemoveSlot_loop.simps [simp del]

definition RemoveSlot :: "slot list \<Rightarrow> slot \<Rightarrow> slot list" where
  "RemoveSlot slots removedSlot = RemoveSlot_loop 0 slots removedSlot"

fun AddSlots :: "slot list \<Rightarrow> slot list \<Rightarrow> slot list" where
  "AddSlots slots [] = slots"
| "AddSlots slots (s # addedSlots) =
     (if \<not> Contains slots s then AddSlots (slots @ [s]) addedSlots else AddSlots slots addedSlots)"


section \<open>Building and decoding slot slices\<close>

text \<open>The slots of a closed interval, in increasing order.\<close>

definition slots_between :: "slot \<Rightarrow> slot \<Rightarrow> slot list" where
  "slots_between mn mx = map word_of_nat [unat mn..<Suc (unat mx)]"

lemma unat_slot_less: "unat (s :: slot) < 2 ^ 64"
  using unsigned_less [of s, where 'a = nat] by simp

lemma unat_of_nat_slot: "k < 2 ^ 64 \<Longrightarrow> unat (word_of_nat k :: slot) = k"
  by (simp add: unat_of_nat)

lemma unat_Suc_slot: "(s :: slot) \<noteq> - 1 \<Longrightarrow> unat (s + 1) = Suc (unat s)"
  using unatSuc [of s] by (simp add: eq_neg_iff_add_eq_0 add.commute)

lemma not_max_word: "(mx :: slot) \<noteq> - 1 \<longleftrightarrow> Suc (unat mx) < 2 ^ 64"
proof
  assume "mx \<noteq> - 1"
  then show "Suc (unat mx) < 2 ^ 64"
    using unat_Suc_slot unat_slot_less by metis
next
  assume "Suc (unat mx) < 2 ^ 64"
  then show "mx \<noteq> - 1"
    by (auto simp: unsigned_minus_1_eq_mask mask_eq_exp_minus_1)
qed

lemma below_not_max: "(s :: slot) \<le> mx \<Longrightarrow> mx \<noteq> - 1 \<Longrightarrow> s \<noteq> - 1"
  using word_order.extremum_uniqueI by blast

lemma set_slots_between: "set (slots_between mn mx) = {mn..mx}"
proof
  show "set (slots_between mn mx) \<subseteq> {mn..mx}"
  proof
    fix x assume "x \<in> set (slots_between mn mx)"
    then obtain k where k: "x = word_of_nat k" "unat mn \<le> k" "k \<le> unat mx"
      by (auto simp: slots_between_def)
    have "k < 2 ^ 64"
      using k(3) unat_slot_less by (rule le_less_trans)
    then have "unat x = k"
      using k(1) by (simp add: unat_of_nat_slot)
    with k show "x \<in> {mn..mx}"
      by (simp add: word_le_nat_alt)
  qed
  show "{mn..mx} \<subseteq> set (slots_between mn mx)"
  proof
    fix x assume "x \<in> {mn..mx}"
    then have "unat x \<in> {unat mn..<Suc (unat mx)}"
      by (simp add: word_le_nat_alt)
    then have "word_of_nat (unat x) \<in> set (slots_between mn mx)"
      unfolding slots_between_def set_map set_upt by (rule imageI)
    then show "x \<in> set (slots_between mn mx)" by simp
  qed
qed

lemma length_slots_between: "length (slots_between mn mx) = Suc (unat mx) - unat mn"
  by (simp add: slots_between_def del: upt_Suc)

lemma slots_between_Cons:
  assumes "s \<le> mx" and "mx \<noteq> - 1"
  shows "slots_between s mx = s # slots_between (s + 1) mx"
proof -
  have "unat (s + 1) = Suc (unat s)"
    using below_not_max [OF assms] by (rule unat_Suc_slot)
  with assms(1) show ?thesis
    by (simp add: slots_between_def upt_conv_Cons word_le_nat_alt del: upt_Suc)
qed

lemma slots_between_snoc:
  assumes "mn \<le> mx" and "mx \<noteq> - 1"
  shows "slots_between mn (mx + 1) = slots_between mn mx @ [mx + 1]"
  unfolding slots_between_def unat_Suc_slot [OF assms(2)]
  using assms(1) by (simp add: word_le_nat_alt add.commute)

lemma slots_between_single: "slots_between s s = [s]"
  by (simp add: slots_between_def)

lemma BuildSlotSlice_loop_returns:
  "mx \<noteq> - 1 \<Longrightarrow> BuildSlotSlice_loop s mx acc = Some (acc @ slots_between s mx)"
proof (induction "Suc (unat mx) - unat s" arbitrary: s acc rule: less_induct)
  case less
  show ?case
  proof (cases "s \<le> mx")
    case True
    have "s \<noteq> - 1"
      using True less.prems by (rule below_not_max)
    then have u: "unat (s + 1) = Suc (unat s)" by (rule unat_Suc_slot)
    have "Suc (unat mx) - unat (s + 1) < Suc (unat mx) - unat s"
      using True u by (simp add: word_le_nat_alt)
    from less.hyps [OF this less.prems] have
      "BuildSlotSlice_loop (s + 1) mx (acc @ [s]) = Some (acc @ [s] @ slots_between (s + 1) mx)"
      by simp
    with True less.prems show ?thesis
      by (subst BuildSlotSlice_loop.simps) (simp add: slots_between_Cons)
  next
    case False
    then have "slots_between s mx = []"
      by (simp add: slots_between_def word_le_nat_alt)
    with False show ?thesis
      by (subst BuildSlotSlice_loop.simps) simp
  qed
qed

lemma BuildSlotSlice_loop_diverges:
  assumes "BuildSlotSlice_loop s mx acc = Some r"
  shows "mx \<noteq> - 1"
  by (rule BuildSlotSlice_loop.raw_induct [where P = "\<lambda>s mx acc r. mx \<noteq> - 1", OF _ assms])
    (metis word_order.extremum)

lemma BuildSlotSlice_eq:
  "BuildSlotSlice mn mx = (if mx = - 1 then None else Some (slots_between mn mx))"
  using BuildSlotSlice_loop_diverges [of mn mx "[]"] BuildSlotSlice_loop_returns [of mx mn "[]"]
  by (cases "BuildSlotSlice_loop mn mx []") (auto simp: BuildSlotSlice_def)

lemma DecodeSlot_String [simp]: "DecodeSlot (Slot_String s) = (s, None)"
  using unat_slot_less [of s] by (simp add: DecodeSlot_def Slot_String_def)

lemma Slot_String_no_dash [simp]: "CHR ''-'' \<notin> set (Slot_String s)"
  by (simp add: Slot_String_def)

lemma Slot_String_no_bracket: "take (Suc 0) (Slot_String s) \<noteq> ''[''"
  using format_nat_no_seps(2) [of "unat s"] by (cases "format_nat (unat s)") (auto simp: Slot_String_def)

lemma Split_range_String:
  "Split (CHR ''-'') (SlotRange_String r) = [Slot_String (sr_Min r), Slot_String (sr_Max r)]"
  by (simp add: SlotRange_String_def slotSeparator_def Split_append_sep Split_no_sep)

lemma DecodeSlotRange_range_String:
  assumes "sr_Max r \<noteq> - 1"
  shows "DecodeSlotRange (SlotRange_String r)
           = Some (slots_between (sr_Min r) (sr_Max r), None, None, None)"
  using assms by (simp add: DecodeSlotRange_def Split_range_String BuildSlotSlice_eq)

lemma DecodeSlotRange_single:
  assumes "s \<noteq> - 1"
  shows "DecodeSlotRange (Slot_String s) = Some ([s], None, None, None)"
  using assms
  by (simp add: DecodeSlotRange_def Split_no_sep BuildSlotSlice_eq slots_between_single)

section \<open>Compressing a slot list into ranges\<close>

lemma sorted_remdups_adj_distinct: "sorted xs \<Longrightarrow> distinct (remdups_adj xs)"
  by (induction xs rule: remdups_adj.induct) (auto simp: order.antisym)

lemma remdups_adj_sorted_list_of_set:
  assumes "sorted (xs :: 'a :: linorder list)"
  shows "remdups_adj xs = sorted_list_of_set (set xs)"
proof -
  have "sorted (remdups_adj xs)" "distinct (remdups_adj xs)"
    using assms by (auto simp: sorted_remdups_adj sorted_remdups_adj_distinct)
  then have "sorted_list_of_set (set (remdups_adj xs)) = remdups_adj xs"
    by (rule sorted_list_of_set.idem_if_sorted_distinct)
  then show ?thesis by (metis remdups_adj_set)
qed

text \<open>The slots a list of ranges stands for, and the ranges with the open one closed.\<close>

definition ranges_slots :: "SlotRange list \<Rightarrow> slot list" where
  "ranges_slots rs = concat (map (\<lambda>r. slots_between (sr_Min r) (sr_Max r)) rs)"

definition close_ranges :: "SlotRange list \<times> slot \<times> slot \<times> bool \<Rightarrow> SlotRange list" where
  "close_ranges st = (case st of (ranges, mn, mx, first) \<Rightarrow>
     if \<not> first then ranges @ [\<lparr>sr_Min = mn, sr_Max = mx\<rparr>] else ranges)"

lemma ranges_slots_simps [simp]:
  "ranges_slots [] = []"
  "ranges_slots (rs @ [r]) = ranges_slots rs @ slots_between (sr_Min r) (sr_Max r)"
  by (simp_all add: ranges_slots_def)

lemma slot_ranges_step:
  fixes slot :: slot
  assumes "mx \<le> slot" and "\<not> slot > mx + 1" and "slot \<noteq> - 1"
  shows "slot = mx \<or> slot = mx + 1"
proof -
  have "mx \<noteq> - 1" using assms(1,3) by (rule below_not_max)
  then have "unat slot \<le> Suc (unat mx)" and "unat (mx + 1) = Suc (unat mx)"
    using assms(2) by (simp_all add: word_less_nat_alt unat_Suc_slot)
  moreover have "unat mx \<le> unat slot" using assms(1) by (simp add: word_le_nat_alt)
  ultimately have "unat slot = unat mx \<or> unat slot = unat (mx + 1)" by auto
  then show ?thesis by (auto simp: word_unat_eq_iff)
qed

lemma slot_ranges_loop_slots:
  assumes "sorted (mx # slots)" and "mn \<le> mx" and "- 1 \<notin> set (mx # slots)"
  shows "ranges_slots (close_ranges (slot_ranges_loop slots ranges mn mx False))
           = ranges_slots ranges @ slots_between mn mx @ tl (remdups_adj (mx # slots))"
  using assms
proof (induction slots arbitrary: ranges mn mx)
  case Nil
  then show ?case by (simp add: close_ranges_def)
next
  case (Cons slot slots)
  have sl: "mx \<le> slot" "slot \<noteq> - 1" "mx \<noteq> - 1" using Cons.prems by auto
  have tl: "tl (remdups_adj (mx # slot # slots))
      = (if slot = mx then tl (remdups_adj (slot # slots)) else slot # tl (remdups_adj (slot # slots)))"
    by (cases slots) auto
  show ?case
  proof (cases "slot > mx + 1")
    case True
    then have "slot \<noteq> mx" using sl(3) unat_Suc_slot [of mx] by (auto simp: word_less_nat_alt)
    with Cons True show ?thesis
      by (simp add: tl slots_between_single)
  next
    case False
    with sl have "slot = mx \<or> slot = mx + 1" by (auto dest: slot_ranges_step)
    moreover have "mn \<le> slot" using Cons.prems(2) sl(1) by simp
    ultimately show ?thesis
      using Cons False sl by (auto simp: tl slots_between_snoc)
  qed
qed

lemma SlotRangesFromSlots_close:
  "snd (SlotRangesFromSlots slots) = close_ranges (slot_ranges_loop (sort slots) [] 0 0 True)"
  by (simp add: SlotRangesFromSlots_def close_ranges_def Let_def split: prod.splits)

lemma SlotRangesFromSlots_slots:
  assumes "- 1 \<notin> set slots"
  shows "ranges_slots (snd (SlotRangesFromSlots slots)) = sorted_list_of_set (set slots)"
proof (cases "sort slots")
  case Nil
  then have "slots = []" by (metis length_0_conv length_sort)
  then show ?thesis
    by (simp add: SlotRangesFromSlots_close close_ranges_def)
next
  case (Cons x xs)
  then have "sorted (x # xs)" and set: "set (x # xs) = set slots"
    by (metis sorted_sort, metis set_sort)
  moreover have "- 1 \<notin> set (x # xs)" using assms set by simp
  ultimately have "ranges_slots (close_ranges (slot_ranges_loop xs [] x x False))
      = slots_between x x @ tl (remdups_adj (x # xs))"
    using slot_ranges_loop_slots [of x xs x "[]"] by simp
  also have "\<dots> = remdups_adj (x # xs)"
    by (cases xs) (auto simp: slots_between_single)
  also have "\<dots> = sorted_list_of_set (set slots)"
    using remdups_adj_sorted_list_of_set [OF \<open>sorted (x # xs)\<close>] by (simp only: set)
  finally show ?thesis
    by (simp add: SlotRangesFromSlots_close Cons)
qed

text \<open>Every range is closed, and a gap of at least one slot lies between two neighbours.\<close>

definition separated :: "SlotRange \<Rightarrow> SlotRange \<Rightarrow> bool" where
  "separated a b \<longleftrightarrow> sr_Min a \<le> sr_Max a \<and> Suc (unat (sr_Max a)) < unat (sr_Min b)"

lemma slot_ranges_loop_separated:
  assumes "sorted (mx # slots)" and "mn \<le> mx" and "- 1 \<notin> set (mx # slots)"
    and "successively separated (ranges @ [\<lparr>sr_Min = mn, sr_Max = mx\<rparr>])"
  shows "successively separated (close_ranges (slot_ranges_loop slots ranges mn mx False))
         \<and> sr_Min (last (close_ranges (slot_ranges_loop slots ranges mn mx False)))
             \<le> sr_Max (last (close_ranges (slot_ranges_loop slots ranges mn mx False)))"
  using assms
proof (induction slots arbitrary: ranges mn mx)
  case Nil
  then show ?case by (simp add: close_ranges_def)
next
  case (Cons slot slots)
  have sl: "mx \<le> slot" "slot \<noteq> - 1" "mx \<noteq> - 1" using Cons.prems by auto
  show ?case
  proof (cases "slot > mx + 1")
    case True
    then have "separated \<lparr>sr_Min = mn, sr_Max = mx\<rparr> \<lparr>sr_Min = slot, sr_Max = slot\<rparr>"
      using Cons.prems(2) unat_Suc_slot [OF sl(3)] by (simp add: separated_def word_less_nat_alt)
    with Cons.prems(4) have
      "successively separated ((ranges @ [\<lparr>sr_Min = mn, sr_Max = mx\<rparr>]) @ [\<lparr>sr_Min = slot, sr_Max = slot\<rparr>])"
      by (simp add: successively_append_iff)
    with True Cons.prems show ?thesis
      using Cons.IH [of slot slot "ranges @ [\<lparr>sr_Min = mn, sr_Max = mx\<rparr>]"] by simp
  next
    case False
    have "successively separated (ranges @ [\<lparr>sr_Min = mn, sr_Max = slot\<rparr>])"
      using Cons.prems(4) by (auto simp: successively_append_iff separated_def)
    with False sl Cons.prems show ?thesis
      using Cons.IH [of slot mn ranges] by simp
  qed
qed


lemma SlotRangesFromSlots_separated:
  assumes "- 1 \<notin> set slots"
  shows "successively separated (snd (SlotRangesFromSlots slots))"
proof (cases "sort slots")
  case Nil
  then show ?thesis by (simp add: SlotRangesFromSlots_close close_ranges_def)
next
  case (Cons x xs)
  then have "sorted (x # xs)" and "set (x # xs) = set slots"
    by (metis sorted_sort, metis set_sort)
  with assms show ?thesis
    using slot_ranges_loop_separated [of x xs x "[]"] by (simp add: SlotRangesFromSlots_close Cons)
qed

lemma ranges_slots_bounds:
  assumes "r \<in> set rs" and "sr_Min r \<le> sr_Max r"
  shows "sr_Max r \<in> set (ranges_slots rs)"
  using assms by (auto simp: ranges_slots_def set_slots_between intro!: bexI [of _ r])

lemma SlotRangesFromSlots_max:
  assumes "- 1 \<notin> set slots" and "r \<in> set (snd (SlotRangesFromSlots slots))"
  shows "sr_Max r \<noteq> - 1"
proof
  assume max: "sr_Max r = - 1"
  then have "sr_Max r \<in> set (ranges_slots (snd (SlotRangesFromSlots slots)))"
    using ranges_slots_bounds [OF assms(2)] by simp
  with assms(1) max show False
    by (simp add: SlotRangesFromSlots_slots [OF assms(1)])
qed

lemma sorted_slots_between: "sorted (slots_between mn mx)"
  and distinct_slots_between: "distinct (slots_between mn mx)"
proof -
  have u: "unat (word_of_nat k :: slot) = k" if "k \<in> set [unat mn..<Suc (unat mx)]" for k
    using that unat_slot_less [of mx] by (auto intro: unat_of_nat_slot)
  show "sorted (slots_between mn mx)"
    unfolding slots_between_def sorted_map
    by (rule sorted_wrt_mono_rel [of _ "(<)"]) (simp_all add: u word_le_nat_alt del: upt_Suc)
  have "inj_on (word_of_nat :: nat \<Rightarrow> slot) (set [unat mn..<Suc (unat mx)])"
    using u by (rule inj_on_inverseI)
  then show "distinct (slots_between mn mx)"
    by (simp add: slots_between_def distinct_map del: upt_Suc)
qed

section \<open>Adding and removing slots\<close>

lemma Contains_iff [simp]: "Contains s e \<longleftrightarrow> e \<in> set s"
  by (induction s) auto

lemma RemoveSlots_loop_filter:
  "i \<le> length slots \<Longrightarrow>
   RemoveSlots_loop i slots rs = take i slots @ filter (\<lambda>s. s \<notin> set rs) (drop i slots)"
proof (induction i slots rs rule: RemoveSlots_loop.induct)
  case (1 i slots rs)
  show ?case
  proof (cases "i < length slots")
    case True
    then have d: "drop i slots = slots ! i # drop (Suc i) slots" by (rule Cons_nth_drop_Suc [symmetric])
    have t: "take (Suc i) slots = take i slots @ [slots ! i]" using True by (rule take_Suc_conv_app_nth)
    from 1 True show ?thesis
      by (subst RemoveSlots_loop.simps) (auto simp: d t)
  next
    case False
    with 1(3) show ?thesis by (subst RemoveSlots_loop.simps) simp
  qed
qed

lemma RemoveSlots_filter: "RemoveSlots slots rs = filter (\<lambda>s. s \<notin> set rs) slots"
  by (simp add: RemoveSlots_def RemoveSlots_loop_filter)

lemma RemoveSlot_loop_remove1:
  "i \<le> length slots \<Longrightarrow> RemoveSlot_loop i slots r = take i slots @ remove1 r (drop i slots)"
proof (induction i slots r rule: RemoveSlot_loop.induct)
  case (1 i slots r)
  show ?case
  proof (cases "i < length slots")
    case True
    then have d: "drop i slots = slots ! i # drop (Suc i) slots" by (rule Cons_nth_drop_Suc [symmetric])
    have t: "take (Suc i) slots = take i slots @ [slots ! i]" using True by (rule take_Suc_conv_app_nth)
    from 1 True show ?thesis
      by (subst RemoveSlot_loop.simps) (auto simp: d t)
  next
    case False
    with 1(2) show ?thesis by (subst RemoveSlot_loop.simps) simp
  qed
qed

lemma RemoveSlot_remove1: "RemoveSlot slots r = remove1 r slots"
  by (simp add: RemoveSlot_def RemoveSlot_loop_remove1)

lemma set_AddSlots [simp]: "set (AddSlots slots added) = set slots \<union> set added"
  by (induction slots added rule: AddSlots.induct) auto

lemma distinct_AddSlots [simp]: "distinct (AddSlots slots added) \<longleftrightarrow> distinct slots"
  by (induction slots added rule: AddSlots.induct) auto

lemma AddSlots_prefix: "\<exists>ys. AddSlots slots added = slots @ ys"
  by (induction slots added rule: AddSlots.induct) auto

text \<open>
  What a client of the slot slices relies on: a set of slots that can be read off, enlarged and
  diminished. A transfer that removes slots at one owner and adds them at the other loses no slot,
  duplicates none and makes no owner's slice repeat a slot.
\<close>

locale slot_ops =
  fixes add :: "'s \<Rightarrow> 's \<Rightarrow> 's"
    and rem :: "'s \<Rightarrow> 's \<Rightarrow> 's"
    and mem :: "'s \<Rightarrow> 'e \<Rightarrow> bool"
    and elems :: "'s \<Rightarrow> 'e set"
    and ok :: "'s \<Rightarrow> bool"
  assumes mem_elems: "mem s e \<longleftrightarrow> e \<in> elems s"
    and elems_add: "elems (add s t) = elems s \<union> elems t"
    and elems_rem: "elems (rem s t) = elems s - elems t"
    and ok_add: "ok s \<Longrightarrow> ok (add s t)"
    and ok_rem: "ok s \<Longrightarrow> ok (rem s t)"
begin

lemma transfer_keeps_union:
  assumes "elems t \<subseteq> elems src"
  shows "elems (rem src t) \<union> elems (add dst t) = elems src \<union> elems dst"
  using assms by (auto simp: elems_add elems_rem)

lemma transfer_keeps_disjoint:
  assumes "elems src \<inter> elems dst = {}"
  shows "elems (rem src t) \<inter> elems (add dst t) = {}"
  using assms by (auto simp: elems_add elems_rem)

lemma transfer_owner:
  assumes "mem t e"
  shows "mem (add dst t) e" and "\<not> mem (rem src t) e"
  using assms by (auto simp: mem_elems elems_add elems_rem)

lemma transfer_back:
  assumes "elems t \<subseteq> elems src" and "elems src \<inter> elems dst = {}"
  shows "elems (add (rem src t) t) = elems src" and "elems (rem (add dst t) t) = elems dst"
  using assms by (auto simp: elems_add elems_rem)

lemma transfer_ok: "ok src \<Longrightarrow> ok dst \<Longrightarrow> ok (rem src t) \<and> ok (add dst t)"
  by (simp add: ok_add ok_rem)

end

interpretation slots: slot_ops AddSlots RemoveSlots Contains set distinct
  by unfold_locales (auto simp: RemoveSlots_filter)

section \<open>Properties\<close>

lemma TrimPrefix_bracket: "TrimPrefix (CHR ''['' # s) ''['' = s"
  using TrimPrefix_append [of "''[''" s] by simp

lemma Split_moving_String:
  assumes "CHR ''-'' \<notin> set w" and "CHR ''-'' \<notin> set m" and "CHR ''-'' \<notin> set n"
  shows "Split (CHR ''-'') (w @ CHR ''-'' # m @ CHR ''-'' # n) = [w, m, n]"
  using assms by (simp add: Split_append_sep Split_no_sep)

lemma Split_importing:
  assumes "CHR ''-'' \<notin> set (is_FromNodeID i)"
  shows "Split (CHR ''-'') (''['' @ ImportingSlot_String i @ '']'')
           = [CHR ''['' # Slot_String (is_SlotID i), ''<'', is_FromNodeID i @ '']'']"
  using Split_moving_String [of "CHR ''['' # Slot_String (is_SlotID i)" "''<''" "is_FromNodeID i @ '']''"] assms
  by (simp add: ImportingSlot_String_def importingSeparator_def)

lemma Split_migrating:
  assumes "CHR ''-'' \<notin> set (ms_ToNodeID i)"
  shows "Split (CHR ''-'') (''['' @ MigratingSlot_String i @ '']'')
           = [CHR ''['' # Slot_String (ms_SlotID i), ''>'', ms_ToNodeID i @ '']'']"
  using Split_moving_String [of "CHR ''['' # Slot_String (ms_SlotID i)" "''>''" "ms_ToNodeID i @ '']''"] assms
  by (simp add: MigratingSlot_String_def migratingSeparator_def)

lemma DecodeSlotRange_importing:
  assumes "CHR ''-'' \<notin> set (is_FromNodeID i)"
  shows "DecodeSlotRange (''['' @ ImportingSlot_String i @ '']'') = Some ([], Some i, None, None)"
  unfolding DecodeSlotRange_def Split_importing [OF assms]
  by (simp add: TrimPrefix_bracket slotSeparator_def importingSeparator_def)

lemma DecodeSlotRange_migrating:
  assumes "CHR ''-'' \<notin> set (ms_ToNodeID m)"
  shows "DecodeSlotRange (''['' @ MigratingSlot_String m @ '']'') = Some ([], None, Some m, None)"
  unfolding DecodeSlotRange_def Split_migrating [OF assms]
  by (simp add: TrimPrefix_bracket slotSeparator_def importingSeparator_def migratingSeparator_def)

text \<open>
  C35: the ranges that \<^verbatim>\<open>SlotRangesFromSlots\<close> makes of a slot list decode back to the slots: every
  range, printed by \<^verbatim>\<open>SlotRange.String\<close> and read by \<^verbatim>\<open>DecodeSlotRange\<close>, gives a slice without error,
  the slices in order are the slots of the list, sorted and without duplicates, and two neighbouring
  ranges never touch, so the compression is maximal. The only slot excluded is the largest
  \<^verbatim>\<open>uint64\<close>, far above the 16384 slots of a cluster.
\<close>

theorem SlotRanges_roundtrip:
  assumes "- 1 \<notin> set slots"
  shows "\<exists>parts. map (\<lambda>r. DecodeSlotRange (SlotRange_String r)) (snd (SlotRangesFromSlots slots))
                  = map (\<lambda>p. Some (p, None, None, None)) parts
              \<and> concat parts = sorted_list_of_set (set slots)
              \<and> successively separated (snd (SlotRangesFromSlots slots))"
proof (intro exI conjI)
  let ?rs = "snd (SlotRangesFromSlots slots)"
  let ?part = "\<lambda>r. slots_between (sr_Min r) (sr_Max r)"
  show "concat (map ?part ?rs) = sorted_list_of_set (set slots)"
    using SlotRangesFromSlots_slots [OF assms] by (simp add: ranges_slots_def)
  show "successively separated ?rs"
    using assms by (rule SlotRangesFromSlots_separated)
  have "sr_Max r \<noteq> - 1" if "r \<in> set ?rs" for r
    using SlotRangesFromSlots_max [OF assms that] .
  then show "map (\<lambda>r. DecodeSlotRange (SlotRange_String r)) ?rs
      = map (\<lambda>p. Some (p, None, None, None)) (map ?part ?rs)"
    by (simp add: DecodeSlotRange_range_String)
qed

theorem SlotRanges_roundtrip_witness:
  "\<exists>parts. map (\<lambda>r. DecodeSlotRange (SlotRange_String r)) (snd (SlotRangesFromSlots [7, 3, 4, 3]))
              = map (\<lambda>p. Some (p, None, None, None)) parts
          \<and> concat parts = sorted_list_of_set (set [7, 3, 4, 3])
          \<and> successively separated (snd (SlotRangesFromSlots [7, 3, 4, 3]))"
  by (rule SlotRanges_roundtrip) simp

text \<open>
  importing and migrating slots decode back: the bracketed entry that \<^verbatim>\<open>CLUSTER NODES\<close> prints
  for an importing (\<^verbatim>\<open>[42-<-id]\<close>) or a migrating (\<^verbatim>\<open>[42->-id]\<close>) slot is read by \<^verbatim>\<open>DecodeSlotRange\<close>
  as exactly that slot and node id, with no slots and no error, for every 64-bit slot and every id
  without a dash.
\<close>

theorem DecodeSlotRange_moving_roundtrip:
  assumes "CHR ''-'' \<notin> set (is_FromNodeID i)" and "CHR ''-'' \<notin> set (ms_ToNodeID m)"
  shows "DecodeSlotRange (''['' @ ImportingSlot_String i @ '']'') = Some ([], Some i, None, None) \<and>
         DecodeSlotRange (''['' @ MigratingSlot_String m @ '']'') = Some ([], None, Some m, None)"
  using DecodeSlotRange_importing [OF assms(1)] DecodeSlotRange_migrating [OF assms(2)] by (rule conjI)

theorem DecodeSlotRange_moving_roundtrip_witness:
  "DecodeSlotRange (''['' @ ImportingSlot_String \<lparr>is_SlotID = 42, is_FromNodeID = ''67ed''\<rparr> @ '']'')
     = Some ([], Some \<lparr>is_SlotID = 42, is_FromNodeID = ''67ed''\<rparr>, None, None) \<and>
   DecodeSlotRange (''['' @ MigratingSlot_String \<lparr>ms_SlotID = 1, ms_ToNodeID = ''a1''\<rparr> @ '']'')
     = Some ([], None, Some \<lparr>ms_SlotID = 1, ms_ToNodeID = ''a1''\<rparr>, None)"
  by (rule DecodeSlotRange_moving_roundtrip) simp_all

text \<open>
  C40: \<^verbatim>\<open>BuildSlotSlice\<close> returns for every bound but the largest \<^verbatim>\<open>uint64\<close>, and then its result is
  the increasing list, without duplicates, of exactly the slots between the bounds (empty when the
  bounds are swapped); for the largest bound the counter wraps around and the loop never ends,
  whatever the lower bound.
\<close>

theorem BuildSlotSlice_spec:
  "case BuildSlotSlice mn mx of
     None \<Rightarrow> mx = - 1
   | Some slots \<Rightarrow> mx \<noteq> - 1 \<and> sorted slots \<and> distinct slots \<and> set slots = {mn..mx}"
  by (simp add: BuildSlotSlice_eq set_slots_between sorted_slots_between distinct_slots_between)

text \<open>
  moving slots between two owners with \<^verbatim>\<open>RemoveSlots\<close> and \<^verbatim>\<open>AddSlots\<close> keeps the ownership
  exclusive and complete: when the moved slots belong to the source and source and destination are
  disjoint and free of duplicates, then afterwards they are still disjoint and free of duplicates,
  together own the same slots, and the moved slots are the destination's.
\<close>

theorem move_slots_ownership:
  assumes "set moved \<subseteq> set src" and "set src \<inter> set dst = {}" and "distinct src" and "distinct dst"
  shows "set (RemoveSlots src moved) \<union> set (AddSlots dst moved) = set src \<union> set dst
       \<and> set (RemoveSlots src moved) \<inter> set (AddSlots dst moved) = {}
       \<and> distinct (RemoveSlots src moved) \<and> distinct (AddSlots dst moved)
       \<and> (\<forall>s. Contains moved s \<longrightarrow> Contains (AddSlots dst moved) s)"
  using slots.transfer_keeps_union [OF assms(1)] slots.transfer_keeps_disjoint [OF assms(2)]
    slots.transfer_ok [OF assms(3,4)] slots.transfer_owner by blast

theorem move_slots_ownership_witness:
  "set (RemoveSlots [1, 2, 3] [2]) \<union> set (AddSlots [4] [2]) = set [1, 2, 3] \<union> set [4]
       \<and> set (RemoveSlots [1, 2, 3] [2]) \<inter> set (AddSlots [4] [2]) = {}
       \<and> distinct (RemoveSlots [1, 2, 3] [2]) \<and> distinct (AddSlots [4] [2])
       \<and> Contains (AddSlots [4] [2]) 2"
  using move_slots_ownership [of "[2]" "[1, 2, 3]" "[4]"] by simp

text \<open>
  \<^verbatim>\<open>RemoveSlots\<close> removes every occurrence of the named slots and keeps the rest in order, also
  when either list holds duplicates, although its comment says it does not work then; \<^verbatim>\<open>RemoveSlot\<close>
  removes the first occurrence only.
\<close>

theorem RemoveSlots_spec:
  "RemoveSlots slots removed = filter (\<lambda>s. s \<notin> set removed) slots \<and>
   mset (RemoveSlot slots r) = mset slots - {#r#}"
  by (simp add: RemoveSlots_filter RemoveSlot_remove1)

end
