(* ===== verification/Common_Utils.thy ===== *)
theory Common_Utils
  imports Go_Strings
begin

text \<open>
  The package \<^verbatim>\<open>utils/commonutils\<close>: joining strings through a byte buffer, merging label maps,
  the comparison functions of the status code, the memory sizes of \<^verbatim>\<open>maxmemory\<close> settings, the
  mapping of renamed commands and the rule that decides which objects the operator manages.
\<close>

section \<open>Joining strings\<close>

text \<open>
  \<^verbatim>\<open>copy(b[bp:], s)\<close>: overwrite the buffer from position \<open>bp\<close> on, as far as it reaches; the
  result is the buffer and the number of bytes copied.
\<close>

definition copy_at :: "string \<Rightarrow> nat \<Rightarrow> string \<Rightarrow> string \<times> nat" where
  "copy_at b bp s =
     (let k = min (length s) (length b - bp) in (take bp b @ take k s @ drop (bp + k) b, k))"

fun SliceJoin_copy :: "string list \<Rightarrow> string \<Rightarrow> string \<Rightarrow> nat \<Rightarrow> string" where
  "SliceJoin_copy [] sep b bp = b"
| "SliceJoin_copy (s # a) sep b bp =
     (case copy_at b bp sep of
        (b1, k1) \<Rightarrow> case copy_at b1 (bp + k1) s of
          (b2, k2) \<Rightarrow> SliceJoin_copy a sep b2 (bp + k1 + k2))"

text \<open>The stringers are given by their strings.\<close>

definition SliceJoin :: "string list \<Rightarrow> string \<Rightarrow> string" where
  "SliceJoin a sep =
     (if length a = 0 then ''''
      else if length a = 1 then a ! 0
      else if length a = 2 then a ! 0 @ sep @ a ! 1
      else if length a = 3 then a ! 0 @ sep @ a ! 1 @ sep @ a ! 2
      else
        let n = foldl (\<lambda>n s. n + length s) (length sep * (length a - 1)) a;
            b = replicate n (CHR 0x00);
            (b1, bp) = copy_at b 0 (a ! 0)
        in SliceJoin_copy (tl a) sep b1 bp)"

lemma short_list_cases:
  obtains "a = []" | x where "a = [x]" | x y where "a = [x, y]" | x y z where "a = [x, y, z]"
    | x xs where "a = x # xs" "length xs \<ge> 3"
proof (cases "length a \<ge> 4")
  case True
  then show thesis using that(5) by (cases a) auto
next
  case False
  then have "length a = 0 \<or> length a = 1 \<or> length a = 2 \<or> length a = 3" by linarith
  then show thesis using that(1-4) by (auto simp: length_Suc_conv numeral_2_eq_2 numeral_3_eq_3)
qed

lemma copy_at_fits:
  assumes "bp = length w" and "length s \<le> length r"
  shows "copy_at (w @ r) bp s = (w @ s @ drop (length s) r, length s)"
  using assms by (simp add: copy_at_def min_def Let_def)

lemma foldl_length: "foldl (\<lambda>n s. n + length s) k a = k + length (concat a)"
  by (induction a arbitrary: k) simp_all

lemma SliceJoin_copy_fills:
  assumes "length r = length (concat (map (\<lambda>s. sep @ s) a))"
  shows "SliceJoin_copy a sep (w @ r) (length w) = w @ concat (map (\<lambda>s. sep @ s) a)"
  using assms
proof (induction a arbitrary: w r)
  case Nil
  then show ?case by simp
next
  case (Cons s a)
  let ?r1 = "drop (length sep) r" and ?r2 = "drop (length s) (drop (length sep) r)"
  have 1: "copy_at (w @ r) (length w) sep = (w @ sep @ ?r1, length sep)"
    by (rule copy_at_fits) (use Cons.prems in auto)
  have 2: "copy_at ((w @ sep) @ ?r1) (length w + length sep) s = ((w @ sep) @ s @ ?r2, length s)"
    by (rule copy_at_fits) (use Cons.prems in auto)
  have "length ?r2 = length (concat (map (\<lambda>s. sep @ s) a))" using Cons.prems by simp
  from Cons.IH [OF this, of "w @ sep @ s"] 1 2 show ?case
    by (simp add: add.assoc)
qed

lemma Join_concat: "Join sep (x # xs) = x @ concat (map (\<lambda>s. sep @ s) xs)"
  by (induction xs arbitrary: x) simp_all

lemma length_seps: "length (concat (map (\<lambda>s. sep @ s) xs)) = length sep * length xs + length (concat xs)"
  by (induction xs) simp_all

section \<open>Labels, comparisons\<close>

text \<open>A label map is given by its entries in the order in which the loop visits them.\<close>

definition MergeLabels :: "(string \<times> string) list list \<Rightarrow> (string \<rightharpoonup> string)" where
  "MergeLabels allLabels =
     foldl (\<lambda>res labels. foldl (\<lambda>res (k, v). res(k \<mapsto> v)) res labels) Map.empty allLabels"

definition Int32 :: "int option \<Rightarrow> int" where
  "Int32 v = (case v of Some i \<Rightarrow> i | None \<Rightarrow> 0)"

definition CompareIntValue :: "int option \<Rightarrow> int option \<Rightarrow> bool" where
  "CompareIntValue old new =
     (case (old, new) of
        (None, None) \<Rightarrow> True
      | (None, _) \<Rightarrow> False
      | (_, None) \<Rightarrow> False
      | (Some o', Some n) \<Rightarrow> if o' \<noteq> n then True else False)"

definition CompareInt32 :: "int \<Rightarrow> int \<Rightarrow> bool" where
  "CompareInt32 old new = (if old \<noteq> new then True else False)"

definition CompareStringValue :: "string \<Rightarrow> string \<Rightarrow> bool" where
  "CompareStringValue old new = (if old \<noteq> new then True else False)"

lemma foldl_upd_map_of:
  "distinct (map fst labels) \<Longrightarrow> foldl (\<lambda>res (k, v). res(k \<mapsto> v)) m labels = m ++ map_of labels"
proof (induction labels arbitrary: m)
  case Nil
  then show ?case by simp
next
  case (Cons kv labels)
  obtain k v where kv: "kv = (k, v)" by (cases kv)
  have "k \<notin> dom (map_of labels)" using Cons.prems by (auto simp: kv dom_map_of_conv_image_fst)
  then have "m(k \<mapsto> v) ++ map_of labels = m ++ map_of (kv # labels)"
    by (auto simp: kv map_add_def fun_eq_iff split: option.splits)
  with Cons show ?case by (simp add: kv del: fun_upd_apply)
qed

section \<open>Memory sizes\<close>

text \<open>\<^verbatim>\<open>val*mul\<close> on \<^verbatim>\<open>int64\<close>: the product modulo \<open>2 ^ 64\<close>, read as a signed number.\<close>

definition wrap_int64 :: "int \<Rightarrow> int" where
  "wrap_int64 i = (i + 2 ^ 63) mod 2 ^ 64 - 2 ^ 63"

definition ParseRedisMemConf :: "string \<Rightarrow> string \<times> err option" where
  "ParseRedisMemConf p =
     (let u = ToLower p;
          (digits, mul) =
            (if HasSuffix u ''k'' then (take (length u - 1) u, 1000)
             else if HasSuffix u ''kb'' then (take (length u - 2) u, 1024)
             else if HasSuffix u ''m'' then (take (length u - 1) u, 1000 * 1000)
             else if HasSuffix u ''mb'' then (take (length u - 2) u, 1024 * 1024)
             else if HasSuffix u ''g'' then (take (length u - 1) u, 1000 * 1000 * 1000)
             else if HasSuffix u ''gb'' then (take (length u - 2) u, 1024 * 1024 * 1024)
             else if HasSuffix u ''b'' then (take (length u - 1) u, 1)
             else (u, 1))
      in case ParseInt digits of
           (val, e) \<Rightarrow> if e \<noteq> None then ('''', e) else (Itoa (wrap_int64 (val * mul)), None))"

text \<open>The units and their factors.\<close>

definition mem_units :: "(string \<times> int) list" where
  "mem_units = [('''', 1), (''b'', 1), (''k'', 1000), (''kb'', 1024), (''m'', 1000 ^ 2), (''mb'', 1024 ^ 2),
                (''g'', 1000 ^ 3), (''gb'', 1024 ^ 3)]"

lemma wrap_int64_id: "- (2 ^ 63) \<le> i \<Longrightarrow> i < 2 ^ 63 \<Longrightarrow> wrap_int64 i = i"
  by (simp add: wrap_int64_def mod_pos_pos_trivial)

lemma HasSuffix_last:
  "HasSuffix (s @ [c]) (p @ [d]) \<longleftrightarrow> c = d \<and> HasSuffix s p"
  by (auto simp: HasSuffix_def Suc_le_eq)

lemma HasSuffix_one: "HasSuffix s [d] \<longleftrightarrow> s \<noteq> [] \<and> last s = d"
  by (cases s rule: rev_cases) (auto simp: HasSuffix_def)

lemma HasSuffix_two: "HasSuffix s [c, d] \<longleftrightarrow> s \<noteq> [] \<and> last s = d \<and> HasSuffix (butlast s) [c]"
proof (cases s rule: rev_cases)
  case Nil
  then show ?thesis by (simp add: HasSuffix_def)
next
  case (snoc t x)
  then show ?thesis using HasSuffix_last [of t x "[c]" d] by auto
qed

lemma last_format_nat: "is_digit (last (format_nat n))"
  using format_nat_digits [OF last_in_set] by simp

lemma last_format_nat_unit [simp]:
  "last (format_nat n) \<noteq> CHR ''k''" "last (format_nat n) \<noteq> CHR ''m''"
  "last (format_nat n) \<noteq> CHR ''g''" "last (format_nat n) \<noteq> CHR ''b''"
proof -
  have "\<not> is_digit (CHR ''k'')" "\<not> is_digit (CHR ''m'')" "\<not> is_digit (CHR ''g'')" "\<not> is_digit (CHR ''b'')"
    by (simp_all add: is_digit_def)
  with last_format_nat [of n] show
    "last (format_nat n) \<noteq> CHR ''k''" "last (format_nat n) \<noteq> CHR ''m''"
    "last (format_nat n) \<noteq> CHR ''g''" "last (format_nat n) \<noteq> CHR ''b''"
    by metis+
qed

lemma ParseInt_format_nat: "n < 2 ^ 63 \<Longrightarrow> ParseInt (format_nat n) = (int n, None)"
  using ParseInt_Itoa [of "int n"] by (simp add: Itoa_def)

section \<open>Renamed commands\<close>

text \<open>
  The file is the parameter: \<open>None\<close> when it cannot be opened, otherwise the lines the scanner
  yields (a scanner error ends them; the mapping built so far is returned either way).
\<close>

definition BuildCommandReplaceMapping :: "string list option \<Rightarrow> (string \<rightharpoonup> string)" where
  "BuildCommandReplaceMapping file =
     (case file of
        None \<Rightarrow> Map.empty
      | Some scanned \<Rightarrow>
          foldl (\<lambda>mapping text.
            let elems = Fields text in
            if length elems = 3 \<and> ToLower (elems ! 0) = ''rename-command''
            then mapping(ToUpper (elems ! 1) \<mapsto> elems ! 2) else mapping)
          Map.empty scanned)"

section \<open>Scope of the operator\<close>

record scope =
  isClusterScoped :: bool
  namespaceList :: "string list"

definition AnnotationScope :: string where "AnnotationScope = ''redis.kun/scope''"
definition AnnotationClusterScoped :: string where "AnnotationClusterScoped = ''cluster-scoped''"
definition AnnotationNamespaceScoped :: string where "AnnotationNamespaceScoped = ''namespace-scoped''"

text \<open>The value of the environment variable \<^verbatim>\<open>WATCH_NAMESPACE\<close>, \<open>None\<close> when it is not set, is a parameter.\<close>

definition GetNamespaceWatchList :: "string option \<Rightarrow> err + string list" where
  "GetNamespaceWatchList v =
     (case v of
        None \<Rightarrow> Inl (Errorf ''%s must be set'' [''WATCH_NAMESPACE''])
      | Some namespaces \<Rightarrow>
          if CHR '','' \<in> set namespaces then Inr (Split (CHR '','') namespaces) else Inr [namespaces])"

definition GenerateNamespaceList :: "string option \<Rightarrow> scope \<Rightarrow> scope \<times> err option" where
  "GenerateNamespaceList v sc =
     (case GetNamespaceWatchList v of
        Inl e \<Rightarrow> (sc\<lparr>namespaceList := []\<rparr>, Some e)
      | Inr l \<Rightarrow> (sc\<lparr>namespaceList := l\<rparr>, None))"

definition SetOperatorScope :: "string option \<Rightarrow> scope \<Rightarrow> scope" where
  "SetOperatorScope v sc =
     (if v = None \<or> v = Some '''' then sc\<lparr>isClusterScoped := True\<rparr> else sc\<lparr>isClusterScoped := False\<rparr>)"

fun namespace_watched :: "string \<Rightarrow> string list \<Rightarrow> bool" where
  "namespace_watched n [] = False"
| "namespace_watched n (namespace # l) = (if n = namespace then True else namespace_watched n l)"

definition ShoudManage :: "scope \<Rightarrow> string \<Rightarrow> (string \<rightharpoonup> string) \<Rightarrow> bool" where
  "ShoudManage sc ns annotations =
     (case annotations AnnotationScope of
        Some v \<Rightarrow>
          if isClusterScoped sc then v = AnnotationClusterScoped
          else if v = AnnotationNamespaceScoped then namespace_watched ns (namespaceList sc) else False
      | None \<Rightarrow> if \<not> isClusterScoped sc then namespace_watched ns (namespaceList sc) else False)"

lemma namespace_watched_iff [simp]: "namespace_watched n l \<longleftrightarrow> n \<in> set l"
  by (induction l) auto

section \<open>Properties\<close>

text \<open>
  \<^verbatim>\<open>SliceJoin\<close>, which computes the length of the result first and then copies the pieces into a
  buffer of that length, is the plain join: the buffer is filled exactly, nothing is cut off and no
  zero byte remains, for every number of strings.
\<close>

theorem SliceJoin_eq_Join: "SliceJoin a sep = Join sep a"
proof -
  consider "a = []" | x where "a = [x]" | x y where "a = [x, y]" | x y z where "a = [x, y, z]"
    | x xs where "a = x # xs" "length xs \<ge> 3"
    by (rule short_list_cases)
  then show ?thesis
  proof cases
    case 5
    let ?n = "length sep * length xs + length (concat a)"
    let ?r = "replicate (length sep * length xs + length (concat xs)) (CHR 0x00)"
    have "copy_at (replicate ?n (CHR 0x00)) 0 x = (x @ ?r, length x)"
      using copy_at_fits [of 0 "[]" x "replicate ?n (CHR 0x00)"] by (simp add: 5)
    moreover have "SliceJoin_copy xs sep (x @ ?r) (length x) = x @ concat (map (\<lambda>s. sep @ s) xs)"
      by (rule SliceJoin_copy_fills) (simp only: length_seps length_replicate)
    ultimately show ?thesis
      using 5 by (simp add: SliceJoin_def foldl_length Join_concat)
  qed (simp_all add: SliceJoin_def)
qed

text \<open>
  \<^verbatim>\<open>ParseRedisMemConf\<close> on a decimal number with any unit the redis configuration knows, in
  lower or upper case, returns the number of bytes in decimal, with the product taken modulo
  \<open>2 ^ 64\<close>: within the range of \<^verbatim>\<open>int64\<close> it is exact, beyond it wraps around without an error.
\<close>

theorem ParseRedisMemConf_spec:
  assumes "n < 2 ^ 63" and "(ToLower unit, mul) \<in> set mem_units"
  shows "ParseRedisMemConf (format_nat n @ unit) = (Itoa (wrap_int64 (int n * mul)), None)
       \<and> (int n * mul < 2 ^ 63 \<longrightarrow>
            ParseInt (fst (ParseRedisMemConf (format_nat n @ unit))) = (int n * mul, None))"
proof
  have "ToLower (format_nat n @ unit) = format_nat n @ ToLower unit" by simp
  with assms show eq: "ParseRedisMemConf (format_nat n @ unit) = (Itoa (wrap_int64 (int n * mul)), None)"
    unfolding ParseRedisMemConf_def mem_units_def
    by (auto simp: HasSuffix_one HasSuffix_two butlast_append ParseInt_format_nat Let_def)
  have "mul > 0" using assms(2) by (auto simp: mem_units_def)
  then have "0 \<le> int n * mul" by (intro mult_nonneg_nonneg) simp_all
  then have "- (2 ^ 63) \<le> int n * mul" by (rule order_trans [rotated]) simp
  then show "int n * mul < 2 ^ 63 \<longrightarrow>
      ParseInt (fst (ParseRedisMemConf (format_nat n @ unit))) = (int n * mul, None)"
    using wrap_int64_id [of "int n * mul"] ParseInt_Itoa [of "int n * mul"] by (simp add: eq)
qed

theorem ParseRedisMemConf_spec_witness:
  "ParseRedisMemConf (format_nat 2 @ ''GB'') = (Itoa (wrap_int64 (int 2 * 1024 ^ 3)), None)
       \<and> ParseInt (fst (ParseRedisMemConf (format_nat 2 @ ''GB''))) = (int 2 * 1024 ^ 3, None)"
proof -
  have "2 < (2 :: nat) ^ 63" and small: "int 2 * 1024 ^ 3 < 2 ^ 63" by simp_all
  moreover have "(ToLower ''GB'', 1024 ^ 3) \<in> set mem_units" by code_simp
  ultimately show ?thesis using ParseRedisMemConf_spec [of 2 "''GB''" "1024 ^ 3"] by blast
qed

text \<open>
  \<^verbatim>\<open>MergeLabels\<close> gives every key the value of the last map that has it, whatever the order in
  which the entries of each map are visited: the result is the override of the argument maps from
  left to right.
\<close>

theorem MergeLabels_override:
  assumes "\<forall>l \<in> set allLabels. distinct (map fst l)"
  shows "MergeLabels allLabels = foldl (++) Map.empty (map map_of allLabels)"
proof -
  have "foldl (\<lambda>res labels. foldl (\<lambda>res (k, v). res(k \<mapsto> v)) res labels) m allLabels
      = foldl (++) m (map map_of allLabels)" for m
    using assms by (induction allLabels arbitrary: m) (simp_all add: foldl_upd_map_of)
  then show ?thesis by (simp add: MergeLabels_def)
qed

theorem MergeLabels_override_witness:
  "MergeLabels [[(''a'', ''1''), (''b'', ''2'')], [(''b'', ''3'')]]
     = foldl (++) Map.empty (map map_of [[(''a'', ''1''), (''b'', ''2'')], [(''b'', ''3'')]])"
  by (rule MergeLabels_override) simp

text \<open>
  which objects the operator manages. A cluster-scoped operator manages exactly the objects
  annotated \<^verbatim>\<open>cluster-scoped\<close>; a namespace-scoped one manages the objects of the watched namespaces
  that carry no scope annotation or the annotation \<^verbatim>\<open>namespace-scoped\<close>; the two kinds of operator
  never manage the same object.
\<close>

theorem ShoudManage_spec:
  "ShoudManage sc ns ann \<longleftrightarrow>
     (if isClusterScoped sc then ann AnnotationScope = Some AnnotationClusterScoped
      else ns \<in> set (namespaceList sc) \<and>
           (ann AnnotationScope = None \<or> ann AnnotationScope = Some AnnotationNamespaceScoped))
   \<and> \<not> (ShoudManage sc ns ann \<and> ShoudManage (sc\<lparr>isClusterScoped := \<not> isClusterScoped sc\<rparr>) ns ann)"
  by (auto simp: ShoudManage_def AnnotationClusterScoped_def AnnotationNamespaceScoped_def
      split: option.splits)

end
