(* ===== verification/Api_Types.thy ===== *)
theory Api_Types
  imports Go_Strings Common_Utils
begin

text \<open>
  The types and constants of \<^verbatim>\<open>api/v1alpha1\<close> that the operator's logic reads and writes: roles and
  statuses, the custom resource with the part of its specification the modelled code uses, its
  defaulting (\<^verbatim>\<open>default.go\<close>) and the rules of the admission webhook; and the part of a Kubernetes
  pod the operator looks at.
\<close>

section \<open>Constants\<close>

datatype RedisRole =
  RedisClusterNodeRoleMaster | RedisClusterNodeRoleSlave | RedisClusterNodeRoleNone

type_synonym ClusterStatus = string
type_synonym HaStatus = string

definition ClusterStatusOK :: ClusterStatus where "ClusterStatusOK = ''Healthy''"
definition ClusterStatusNOK :: ClusterStatus where "ClusterStatusNOK = ''NotHealthy''"
definition ClusterStatusKO :: ClusterStatus where "ClusterStatusKO = ''Failed''"
definition ClusterStatusCreating :: ClusterStatus where "ClusterStatusCreating = ''Creating''"
definition ClusterStatusScaling :: ClusterStatus where "ClusterStatusScaling = ''Scaling''"
definition ClusterStatusCalculatingRebalancing :: ClusterStatus where
  "ClusterStatusCalculatingRebalancing = ''Calculating Rebalancing''"
definition ClusterStatusRebalancing :: ClusterStatus where "ClusterStatusRebalancing = ''Rebalancing''"
definition ClusterStatusRollingUpdate :: ClusterStatus where
  "ClusterStatusRollingUpdate = ''RollingUpdate''"
definition ClusterStatusOnDelete :: ClusterStatus where "ClusterStatusOnDelete = ''OnDelete''"
definition ClusterStatusResetPassword :: ClusterStatus where
  "ClusterStatusResetPassword = ''ResetPassword''"

definition HaStatusCreating :: HaStatus where "HaStatusCreating = ''hacreating''"
definition HaStatusHealthy :: HaStatus where "HaStatusHealthy = ''hahealthy''"
definition HaStatusRedistribute :: HaStatus where "HaStatusRedistribute = ''haredistribute''"
definition HaStatusFailed :: HaStatus where "HaStatusFailed = ''hafailed''"

definition RedisSyncing :: string where "RedisSyncing = ''master_sync_in_progress:1''"
definition RedisMasterSillPending :: string where "RedisMasterSillPending = ''master_host:127.0.0.1''"
definition RedisLinkUp :: string where "RedisLinkUp = ''master_link_status:up''"

definition OperatorName :: string where "OperatorName = ''redis-cluster-operator''"
definition LabelManagedByKey :: string where "LabelManagedByKey = ''managed-by''"
definition LabelClusterName :: string where "LabelClusterName = ''redis.kun/name''"
definition StatefulSetLabel :: string where "StatefulSetLabel = ''statefulSet''"
definition ShardLabel :: string where "ShardLabel = ''shard''"
definition PasswordENV :: string where "PasswordENV = ''REDIS_PASSWORD''"
definition DistributedRedisClusterKind :: string where "DistributedRedisClusterKind = ''DistributedRedisCluster''"
definition PersistentClaim :: string where "PersistentClaim = ''persistent-claim''"
definition Ephemeral :: string where "Ephemeral = ''ephemeral''"
definition RedisRoleLabelKey :: string where "RedisRoleLabelKey = ''role''"
definition PodEvictAnnotation :: string where "PodEvictAnnotation = ''cluster-autoscaler.kubernetes.io/safe-to-evict''"

definition RestorePhaseRunning :: string where "RestorePhaseRunning = ''Running''"
definition RestorePhaseRestart :: string where "RestorePhaseRestart = ''Restart''"
definition RestorePhaseSucceeded :: string where "RestorePhaseSucceeded = ''Succeeded''"

datatype NodesPlacementInfo = NodesPlacementInfoBestEffort | NodesPlacementInfoOptimal

section \<open>The custom resource\<close>

record HAspec =
  ha_HaEnabled :: bool
  ha_ZonesInfo :: "string \<rightharpoonup> string"

text \<open>\<^verbatim>\<open>corev1.ResourceRequirements\<close> as its two resource lists; \<^verbatim>\<open>Size()\<close> is 0 when both are empty.\<close>

record ResourceRequirements =
  rr_Requests :: "(string \<times> string) list"
  rr_Limits :: "(string \<times> string) list"

text \<open>
  The parts of \<^verbatim>\<open>corev1.EnvVar\<close>, \<^verbatim>\<open>corev1.Container\<close> and \<^verbatim>\<open>corev1.Affinity\<close> that the operator writes or compares. A value of a
  Kubernetes type that it only passes on (a probe, a security context, tolerations) is a \<open>k8s_value\<close>, its text.
\<close>

type_synonym k8s_value = string

datatype env_source = FieldRef string | SecretKeyRef string string | OtherSource k8s_value

record EnvVar =
  env_Name :: string
  env_Value :: string
  env_ValueFrom :: "env_source option"

record Container =
  ct_Name :: string
  ct_Image :: string
  ct_ImagePullPolicy :: string
  ct_SecurityContext :: "k8s_value option"
  ct_Ports :: "(string \<times> int \<times> string) list"
  ct_VolumeMounts :: "(string \<times> string) list"
  ct_Command :: "string list"
  ct_Args :: "string list option"
  ct_LivenessProbe :: "k8s_value option"
  ct_ReadinessProbe :: "k8s_value option"
  ct_StartupProbe :: "k8s_value option"
  ct_Env :: "EnvVar list"
  ct_Resources :: ResourceRequirements
  ct_PostStart :: "string list"
  ct_PreStop :: "string list"

record affinity_term =
  at_TopologyKey :: string
  at_MatchLabels :: "string \<rightharpoonup> string"

datatype Affinity = PodAntiAffinity "(int \<times> affinity_term) list" "affinity_term list" | OtherAffinity k8s_value

record RedisStorage =
  sg_Size :: string
  sg_Type :: string
  sg_Class :: string
  sg_DeleteClaim :: bool

record BackupSourceSpec =
  bs_Namespace :: string
  bs_Name :: string

record RestoreSpec =
  rs_BackupSource :: "BackupSourceSpec option"

text \<open>\<^verbatim>\<open>AgentSpec\<close> is a monitoring container; of its \<^verbatim>\<open>PrometheusSpec\<close> the port and the name are read.\<close>

record PrometheusSpec =
  pr_Port :: int
  pr_Name :: string

record AgentSpec =
  ag_Name :: string
  ag_Image :: string
  ag_Prometheus :: "PrometheusSpec option"
  ag_Command :: "string list"
  ag_Args :: "string list option"
  ag_Env :: "EnvVar list"
  ag_Resources :: ResourceRequirements
  ag_SecurityContext :: "k8s_value option"

text \<open>\<^verbatim>\<open>Config\<close> may be the nil map, which cannot be written to; a secret is given by its name.\<close>

record DistributedRedisClusterSpec =
  spec_InitContainers :: "Container list"
  spec_Image :: string
  spec_ImagePullPolicy :: string
  spec_ImagePullSecrets :: "string list"
  spec_Command :: "string list"
  spec_Env :: "EnvVar list"
  spec_MasterSize :: int
  spec_ClusterReplicas :: int
  spec_ServiceName :: string
  spec_Config :: "(string \<rightharpoonup> string) option"
  spec_HaConfig :: "HAspec option"
  spec_RequiredAntiAffinity :: bool
  spec_Affinity :: "Affinity option"
  spec_NodeSelector :: "string \<rightharpoonup> string"
  spec_ToleRations :: "k8s_value list"
  spec_SecurityContext :: "k8s_value option"
  spec_ContainerSecurityContext :: "k8s_value option"
  spec_Annotations :: "string \<rightharpoonup> string"
  spec_Storage :: "RedisStorage option"
  spec_Resources :: "ResourceRequirements option"
  spec_AdminSecret :: "string option"
  spec_DefaultSecret :: "string option"
  spec_AdditionalSecret :: "string list"
  spec_UtilConfig :: string
  spec_Monitor :: "AgentSpec list option"
  spec_Restore :: "RestoreSpec option"
  spec_TerminationGracePeriod :: "int option"
  spec_CustomLivenessProbe :: k8s_value
  spec_CustomReadinessProbe :: k8s_value
  spec_CustomStartupProbe :: k8s_value
  spec_PdbEnabled :: bool

record RedisClusterNode =
  cn_ID :: string
  cn_Role :: RedisRole
  cn_IP :: string
  cn_Port :: string
  cn_Slots :: "string list"
  cn_MasterRef :: string
  cn_PodName :: string
  cn_NodeName :: string
  cn_Zonename :: string
  cn_StatefulSet :: string

record DistributedRedisClusterStatus =
  st_Status :: ClusterStatus
  st_HAStatus :: HaStatus
  st_SecretStatus :: string
  st_SecretsVer :: "string \<rightharpoonup> string"
  st_Reason :: string
  st_NumberOfMaster :: int
  st_MinReplicationFactor :: int
  st_MaxReplicationFactor :: int
  st_Nodes :: "RedisClusterNode list"
  st_RestorePhase :: string

text \<open>The labels are given by their entries in the order in which a loop visits them.\<close>

record DistributedRedisCluster =
  drc_Name :: string
  drc_Namespace :: string
  drc_Labels :: "(string \<times> string) list"
  drc_Annotations :: "string \<rightharpoonup> string"
  drc_Spec :: DistributedRedisClusterSpec
  drc_Status :: DistributedRedisClusterStatus

section \<open>Pods\<close>

text \<open>The fields of \<^verbatim>\<open>corev1.Pod\<close> the operator reads; times are counted in nanoseconds.\<close>

record Pod =
  pod_Name :: string
  pod_Labels :: "string \<rightharpoonup> string"
  pod_Annotations :: "string \<rightharpoonup> string"
  pod_DeletionTimestamp :: "int option"
  pod_OwnerReferences :: "(string \<times> string) list"
  pod_NodeName :: string
  pod_Ports :: "(string \<times> (string \<times> int) list) list"
  pod_PodIP :: string
  pod_Phase :: string

section \<open>Defaults\<close>

definition minMasterSize :: int where "minMasterSize = 3"
definition defaultRedisImage :: string where "defaultRedisImage = ''redis:5.0.4-alpine''"

definition defaultResource :: ResourceRequirements where
  "defaultResource = \<lparr>rr_Requests = [(''cpu'', ''200m''), (''memory'', ''2Gi'')],
                      rr_Limits = [(''cpu'', ''1000m''), (''memory'', ''4Gi'')]\<rparr>"

definition DefaultSpec :: "DistributedRedisCluster \<Rightarrow> DistributedRedisCluster \<times> bool" where
  "DefaultSpec drc =
     (let update = False; spec = drc_Spec drc;
          (spec, update) = (if spec_MasterSize spec < minMasterSize
             then (spec\<lparr>spec_MasterSize := minMasterSize\<rparr>, True) else (spec, update));
          (spec, update) = (if spec_Image spec = ''''
             then (spec\<lparr>spec_Image := defaultRedisImage\<rparr>, True) else (spec, update));
          (spec, update) = (if spec_ServiceName spec = ''''
             then (spec\<lparr>spec_ServiceName := drc_Name drc\<rparr>, True) else (spec, update));
          (spec, update) = (case spec_Resources spec of
               None \<Rightarrow> (spec\<lparr>spec_Resources := Some defaultResource\<rparr>, True)
             | Some r \<Rightarrow> if rr_Requests r = [] \<and> rr_Limits r = []
                 then (spec\<lparr>spec_Resources := Some defaultResource\<rparr>, True) else (spec, update))
      in (drc\<lparr>drc_Spec := spec\<rparr>, update))"

text \<open>An owner is given by its kind and its name.\<close>

definition DefaultOwnerReferences :: "DistributedRedisCluster \<Rightarrow> (string \<times> string) list" where
  "DefaultOwnerReferences cluster = [(DistributedRedisClusterKind, drc_Name cluster)]"

definition IsRestoreFromBackup :: "DistributedRedisCluster \<Rightarrow> bool" where
  "IsRestoreFromBackup drc =
     (case spec_Restore (drc_Spec drc) of None \<Rightarrow> False | Some r \<Rightarrow> rs_BackupSource r \<noteq> None)"

definition IsRestored :: "DistributedRedisCluster \<Rightarrow> bool" where
  "IsRestored drc \<longleftrightarrow> st_RestorePhase (drc_Status drc) = RestorePhaseSucceeded"

definition ShouldInitRestorePhase :: "DistributedRedisCluster \<Rightarrow> bool" where
  "ShouldInitRestorePhase drc \<longleftrightarrow> st_RestorePhase (drc_Status drc) = ''''"

definition IsRestoreRunning :: "DistributedRedisCluster \<Rightarrow> bool" where
  "IsRestoreRunning drc \<longleftrightarrow> st_RestorePhase (drc_Status drc) = RestorePhaseRunning"

definition IsRestoreRestarting :: "DistributedRedisCluster \<Rightarrow> bool" where
  "IsRestoreRestarting drc \<longleftrightarrow> st_RestorePhase (drc_Status drc) = RestorePhaseRestart"

section \<open>Admission webhook\<close>

text \<open>
  \<^verbatim>\<open>utilvalidation.IsDNS1035Label\<close> belongs to the Kubernetes libraries: it is the parameter
  \<open>isDNS1035Label\<close>, which returns the list of complaints.
\<close>

definition ValidateCreate :: "(string \<Rightarrow> string list) \<Rightarrow> DistributedRedisCluster \<Rightarrow> err option" where
  "ValidateCreate isDNS1035Label r =
     (let name = spec_ServiceName (drc_Spec r); errs = isDNS1035Label name in
      if length name > 0 \<and> length errs > 0
      then Some (Errorf ''the custom service is invalid: invalid value: %s, %s'' [name, Join '','' errs])
      else None)"

definition compareObj :: "DistributedRedisCluster \<Rightarrow> DistributedRedisCluster \<Rightarrow> bool" where
  "compareObj new old =
     (if CompareInt32 (spec_MasterSize (drc_Spec new)) (spec_MasterSize (drc_Spec old)) then True
      else if CompareStringValue (spec_Image (drc_Spec new)) (spec_Image (drc_Spec old)) then True
      else if spec_Resources (drc_Spec new) \<noteq> spec_Resources (drc_Spec old) then True
      else if spec_AdminSecret (drc_Spec new) \<noteq> spec_AdminSecret (drc_Spec old) then True
      else False)"

text \<open>The old object is \<open>None\<close> when the type assertion on it fails.\<close>

definition ValidateUpdate ::
    "(string \<Rightarrow> string list) \<Rightarrow> DistributedRedisCluster \<Rightarrow> DistributedRedisCluster option \<Rightarrow> err option" where
  "ValidateUpdate isDNS1035Label r old =
     (case old of
        None \<Rightarrow> Some (Errorf ''invalid obj type'' [])
      | Some oldObj \<Rightarrow>
          let name = spec_ServiceName (drc_Spec r); errs = isDNS1035Label name in
          if length name > 0 \<and> length errs > 0
          then Some (Errorf ''the custom service is invalid: invalid value: %s, %s'' [name, Join '','' errs])
          else if st_Status (drc_Status oldObj) = '''' then None
          else if compareObj r oldObj \<and> st_Status (drc_Status oldObj) \<noteq> ClusterStatusOK
          then Some (Errorf ''redis cluster status: [%s], wait for the status to become %s before operating''
                 [st_Status (drc_Status oldObj), ClusterStatusOK])
          else None)"

text \<open>The four defaults as one record update.\<close>

definition defaulted_spec :: "string \<Rightarrow> DistributedRedisClusterSpec \<Rightarrow> DistributedRedisClusterSpec" where
  "defaulted_spec name s = s\<lparr>spec_MasterSize := max minMasterSize (spec_MasterSize s),
     spec_Image := (if spec_Image s = '''' then defaultRedisImage else spec_Image s),
     spec_ServiceName := (if spec_ServiceName s = '''' then name else spec_ServiceName s),
     spec_Resources := (case spec_Resources s of
         None \<Rightarrow> Some defaultResource
       | Some r \<Rightarrow> if rr_Requests r = [] \<and> rr_Limits r = [] then Some defaultResource else Some r)\<rparr>"

lemma defaulted_fields:
  "spec_MasterSize (defaulted_spec name s) \<ge> 3"
  "spec_Image (defaulted_spec name s) \<noteq> ''''"
  "name \<noteq> '''' \<Longrightarrow> spec_ServiceName (defaulted_spec name s) \<noteq> ''''"
  "spec_Resources (defaulted_spec name s) \<noteq> None"
  by (simp_all add: defaulted_spec_def minMasterSize_def defaultRedisImage_def split: option.splits)

lemma defaulted_spec_idem:
  "name \<noteq> '''' \<Longrightarrow> defaulted_spec name (defaulted_spec name s) = defaulted_spec name s"
  by (auto simp: defaulted_spec_def defaultRedisImage_def defaultResource_def split: option.splits)

lemma DefaultSpec_eq:
  assumes "drc_Name drc \<noteq> ''''"
  shows "DefaultSpec drc = (drc\<lparr>drc_Spec := defaulted_spec (drc_Name drc) (drc_Spec drc)\<rparr>,
                        defaulted_spec (drc_Name drc) (drc_Spec drc) \<noteq> drc_Spec drc)"
proof (cases "drc_Spec drc")
  case (fields ic im ip ips co en ms cr sn cf hc ra af nd tr sc cs an sg rr as ds ad uc mo re tg lp rp sp pd)
  then show ?thesis
    using assms
    by (cases rr)
      (simp_all add: DefaultSpec_def defaulted_spec_def defaultRedisImage_def defaultResource_def
        minMasterSize_def Let_def max_def, auto)
qed

text \<open>A specification with nothing set, for the examples.\<close>

definition example_spec :: DistributedRedisClusterSpec where
  "example_spec = \<lparr>spec_InitContainers = [], spec_Image = '''', spec_ImagePullPolicy = '''', spec_ImagePullSecrets = [], spec_Command = [],
     spec_Env = [], spec_MasterSize = 1, spec_ClusterReplicas = 1, spec_ServiceName = '''', spec_Config = None, spec_HaConfig = None,
     spec_RequiredAntiAffinity = False, spec_Affinity = None, spec_NodeSelector = Map.empty, spec_ToleRations = [],
     spec_SecurityContext = None, spec_ContainerSecurityContext = None, spec_Annotations = Map.empty, spec_Storage = None,
     spec_Resources = None, spec_AdminSecret = None, spec_DefaultSecret = None, spec_AdditionalSecret = [], spec_UtilConfig = '''',
     spec_Monitor = None, spec_Restore = None, spec_TerminationGracePeriod = None, spec_CustomLivenessProbe = '''',
     spec_CustomReadinessProbe = '''', spec_CustomStartupProbe = '''', spec_PdbEnabled = False\<rparr>"

definition example_status :: DistributedRedisClusterStatus where
  "example_status = \<lparr>st_Status = ClusterStatusScaling, st_HAStatus = '''', st_SecretStatus = '''',
     st_SecretsVer = Map.empty, st_Reason = '''', st_NumberOfMaster = 0, st_MinReplicationFactor = 0,
     st_MaxReplicationFactor = 0, st_Nodes = [], st_RestorePhase = ''''\<rparr>"

definition example_drc :: DistributedRedisCluster where
  "example_drc = \<lparr>drc_Name = ''c'', drc_Namespace = ''n'', drc_Labels = [], drc_Annotations = Map.empty, drc_Spec = example_spec,
     drc_Status = example_status\<rparr>"

section \<open>Properties\<close>

text \<open>
  \<^verbatim>\<open>DefaultSpec\<close> completes the specification: afterwards there are at least three masters, an
  image, a service name (for a named object) and resources; it never changes anything but these
  four fields, reports an update exactly when it changed the object, and changes nothing the
  second time.
\<close>

theorem DefaultSpec_completes:
  assumes "drc_Name drc \<noteq> ''''" and "DefaultSpec drc = (drc', update)"
  shows "spec_MasterSize (drc_Spec drc') \<ge> 3 \<and> spec_Image (drc_Spec drc') \<noteq> '''' \<and>
         spec_ServiceName (drc_Spec drc') \<noteq> '''' \<and> spec_Resources (drc_Spec drc') \<noteq> None \<and>
         (update \<longleftrightarrow> drc' \<noteq> drc) \<and> DefaultSpec drc' = (drc', False) \<and>
         (\<exists>ms im sn rr. drc' = drc\<lparr>drc_Spec := (drc_Spec drc)\<lparr>spec_MasterSize := ms, spec_Image := im,
                                  spec_ServiceName := sn, spec_Resources := rr\<rparr>\<rparr>)"
proof -
  let ?s = "drc_Spec drc"
  have drc': "drc' = drc\<lparr>drc_Spec := defaulted_spec (drc_Name drc) ?s\<rparr>"
    and upd: "update \<longleftrightarrow> defaulted_spec (drc_Name drc) ?s \<noteq> ?s"
    using assms by (simp_all add: DefaultSpec_eq)
  have "drc' = drc \<longleftrightarrow> defaulted_spec (drc_Name drc) ?s = ?s"
    unfolding drc' by (cases drc) auto
  moreover have "DefaultSpec drc' = (drc', False)"
    using defaulted_spec_idem [OF assms(1)] assms(1) by (simp add: DefaultSpec_eq drc')
  moreover have "\<exists>ms im sn rr. drc' = drc\<lparr>drc_Spec := ?s\<lparr>spec_MasterSize := ms, spec_Image := im,
                                  spec_ServiceName := sn, spec_Resources := rr\<rparr>\<rparr>"
    unfolding drc' defaulted_spec_def by blast
  moreover have "drc_Spec drc' = defaulted_spec (drc_Name drc) ?s" by (simp add: drc')
  ultimately show ?thesis
    using assms(1) upd defaulted_fields [of "drc_Name drc" ?s] by (simp only:) blast
qed

theorem DefaultSpec_completes_witness:
  "DefaultSpec example_drc = (fst (DefaultSpec example_drc), True) \<and>
   spec_MasterSize (drc_Spec (fst (DefaultSpec example_drc))) \<ge> 3 \<and>
   DefaultSpec (fst (DefaultSpec example_drc)) = (fst (DefaultSpec example_drc), False)"
proof -
  have e: "DefaultSpec example_drc = (fst (DefaultSpec example_drc), True)"
    by (simp add: DefaultSpec_def example_drc_def example_spec_def Let_def minMasterSize_def)
  have n: "drc_Name example_drc \<noteq> ''''" by (simp add: example_drc_def)
  show ?thesis using e DefaultSpec_completes [OF n e] by blast
qed

text \<open>
  the update webhook: once a status has been reported, a change of the master number, image,
  resources or password secret is admitted only while the cluster is healthy, whatever the service
  name; every other update with a valid service name is admitted.
\<close>

theorem ValidateUpdate_guard:
  assumes "isDNS1035Label (spec_ServiceName (drc_Spec r)) = []" and "st_Status (drc_Status oldObj) \<noteq> ''''"
  shows "ValidateUpdate isDNS1035Label r (Some oldObj) = None \<longleftrightarrow>
           st_Status (drc_Status oldObj) = ClusterStatusOK \<or>
           (spec_MasterSize (drc_Spec r) = spec_MasterSize (drc_Spec oldObj) \<and>
            spec_Image (drc_Spec r) = spec_Image (drc_Spec oldObj) \<and>
            spec_Resources (drc_Spec r) = spec_Resources (drc_Spec oldObj) \<and>
            spec_AdminSecret (drc_Spec r) = spec_AdminSecret (drc_Spec oldObj))"
  using assms by (auto simp: ValidateUpdate_def compareObj_def CompareInt32_def CompareStringValue_def Let_def)

theorem ValidateUpdate_guard_witness:
  "ValidateUpdate (\<lambda>_. []) (example_drc\<lparr>drc_Spec := example_spec\<lparr>spec_MasterSize := 4\<rparr>\<rparr>) (Some example_drc)
     \<noteq> None"
  using ValidateUpdate_guard [of "\<lambda>_. []" "example_drc\<lparr>drc_Spec := example_spec\<lparr>spec_MasterSize := 4\<rparr>\<rparr>" example_drc]
  by (simp add: example_drc_def example_status_def example_spec_def ClusterStatusScaling_def ClusterStatusOK_def)

end
