(* ===== verification/Redis_Node.thy ===== *)
theory Redis_Node
  imports Redis_Slot Api_Types
begin

text \<open>
  The nodes of a redis cluster (\<^verbatim>\<open>utils/redisutil/node.go\<close>), slices of node pointers, and the cluster
  of the operator's view (\<^verbatim>\<open>utils/redisutil/cluster.go\<close>). A method of \<^verbatim>\<open>*Node\<close> that changes its
  receiver returns the changed record. Slices and the cluster hold pointers, since the clustering
  code changes nodes that are reached in several ways: a pointer is a \<open>nref\<close>, and the functions
  on slices take the heap that gives the node behind each pointer.
\<close>

section \<open>Constants and data\<close>

definition DefaultRedisPort :: string where "DefaultRedisPort = ''6379''"
definition RedisMasterRole :: string where "RedisMasterRole = ''master''"
definition RedisSlaveRole :: string where "RedisSlaveRole = ''slave''"
definition RedisLinkStateConnected :: string where "RedisLinkStateConnected = ''connected''"
definition RedisLinkStateDisconnected :: string where "RedisLinkStateDisconnected = ''disconnected''"
definition NodeStatusPFail :: string where "NodeStatusPFail = ''fail?''"
definition NodeStatusFail :: string where "NodeStatusFail = ''fail''"
definition NodeStatusHandshake :: string where "NodeStatusHandshake = ''handshake''"
definition NodeStatusNoAddr :: string where "NodeStatusNoAddr = ''noaddr''"
definition NodeStatusNoFlags :: string where "NodeStatusNoFlags = ''noflags''"

record node =
  n_ID :: string
  n_IP :: string
  n_Port :: string
  n_Role :: string
  n_LinkState :: string
  n_MasterReferent :: string
  n_FailStatus :: "string list"
  n_PingSent :: int
  n_PongRecv :: int
  n_ConfigEpoch :: int
  n_Slots :: "slot list"
  n_balance :: int
  n_MigratingSlots :: "slot \<rightharpoonup> string"
  n_ImportingSlots :: "slot \<rightharpoonup> string"
  n_ServerStartTime :: int
  n_NodeName :: string
  n_Zonename :: string
  n_PodName :: string
  n_StatefulSet :: string

type_synonym nref = nat
type_synonym heap = "nref \<Rightarrow> node"
type_synonym Nodes = "nref list"

definition nodeNotFoundedError :: err where
  "nodeNotFoundedError = ErrConst ''node not founded''"

definition IsNodeNotFoundedError :: "err option \<Rightarrow> bool" where
  "IsNodeNotFoundedError e \<longleftrightarrow> e = Some nodeNotFoundedError"

section \<open>Methods of a node\<close>

definition NewDefaultNode :: node where
  "NewDefaultNode = \<lparr>n_ID = '''', n_IP = '''', n_Port = DefaultRedisPort, n_Role = '''', n_LinkState = '''',
     n_MasterReferent = '''', n_FailStatus = [], n_PingSent = 0, n_PongRecv = 0, n_ConfigEpoch = 0,
     n_Slots = [], n_balance = 0, n_MigratingSlots = Map.empty, n_ImportingSlots = Map.empty,
     n_ServerStartTime = 0, n_NodeName = '''', n_Zonename = '''', n_PodName = '''', n_StatefulSet = ''''\<rparr>"

definition NewNode :: "string \<Rightarrow> string \<Rightarrow> Pod \<Rightarrow> node" where
  "NewNode i ip pod = NewDefaultNode\<lparr>n_ID := i, n_IP := ip, n_PodName := pod_Name pod,
                                     n_NodeName := pod_NodeName pod\<rparr>"

fun SetRole_loop :: "string list \<Rightarrow> node \<Rightarrow> node" where
  "SetRole_loop [] n = n"
| "SetRole_loop (val # vals) n =
     SetRole_loop vals
       (if val = RedisMasterRole then n\<lparr>n_Role := RedisMasterRole\<rparr>
        else if val = RedisSlaveRole then n\<lparr>n_Role := RedisSlaveRole\<rparr> else n)"

definition SetRole :: "node \<Rightarrow> string \<Rightarrow> node \<times> err option" where
  "SetRole n flags =
     (let n' = SetRole_loop (Split (CHR '','') flags) (n\<lparr>n_Role := ''''\<rparr>)
      in (n', if n_Role n' = '''' then Some (Errorf ''node setRole failed'' []) else None))"

definition GetRole :: "node \<Rightarrow> RedisRole" where
  "GetRole n =
     (if n_Role n = RedisMasterRole then RedisClusterNodeRoleMaster
      else if n_Role n = RedisSlaveRole then RedisClusterNodeRoleSlave
      else if n_MasterReferent n \<noteq> '''' then RedisClusterNodeRoleSlave
      else if length (n_Slots n) > 0 then RedisClusterNodeRoleMaster
      else RedisClusterNodeRoleNone)"

definition IPPort :: "node \<Rightarrow> string" where
  "IPPort n = JoinHostPort (n_IP n) (n_Port n)"

definition ToAPINode :: "node \<Rightarrow> RedisClusterNode" where
  "ToAPINode n = \<lparr>cn_ID = n_ID n, cn_Role = GetRole n, cn_IP = n_IP n, cn_Port = '''', cn_Slots = [],
     cn_MasterRef = '''', cn_PodName = n_PodName n, cn_NodeName = '''', cn_Zonename = '''', cn_StatefulSet = ''''\<rparr>"

definition Clear :: "node \<Rightarrow> node" where
  "Clear n = n"

definition Balance :: "node \<Rightarrow> int" where
  "Balance n = n_balance n"

definition SetBalance :: "node \<Rightarrow> int \<Rightarrow> node" where
  "SetBalance n b = n\<lparr>n_balance := b\<rparr>"

definition SetLinkStatus :: "node \<Rightarrow> string \<Rightarrow> node \<times> err option" where
  "SetLinkStatus n status =
     (let n1 = n\<lparr>n_LinkState := ''''\<rparr>;
          n2 = (if status = RedisLinkStateConnected then n1\<lparr>n_LinkState := RedisLinkStateConnected\<rparr>
                else if status = RedisLinkStateDisconnected
                then n1\<lparr>n_LinkState := RedisLinkStateDisconnected\<rparr> else n1)
      in (n2, if n_LinkState n2 = '''' then Some (Errorf ''Node SetLinkStatus failed'' []) else None))"

fun SetFailureStatus_loop :: "string list \<Rightarrow> node \<Rightarrow> node" where
  "SetFailureStatus_loop [] n = n"
| "SetFailureStatus_loop (val # vals) n =
     SetFailureStatus_loop vals
       (if val = NodeStatusFail then n\<lparr>n_FailStatus := n_FailStatus n @ [NodeStatusFail]\<rparr>
        else if val = NodeStatusPFail then n\<lparr>n_FailStatus := n_FailStatus n @ [NodeStatusPFail]\<rparr>
        else if val = NodeStatusHandshake then n\<lparr>n_FailStatus := n_FailStatus n @ [NodeStatusHandshake]\<rparr>
        else if val = NodeStatusNoAddr then n\<lparr>n_FailStatus := n_FailStatus n @ [NodeStatusNoAddr]\<rparr>
        else if val = NodeStatusNoFlags then n\<lparr>n_FailStatus := n_FailStatus n @ [NodeStatusNoFlags]\<rparr>
        else n)"

definition SetFailureStatus :: "node \<Rightarrow> string \<Rightarrow> node" where
  "SetFailureStatus n flags = SetFailureStatus_loop (Split (CHR '','') flags) (n\<lparr>n_FailStatus := []\<rparr>)"

definition SetReferentMaster :: "node \<Rightarrow> string \<Rightarrow> node" where
  "SetReferentMaster n ref =
     (let n' = n\<lparr>n_MasterReferent := ''''\<rparr> in if ref = ''-'' then n' else n'\<lparr>n_MasterReferent := ref\<rparr>)"

definition TotalSlots :: "node \<Rightarrow> int" where
  "TotalSlots n = int (length (n_Slots n))"

fun HasStatus_loop :: "string list \<Rightarrow> string \<Rightarrow> bool" where
  "HasStatus_loop [] flag = False"
| "HasStatus_loop (status # l) flag = (if status = flag then True else HasStatus_loop l flag)"

definition HasStatus :: "node \<Rightarrow> string \<Rightarrow> bool" where
  "HasStatus n flag = HasStatus_loop (n_FailStatus n) flag"

definition IsMasterWithNoSlot :: "node \<Rightarrow> bool" where
  "IsMasterWithNoSlot n =
     (if GetRole n = RedisClusterNodeRoleMaster \<and> TotalSlots n = 0 then True else False)"

definition IsMasterWithSlot :: "node \<Rightarrow> bool" where
  "IsMasterWithSlot n =
     (if GetRole n = RedisClusterNodeRoleMaster \<and> TotalSlots n > 0 then True else False)"

definition IsSlave :: "node \<Rightarrow> bool" where
  "IsSlave n \<longleftrightarrow> GetRole n = RedisClusterNodeRoleSlave"

section \<open>Slices of nodes\<close>

text \<open>
  \<^verbatim>\<open>SortNodes\<close> and \<^verbatim>\<open>SortByFunc(LessByID)\<close> sort the slice in place by id: the result is the slice
  after the call. \<^verbatim>\<open>sort.Sort\<close> leaves the order of nodes with equal ids open; the model takes the
  stable order, and \<open>sorted_nodes_unique\<close> below shows that with distinct ids there is no choice.
\<close>

definition SortNodes :: "heap \<Rightarrow> Nodes \<Rightarrow> Nodes" where
  "SortNodes h ns = sort_key (\<lambda>r. n_ID (h r)) ns"

definition LessByID :: "node \<Rightarrow> node \<Rightarrow> bool" where
  "LessByID n1 n2 \<longleftrightarrow> n_ID n1 < n_ID n2"

definition MoreByID :: "node \<Rightarrow> node \<Rightarrow> bool" where
  "MoreByID n1 n2 \<longleftrightarrow> n_ID n1 > n_ID n2"

text \<open>
  \<^verbatim>\<open>SortByFunc(less)\<close> for an arbitrary order: an insertion sort that puts an element after those it
  is not less than. \<^verbatim>\<open>sort.Sort\<close> is not stable; \<open>met\<close> is the turn in which the sort meets an element, so that
  every arrangement of elements of which none is less than the other is the result for some \<open>met\<close>. For
  \<^verbatim>\<open>LessByID\<close> and distinct ids there is no choice: the result is that of \<^verbatim>\<open>SortNodes\<close> (\<open>SortByFunc_LessByID\<close>).
\<close>

fun insert_by :: "('a \<Rightarrow> 'a \<Rightarrow> bool) \<Rightarrow> 'a \<Rightarrow> 'a list \<Rightarrow> 'a list" where
  "insert_by lt x [] = [x]"
| "insert_by lt x (y # ys) = (if lt y x then y # insert_by lt x ys else x # y # ys)"

definition SortByFunc :: "('a \<Rightarrow> nat) \<Rightarrow> ('a \<Rightarrow> 'a \<Rightarrow> bool) \<Rightarrow> 'a list \<Rightarrow> 'a list" where
  "SortByFunc met lt ns = foldr (insert_by lt) (sort_key met ns) []"

fun FilterByFunc :: "heap \<Rightarrow> (node \<Rightarrow> bool) \<Rightarrow> Nodes \<Rightarrow> Nodes" where
  "FilterByFunc h fn [] = []"
| "FilterByFunc h fn (r # ns) = (if fn (h r) then r # FilterByFunc h fn ns else FilterByFunc h fn ns)"

definition Nodes_GetNodesByFunc :: "heap \<Rightarrow> Nodes \<Rightarrow> (node \<Rightarrow> bool) \<Rightarrow> Nodes \<times> err option" where
  "Nodes_GetNodesByFunc h n f =
     (let nodes = FilterByFunc h f n
      in if length nodes = 0 then (nodes, Some nodeNotFoundedError) else (nodes, None))"

fun Nodes_GetNodeByID :: "heap \<Rightarrow> Nodes \<Rightarrow> string \<Rightarrow> nref option \<times> err option" where
  "Nodes_GetNodeByID h [] i = (None, Some nodeNotFoundedError)"
| "Nodes_GetNodeByID h (r # ns) i =
     (if n_ID (h r) = i then (Some r, None) else Nodes_GetNodeByID h ns i)"

fun CountByFunc :: "heap \<Rightarrow> Nodes \<Rightarrow> (node \<Rightarrow> bool) \<Rightarrow> int" where
  "CountByFunc h [] fn = 0"
| "CountByFunc h (v # n) fn = (if fn (h v) then 1 else 0) + CountByFunc h n fn"

section \<open>The cluster\<close>

text \<open>
  The nodes of a cluster are a Go map from ids to pointers. The functions that range over it take
  the list of its keys in the order of the loop (\<open>range_order ks (c_Nodes c)\<close>).
\<close>

record Cluster =
  c_Name :: string
  c_Namespace :: string
  c_Nodes :: "string \<rightharpoonup> nref"
  c_Status :: ClusterStatus
  c_NodesPlacement :: "NodesPlacementInfo option"
  c_NbslotsToMigrate :: int
  c_HaStatus :: HaStatus

definition NewCluster :: "string \<Rightarrow> string \<Rightarrow> Cluster" where
  "NewCluster name namespace = \<lparr>c_Name = name, c_Namespace = namespace, c_Nodes = Map.empty, c_Status = '''',
     c_NodesPlacement = None, c_NbslotsToMigrate = 0, c_HaStatus = ''''\<rparr>"

definition AddNode :: "heap \<Rightarrow> Cluster \<Rightarrow> nref \<Rightarrow> heap \<times> Cluster" where
  "AddNode h c r =
     (let h' = (case c_Nodes c (n_ID (h r)) of Some n \<Rightarrow> h(n := Clear (h n)) | None \<Rightarrow> h)
      in (h', c\<lparr>c_Nodes := (c_Nodes c)(n_ID (h r) \<mapsto> r)\<rparr>))"

definition GetNodeByID :: "Cluster \<Rightarrow> string \<Rightarrow> nref option \<times> err option" where
  "GetNodeByID c i = (case c_Nodes c i of Some n \<Rightarrow> (Some n, None) | None \<Rightarrow> (None, Some nodeNotFoundedError))"

fun GetNodeByFunc_loop :: "heap \<Rightarrow> (string \<rightharpoonup> nref) \<Rightarrow> string list \<Rightarrow> (node \<Rightarrow> bool) \<Rightarrow> nref option \<times> err option" where
  "GetNodeByFunc_loop h m [] f = (None, Some nodeNotFoundedError)"
| "GetNodeByFunc_loop h m (k # ks) f =
     (case m k of
        Some n \<Rightarrow> if f (h n) then (Some n, None) else GetNodeByFunc_loop h m ks f
      | None \<Rightarrow> GetNodeByFunc_loop h m ks f)"

definition GetNodeByFunc :: "heap \<Rightarrow> string list \<Rightarrow> Cluster \<Rightarrow> (node \<Rightarrow> bool) \<Rightarrow> nref option \<times> err option" where
  "GetNodeByFunc h ks c f = GetNodeByFunc_loop h (c_Nodes c) ks f"

definition GetNodeByIP :: "heap \<Rightarrow> string list \<Rightarrow> Cluster \<Rightarrow> string \<Rightarrow> nref option \<times> err option" where
  "GetNodeByIP h ks c ip = GetNodeByFunc h ks c (\<lambda>n. n_IP n = ip)"

definition GetNodeByPodName :: "heap \<Rightarrow> string list \<Rightarrow> Cluster \<Rightarrow> string \<Rightarrow> nref option \<times> err option" where
  "GetNodeByPodName h ks c name = GetNodeByFunc h ks c (\<lambda>n. if n_PodName n = name then True else False)"

definition GetNodesByFunc :: "heap \<Rightarrow> string list \<Rightarrow> Cluster \<Rightarrow> (node \<Rightarrow> bool) \<Rightarrow> Nodes \<times> err option" where
  "GetNodesByFunc h ks c f =
     (let nodes = FilterByFunc h f (map (\<lambda>k. the (c_Nodes c k)) ks)
      in if length nodes = 0 then (nodes, Some nodeNotFoundedError) else (nodes, None))"

section \<open>Lemmas\<close>

lemmas role_consts = RedisMasterRole_def RedisSlaveRole_def

lemmas fail_consts = NodeStatusFail_def NodeStatusPFail_def NodeStatusHandshake_def
  NodeStatusNoAddr_def NodeStatusNoFlags_def

lemma FilterByFunc_filter [simp]: "FilterByFunc h fn ns = filter (\<lambda>r. fn (h r)) ns"
  by (induction ns) auto

lemma CountByFunc_length [simp]: "CountByFunc h ns fn = int (length (filter (\<lambda>r. fn (h r)) ns))"
  by (induction ns) auto

lemma HasStatus_iff [simp]: "HasStatus n flag \<longleftrightarrow> flag \<in> set (n_FailStatus n)"
proof -
  have "HasStatus_loop l flag \<longleftrightarrow> flag \<in> set l" for l by (induction l) auto
  then show ?thesis by (simp add: HasStatus_def)
qed

lemma Nodes_GetNodeByID_find:
  "Nodes_GetNodeByID h ns i =
     (case find (\<lambda>r. n_ID (h r) = i) ns of
        Some r \<Rightarrow> (Some r, None) | None \<Rightarrow> (None, Some nodeNotFoundedError))"
  by (induction ns) auto

lemma mset_SortNodes [simp]: "mset (SortNodes h ns) = mset ns"
  by (simp add: SortNodes_def)

lemma set_SortNodes [simp]: "set (SortNodes h ns) = set ns"
  by (simp add: SortNodes_def)

lemma length_SortNodes [simp]: "length (SortNodes h ns) = length ns"
  by (simp add: SortNodes_def)

lemma insert_by_insort: "insert_by (\<lambda>a b. k a < k b) x ys = insort_key k x ys"
  for k :: "'a \<Rightarrow> 'b :: linorder"
  by (induction ys) (auto simp: not_less)

lemma SortByFunc_key: "SortByFunc met (\<lambda>a b. k a < k b) ns = sort_key k (sort_key met ns)"
  for k :: "'a \<Rightarrow> 'b :: linorder"
proof -
  have "insert_by (\<lambda>a b. k a < k b) = insort_key k" using insert_by_insort [of k] by (intro ext)
  then show ?thesis by (simp add: SortByFunc_def sort_key_def)
qed

text \<open>Every sorted arrangement of a slice of distinct elements is the result for some turns.\<close>

lemma SortByFunc_every:
  fixes k :: "'a \<Rightarrow> 'b :: linorder"
  assumes "distinct ns" and "mset ms = mset ns" and "sorted (map k ms)"
  shows "\<exists>met. SortByFunc met (\<lambda>a b. k a < k b) ns = ms"
proof -
  define met where "met x = (THE i. i < length ms \<and> ms ! i = x)" for x
  have dist: "distinct ms" using assms(1,2) by (metis mset_eq_imp_distinct_iff)
  have met: "met (ms ! i) = i" if "i < length ms" for i
    unfolding met_def using that dist by (intro the_equality) (auto simp: nth_eq_iff_index_eq)
  then have "map met ms = [0..<length ms]" by (intro nth_equalityI) simp_all
  then have "sorted (map met ms)" "distinct (map met ms)" by simp_all
  then have "sort_key met ns = ms"
    using sort_key_inj_key_eq [OF assms(2) [symmetric]] by (metis distinct_map assms(2) mset_eq_setD)
  then show ?thesis using assms(3) by (metis SortByFunc_key sort_key_id_if_sorted)
qed

text \<open>With distinct ids every sorted arrangement of the slice is the one of the model.\<close>

lemma sorted_nodes_unique:
  assumes "inj_on (\<lambda>r. n_ID (h r)) (set ns)" and "mset ms = mset ns"
    and "sorted (map (\<lambda>r. n_ID (h r)) ms)"
  shows "ms = SortNodes h ns"
  using sort_key_inj_key_eq [OF assms(2) [symmetric] assms(1,3)] by (simp add: SortNodes_def)

lemma SortByFunc_LessByID:
  assumes "inj_on (\<lambda>r. n_ID (h r)) (set ns)"
  shows "SortByFunc met (\<lambda>a b. LessByID (h a) (h b)) ns = SortNodes h ns"
  using assms by (intro sorted_nodes_unique) (simp_all add: SortByFunc_key LessByID_def)

lemma SetRole_loop_role:
  "n_Role (SetRole_loop vals n) =
     (case filter (\<lambda>v. v = RedisMasterRole \<or> v = RedisSlaveRole) (rev vals) of
        [] \<Rightarrow> n_Role n | v # _ \<Rightarrow> v)"
  by (induction vals arbitrary: n) (auto split: list.splits)

lemma SetRole_loop_frame: "\<exists>r. SetRole_loop vals n = n\<lparr>n_Role := r\<rparr>"
proof (induction vals arbitrary: n)
  case Nil
  show ?case by (rule exI [of _ "n_Role n"]) simp
next
  case (Cons v vals)
  have "\<exists>r. SetRole_loop vals (n\<lparr>n_Role := q\<rparr>) = n\<lparr>n_Role := r\<rparr>" for q
    using Cons [of "n\<lparr>n_Role := q\<rparr>"] by simp
  with Cons [of n] show ?case by simp
qed

lemma SetFailureStatus_loop_eq:
  "SetFailureStatus_loop vals n = n\<lparr>n_FailStatus := n_FailStatus n @
     filter (\<lambda>v. v \<in> {NodeStatusFail, NodeStatusPFail, NodeStatusHandshake, NodeStatusNoAddr, NodeStatusNoFlags}) vals\<rparr>"
  by (induction vals arbitrary: n) (auto simp: fail_consts)

text \<open>
  A registry: adding an element makes it the one found under its key and leaves the other keys
  alone. Whatever is filled from a list with distinct keys then finds every element of the list.
\<close>

locale registry =
  fixes add :: "'s \<Rightarrow> 'e \<Rightarrow> 's"
    and get :: "'s \<Rightarrow> 'k \<Rightarrow> 'e option"
    and key :: "'e \<Rightarrow> 'k"
  assumes get_add: "get (add s e) k = (if k = key e then Some e else get s k)"
begin

lemma get_fold_other: "k \<notin> key ` set es \<Longrightarrow> get (foldl add s es) k = get s k"
  by (induction es arbitrary: s) (auto simp: get_add)

lemma get_fold: "distinct (map key es) \<Longrightarrow> e \<in> set es \<Longrightarrow> get (foldl add s es) (key e) = Some e"
proof (induction es arbitrary: s)
  case Nil
  then show ?case by simp
next
  case (Cons x es)
  show ?case
  proof (cases "e = x")
    case True
    with Cons.prems show ?thesis by (simp add: get_fold_other get_add)
  next
    case False
    with Cons show ?thesis by simp
  qed
qed

lemma get_fold_last: "es \<noteq> [] \<Longrightarrow> get (foldl add s es) (key (last es)) = Some (last es)"
  by (cases es rule: rev_cases) (simp_all add: get_add)

end

lemma fst_AddNode [simp]: "fst (AddNode h c r) = h"
  by (auto simp: AddNode_def Clear_def Let_def split: option.splits)

interpretation cluster: registry "\<lambda>c r. snd (AddNode h c r)" "\<lambda>c i. fst (GetNodeByID c i)" "\<lambda>r. n_ID (h r)"
  for h
  by unfold_locales (simp add: AddNode_def GetNodeByID_def Let_def)

lemma GetNodeByFunc_loop_iff:
  assumes "set ks \<subseteq> dom m"
  shows "case GetNodeByFunc_loop h m ks f of
           (Some r, e) \<Rightarrow> e = None \<and> f (h r) \<and> (\<exists>k \<in> set ks. m k = Some r)
         | (None, e) \<Rightarrow> e = Some nodeNotFoundedError \<and> (\<forall>k \<in> set ks. \<forall>r. m k = Some r \<longrightarrow> \<not> f (h r))"
  using assms by (induction ks) (auto split: option.splits prod.splits)

text \<open>Two nodes to exercise the statements on.\<close>

definition example_heap :: heap where
  "example_heap r = NewDefaultNode\<lparr>n_ID := replicate r (CHR ''x''), n_Role := RedisMasterRole\<rparr>"

section \<open>Properties\<close>

text \<open>
  \<^verbatim>\<open>SetRole\<close> takes the role from the flags of \<^verbatim>\<open>CLUSTER NODES\<close>: the last of the flags
  \<^verbatim>\<open>master\<close> and \<^verbatim>\<open>slave\<close> wins, whatever other flags stand around it; without either the role is
  empty and an error is returned; no other field of the node changes, and the previous role never
  matters.
\<close>

theorem SetRole_spec:
  assumes "flags \<noteq> []" and "\<forall>w \<in> set flags. CHR '','' \<notin> set w"
  shows "case SetRole n (Join '','' flags) of (n', e) \<Rightarrow>
           (case filter (\<lambda>v. v = RedisMasterRole \<or> v = RedisSlaveRole) (rev flags) of
              [] \<Rightarrow> n' = n\<lparr>n_Role := ''''\<rparr> \<and> e \<noteq> None
            | v # _ \<Rightarrow> n' = n\<lparr>n_Role := v\<rparr> \<and> e = None)"
proof -
  have s: "Split (CHR '','') (Join '','' flags) = flags" using assms by (rule Split_Join)
  obtain r where r: "SetRole_loop flags (n\<lparr>n_Role := ''''\<rparr>) = n\<lparr>n_Role := r\<rparr>"
    using SetRole_loop_frame [of flags "n\<lparr>n_Role := ''''\<rparr>"] by auto
  have role: "r = (case filter (\<lambda>v. v = RedisMasterRole \<or> v = RedisSlaveRole) (rev flags) of
        [] \<Rightarrow> '''' | v # _ \<Rightarrow> v)"
    using SetRole_loop_role [of flags "n\<lparr>n_Role := ''''\<rparr>"] by (simp add: r cong: list.case_cong)
  show ?thesis
  proof (cases "filter (\<lambda>v. v = RedisMasterRole \<or> v = RedisSlaveRole) (rev flags)")
    case Nil
    with role show ?thesis by (simp add: SetRole_def s r)
  next
    case (Cons v vs)
    then have "v \<in> set (filter (\<lambda>v. v = RedisMasterRole \<or> v = RedisSlaveRole) (rev flags))" by simp
    then have "v \<noteq> ''''" by (auto simp: role_consts)
    with role Cons show ?thesis by (simp add: SetRole_def s r)
  qed
qed

theorem SetRole_spec_witness:
  "case SetRole NewDefaultNode (Join '','' [''myself'', ''slave'']) of (n', e) \<Rightarrow>
           (case filter (\<lambda>v. v = RedisMasterRole \<or> v = RedisSlaveRole) (rev [''myself'', ''slave'']) of
              [] \<Rightarrow> n' = NewDefaultNode\<lparr>n_Role := ''''\<rparr> \<and> e \<noteq> None
            | v # _ \<Rightarrow> n' = NewDefaultNode\<lparr>n_Role := v\<rparr> \<and> e = None)"
  by (rule SetRole_spec) auto

text \<open>
  a cluster filled with \<^verbatim>\<open>AddNode\<close> from nodes with distinct ids finds each of them by its id
  with \<^verbatim>\<open>GetNodeByID\<close>, reports \<^verbatim>\<open>nodeNotFoundedError\<close> for every other id, and a search by a
  predicate (\<^verbatim>\<open>GetNodeByFunc\<close>, hence by IP or pod name) succeeds, in whatever order the map is
  ranged over, exactly when some added node satisfies the predicate, returning such a node.
\<close>

theorem cluster_lookup:
  assumes "distinct (map (\<lambda>r. n_ID (h r)) rs)"
    and "range_order ks (c_Nodes (foldl (\<lambda>c r. snd (AddNode h c r)) (NewCluster name ns) rs))"
  shows "let c = foldl (\<lambda>c r. snd (AddNode h c r)) (NewCluster name ns) rs in
         (\<forall>r \<in> set rs. GetNodeByID c (n_ID (h r)) = (Some r, None)) \<and>
         (\<forall>i. i \<notin> (\<lambda>r. n_ID (h r)) ` set rs \<longrightarrow> GetNodeByID c i = (None, Some nodeNotFoundedError)) \<and>
         (case GetNodeByFunc h ks c f of
            (Some r, e) \<Rightarrow> r \<in> set rs \<and> f (h r) \<and> e = None
          | (None, e) \<Rightarrow> (\<forall>r \<in> set rs. \<not> f (h r)) \<and> e = Some nodeNotFoundedError)"
proof -
  define c where c: "c = foldl (\<lambda>c r. snd (AddNode h c r)) (NewCluster name ns) rs"
  have get: "GetNodeByID c i = (case c_Nodes c i of None \<Rightarrow> (None, Some nodeNotFoundedError) | Some r \<Rightarrow> (Some r, None))" for i
    by (simp add: GetNodeByID_def split: option.splits)
  then have fst_get: "fst (GetNodeByID c i) = c_Nodes c i" for i
    by (simp split: option.splits)
  have found: "c_Nodes c (n_ID (h r)) = Some r" if "r \<in> set rs" for r
    using cluster.get_fold [OF assms(1) that, of "NewCluster name ns"] fst_get [of "n_ID (h r)"] by (simp add: c)
  have other: "c_Nodes c i = None" if "i \<notin> (\<lambda>r. n_ID (h r)) ` set rs" for i
    using cluster.get_fold_other [OF that, of "NewCluster name ns"] fst_get [of i]
    by (simp add: c GetNodeByID_def NewCluster_def)
  have only: "r \<in> set rs" if "c_Nodes c i = Some r" for i r
    using that found other by (cases "i \<in> (\<lambda>r. n_ID (h r)) ` set rs") auto
  have ks: "set ks = dom (c_Nodes c)" using assms(2) unfolding c by (rule range_orderD)
  have "case GetNodeByFunc h ks c f of
            (Some r, e) \<Rightarrow> r \<in> set rs \<and> f (h r) \<and> e = None
          | (None, e) \<Rightarrow> (\<forall>r \<in> set rs. \<not> f (h r)) \<and> e = Some nodeNotFoundedError"
    using GetNodeByFunc_loop_iff [where ks = ks and m = "c_Nodes c" and h = h and f = f] only found
    by (auto simp: GetNodeByFunc_def ks split: option.splits prod.splits) blast+
  then show ?thesis
    unfolding Let_def c [symmetric] using found other by (simp add: get)
qed

theorem cluster_lookup_witness:
  "let c = foldl (\<lambda>c r. snd (AddNode example_heap c r)) (NewCluster ''c'' ''n'') [1, 2] in
         (\<forall>r \<in> set [1, 2]. GetNodeByID c (n_ID (example_heap r)) = (Some r, None)) \<and>
         (\<forall>i. i \<notin> (\<lambda>r. n_ID (example_heap r)) ` set [1, 2] \<longrightarrow> GetNodeByID c i = (None, Some nodeNotFoundedError)) \<and>
         (case GetNodeByFunc example_heap [''x'', ''xx''] c (\<lambda>n. n_Port n = ''6379'') of
            (Some r, e) \<Rightarrow> r \<in> set [1, 2] \<and> n_Port (example_heap r) = ''6379'' \<and> e = None
          | (None, e) \<Rightarrow> (\<forall>r \<in> set [1, 2]. n_Port (example_heap r) \<noteq> ''6379'') \<and> e = Some nodeNotFoundedError)"
  by (rule cluster_lookup)
    (auto simp: example_heap_def NewDefaultNode_def AddNode_def NewCluster_def range_order_def
      numeral_2_eq_2 Clear_def Let_def split: if_splits)

end
