(* ===== verification/Redis_Connections.thy ===== *)
theory Redis_Connections
  imports Redis_Node "HOL-Library.Monad_Syntax"
begin

text \<open>
  The pool of connections to the redis servers (\<^verbatim>\<open>utils/redisutil/connections.go\<close>) and the world the
  rest of the operator's redis code acts on. The servers and the client library are not part of the
  program: what they answer is the environment \<open>env\<close>, a record of functions of the history of
  commands sent so far, so that a server may answer the same command differently later. The world
  holds the heap of nodes, the addresses of the open connections and that history.

  A function that always returns gives its result together with the new world; one that may panic
  or run forever gives an option of that.
\<close>

section \<open>Commands, replies, world\<close>

datatype arg = AStr string | AInt int | AList "string list"

datatype val = VStr string | VInt int | VList "val list" | VMap "(val \<times> val) list" | VNil

datatype reply = RVal val | RErr err

datatype event =
    EDo string "arg list"
  | EPipe string "arg list list"
  | EAddSlotsRange string int int
  | EInfo string
  | EPing string
  | EClose string

type_synonym history = "event list"

text \<open>
  \<^verbatim>\<open>Do\<close>, \<^verbatim>\<open>Pipeline.Exec\<close> (the slice of replies, \<open>None\<close> for \<^verbatim>\<open>nil\<close>, and the error),
  \<^verbatim>\<open>ClusterAddSlotsRange\<close>, \<^verbatim>\<open>Info\<close> and \<^verbatim>\<open>Ping\<close> (\<open>None\<close> for a \<^verbatim>\<open>nil\<close> command) of the client library,
  its \<^verbatim>\<open>Cmd.String\<close>, the random number generator, the turns in which \<^verbatim>\<open>sort.Sort\<close> meets nodes of one balance, the order in which a loop visits the connections,
  and which slices have spare capacity.
\<close>

record env =
  e_do :: "history \<Rightarrow> string \<Rightarrow> arg list \<Rightarrow> reply"
  e_pipe :: "history \<Rightarrow> string \<Rightarrow> arg list list \<Rightarrow> reply list option \<times> err option"
  e_addslots :: "history \<Rightarrow> string \<Rightarrow> int \<Rightarrow> int \<Rightarrow> err option"
  e_info :: "history \<Rightarrow> string \<Rightarrow> err + string"
  e_ping :: "history \<Rightarrow> string \<Rightarrow> reply option"
  e_string :: "arg list \<Rightarrow> reply \<Rightarrow> string"
  e_rand :: "nat \<Rightarrow> nat \<Rightarrow> nat"
  e_met :: "history \<Rightarrow> nref \<Rightarrow> nat"
  e_order :: "history \<Rightarrow> string list \<Rightarrow> string list"
  e_spare :: "history \<Rightarrow> string \<Rightarrow> bool"
  e_password :: string

record world =
  w_heap :: heap
  w_clients :: "string list"
  w_trace :: history
  w_draws :: nat

definition emit :: "event \<Rightarrow> world \<Rightarrow> world" where
  "emit e w = w\<lparr>w_trace := w_trace w @ [e]\<rparr>"

definition do_cmd :: "env \<Rightarrow> string \<Rightarrow> arg list \<Rightarrow> world \<Rightarrow> reply \<times> world" where
  "do_cmd env addr args w = (e_do env (w_trace w) addr args, emit (EDo addr args) w)"

definition exec_pipe :: "env \<Rightarrow> string \<Rightarrow> arg list list \<Rightarrow> world \<Rightarrow> (reply list option \<times> err option) \<times> world" where
  "exec_pipe env addr cmds w = (e_pipe env (w_trace w) addr cmds, emit (EPipe addr cmds) w)"

definition reply_err :: "reply \<Rightarrow> err option" where
  "reply_err r = (case r of RErr e \<Rightarrow> Some e | RVal _ \<Rightarrow> None)"

section \<open>The pool\<close>

text \<open>The methods keep their names; a client is named by its address.\<close>

definition ErrNotFound :: err where
  "ErrNotFound = Errorf ''unable to find a node to connect'' []"

definition GetAUTH :: "env \<Rightarrow> string \<times> bool" where
  "GetAUTH env = (if length (e_password env) > 0 then (e_password env, True) else ('''', False))"

definition NewClient :: "env \<Rightarrow> string \<Rightarrow> world \<Rightarrow> (string option \<times> err option) \<times> world" where
  "NewClient env addr w =
     (let ping = e_ping env (w_trace w) addr;
          w = emit (EPing addr) w;
          err = Errorf ''unable to PING %s'' [addr]
      in if ping = None then ((None, Some err), w) else ((Some addr, None), w))"

definition connect :: "env \<Rightarrow> string \<Rightarrow> world \<Rightarrow> (string option \<times> err option) \<times> world" where
  "connect env addr w = NewClient env addr w"

text \<open>\<^verbatim>\<open>cnx.clients[addr] = c\<close>\<close>

definition put_client :: "string \<Rightarrow> world \<Rightarrow> world" where
  "put_client addr w = (if addr \<in> set (w_clients w) then w else w\<lparr>w_clients := w_clients w @ [addr]\<rparr>)"

definition Update :: "env \<Rightarrow> string \<Rightarrow> world \<Rightarrow> (string option \<times> err option) \<times> world" where
  "Update env addr w =
     (let w = (if addr \<in> set (w_clients w) then emit (EClose addr) w else w)
      in case connect env addr w of
           ((c, err), w) \<Rightarrow>
             if err = None \<and> c \<noteq> None then ((c, err), put_client addr w) else ((c, err), w))"

definition cnx_Get :: "env \<Rightarrow> string \<Rightarrow> world \<Rightarrow> (string option \<times> err option) \<times> world" where
  "cnx_Get env addr w =
     (if addr \<in> set (w_clients w) then ((Some addr, None), w)
      else case connect env addr w of
             ((c, err), w) \<Rightarrow>
               if err = None \<and> c \<noteq> None then ((c, err), put_client addr w) else ((c, err), w))"

definition cnx_Add :: "env \<Rightarrow> string \<Rightarrow> world \<Rightarrow> err option \<times> world" where
  "cnx_Add env addr w = (case Update env addr w of ((c, err), w) \<Rightarrow> (err, w))"

definition cnx_Remove :: "string \<Rightarrow> world \<Rightarrow> world" where
  "cnx_Remove addr w =
     (if addr \<in> set (w_clients w)
      then (emit (EClose addr) w)\<lparr>w_clients := filter (\<lambda>a. a \<noteq> addr) (w_clients w)\<rparr> else w)"

definition Reconnect :: "env \<Rightarrow> string \<Rightarrow> world \<Rightarrow> err option \<times> world" where
  "Reconnect env addr w = cnx_Add env addr (cnx_Remove addr w)"

fun AddAll :: "env \<Rightarrow> string list \<Rightarrow> world \<Rightarrow> world" where
  "AddAll env [] w = w"
| "AddAll env (addr # addrs) w = AddAll env addrs (snd (cnx_Add env addr w))"

fun close_each :: "string list \<Rightarrow> world \<Rightarrow> world" where
  "close_each [] w = w"
| "close_each (c # cs) w = close_each cs (emit (EClose c) w)"

definition cnx_Close :: "env \<Rightarrow> world \<Rightarrow> world" where
  "cnx_Close env w = close_each (e_order env (w_trace w) (w_clients w)) w"

definition Reset :: "env \<Rightarrow> world \<Rightarrow> world" where
  "Reset env w = (close_each (e_order env (w_trace w) (w_clients w)) w)\<lparr>w_clients := []\<rparr>"

definition ReplaceAll :: "env \<Rightarrow> string list \<Rightarrow> world \<Rightarrow> world" where
  "ReplaceAll env addrs w = AddAll env addrs (Reset env w)"

text \<open>A new pool: the clients of the world are those of the pool the functions work on.\<close>

definition NewAdminConnections :: "env \<Rightarrow> string list \<Rightarrow> world \<Rightarrow> world" where
  "NewAdminConnections env addrs w = AddAll env addrs (w\<lparr>w_clients := []\<rparr>)"

text \<open>The connections in the order in which a loop over \<^verbatim>\<open>GetAll()\<close> visits them.\<close>

definition GetAll :: "env \<Rightarrow> world \<Rightarrow> string list" where
  "GetAll env w = e_order env (w_trace w) (w_clients w)"

definition GetSelected :: "string list \<Rightarrow> world \<Rightarrow> string list" where
  "GetSelected addrs w = remdups (filter (\<lambda>addr. addr \<in> set (w_clients w)) addrs)"

fun nth_client :: "string list \<Rightarrow> nat \<Rightarrow> (string \<times> string option) \<times> err option" where
  "nth_client [] r = (('''', None), Some ErrNotFound)"
| "nth_client (k # ks) r = (if r = 0 then ((k, Some k), None) else nth_client ks (r - 1))"

definition getRandomKeyClient :: "env \<Rightarrow> world \<Rightarrow> ((string \<times> string option) \<times> err option) \<times> world" where
  "getRandomKeyClient env w =
     (let nbClient = length (w_clients w) in
      if nbClient = 0 then ((('''', None), Some ErrNotFound), w)
      else (nth_client (GetAll env w) (e_rand env (w_draws w) nbClient), w\<lparr>w_draws := Suc (w_draws w)\<rparr>))"

definition GetRandom :: "env \<Rightarrow> world \<Rightarrow> (string option \<times> err option) \<times> world" where
  "GetRandom env w = (case getRandomKeyClient env w of (((k, c), err), w) \<Rightarrow> ((c, err), w))"

partial_function (option) draw_different ::
    "env \<Rightarrow> string \<Rightarrow> world \<Rightarrow> ((string option \<times> err option) \<times> world) option" where
  "draw_different env addr w =
     (case getRandomKeyClient env w of
        (((a, c), err), w) \<Rightarrow>
          if err \<noteq> None then Some ((None, err), w)
          else if a \<noteq> addr then Some ((c, None), w)
          else draw_different env addr w)"

definition GetDifferentFrom :: "env \<Rightarrow> string \<Rightarrow> world \<Rightarrow> ((string option \<times> err option) \<times> world) option" where
  "GetDifferentFrom env addr w =
     (case w_clients w of
        [a] \<Rightarrow> if a \<noteq> addr then Some ((Some a, None), w) else Some ((None, Some ErrNotFound), w)
      | _ \<Rightarrow> draw_different env addr w)"

section \<open>Handling replies\<close>

definition handleError :: "env \<Rightarrow> string \<Rightarrow> err option \<Rightarrow> world \<Rightarrow> bool \<times> world" where
  "handleError env addr err w =
     (case err of
        None \<Rightarrow> (False, w)
      | Some (ErrTimeout m) \<Rightarrow> (True, snd (Reconnect env addr w))
      | Some (ErrOp m) \<Rightarrow> (True, snd (Reconnect env addr w))
      | _ \<Rightarrow> (False, w))"

definition ValidateResp :: "env \<Rightarrow> reply option \<Rightarrow> string \<Rightarrow> string \<Rightarrow> world \<Rightarrow> err option \<times> world" where
  "ValidateResp env resp addr errMessage w =
     (case resp of
        None \<Rightarrow> (Some (Errorf ''%s: unable to connect to node %s'' [errMessage, addr]), w)
      | Some r \<Rightarrow>
          if reply_err r \<noteq> None then
            (Some (Errorf ''%s: unexpected error on node %s: %d'' [errMessage, addr]),
             snd (handleError env addr (reply_err r) w))
          else (None, w))"

definition ValidatePipeResp ::
    "env \<Rightarrow> reply list option \<Rightarrow> string \<Rightarrow> err option \<Rightarrow> world \<Rightarrow> bool \<times> world" where
  "ValidatePipeResp env resp addr err w =
     (if resp = None then (False, w)
      else if err \<noteq> None then
        (case handleError env addr err w of (network, w) \<Rightarrow> if network then (False, w) else (True, w))
      else (True, w))"

section \<open>Lemmas\<close>

text \<open>What the client library documents: \<^verbatim>\<open>Ping\<close> returns a command object, never \<^verbatim>\<open>nil\<close>.\<close>

definition ping_returns :: "env \<Rightarrow> bool" where
  "ping_returns env \<longleftrightarrow> (\<forall>h a. e_ping env h a \<noteq> None)"

lemma emit_simps [simp]:
  "w_heap (emit e w) = w_heap w" "w_clients (emit e w) = w_clients w"
  "w_trace (emit e w) = w_trace w @ [e]" "w_draws (emit e w) = w_draws w"
  by (simp_all add: emit_def)

lemma do_cmd_simps [simp]:
  "fst (do_cmd env a args w) = e_do env (w_trace w) a args"
  "snd (do_cmd env a args w) = emit (EDo a args) w"
  by (simp_all add: do_cmd_def)

lemma put_client_simps [simp]:
  "w_heap (put_client a w) = w_heap w" "w_trace (put_client a w) = w_trace w"
  "set (w_clients (put_client a w)) = insert a (set (w_clients w))"
  "distinct (w_clients (put_client a w)) \<longleftrightarrow> distinct (w_clients w)"
  by (auto simp: put_client_def)

lemma close_each_simps [simp]:
  "w_heap (close_each cs w) = w_heap w" "w_clients (close_each cs w) = w_clients w"
  "w_trace (close_each cs w) = w_trace w @ map EClose cs" "w_draws (close_each cs w) = w_draws w"
  by (induction cs arbitrary: w) auto

text \<open>No operation of the pool touches the nodes.\<close>

lemma connect_eq:
  "connect env addr w =
     ((if e_ping env (w_trace w) addr = None then (None, Some (Errorf ''unable to PING %s'' [addr]))
       else (Some addr, None)), emit (EPing addr) w)"
  by (simp add: connect_def NewClient_def Let_def)

lemma Update_heap [simp]: "w_heap (snd (Update env addr w)) = w_heap w"
  by (simp add: Update_def Let_def connect_eq)

lemma cnx_Add_heap [simp]: "w_heap (snd (cnx_Add env addr w)) = w_heap w"
  using Update_heap [of env addr w] by (simp add: cnx_Add_def split_beta del: Update_heap)

lemma cnx_Get_heap [simp]: "w_heap (snd (cnx_Get env addr w)) = w_heap w"
  by (simp add: cnx_Get_def connect_eq)

lemma cnx_Remove_heap [simp]: "w_heap (cnx_Remove addr w) = w_heap w"
  by (simp add: cnx_Remove_def)

lemma AddAll_heap [simp]: "w_heap (AddAll env addrs w) = w_heap w"
  by (induction env addrs w rule: AddAll.induct) auto

lemma handleError_heap [simp]: "w_heap (snd (handleError env addr err w)) = w_heap w"
  by (simp add: handleError_def Reconnect_def split: option.splits err.splits)

lemma ValidateResp_heap [simp]: "w_heap (snd (ValidateResp env resp addr msg w)) = w_heap w"
  by (simp add: ValidateResp_def split: option.splits)

lemma ValidatePipeResp_heap [simp]: "w_heap (snd (ValidatePipeResp env resp addr err w)) = w_heap w"
  using handleError_heap [of env addr err w]
  by (cases "handleError env addr err w") (simp add: ValidatePipeResp_def del: handleError_heap)

lemma ValidateResp_ok_iff [simp]:
  "fst (ValidateResp env (Some r) addr msg w) = None \<longleftrightarrow> reply_err r = None"
  by (simp add: ValidateResp_def)

lemma ValidateResp_None [simp]:
  "reply_err r = None \<Longrightarrow> ValidateResp env (Some r) addr msg w = (None, w)"
  by (simp add: ValidateResp_def)

text \<open>
  The interface of the pool: adding a reachable address makes it a member, adding never loses or
  invents another member, and removing takes out exactly the address.
\<close>

locale connection_pool =
  fixes add :: "'a \<Rightarrow> 's \<Rightarrow> 's"
    and remove :: "'a \<Rightarrow> 's \<Rightarrow> 's"
    and members :: "'s \<Rightarrow> 'a set"
    and reachable :: "'a \<Rightarrow> 's \<Rightarrow> bool"
  assumes add_reachable: "reachable a s \<Longrightarrow> members (add a s) = insert a (members s)"
    and add_unreachable: "\<not> reachable a s \<Longrightarrow> members (add a s) = members s"
    and members_remove: "members (remove a s) = members s - {a}"
begin

lemma add_bounds: "members s \<subseteq> members (add a s)" "members (add a s) \<subseteq> insert a (members s)"
  using add_reachable add_unreachable by (cases "reachable a s", auto)+

lemma add_all_bounds:
  "members s \<subseteq> members (fold add as s) \<and> members (fold add as s) \<subseteq> members s \<union> set as"
proof (induction "as" arbitrary: s)
  case Nil
  then show ?case by simp
next
  case (Cons a as)
  show ?case using Cons [of "add a s"] add_bounds [where s = s and a = a] by auto
qed

lemma add_all_reachable:
  "\<forall>a s. reachable a s \<Longrightarrow> members (fold add as s) = members s \<union> set as"
  by (induction "as" arbitrary: s) (auto simp: add_reachable)

lemma reconnect_keeps:
  assumes "a \<in> members s" and "reachable a (remove a s)"
  shows "members (add a (remove a s)) = members s"
  using assms by (auto simp: add_reachable members_remove)

lemma reconnect_loses:
  assumes "\<not> reachable a (remove a s)"
  shows "members (add a (remove a s)) = members s - {a}"
  using assms by (simp add: add_unreachable members_remove)

end

definition ping_answered :: "env \<Rightarrow> string \<Rightarrow> world \<Rightarrow> bool" where
  "ping_answered env a w \<longleftrightarrow>
     e_ping env (if a \<in> set (w_clients w) then w_trace w @ [EClose a] else w_trace w) a \<noteq> None"

interpretation pool: connection_pool "\<lambda>a w. snd (cnx_Add env a w)" cnx_Remove "\<lambda>w. set (w_clients w)"
    "ping_answered env"
  for env
  by unfold_locales
    (auto simp: cnx_Add_def Update_def ping_answered_def connect_eq cnx_Remove_def Let_def split: if_splits)

lemma AddAll_fold: "AddAll env addrs w = fold (\<lambda>a w. snd (cnx_Add env a w)) addrs w"
  by (induction addrs arbitrary: w) auto

lemma cnx_Add_distinct: "distinct (w_clients w) \<Longrightarrow> distinct (w_clients (snd (cnx_Add env a w)))"
  by (auto simp: cnx_Add_def Update_def connect_eq Let_def)

lemma AddAll_distinct: "distinct (w_clients w) \<Longrightarrow> distinct (w_clients (AddAll env addrs w))"
  by (induction env addrs w rule: AddAll.induct) (simp_all add: cnx_Add_distinct)

lemma cnx_Add_trace: "\<exists>es. w_trace (snd (cnx_Add env a w)) = w_trace w @ es"
  by (auto simp: cnx_Add_def Update_def connect_eq Let_def)

lemma AddAll_trace: "\<exists>es. w_trace (AddAll env addrs w) = w_trace w @ es"
proof (induction env addrs w rule: AddAll.induct)
  case (1 env w)
  then show ?case by simp
next
  case (2 env addr addrs w)
  then show ?case using cnx_Add_trace [of env addr w] by auto
qed

text \<open>An environment in which every server is down: every reply is a network error.\<close>

definition dead_env :: env where
  "dead_env = \<lparr>e_do = (\<lambda>_ _ _. RErr (ErrOp ''refused'')), e_pipe = (\<lambda>_ _ _. (Some [], Some (ErrOp ''refused''))),
     e_addslots = (\<lambda>_ _ _ _. Some (ErrOp ''refused'')), e_info = (\<lambda>_ _. Inl (ErrOp ''refused'')),
     e_ping = (\<lambda>_ _. Some (RErr (ErrOp ''refused''))), e_string = (\<lambda>_ _. ''''), e_rand = (\<lambda>_ _. 0), e_met = (\<lambda>_ _. 0),
     e_order = (\<lambda>_ ks. ks), e_spare = (\<lambda>_ _. False), e_password = ''''\<rparr>"

definition example_world :: world where
  "example_world = \<lparr>w_heap = example_heap, w_clients = [''a:1''], w_trace = [], w_draws = 0\<rparr>"

section \<open>Properties\<close>

text \<open>
  \<^verbatim>\<open>ReplaceAll\<close> closes every connection of the pool and then holds exactly the given addresses,
  once each, and \<^verbatim>\<open>Get\<close> answers each of them from the pool without connecting again. This rests only
  on the client library's \<^verbatim>\<open>Ping\<close> returning a command: whether the server answers the ping does not
  matter, a server that refuses the connection is registered all the same.
\<close>

theorem ReplaceAll_members:
  assumes "ping_returns env"
  shows "let w' = ReplaceAll env addrs w in
           set (w_clients w') = set addrs \<and> distinct (w_clients w') \<and> w_heap w' = w_heap w \<and>
           (\<exists>es. w_trace w' = w_trace w @ map EClose (e_order env (w_trace w) (w_clients w)) @ es) \<and>
           (\<forall>a \<in> set addrs. cnx_Get env a w' = ((Some a, None), w'))"
proof -
  have "\<forall>a s. ping_answered env a s"
    using assms by (simp add: ping_answered_def ping_returns_def)
  then have "set (w_clients (ReplaceAll env addrs w)) = set addrs"
    using pool.add_all_reachable [of env addrs "Reset env w"]
    by (simp add: ReplaceAll_def AddAll_fold Reset_def)
  moreover have "distinct (w_clients (ReplaceAll env addrs w))"
    by (simp add: ReplaceAll_def AddAll_distinct Reset_def)
  moreover have "\<exists>es. w_trace (ReplaceAll env addrs w)
      = w_trace w @ map EClose (e_order env (w_trace w) (w_clients w)) @ es"
    using AddAll_trace [of env addrs "Reset env w"] by (simp add: ReplaceAll_def Reset_def)
  ultimately show ?thesis
    by (simp add: Let_def cnx_Get_def) (simp add: ReplaceAll_def Reset_def)
qed

theorem ReplaceAll_members_witness:
  "let w' = ReplaceAll dead_env [''b:1'', ''c:1''] example_world in
           set (w_clients w') = set [''b:1'', ''c:1''] \<and> distinct (w_clients w') \<and> w_heap w' = w_heap example_world \<and>
           (\<exists>es. w_trace w' = w_trace example_world
               @ map EClose (e_order dead_env (w_trace example_world) (w_clients example_world)) @ es) \<and>
           (\<forall>a \<in> set [''b:1'', ''c:1'']. cnx_Get dead_env a w' = ((Some a, None), w'))"
  by (rule ReplaceAll_members) (simp add: ping_returns_def dead_env_def)

text \<open>
  \<^verbatim>\<open>ValidatePipeResp\<close> reports failure exactly for a missing reply and for a network error (a
  timeout or a refused connection), and after a network error the connection has been closed and
  opened again, the pool's addresses being the same; an error the server itself returned for a
  command of the pipeline is reported as success.
\<close>

theorem ValidatePipeResp_spec:
  assumes "ping_returns env" and "addr \<in> set (w_clients w)"
  shows "let (ok, w') = ValidatePipeResp env resp addr err w;
             network = (\<exists>m. err = Some (ErrTimeout m) \<or> err = Some (ErrOp m)) in
         (ok \<longleftrightarrow> resp \<noteq> None \<and> \<not> network) \<and>
         (if resp \<noteq> None \<and> network
          then set (w_clients w') = set (w_clients w) \<and> w_trace w' = w_trace w @ [EClose addr, EPing addr]
          else w' = w)"
proof -
  have "ping_answered env a s" for a s
    using assms(1) by (simp add: ping_answered_def ping_returns_def)
  then have "set (w_clients (snd (Reconnect env addr w))) = set (w_clients w)"
    using pool.reconnect_keeps [of addr w env] assms(2) by (simp add: Reconnect_def)
  moreover have "w_trace (snd (Reconnect env addr w)) = w_trace w @ [EClose addr, EPing addr]"
    using assms by (auto simp: Reconnect_def cnx_Remove_def cnx_Add_def Update_def connect_eq ping_returns_def Let_def)
  ultimately show ?thesis
    by (auto simp: ValidatePipeResp_def handleError_def split: option.splits err.splits)
qed

theorem ValidatePipeResp_spec_witness:
  "let (ok, w') = ValidatePipeResp dead_env (Some []) ''a:1'' (Some (ErrOp ''refused'')) example_world;
             network = (\<exists>m. Some (ErrOp ''refused'') = Some (ErrTimeout m) \<or> Some (ErrOp ''refused'') = Some (ErrOp m)) in
         (ok \<longleftrightarrow> Some ([] :: reply list) \<noteq> None \<and> \<not> network) \<and>
         (if Some ([] :: reply list) \<noteq> None \<and> network
          then set (w_clients w') = set (w_clients example_world) \<and>
               w_trace w' = w_trace example_world @ [EClose ''a:1'', EPing ''a:1'']
          else w' = example_world)"
  by (rule ValidatePipeResp_spec) (simp_all add: ping_returns_def dead_env_def example_world_def)

end
