(* ===== verification/Cluster_Infos.thy ===== *)
theory Cluster_Infos
  imports Redis_Node
begin

text \<open>
  What the operator learns from the nodes (\<^verbatim>\<open>utils/redisutil/clusterinfo.go\<close>, \<^verbatim>\<open>errors.go\<close>): the
  decoding of the output of \<^verbatim>\<open>CLUSTER NODES\<close> and \<^verbatim>\<open>INFO\<close>, the infos of all nodes, the check that the
  nodes agree, and the error that reports a partial or inconsistent view. The nodes decoded from a
  reply are fresh objects that nothing else refers to, so they are kept by value here.
\<close>

section \<open>Data\<close>

definition ClusterInfosUnset :: string where "ClusterInfosUnset = ''Unset''"
definition ClusterInfosPartial :: string where "ClusterInfosPartial = ''Partial''"
definition ClusterInfosInconsistent :: string where "ClusterInfosInconsistent = ''Inconsistent''"
definition ClusterInfosConsistent :: string where "ClusterInfosConsistent = ''Consistent''"

definition ClusterStateUnknown :: string where "ClusterStateUnknown = ''Unknown''"
definition ClusterStateNOK :: string where "ClusterStateNOK = ''NOK''"
definition ClusterStateOK :: string where "ClusterStateOK = ''OK''"
definition ClusterReasonScaling :: string where "ClusterReasonScaling = ''Scaling''"
definition ClusterReasonReplicaNOK :: string where "ClusterReasonReplicaNOK = ''ReplicaNotReady''"
definition ClusterStatusFail :: string where "ClusterStatusFail = ''ClusterStatusFail''"
definition ClusterStatusNotRetrived :: string where "ClusterStatusNotRetrived = ''ClusterStatusNotRetrived''"

record NodeInfos =
  ni_Node :: node
  ni_Friends :: "node list"

text \<open>The map of infos is its list of entries, in the order in which a loop visits them.\<close>

record ClusterInfos =
  ci_Infos :: "(string \<times> NodeInfos) list"
  ci_Status :: string
  ci_ClusterState :: string
  ci_ClusterNokReason :: "string \<rightharpoonup> string"

definition NewNodeInfos :: NodeInfos where
  "NewNodeInfos = \<lparr>ni_Node = NewDefaultNode, ni_Friends = []\<rparr>"

definition NewClusterInfos :: ClusterInfos where
  "NewClusterInfos = \<lparr>ci_Infos = [], ci_Status = ClusterInfosUnset, ci_ClusterState = ClusterStateUnknown,
     ci_ClusterNokReason = Map.empty\<rparr>"

section \<open>Decoding the replies\<close>

definition newline :: char where "newline = CHR 0x0A"

definition splitHostPort :: "string \<Rightarrow> string \<times> string \<times> err option" where
  "splitHostPort address =
     (case LastIndex address (CHR '':'') of
        None \<Rightarrow> ('''', '''', Some (Errorf ''splitHostPort failed, invalid address %s'' [address]))
      | Some i \<Rightarrow> (take i address, drop (Suc i) address, None))"

text \<open>
  \<^verbatim>\<open>DecodeNodeStartTime\<close> at time \<open>now\<close> (nanoseconds): \<open>None\<close> is the index panic on a line
  \<^verbatim>\<open>uptime_in_seconds\<close> without a colon. The duration is computed on \<^verbatim>\<open>int64\<close>.
\<close>

fun DecodeNodeStartTime_loop :: "int \<Rightarrow> string list \<Rightarrow> (int \<times> err option) option" where
  "DecodeNodeStartTime_loop now [] =
     Some (now, Some (Errorf ''error while decoding redis instance uptime in seconds. no data found'' []))"
| "DecodeNodeStartTime_loop now (line # lines) =
     (let values = Split (CHR '':'') line in
      if values ! 0 = ''uptime_in_seconds'' then
        (if length values < 2 then None
         else case ParseInt (TrimSpace (values ! 1)) of
           (uptime, e) \<Rightarrow>
             if e \<noteq> None then Some (now, e)
             else Some (now + wrap_int64 (wrap_int64 (- uptime) * 10 ^ 9), None))
      else DecodeNodeStartTime_loop now lines)"

definition DecodeNodeStartTime :: "int \<Rightarrow> string \<Rightarrow> (int \<times> err option) option" where
  "DecodeNodeStartTime now input = DecodeNodeStartTime_loop now (Split newline input)"

text \<open>The loop over the slot words of a line; \<open>None\<close> is a \<^verbatim>\<open>DecodeSlotRange\<close> that does not return.\<close>

fun decode_slot_words :: "string list \<Rightarrow> node \<Rightarrow> node option" where
  "decode_slot_words [] n = Some n"
| "decode_slot_words (slot # slots) n =
     (case DecodeSlotRange slot of
        None \<Rightarrow> None
      | Some (s, importing, migrating, e) \<Rightarrow>
          decode_slot_words slots
            (if e = None then
               let n1 = n\<lparr>n_Slots := n_Slots n @ s\<rparr>;
                   n2 = (case importing of None \<Rightarrow> n1
                         | Some i \<Rightarrow> n1\<lparr>n_ImportingSlots := (n_ImportingSlots n1)(is_SlotID i \<mapsto> is_FromNodeID i)\<rparr>)
               in (case migrating of None \<Rightarrow> n2
                   | Some m \<Rightarrow> n2\<lparr>n_MigratingSlots := (n_MigratingSlots n2)(ms_SlotID m \<mapsto> ms_ToNodeID m)\<rparr>)
             else n))"

text \<open>The body of the loop of \<^verbatim>\<open>DecodeNodeInfos\<close> for a line of at least eight values.\<close>

definition decode_addr :: "string \<Rightarrow> string \<Rightarrow> node \<Rightarrow> node" where
  "decode_addr addr value n =
     (case splitHostPort (Split (CHR ''@'') value ! 0) of
        (ip, port, e) \<Rightarrow>
          if e = None then
            (let n1 = n\<lparr>n_IP := ip, n_Port := port\<rparr>
             in if ip = '''' then n1\<lparr>n_IP := fst (SplitHostPort addr)\<rparr> else n1)
          else n)"

definition decode_line :: "string \<Rightarrow> string list \<Rightarrow> node option" where
  "decode_line addr values =
     (let n = NewDefaultNode\<lparr>n_ID := values ! 0\<rparr>;
          n = decode_addr addr (values ! 1) n;
          n = fst (SetRole n (values ! 2));
          n = SetFailureStatus n (values ! 2);
          n = SetReferentMaster n (values ! 3);
          n = (case ParseInt (values ! 4) of (i, e) \<Rightarrow> if e = None then n\<lparr>n_PingSent := i\<rparr> else n);
          n = (case ParseInt (values ! 5) of (i, e) \<Rightarrow> if e = None then n\<lparr>n_PongRecv := i\<rparr> else n);
          n = (case ParseInt (values ! 6) of (i, e) \<Rightarrow> if e = None then n\<lparr>n_ConfigEpoch := i\<rparr> else n);
          n = fst (SetLinkStatus n (values ! 7))
      in decode_slot_words (drop 8 values) n)"

fun DecodeNodeInfos_loop :: "string \<Rightarrow> string list \<Rightarrow> NodeInfos \<Rightarrow> NodeInfos option" where
  "DecodeNodeInfos_loop addr [] infos = Some infos"
| "DecodeNodeInfos_loop addr (line # lines) infos =
     (let values = Split (CHR '' '') line in
      if length values < 8 then DecodeNodeInfos_loop addr lines infos
      else case decode_line addr values of
        None \<Rightarrow> None
      | Some n \<Rightarrow>
          DecodeNodeInfos_loop addr lines
            (if HasPrefix (values ! 2) ''myself'' then infos\<lparr>ni_Node := n\<rparr>
             else infos\<lparr>ni_Friends := ni_Friends infos @ [n]\<rparr>))"

definition DecodeNodeInfos :: "string \<Rightarrow> string \<Rightarrow> NodeInfos option" where
  "DecodeNodeInfos input addr = DecodeNodeInfos_loop addr (Split newline input) NewNodeInfos"

section \<open>Agreement of the nodes\<close>

type_synonym ConfigSignature = "string \<rightharpoonup> slot list"

definition GetNodes :: "ClusterInfos \<Rightarrow> node list" where
  "GetNodes c = map (\<lambda>(addr, nodeinfos). ni_Node nodeinfos) (ci_Infos c)"

fun getConfigSignature_loop :: "node list \<Rightarrow> ConfigSignature \<Rightarrow> ConfigSignature" where
  "getConfigSignature_loop [] signature = signature"
| "getConfigSignature_loop (n # ns) signature =
     getConfigSignature_loop ns
       (if n_Role n = RedisMasterRole then signature(IPPort n \<mapsto> n_Slots n) else signature)"

definition getConfigSignature :: "node list \<Rightarrow> ConfigSignature" where
  "getConfigSignature ns = getConfigSignature_loop ns Map.empty"

text \<open>\<^verbatim>\<open>ConfigSignature.String\<close>, with the keys of the map as the list \<open>ks\<close> in any order.\<close>

definition ConfigSignature_String :: "string list \<Rightarrow> ConfigSignature \<Rightarrow> string" where
  "ConfigSignature_String ks c =
     ''map['' @ concat (map (\<lambda>i. i @ '':'' @ SlotSlice_String (the (c i)) @ [newline]) (sort ks)) @ '']''"

definition sort_by_id :: "node list \<Rightarrow> node list" where
  "sort_by_id ns = SortByFunc (\<lambda>_. 0) LessByID ns"

text \<open>
  \<^verbatim>\<open>ComputeStatus\<close>. The view of a node is \<^verbatim>\<open>append(nodeinfos.Friends, nodeinfos.Node)\<close>, sorted in
  place. When the slice \<^verbatim>\<open>Friends\<close> has spare capacity (\<open>spare addr\<close>), \<^verbatim>\<open>append\<close> writes into its
  array, and the sort then permutes the array that \<^verbatim>\<open>Friends\<close> still shows the first elements of;
  without spare capacity \<^verbatim>\<open>append\<close> copies and \<^verbatim>\<open>Friends\<close> is left alone.
\<close>

definition sorted_view :: "NodeInfos \<Rightarrow> node list" where
  "sorted_view ni = sort_by_id (ni_Friends ni @ [ni_Node ni])"

definition after_view :: "bool \<Rightarrow> NodeInfos \<Rightarrow> NodeInfos" where
  "after_view spare ni =
     (if spare then ni\<lparr>ni_Friends := take (length (ni_Friends ni)) (sorted_view ni)\<rparr> else ni)"

fun ComputeStatus_loop ::
    "(string \<Rightarrow> bool) \<Rightarrow> ConfigSignature \<Rightarrow> (string \<times> NodeInfos) list \<Rightarrow> string \<Rightarrow> (string \<times> NodeInfos) list \<times> string" where
  "ComputeStatus_loop spare consolidated [] status = ([], status)"
| "ComputeStatus_loop spare consolidated ((addr, ni) # infos) status =
     (let status' = (if consolidated \<noteq> getConfigSignature (sorted_view ni)
                     then ClusterInfosInconsistent else status)
      in case ComputeStatus_loop spare consolidated infos status' of
           (infos', s) \<Rightarrow> ((addr, after_view (spare addr) ni) # infos', s))"

definition ComputeStatus :: "(string \<Rightarrow> bool) \<Rightarrow> ClusterInfos \<Rightarrow> ClusterInfos \<times> bool" where
  "ComputeStatus spare c =
     (if ci_Status c \<noteq> ClusterInfosUnset then (c, False)
      else
        let consolidatedSignature = getConfigSignature (sort_by_id (GetNodes c));
            (infos, status) = ComputeStatus_loop spare consolidatedSignature (ci_Infos c) (ci_Status c)
        in if status = ClusterInfosUnset
           then (c\<lparr>ci_Infos := infos, ci_Status := ClusterInfosConsistent\<rparr>, True)
           else (c\<lparr>ci_Infos := infos, ci_Status := status\<rparr>, False))"

section \<open>The error of an incomplete view\<close>

definition NewClusterInfosError :: err where
  "NewClusterInfosError = ErrClusterInfos [] False False"

text \<open>\<^verbatim>\<open>ClusterInfosError.Error\<close>, for a printing function of the errors of the single nodes.\<close>

definition ClusterInfosError_Error :: "(err \<Rightarrow> string) \<Rightarrow> (string \<times> err) list \<Rightarrow> bool \<Rightarrow> bool \<Rightarrow> string" where
  "ClusterInfosError_Error show_err errs partial inconsistent =
     (if partial then
        ''Cluster infos partial: '' @
        concat (map (\<lambda>(addr, e). addr @ '': '' @ [CHR 0x27] @ show_err e @ [CHR 0x27]) errs)
      else if inconsistent then ''Cluster view is inconsistent'' else '''')"

definition IsPartialError :: "err option \<Rightarrow> bool" where
  "IsPartialError e = (case e of Some (ErrClusterInfos errs partial inconsistent) \<Rightarrow> partial | _ \<Rightarrow> False)"

definition IsInconsistentError :: "err option \<Rightarrow> bool" where
  "IsInconsistentError e = (case e of Some (ErrClusterInfos errs partial inconsistent) \<Rightarrow> inconsistent | _ \<Rightarrow> False)"

section \<open>Lemmas\<close>

lemmas infos_consts = ClusterInfosUnset_def ClusterInfosPartial_def ClusterInfosInconsistent_def
  ClusterInfosConsistent_def

lemma sort_by_id_sort_key: "sort_by_id ns = sort_key n_ID ns"
proof -
  have "sort_key (\<lambda>_. 0 :: nat) ns = ns" by (rule sort_key_id_if_sorted) (simp add: sorted_iff_nth_mono)
  then show ?thesis using SortByFunc_key [of "\<lambda>_. 0" n_ID ns] by (simp add: sort_by_id_def LessByID_def [abs_def])
qed

lemma length_sorted_view: "length (sorted_view ni) = Suc (length (ni_Friends ni))"
  by (simp add: sorted_view_def sort_by_id_sort_key)

lemma ComputeStatus_loop_status:
  "snd (ComputeStatus_loop spare sig infos s) =
     (if \<exists>(addr, ni) \<in> set infos. getConfigSignature (sorted_view ni) \<noteq> sig
      then ClusterInfosInconsistent else s)"
  by (induction spare sig infos s rule: ComputeStatus_loop.induct)
    (auto simp: Let_def split: prod.splits if_splits)

lemma ComputeStatus_loop_infos:
  "fst (ComputeStatus_loop spare sig infos s) = map (\<lambda>(addr, ni). (addr, after_view (spare addr) ni)) infos"
  by (induction spare sig infos s rule: ComputeStatus_loop.induct) (auto simp: Let_def split: prod.splits)

lemma ComputeStatus_infos:
  "ci_Status c = ClusterInfosUnset \<Longrightarrow>
   ci_Infos (fst (ComputeStatus spare c)) = map (\<lambda>(addr, ni). (addr, after_view (spare addr) ni)) (ci_Infos c)"
  by (simp add: ComputeStatus_def Let_def split_beta ComputeStatus_loop_infos)

text \<open>The view with spare capacity: the nodes of the smallest ids, one fewer than there are.\<close>

lemma sorted_view_last:
  assumes "distinct (map n_ID (ni_Friends ni @ [ni_Node ni]))"
  shows "\<exists>g \<in> set (ni_Friends ni @ [ni_Node ni]).
           set (take (length (ni_Friends ni)) (sorted_view ni)) = set (ni_Friends ni @ [ni_Node ni]) - {g}
           \<and> (\<forall>x \<in> set (ni_Friends ni @ [ni_Node ni]). n_ID x \<le> n_ID g)"
proof -
  let ?v = "sorted_view ni"
  have ne: "?v \<noteq> []" using length_sorted_view [of ni] by auto
  have set: "set ?v = set (ni_Friends ni @ [ni_Node ni])"
    by (simp add: sorted_view_def sort_by_id_sort_key)
  have tk: "take (length (ni_Friends ni)) ?v = butlast ?v"
    by (simp add: butlast_conv_take length_sorted_view)
  have "distinct ?v"
    using assms by (auto simp: sorted_view_def sort_by_id_sort_key distinct_map)
  then have "set (butlast ?v) = set ?v - {last ?v}"
    using ne by (metis Diff_insert_absorb append_butlast_last_id distinct_butlast insertCI list.simps(15)
        not_distinct_conv_prefix rotate1.simps(2) set_rotate1)
  moreover have "n_ID x \<le> n_ID (last ?v)" if "x \<in> set ?v" for x
  proof -
    have "sorted (map n_ID ?v)" by (simp add: sorted_view_def sort_by_id_sort_key)
    moreover have "map n_ID ?v = map n_ID (butlast ?v) @ [n_ID (last ?v)]"
      using ne by (metis append_butlast_last_id list.simps(8,9) map_append)
    ultimately have "\<forall>y \<in> set (map n_ID (butlast ?v)). y \<le> n_ID (last ?v)"
      by (simp add: sorted_append)
    with that ne show ?thesis
      by (metis append_butlast_last_id image_eqI list.set_map order_refl rotate1.simps(2) set_ConsD set_rotate1)
  qed
  ultimately show ?thesis
    using ne set tk by (intro bexI [of _ "last ?v"]) auto
qed

section \<open>The text of a reply\<close>

text \<open>
  How a redis server prints a node in the reply to \<^verbatim>\<open>CLUSTER NODES\<close>: the specification the decoder
  is measured against. \<open>cport\<close> is the port of the cluster bus, which the decoder drops; the lists
  give the importing and migrating slots in the order they are printed.
\<close>

definition print_range :: "SlotRange \<Rightarrow> string" where
  "print_range r = (if sr_Min r = sr_Max r then Slot_String (sr_Min r) else SlotRange_String r)"

definition bracket :: "string \<Rightarrow> string" where
  "bracket s = ''['' @ s @ '']''"

record printed_node =
  pn_node :: node
  pn_cport :: string
  pn_importing :: "ImportingSlot list"
  pn_migrating :: "MigratingSlot list"

definition node_words :: "bool \<Rightarrow> printed_node \<Rightarrow> string list" where
  "node_words me p =
     (let n = pn_node p in
      [n_ID n, n_IP n @ '':'' @ n_Port n @ ''@'' @ pn_cport p,
       Join '','' ((if me then [''myself''] else []) @ [n_Role n] @ n_FailStatus n),
       (if n_MasterReferent n = '''' then ''-'' else n_MasterReferent n),
       Itoa (n_PingSent n), Itoa (n_PongRecv n), Itoa (n_ConfigEpoch n), n_LinkState n] @
      map print_range (snd (SlotRangesFromSlots (n_Slots n))) @
      map (\<lambda>i. bracket (ImportingSlot_String i)) (pn_importing p) @
      map (\<lambda>m. bracket (MigratingSlot_String m)) (pn_migrating p))"

definition node_line :: "bool \<Rightarrow> printed_node \<Rightarrow> string" where
  "node_line me p = Join '' '' (node_words me p)"

definition plain :: "string \<Rightarrow> bool" where
  "plain s \<longleftrightarrow> (\<forall>c \<in> set s. c \<notin> set '' ,@[]-'' \<and> c \<noteq> newline)"

definition int64 :: "int \<Rightarrow> bool" where
  "int64 i \<longleftrightarrow> - (2 ^ 63) \<le> i \<and> i < 2 ^ 63"

text \<open>
  A node as a server knows it: a master or a slave with known failure flags, a connected or
  disconnected link, its slots in increasing order, and none of the fields that only the operator
  fills.
\<close>

definition server_node :: "printed_node \<Rightarrow> bool" where
  "server_node p \<longleftrightarrow>
     (let n = pn_node p in
      plain (n_ID n) \<and> plain (n_IP n) \<and> n_IP n \<noteq> '''' \<and> plain (n_Port n) \<and> CHR '':'' \<notin> set (n_Port n) \<and>
      plain (pn_cport p) \<and> n_Role n \<in> {RedisMasterRole, RedisSlaveRole} \<and>
      set (n_FailStatus n) \<subseteq> {NodeStatusFail, NodeStatusPFail, NodeStatusHandshake, NodeStatusNoAddr, NodeStatusNoFlags} \<and>
      plain (n_MasterReferent n) \<and> int64 (n_PingSent n) \<and> int64 (n_PongRecv n) \<and> int64 (n_ConfigEpoch n) \<and>
      n_LinkState n \<in> {RedisLinkStateConnected, RedisLinkStateDisconnected} \<and>
      sorted (n_Slots n) \<and> distinct (n_Slots n) \<and> - 1 \<notin> set (n_Slots n) \<and>
      (\<forall>i \<in> set (pn_importing p). plain (is_FromNodeID i)) \<and> (\<forall>m \<in> set (pn_migrating p). plain (ms_ToNodeID m)) \<and>
      n_ImportingSlots n = foldl (\<lambda>m i. m(is_SlotID i \<mapsto> is_FromNodeID i)) Map.empty (pn_importing p) \<and>
      n_MigratingSlots n = foldl (\<lambda>m i. m(ms_SlotID i \<mapsto> ms_ToNodeID i)) Map.empty (pn_migrating p) \<and>
      n_balance n = 0 \<and> n_ServerStartTime n = 0 \<and> n_NodeName n = '''' \<and> n_Zonename n = '''' \<and>
      n_PodName n = '''' \<and> n_StatefulSet n = '''')"

lemma decode_ranges:
  "\<forall>r \<in> set rs. sr_Max r \<noteq> - 1 \<Longrightarrow>
   decode_slot_words (map print_range rs @ ws) n = decode_slot_words ws (n\<lparr>n_Slots := n_Slots n @ ranges_slots rs\<rparr>)"
proof (induction rs arbitrary: n)
  case Nil
  then show ?case by simp
next
  case (Cons r rs)
  have "DecodeSlotRange (print_range r) = Some (slots_between (sr_Min r) (sr_Max r), None, None, None)"
    using Cons.prems
    by (simp add: print_range_def DecodeSlotRange_range_String DecodeSlotRange_single slots_between_single)
  with Cons show ?case by (simp add: ranges_slots_def)
qed

lemma decode_importing:
  "\<forall>i \<in> set is. CHR ''-'' \<notin> set (is_FromNodeID i) \<Longrightarrow>
   decode_slot_words (map (\<lambda>i. bracket (ImportingSlot_String i)) is @ ws) n
     = decode_slot_words ws (n\<lparr>n_ImportingSlots :=
         foldl (\<lambda>m i. m(is_SlotID i \<mapsto> is_FromNodeID i)) (n_ImportingSlots n) is\<rparr>)"
  by (induction "is" arbitrary: n) (simp_all add: bracket_def DecodeSlotRange_importing [simplified])

lemma decode_migrating:
  "\<forall>i \<in> set is. CHR ''-'' \<notin> set (ms_ToNodeID i) \<Longrightarrow>
   decode_slot_words (map (\<lambda>i. bracket (MigratingSlot_String i)) is) n
     = Some (n\<lparr>n_MigratingSlots :=
         foldl (\<lambda>m i. m(ms_SlotID i \<mapsto> ms_ToNodeID i)) (n_MigratingSlots n) is\<rparr>)"
  by (induction "is" arbitrary: n) (simp_all add: bracket_def DecodeSlotRange_migrating [simplified])

lemma plainD:
  assumes "plain s"
  shows "CHR '' '' \<notin> set s" "CHR '','' \<notin> set s" "CHR ''@'' \<notin> set s" "CHR ''-'' \<notin> set s"
    "CHR ''['' \<notin> set s" "CHR '']'' \<notin> set s" "newline \<notin> set s"
  using assms by (auto simp: plain_def)

lemma sorted_distinct_slots:
  "sorted xs \<Longrightarrow> distinct xs \<Longrightarrow> - 1 \<notin> set xs \<Longrightarrow> ranges_slots (snd (SlotRangesFromSlots xs)) = xs"
  using SlotRangesFromSlots_slots sorted_list_of_set.idem_if_sorted_distinct by metis

lemma server_nodeD:
  assumes "server_node p"
  shows "plain (n_ID (pn_node p))" "plain (n_IP (pn_node p))" "n_IP (pn_node p) \<noteq> ''''" "plain (n_Port (pn_node p))"
    "CHR '':'' \<notin> set (n_Port (pn_node p))" "plain (pn_cport p)"
    "n_Role (pn_node p) = RedisMasterRole \<or> n_Role (pn_node p) = RedisSlaveRole"
    "set (n_FailStatus (pn_node p)) \<subseteq> {NodeStatusFail, NodeStatusPFail, NodeStatusHandshake, NodeStatusNoAddr, NodeStatusNoFlags}"
    "plain (n_MasterReferent (pn_node p))"
    "int64 (n_PingSent (pn_node p))" "int64 (n_PongRecv (pn_node p))" "int64 (n_ConfigEpoch (pn_node p))"
    "n_LinkState (pn_node p) = RedisLinkStateConnected \<or> n_LinkState (pn_node p) = RedisLinkStateDisconnected"
    "\<forall>i \<in> set (pn_importing p). plain (is_FromNodeID i)" "\<forall>m \<in> set (pn_migrating p). plain (ms_ToNodeID m)"
  using assms unfolding server_node_def Let_def by blast+

lemma decode_slots_of_node:
  assumes "server_node p"
  shows "decode_slot_words (drop 8 (node_words me p)) ((pn_node p)\<lparr>n_Slots := [], n_ImportingSlots := Map.empty,
           n_MigratingSlots := Map.empty\<rparr>) = Some (pn_node p)"
proof -
  let ?n = "pn_node p"
  have max: "\<forall>r \<in> set (snd (SlotRangesFromSlots (n_Slots ?n))). sr_Max r \<noteq> - 1"
    using assms SlotRangesFromSlots_max by (auto simp: server_node_def Let_def)
  have "\<forall>i \<in> set (pn_importing p). CHR ''-'' \<notin> set (is_FromNodeID i)"
    and "\<forall>m \<in> set (pn_migrating p). CHR ''-'' \<notin> set (ms_ToNodeID m)"
    using assms by (auto simp: server_node_def Let_def dest: plainD)
  moreover have "ranges_slots (snd (SlotRangesFromSlots (n_Slots ?n))) = n_Slots ?n"
    using assms by (intro sorted_distinct_slots) (auto simp: server_node_def Let_def)
  moreover have "n_ImportingSlots ?n = foldl (\<lambda>m i. m(is_SlotID i \<mapsto> is_FromNodeID i)) Map.empty (pn_importing p)"
    and "n_MigratingSlots ?n = foldl (\<lambda>m i. m(ms_SlotID i \<mapsto> ms_ToNodeID i)) Map.empty (pn_migrating p)"
    using assms by (auto simp: server_node_def Let_def)
  ultimately show ?thesis
    by (simp add: node_words_def Let_def decode_ranges [OF max] decode_importing decode_migrating
        del: fun_upd_apply)
qed

lemma decode_addr_of_node:
  assumes "server_node p"
  shows "decode_addr addr (node_words me p ! 1) n = n\<lparr>n_IP := n_IP (pn_node p), n_Port := n_Port (pn_node p)\<rparr>"
proof -
  let ?n = "pn_node p"
  have c: "CHR ''@'' \<notin> set (n_IP ?n @ '':'' @ n_Port ?n)" "CHR '':'' \<notin> set (n_Port ?n)" "n_IP ?n \<noteq> ''''"
    using server_nodeD(2,3,4,5) [OF assms] by (auto simp: plain_def)
  have "Split (CHR ''@'') (node_words me p ! 1) ! 0 = n_IP ?n @ '':'' @ n_Port ?n"
    using Split_append_sep [OF c(1), of "pn_cport p"] by (simp add: node_words_def Let_def)
  moreover have "LastIndex (n_IP ?n @ CHR '':'' # n_Port ?n) (CHR '':'') = Some (length (n_IP ?n))"
    using c(2) by (rule LastIndex_append_last)
  ultimately show ?thesis
    using c(3) by (simp add: decode_addr_def splitHostPort_def)
qed

lemma flags_of_node:
  assumes "server_node p"
  shows "Split (CHR '','') (node_words me p ! 2) = (if me then [''myself''] else []) @ [n_Role (pn_node p)] @ n_FailStatus (pn_node p)"
proof -
  have "\<forall>w \<in> set ((if me then [''myself''] else []) @ [n_Role (pn_node p)] @ n_FailStatus (pn_node p)). CHR '','' \<notin> set w"
    using server_nodeD(7,8) [OF assms] by (auto simp: role_consts fail_consts)
  from Split_Join [OF _ this] show ?thesis by (simp add: node_words_def Let_def)
qed

lemma SetRole_of_node:
  assumes "server_node p"
  shows "fst (SetRole n (node_words me p ! 2)) = n\<lparr>n_Role := n_Role (pn_node p)\<rparr>"
proof -
  let ?fs = "(if me then [''myself''] else []) @ [n_Role (pn_node p)] @ n_FailStatus (pn_node p)"
  obtain r where r: "SetRole_loop ?fs (n\<lparr>n_Role := ''''\<rparr>) = n\<lparr>n_Role := r\<rparr>"
    using SetRole_loop_frame [of ?fs "n\<lparr>n_Role := ''''\<rparr>"] by auto
  have fail: "\<forall>v \<in> set (n_FailStatus (pn_node p)). v \<noteq> RedisMasterRole \<and> v \<noteq> RedisSlaveRole"
    using server_nodeD(7,8) [OF assms] by (auto simp: role_consts fail_consts)
  then have "filter (\<lambda>v. v = RedisMasterRole \<or> v = RedisSlaveRole) (rev (n_FailStatus (pn_node p))) = []"
    by (simp add: filter_empty_conv)
  moreover have "n_Role (pn_node p) = RedisMasterRole \<or> n_Role (pn_node p) = RedisSlaveRole"
    using assms by (auto simp: server_node_def Let_def)
  ultimately have "n_Role (SetRole_loop ?fs (n\<lparr>n_Role := ''''\<rparr>)) = n_Role (pn_node p)"
    unfolding SetRole_loop_role by simp
  with r show ?thesis by (simp add: SetRole_def flags_of_node [OF assms])
qed

lemma SetFailureStatus_of_node:
  assumes "server_node p"
  shows "SetFailureStatus n (node_words me p ! 2) = n\<lparr>n_FailStatus := n_FailStatus (pn_node p)\<rparr>"
proof -
  let ?P = "\<lambda>v. v \<in> {NodeStatusFail, NodeStatusPFail, NodeStatusHandshake, NodeStatusNoAddr, NodeStatusNoFlags}"
  have "filter ?P (n_FailStatus (pn_node p)) = n_FailStatus (pn_node p)"
    using server_nodeD(8) [OF assms] by (auto intro!: filter_True)
  moreover have "\<not> ?P (n_Role (pn_node p))" "\<not> ?P ''myself''"
    using server_nodeD(7,8) [OF assms] by (auto simp: role_consts fail_consts)
  ultimately show ?thesis
    by (simp add: SetFailureStatus_def flags_of_node [OF assms] SetFailureStatus_loop_eq)
qed

lemma node_words_nth:
  "node_words me p ! 0 = n_ID (pn_node p)"
  "node_words me p ! 3 = (if n_MasterReferent (pn_node p) = '''' then ''-'' else n_MasterReferent (pn_node p))"
  "node_words me p ! 4 = Itoa (n_PingSent (pn_node p))"
  "node_words me p ! 5 = Itoa (n_PongRecv (pn_node p))"
  "node_words me p ! 6 = Itoa (n_ConfigEpoch (pn_node p))"
  "node_words me p ! 7 = n_LinkState (pn_node p)"
  by (simp_all add: node_words_def Let_def)

lemma decode_line_of_node:
  assumes "server_node p"
  shows "decode_line addr (node_words me p) = Some (pn_node p)"
proof -
  let ?n = "pn_node p"
  have ints: "ParseInt (Itoa (n_PingSent ?n)) = (n_PingSent ?n, None)"
    "ParseInt (Itoa (n_PongRecv ?n)) = (n_PongRecv ?n, None)"
    "ParseInt (Itoa (n_ConfigEpoch ?n)) = (n_ConfigEpoch ?n, None)"
    using server_nodeD(10-12) [OF assms] by (simp_all add: int64_def ParseInt_Itoa)
  have ref: "SetReferentMaster n (node_words me p ! 3) = n\<lparr>n_MasterReferent := n_MasterReferent ?n\<rparr>" for n
    using plainD(4) [OF server_nodeD(9) [OF assms]]
    by (cases "n_MasterReferent ?n = ''-''") (simp_all add: SetReferentMaster_def node_words_nth Let_def)
  have link: "fst (SetLinkStatus n (node_words me p ! 7)) = n\<lparr>n_LinkState := n_LinkState ?n\<rparr>" for n
    using server_nodeD(13) [OF assms]
    by (auto simp: SetLinkStatus_def node_words_nth Let_def RedisLinkStateConnected_def RedisLinkStateDisconnected_def)
  have rest: "n_balance ?n = 0" "n_ServerStartTime ?n = 0" "n_NodeName ?n = ''''" "n_Zonename ?n = ''''"
    "n_PodName ?n = ''''" "n_StatefulSet ?n = ''''"
    using assms by (auto simp: server_node_def Let_def)
  then have "NewDefaultNode\<lparr>n_ID := n_ID ?n, n_IP := n_IP ?n, n_Port := n_Port ?n, n_Role := n_Role ?n,
      n_FailStatus := n_FailStatus ?n, n_MasterReferent := n_MasterReferent ?n, n_PingSent := n_PingSent ?n,
      n_PongRecv := n_PongRecv ?n, n_ConfigEpoch := n_ConfigEpoch ?n, n_LinkState := n_LinkState ?n\<rparr>
      = ?n\<lparr>n_Slots := [], n_ImportingSlots := Map.empty, n_MigratingSlots := Map.empty\<rparr>"
    by (cases ?n) (simp add: NewDefaultNode_def)
  then show ?thesis
    using decode_slots_of_node [OF assms, of me]
    by (simp add: decode_line_def Let_def decode_addr_of_node [OF assms, simplified] SetRole_of_node [OF assms]
        SetFailureStatus_of_node [OF assms] ref link ints node_words_nth(1,3,4,5))
qed

lemma no_blank_Itoa: "CHR '' '' \<notin> set (Itoa i)" "newline \<notin> set (Itoa i)"
  by (auto simp: Itoa_def newline_def format_nat_no_char is_digit_def)

lemma no_blank_Slot: "CHR '' '' \<notin> set (Slot_String s)" "newline \<notin> set (Slot_String s)"
  by (auto simp: Slot_String_def newline_def format_nat_no_char is_digit_def)

lemma no_blank_Join:
  "c \<notin> set sep \<Longrightarrow> \<forall>w \<in> set ws. c \<notin> set w \<Longrightarrow> c \<notin> set (Join sep ws)"
  by (induction sep ws rule: Join.induct) auto

lemma node_words_blank:
  assumes "server_node p" and "w \<in> set (node_words me p)" and "c = CHR '' '' \<or> c = newline"
  shows "c \<notin> set w"
proof -
  let ?n = "pn_node p"
  have "\<forall>w \<in> set ((if me then [''myself''] else []) @ [n_Role ?n] @ n_FailStatus ?n). c \<notin> set w"
    using assms(3) server_nodeD(7,8) [OF assms(1)] by (auto simp: role_consts fail_consts newline_def)
  then have flags: "c \<notin> set (Join '','' ((if me then [''myself''] else []) @ [n_Role ?n] @ n_FailStatus ?n))"
    using assms(3) by (intro no_blank_Join) (auto simp: newline_def)
  have plain_c: "plain s \<Longrightarrow> c \<notin> set s" for s
    using assms(3) plainD(1,7) by blast
  have c: "c \<notin> set '':@-connectdis''"
    using assms(3) by (auto simp: newline_def)
  have ranges: "c \<notin> set (print_range r)" for r
    using assms(3) no_blank_Slot by (auto simp: print_range_def SlotRange_String_def slotSeparator_def newline_def)
  have imp: "c \<notin> set (bracket (ImportingSlot_String i))" if "i \<in> set (pn_importing p)" for i
    using assms(3) no_blank_Slot plain_c server_nodeD(14) [OF assms(1)] that
    by (auto simp: bracket_def ImportingSlot_String_def importingSeparator_def newline_def)
  have mig: "c \<notin> set (bracket (MigratingSlot_String i))" if "i \<in> set (pn_migrating p)" for i
    using assms(3) no_blank_Slot plain_c server_nodeD(15) [OF assms(1)] that
    by (auto simp: bracket_def MigratingSlot_String_def migratingSeparator_def newline_def)
  have one: "c \<notin> set (n_ID ?n)" "c \<notin> set (n_IP ?n @ '':'' @ n_Port ?n @ ''@'' @ pn_cport p)" "c \<notin> set (n_MasterReferent ?n)"
    "c \<notin> set (n_LinkState ?n)" "c \<noteq> CHR ''-''"
    using plain_c server_nodeD(1,2,4,6,9) [OF assms(1)] server_nodeD(13) [OF assms(1)] c
    by (auto simp: RedisLinkStateConnected_def RedisLinkStateDisconnected_def)
  have int: "c \<notin> set (Itoa i)" for i using assms(3) no_blank_Itoa by blast
  from assms(2) consider "w = n_ID ?n" | "w = n_IP ?n @ '':'' @ n_Port ?n @ ''@'' @ pn_cport p"
    | "w = Join '','' ((if me then [''myself''] else []) @ [n_Role ?n] @ n_FailStatus ?n)"
    | "w = (if n_MasterReferent ?n = '''' then ''-'' else n_MasterReferent ?n)"
    | i where "w = Itoa i" | "w = n_LinkState ?n" | r where "w = print_range r"
    | i where "i \<in> set (pn_importing p)" "w = bracket (ImportingSlot_String i)"
    | i where "i \<in> set (pn_migrating p)" "w = bracket (MigratingSlot_String i)"
    unfolding node_words_def Let_def by auto
  then show ?thesis
    using flags one int ranges imp mig by cases auto
qed

lemma Split_node_line:
  assumes "server_node p"
  shows "Split (CHR '' '') (node_line me p) = node_words me p"
  unfolding node_line_def using node_words_blank [OF assms]
  by (intro Split_Join) (auto simp: node_words_def Let_def)

lemma node_line_newline: "server_node p \<Longrightarrow> newline \<notin> set (node_line me p)"
  unfolding node_line_def using node_words_blank by (intro no_blank_Join) (auto simp: newline_def)

lemma node_words_length: "length (node_words me p) \<ge> 8"
  by (simp add: node_words_def Let_def)

lemma myself_prefix:
  assumes "server_node p"
  shows "HasPrefix (node_words me p ! 2) ''myself'' \<longleftrightarrow> me"
proof -
  have "n_Role (pn_node p) \<in> {RedisMasterRole, RedisSlaveRole}"
    using assms by (auto simp: server_node_def Let_def)
  then show ?thesis
    by (cases "n_FailStatus (pn_node p)")
      (auto simp: node_words_def Let_def HasPrefix_def role_consts)
qed

lemma DecodeNodeInfos_loop_friends:
  assumes "\<forall>p \<in> set ps. server_node p"
  shows "DecodeNodeInfos_loop addr (map (node_line False) ps @ ls) infos
           = DecodeNodeInfos_loop addr ls (infos\<lparr>ni_Friends := ni_Friends infos @ map pn_node ps\<rparr>)"
  using assms
proof (induction ps arbitrary: infos)
  case Nil
  then show ?case by simp
next
  case (Cons p ps)
  then show ?case
    using node_words_length [of False p]
    by (simp add: Split_node_line decode_line_of_node myself_prefix Let_def)
qed

lemma Split_lines:
  "\<forall>l \<in> set ls. newline \<notin> set l \<Longrightarrow> Split newline (concat (map (\<lambda>l. l @ [newline]) ls)) = ls @ [[]]"
  by (induction ls) (simp_all add: Split_append_sep)

text \<open>A node of a three-node cluster, printed by a server, and an instance of the infos.\<close>

definition example_printed :: "string \<Rightarrow> printed_node" where
  "example_printed i = \<lparr>pn_node = NewDefaultNode\<lparr>n_ID := i, n_IP := ''10.1.2.3'', n_Role := RedisMasterRole,
      n_LinkState := RedisLinkStateConnected, n_Slots := [3, 4, 7],
      n_ImportingSlots := Map.empty(9 \<mapsto> ''ff'')\<rparr>,
     pn_cport = ''16379'', pn_importing = [\<lparr>is_SlotID = 9, is_FromNodeID = ''ff''\<rparr>], pn_migrating = []\<rparr>"

definition example_ni :: NodeInfos where
  "example_ni = \<lparr>ni_Node = NewDefaultNode\<lparr>n_ID := ''a''\<rparr>, ni_Friends = [NewDefaultNode\<lparr>n_ID := ''b''\<rparr>]\<rparr>"

definition example_infos :: ClusterInfos where
  "example_infos = NewClusterInfos\<lparr>ci_Infos := [(''addr'', example_ni)]\<rparr>"

section \<open>Properties\<close>

text \<open>
  C34: \<^verbatim>\<open>DecodeNodeInfos\<close> inverts the format of \<^verbatim>\<open>CLUSTER NODES\<close>: on the reply a server prints for a
  cluster (one line per node, in any order, the line of the asked node flagged \<^verbatim>\<open>myself\<close>, IPv6
  addresses, failure flags, slot ranges, single slots and importing or migrating slots included) it
  returns the asked node as \<^verbatim>\<open>Node\<close> and the others in the order of the lines as \<^verbatim>\<open>Friends\<close>, every
  field recovered.
\<close>

theorem DecodeNodeInfos_roundtrip:
  assumes "\<forall>p \<in> set (before @ me # after). server_node p"
  shows "DecodeNodeInfos (concat (map (\<lambda>l. l @ [newline])
             (map (node_line False) before @ node_line True me # map (node_line False) after))) addr
         = Some \<lparr>ni_Node = pn_node me, ni_Friends = map pn_node before @ map pn_node after\<rparr>"
proof -
  let ?ls = "map (node_line False) before @ node_line True me # map (node_line False) after"
  have "\<forall>l \<in> set ?ls. newline \<notin> set l" using assms node_line_newline by auto
  then have s: "Split newline (concat (map (\<lambda>l. l @ [newline]) ?ls)) = ?ls @ [[]]" by (rule Split_lines)
  have last: "DecodeNodeInfos_loop addr [[]] infos = Some infos" for infos by simp
  have me: "DecodeNodeInfos_loop addr (node_line True me # ls) infos
      = DecodeNodeInfos_loop addr ls (infos\<lparr>ni_Node := pn_node me\<rparr>)" for ls infos
    using assms node_words_length [of True me]
    by (simp add: Split_node_line decode_line_of_node myself_prefix Let_def)
  show ?thesis
    unfolding DecodeNodeInfos_def s
    using assms by (simp add: DecodeNodeInfos_loop_friends me last NewNodeInfos_def del: DecodeNodeInfos_loop.simps)
qed

theorem DecodeNodeInfos_roundtrip_witness:
  "DecodeNodeInfos (concat (map (\<lambda>l. l @ [newline])
             (map (node_line False) [example_printed ''a''] @ node_line True (example_printed ''b'') # map (node_line False) [example_printed ''c''])))
       ''10.1.2.3:6379''
     = Some \<lparr>ni_Node = pn_node (example_printed ''b''),
             ni_Friends = map pn_node [example_printed ''a''] @ map pn_node [example_printed ''c'']\<rparr>"
  by (rule DecodeNodeInfos_roundtrip)
    (simp add: server_node_def example_printed_def NewDefaultNode_def plain_def int64_def newline_def DefaultRedisPort_def)

text \<open>
  \<^verbatim>\<open>ComputeStatus\<close> on fresh infos returns true and marks them consistent exactly when every
  node's view of the masters and their slots equals the view put together from what each node says
  of itself; otherwise it marks them inconsistent and returns false. Infos that already have a
  status are left alone.
\<close>

theorem ComputeStatus_spec:
  "case ComputeStatus spare c of (c', ok) \<Rightarrow>
     if ci_Status c \<noteq> ClusterInfosUnset then c' = c \<and> \<not> ok
     else (ok \<longleftrightarrow> (\<forall>(addr, ni) \<in> set (ci_Infos c).
                   getConfigSignature (sorted_view ni) = getConfigSignature (sort_by_id (GetNodes c))))
        \<and> ci_Status c' = (if ok then ClusterInfosConsistent else ClusterInfosInconsistent)"
  by (auto simp: ComputeStatus_def Let_def split_beta ComputeStatus_loop_status infos_consts)

theorem ComputeStatus_spec_witness:
  "case ComputeStatus (\<lambda>_. True) example_infos of (c', ok) \<Rightarrow>
     if ci_Status example_infos \<noteq> ClusterInfosUnset then c' = example_infos \<and> \<not> ok
     else (ok \<longleftrightarrow> (\<forall>(addr, ni) \<in> set (ci_Infos example_infos).
                   getConfigSignature (sorted_view ni) = getConfigSignature (sort_by_id (GetNodes example_infos))))
        \<and> ci_Status c' = (if ok then ClusterInfosConsistent else ClusterInfosInconsistent)"
  by (rule ComputeStatus_spec)

text \<open>
  \<^verbatim>\<open>ComputeStatus\<close> damages the infos it checks: when the slice of a node's friends has spare
  capacity and the node's own id is not the largest of its view, then after the call the node is
  listed among its own friends, and the friend with the largest id is lost from the list. Without
  spare capacity the infos of the node are unchanged.
\<close>

theorem ComputeStatus_clobbers_friends:
  assumes "ci_Status c = ClusterInfosUnset" and "(addr, ni) \<in> set (ci_Infos c)"
    and "distinct (map n_ID (ni_Friends ni @ [ni_Node ni]))"
    and "f \<in> set (ni_Friends ni)" and "n_ID (ni_Node ni) < n_ID f"
  shows "\<exists>ni'. (addr, ni') \<in> set (ci_Infos (fst (ComputeStatus spare c))) \<and>
           (if spare addr
            then ni_Node ni \<in> set (ni_Friends ni') \<and>
                 (\<exists>g \<in> set (ni_Friends ni). g \<notin> set (ni_Friends ni') \<and> (\<forall>x \<in> set (ni_Friends ni). n_ID x \<le> n_ID g))
            else ni' = ni)"
proof (intro exI conjI)
  let ?ni = "after_view (spare addr) ni"
  show "(addr, ?ni) \<in> set (ci_Infos (fst (ComputeStatus spare c)))"
    using assms(1,2) by (force simp: ComputeStatus_infos)
  obtain g where g: "g \<in> set (ni_Friends ni @ [ni_Node ni])"
    "set (take (length (ni_Friends ni)) (sorted_view ni)) = set (ni_Friends ni @ [ni_Node ni]) - {g}"
    "\<forall>x \<in> set (ni_Friends ni @ [ni_Node ni]). n_ID x \<le> n_ID g"
    using sorted_view_last [OF assms(3)] by blast
  have "g \<noteq> ni_Node ni" using g(3) assms(4,5) by (metis Un_iff leD set_append)
  with g show "if spare addr
            then ni_Node ni \<in> set (ni_Friends ?ni) \<and>
                 (\<exists>g \<in> set (ni_Friends ni). g \<notin> set (ni_Friends ?ni) \<and> (\<forall>x \<in> set (ni_Friends ni). n_ID x \<le> n_ID g))
            else ?ni = ni"
    by (auto simp: after_view_def)
qed

theorem ComputeStatus_clobbers_friends_witness:
  "\<exists>ni'. (''addr'', ni') \<in> set (ci_Infos (fst (ComputeStatus (\<lambda>_. True) example_infos))) \<and>
           (if True
            then ni_Node example_ni \<in> set (ni_Friends ni') \<and>
                 (\<exists>g \<in> set (ni_Friends example_ni). g \<notin> set (ni_Friends ni') \<and>
                    (\<forall>x \<in> set (ni_Friends example_ni). n_ID x \<le> n_ID g))
            else ni' = example_ni)"
  by (rule ComputeStatus_clobbers_friends [where f = "NewDefaultNode\<lparr>n_ID := ''b''\<rparr>"])
    (simp_all add: example_infos_def example_ni_def NewClusterInfos_def NewDefaultNode_def less_list_code)

end
