(* ===== verification/Redis_Admin.thy ===== *)
theory Redis_Admin
  imports Redis_Connections Cluster_Infos
begin

text \<open>
  The administration of a redis cluster (\<^verbatim>\<open>utils/redisutil/admin.go\<close>): the commands the operator sends
  to the servers, in their order and with their arguments, and what it makes of the replies. Logging
  is left out. A result \<open>None\<close> is a panic or a loop that does not end.
\<close>

section \<open>Constants\<close>

definition DefaultHashMaxSlots :: slot where "DefaultHashMaxSlots = 16383"
definition ResetHard :: string where "ResetHard = ''HARD''"
definition ResetSoft :: string where "ResetSoft = ''SOFT''"
definition RedisFailoverForce :: string where "RedisFailoverForce = ''FORCE''"
definition RedisFailoverTakeover :: string where "RedisFailoverTakeover = ''TAKEOVER''"
definition RedisFailoverDefault :: string where "RedisFailoverDefault = ''''"
definition ReplicaStatusUnknown :: string where "ReplicaStatusUnknown = ''unknown''"
definition ReplicaStatusReady :: string where "ReplicaStatusReady = ''ready''"
definition ReplicaStatusNOK :: string where "ReplicaStatusNOK = ''NOK''"
definition ReplicaStatusSyncing :: string where "ReplicaStatusSyncing = ''ReplicaSyncing''"
definition ReplicaStatusMasterNil :: string where "ReplicaStatusMasterNil = ''ReplicaMasterNil''"
definition ClusterStatusMigrating :: string where "ClusterStatusMigrating = ''SlotsMigrating''"

definition NewAdmin :: "env \<Rightarrow> string list \<Rightarrow> world \<Rightarrow> world" where
  "NewAdmin env addrs w = NewAdminConnections env addrs w"

definition Admin_Close :: "env \<Rightarrow> world \<Rightarrow> world" where
  "Admin_Close env w = Reset env w"

definition GetHashMaxSlot :: slot where
  "GetHashMaxSlot = DefaultHashMaxSlots"

section \<open>Cluster infos\<close>

text \<open>\<^verbatim>\<open>fmt.Sprintf("%v", raw)\<close> on the value of a reply.\<close>

fun show_val :: "val \<Rightarrow> string" where
  "show_val (VStr s) = s"
| "show_val (VInt i) = Itoa i"
| "show_val (VList vs) = ''['' @ Join '' '' (map show_val vs) @ '']''"
| "show_val (VMap kvs) = ''map['' @ Join '' '' (map (\<lambda>(k, v). show_val k @ '':'' @ show_val v) kvs) @ '']''"
| "show_val VNil = ''<nil>''"

definition reply_val :: "reply \<Rightarrow> val" where
  "reply_val r = (case r of RVal v \<Rightarrow> v | RErr _ \<Rightarrow> VNil)"

definition getInfos :: "env \<Rightarrow> string \<Rightarrow> world \<Rightarrow> ((err + NodeInfos) \<times> world) option" where
  "getInfos env addr w =
     (let (resp, w) = do_cmd env addr [AStr ''CLUSTER'', AStr ''NODES''] w;
          (err, w) = ValidateResp env (Some resp) addr ''unable to retrieve node info'' w
      in case err of
           Some e \<Rightarrow> Some (Inl e, w)
         | None \<Rightarrow>
             map_option (\<lambda>ni. (Inr ni, w)) (DecodeNodeInfos (show_val (reply_val resp)) addr))"

definition clusterKnowNodes :: "env \<Rightarrow> string \<Rightarrow> world \<Rightarrow> (int \<times> err option) \<times> world" where
  "clusterKnowNodes env addr w =
     (let args = [AStr ''CLUSTER'', AStr ''INFO''];
          (resp, w) = do_cmd env addr args w;
          (err, w) = ValidateResp env (Some resp) addr ''unable to retrieve cluster info'' w
      in if err \<noteq> None then ((0, err), w)
         else case find_submatch ''cluster_known_nodes:'' is_digit (e_string env args resp) of
                None \<Rightarrow> ((0, Some (Errorf ''cluster_known_nodes regex not found'' [])), w)
              | Some m \<Rightarrow> (ParseInt m, w))"

fun ClusterManagerNodeIsEmpty_loop :: "env \<Rightarrow> string list \<Rightarrow> world \<Rightarrow> (bool \<times> err option) \<times> world" where
  "ClusterManagerNodeIsEmpty_loop env [] w = ((True, None), w)"
| "ClusterManagerNodeIsEmpty_loop env (addr # addrs) w =
     (case clusterKnowNodes env addr w of
        ((knowNodes, err), w) \<Rightarrow>
          if err \<noteq> None then ((False, err), w)
          else if knowNodes \<noteq> 1 then ((False, None), w)
          else ClusterManagerNodeIsEmpty_loop env addrs w)"

definition ClusterManagerNodeIsEmpty :: "env \<Rightarrow> world \<Rightarrow> (bool \<times> err option) \<times> world" where
  "ClusterManagerNodeIsEmpty env w = ClusterManagerNodeIsEmpty_loop env (GetAll env w) w"

definition CheckandUpdateClusterState ::
    "ClusterInfos \<Rightarrow> string \<Rightarrow> string \<Rightarrow> string \<Rightarrow> string \<Rightarrow> ClusterInfos \<times> err option" where
  "CheckandUpdateClusterState cinfos cs fromip nip reason =
     (if cs = ClusterStateUnknown then (cinfos, Some (Errorf ''cluster state is unknown'' []))
      else if ci_ClusterState cinfos = ClusterStateUnknown then
        (let cinfos = cinfos\<lparr>ci_ClusterState := cs\<rparr>
         in if cs = ClusterStateNOK
            then (cinfos\<lparr>ci_ClusterNokReason := (ci_ClusterNokReason cinfos)(fromip \<mapsto> nip @ ''-'' @ reason)\<rparr>, None)
            else (cinfos, None))
      else if cs = ClusterStateNOK \<and> ci_ClusterState cinfos = ClusterStateOK then
        (cinfos\<lparr>ci_ClusterState := cs,
           ci_ClusterNokReason := (ci_ClusterNokReason cinfos)(fromip \<mapsto> nip @ ''- '' @ reason)\<rparr>, None)
      else if cs = ClusterStateNOK \<and> ci_ClusterState cinfos = ClusterStateNOK then
        (cinfos\<lparr>ci_ClusterNokReason := (ci_ClusterNokReason cinfos)(fromip \<mapsto> nip @ ''- '' @ reason)\<rparr>, None)
      else (cinfos, None))"

definition clusterGetStatus :: "env \<Rightarrow> string \<Rightarrow> world \<Rightarrow> (string \<times> err option) \<times> world" where
  "clusterGetStatus env addr w =
     (let args = [AStr ''CLUSTER'', AStr ''INFO''];
          (resp, w) = do_cmd env addr args w;
          (err, w) = ValidateResp env (Some resp) addr ''unable to retrieve cluster info'' w;
          raw = e_string env args resp
      in if err \<noteq> None then (('''', err), w)
         else if raw \<noteq> '''' then
           (case find_submatch ''cluster_state:'' is_lower raw of
              None \<Rightarrow> (('''', Some (Errorf ''cluster_state not found'' [])), w)
            | Some m \<Rightarrow> ((m, None), w))
         else (('''', Some (Errorf ''cluster_state not found'' [])), w))"

definition GetSlaveStatus :: "env \<Rightarrow> string \<Rightarrow> world \<Rightarrow> (string \<times> err option) \<times> world" where
  "GetSlaveStatus env ip w =
     (case cnx_Get env ip w of
        ((c, err), w) \<Rightarrow>
          if err \<noteq> None then ((ReplicaStatusUnknown, err), w)
          else case e_info env (w_trace w) ip of
            Inl e \<Rightarrow> ((ReplicaStatusUnknown, Some e), emit (EInfo ip) w)
          | Inr info \<Rightarrow>
              ((if str_contains info RedisSyncing then ReplicaStatusSyncing
                else if str_contains info RedisMasterSillPending then ReplicaStatusMasterNil
                else if str_contains info RedisLinkUp then ReplicaStatusReady
                else ReplicaStatusUnknown, None), emit (EInfo ip) w))"

text \<open>The body of the loop of \<^verbatim>\<open>GetClusterInfos\<close> for a node that answered for its own address.\<close>

definition nok :: "string \<Rightarrow> string \<Rightarrow> string \<Rightarrow> ClusterInfos \<Rightarrow> ClusterInfos" where
  "nok fromip nip reason infos = fst (CheckandUpdateClusterState infos ClusterStateNOK fromip nip reason)"

definition record_node :: "env \<Rightarrow> string \<Rightarrow> NodeInfos \<Rightarrow> ClusterInfos \<Rightarrow> world \<Rightarrow> ClusterInfos \<times> world" where
  "record_node env addr ni infos w =
     (let ip = n_IP (ni_Node ni);
          infos = infos\<lparr>ci_Infos := alist_put addr ni (ci_Infos infos)\<rparr>;
          ((cstatus, err1), w) = clusterGetStatus env addr w;
          infos = (if err1 \<noteq> None then nok ip ip ClusterStatusNotRetrived infos else infos);
          infos = (if cstatus \<noteq> ''ok'' then nok ip ip ClusterStatusFail infos else infos);
          (infos, w) =
            (if n_Role (ni_Node ni) = RedisSlaveRole then
               case GetSlaveStatus env addr w of
                 ((slaveState, err), w) \<Rightarrow>
                   let infos = (if err \<noteq> None then nok ip ip ReplicaStatusUnknown infos else infos);
                       infos = (if slaveState \<noteq> ReplicaStatusReady then nok ip ip slaveState infos else infos)
                   in (infos, w)
             else (infos, w));
          infos = foldl (\<lambda>infos friend. if length (n_FailStatus friend) > 0
                           then nok ip (n_IP friend) (Join '','' (n_FailStatus friend)) infos else infos)
                    infos (ni_Friends ni);
          infos = (if n_MigratingSlots (ni_Node ni) \<noteq> Map.empty \<or> n_ImportingSlots (ni_Node ni) \<noteq> Map.empty
                   then nok ip ip ClusterStatusMigrating infos else infos)
      in (infos, w))"

fun GetClusterInfos_loop ::
    "env \<Rightarrow> string list \<Rightarrow> ClusterInfos \<Rightarrow> (string \<times> err) list \<Rightarrow> world
       \<Rightarrow> (ClusterInfos \<times> (string \<times> err) list \<times> world) option" where
  "GetClusterInfos_loop env [] infos errs w = Some (infos, errs, w)"
| "GetClusterInfos_loop env (addr # addrs) infos errs w =
     do {
       (r, w) \<leftarrow> getInfos env addr w;
       (case r of
          Inl e \<Rightarrow> GetClusterInfos_loop env addrs (infos\<lparr>ci_Status := ClusterInfosPartial\<rparr>) (alist_put addr e errs) w
        | Inr ni \<Rightarrow>
            if IPPort (ni_Node ni) = addr
            then (case record_node env addr ni infos w of
                    (infos, w) \<Rightarrow> GetClusterInfos_loop env addrs infos errs w)
            else GetClusterInfos_loop env addrs infos errs w)
     }"

definition GetClusterInfos :: "env \<Rightarrow> world \<Rightarrow> ((ClusterInfos \<times> err option) \<times> world) option" where
  "GetClusterInfos env w =
     do {
       (infos, errs, w) \<leftarrow> GetClusterInfos_loop env (GetAll env w) NewClusterInfos [] w;
       let partial = (errs \<noteq> []);
       let (infos, inconsistent) =
         (if length errs = 0
          then (case ComputeStatus (e_spare env (w_trace w)) infos of (infos, ok) \<Rightarrow> (infos, \<not> ok))
          else (infos, False));
       Some ((infos, if ci_Status infos = ClusterInfosConsistent then None
                     else Some (ErrClusterInfos errs partial inconsistent)), w)
     }"

section \<open>Roles and membership\<close>

definition set_node :: "nref \<Rightarrow> (node \<Rightarrow> node) \<Rightarrow> world \<Rightarrow> world" where
  "set_node r f w = w\<lparr>w_heap := (w_heap w)(r := f (w_heap w r))\<rparr>"

definition become :: "string \<Rightarrow> string \<Rightarrow> node \<Rightarrow> node" where
  "become ref role n = fst (SetRole (SetReferentMaster n ref) role)"

definition FailoverSlaveToMaster :: "env \<Rightarrow> nref \<Rightarrow> string \<Rightarrow> world \<Rightarrow> err option \<times> world" where
  "FailoverSlaveToMaster env slave option w =
     (let addr = IPPort (w_heap w slave) in
      case cnx_Get env addr w of
        ((c, err), w) \<Rightarrow>
          if err \<noteq> None then (err, w)
          else
            let (resp, w) = (if option \<noteq> RedisFailoverDefault
                  then do_cmd env addr [AStr ''CLUSTER'', AStr ''FAILOVER'', AStr option] w
                  else do_cmd env addr [AStr ''CLUSTER'', AStr ''FAILOVER''] w);
                (err1, w) = ValidateResp env (Some resp) addr ''unable to run command REPLICATE'' w
            in if err1 \<noteq> None then (err1, w)
               else if reply_err resp \<noteq> None then (err, w)
               else (None, set_node slave (become '''' RedisMasterRole) w))"

definition AttachSlaveToMaster :: "env \<Rightarrow> nref \<Rightarrow> string \<Rightarrow> world \<Rightarrow> err option \<times> world" where
  "AttachSlaveToMaster env slave masterID w =
     (let addr = IPPort (w_heap w slave) in
      case cnx_Get env addr w of
        ((c, err), w) \<Rightarrow>
          if err \<noteq> None then (err, w)
          else
            let (resp, w) = do_cmd env addr [AStr ''CLUSTER'', AStr ''REPLICATE'', AStr masterID] w;
                (err1, w) = ValidateResp env (Some resp) addr ''unable to run command REPLICATE'' w
            in if err1 \<noteq> None then (err1, w)
               else if reply_err resp \<noteq> None then (err, w)
               else (None, set_node slave (become masterID RedisSlaveRole) w))"

fun AttachNodeToCluster_loop ::
    "env \<Rightarrow> string \<Rightarrow> string \<Rightarrow> string \<Rightarrow> string list \<Rightarrow> world \<Rightarrow> err option \<times> world" where
  "AttachNodeToCluster_loop env addr ip port [] w = (None, w)"
| "AttachNodeToCluster_loop env addr ip port (cAddr # cs) w =
     (if cAddr = addr then AttachNodeToCluster_loop env addr ip port cs w
      else
        let (resp, w) = do_cmd env cAddr [AStr ''CLUSTER'', AStr ''MEET'', AStr ip, AStr port] w;
            (err, w) = ValidateResp env (Some resp) addr ''cannot attach node to cluster'' w
        in if err \<noteq> None then (err, w)
           else if reply_err resp \<noteq> None then (reply_err resp, w)
           else AttachNodeToCluster_loop env addr ip port cs w)"

definition AttachNodeToCluster :: "env \<Rightarrow> string \<Rightarrow> world \<Rightarrow> err option \<times> world" where
  "AttachNodeToCluster env addr w =
     (case SplitHostPort addr of
        (ip, port, err) \<Rightarrow>
          if err \<noteq> None then (err, w)
          else if length (w_clients w) = 0
          then (Some (Errorf ''no connection for other redis-node found'' []), w)
          else case AttachNodeToCluster_loop env addr ip port (GetAll env w) w of
                 (err, w) \<Rightarrow> if err \<noteq> None then (err, w) else (None, snd (cnx_Add env addr w)))"

text \<open>The slave of \<^verbatim>\<open>DetachSlave\<close> is a node of freshly decoded infos, kept by value.\<close>

definition DetachSlave :: "env \<Rightarrow> node \<Rightarrow> world \<Rightarrow> err option \<times> node \<times> world" where
  "DetachSlave env slave w =
     (let addr = IPPort slave in
      case cnx_Get env addr w of
        ((c, err), w) \<Rightarrow>
          if err \<noteq> None then (err, slave, w)
          else
            let (resp, w) = do_cmd env addr [AStr ''CLUSTER'', AStr ''RESET'', AStr ''SOFT''] w;
                (err, w) = ValidateResp env (Some resp) addr ''cannot attach node to cluster'' w
            in if err \<noteq> None then (err, slave, w)
               else if reply_err resp \<noteq> None then (reply_err resp, slave, w)
               else case AttachNodeToCluster env addr w of
                      (err, w) \<Rightarrow> if err \<noteq> None then (err, slave, w)
                                   else (None, become '''' RedisMasterRole slave, w))"

text \<open>The text of an error the client reports.\<close>

fun err_msg :: "err \<Rightarrow> string" where
  "err_msg (ErrServer m) = m"
| "err_msg (ErrTimeout m) = m"
| "err_msg (ErrOp m) = m"
| "err_msg (ErrConst m) = m"
| "err_msg (Errorf f as) = f"
| "err_msg ErrSyntax = ''invalid syntax''"
| "err_msg ErrRange = ''value out of range''"
| "err_msg (ErrClusterInfos es p i) = ClusterInfosError_Error (\<lambda>_. '''') es p i"

fun ForgetNode_loop :: "env \<Rightarrow> string \<Rightarrow> (string \<rightharpoonup> NodeInfos) \<Rightarrow> string list \<Rightarrow> world \<Rightarrow> err option \<times> world" where
  "ForgetNode_loop env i infos [] w = (None, w)"
| "ForgetNode_loop env i infos (nodeAddr # addrs) w =
     (case infos nodeAddr of
        None \<Rightarrow> ForgetNode_loop env i infos addrs w
      | Some ni \<Rightarrow>
          if n_ID (ni_Node ni) = i then ForgetNode_loop env i infos addrs w
          else
            let w = (if IsSlave (ni_Node ni) \<and> n_MasterReferent (ni_Node ni) = i
                     then snd (snd (DetachSlave env (ni_Node ni) w)) else w)
            in case cnx_Get env nodeAddr w of
                 ((c, err), w) \<Rightarrow>
                   if err \<noteq> None then ForgetNode_loop env i infos addrs w
                   else
                     let (resp, w) = do_cmd env nodeAddr [AStr ''CLUSTER'', AStr ''FORGET'', AStr i] w;
                         (_, w) = ValidateResp env (Some resp) nodeAddr ''Unable to execute FORGET command'' w
                     in case reply_err resp of
                          Some e \<Rightarrow>
                            if find_submatch ''ERR Unknown node '' (\<lambda>c. is_lower c \<or> is_digit c) (err_msg e) = None
                            then (Some e, w) else ForgetNode_loop env i infos addrs w
                        | None \<Rightarrow> ForgetNode_loop env i infos addrs w)"

definition ForgetNode :: "env \<Rightarrow> string \<Rightarrow> world \<Rightarrow> (err option \<times> world) option" where
  "ForgetNode env i w =
     do {
       ((infos, _), w) \<leftarrow> GetClusterInfos env w;
       Some (ForgetNode_loop env i (map_of (ci_Infos infos))
               (e_order env (w_trace w) (map fst (ci_Infos infos))) w)
     }"

section \<open>Slots\<close>

definition Admin_AddSlots :: "env \<Rightarrow> string \<Rightarrow> slot list \<Rightarrow> world \<Rightarrow> err option \<times> world" where
  "Admin_AddSlots env addr slots w =
     (if length slots = 0 then (None, w)
      else case cnx_Get env addr w of
        ((c, err), w) \<Rightarrow>
          if err \<noteq> None then (err, w)
          else
            let firstSlot = Slot_ToInt (slots ! 0);
                lastSlot = Slot_ToInt (slots ! (length slots - 1));
                resp = e_addslots env (w_trace w) addr firstSlot lastSlot;
                w = emit (EAddSlotsRange addr firstSlot lastSlot) w
            in if resp \<noteq> None then (resp, w) else (err, w))"

definition setslot_args :: "string \<Rightarrow> string \<Rightarrow> slot \<Rightarrow> arg list" where
  "setslot_args action nodeID slot =
     [AStr ''CLUSTER'', AStr ''SETSLOT'', AInt (Slot_ToInt slot), AStr action] @
     (if nodeID \<noteq> '''' then [AStr nodeID] else [])"

definition SetSlots :: "env \<Rightarrow> string \<Rightarrow> string \<Rightarrow> slot list \<Rightarrow> string \<Rightarrow> world \<Rightarrow> err option \<times> world" where
  "SetSlots env addr action slots nodeID w =
     (if length slots = 0 then (None, w)
      else case cnx_Get env addr w of
        ((c, err), w) \<Rightarrow>
          if err \<noteq> None then (err, w)
          else case exec_pipe env addr (map (setslot_args action nodeID) slots) w of
            ((out, err), w) \<Rightarrow>
              if err \<noteq> None then (err, w)
              else case ValidatePipeResp env out addr err w of
                (ok, w) \<Rightarrow>
                  if \<not> ok then (Some (Errorf ''Error occured during CLUSTER SETSLOT %s'' [action]), w)
                  else (None, w))"

definition SetSlot :: "env \<Rightarrow> string \<Rightarrow> string \<Rightarrow> slot \<Rightarrow> string \<Rightarrow> world \<Rightarrow> err option \<times> world" where
  "SetSlot env addr action slot nodeID w =
     (case cnx_Get env addr w of
        ((c, err), w) \<Rightarrow>
          if err \<noteq> None then (err, w)
          else case exec_pipe env addr [setslot_args action nodeID slot] w of
            ((out, err), w) \<Rightarrow>
              case ValidatePipeResp env out addr err w of
                (ok, w) \<Rightarrow>
                  if \<not> ok then (Some (Errorf ''Error occured during CLUSTER SETSLOT %s'' [action]), w)
                  else (None, w))"

fun SetConfigEpoch_loop :: "env \<Rightarrow> int \<Rightarrow> string list \<Rightarrow> world \<Rightarrow> err option \<times> world" where
  "SetConfigEpoch_loop env configEpoch [] w = (None, w)"
| "SetConfigEpoch_loop env configEpoch (addr # addrs) w =
     (let (resp, w) = do_cmd env addr [AStr ''CLUSTER'', AStr ''SET-CONFIG-EPOCH'', AInt configEpoch] w;
          (err, w) = ValidateResp env (Some resp) addr ''unable to run command SET-CONFIG-EPOCH'' w
      in if err \<noteq> None then (err, w)
         else if reply_err resp \<noteq> None then (reply_err resp, w)
         else SetConfigEpoch_loop env (configEpoch + 1) addrs w)"

definition SetConfigEpoch :: "env \<Rightarrow> world \<Rightarrow> err option \<times> world" where
  "SetConfigEpoch env w = SetConfigEpoch_loop env 1 (GetAll env w) w"

section \<open>Moving keys\<close>

definition migrateCmdArgs :: "env \<Rightarrow> node \<Rightarrow> string \<Rightarrow> bool \<Rightarrow> string list \<Rightarrow> string list" where
  "migrateCmdArgs env dest timeoutStr replace keys =
     [n_IP dest, n_Port dest, '''', ''0'', timeoutStr] @
     (case GetAUTH env of (password, ok) \<Rightarrow> if ok then [''AUTH'', password] else []) @
     (if replace then [''REPLACE'', ''KEYS''] else [''KEYS'']) @ keys"

text \<open>The conversion of the reply to \<^verbatim>\<open>GETKEYSINSLOT\<close> into keys.\<close>

fun string_keys :: "nat \<Rightarrow> val list \<Rightarrow> err + string list" where
  "string_keys i [] = Inr []"
| "string_keys i (v # vs) =
     (case v of
        VStr k \<Rightarrow> (case string_keys (Suc i) vs of Inl e \<Rightarrow> Inl e | Inr ks \<Rightarrow> Inr (k # ks))
      | _ \<Rightarrow> Inl (Errorf ''unexpected type for key at index %d: %T'' [Itoa (int i)]))"

definition reply_keys :: "reply \<Rightarrow> err + string list" where
  "reply_keys resp =
     (case reply_val resp of
        VList keySlice \<Rightarrow> string_keys 0 keySlice
      | _ \<Rightarrow> Inl (Errorf ''unexpected type for res: %T'' []))"

text \<open>
  The inner loop of \<^verbatim>\<open>MigrateKeys\<close> for one slot: \<open>Inr\<close> is the count with which the loop ended,
  \<open>Inl\<close> the pair the function returned from within it. A failed \<^verbatim>\<open>MIGRATE\<close> returns the variable
  \<^verbatim>\<open>err\<close> of the block, which is \<^verbatim>\<open>nil\<close> there.
\<close>

partial_function (option) MigrateKeys_slot ::
    "env \<Rightarrow> string \<Rightarrow> node \<Rightarrow> int \<Rightarrow> string \<Rightarrow> string \<Rightarrow> bool \<Rightarrow> int \<Rightarrow> world \<Rightarrow> (((int \<times> err option) + int) \<times> world) option" where
  "MigrateKeys_slot env addr dest slotint batchStr timeoutStr replace keyCount w =
     (case do_cmd env addr [AStr ''CLUSTER'', AStr ''GETKEYSINSLOT'', AInt slotint, AStr batchStr] w of
        (resp, w) \<Rightarrow>
          if reply_err resp \<noteq> None then Some (Inl (0, reply_err resp), w)
          else case reply_keys resp of
            Inl e \<Rightarrow> Some (Inl (keyCount, Some e), w)
          | Inr keys \<Rightarrow>
              if length keys = 0 then Some (Inr (keyCount + int (length keys)), w)
              else case do_cmd env addr [AStr ''MIGRATE'', AList (migrateCmdArgs env dest timeoutStr replace keys)] w of
                (resp, w) \<Rightarrow>
                  if reply_err resp \<noteq> None then Some (Inl (keyCount + int (length keys), None), w)
                  else MigrateKeys_slot env addr dest slotint batchStr timeoutStr replace
                         (keyCount + int (length keys)) w)"

fun MigrateKeys_slots ::
    "env \<Rightarrow> string \<Rightarrow> node \<Rightarrow> slot list \<Rightarrow> string \<Rightarrow> string \<Rightarrow> bool \<Rightarrow> int \<Rightarrow> world \<Rightarrow> ((int \<times> err option) \<times> world) option" where
  "MigrateKeys_slots env addr dest [] batchStr timeoutStr replace keyCount w = Some ((keyCount, None), w)"
| "MigrateKeys_slots env addr dest (slot # slots) batchStr timeoutStr replace keyCount w =
     do {
       (r, w) \<leftarrow> MigrateKeys_slot env addr dest (Slot_ToInt slot) batchStr timeoutStr replace keyCount w;
       (case r of
          Inl result \<Rightarrow> Some (result, w)
        | Inr keyCount \<Rightarrow> MigrateKeys_slots env addr dest slots batchStr timeoutStr replace keyCount w)
     }"

definition MigrateKeys ::
    "env \<Rightarrow> string \<Rightarrow> node \<Rightarrow> slot list \<Rightarrow> int \<Rightarrow> int \<Rightarrow> bool \<Rightarrow> world \<Rightarrow> ((int \<times> err option) \<times> world) option" where
  "MigrateKeys env addr dest slots batch timeout replace w =
     (if length slots = 0 then Some ((0, None), w)
      else case cnx_Get env addr w of
        ((c, err), w) \<Rightarrow>
          if err \<noteq> None then Some ((0, err), w)
          else MigrateKeys_slots env addr dest slots (Itoa batch) (Itoa timeout) replace 0 w)"

partial_function (option) MigrateKeysInSlot_loop ::
    "env \<Rightarrow> string \<Rightarrow> node \<Rightarrow> int \<Rightarrow> string \<Rightarrow> string \<Rightarrow> bool \<Rightarrow> int \<Rightarrow> world \<Rightarrow> ((int \<times> err option) \<times> world) option" where
  "MigrateKeysInSlot_loop env addr dest slotint batchStr timeoutStr replace keyCount w =
     (case do_cmd env addr [AStr ''CLUSTER'', AStr ''GETKEYSINSLOT'', AInt slotint, AStr batchStr] w of
        (resp, w) \<Rightarrow>
          if reply_err resp \<noteq> None then Some ((0, reply_err resp), w)
          else case reply_keys resp of
            Inl e \<Rightarrow> Some ((keyCount, Some e), w)
          | Inr keys \<Rightarrow>
              if length keys = 0 then Some ((keyCount + int (length keys), None), w)
              else case do_cmd env addr [AStr ''MIGRATE'', AList (migrateCmdArgs env dest timeoutStr replace keys)] w of
                (resp, w) \<Rightarrow>
                  case ValidateResp env (Some resp) addr ''Unable to run command MIGRATE'' w of
                    (err, w) \<Rightarrow>
                      if err \<noteq> None then Some ((keyCount + int (length keys), err), w)
                      else if reply_err resp \<noteq> None then Some ((0, reply_err resp), w)
                      else MigrateKeysInSlot_loop env addr dest slotint batchStr timeoutStr replace
                             (keyCount + int (length keys)) w)"

definition MigrateKeysInSlot ::
    "env \<Rightarrow> string \<Rightarrow> node \<Rightarrow> slot \<Rightarrow> int \<Rightarrow> int \<Rightarrow> bool \<Rightarrow> world \<Rightarrow> ((int \<times> err option) \<times> world) option" where
  "MigrateKeysInSlot env addr dest slot batch timeout replace w =
     (case cnx_Get env addr w of
        ((c, err), w) \<Rightarrow>
          if err \<noteq> None then Some ((0, err), w)
          else MigrateKeysInSlot_loop env addr dest (Slot_ToInt slot) (Itoa batch) (Itoa timeout) replace 0 w)"

section \<open>Configuration\<close>

definition GetAllConfig :: "env \<Rightarrow> string \<Rightarrow> world \<Rightarrow> ((err + (string \<rightharpoonup> string)) \<times> world) option" where
  "GetAllConfig env addr w =
     (let (resp, w) = do_cmd env addr [AStr ''CONFIG'', AStr ''GET'', AStr ''*''] w;
          (err, w) = ValidateResp env (Some resp) addr ''unable to retrieve config'' w
      in case err of
           Some e \<Rightarrow> Some (Inl e, w)
         | None \<Rightarrow>
             (case reply_val resp of
                VMap kvs \<Rightarrow>
                  Some (Inr (foldl (\<lambda>m (k, v). case (k, v) of (VStr ks, VStr vs) \<Rightarrow> m(ks \<mapsto> vs) | _ \<Rightarrow> m)
                               Map.empty kvs), w)
              | _ \<Rightarrow> None))"

definition parseConfigMap :: "string list" where
  "parseConfigMap = [''maxmemory'', ''proto-max-bulk-len'', ''client-query-buffer-limit'', ''repl-backlog-size'',
     ''auto-aof-rewrite-min-size'', ''active-defrag-ignore-bytes'', ''hash-max-ziplist-entries'',
     ''hash-max-ziplist-value'', ''stream-node-max-bytes'', ''set-max-intset-entries'',
     ''zset-max-ziplist-entries'', ''zset-max-ziplist-value'', ''hll-sparse-max-bytes'']"

fun SetConfig_keys ::
    "env \<Rightarrow> string \<Rightarrow> (string \<rightharpoonup> string) \<Rightarrow> (string \<times> string) list \<Rightarrow> world \<Rightarrow> err option \<times> world" where
  "SetConfig_keys env addr oldConfig [] w = (None, w)"
| "SetConfig_keys env addr oldConfig ((key, value) # newConfig) w =
     (let parsed = (if key \<in> set parseConfigMap then ParseRedisMemConf value else (value, None));
          value = fst parsed
      in if snd parsed \<noteq> None then SetConfig_keys env addr oldConfig newConfig w
         else if value \<noteq> (case oldConfig key of Some v \<Rightarrow> v | None \<Rightarrow> '''') then
           (let (resp, w) = do_cmd env addr [AStr ''CONFIG'', AStr ''SET'', AStr key, AStr value] w;
                (err, w) = ValidateResp env (Some resp) addr ''unable to retrieve config'' w
            in if err \<noteq> None then (err, w)
               else if reply_err resp \<noteq> None then (reply_err resp, w)
               else SetConfig_keys env addr oldConfig newConfig w)
         else SetConfig_keys env addr oldConfig newConfig w)"

fun SetConfigIfNeed_loop :: "env \<Rightarrow> (string \<times> string) list \<Rightarrow> string list \<Rightarrow> world \<Rightarrow> (err option \<times> world) option" where
  "SetConfigIfNeed_loop env newConfig [] w = Some (None, w)"
| "SetConfigIfNeed_loop env newConfig (addr # addrs) w =
     do {
       (r, w) \<leftarrow> GetAllConfig env addr w;
       (case r of
          Inl e \<Rightarrow> Some (Some e, w)
        | Inr oldConfig \<Rightarrow>
            (case SetConfig_keys env addr oldConfig newConfig w of
               (err, w) \<Rightarrow> if err \<noteq> None then Some (err, w) else SetConfigIfNeed_loop env newConfig addrs w))
     }"

definition SetConfigIfNeed :: "env \<Rightarrow> (string \<times> string) list \<Rightarrow> world \<Rightarrow> (err option \<times> world) option" where
  "SetConfigIfNeed env newConfig w = SetConfigIfNeed_loop env newConfig (GetAll env w) w"

definition FlushAndReset :: "env \<Rightarrow> string \<Rightarrow> string \<Rightarrow> world \<Rightarrow> err option \<times> world" where
  "FlushAndReset env addr mode w =
     (case cnx_Get env addr w of
        ((c, err), w) \<Rightarrow>
          if err \<noteq> None then (err, w)
          else case exec_pipe env addr [[AStr ''FLUSHALL''], [AStr ''CLUSTER'', AStr ''RESET'', AStr mode]] w of
            ((out, err), w) \<Rightarrow>
              case ValidatePipeResp env out addr err w of
                (ok, w) \<Rightarrow> if \<not> ok then (Some (Errorf ''cannot reset node %s'' [addr]), w) else (None, w))"

fun ResetPassword_loop :: "env \<Rightarrow> string \<Rightarrow> string list \<Rightarrow> world \<Rightarrow> err option \<times> world" where
  "ResetPassword_loop env newPassword [] w = (None, w)"
| "ResetPassword_loop env newPassword (addr # addrs) w =
     (let (resp, w) = do_cmd env addr [AStr ''CONFIG'', AStr ''SET'', AStr ''masterauth'', AStr newPassword] w;
          (err, w) = ValidateResp env (Some resp) addr ''cannot set new masterauth'' w
      in if err \<noteq> None then (err, w)
         else if reply_err resp \<noteq> None then (reply_err resp, w)
         else
           let (resp, w) = do_cmd env addr [AStr ''CONFIG'', AStr ''SET'', AStr ''requirepass'', AStr newPassword] w;
               (err, w) = ValidateResp env (Some resp) addr ''cannot set new requirepass'' w
           in if err \<noteq> None then (err, w)
              else if reply_err resp \<noteq> None then (reply_err resp, w)
              else ResetPassword_loop env newPassword addrs w)"

definition ResetPassword :: "env \<Rightarrow> string \<Rightarrow> world \<Rightarrow> err option \<times> world" where
  "ResetPassword env newPassword w =
     (if length (w_clients w) = 0 then (Some (Errorf ''no connection for other redis-node found'' []), w)
      else ResetPassword_loop env newPassword (GetAll env w) w)"

section \<open>Lemmas\<close>

lemma set_node_simps [simp]:
  "w_heap (set_node r f w) = (w_heap w)(r := f (w_heap w r))" "w_clients (set_node r f w) = w_clients w"
  "w_trace (set_node r f w) = w_trace w"
  by (simp_all add: set_node_def)

lemma cnx_Get_pool [simp]: "addr \<in> set (w_clients w) \<Longrightarrow> cnx_Get env addr w = ((Some addr, None), w)"
  by (simp add: cnx_Get_def)

lemma getInfos_heap: "getInfos env addr w = Some (r, w') \<Longrightarrow> w_heap w' = w_heap w"
  by (auto simp: getInfos_def do_cmd_def split_beta Let_def split: option.splits)

lemma clusterGetStatus_heap [simp]: "w_heap (snd (clusterGetStatus env addr w)) = w_heap w"
  by (simp add: clusterGetStatus_def do_cmd_def split_beta Let_def split: option.splits)

lemma GetSlaveStatus_heap [simp]: "w_heap (snd (GetSlaveStatus env addr w)) = w_heap w"
  by (simp add: GetSlaveStatus_def split_beta split: sum.splits)

section \<open>The history grows\<close>

definition extends :: "world \<Rightarrow> world \<Rightarrow> bool" where
  "extends w w' \<longleftrightarrow> (\<exists>es. w_trace w' = w_trace w @ es)"

lemma extends_refl [simp]: "extends w w"
  by (simp add: extends_def)

lemma extends_trans: "extends w w1 \<Longrightarrow> extends w1 w' \<Longrightarrow> extends w w'"
  by (auto simp: extends_def)

lemma extends_same: "extends w w1 \<Longrightarrow> w_trace w' = w_trace w1 \<Longrightarrow> extends w w'"
  by (simp add: extends_def)

lemma extends_emit [intro]: "extends w w1 \<Longrightarrow> extends w (emit e w1)"
  by (auto simp: extends_def)

lemma connect_extends [simp]: "extends w (snd (connect env addr w))"
  by (simp add: connect_eq extends_emit)

lemma put_client_extends: "extends w w1 \<Longrightarrow> extends w (put_client a w1)"
  by (rule extends_same) simp_all

lemma cnx_Get_extends [simp]: "extends w (snd (cnx_Get env addr w))"
  by (simp add: cnx_Get_def connect_eq extends_emit put_client_extends)

lemma cnx_Add_extends [simp]: "extends w (snd (cnx_Add env addr w))"
  by (auto simp: cnx_Add_def Update_def connect_eq Let_def intro!: extends_emit put_client_extends)

lemma cnx_Remove_extends [simp]: "extends w (cnx_Remove addr w)"
  by (auto simp: cnx_Remove_def extends_def)

lemma handleError_extends [simp]: "extends w (snd (handleError env addr err w))"
proof -
  have "extends w (snd (Reconnect env addr w))"
    unfolding Reconnect_def by (rule extends_trans [OF cnx_Remove_extends cnx_Add_extends])
  then show ?thesis by (simp add: handleError_def split: option.splits err.splits)
qed

lemma ValidateResp_extends [simp]: "extends w (snd (ValidateResp env resp addr msg w))"
  by (simp add: ValidateResp_def split: option.splits)

lemma ValidatePipeResp_extends [simp]: "extends w (snd (ValidatePipeResp env resp addr err w))"
  using handleError_extends [of w env addr err]
  by (cases "handleError env addr err w") (simp add: ValidatePipeResp_def del: handleError_extends)

lemma getInfos_extends: "getInfos env addr w = Some (r, w') \<Longrightarrow> extends w w'"
  using extends_trans [OF extends_emit [OF extends_refl] ValidateResp_extends]
  by (auto simp: getInfos_def do_cmd_def split_beta Let_def split: option.splits)

lemma clusterGetStatus_extends [simp]: "extends w (snd (clusterGetStatus env addr w))"
  using extends_trans [OF extends_emit [OF extends_refl] ValidateResp_extends]
  by (simp add: clusterGetStatus_def do_cmd_def split_beta Let_def extends_emit split: option.splits)

lemma GetSlaveStatus_extends [simp]: "extends w (snd (GetSlaveStatus env addr w))"
  by (simp add: GetSlaveStatus_def split_beta extends_emit split: sum.splits)

lemma record_node_extends [simp]: "extends w (snd (record_node env addr ni infos w))"
  using extends_trans [OF clusterGetStatus_extends GetSlaveStatus_extends]
  unfolding record_node_def Let_def split_beta by simp

lemma Admin_AddSlots_extends [simp]: "extends w (snd (Admin_AddSlots env addr slots w))"
  by (auto simp: Admin_AddSlots_def split_beta Let_def intro!: extends_emit)

lemma SetSlots_frame [simp]:
  "extends w (snd (SetSlots env a action slots i w))" "w_heap (snd (SetSlots env a action slots i w)) = w_heap w"
proof -
  let ?w1 = "snd (cnx_Get env a w)"
  let ?w2 = "snd (exec_pipe env a (map (setslot_args action i) slots) ?w1)"
  have 2: "extends w ?w2" "w_heap ?w2 = w_heap w" by (simp_all add: exec_pipe_def extends_emit)
  have 3: "extends w (snd (ValidatePipeResp env out a err ?w2))" for out err
    by (rule extends_trans [OF 2(1) ValidatePipeResp_extends])
  show "extends w (snd (SetSlots env a action slots i w))"
    using 2 3 by (simp add: SetSlots_def split_beta)
  show "w_heap (snd (SetSlots env a action slots i w)) = w_heap w"
    using 2 by (simp add: SetSlots_def split_beta)
qed

text \<open>The invariant of the loop of \<^verbatim>\<open>GetClusterInfos\<close>.\<close>

lemma nok_infos [simp]: "ci_Infos (nok a b c infos) = ci_Infos infos" "ci_Status (nok a b c infos) = ci_Status infos"
  by (simp_all add: nok_def CheckandUpdateClusterState_def Let_def)

lemma nok_friends [simp]:
  "ci_Infos (foldl (\<lambda>infos friend. if P friend then nok a (f friend) (g friend) infos else infos) infos fs) = ci_Infos infos"
  "ci_Status (foldl (\<lambda>infos friend. if P friend then nok a (f friend) (g friend) infos else infos) infos fs) = ci_Status infos"
  by (induction fs arbitrary: infos) auto

lemma record_node_eq:
  "ci_Infos (fst (record_node env addr ni infos w)) = alist_put addr ni (ci_Infos infos)"
  "ci_Status (fst (record_node env addr ni infos w)) = ci_Status infos"
  "w_heap (snd (record_node env addr ni infos w)) = w_heap w"
  unfolding record_node_def Let_def split_beta by simp_all

definition infos_inv :: "ClusterInfos \<Rightarrow> (string \<times> err) list \<Rightarrow> bool" where
  "infos_inv infos errs \<longleftrightarrow>
     ci_Status infos = (if errs = [] then ClusterInfosUnset else ClusterInfosPartial) \<and>
     distinct (map fst (ci_Infos infos)) \<and> (\<forall>(addr, ni) \<in> set (ci_Infos infos). IPPort (ni_Node ni) = addr)"

lemma alist_put_entries: "(a, x) \<in> set (alist_put k v al) \<Longrightarrow> (a, x) = (k, v) \<or> (a, x) \<in> set al"
  by (induction k v al rule: alist_put.induct) (auto split: if_splits)

lemma alist_put_not_Nil [simp]: "alist_put k v al \<noteq> []"
  by (cases "(k, v, al)" rule: alist_put.cases) auto

lemma GetClusterInfos_loop_inv:
  "GetClusterInfos_loop env addrs infos errs w = Some (infos', errs', w') \<Longrightarrow> infos_inv infos errs \<Longrightarrow>
   infos_inv infos' errs' \<and> w_heap w' = w_heap w"
proof (induction env addrs infos errs w rule: GetClusterInfos_loop.induct)
  case (1 env infos errs w)
  then show ?case by simp
next
  case (2 env addr addrs infos errs w)
  obtain r w1 where g: "getInfos env addr w = Some (r, w1)"
    using "2.prems"(1) by (cases "getInfos env addr w") auto
  have h: "w_heap w1 = w_heap w" using g by (rule getInfos_heap)
  show ?case
  proof (cases r)
    case (Inl e)
    have "infos_inv (infos\<lparr>ci_Status := ClusterInfosPartial\<rparr>) (alist_put addr e errs)"
      using "2.prems"(2) by (auto simp: infos_inv_def)
    with "2.IH"(1) [OF g refl Inl] "2.prems"(1) g Inl h show ?thesis by simp
  next
    case (Inr ni)
    show ?thesis
    proof (cases "IPPort (ni_Node ni) = addr")
      case True
      obtain infos1 w2 where rec: "record_node env addr ni infos w1 = (infos1, w2)" by fastforce
      have "infos_inv infos1 errs"
        using "2.prems"(2) record_node_eq [of env addr ni infos w1] True
        by (auto simp: rec infos_inv_def distinct_alist_put dest!: alist_put_entries)
      moreover have "w_heap w2 = w_heap w"
        using record_node_eq(3) [of env addr ni infos w1] h by (simp add: rec)
      ultimately show ?thesis
        using "2.IH"(2) [OF g refl Inr True rec [symmetric]] "2.prems"(1) g Inr True rec by simp
    next
      case False
      with "2.IH"(3) [OF g refl Inr False] "2.prems" g Inr h show ?thesis by simp
    qed
  qed
qed

text \<open>
  The answers behind the infos: \<open>answered\<close> and \<open>failed\<close> say that between two histories a node was asked for \<^verbatim>\<open>CLUSTER NODES\<close>
  and gave a reply that decodes to the infos, or an error.
\<close>

definition nodes_args :: "arg list" where
  "nodes_args = [AStr ''CLUSTER'', AStr ''NODES'']"

definition answered :: "env \<Rightarrow> history \<Rightarrow> history \<Rightarrow> string \<Rightarrow> NodeInfos \<Rightarrow> bool" where
  "answered env t0 t addr ni \<longleftrightarrow>
     (\<exists>es rest v. t = t0 @ es @ EDo addr nodes_args # rest \<and> e_do env (t0 @ es) addr nodes_args = RVal v \<and>
        DecodeNodeInfos (show_val v) addr = Some ni)"

definition failed :: "env \<Rightarrow> history \<Rightarrow> history \<Rightarrow> string \<Rightarrow> bool" where
  "failed env t0 t addr \<longleftrightarrow>
     (\<exists>es rest msg. t = t0 @ es @ EDo addr nodes_args # rest \<and> e_do env (t0 @ es) addr nodes_args = RErr msg)"

lemma answered_later: "answered env t0 t addr ni \<Longrightarrow> answered env t0 (t @ es) addr ni"
  unfolding answered_def by fastforce

lemma failed_later: "failed env t0 t addr \<Longrightarrow> failed env t0 (t @ es) addr"
  unfolding failed_def by fastforce

definition fetched :: "env \<Rightarrow> history \<Rightarrow> string set \<Rightarrow> ClusterInfos \<Rightarrow> history \<Rightarrow> bool" where
  "fetched env t0 A infos t \<longleftrightarrow>
     (\<forall>a ni. (a, ni) \<in> set (ci_Infos infos) \<longrightarrow> a \<in> A \<and> answered env t0 t a ni) \<and>
     (\<forall>a \<in> A. a \<in> fst ` set (ci_Infos infos) \<or> failed env t0 t a \<or> (\<exists>ni. answered env t0 t a ni \<and> IPPort (ni_Node ni) \<noteq> a))"

lemma fetched_later: "fetched env t0 A infos t \<Longrightarrow> fetched env t0 A infos (t @ es)"
  unfolding fetched_def using answered_later failed_later by metis

lemma fst_alist_put: "fst ` set (alist_put k v al) = insert k (fst ` set al)"
  by (induction k v al rule: alist_put.induct) auto

lemma getInfos_cases:
  assumes "getInfos env addr w = Some (r, w')" and "w_trace w = t0 @ es"
  shows "case r of Inl e \<Rightarrow> failed env t0 (w_trace w') addr | Inr ni \<Rightarrow> answered env t0 (w_trace w') addr ni"
proof -
  let ?w1 = "emit (EDo addr nodes_args) w"
  let ?r = "e_do env (w_trace w) addr nodes_args"
  obtain err w2 where v: "ValidateResp env (Some ?r) addr ''unable to retrieve node info'' ?w1 = (err, w2)" by fastforce
  have err: "err = None \<longleftrightarrow> reply_err ?r = None" using ValidateResp_ok_iff [of env ?r addr "''unable to retrieve node info''" ?w1] v by simp
  have "extends ?w1 w2" using ValidateResp_extends [of ?w1 env "Some ?r" addr "''unable to retrieve node info''"] v by simp
  then obtain rest where rest: "w_trace w2 = t0 @ es @ EDo addr nodes_args # rest" using assms(2) by (auto simp: extends_def)
  show ?thesis
  proof (cases ?r)
    case (RErr e)
    with err have "err \<noteq> None" by (simp add: reply_err_def)
    with assms(1) v have "\<exists>e. r = Inl e" "w' = w2"
      by (auto simp: getInfos_def do_cmd_def nodes_args_def [symmetric] split: option.splits)
    moreover have "failed env t0 (w_trace w2) addr"
      unfolding failed_def rest using RErr assms(2) by (intro exI [of _ es] exI [of _ rest] exI [of _ e]) simp
    ultimately show ?thesis by auto
  next
    case (RVal x)
    with err have "err = None" by (simp add: reply_err_def)
    with assms(1) v RVal obtain ni where "r = Inr ni" "DecodeNodeInfos (show_val x) addr = Some ni" "w' = w2"
      by (auto simp: getInfos_def do_cmd_def nodes_args_def [symmetric] reply_val_def)
    moreover from this have "answered env t0 (w_trace w2) addr ni"
      unfolding answered_def rest using RVal assms(2) by (intro exI [of _ es] exI [of _ rest] exI [of _ x]) simp
    ultimately show ?thesis by simp
  qed
qed

lemma fetched_fail:
  assumes "fetched env t0 A infos t" and "failed env t0 t' a \<or> (\<exists>ni. answered env t0 t' a ni \<and> IPPort (ni_Node ni) \<noteq> a)" and "t' = t @ es"
  shows "fetched env t0 (insert a A) (infos\<lparr>ci_Status := s\<rparr>) t'" and "fetched env t0 (insert a A) infos t'"
  using fetched_later [OF assms(1), of es] assms(2,3) unfolding fetched_def by simp_all

lemma fetched_put:
  assumes "fetched env t0 A infos t" and "answered env t0 t a ni" and "ci_Infos infos' = alist_put a ni (ci_Infos infos)"
  shows "fetched env t0 (insert a A) infos' t"
  using assms unfolding fetched_def assms(3) fst_alist_put by (fastforce dest!: alist_put_entries)

lemma GetClusterInfos_loop_fetched:
  "GetClusterInfos_loop env addrs infos errs w = Some (infos', errs', w') \<Longrightarrow> w_trace w = t0 @ es \<Longrightarrow>
   fetched env t0 A infos (w_trace w) \<Longrightarrow> fetched env t0 (set addrs \<union> A) infos' (w_trace w')"
proof (induction env addrs infos errs w arbitrary: A es rule: GetClusterInfos_loop.induct)
  case (1 env infos errs w)
  then show ?case by simp
next
  case (2 env addr addrs infos errs w)
  obtain r w1 where g: "getInfos env addr w = Some (r, w1)"
    using "2.prems"(1) by (cases "getInfos env addr w") auto
  obtain es1 where w1: "w_trace w1 = w_trace w @ es1" using getInfos_extends [OF g] by (auto simp: extends_def)
  then have t1: "w_trace w1 = t0 @ (es @ es1)" using "2.prems"(2) by simp
  note ans = getInfos_cases [OF g "2.prems"(2)]
  show ?case
  proof (cases r)
    case (Inl e)
    have "fetched env t0 (insert addr A) (infos\<lparr>ci_Status := ClusterInfosPartial\<rparr>) (w_trace w1)"
      using fetched_fail(1) [OF "2.prems"(3) _ w1] ans Inl by simp
    from "2.IH"(1) [OF g refl Inl _ t1 this] "2.prems"(1) g Inl show ?thesis by simp
  next
    case (Inr ni)
    show ?thesis
    proof (cases "IPPort (ni_Node ni) = addr")
      case True
      obtain infos1 w2 where rec: "record_node env addr ni infos w1 = (infos1, w2)" by fastforce
      obtain es2 where w2: "w_trace w2 = w_trace w1 @ es2" using record_node_extends [of w1 env addr ni infos] rec by (auto simp: extends_def)
      have "fetched env t0 (insert addr A) infos1 (w_trace w1)"
        using record_node_eq(1) [of env addr ni infos w1] rec ans Inr
        by (intro fetched_put [OF fetched_later [OF "2.prems"(3), of es1, folded w1]]) simp_all
      then have "fetched env t0 (insert addr A) infos1 (w_trace w2)" unfolding w2 by (rule fetched_later)
      moreover have "w_trace w2 = t0 @ (es @ es1 @ es2)" using w2 t1 by simp
      ultimately show ?thesis
        using "2.IH"(2) [OF g refl Inr True rec [symmetric], of "es @ es1 @ es2" "insert addr A"] "2.prems"(1) g Inr True rec
        by simp
    next
      case False
      have "fetched env t0 (insert addr A) infos (w_trace w1)"
        using fetched_fail(2) [OF "2.prems"(3) _ w1] ans Inr False by auto
      from "2.IH"(3) [OF g refl Inr False _ t1 this] "2.prems"(1) g Inr False show ?thesis by simp
    qed
  qed
qed

lemma infos_inv_init: "infos_inv NewClusterInfos []"
  by (simp add: infos_inv_def NewClusterInfos_def)

lemma after_view_node [simp]: "ni_Node (after_view s ni) = ni_Node ni"
  by (simp add: after_view_def)

lemma SetConfigEpoch_loop_trace:
  "SetConfigEpoch_loop env k addrs w = (None, w') \<Longrightarrow>
   w_trace w' = w_trace w @ map (\<lambda>(i, addr). EDo addr [AStr ''CLUSTER'', AStr ''SET-CONFIG-EPOCH'', AInt (k + int i)])
                              (zip [0..<length addrs] addrs) \<and> w_clients w' = w_clients w"
proof (induction env k addrs w rule: SetConfigEpoch_loop.induct)
  case (1 env k w)
  then show ?case by simp
next
  case (2 env k addr addrs w)
  let ?e = "EDo addr [AStr ''CLUSTER'', AStr ''SET-CONFIG-EPOCH'', AInt k]"
  have ok: "reply_err (e_do env (w_trace w) addr [AStr ''CLUSTER'', AStr ''SET-CONFIG-EPOCH'', AInt k]) = None"
    using "2.prems" by (auto simp: Let_def do_cmd_def ValidateResp_def split: if_splits)
  have z: "zip [0..<length (addr # addrs)] (addr # addrs) = (0, addr) # map (\<lambda>(i, a). (Suc i, a)) (zip [0..<length addrs] addrs)"
    by (simp add: upt_conv_Cons zip_map1 map_Suc_upt [symmetric] del: upt_Suc)
  from ok "2.prems" have "SetConfigEpoch_loop env (k + 1) addrs (emit ?e w) = (None, w')"
    by (simp add: Let_def do_cmd_def)
  with "2.IH" [OF _ refl] ok show ?case
    unfolding z by (simp add: do_cmd_def comp_def split_def algebra_simps)
qed

lemma AttachNodeToCluster_loop_trace:
  "AttachNodeToCluster_loop env addr ip port cs w = (None, w') \<Longrightarrow>
   w_trace w' = w_trace w @ map (\<lambda>c. EDo c [AStr ''CLUSTER'', AStr ''MEET'', AStr ip, AStr port]) (filter (\<lambda>c. c \<noteq> addr) cs)
   \<and> w_clients w' = w_clients w \<and> w_heap w' = w_heap w"
proof (induction env addr ip port cs w rule: AttachNodeToCluster_loop.induct)
  case (1 env addr ip port w)
  then show ?case by simp
next
  case (2 env addr ip port c cs w)
  show ?case
  proof (cases "c = addr")
    case True
    with 2 show ?thesis by simp
  next
    case False
    let ?a = "[AStr ''CLUSTER'', AStr ''MEET'', AStr ip, AStr port]"
    have ok: "reply_err (e_do env (w_trace w) c ?a) = None"
      using "2.prems" False by (auto simp: Let_def do_cmd_def ValidateResp_def split: if_splits)
    with "2.prems" False have "AttachNodeToCluster_loop env addr ip port cs (emit (EDo c ?a) w) = (None, w')"
      by (simp add: Let_def do_cmd_def)
    with "2.IH"(2) [OF False _ refl] ok False show ?thesis by (simp add: do_cmd_def)
  qed
qed

text \<open>
  What the client library documents of its arguments: it sends strings, bytes and numbers, and the \<^verbatim>\<open>Do\<close> of a command with a
  slice among its arguments fails with an error of the library, not of the network. \<open>lists_keys\<close> says what
  \<^verbatim>\<open>GETKEYSINSLOT\<close> returns: as many keys as it is asked for, or all, of the keys a slot has at an address.
\<close>

definition getkeys_args :: "int \<Rightarrow> string \<Rightarrow> arg list" where
  "getkeys_args slotint batchStr = [AStr ''CLUSTER'', AStr ''GETKEYSINSLOT'', AInt slotint, AStr batchStr]"

definition sendable :: "arg list \<Rightarrow> bool" where
  "sendable = list_all (\<lambda>a. case a of AList _ \<Rightarrow> False | _ \<Rightarrow> True)"

definition refuses_lists :: "env \<Rightarrow> bool" where
  "refuses_lists env \<longleftrightarrow> (\<forall>h a args. \<not> sendable args \<longrightarrow> (\<exists>msg. e_do env h a args = RErr (Errorf msg [''[]string''])))"

definition lists_keys :: "env \<Rightarrow> nat \<Rightarrow> (string \<Rightarrow> slot \<Rightarrow> string list) \<Rightarrow> bool" where
  "lists_keys env batch keys \<longleftrightarrow>
     (\<forall>h a s. e_do env h a (getkeys_args (Slot_ToInt s) (Itoa (int batch))) = RVal (VList (map VStr (take batch (keys a s)))))"

definition migrate_args :: "env \<Rightarrow> node \<Rightarrow> string \<Rightarrow> bool \<Rightarrow> string list \<Rightarrow> arg list" where
  "migrate_args env dest timeoutStr replace ks = [AStr ''MIGRATE'', AList (migrateCmdArgs env dest timeoutStr replace ks)]"

text \<open>The commands for one slot, and for several: after the first slot with keys nothing more is asked.\<close>

definition slot_commands :: "env \<Rightarrow> (string \<Rightarrow> slot \<Rightarrow> string list) \<Rightarrow> nat \<Rightarrow> string \<Rightarrow> node \<Rightarrow> string \<Rightarrow> bool \<Rightarrow> slot \<Rightarrow> event list" where
  "slot_commands env keys batch addr dest timeoutStr replace slot =
     EDo addr (getkeys_args (Slot_ToInt slot) (Itoa (int batch))) #
     (if keys addr slot = [] then [] else [EDo addr (migrate_args env dest timeoutStr replace (take batch (keys addr slot)))])"

fun key_commands :: "env \<Rightarrow> (string \<Rightarrow> slot \<Rightarrow> string list) \<Rightarrow> nat \<Rightarrow> string \<Rightarrow> node \<Rightarrow> string \<Rightarrow> bool \<Rightarrow> slot list \<Rightarrow> event list" where
  "key_commands env keys batch addr dest timeoutStr replace [] = []"
| "key_commands env keys batch addr dest timeoutStr replace (slot # slots) =
     slot_commands env keys batch addr dest timeoutStr replace slot @
     (if keys addr slot = [] then key_commands env keys batch addr dest timeoutStr replace slots else [])"

lemma Slot_ToInt_small: "s < 16384 \<Longrightarrow> Slot_ToInt s = uint s"
proof -
  assume "s < 16384"
  then have "uint s < 16384" by (simp add: word_less_def)
  then have "signed_take_bit 63 (uint s) = uint s"
    by (intro signed_take_bit_int_eq_self) (auto intro: order.trans [of _ 0])
  then show ?thesis by (simp add: Slot_ToInt_def sint_uint)
qed

lemma uint_interval: "uint ` {a..b :: slot} = {uint a..uint b}"
proof
  show "uint ` {a..b} \<subseteq> {uint a..uint b}" by (auto simp: word_le_def)
  show "{uint a..uint b} \<subseteq> uint ` {a..b}"
  proof
    fix k assume k: "k \<in> {uint a..uint b}"
    have "0 \<le> k" by (rule order.trans [OF uint_ge_0 [of a]]) (use k in simp)
    moreover have "k < 2 ^ 64" using k uint_lt2p [of b] by simp
    ultimately have "uint (word_of_int k :: slot) = k"
      by (simp add: uint_word_of_int)
    with k show "k \<in> uint ` {a..b}"
      by (intro image_eqI [of _ _ "word_of_int k"]) (simp_all add: word_le_def)
  qed
qed

lemma hd_last_slots_between: "a \<le> b \<Longrightarrow> hd (slots_between a b) = a \<and> last (slots_between a b) = b"
  by (simp add: slots_between_def word_le_nat_alt hd_map last_map del: upt_Suc)

lemma string_keys_VStr [simp]: "string_keys i (map VStr ks) = Inr ks"
  by (induction ks arbitrary: i) auto

lemma lists_keysD:
  "lists_keys env batch keys \<Longrightarrow>
     do_cmd env a [AStr ''CLUSTER'', AStr ''GETKEYSINSLOT'', AInt (Slot_ToInt s), AStr (Itoa (int batch))] w =
       (RVal (VList (map VStr (take batch (keys a s)))), emit (EDo a (getkeys_args (Slot_ToInt s) (Itoa (int batch)))) w)"
  by (simp add: lists_keys_def do_cmd_def getkeys_args_def)

lemma refuses_listsD:
  assumes "refuses_lists env"
  obtains msg where "do_cmd env a [AStr ''MIGRATE'', AList (migrateCmdArgs env dest t r ks)] w =
    (RErr (Errorf msg [''[]string'']), emit (EDo a (migrate_args env dest t r ks)) w)"
  using assms unfolding refuses_lists_def do_cmd_def migrate_args_def sendable_def by fastforce

lemma MigrateKeysInSlot_loop_stops:
  assumes "refuses_lists env" and "lists_keys env batch keys" and "batch > 0"
  shows "\<exists>err w'. MigrateKeysInSlot_loop env addr dest (Slot_ToInt slot) (Itoa (int batch)) t r n w
      = Some ((n + int (length (take batch (keys addr slot))), err), w') \<and> (err = None \<longleftrightarrow> keys addr slot = []) \<and>
    w_heap w' = w_heap w \<and> w_trace w' = w_trace w @ slot_commands env keys batch addr dest t r slot"
proof -
  let ?g = "EDo addr (getkeys_args (Slot_ToInt slot) (Itoa (int batch)))"
  obtain msg where m: "do_cmd env addr [AStr ''MIGRATE'', AList (migrateCmdArgs env dest t r (take batch (keys addr slot)))] (emit ?g w) =
      (RErr (Errorf msg [''[]string'']), emit (EDo addr (migrate_args env dest t r (take batch (keys addr slot)))) (emit ?g w))"
    by (rule refuses_listsD [OF assms(1)])
  show ?thesis
    using assms(3)
    by (subst MigrateKeysInSlot_loop.simps)
      (auto simp: lists_keysD [OF assms(2)] m reply_err_def reply_keys_def reply_val_def ValidateResp_def handleError_def slot_commands_def)
qed

lemma MigrateKeys_slot_stops:
  assumes "refuses_lists env" and "lists_keys env batch keys" and "batch > 0"
  shows "\<exists>w'. MigrateKeys_slot env addr dest (Slot_ToInt slot) (Itoa (int batch)) t r n w
      = Some (if keys addr slot = [] then Inr n else Inl (n + int (length (take batch (keys addr slot))), None), w') \<and>
    w_heap w' = w_heap w \<and> w_clients w' = w_clients w \<and> w_trace w' = w_trace w @ slot_commands env keys batch addr dest t r slot"
proof -
  let ?g = "EDo addr (getkeys_args (Slot_ToInt slot) (Itoa (int batch)))"
  obtain msg where m: "do_cmd env addr [AStr ''MIGRATE'', AList (migrateCmdArgs env dest t r (take batch (keys addr slot)))] (emit ?g w) =
      (RErr (Errorf msg [''[]string'']), emit (EDo addr (migrate_args env dest t r (take batch (keys addr slot)))) (emit ?g w))"
    by (rule refuses_listsD [OF assms(1)])
  show ?thesis
    using assms(3)
    by (subst MigrateKeys_slot.simps)
      (auto simp: lists_keysD [OF assms(2)] m reply_err_def reply_keys_def reply_val_def slot_commands_def)
qed

lemma MigrateKeys_slots_stops:
  assumes "refuses_lists env" and "lists_keys env batch keys" and "batch > 0"
  shows "\<exists>k w'. MigrateKeys_slots env addr dest slots (Itoa (int batch)) t r n w = Some ((k, None), w') \<and>
    w_heap w' = w_heap w \<and> w_clients w' = w_clients w \<and> w_trace w' = w_trace w @ key_commands env keys batch addr dest t r slots"
proof (induction slots arbitrary: n w)
  case (Cons slot slots)
  obtain w1 where one: "MigrateKeys_slot env addr dest (Slot_ToInt slot) (Itoa (int batch)) t r n w
      = Some (if keys addr slot = [] then Inr n else Inl (n + int (length (take batch (keys addr slot))), None), w1)"
      "w_heap w1 = w_heap w" "w_clients w1 = w_clients w" "w_trace w1 = w_trace w @ slot_commands env keys batch addr dest t r slot"
    using MigrateKeys_slot_stops [OF assms] by blast
  show ?case
  proof (cases "keys addr slot = []")
    case True
    from Cons [of n w1] obtain k w' where "MigrateKeys_slots env addr dest slots (Itoa (int batch)) t r n w1 = Some ((k, None), w')"
        "w_heap w' = w_heap w1" "w_clients w' = w_clients w1" "w_trace w' = w_trace w1 @ key_commands env keys batch addr dest t r slots"
      by blast
    with True one show ?thesis by simp
  qed (use one in simp)
qed simp

text \<open>
  A client that refuses slices, with servers that hold the keys given by \<open>keys\<close> and accept every other command.
\<close>

definition server_with :: "(string \<Rightarrow> int \<Rightarrow> string list) \<Rightarrow> env" where
  "server_with keys = dead_env\<lparr>
     e_do := (\<lambda>h addr args.
       if \<not> sendable args then RErr (Errorf ''cannot marshal %T'' [''[]string''])
       else case args of
           [AStr _, AStr _, AInt slot, AStr n] \<Rightarrow> RVal (VList (map VStr (take (nat (fst (ParseInt n))) (keys addr slot))))
         | _ \<Rightarrow> RVal VNil),
     e_pipe := (\<lambda>_ _ _. (Some [], None)), e_addslots := (\<lambda>_ _ _ _. None), e_password := ''pw''\<rparr>"

definition five_keys :: "string \<Rightarrow> int \<Rightarrow> string list" where
  "five_keys addr slot = [''k1'', ''k2'', ''k3'', ''k4'', ''k5'']"

definition example_server :: env where
  "example_server = server_with five_keys"

lemma server_with_refuses: "refuses_lists (server_with keys)"
  by (simp add: refuses_lists_def server_with_def)

lemma server_with_keys: "batch < 2 ^ 63 \<Longrightarrow> lists_keys (server_with keys) batch (\<lambda>a s. keys a (Slot_ToInt s))"
  by (simp add: lists_keys_def server_with_def getkeys_args_def sendable_def ParseInt_Itoa)

section \<open>Properties\<close>

text \<open>
  C8: the infos \<^verbatim>\<open>GetClusterInfos\<close> returns and its error agree: there is no error exactly when their status is
  consistent, a partial error exactly when it is partial, and an inconsistency error exactly when it is
  inconsistent; there is no fourth status. Every entry of the infos is
  what a node of the pool answered to a \<^verbatim>\<open>CLUSTER NODES\<close> of this call, decoded, and calls the address of the entry its own. It is
  unchanged unless no node failed, where the comparison of the views may have overwritten its friends. Each address
  occurs once, and every node of the pool has an entry, or failed, or answered for another address; no
  node the operator already knows is changed.
\<close>

theorem GetClusterInfos_consistent_error:
  assumes "GetClusterInfos env w = Some ((infos, e), w')"
  shows "(e = None \<longleftrightarrow> ci_Status infos = ClusterInfosConsistent) \<and>
         (IsPartialError e \<longleftrightarrow> ci_Status infos = ClusterInfosPartial) \<and>
         (IsInconsistentError e \<longleftrightarrow> ci_Status infos = ClusterInfosInconsistent) \<and>
         ci_Status infos \<in> {ClusterInfosConsistent, ClusterInfosPartial, ClusterInfosInconsistent} \<and>
         distinct (map fst (ci_Infos infos)) \<and> (\<forall>(addr, ni) \<in> set (ci_Infos infos). IPPort (ni_Node ni) = addr) \<and>
         (\<forall>(addr, ni) \<in> set (ci_Infos infos). addr \<in> set (GetAll env w) \<and>
            (\<exists>ni0. answered env (w_trace w) (w_trace w') addr ni0 \<and>
               ni = (if IsPartialError e then ni0 else after_view (e_spare env (w_trace w') addr) ni0))) \<and>
         (\<forall>addr \<in> set (GetAll env w). addr \<in> fst ` set (ci_Infos infos) \<or> failed env (w_trace w) (w_trace w') addr \<or>
            (\<exists>ni. answered env (w_trace w) (w_trace w') addr ni \<and> IPPort (ni_Node ni) \<noteq> addr)) \<and>
         w_heap w' = w_heap w"
proof -
  obtain infos1 errs w1 where l: "GetClusterInfos_loop env (GetAll env w) NewClusterInfos [] w = Some (infos1, errs, w1)"
    using assms by (cases "GetClusterInfos_loop env (GetAll env w) NewClusterInfos [] w") (auto simp: GetClusterInfos_def)
  from GetClusterInfos_loop_inv [OF l infos_inv_init]
  have inv: "infos_inv infos1 errs" and heap: "w_heap w1 = w_heap w" by auto
  have "fetched env (w_trace w) {} NewClusterInfos (w_trace w)" by (simp add: fetched_def NewClusterInfos_def)
  from GetClusterInfos_loop_fetched [OF l _ this, of "[]"]
  have "fetched env (w_trace w) (set (GetAll env w)) infos1 (w_trace w1)" by simp
  then have fe: "\<And>a ni. (a, ni) \<in> set (ci_Infos infos1) \<Longrightarrow> a \<in> set (GetAll env w) \<and> answered env (w_trace w) (w_trace w1) a ni"
    and all: "\<forall>addr \<in> set (GetAll env w). addr \<in> fst ` set (ci_Infos infos1) \<or> failed env (w_trace w) (w_trace w1) addr \<or>
            (\<exists>ni. answered env (w_trace w) (w_trace w1) addr ni \<and> IPPort (ni_Node ni) \<noteq> addr)"
    unfolding fetched_def by blast+
  show ?thesis
  proof (cases "errs = []")
    case False
    then have st: "ci_Status infos1 = ClusterInfosPartial" using inv by (simp add: infos_inv_def)
    then have e: "infos = infos1" "w' = w1" "e = Some (ErrClusterInfos errs True False)"
      using assms l False by (auto simp: GetClusterInfos_def infos_consts)
    then have "IsPartialError e" "\<not> IsInconsistentError e" "e \<noteq> None" by (simp_all add: IsPartialError_def IsInconsistentError_def)
    moreover have "distinct (map fst (ci_Infos infos1))" "\<forall>(addr, ni) \<in> set (ci_Infos infos1). IPPort (ni_Node ni) = addr"
      using inv by (simp_all add: infos_inv_def)
    moreover have "\<forall>(addr, ni) \<in> set (ci_Infos infos1). addr \<in> set (GetAll env w) \<and>
        (\<exists>ni0. answered env (w_trace w) (w_trace w1) addr ni0 \<and> ni = ni0)"
      using fe by blast
    ultimately show ?thesis
      using heap all st e(1,2) by (simp add: infos_consts)
  next
    case True
    then have unset: "ci_Status infos1 = ClusterInfosUnset" using inv by (simp add: infos_inv_def)
    obtain infos2 ok where cs: "ComputeStatus (e_spare env (w_trace w1)) infos1 = (infos2, ok)" by fastforce
    have st: "ci_Status infos2 = (if ok then ClusterInfosConsistent else ClusterInfosInconsistent)"
      using cs unset
      by (auto simp: ComputeStatus_def Let_def split_beta ComputeStatus_loop_status infos_consts split: if_splits)
    have is2: "ci_Infos infos2 = map (\<lambda>(addr, ni). (addr, after_view (e_spare env (w_trace w1) addr) ni)) (ci_Infos infos1)"
      using ComputeStatus_infos [OF unset, of "e_spare env (w_trace w1)"] cs by simp
    have keys: "map fst (ci_Infos infos2) = map fst (ci_Infos infos1)"
      unfolding is2 by (induction "ci_Infos infos1") auto
    then have keys': "fst ` set (ci_Infos infos2) = fst ` set (ci_Infos infos1)" by (metis list.set_map)
    have own: "\<forall>(addr, ni) \<in> set (ci_Infos infos2). IPPort (ni_Node ni) = addr"
      using inv unfolding is2 by (auto simp: infos_inv_def)
    have from_answer: "\<forall>(addr, ni) \<in> set (ci_Infos infos2). addr \<in> set (GetAll env w) \<and>
        (\<exists>ni0. answered env (w_trace w) (w_trace w1) addr ni0 \<and> ni = after_view (e_spare env (w_trace w1) addr) ni0)"
      using fe unfolding is2 by fastforce
    have e: "infos = infos2" "w' = w1" "e = (if ok then None else Some (ErrClusterInfos [] False True))"
      using assms l True cs st by (auto simp: GetClusterInfos_def infos_consts)
    then have "\<not> IsPartialError e" "IsInconsistentError e \<longleftrightarrow> \<not> ok" by (auto simp: IsPartialError_def IsInconsistentError_def)
    moreover have "distinct (map fst (ci_Infos infos1))" using inv by (simp add: infos_inv_def)
    ultimately show ?thesis
      using own from_answer heap st e keys keys' all by (auto simp: infos_consts)
  qed
qed

theorem GetClusterInfos_consistent_error_witness:
  "\<exists>infos e w'. GetClusterInfos dead_env example_world = Some ((infos, e), w') \<and> IsPartialError e \<and>
     ci_Status infos = ClusterInfosPartial"
proof -
  have "\<exists>infos e w'. GetClusterInfos dead_env example_world = Some ((infos, e), w')"
    by (simp add: GetClusterInfos_def GetAll_def example_world_def dead_env_def getInfos_def do_cmd_def
        ValidateResp_def reply_err_def handleError_def Reconnect_def cnx_Remove_def cnx_Add_def Update_def
        connect_eq put_client_def Let_def)
  then obtain infos e w' where g: "GetClusterInfos dead_env example_world = Some ((infos, e), w')" by blast
  have "ci_Status infos = ClusterInfosPartial"
    using g by (auto simp: GetClusterInfos_def GetAll_def example_world_def dead_env_def getInfos_def do_cmd_def
        ValidateResp_def reply_err_def handleError_def Reconnect_def cnx_Remove_def cnx_Add_def Update_def
        connect_eq put_client_def Let_def)
  with g GetClusterInfos_consistent_error [OF g] show ?thesis by blast
qed

text \<open>
  when \<^verbatim>\<open>SetConfigEpoch\<close> succeeds it has sent \<^verbatim>\<open>CLUSTER SET-CONFIG-EPOCH\<close> once to every
  connection, with the epochs 1, 2, 3, ... in the order of the loop, so that no two nodes get the
  same epoch, and nothing else.
\<close>

theorem SetConfigEpoch_distinct:
  assumes "SetConfigEpoch env w = (None, w')"
  shows "w_trace w' = w_trace w @
           map (\<lambda>(i, addr). EDo addr [AStr ''CLUSTER'', AStr ''SET-CONFIG-EPOCH'', AInt (1 + int i)])
             (zip [0..<length (GetAll env w)] (GetAll env w)) \<and> w_clients w' = w_clients w"
  using assms unfolding SetConfigEpoch_def by (rule SetConfigEpoch_loop_trace)

theorem SetConfigEpoch_distinct_witness:
  "w_trace (snd (SetConfigEpoch example_server example_world)) = w_trace example_world @
           map (\<lambda>(i, addr). EDo addr [AStr ''CLUSTER'', AStr ''SET-CONFIG-EPOCH'', AInt (1 + int i)])
             (zip [0..<length (GetAll example_server example_world)] (GetAll example_server example_world)) \<and>
   w_clients (snd (SetConfigEpoch example_server example_world)) = w_clients example_world"
proof -
  have "SetConfigEpoch example_server example_world = (None, snd (SetConfigEpoch example_server example_world))"
    by (simp add: SetConfigEpoch_def GetAll_def example_world_def example_server_def server_with_def sendable_def dead_env_def do_cmd_def
        ValidateResp_def reply_err_def)
  then show ?thesis by (rule SetConfigEpoch_distinct)
qed

text \<open>
  when \<^verbatim>\<open>AttachNodeToCluster\<close> succeeds, every connection of the pool but the node's own has been
  told to \<^verbatim>\<open>MEET\<close> the node at its ip and port, once and in the order of the loop, and the node is
  in the pool afterwards.
\<close>

theorem AttachNodeToCluster_meets:
  assumes "AttachNodeToCluster env addr w = (None, w')" and "ping_returns env"
  shows "\<exists>ip port. SplitHostPort addr = (ip, port, None) \<and> addr \<in> set (w_clients w') \<and>
           set (w_clients w') = insert addr (set (w_clients w)) \<and> w_heap w' = w_heap w \<and>
           (\<exists>es. w_trace w' = w_trace w @
              map (\<lambda>c. EDo c [AStr ''CLUSTER'', AStr ''MEET'', AStr ip, AStr port]) (filter (\<lambda>c. c \<noteq> addr) (GetAll env w)) @ es
              \<and> set es \<subseteq> {EClose addr, EPing addr})"
proof -
  obtain ip port err where s: "SplitHostPort addr = (ip, port, err)" by (cases "SplitHostPort addr") auto
  obtain err1 w1 where l: "AttachNodeToCluster_loop env addr ip port (GetAll env w) w = (err1, w1)" by fastforce
  have ok: "err = None" "err1 = None" "w' = snd (cnx_Add env addr w1)"
    using assms(1) s l by (auto simp: AttachNodeToCluster_def split: if_splits)
  note tr = AttachNodeToCluster_loop_trace [OF l [unfolded ok(2)]]
  have "ping_answered env addr w1"
    using assms(2) by (simp add: ping_answered_def ping_returns_def)
  then have "set (w_clients w') = insert addr (set (w_clients w1))"
    unfolding ok(3) by (rule pool.add_reachable)
  moreover have "\<exists>es. w_trace w' = w_trace w1 @ es \<and> set es \<subseteq> {EClose addr, EPing addr}"
    unfolding ok(3) by (auto simp: cnx_Add_def Update_def connect_eq Let_def)
  ultimately show ?thesis
    using tr s ok by auto
qed

theorem AttachNodeToCluster_meets_witness:
  "\<exists>ip port. SplitHostPort ''b:1'' = (ip, port, None) \<and>
     ''b:1'' \<in> set (w_clients (snd (AttachNodeToCluster example_server ''b:1'' example_world)))"
proof -
  have "AttachNodeToCluster example_server ''b:1'' example_world
      = (None, snd (AttachNodeToCluster example_server ''b:1'' example_world))"
    by (simp add: AttachNodeToCluster_def SplitHostPort_def GetAll_def example_world_def example_server_def server_with_def sendable_def
        dead_env_def do_cmd_def ValidateResp_def reply_err_def Let_def split_beta)
  moreover have "ping_returns example_server" by (simp add: ping_returns_def example_server_def server_with_def sendable_def dead_env_def)
  ultimately show ?thesis using AttachNodeToCluster_meets by blast
qed

text \<open>
  C29: \<^verbatim>\<open>MigrateKeysInSlot\<close> never moves a key. It hands the arguments of \<^verbatim>\<open>MIGRATE\<close> to the client as one slice, which the client
  refuses: whatever keys the slot holds, the call asks for them once, and ends, without an error exactly if there are none. With
  keys it returns their number and the error of the one \<^verbatim>\<open>MIGRATE\<close> it tried, and no further command is sent.
\<close>

theorem MigrateKeysInSlot_stops:
  assumes "refuses_lists env" and "lists_keys env batch keys" and "batch > 0" and "addr \<in> set (w_clients w)"
  shows "\<exists>err w'. MigrateKeysInSlot env addr dest slot (int batch) timeout replace w
      = Some ((int (length (take batch (keys addr slot))), err), w') \<and> (err = None \<longleftrightarrow> keys addr slot = []) \<and>
    w_heap w' = w_heap w \<and>
    w_trace w' = w_trace w @ EDo addr (getkeys_args (Slot_ToInt slot) (Itoa (int batch))) #
      (if keys addr slot = [] then []
       else [EDo addr [AStr ''MIGRATE'', AList (migrateCmdArgs env dest (Itoa timeout) replace (take batch (keys addr slot)))]])"
proof -
  have "MigrateKeysInSlot env addr dest slot (int batch) timeout replace w =
      MigrateKeysInSlot_loop env addr dest (Slot_ToInt slot) (Itoa (int batch)) (Itoa timeout) replace 0 w"
    using assms(4) by (simp add: MigrateKeysInSlot_def)
  with MigrateKeysInSlot_loop_stops [OF assms(1-3), of addr dest slot "Itoa timeout" replace 0 w] show ?thesis
    unfolding slot_commands_def migrate_args_def by (simp only: add_0_left)
qed

theorem MigrateKeysInSlot_stops_witness:
  "\<exists>err w'. MigrateKeysInSlot example_server ''a:1'' NewDefaultNode 7 (int 2) 30000 True example_world = Some ((2, err), w') \<and> err \<noteq> None"
  using MigrateKeysInSlot_stops [OF server_with_refuses server_with_keys [of 2], of "''a:1''" example_world five_keys NewDefaultNode 7 30000 True]
  by (auto simp: example_server_def example_world_def five_keys_def)

text \<open>
  \<^verbatim>\<open>MigrateKeys\<close> does not move a key either, and reports success: it asks for the keys of the slots up to the first that holds
  some, tries one \<^verbatim>\<open>MIGRATE\<close>, which the client refuses, and returns without an error.
\<close>

theorem MigrateKeys_hides_failure:
  assumes "refuses_lists env" and "lists_keys env batch keys" and "batch > 0" and "addr \<in> set (w_clients w)" and "slots \<noteq> []"
  shows "\<exists>k w'. MigrateKeys env addr dest slots (int batch) timeout replace w = Some ((k, None), w') \<and>
    w_trace w' = w_trace w @ key_commands env keys batch addr dest (Itoa timeout) replace slots"
  using MigrateKeys_slots_stops [OF assms(1-3), of addr dest slots "Itoa timeout" replace 0 w] assms(4,5)
  by (auto simp: MigrateKeys_def)

theorem MigrateKeys_hides_failure_witness:
  "\<exists>k w'. MigrateKeys example_server ''a:1'' NewDefaultNode [7, 8] (int 2) 30000 True example_world = Some ((k, None), w') \<and>
    w_trace w' = [EDo ''a:1'' (getkeys_args (Slot_ToInt 7) (Itoa 2)),
      EDo ''a:1'' (migrate_args example_server NewDefaultNode (Itoa 30000) True [''k1'', ''k2''])]"
  using MigrateKeys_hides_failure [OF server_with_refuses server_with_keys [of 2], of "''a:1''" example_world "[7, 8]" five_keys NewDefaultNode 30000 True]
  by (simp add: example_server_def example_world_def five_keys_def slot_commands_def)

text \<open>
  \<^verbatim>\<open>AddSlots\<close> claims one range from the first to the last slot of the list it is given: for the
  slots of an interval, in order, that is exactly the list, but a list with gaps makes the node claim
  every slot in between as well.
\<close>

theorem AddSlots_claims_range:
  assumes "addr \<in> set (w_clients w)" and "slots \<noteq> []" and "\<forall>s \<in> set slots. s < 16384"
  shows "w_trace (snd (Admin_AddSlots env addr slots w))
           = w_trace w @ [EAddSlotsRange addr (uint (hd slots)) (uint (last slots))] \<and>
         (slots = slots_between a b \<longrightarrow>
            {uint (hd slots)..uint (last slots)} = uint ` set slots)"
proof -
  have ends: "hd slots \<in> set slots" "last slots \<in> set slots" using assms(2) by simp_all
  have "slots ! 0 = hd slots" "slots ! (length slots - 1) = last slots"
    using assms(2) by (simp_all add: hd_conv_nth last_conv_nth)
  moreover have "w_trace (snd (Admin_AddSlots env addr slots w))
      = w_trace w @ [EAddSlotsRange addr (Slot_ToInt (slots ! 0)) (Slot_ToInt (slots ! (length slots - 1)))]"
    using assms(1,2) by (simp add: Admin_AddSlots_def Let_def)
  moreover have "{uint (hd slots)..uint (last slots)} = uint ` set slots"
    if "slots = slots_between a b"
  proof -
    have "a \<le> b" using assms(2) that by (simp add: slots_between_def word_le_nat_alt split: if_splits)
    then show ?thesis unfolding that set_slots_between uint_interval using hd_last_slots_between by simp
  qed
  ultimately show ?thesis
    using assms(3) ends Slot_ToInt_small by auto
qed

theorem AddSlots_claims_range_witness:
  "w_trace (snd (Admin_AddSlots example_server ''a:1'' [3, 9] example_world))
           = w_trace example_world @ [EAddSlotsRange ''a:1'' (uint (hd [3, 9 :: slot])) (uint (last [3, 9 :: slot]))] \<and>
         (5 :: int) \<in> {uint (hd [3, 9 :: slot])..uint (last [3, 9 :: slot])} - uint ` set [3, 9 :: slot]"
proof
  show "w_trace (snd (Admin_AddSlots example_server ''a:1'' [3, 9] example_world))
           = w_trace example_world @ [EAddSlotsRange ''a:1'' (uint (hd [3, 9 :: slot])) (uint (last [3, 9 :: slot]))]"
    by (rule AddSlots_claims_range [THEN conjunct1]) (simp_all add: example_world_def)
  show "(5 :: int) \<in> {uint (hd [3, 9 :: slot])..uint (last [3, 9 :: slot])} - uint ` set [3, 9 :: slot]"
    by simp
qed

end
