(* ===== verification/Backup_Types.thy ===== *)
theory Backup_Types
  imports Api_Types
begin

text \<open>
  The custom resource of a backup (\<^verbatim>\<open>api/v1alpha1/redisclusterbackup_types.go\<close>): its specification with the pointers that may
  be nil as options, its status and phases, and the methods of \<^verbatim>\<open>default.go\<close> on it. A security context is only passed on.
\<close>

section \<open>The resource\<close>

record UtilSpec =
  us_Image :: string
  us_StartUpCommand :: string
  us_S3Bucket :: string
  us_ImagePullPolicy :: string
  us_Replicas :: int
  us_TerminationGracePeriod :: "int option"
  us_Resources :: "ResourceRequirements option"
  us_ContainerSecurityContext :: "k8s_value option"

record RedisClusterBackupSpec =
  bk_RedisClusterName :: string
  bk_UtilSpec :: "UtilSpec option"
  bk_SecurityContext :: "k8s_value option"

type_synonym BackupPhase = string

definition BackupPhaseStarting :: BackupPhase where "BackupPhaseStarting = ''Initiating''"
definition BackupPhaseRunning :: BackupPhase where "BackupPhaseRunning = ''Running''"
definition BackupPhaseSucceeded :: BackupPhase where "BackupPhaseSucceeded = ''Succeeded''"
definition BackupPhaseFailed :: BackupPhase where "BackupPhaseFailed = ''Failed''"
definition BackupPhaseIgnored :: BackupPhase where "BackupPhaseIgnored = ''Ignored''"

record RedisClusterBackupStatus =
  bs_StartTime :: "int option"
  bs_CompletionTime :: "int option"
  bs_Phase :: BackupPhase
  bs_Reason :: string
  bs_MasterSize :: int
  bs_ClusterReplicas :: int
  bs_ClusterImage :: string

record RedisClusterBackup =
  rb_Name :: string
  rb_Namespace :: string
  rb_Annotations :: "string \<rightharpoonup> string"
  rb_Generation :: int
  rb_Finalizers :: "string list"
  rb_DeletionTimestamp :: "int option"
  rb_Spec :: RedisClusterBackupSpec
  rb_Status :: RedisClusterBackupStatus

definition LabelBackupStatus :: string where "LabelBackupStatus = ''backup.redis.kun/status''"
definition AnnotationJobType :: string where "AnnotationJobType = ''redis.kun/job-type''"
definition JobTypeBackup :: string where "JobTypeBackup = ''backup''"

section \<open>Methods\<close>

definition RedisClusterBackup_Validate :: "RedisClusterBackup \<Rightarrow> err option" where
  "RedisClusterBackup_Validate rb =
     (let clusterName = bk_RedisClusterName (rb_Spec rb)
      in if clusterName = '''' then Some (Errorf ''bakcup [RedisClusterName] is missing'' []) else None)"

definition RCloneSecretName :: "RedisClusterBackup \<Rightarrow> string" where
  "RCloneSecretName rb = ''rcloneconfig-'' @ rb_Name rb"

definition JobName :: "RedisClusterBackup \<Rightarrow> string" where
  "JobName rb = ''redisbackup-'' @ rb_Name rb"

end
