(* ===== verification/Kube.thy ===== *)
theory Kube
  imports Redis_Admin Backup_Types
begin

text \<open>
  Access to Kubernetes (\<^verbatim>\<open>utils/k8sutil\<close>: \<^verbatim>\<open>pod.go\<close>, \<^verbatim>\<open>statefulset.go\<close>, \<^verbatim>\<open>service.go\<close>, \<^verbatim>\<open>poddisruptionbudget.go\<close>,
  \<^verbatim>\<open>pvc.go\<close>, \<^verbatim>\<open>configmap.go\<close>, \<^verbatim>\<open>secret.go\<close>, \<^verbatim>\<open>util.go\<close>, \<^verbatim>\<open>customresource.go\<close>, \<^verbatim>\<open>deployment.go\<close> and
  \<^verbatim>\<open>batchjob.go\<close>). The API server and its client are the parameter \<open>kube\<close>: what they answer is a
  function of the calls made so far. The world of the controllers is the world of the redis code
  together with the history of those calls.
\<close>

section \<open>Objects, calls and the client\<close>

text \<open>
  The fields of \<^verbatim>\<open>appsv1.StatefulSet\<close> and of its pod template the operator reads or writes; \<^verbatim>\<open>Spec.Replicas\<close> is a pointer the
  API server always sets. A volume is given by its name and its source, the claim of a volume by the fields the
  operator sets. \<open>ss_ReadyReplicas\<close> and \<open>ss_UpdateRevision\<close> belong to the status.
\<close>

datatype volume_source = ConfigMapVolume string int | EmptyDir

record TopologySpreadConstraint =
  ts_MaxSkew :: int
  ts_TopologyKey :: string
  ts_WhenUnsatisfiable :: string
  ts_MatchLabels :: "string \<rightharpoonup> string"

record PersistentVolumeClaim =
  pvc_Name :: string
  pvc_Labels :: "string \<rightharpoonup> string"
  pvc_OwnerReferences :: "(string \<times> string) list"
  pvc_AccessModes :: "string list"
  pvc_Storage :: string
  pvc_StorageClassName :: string
  pvc_VolumeMode :: string

record PodTemplate =
  pt_Labels :: "string \<rightharpoonup> string"
  pt_Annotations :: "string \<rightharpoonup> string"
  pt_ImagePullSecrets :: "string list"
  pt_Affinity :: "Affinity option"
  pt_Tolerations :: "k8s_value list"
  pt_SecurityContext :: "k8s_value option"
  pt_NodeSelector :: "string \<rightharpoonup> string"
  pt_TopologySpreadConstraints :: "TopologySpreadConstraint list"
  pt_Containers :: "Container list"
  pt_InitContainers :: "Container list"
  pt_Volumes :: "(string \<times> volume_source) list"
  pt_TerminationGracePeriodSeconds :: "int option"

record StatefulSet =
  ss_Name :: string
  ss_Namespace :: string
  ss_Labels :: "string \<rightharpoonup> string"
  ss_OwnerReferences :: "(string \<times> string) list"
  ss_ServiceName :: string
  ss_Replicas :: int
  ss_UpdateStrategy :: string
  ss_Selector :: "string \<rightharpoonup> string"
  ss_Template :: PodTemplate
  ss_VolumeClaimTemplates :: "PersistentVolumeClaim list"
  ss_ReadyReplicas :: int
  ss_UpdateRevision :: string

record ConfigMap =
  cm_Name :: string
  cm_Namespace :: string
  cm_Labels :: "string \<rightharpoonup> string"
  cm_OwnerReferences :: "(string \<times> string) list"
  cm_Data :: "string \<rightharpoonup> string"

record Secret =
  sec_Name :: string
  sec_Namespace :: string
  sec_OwnerReferences :: "(string \<times> string) list"
  sec_Data :: "string \<rightharpoonup> string"
  sec_ResourceVersion :: string

record Service =
  svc_Name :: string
  svc_Namespace :: string
  svc_Labels :: "string \<rightharpoonup> string"
  svc_OwnerReferences :: "(string \<times> string) list"
  svc_Ports :: "(string \<times> int) list"
  svc_Selector :: "string \<rightharpoonup> string"
  svc_ClusterIP :: string

record PodDisruptionBudget =
  pdb_Name :: string
  pdb_Namespace :: string
  pdb_Labels :: "string \<rightharpoonup> string"
  pdb_OwnerReferences :: "(string \<times> string) list"
  pdb_MinAvailable :: int
  pdb_Selector :: "string \<rightharpoonup> string"

text \<open>\<^verbatim>\<open>appsv1.Deployment\<close> as the backup controller writes it, and of \<^verbatim>\<open>batchv1.Job\<close> the types and values of its conditions.\<close>

record Deployment =
  dp_Name :: string
  dp_Namespace :: string
  dp_Labels :: "string \<rightharpoonup> string"
  dp_Replicas :: int
  dp_Template :: PodTemplate
  dp_Selector :: "string \<rightharpoonup> string"

record Job =
  job_Name :: string
  job_Namespace :: string
  job_Labels :: "string \<rightharpoonup> string"
  job_Conditions :: "(string \<times> string) list"

datatype kobject =
    OConfigMap ConfigMap | OStatefulSet StatefulSet | OService Service | OPodDisruptionBudget PodDisruptionBudget
  | OPod Pod | OSecret Secret | ODeployment Deployment | OJob Job | OBackup RedisClusterBackup

datatype kkind = KStatefulSet | KService | KPodDisruptionBudget | KConfigMap | KSecret | KDeployment | KJob | KBackup | KPvc

datatype kcall =
    KGetPod string string
  | KDeletePod string string
  | KUpdatePod Pod
  | KListPods string "string \<rightharpoonup> string"
  | KListSets string "string \<rightharpoonup> string"
  | KListPvcs string "string \<rightharpoonup> string"
  | KDeletePvc string string
  | KGet kkind string string
  | KDelete kkind string string
  | KUpdateStatus DistributedRedisCluster
  | KUpdateCR DistributedRedisCluster
  | KGetCR string string
  | KGetSecret string string
  | KGetConfigMap string string
  | KCreate kobject
  | KUpdate kobject
  | KList kkind string "string \<rightharpoonup> string"
  | KUpdateBackupStatus RedisClusterBackup

record kube =
  k_get_pod :: "kcall list \<Rightarrow> string \<Rightarrow> string \<Rightarrow> err option"
  k_delete_pod :: "kcall list \<Rightarrow> string \<Rightarrow> string \<Rightarrow> err option"
  k_update_pod :: "kcall list \<Rightarrow> Pod \<Rightarrow> err option"
  k_list_pods :: "kcall list \<Rightarrow> string \<Rightarrow> (string \<rightharpoonup> string) \<Rightarrow> err + Pod list"
  k_list_sets :: "kcall list \<Rightarrow> string \<Rightarrow> (string \<rightharpoonup> string) \<Rightarrow> err + StatefulSet list"
  k_list_pvcs :: "kcall list \<Rightarrow> string \<Rightarrow> (string \<rightharpoonup> string) \<Rightarrow> err + string list"
  k_delete_pvc :: "kcall list \<Rightarrow> string \<Rightarrow> string \<Rightarrow> err option"
  k_get_set :: "kcall list \<Rightarrow> string \<Rightarrow> string \<Rightarrow> err + StatefulSet"
  k_get :: "kcall list \<Rightarrow> kkind \<Rightarrow> string \<Rightarrow> string \<Rightarrow> err option"
  k_delete :: "kcall list \<Rightarrow> kkind \<Rightarrow> string \<Rightarrow> string \<Rightarrow> err option"
  k_update_status :: "kcall list \<Rightarrow> DistributedRedisCluster \<Rightarrow> err option"
  k_update_cr :: "kcall list \<Rightarrow> DistributedRedisCluster \<Rightarrow> err option"
  k_get_cr :: "kcall list \<Rightarrow> string \<Rightarrow> string \<Rightarrow> err + DistributedRedisCluster"
  k_get_secret :: "kcall list \<Rightarrow> string \<Rightarrow> string \<Rightarrow> err + Secret"
  k_get_config :: "kcall list \<Rightarrow> string \<Rightarrow> string \<Rightarrow> err + ConfigMap"
  k_create :: "kcall list \<Rightarrow> kobject \<Rightarrow> err option"
  k_update :: "kcall list \<Rightarrow> kobject \<Rightarrow> err option"
  k_get_deployment :: "kcall list \<Rightarrow> string \<Rightarrow> string \<Rightarrow> err + Deployment"
  k_get_job :: "kcall list \<Rightarrow> string \<Rightarrow> string \<Rightarrow> err + Job"
  k_get_backup :: "kcall list \<Rightarrow> string \<Rightarrow> string \<Rightarrow> err + RedisClusterBackup"
  k_list_deployments :: "kcall list \<Rightarrow> string \<Rightarrow> (string \<rightharpoonup> string) \<Rightarrow> err + Deployment list"
  k_list_jobs :: "kcall list \<Rightarrow> string \<Rightarrow> (string \<rightharpoonup> string) \<Rightarrow> err + Job list"
  k_list_backups :: "kcall list \<Rightarrow> string \<Rightarrow> (string \<rightharpoonup> string) \<Rightarrow> err + RedisClusterBackup list"
  k_update_backup_status :: "kcall list \<Rightarrow> RedisClusterBackup \<Rightarrow> err option"
  k_IsNotFound :: "err \<Rightarrow> bool"
  k_IsServiceUnavailable :: "err \<Rightarrow> bool"
  k_IsTimeout :: "err \<Rightarrow> bool"
  k_IsServerTimeout :: "err \<Rightarrow> bool"
  k_IsTooManyRequests :: "err \<Rightarrow> bool"

record hworld =
  hw_redis :: world
  hw_calls :: "kcall list"

definition call :: "kcall \<Rightarrow> hworld \<Rightarrow> hworld" where
  "call c w = w\<lparr>hw_calls := hw_calls w @ [c]\<rparr>"

lemma call_sel [simp]: "hw_redis (call c w) = hw_redis w" "hw_calls (call c w) = hw_calls w @ [c]"
  by (simp_all add: call_def)

section \<open>Pods\<close>

definition GetPod :: "kube \<Rightarrow> string \<Rightarrow> string \<Rightarrow> hworld \<Rightarrow> err option \<times> hworld" where
  "GetPod k ns name w = (k_get_pod k (hw_calls w) ns name, w\<lparr>hw_calls := hw_calls w @ [KGetPod ns name]\<rparr>)"

definition CreatePod :: "kube \<Rightarrow> Pod \<Rightarrow> hworld \<Rightarrow> err option \<times> hworld" where
  "CreatePod k pod w = (k_create k (hw_calls w) (OPod pod), call (KCreate (OPod pod)) w)"

text \<open>A pod carries no namespace in the model, so it is an argument.\<close>

definition DeletePod :: "kube \<Rightarrow> string \<Rightarrow> Pod \<Rightarrow> hworld \<Rightarrow> err option \<times> hworld" where
  "DeletePod k ns pod w = (k_delete_pod k (hw_calls w) ns (pod_Name pod), call (KDeletePod ns (pod_Name pod)) w)"

definition ListPodsWithLabel :: "kube \<Rightarrow> string \<Rightarrow> string \<Rightarrow> string \<Rightarrow> hworld \<Rightarrow> (err + Pod list) \<times> hworld" where
  "ListPodsWithLabel k ns labelkey labelvalue w =
     (k_list_pods k (hw_calls w) ns [labelkey \<mapsto> labelvalue], call (KListPods ns [labelkey \<mapsto> labelvalue]) w)"

definition DeletePodByName :: "kube \<Rightarrow> string \<Rightarrow> string \<Rightarrow> hworld \<Rightarrow> err option \<times> hworld" where
  "DeletePodByName k ns name w =
     (case GetPod k ns name w of
        (Some err, w) \<Rightarrow> (Some err, w)
      | (None, w) \<Rightarrow> (k_delete_pod k (hw_calls w) ns name, w\<lparr>hw_calls := hw_calls w @ [KDeletePod ns name]\<rparr>))"

definition UpdatePod :: "kube \<Rightarrow> Pod \<Rightarrow> hworld \<Rightarrow> err option \<times> hworld" where
  "UpdatePod k pod w = (k_update_pod k (hw_calls w) pod, call (KUpdatePod pod) w)"

text \<open>The pod is changed through its pointer, so the changed pod is part of the result.\<close>

definition UpdatePodAnnotations :: "kube \<Rightarrow> Pod \<Rightarrow> string \<Rightarrow> string \<Rightarrow> hworld \<Rightarrow> (Pod \<times> err option) \<times> hworld" where
  "UpdatePodAnnotations k pod annotationKey annotationvalue w =
     (case pod_Annotations pod annotationKey of
        None \<Rightarrow> ((pod, Some (Errorf ''Annotation %s Notfound'' [annotationKey])), w)
      | Some v \<Rightarrow>
          if v = annotationvalue then ((pod, None), w)
          else
            let pod = pod\<lparr>pod_Annotations := (pod_Annotations pod)(annotationKey \<mapsto> annotationvalue)\<rparr>
            in case UpdatePod k pod w of (err, w) \<Rightarrow> ((pod, err), w))"

definition UpdatePodLabels :: "kube \<Rightarrow> Pod \<Rightarrow> string \<Rightarrow> string \<Rightarrow> hworld \<Rightarrow> (Pod \<times> err option) \<times> hworld" where
  "UpdatePodLabels k pod labelKey labelValue w =
     (let pod = pod\<lparr>pod_Labels := (pod_Labels pod)(labelKey \<mapsto> labelValue)\<rparr>
      in case UpdatePod k pod w of (err, w) \<Rightarrow> ((pod, err), w))"

section \<open>Sets, services, budgets and claims\<close>

definition GetStatefulSet :: "kube \<Rightarrow> string \<Rightarrow> string \<Rightarrow> hworld \<Rightarrow> (err + StatefulSet) \<times> hworld" where
  "GetStatefulSet k ns name w = (k_get_set k (hw_calls w) ns name, call (KGet KStatefulSet ns name) w)"

definition DeleteStatefulSetByName :: "kube \<Rightarrow> string \<Rightarrow> string \<Rightarrow> hworld \<Rightarrow> err option \<times> hworld" where
  "DeleteStatefulSetByName k ns name w =
     (case GetStatefulSet k ns name w of
        (Inl err, w) \<Rightarrow> (Some err, w)
      | (Inr sts, w) \<Rightarrow> (k_delete k (hw_calls w) KStatefulSet ns name, call (KDelete KStatefulSet ns name) w))"

definition DeleteStatefulSet :: "kube \<Rightarrow> StatefulSet \<Rightarrow> hworld \<Rightarrow> err option \<times> hworld" where
  "DeleteStatefulSet k ss w =
     (k_delete k (hw_calls w) KStatefulSet (ss_Namespace ss) (ss_Name ss), call (KDelete KStatefulSet (ss_Namespace ss) (ss_Name ss)) w)"

definition GetStatefulSetPods :: "kube \<Rightarrow> string \<Rightarrow> string \<Rightarrow> hworld \<Rightarrow> (err + Pod list) \<times> hworld" where
  "GetStatefulSetPods k ns name w =
     (case GetStatefulSet k ns name w of
        (Inl err, w) \<Rightarrow> (Inl err, w)
      | (Inr statefulSet, w) \<Rightarrow>
          (k_list_pods k (hw_calls w) ns (ss_Selector statefulSet), call (KListPods ns (ss_Selector statefulSet)) w))"

definition GetStatefulSetPodsByLabels :: "kube \<Rightarrow> string \<Rightarrow> (string \<rightharpoonup> string) \<Rightarrow> hworld \<Rightarrow> (err + Pod list) \<times> hworld" where
  "GetStatefulSetPodsByLabels k ns labels w = (k_list_pods k (hw_calls w) ns labels, call (KListPods ns labels) w)"

definition ListStatefulSetByLabels :: "kube \<Rightarrow> string \<Rightarrow> (string \<rightharpoonup> string) \<Rightarrow> hworld \<Rightarrow> (err + StatefulSet list) \<times> hworld" where
  "ListStatefulSetByLabels k ns labels w = (k_list_sets k (hw_calls w) ns labels, call (KListSets ns labels) w)"

definition GetService :: "kube \<Rightarrow> string \<Rightarrow> string \<Rightarrow> hworld \<Rightarrow> err option \<times> hworld" where
  "GetService k ns name w = (k_get k (hw_calls w) KService ns name, call (KGet KService ns name) w)"

definition DeleteServiceByName :: "kube \<Rightarrow> string \<Rightarrow> string \<Rightarrow> hworld \<Rightarrow> err option \<times> hworld" where
  "DeleteServiceByName k ns name w =
     (case GetService k ns name w of
        (Some err, w) \<Rightarrow> (Some err, w)
      | (None, w) \<Rightarrow> (k_delete k (hw_calls w) KService ns name, call (KDelete KService ns name) w))"

definition UpdateService :: "kube \<Rightarrow> Service \<Rightarrow> hworld \<Rightarrow> err option \<times> hworld" where
  "UpdateService k svc w = (k_update k (hw_calls w) (OService svc), call (KUpdate (OService svc)) w)"

definition DeleteService :: "kube \<Rightarrow> Service \<Rightarrow> hworld \<Rightarrow> err option \<times> hworld" where
  "DeleteService k svc w =
     (k_delete k (hw_calls w) KService (svc_Namespace svc) (svc_Name svc), call (KDelete KService (svc_Namespace svc) (svc_Name svc)) w)"

definition UpdatePodDisruptionBudget :: "kube \<Rightarrow> PodDisruptionBudget \<Rightarrow> hworld \<Rightarrow> err option \<times> hworld" where
  "UpdatePodDisruptionBudget k pb w = (k_update k (hw_calls w) (OPodDisruptionBudget pb), call (KUpdate (OPodDisruptionBudget pb)) w)"

definition DeletePodDisruptionBudget :: "kube \<Rightarrow> PodDisruptionBudget \<Rightarrow> hworld \<Rightarrow> err option \<times> hworld" where
  "DeletePodDisruptionBudget k pb w =
     (k_delete k (hw_calls w) KPodDisruptionBudget (pdb_Namespace pb) (pdb_Name pb),
      call (KDelete KPodDisruptionBudget (pdb_Namespace pb) (pdb_Name pb)) w)"

definition GetPodDisruptionBudget :: "kube \<Rightarrow> string \<Rightarrow> string \<Rightarrow> hworld \<Rightarrow> err option \<times> hworld" where
  "GetPodDisruptionBudget k ns name w = (k_get k (hw_calls w) KPodDisruptionBudget ns name, call (KGet KPodDisruptionBudget ns name) w)"

definition DeletePodDisruptionBudgetByName :: "kube \<Rightarrow> string \<Rightarrow> string \<Rightarrow> hworld \<Rightarrow> err option \<times> hworld" where
  "DeletePodDisruptionBudgetByName k ns name w =
     (case GetPodDisruptionBudget k ns name w of
        (Some err, w) \<Rightarrow> (Some err, w)
      | (None, w) \<Rightarrow> (k_delete k (hw_calls w) KPodDisruptionBudget ns name, call (KDelete KPodDisruptionBudget ns name) w))"

fun delete_pvcs :: "kube \<Rightarrow> string \<Rightarrow> string list \<Rightarrow> hworld \<Rightarrow> err option \<times> hworld" where
  "delete_pvcs k ns [] w = (None, w)"
| "delete_pvcs k ns (pvc # pvcs) w =
     (case k_delete_pvc k (hw_calls w) ns pvc of
        Some err \<Rightarrow> (Some err, call (KDeletePvc ns pvc) w)
      | None \<Rightarrow> delete_pvcs k ns pvcs (call (KDeletePvc ns pvc) w))"

definition DeletePvcByLabels :: "kube \<Rightarrow> string \<Rightarrow> (string \<rightharpoonup> string) \<Rightarrow> hworld \<Rightarrow> err option \<times> hworld" where
  "DeletePvcByLabels k ns labels w =
     (case k_list_pvcs k (hw_calls w) ns labels of
        Inl err \<Rightarrow> (Some err, call (KListPvcs ns labels) w)
      | Inr foundPvcs \<Rightarrow> delete_pvcs k ns foundPvcs (call (KListPvcs ns labels) w))"

section \<open>Creation and update\<close>

definition CreateStatefulSet :: "kube \<Rightarrow> StatefulSet \<Rightarrow> hworld \<Rightarrow> err option \<times> hworld" where
  "CreateStatefulSet k ss w = (k_create k (hw_calls w) (OStatefulSet ss), call (KCreate (OStatefulSet ss)) w)"

definition UpdateStatefulSet :: "kube \<Rightarrow> StatefulSet \<Rightarrow> hworld \<Rightarrow> err option \<times> hworld" where
  "UpdateStatefulSet k ss w = (k_update k (hw_calls w) (OStatefulSet ss), call (KUpdate (OStatefulSet ss)) w)"

definition CreateService :: "kube \<Rightarrow> Service \<Rightarrow> hworld \<Rightarrow> err option \<times> hworld" where
  "CreateService k svc w = (k_create k (hw_calls w) (OService svc), call (KCreate (OService svc)) w)"

definition CreatePodDisruptionBudget :: "kube \<Rightarrow> PodDisruptionBudget \<Rightarrow> hworld \<Rightarrow> err option \<times> hworld" where
  "CreatePodDisruptionBudget k pb w = (k_create k (hw_calls w) (OPodDisruptionBudget pb), call (KCreate (OPodDisruptionBudget pb)) w)"

definition GetConfigMap :: "kube \<Rightarrow> string \<Rightarrow> string \<Rightarrow> hworld \<Rightarrow> (err + ConfigMap) \<times> hworld" where
  "GetConfigMap k ns name w = (k_get_config k (hw_calls w) ns name, call (KGetConfigMap ns name) w)"

definition CreateConfigMap :: "kube \<Rightarrow> ConfigMap \<Rightarrow> hworld \<Rightarrow> err option \<times> hworld" where
  "CreateConfigMap k cm w = (k_create k (hw_calls w) (OConfigMap cm), call (KCreate (OConfigMap cm)) w)"

definition UpdateConfigMap :: "kube \<Rightarrow> ConfigMap \<Rightarrow> hworld \<Rightarrow> err option \<times> hworld" where
  "UpdateConfigMap k cm w = (k_update k (hw_calls w) (OConfigMap cm), call (KUpdate (OConfigMap cm)) w)"

definition GetSecret :: "kube \<Rightarrow> string \<Rightarrow> string \<Rightarrow> hworld \<Rightarrow> (err + Secret) \<times> hworld" where
  "GetSecret k ns name w = (k_get_secret k (hw_calls w) ns name, call (KGetSecret ns name) w)"

definition DeleteConfigMap :: "kube \<Rightarrow> ConfigMap \<Rightarrow> hworld \<Rightarrow> err option \<times> hworld" where
  "DeleteConfigMap k cm w =
     (k_delete k (hw_calls w) KConfigMap (cm_Namespace cm) (cm_Name cm), call (KDelete KConfigMap (cm_Namespace cm) (cm_Name cm)) w)"

text \<open>The methods of \<^verbatim>\<open>SecretController\<close>, and the function \<^verbatim>\<open>CreateSecret\<close> of \<^verbatim>\<open>util.go\<close>, which creates a secret that is not there.\<close>

definition Secret_Create :: "kube \<Rightarrow> Secret \<Rightarrow> hworld \<Rightarrow> err option \<times> hworld" where
  "Secret_Create k s w = (k_create k (hw_calls w) (OSecret s), call (KCreate (OSecret s)) w)"

definition UpdateSecret :: "kube \<Rightarrow> Secret \<Rightarrow> hworld \<Rightarrow> err option \<times> hworld" where
  "UpdateSecret k s w = (k_update k (hw_calls w) (OSecret s), call (KUpdate (OSecret s)) w)"

definition DeleteSecret :: "kube \<Rightarrow> Secret \<Rightarrow> hworld \<Rightarrow> err option \<times> hworld" where
  "DeleteSecret k s w =
     (k_delete k (hw_calls w) KSecret (sec_Namespace s) (sec_Name s), call (KDelete KSecret (sec_Namespace s) (sec_Name s)) w)"

definition CreateSecret :: "kube \<Rightarrow> Secret \<Rightarrow> hworld \<Rightarrow> err option \<times> hworld" where
  "CreateSecret k s w =
     (case GetSecret k (sec_Namespace s) (sec_Name s) w of
        (Inr _, w) \<Rightarrow> (None, w)
      | (Inl err, w) \<Rightarrow> if k_IsNotFound k err then Secret_Create k s w else (Some err, w))"

definition IsRequestRetryable :: "kube \<Rightarrow> err \<Rightarrow> bool" where
  "IsRequestRetryable k err \<longleftrightarrow> k_IsServiceUnavailable k err \<or> k_IsTimeout k err \<or> k_IsServerTimeout k err \<or> k_IsTooManyRequests k err"

section \<open>The custom resource\<close>

definition GetDistributedRedisCluster :: "kube \<Rightarrow> string \<Rightarrow> string \<Rightarrow> hworld \<Rightarrow> (err + DistributedRedisCluster) \<times> hworld" where
  "GetDistributedRedisCluster k ns name w = (k_get_cr k (hw_calls w) ns name, call (KGetCR ns name) w)"

definition UpdateCRStatus :: "kube \<Rightarrow> DistributedRedisCluster \<Rightarrow> hworld \<Rightarrow> err option \<times> hworld" where
  "UpdateCRStatus k cluster w = (k_update_status k (hw_calls w) cluster, call (KUpdateStatus cluster) w)"

definition UpdateCR :: "kube \<Rightarrow> DistributedRedisCluster \<Rightarrow> hworld \<Rightarrow> err option \<times> hworld" where
  "UpdateCR k cluster w = (k_update_cr k (hw_calls w) cluster, call (KUpdateCR cluster) w)"

definition UpdateCrdAnnotations :: "kube \<Rightarrow> DistributedRedisCluster \<Rightarrow> string \<Rightarrow> string \<Rightarrow> hworld \<Rightarrow> (DistributedRedisCluster \<times> err option) \<times> hworld" where
  "UpdateCrdAnnotations k crd annotationKey annotationvalue w =
     (case drc_Annotations crd annotationKey of
        None \<Rightarrow> ((crd, Some (Errorf ''annotation %s Notfound'' [annotationKey])), w)
      | Some v \<Rightarrow>
          if v = annotationvalue then ((crd, None), w)
          else
            let crd = crd\<lparr>drc_Annotations := (drc_Annotations crd)(annotationKey \<mapsto> annotationvalue)\<rparr>
            in case UpdateCR k crd w of (err, w) \<Rightarrow> ((crd, err), w))"

text \<open>Backups: the status through \<^verbatim>\<open>UpdateCRStatus\<close>, the object through \<^verbatim>\<open>UpdateCR\<close>, which take any object.\<close>

definition GetRedisClusterBackup :: "kube \<Rightarrow> string \<Rightarrow> string \<Rightarrow> hworld \<Rightarrow> (err + RedisClusterBackup) \<times> hworld" where
  "GetRedisClusterBackup k ns name w = (k_get_backup k (hw_calls w) ns name, call (KGet KBackup ns name) w)"

definition UpdateBackupStatus :: "kube \<Rightarrow> RedisClusterBackup \<Rightarrow> hworld \<Rightarrow> err option \<times> hworld" where
  "UpdateBackupStatus k b w = (k_update_backup_status k (hw_calls w) b, call (KUpdateBackupStatus b) w)"

definition UpdateBackup :: "kube \<Rightarrow> RedisClusterBackup \<Rightarrow> hworld \<Rightarrow> err option \<times> hworld" where
  "UpdateBackup k b w = (k_update k (hw_calls w) (OBackup b), call (KUpdate (OBackup b)) w)"

section \<open>Deployments and jobs\<close>

definition CreateDeployment :: "kube \<Rightarrow> Deployment \<Rightarrow> hworld \<Rightarrow> err option \<times> hworld" where
  "CreateDeployment k d w = (k_create k (hw_calls w) (ODeployment d), call (KCreate (ODeployment d)) w)"

definition UpdateDeployment :: "kube \<Rightarrow> Deployment \<Rightarrow> hworld \<Rightarrow> err option \<times> hworld" where
  "UpdateDeployment k d w = (k_update k (hw_calls w) (ODeployment d), call (KUpdate (ODeployment d)) w)"

definition DeleteDeployment :: "kube \<Rightarrow> Deployment \<Rightarrow> hworld \<Rightarrow> err option \<times> hworld" where
  "DeleteDeployment k d w =
     (k_delete k (hw_calls w) KDeployment (dp_Namespace d) (dp_Name d), call (KDelete KDeployment (dp_Namespace d) (dp_Name d)) w)"

definition GetDeployment :: "kube \<Rightarrow> string \<Rightarrow> string \<Rightarrow> hworld \<Rightarrow> (err + Deployment) \<times> hworld" where
  "GetDeployment k ns name w = (k_get_deployment k (hw_calls w) ns name, call (KGet KDeployment ns name) w)"

definition ListDeploymentByLabels :: "kube \<Rightarrow> string \<Rightarrow> (string \<rightharpoonup> string) \<Rightarrow> hworld \<Rightarrow> (err + Deployment list) \<times> hworld" where
  "ListDeploymentByLabels k ns labs w = (k_list_deployments k (hw_calls w) ns labs, call (KList KDeployment ns labs) w)"

definition CreateJob :: "kube \<Rightarrow> Job \<Rightarrow> hworld \<Rightarrow> err option \<times> hworld" where
  "CreateJob k j w = (k_create k (hw_calls w) (OJob j), call (KCreate (OJob j)) w)"

definition UpdateJob :: "kube \<Rightarrow> Job \<Rightarrow> hworld \<Rightarrow> err option \<times> hworld" where
  "UpdateJob k j w = (k_update k (hw_calls w) (OJob j), call (KUpdate (OJob j)) w)"

definition DeleteJob :: "kube \<Rightarrow> Job \<Rightarrow> hworld \<Rightarrow> err option \<times> hworld" where
  "DeleteJob k j w = (k_delete k (hw_calls w) KJob (job_Namespace j) (job_Name j), call (KDelete KJob (job_Namespace j) (job_Name j)) w)"

definition GetJob :: "kube \<Rightarrow> string \<Rightarrow> string \<Rightarrow> hworld \<Rightarrow> (err + Job) \<times> hworld" where
  "GetJob k ns name w = (k_get_job k (hw_calls w) ns name, call (KGet KJob ns name) w)"

definition ListJobByLabels :: "kube \<Rightarrow> string \<Rightarrow> (string \<rightharpoonup> string) \<Rightarrow> hworld \<Rightarrow> (err + Job list) \<times> hworld" where
  "ListJobByLabels k ns labs w = (k_list_jobs k (hw_calls w) ns labs, call (KList KJob ns labs) w)"

section \<open>What an operation does to the world\<close>

text \<open>
  An operation that only talks to the API server leaves redis alone and makes calls of a certain kind. The lemmas below
  give the calls of each operation.
\<close>

definition only_calls :: "(kcall \<Rightarrow> bool) \<Rightarrow> hworld \<Rightarrow> hworld \<Rightarrow> bool" where
  "only_calls P w w' \<longleftrightarrow> hw_redis w' = hw_redis w \<and> (\<exists>cs. hw_calls w' = hw_calls w @ cs \<and> (\<forall>c \<in> set cs. P c))"

lemma only_calls_refl [simp, intro]: "only_calls P w w"
  by (simp add: only_calls_def)

lemma only_calls_trans [trans]: "only_calls P w w' \<Longrightarrow> only_calls P w' w'' \<Longrightarrow> only_calls P w w''"
  by (auto simp: only_calls_def)

lemma only_calls_mono: "only_calls P w w' \<Longrightarrow> (\<And>c. P c \<Longrightarrow> Q c) \<Longrightarrow> only_calls Q w w'"
  by (auto simp: only_calls_def)

lemma only_calls_call [simp]: "P c \<Longrightarrow> only_calls P w (call c w)"
  by (simp add: only_calls_def)

lemma only_calls_call_trans: "P c \<Longrightarrow> only_calls P (call c w) w' \<Longrightarrow> only_calls P w w'"
  by (rule only_calls_trans [of P w "call c w"]) simp_all

lemma only_calls_redis: "only_calls P w w' \<Longrightarrow> hw_redis w' = hw_redis w"
  by (simp add: only_calls_def)

lemma GetPod_calls: "P (KGetPod ns n) \<Longrightarrow> only_calls P w (snd (GetPod k ns n w))"
  by (simp add: GetPod_def only_calls_def)

lemma DeletePodByName_calls: "P (KGetPod ns n) \<Longrightarrow> P (KDeletePod ns n) \<Longrightarrow> only_calls P w (snd (DeletePodByName k ns n w))"
  by (auto simp: DeletePodByName_def GetPod_def only_calls_def split: option.splits)

lemma UpdatePodLabels_calls: "(\<And>p. P (KUpdatePod p)) \<Longrightarrow> only_calls P w (snd (UpdatePodLabels k p a b w))"
  by (simp add: UpdatePodLabels_def UpdatePod_def Let_def)

lemma UpdatePodAnnotations_calls: "(\<And>p. P (KUpdatePod p)) \<Longrightarrow> only_calls P w (snd (UpdatePodAnnotations k p a b w))"
  by (simp add: UpdatePodAnnotations_def UpdatePod_def Let_def split: option.split)

lemma GetStatefulSet_calls: "P (KGet KStatefulSet ns n) \<Longrightarrow> only_calls P w (snd (GetStatefulSet k ns n w))"
  by (simp add: GetStatefulSet_def)

lemma DeleteStatefulSetByName_calls:
  "P (KGet KStatefulSet ns n) \<Longrightarrow> P (KDelete KStatefulSet ns n) \<Longrightarrow> only_calls P w (snd (DeleteStatefulSetByName k ns n w))"
  by (auto simp: DeleteStatefulSetByName_def GetStatefulSet_def only_calls_def split: sum.split)

lemma DeleteServiceByName_calls:
  "P (KGet KService ns n) \<Longrightarrow> P (KDelete KService ns n) \<Longrightarrow> only_calls P w (snd (DeleteServiceByName k ns n w))"
  by (auto simp: DeleteServiceByName_def GetService_def only_calls_def split: option.split)

lemma DeletePodDisruptionBudgetByName_calls:
  "P (KGet KPodDisruptionBudget ns n) \<Longrightarrow> P (KDelete KPodDisruptionBudget ns n) \<Longrightarrow> only_calls P w (snd (DeletePodDisruptionBudgetByName k ns n w))"
  by (auto simp: DeletePodDisruptionBudgetByName_def GetPodDisruptionBudget_def only_calls_def split: option.split)

lemma delete_pvcs_calls: "(\<And>n. n \<in> set pvcs \<Longrightarrow> P (KDeletePvc ns n)) \<Longrightarrow> only_calls P w (snd (delete_pvcs k ns pvcs w))"
  by (induction pvcs arbitrary: w) (auto split: option.split intro: only_calls_call_trans)

lemma DeletePvcByLabels_calls:
  "P (KListPvcs ns ls) \<Longrightarrow> (\<And>h pvcs n. k_list_pvcs k h ns ls = Inr pvcs \<Longrightarrow> n \<in> set pvcs \<Longrightarrow> P (KDeletePvc ns n)) \<Longrightarrow>
    only_calls P w (snd (DeletePvcByLabels k ns ls w))"
  by (auto simp: DeletePvcByLabels_def intro!: only_calls_call_trans [where c = "KListPvcs ns ls"] delete_pvcs_calls split: sum.split)

end
