(* ===== verification/Placement.thy ===== *)
theory Placement
  imports Redis_Admin
begin

text \<open>
  The choice of masters and slaves by the machine they run on (\<^verbatim>\<open>controllers/clustering/placement.go\<close>,
  with \<^verbatim>\<open>DispatchMasters\<close> of \<^verbatim>\<open>migration.go\<close>). The loops range over maps; the order of the \<open>k\<close>-th such
  loop is the parameter \<open>ro k\<close>, so that two loops over the same map may differ.
\<close>

section \<open>Operations\<close>

type_synonym nodes_by = "string \<rightharpoonup> Nodes"
type_synonym range_orders = "nat \<Rightarrow> nodes_by \<Rightarrow> string list"

definition unknownVMName :: string where "unknownVMName = ''unknown''"

definition vm_name :: "heap \<Rightarrow> nref \<Rightarrow> string" where
  "vm_name h cnode = (if n_NodeName (h cnode) \<noteq> '''' then n_NodeName (h cnode) else unknownVMName)"

fun sortRedisNodeByVM_loop :: "heap \<Rightarrow> Cluster \<Rightarrow> Nodes \<Rightarrow> nodes_by \<Rightarrow> nodes_by" where
  "sortRedisNodeByVM_loop h cluster [] nodesByVM = nodesByVM"
| "sortRedisNodeByVM_loop h cluster (rnode # nodes) nodesByVM =
     (case GetNodeByID cluster (n_ID (h rnode)) of
        (Some cnode, None) \<Rightarrow>
          let vmName = vm_name h cnode;
              nodesByVM = (if nodesByVM vmName = None then nodesByVM(vmName \<mapsto> []) else nodesByVM)
          in sortRedisNodeByVM_loop h cluster nodes (map_append nodesByVM vmName [rnode])
      | _ \<Rightarrow> sortRedisNodeByVM_loop h cluster nodes nodesByVM)"

definition sortRedisNodeByVM :: "heap \<Rightarrow> Cluster \<Rightarrow> Nodes \<Rightarrow> nodes_by" where
  "sortRedisNodeByVM h cluster nodes = sortRedisNodeByVM_loop h cluster nodes Map.empty"

text \<open>
  One pass over the machines: the result says whether the selection grew and whether the function
  returns from within the pass.
\<close>

fun place_pass ::
    "nodes_by \<Rightarrow> bool \<Rightarrow> int \<Rightarrow> string list \<Rightarrow> Nodes \<Rightarrow> nodes_by \<Rightarrow> bool \<Rightarrow> Nodes \<times> nodes_by \<times> bool \<times> bool" where
  "place_pass already bestEffort nb [] selection byVM progress = (selection, byVM, progress, False)"
| "place_pass already bestEffort nb (vmName # vms) selection byVM progress =
     (if \<not> bestEffort \<and> already vmName \<noteq> None then place_pass already bestEffort nb vms selection byVM progress
      else case slice_at byVM vmName of
        [] \<Rightarrow> place_pass already bestEffort nb vms selection byVM progress
      | n # ns \<Rightarrow>
          let selection = selection @ [n]; byVM = byVM(vmName \<mapsto> ns)
          in if int (length selection) \<ge> nb then (selection, byVM, True, True)
             else place_pass already bestEffort nb vms selection byVM True)"

lemma place_pass_grows:
  "place_pass already be nb vms sel byVM pr = (sel', byVM', pr', ret) \<Longrightarrow>
   \<exists>xs. sel' = sel @ xs \<and> (pr' \<longleftrightarrow> pr \<or> xs \<noteq> [])"
proof (induction vms arbitrary: sel byVM pr)
  case (Cons vm vms)
  show ?case
  proof (cases "\<not> be \<and> already vm \<noteq> None \<or> slice_at byVM vm = []")
    case True
    with Cons.prems have "place_pass already be nb vms sel byVM pr = (sel', byVM', pr', ret)"
      by (auto split: list.splits)
    then show ?thesis by (rule Cons.IH)
  next
    case False
    then obtain n ns where n: "slice_at byVM vm = n # ns" by (meson list.exhaust)
    show ?thesis
    proof (cases "int (length (sel @ [n])) \<ge> nb")
      case True
      with False n Cons.prems show ?thesis by (auto simp: Let_def)
    next
      case more: False
      with False n Cons.prems have "place_pass already be nb vms (sel @ [n]) (byVM(vm \<mapsto> ns)) True = (sel', byVM', pr', ret)"
        by (auto simp: Let_def simp del: fun_upd_apply)
      from Cons.IH [OF this] show ?thesis by auto
    qed
  qed
qed simp

function place_loop ::
    "range_orders \<Rightarrow> nat \<Rightarrow> nodes_by \<Rightarrow> bool \<Rightarrow> int \<Rightarrow> Nodes \<Rightarrow> nodes_by \<Rightarrow> Nodes \<times> bool" where
  "place_loop ro k already bestEffort nb selection byVM =
     (if int (length selection) < nb then
        case place_pass already bestEffort nb (ro k byVM) selection byVM False of
          (selection', byVM', progress, ret) \<Rightarrow>
            if ret then (selection', bestEffort)
            else if bestEffort \<and> \<not> progress then (selection', bestEffort)
            else place_loop ro (Suc k) already True nb selection' byVM'
      else (selection, bestEffort))"
  by pat_completeness auto

termination place_loop
proof (relation "measure (\<lambda>(ro, k, already, be, nb, sel, byVM). 2 * nat (nb - int (length sel)) + (if be then 0 else 1))")
  show "wf (measure (\<lambda>(ro, k, already, be, nb, sel, byVM). 2 * nat (nb - int (length sel)) + (if be then 0 else 1)))" by simp
next
  fix ro :: range_orders and k already be nb sel byVM sel' y byVM' z pr ret
  assume less: "int (length sel) < nb" and y: "(sel', y) = place_pass already be nb (ro k byVM) sel byVM False"
    and z: "(byVM', z) = y" "(pr, ret) = z" and more: "\<not> (be \<and> \<not> pr)"
  have "place_pass already be nb (ro k byVM) sel byVM False = (sel', byVM', pr, ret)" using y z by simp
  from place_pass_grows [OF this] obtain xs where "sel' = sel @ xs" "pr \<longleftrightarrow> xs \<noteq> []" by auto
  with less more show "((ro, Suc k, already, True, nb, sel', byVM'), ro, k, already, be, nb, sel, byVM)
      \<in> measure (\<lambda>(ro, k, already, be, nb, sel, byVM). 2 * nat (nb - int (length sel)) + (if be then 0 else 1))"
    by (cases xs) auto
qed

text \<open>The final error is returned when the selection is too small; \<open>None\<close> is the panic of a negative slice bound.\<close>

definition PlaceMasters ::
    "range_orders \<Rightarrow> heap \<Rightarrow> Cluster \<Rightarrow> Nodes \<Rightarrow> Nodes \<Rightarrow> int \<Rightarrow> (Nodes \<times> bool \<times> err option) option" where
  "PlaceMasters ro h cluster currentMaster allPossibleMasters nbMaster =
     (if int (length currentMaster) > nbMaster \<and> nbMaster < 0 then None
      else
        let selection = (if int (length currentMaster) > nbMaster then take (nat nbMaster) currentMaster else currentMaster);
            masterByVM = sortRedisNodeByVM h cluster allPossibleMasters;
            vmWithAlreadyMaster = sortRedisNodeByVM h cluster currentMaster;
            (selection, bestEffort) = place_loop ro 0 vmWithAlreadyMaster False nbMaster selection masterByVM
        in Some (selection, bestEffort,
                 if int (length selection) \<ge> nbMaster then None
                 else Some (Errorf ''unable to found enough node for have the request number of master'' [])))"

definition DispatchMasters ::
    "(nref \<Rightarrow> nat) \<Rightarrow> range_orders \<Rightarrow> heap \<Rightarrow> Cluster \<Rightarrow> Nodes \<Rightarrow> int \<Rightarrow> (Cluster \<times> Nodes \<times> Nodes \<times> Nodes \<times> err option) option" where
  "DispatchMasters met ro h cluster nodes nbMaster =
     (let currentMasterNodes = FilterByFunc h IsMasterWithSlot nodes;
          currentMasterWithNoSlot = FilterByFunc h IsMasterWithNoSlot nodes;
          allMasterNodes = currentMasterNodes @ currentMasterWithNoSlot
      in do {
           (selection, besteffort, err) \<leftarrow> PlaceMasters ro h cluster currentMasterNodes currentMasterWithNoSlot nbMaster;
           (if err \<noteq> None then
              Some (cluster, [], [], [], Some (Errorf ''not enough master available current:%d target:%d, err:%v''
                                                 [Itoa (int (length allMasterNodes)), Itoa nbMaster]))
            else
              let selection = SortByFunc met (\<lambda>a b. n_ID (h a) < n_ID (h b)) selection;
                  cluster = cluster\<lparr>c_Status := ClusterStatusCalculatingRebalancing,
                              c_NodesPlacement := Some (if besteffort then NodesPlacementInfoBestEffort else NodesPlacementInfoOptimal)\<rparr>
              in Some (cluster, selection, currentMasterNodes, allMasterNodes, None))
         })"

definition checkIfSameVM :: "heap \<Rightarrow> Cluster \<Rightarrow> string \<Rightarrow> string \<Rightarrow> bool" where
  "checkIfSameVM h cluster redisID vmName =
     (let nodeVMName = (case GetNodeByID cluster redisID of (Some vmNode, None) \<Rightarrow> n_NodeName (h vmNode) | _ \<Rightarrow> unknownVMName)
      in if vmName = nodeVMName then True else False)"

text \<open>
  The loop over the masters for one old slave; \<open>None\<close> is the use of the \<^verbatim>\<open>nil\<close> node that the inverted
  error check leads to.
\<close>

fun place_old_slave :: "heap \<Rightarrow> Cluster \<Rightarrow> int \<Rightarrow> nref \<Rightarrow> Nodes \<Rightarrow> nodes_by \<Rightarrow> nodes_by option" where
  "place_old_slave h cluster rf slave [] byMaster = Some byMaster"
| "place_old_slave h cluster rf slave (master # masters) byMaster =
     (if n_MasterReferent (h slave) = n_ID (h master) then
        if int (length (slice_at byMaster (n_MasterReferent (h slave)))) \<ge> rf then
          (case GetNodeByID cluster (n_ID (h slave)) of
             (_, None) \<Rightarrow> place_old_slave h cluster rf slave masters byMaster
           | (_, Some _) \<Rightarrow> None)
        else Some (map_append byMaster (n_MasterReferent (h slave)) [slave])
      else place_old_slave h cluster rf slave masters byMaster)"

fun place_old_slaves :: "heap \<Rightarrow> Cluster \<Rightarrow> int \<Rightarrow> Nodes \<Rightarrow> Nodes \<Rightarrow> nodes_by \<Rightarrow> nodes_by option" where
  "place_old_slaves h cluster rf [] masters byMaster = Some byMaster"
| "place_old_slaves h cluster rf (slave # slaves) masters byMaster =
     (case place_old_slave h cluster rf slave masters byMaster of
        None \<Rightarrow> None | Some byMaster \<Rightarrow> place_old_slaves h cluster rf slaves masters byMaster)"

fun vm_used :: "heap \<Rightarrow> Cluster \<Rightarrow> string \<Rightarrow> Nodes \<Rightarrow> bool" where
  "vm_used h cluster vmName [] = False"
| "vm_used h cluster vmName (currentSlave # slaves) =
     (case GetNodeByID cluster (n_ID (h currentSlave)) of
        (Some vmSlaveNode, None) \<Rightarrow> if vmName = n_NodeName (h vmSlaveNode) then True else vm_used h cluster vmName slaves
      | _ \<Rightarrow> vm_used h cluster vmName slaves)"

text \<open>The loop over the masters for a free slave: whether it was attached, and the map.\<close>

fun attach_spread :: "heap \<Rightarrow> Cluster \<Rightarrow> int \<Rightarrow> string \<Rightarrow> nref \<Rightarrow> string list \<Rightarrow> nodes_by \<Rightarrow> bool \<times> nodes_by" where
  "attach_spread h cluster rf vmName slave [] byMaster = (False, byMaster)"
| "attach_spread h cluster rf vmName slave (idMaster # ids) byMaster =
     (let currentSlaves = slice_at byMaster idMaster in
      if int (length currentSlaves) \<ge> rf then attach_spread h cluster rf vmName slave ids byMaster
      else if checkIfSameVM h cluster idMaster vmName then attach_spread h cluster rf vmName slave ids byMaster
      else if \<not> vm_used h cluster vmName currentSlaves then (True, map_append byMaster idMaster [slave])
      else attach_spread h cluster rf vmName slave ids byMaster)"

fun spread_slaves ::
    "range_orders \<Rightarrow> heap \<Rightarrow> Cluster \<Rightarrow> int \<Rightarrow> string \<Rightarrow> Nodes \<Rightarrow> nat \<Rightarrow> nodes_by \<Rightarrow> nodes_by \<Rightarrow> bool
       \<Rightarrow> nat \<times> nodes_by \<times> nodes_by \<times> bool" where
  "spread_slaves ro h cluster rf vmName [] k byMaster unused left = (k, byMaster, unused, left)"
| "spread_slaves ro h cluster rf vmName (slave # slaves) k byMaster unused left =
     (case attach_spread h cluster rf vmName slave (ro k byMaster) byMaster of
        (used, byMaster) \<Rightarrow>
          if used then spread_slaves ro h cluster rf vmName slaves (Suc k) byMaster unused left
          else spread_slaves ro h cluster rf vmName slaves (Suc k) byMaster (map_append unused vmName [slave]) True)"

fun spread_vms ::
    "range_orders \<Rightarrow> heap \<Rightarrow> Cluster \<Rightarrow> int \<Rightarrow> nodes_by \<Rightarrow> string list \<Rightarrow> nat \<Rightarrow> nodes_by \<Rightarrow> nodes_by \<Rightarrow> bool
       \<Rightarrow> nat \<times> nodes_by \<times> nodes_by \<times> bool" where
  "spread_vms ro h cluster rf byVM [] k byMaster unused left = (k, byMaster, unused, left)"
| "spread_vms ro h cluster rf byVM (vmName # vms) k byMaster unused left =
     (case spread_slaves ro h cluster rf vmName (slice_at byVM vmName) k byMaster unused left of
        (k, byMaster, unused, left) \<Rightarrow> spread_vms ro h cluster rf byVM vms k byMaster unused left)"

fun attach_any :: "int \<Rightarrow> nref \<Rightarrow> string list \<Rightarrow> nodes_by \<Rightarrow> nodes_by" where
  "attach_any rf slave [] byMaster = byMaster"
| "attach_any rf slave (masterID # ids) byMaster =
     (if int (length (slice_at byMaster masterID)) \<ge> rf then attach_any rf slave ids byMaster
      else map_append byMaster masterID [slave])"

fun attach_rest :: "range_orders \<Rightarrow> int \<Rightarrow> Nodes \<Rightarrow> nat \<Rightarrow> nodes_by \<Rightarrow> nat \<times> nodes_by" where
  "attach_rest ro rf [] k byMaster = (k, byMaster)"
| "attach_rest ro rf (slave # slaves) k byMaster =
     attach_rest ro rf slaves (Suc k) (attach_any rf slave (ro k byMaster) byMaster)"

text \<open>
  \<^verbatim>\<open>PlaceSlaves\<close>. Its first loop filters the new slaves but drops the result; \<^verbatim>\<open>isSlaveNodeUsed\<close> is set
  when a slave was \<^emph>\<open>not\<close> used.
\<close>

definition PlaceSlaves ::
    "range_orders \<Rightarrow> heap \<Rightarrow> Cluster \<Rightarrow> Nodes \<Rightarrow> Nodes \<Rightarrow> Nodes \<Rightarrow> int \<Rightarrow> (nodes_by \<times> bool) option" where
  "PlaceSlaves ro h cluster masters oldSlaves newSlaves replicationFactor =
     (let newSlavesByVM = sortRedisNodeByVM h cluster newSlaves;
          slavesByMaster = foldl (\<lambda>m r. m(n_ID (h r) \<mapsto> [])) Map.empty masters
      in case place_old_slaves h cluster replicationFactor oldSlaves masters slavesByMaster of
           None \<Rightarrow> None
         | Some slavesByMaster \<Rightarrow>
             (case spread_vms ro h cluster replicationFactor newSlavesByVM (ro 0 newSlavesByVM) 1 slavesByMaster Map.empty False of
                (k, slavesByMaster, slavesByVMNotUsed, isSlaveNodeUsed) \<Rightarrow>
                  let bestEffort = isSlaveNodeUsed;
                      slavesByMaster =
                        (if bestEffort
                         then snd (attach_rest ro replicationFactor
                                (concat (map (slice_at slavesByVMNotUsed) (ro k slavesByVMNotUsed))) (Suc k) slavesByMaster)
                         else slavesByMaster)
                  in Some (slavesByMaster, bestEffort)))"

section \<open>Nodes by machine\<close>

declare place_loop.simps [simp del]

definition vm_of :: "heap \<Rightarrow> Cluster \<Rightarrow> nref \<Rightarrow> string option" where
  "vm_of h cluster r = (case GetNodeByID cluster (n_ID (h r)) of (Some cnode, None) \<Rightarrow> Some (vm_name h cnode) | _ \<Rightarrow> None)"

lemma sortRedisNodeByVM_loop_spec:
  "slice_at (sortRedisNodeByVM_loop h c nodes m) v = slice_at m v @ filter (\<lambda>r. vm_of h c r = Some v) nodes \<and>
   dom (sortRedisNodeByVM_loop h c nodes m) = dom m \<union> {v. \<exists>r \<in> set nodes. vm_of h c r = Some v}"
proof (induction nodes arbitrary: m)
  case (Cons r nodes)
  show ?case
  proof (cases "vm_of h c r")
    case None
    then have "sortRedisNodeByVM_loop h c (r # nodes) m = sortRedisNodeByVM_loop h c nodes m"
      by (auto simp: vm_of_def split: prod.splits option.splits)
    with None Cons show ?thesis by auto
  next
    case (Some vm)
    define m1 where "m1 = map_append (if m vm = None then m(vm \<mapsto> []) else m) vm [r]"
    have "sortRedisNodeByVM_loop h c (r # nodes) m = sortRedisNodeByVM_loop h c nodes m1"
      using Some by (auto simp: vm_of_def m1_def Let_def split: prod.splits option.splits)
    moreover have "slice_at m1 v = slice_at m v @ (if v = vm then [r] else [])" for v
      by (auto simp: m1_def slice_at_def map_append_def)
    moreover have "dom m1 = insert vm (dom m)" by (auto simp: m1_def)
    ultimately show ?thesis using Cons [of m1] Some by auto
  qed
qed simp

lemma sortRedisNodeByVM_spec:
  "slice_at (sortRedisNodeByVM h c nodes) v = filter (\<lambda>r. vm_of h c r = Some v) nodes"
  "dom (sortRedisNodeByVM h c nodes) = {v. \<exists>r \<in> set nodes. vm_of h c r = Some v}"
  using sortRedisNodeByVM_loop_spec [of h c nodes Map.empty] by (simp_all add: sortRedisNodeByVM_def)

lemma finite_sortRedisNodeByVM: "finite (dom (sortRedisNodeByVM h c nodes))"
proof -
  have "dom (sortRedisNodeByVM h c nodes) \<subseteq> (\<lambda>r. the (vm_of h c r)) ` set nodes"
    by (auto simp: sortRedisNodeByVM_spec image_iff) (metis option.sel)
  then show ?thesis by (rule finite_subset) simp
qed

lemma sortRedisNodeByVM_None: "sortRedisNodeByVM h c nodes v = None \<longleftrightarrow> (\<forall>r \<in> set nodes. vm_of h c r \<noteq> Some v)"
proof -
  have "sortRedisNodeByVM h c nodes v = None \<longleftrightarrow> v \<notin> dom (sortRedisNodeByVM h c nodes)" by (simp add: domIff)
  then show ?thesis unfolding sortRedisNodeByVM_spec(2) by simp
qed

text \<open>Taking a node from a machine takes it from what is available.\<close>

lemma slots_of_take:
  "distinct ks \<Longrightarrow> k \<in> set ks \<Longrightarrow> slice_at m k = x # xs \<Longrightarrow> mset (slots_of m ks) = add_mset x (mset (slots_of (m(k \<mapsto> xs)) ks))"
proof (induction ks)
  case (Cons a ks)
  have "slots_of (m(k \<mapsto> xs)) ks = slots_of m ks" if "k \<notin> set ks"
    using that unfolding slots_of_def by (intro arg_cong [where f = concat] map_cong) auto
  with Cons show ?case by (cases "a = k") (auto simp: slots_of_def simp del: fun_upd_apply)
qed simp

lemma place_pass_spec:
  assumes "distinct V"
  shows "place_pass already be nb vms sel byVM pr = (sel', byVM', pr', ret) \<Longrightarrow> distinct vms \<Longrightarrow> set vms \<subseteq> dom byVM \<Longrightarrow> dom byVM \<subseteq> set V \<Longrightarrow>
    int (length sel) < nb \<Longrightarrow>
    \<exists>ps. sel' = sel @ map snd ps \<and> dom byVM' = dom byVM \<and> (pr' \<longleftrightarrow> pr \<or> ps \<noteq> []) \<and>
      mset (slots_of byVM V) = mset (map snd ps) + mset (slots_of byVM' V) \<and>
      distinct (map fst ps) \<and> (\<forall>(v, n) \<in> set ps. v \<in> set vms \<and> (be \<or> already v = None) \<and> n \<in> set (slice_at byVM v)) \<and>
      (if ret then int (length sel') = nb else int (length sel') < nb) \<and>
      (be \<longrightarrow> ps = [] \<longrightarrow> (\<forall>v \<in> set vms. slice_at byVM v = []))"
proof (induction vms arbitrary: sel byVM pr)
  case Nil
  then show ?case by (intro exI [of _ "[]"]) auto
next
  case (Cons vm vms)
  show ?case
  proof (cases "\<not> be \<and> already vm \<noteq> None \<or> slice_at byVM vm = []")
    case True
    with Cons.prems(1) have "place_pass already be nb vms sel byVM pr = (sel', byVM', pr', ret)"
      by (auto split: list.splits)
    from Cons.IH [OF this] Cons.prems(2-5) obtain ps where
      "sel' = sel @ map snd ps" "dom byVM' = dom byVM" "pr' \<longleftrightarrow> pr \<or> ps \<noteq> []"
      "mset (slots_of byVM V) = mset (map snd ps) + mset (slots_of byVM' V)"
      "distinct (map fst ps)" "\<forall>(v, n) \<in> set ps. v \<in> set vms \<and> (be \<or> already v = None) \<and> n \<in> set (slice_at byVM v)"
      "if ret then int (length sel') = nb else int (length sel') < nb"
      "be \<longrightarrow> ps = [] \<longrightarrow> (\<forall>v \<in> set vms. slice_at byVM v = [])" by auto
    with True show ?thesis by (intro exI [of _ ps]) auto
  next
    case take: False
    then obtain n ns where n: "slice_at byVM vm = n # ns" by (meson list.exhaust)
    have vm: "vm \<in> set V" "vm \<in> dom byVM" using Cons.prems(3,4) by auto
    define byVM1 where "byVM1 = byVM(vm \<mapsto> ns)"
    note av = slots_of_take [OF assms vm(1) n, folded byVM1_def]
    have dom1: "dom byVM1 = dom byVM" using vm(2) by (auto simp: byVM1_def)
    show ?thesis
    proof (cases "int (length (sel @ [n])) \<ge> nb")
      case True
      with take n Cons.prems(1) have "sel' = sel @ [n]" "byVM' = byVM1" "pr'" "ret"
        by (auto simp: Let_def byVM1_def simp del: fun_upd_apply)
      with True av n take dom1 Cons.prems(5) show ?thesis by (intro exI [of _ "[(vm, n)]"]) auto
    next
      case more: False
      with take n Cons.prems(1) have "place_pass already be nb vms (sel @ [n]) byVM1 True = (sel', byVM', pr', ret)"
        by (auto simp: Let_def byVM1_def simp del: fun_upd_apply)
      from Cons.IH [OF this] Cons.prems(2-5) dom1 more obtain ps where
        ps: "sel' = (sel @ [n]) @ map snd ps" "dom byVM' = dom byVM" "pr'"
        "mset (slots_of byVM1 V) = mset (map snd ps) + mset (slots_of byVM' V)"
        "distinct (map fst ps)" "\<forall>(v, n) \<in> set ps. v \<in> set vms \<and> (be \<or> already v = None) \<and> n \<in> set (slice_at byVM1 v)"
        "if ret then int (length sel') = nb else int (length sel') < nb" by auto
      have "slice_at byVM1 v = slice_at byVM v" if "v \<in> set vms" for v
        using that Cons.prems(2) by (auto simp: byVM1_def)
      then have "\<forall>(v, x) \<in> set ((vm, n) # ps). v \<in> set (vm # vms) \<and> (be \<or> already v = None) \<and> x \<in> set (slice_at byVM v)"
        using ps(6) n take by auto
      moreover have "vm \<notin> fst ` set ps" using ps(6) Cons.prems(2) by auto
      ultimately show ?thesis
        using ps(1-5,7) av by (intro exI [of _ "(vm, n) # ps"]) auto
    qed
  qed
qed

definition range_orders_ok :: "range_orders \<Rightarrow> bool" where
  "range_orders_ok ro \<longleftrightarrow> (\<forall>k m. finite (dom m) \<longrightarrow> range_order (ro k m) m)"

lemma range_orders_okD: "range_orders_ok ro \<Longrightarrow> finite (dom m) \<Longrightarrow> distinct (ro k m) \<and> set (ro k m) = dom m"
  by (auto simp: range_orders_ok_def range_order_def)

lemma slots_of_empty: "dom m \<subseteq> set V \<Longrightarrow> \<forall>v \<in> dom m. slice_at m v = [] \<Longrightarrow> slots_of m V = []"
  using slice_at_not_dom [of _ m] by (fastforce simp: slots_of_def)

text \<open>The passes in best effort: they stop when there are enough masters or none is left.\<close>

lemma place_loop_best_effort:
  assumes ro: "range_orders_ok ro" and V: "distinct V"
  shows "dom byVM \<subseteq> set V \<Longrightarrow> int (length sel) \<le> nb \<Longrightarrow> place_loop ro k already True nb sel byVM = (sel', be) \<Longrightarrow>
    be \<and> (\<exists>news. sel' = sel @ news \<and> mset news \<subseteq># mset (slots_of byVM V) \<and> int (length sel') \<le> nb \<and>
      (int (length sel') < nb \<longrightarrow> mset news = mset (slots_of byVM V)))"
proof (induction "nat (nb - int (length sel))" arbitrary: k sel byVM rule: less_induct)
  case less
  show ?case
  proof (cases "int (length sel) < nb")
    case False
    with less.prems show ?thesis by (subst (asm) place_loop.simps) auto
  next
    case True
    obtain sel1 byVM1 pr ret where p: "place_pass already True nb (ro k byVM) sel byVM False = (sel1, byVM1, pr, ret)"
      by (metis prod_cases4)
    have "finite (dom byVM)" using less.prems(1) by (rule finite_subset) simp
    note r = range_orders_okD [OF ro this, of k]
    from r have "distinct (ro k byVM)" "set (ro k byVM) \<subseteq> dom byVM" by simp_all
    from place_pass_spec [OF V p this less.prems(1) True] obtain ps :: "(string \<times> nref) list" where
        ps: "sel1 = sel @ map snd ps" "dom byVM1 = dom byVM" "pr \<longleftrightarrow> ps \<noteq> []"
        "mset (slots_of byVM V) = mset (map snd ps) + mset (slots_of byVM1 V)"
        "if ret then int (length sel1) = nb else int (length sel1) < nb"
        "ps = [] \<longrightarrow> (\<forall>v \<in> set (ro k byVM). slice_at byVM v = [])" by blast
    have eq: "place_loop ro k already True nb sel byVM
        = (if ret then (sel1, True) else if \<not> pr then (sel1, True) else place_loop ro (Suc k) already True nb sel1 byVM1)"
      using True p by (subst place_loop.simps) simp
    show ?thesis
    proof (cases "ret \<or> \<not> pr")
      case stop: True
      then have out: "sel' = sel1" "be" using less.prems(3) by (auto simp: eq split: if_splits)
      have "int (length sel1) < nb \<longrightarrow> mset (map snd ps) = mset (slots_of byVM V)"
        using stop ps(3,5,6) slots_of_empty [OF less.prems(1)] r by (auto split: if_splits)
      with out ps(1,4,5) show ?thesis by (auto split: if_splits)
    next
      case go: False
      then have "place_loop ro (Suc k) already True nb sel1 byVM1 = (sel', be)" using less.prems(3) by (simp add: eq)
      moreover have "nat (nb - int (length sel1)) < nat (nb - int (length sel))" using go ps(1,3) True by (cases ps) auto
      ultimately obtain news where "be" and news: "sel' = sel1 @ news" "mset news \<subseteq># mset (slots_of byVM1 V)" "int (length sel') \<le> nb"
          "int (length sel') < nb \<longrightarrow> mset news = mset (slots_of byVM1 V)"
        using less.hyps [of sel1 byVM1 "Suc k"] ps(2,5) less.prems(1) go by auto
      then show ?thesis
        using ps(1,4) by (intro conjI exI [of _ "map snd ps @ news"]) auto
    qed
  qed
qed

lemma place_loop_spec:
  assumes ro: "range_orders_ok ro" and V: "distinct V" "dom byVM \<subseteq> set V" and "int (length sel) \<le> nb"
    and run: "place_loop ro k already False nb sel byVM = (sel', be)"
  shows "\<exists>news. sel' = sel @ news \<and> mset news \<subseteq># mset (slots_of byVM V) \<and> int (length sel') \<le> nb \<and>
      (int (length sel') < nb \<longrightarrow> mset news = mset (slots_of byVM V)) \<and>
      (\<not> be \<longrightarrow> (\<exists>ps. news = map snd ps \<and> distinct (map fst ps) \<and> (\<forall>(v, n) \<in> set ps. already v = None \<and> n \<in> set (slice_at byVM v))))"
proof (cases "int (length sel) < nb")
  case False
  with run have "sel' = sel" by (subst (asm) place_loop.simps) simp
  with False assms(4) show ?thesis by (intro exI [of _ "[]"]) (auto intro: exI [of _ "[]"])
next
  case True
  obtain sel1 byVM1 pr ret where p: "place_pass already False nb (ro k byVM) sel byVM False = (sel1, byVM1, pr, ret)"
    by (metis prod_cases4)
  have "finite (dom byVM)" using V(2) by (rule finite_subset) simp
  note r = range_orders_okD [OF ro this, of k]
  from r have "distinct (ro k byVM)" "set (ro k byVM) \<subseteq> dom byVM" by simp_all
  from place_pass_spec [OF V(1) p this V(2) True] obtain ps where ps: "sel1 = sel @ map snd ps" "dom byVM1 = dom byVM"
      "mset (slots_of byVM V) = mset (map snd ps) + mset (slots_of byVM1 V)"
      "distinct (map fst ps)" "\<forall>(v, n) \<in> set ps. v \<in> set (ro k byVM) \<and> (False \<or> already v = None) \<and> n \<in> set (slice_at byVM v)"
      "if ret then int (length sel1) = nb else int (length sel1) < nb" by blast
  from ps(5) have free: "\<forall>(v, n) \<in> set ps. already v = None \<and> n \<in> set (slice_at byVM v)" by auto
  have eq: "place_loop ro k already False nb sel byVM
      = (if ret then (sel1, False) else place_loop ro (Suc k) already True nb sel1 byVM1)"
    using True p by (subst place_loop.simps) simp
  show ?thesis
  proof (cases ret)
    case True
    then have "sel' = sel1" using run by (simp add: eq)
    moreover have "\<exists>qs. map snd ps = map snd qs \<and> distinct (map fst qs) \<and> (\<forall>(v, n) \<in> set qs. already v = None \<and> n \<in> set (slice_at byVM v))"
      using ps(4) free by blast
    ultimately show ?thesis using True ps(1,3,6) by (intro exI [of _ "map snd ps"]) simp
  next
    case False
    then have "place_loop ro (Suc k) already True nb sel1 byVM1 = (sel', be)" using run by (simp add: eq)
    from place_loop_best_effort [OF ro V(1) _ _ this] V(2) ps(2,6) False obtain news where be: "be" and
        news: "sel' = sel1 @ news" "mset news \<subseteq># mset (slots_of byVM1 V)" "int (length sel') \<le> nb"
        "int (length sel') < nb \<longrightarrow> mset news = mset (slots_of byVM1 V)" by auto
    then show ?thesis using ps(1,3) by (intro exI [of _ "map snd ps @ news"]) auto
  qed
qed

lemma mset_by_vm:
  assumes "distinct V" and "set V = dom (sortRedisNodeByVM h c nodes)"
  shows "mset (slots_of (sortRedisNodeByVM h c nodes) V) = mset (filter (\<lambda>r. vm_of h c r \<noteq> None) nodes)"
proof -
  have "mset (concat (map (\<lambda>v. filter (\<lambda>r. vm_of h c r = Some v) ns) V)) = mset (filter (\<lambda>r. vm_of h c r \<in> Some ` set V) ns)" for ns
    using assms(1)
  proof (induction V)
    case (Cons a V)
    have "mset (filter (\<lambda>r. vm_of h c r = Some a) ns) + mset (filter (\<lambda>r. vm_of h c r \<in> Some ` set V) ns)
        = mset (filter (\<lambda>r. vm_of h c r \<in> Some ` set (a # V)) ns)"
      using Cons.prems by (induction ns) auto
    with Cons show ?case by simp
  qed simp
  moreover have "filter (\<lambda>r. vm_of h c r \<in> Some ` set V) nodes = filter (\<lambda>r. vm_of h c r \<noteq> None) nodes"
    using assms(2) by (intro filter_cong) (auto simp: sortRedisNodeByVM_spec)
  moreover have "slice_at (sortRedisNodeByVM h c nodes) = (\<lambda>v. filter (\<lambda>r. vm_of h c r = Some v) nodes)"
    by (rule ext) (rule sortRedisNodeByVM_spec(1))
  ultimately show ?thesis unfolding slots_of_def by metis
qed

section \<open>Slaves by master\<close>

text \<open>
  The three loops that hand a slave to a master do the same step: \<open>attaches rf s m b m'\<close> says that \<open>s\<close>
  went to a master of \<open>m\<close> with room (\<open>b\<close>) or that nothing changed (\<open>\<not> b\<close>).
\<close>

definition attaches :: "int \<Rightarrow> nref \<Rightarrow> nodes_by \<Rightarrow> bool \<Rightarrow> nodes_by \<Rightarrow> bool" where
  "attaches rf s m b m' \<longleftrightarrow>
     (if b then \<exists>i \<in> dom m. int (length (slice_at m i)) < rf \<and> m' = map_append m i [s] else m' = m)"

definition slaves_ok :: "int \<Rightarrow> string list \<Rightarrow> nodes_by \<Rightarrow> bool" where
  "slaves_ok rf V m \<longleftrightarrow> distinct V \<and> dom m = set V \<and> (\<forall>i. int (length (slice_at m i)) \<le> rf)"

lemma attaches_simps [simp]:
  "attaches rf s m False m' \<longleftrightarrow> m' = m"
  "attaches rf s m True m' \<longleftrightarrow> (\<exists>i \<in> dom m. int (length (slice_at m i)) < rf \<and> m' = map_append m i [s])"
  by (simp_all add: attaches_def)

lemma attachesI: "i \<in> dom m \<Longrightarrow> int (length (slice_at m i)) < rf \<Longrightarrow> attaches rf s m True (map_append m i [s])"
  by (auto simp: attaches_def)

lemma attaches_slaves_ok:
  assumes "attaches rf s m b m'" "slaves_ok rf V m"
  shows "slaves_ok rf V m'" "mset (slots_of m' V) = mset (slots_of m V) + (if b then {#s#} else {#})"
proof -
  have "slaves_ok rf V m' \<and> mset (slots_of m' V) = mset (slots_of m V) + (if b then {#s#} else {#})"
  proof (cases b)
    case True
    with assms(1) obtain i where "i \<in> dom m" "int (length (slice_at m i)) < rf" "m' = map_append m i [s]" by auto
    with assms(2) True show ?thesis using slots_of_map_append [of V i m "[s]"] by (simp add: slaves_ok_def insert_absorb)
  qed (use assms in simp)
  then show "slaves_ok rf V m'" "mset (slots_of m' V) = mset (slots_of m V) + (if b then {#s#} else {#})" by auto
qed

lemma place_old_slave_attaches:
  "place_old_slave h c rf s masters m = Some m' \<Longrightarrow> (\<lambda>r. n_ID (h r)) ` set masters \<subseteq> dom m \<Longrightarrow> \<exists>b. attaches rf s m b m'"
proof (induction masters)
  case Nil
  then show ?case by (auto intro: exI [of _ False])
next
  case (Cons r rs)
  show ?case
  proof (cases "n_MasterReferent (h s) = n_ID (h r) \<and> int (length (slice_at m (n_MasterReferent (h s)))) < rf")
    case True
    with Cons.prems(1) have "m' = map_append m (n_ID (h r)) [s]" by (auto split: if_splits)
    moreover have "attaches rf s m True (map_append m (n_ID (h r)) [s])" using True Cons.prems(2) by (intro attachesI) auto
    ultimately show ?thesis by blast
  next
    case False
    with Cons.prems(1) have "place_old_slave h c rf s rs m = Some m'" by (auto split: if_splits prod.splits option.splits)
    with Cons.IH Cons.prems(2) show ?thesis by auto
  qed
qed

lemma attach_spread_attaches:
  "attach_spread h c rf vm s ids m = (b, m') \<Longrightarrow> set ids \<subseteq> dom m \<Longrightarrow> attaches rf s m b m'"
proof (induction ids)
  case (Cons i ids)
  show ?case
  proof (cases "attach_spread h c rf vm s (i # ids) m = attach_spread h c rf vm s ids m")
    case True
    with Cons show ?thesis by simp
  next
    case False
    then have "int (length (slice_at m i)) < rf" "attach_spread h c rf vm s (i # ids) m = (True, map_append m i [s])"
      by (auto simp: Let_def split: if_splits)
    with Cons.prems attachesI [of i m rf s] show ?thesis by auto
  qed
qed simp

lemma attach_any_attaches:
  "set ids \<subseteq> dom m \<Longrightarrow> \<exists>b. attaches rf s m b (attach_any rf s ids m) \<and> (b \<or> (\<forall>i \<in> set ids. rf \<le> int (length (slice_at m i))))"
proof (induction ids)
  case (Cons j js)
  show ?case
  proof (cases "rf \<le> int (length (slice_at m j))")
    case True
    with Cons show ?thesis by auto
  next
    case False
    with Cons.prems show ?thesis using attachesI [of j m rf s] by (intro exI [of _ True]) simp
  qed
qed (auto intro: exI [of _ False])

text \<open>The old slaves that keep a place are among the old slaves.\<close>

lemma place_old_slaves_spec:
  "place_old_slaves h c rf slaves masters m = Some m' \<Longrightarrow> slaves_ok rf V m \<Longrightarrow> (\<lambda>r. n_ID (h r)) ` set masters \<subseteq> dom m \<Longrightarrow>
   slaves_ok rf V m' \<and> (\<exists>olds. mset olds \<subseteq># mset slaves \<and> mset (slots_of m' V) = mset (slots_of m V) + mset olds)"
proof (induction slaves arbitrary: m)
  case (Cons s ss)
  from Cons.prems(1) obtain m1 where m1: "place_old_slave h c rf s masters m = Some m1" "place_old_slaves h c rf ss masters m1 = Some m'"
    by (auto split: option.splits)
  from place_old_slave_attaches [OF m1(1) Cons.prems(3)] obtain b where b: "attaches rf s m b m1" by blast
  note ok = attaches_slaves_ok [OF b Cons.prems(2)]
  have "dom m1 = dom m" using ok(1) Cons.prems(2) by (simp add: slaves_ok_def)
  with Cons.IH [OF m1(2) ok(1)] Cons.prems(3) obtain olds where
    "slaves_ok rf V m'" "mset olds \<subseteq># mset ss" "mset (slots_of m' V) = mset (slots_of m1 V) + mset olds" by auto
  then show ?case
    using ok(2) subset_mset.order_trans [of "mset olds" "mset ss" "mset (s # ss)"]
    by (intro conjI exI [of _ "if b then s # olds else olds"]) auto
qed auto

lemma slots_of_superset:
  assumes "distinct V" "distinct W" "dom m \<subseteq> set V" "dom m \<subseteq> set W"
  shows "mset (slots_of m V) = mset (slots_of m W)"
proof -
  have drop: "slots_of m X = slots_of m (filter (\<lambda>v. v \<in> dom m) X)" for X
    by (induction X) (simp_all add: slots_of_def slice_at_not_dom)
  have "mset (filter (\<lambda>v. v \<in> dom m) V) = mset (filter (\<lambda>v. v \<in> dom m) W)"
    using assms by (intro set_eq_iff_mset_eq_distinct [THEN iffD1]) auto
  moreover have "mset (slots_of m X) = (\<Sum>k \<in># mset X. mset (slice_at m k))" for X
    by (induction X) (simp_all add: slots_of_def)
  ultimately show ?thesis unfolding drop [of V] drop [of W] by simp
qed

lemma spread_slaves_spec:
  assumes "range_orders_ok ro" "distinct W"
  shows "spread_slaves ro h c rf vm slaves k m u left = (k', m', u', left') \<Longrightarrow> vm \<in> set W \<Longrightarrow> slaves_ok rf V m \<Longrightarrow> dom u \<subseteq> set W \<Longrightarrow>
    slaves_ok rf V m' \<and> dom u' \<subseteq> set W \<and> mset (slots_of m V) \<subseteq># mset (slots_of m' V) \<and>
    mset (slots_of m' V) + mset (slots_of u' W) = mset (slots_of m V) + mset (slots_of u W) + mset slaves \<and>
    (left' \<or> u' = u \<and> \<not> left)"
proof (induction slaves arbitrary: k m u left)
  case (Cons s ss)
  obtain b m1 where b: "attach_spread h c rf vm s (ro k m) m = (b, m1)" by (metis surj_pair)
  have "finite (dom m)" using Cons.prems(3) by (simp add: slaves_ok_def)
  then have "set (ro k m) \<subseteq> dom m" using range_orders_okD [OF assms(1)] by simp
  note ok = attaches_slaves_ok [OF attach_spread_attaches [OF b this] Cons.prems(3)]
  show ?case
  proof (cases b)
    case True
    with Cons.prems(1) b have "spread_slaves ro h c rf vm ss (Suc k) m1 u left = (k', m', u', left')" by simp
    from Cons.IH [OF this Cons.prems(2) ok(1) Cons.prems(4)] True ok(2) show ?thesis
      by (auto intro: subset_mset.order_trans [of _ "mset (slots_of m1 V)"])
  next
    case False
    with Cons.prems(1) b have "spread_slaves ro h c rf vm ss (Suc k) m1 (map_append u vm [s]) True = (k', m', u', left')" by simp
    from Cons.IH [OF this Cons.prems(2) ok(1)] Cons.prems(2,4) False ok(2) slots_of_map_append [OF assms(2), of vm u "[s]"]
    show ?thesis by auto
  qed
qed auto

lemma spread_vms_spec:
  assumes "range_orders_ok ro" "distinct W"
  shows "spread_vms ro h c rf byVM vms k m u left = (k', m', u', left') \<Longrightarrow> set vms \<subseteq> set W \<Longrightarrow> slaves_ok rf V m \<Longrightarrow> dom u \<subseteq> set W \<Longrightarrow>
    slaves_ok rf V m' \<and> dom u' \<subseteq> set W \<and> mset (slots_of m V) \<subseteq># mset (slots_of m' V) \<and>
    mset (slots_of m' V) + mset (slots_of u' W) = mset (slots_of m V) + mset (slots_of u W) + mset (slots_of byVM vms) \<and>
    (left' \<or> u' = u \<and> \<not> left)"
proof (induction vms arbitrary: k m u left)
  case (Cons vm vms)
  obtain k1 m1 u1 left1 where s: "spread_slaves ro h c rf vm (slice_at byVM vm) k m u left = (k1, m1, u1, left1)"
    by (metis prod_cases4)
  with Cons.prems(1) have "spread_vms ro h c rf byVM vms k1 m1 u1 left1 = (k', m', u', left')" by simp
  note IH = Cons.IH [OF this]
  have "vm \<in> set W" using Cons.prems(2) by simp
  note S = spread_slaves_spec [OF assms s this Cons.prems(3,4)]
  have "mset (slots_of byVM (vm # vms)) = mset (slice_at byVM vm) + mset (slots_of byVM vms)" by (simp add: slots_of_def)
  moreover have "mset (slots_of m V) \<subseteq># mset (slots_of m' V)"
    using S IH Cons.prems(2) subset_mset.order_trans [of "mset (slots_of m V)" "mset (slots_of m1 V)"] by auto
  ultimately show ?case using S IH Cons.prems(2) by auto
qed (auto simp: slots_of_def)

lemma attach_any_full: "\<forall>i \<in> set ids. int (length (slice_at m i)) = rf \<Longrightarrow> attach_any rf s ids m = m"
  by (induction ids) auto

lemma attach_rest_full:
  "range_orders_ok ro \<Longrightarrow> finite (dom m) \<Longrightarrow> \<forall>i \<in> dom m. int (length (slice_at m i)) = rf \<Longrightarrow> snd (attach_rest ro rf ss k m) = m"
  using range_orders_okD [of ro m] by (induction ss arbitrary: k) (simp_all add: attach_any_full)

lemma attach_rest_spec:
  assumes "range_orders_ok ro"
  shows "attach_rest ro rf slaves k m = (k', m') \<Longrightarrow> slaves_ok rf V m \<Longrightarrow>
    slaves_ok rf V m' \<and> (\<exists>rest. mset rest \<subseteq># mset slaves \<and> mset (slots_of m' V) = mset (slots_of m V) + mset rest \<and>
      (mset rest = mset slaves \<or> (\<forall>i \<in> dom m'. int (length (slice_at m' i)) = rf)))"
proof (induction slaves arbitrary: k m)
  case (Cons s ss)
  define m1 where "m1 = attach_any rf s (ro k m) m"
  have "finite (dom m)" using Cons.prems(2) by (simp add: slaves_ok_def)
  then have r: "set (ro k m) = dom m" using range_orders_okD [OF assms] by simp
  with attach_any_attaches [of "ro k m" m rf s] obtain b where b: "attaches rf s m b m1" "b \<or> (\<forall>i \<in> dom m. rf \<le> int (length (slice_at m i)))"
    by (auto simp: m1_def)
  note ok = attaches_slaves_ok [OF b(1) Cons.prems(2)]
  have "attach_rest ro rf ss (Suc k) m1 = (k', m')" using Cons.prems(1) by (simp add: m1_def)
  from Cons.IH [OF this ok(1)] obtain rest where ok': "slaves_ok rf V m'" and
    rest: "mset rest \<subseteq># mset ss" "mset (slots_of m' V) = mset (slots_of m1 V) + mset rest"
      "mset rest = mset ss \<or> (\<forall>i \<in> dom m'. int (length (slice_at m' i)) = rf)" by blast
  show ?case
  proof (cases b)
    case True
    with ok' ok(2) rest show ?thesis by (intro conjI exI [of _ "s # rest"]) auto
  next
    case False
    then have "\<forall>i \<in> dom m. rf \<le> int (length (slice_at m i))" using b(2) by blast
    moreover have "\<forall>i. int (length (slice_at m i)) \<le> rf" using Cons.prems(2) by (simp add: slaves_ok_def)
    ultimately have full: "\<forall>i \<in> dom m. int (length (slice_at m i)) = rf" by (auto intro: order_antisym)
    moreover have "m1 = m" using b(1) False by simp
    moreover have "m' = m" using attach_rest_full [OF assms \<open>finite (dom m)\<close> full, of ss "Suc k"] \<open>attach_rest ro rf ss (Suc k) m1 = (k', m')\<close> calculation by simp
    ultimately show ?thesis using ok' by (intro conjI exI [of _ "[]"]) auto
  qed
qed auto

lemma place_old_slave_known:
  "snd (GetNodeByID c (n_ID (h s))) = None \<Longrightarrow> place_old_slave h c rf s masters m \<noteq> None"
  by (induction masters) (auto split: prod.splits option.splits)

lemma place_old_slaves_known:
  "\<forall>s \<in> set slaves. snd (GetNodeByID c (n_ID (h s))) = None \<Longrightarrow> place_old_slaves h c rf slaves masters m \<noteq> None"
  using place_old_slave_known [of c h] by (induction slaves arbitrary: m) (auto split: option.splits)

lemma empty_slaves:
  fixes h :: heap
  defines "ids \<equiv> \<lambda>rs. (\<lambda>r. n_ID (h r)) ` set rs"
  shows "dom (foldl (\<lambda>m r. m(n_ID (h r) \<mapsto> [])) m rs) = dom m \<union> ids rs"
    and "(\<And>i. slice_at m i = []) \<Longrightarrow> slice_at (foldl (\<lambda>m r. m(n_ID (h r) \<mapsto> [])) m rs) j = []"
  unfolding ids_def by (induction rs arbitrary: m) (auto simp del: fun_upd_apply)

lemma slots_of_all_empty: "(\<And>i. slice_at m i = []) \<Longrightarrow> slots_of m V = []"
  by (simp add: slots_of_def)

section \<open>Properties\<close>

text \<open>Loops that visit the machines in ascending order, and four nodes on two machines.\<close>

definition sorted_ranges :: range_orders where "sorted_ranges = (\<lambda>k m. sorted_list_of_set (dom m))"

lemma sorted_ranges_ok: "range_orders_ok sorted_ranges"
  by (simp add: range_orders_ok_def range_order_def sorted_ranges_def)

definition two_vms :: heap where
  "two_vms = (\<lambda>_. NewDefaultNode)(0 := NewDefaultNode\<lparr>n_ID := ''a'', n_NodeName := ''vm1''\<rparr>, 1 := NewDefaultNode\<lparr>n_ID := ''b'', n_NodeName := ''vm2''\<rparr>,
     2 := NewDefaultNode\<lparr>n_ID := ''c'', n_NodeName := ''vm1'', n_MasterReferent := ''b''\<rparr>, 3 := NewDefaultNode\<lparr>n_ID := ''d'', n_NodeName := ''vm2''\<rparr>)"

definition two_vm_cluster :: Cluster where
  "two_vm_cluster = (NewCluster ''c'' ''n'')\<lparr>c_Nodes := [''a'' \<mapsto> 0, ''b'' \<mapsto> 1, ''c'' \<mapsto> 2, ''d'' \<mapsto> 3]\<rparr>"

text \<open>
  C36: \<^verbatim>\<open>PlaceMasters\<close> never panics for a target of at least zero. It keeps the current masters up to the
  target and adds candidates that the cluster knows, each at most as often as it is offered, up to the
  target; it reports an error exactly when the target is missed, and then every known candidate was
  taken. When it does not report best effort, the added masters are on machines of their own that
  host no current master.
\<close>

theorem PlaceMasters_spec:
  assumes ro: "range_orders_ok ro" and nb: "0 \<le> nb"
  shows "\<exists>news be err. PlaceMasters ro h c cur cands nb = Some (take (nat nb) cur @ news, be, err) \<and>
    int (length (take (nat nb) cur @ news)) \<le> nb \<and> (err = None \<longleftrightarrow> int (length (take (nat nb) cur @ news)) = nb) \<and>
    mset news \<subseteq># mset (filter (\<lambda>r. vm_of h c r \<noteq> None) cands) \<and>
    (err \<noteq> None \<longrightarrow> mset news = mset (filter (\<lambda>r. vm_of h c r \<noteq> None) cands)) \<and>
    (\<not> be \<longrightarrow> distinct (map (vm_of h c) news) \<and> (\<forall>n \<in> set news. \<forall>m \<in> set cur. vm_of h c n \<noteq> vm_of h c m))"
proof -
  define byVM where "byVM = sortRedisNodeByVM h c cands"
  define V where "V = sorted_list_of_set (dom byVM)"
  have V: "distinct V" "set V = dom byVM" using finite_sortRedisNodeByVM by (simp_all add: V_def byVM_def)
  define sel where "sel = take (nat nb) cur"
  define already where "already = sortRedisNodeByVM h c cur"
  obtain sel' be where run: "place_loop ro 0 already False nb sel byVM = (sel', be)" by (metis surj_pair)
  have len: "int (length sel) \<le> nb" using nb by (simp add: sel_def)
  have "dom byVM \<subseteq> set V" using V(2) by simp
  from place_loop_spec [OF ro V(1) this len run] obtain news where
    news: "sel' = sel @ news" "mset news \<subseteq># mset (slots_of byVM V)" "int (length sel') \<le> nb"
      "int (length sel') < nb \<longrightarrow> mset news = mset (slots_of byVM V)"
    and spread: "\<not> be \<longrightarrow> (\<exists>ps. news = map snd ps \<and> distinct (map fst ps) \<and> (\<forall>(v, n) \<in> set ps. already v = None \<and> n \<in> set (slice_at byVM v)))"
    by blast
  have mset: "mset (slots_of byVM V) = mset (filter (\<lambda>r. vm_of h c r \<noteq> None) cands)"
    using mset_by_vm V unfolding byVM_def by blast
  have "(if nb < int (length cur) then take (nat nb) cur else cur) = sel" using nb by (auto simp: sel_def)
  then have "PlaceMasters ro h c cur cands nb = Some (sel', be, if nb \<le> int (length sel') then None
      else Some (Errorf ''unable to found enough node for have the request number of master'' []))"
    using nb run unfolding PlaceMasters_def Let_def already_def byVM_def by simp
  then obtain err where "PlaceMasters ro h c cur cands nb = Some (sel', be, err)" "err = None \<longleftrightarrow> nb \<le> int (length sel')" by simp
  moreover have "distinct (map (vm_of h c) news) \<and> (\<forall>n \<in> set news. \<forall>m \<in> set cur. vm_of h c n \<noteq> vm_of h c m)" if "\<not> be"
  proof -
    from spread that obtain ps where ps: "news = map snd ps" "distinct (map fst ps)" "\<forall>(v, n) \<in> set ps. already v = None \<and> n \<in> set (slice_at byVM v)"
      by blast
    then have on: "\<forall>p \<in> set ps. vm_of h c (snd p) = Some (fst p) \<and> (\<forall>m \<in> set cur. vm_of h c m \<noteq> Some (fst p))"
      unfolding already_def byVM_def sortRedisNodeByVM_spec(1) sortRedisNodeByVM_None by auto
    then have "map (vm_of h c) news = map (Some \<circ> fst) ps" unfolding ps(1) by auto
    moreover have "distinct (map (Some \<circ> fst) ps)" using ps(2) by (auto simp: distinct_map comp_def inj_on_def)
    moreover have "\<forall>n \<in> set news. \<forall>m \<in> set cur. vm_of h c n \<noteq> vm_of h c m"
      using on unfolding ps(1) by fastforce
    ultimately show ?thesis by simp
  qed
  ultimately show ?thesis
    using news mset unfolding sel_def [symmetric] by (intro exI [of _ news] exI [of _ be] exI [of _ err]) auto
qed

theorem PlaceMasters_spec_witness:
  "\<exists>news be err. PlaceMasters sorted_ranges two_vms two_vm_cluster [0] [2, 3] 2 = Some (take (nat 2) [0] @ news, be, err) \<and>
    int (length (take (nat 2) [0] @ news)) \<le> 2 \<and> (err = None \<longleftrightarrow> int (length (take (nat 2) [0] @ news)) = 2) \<and>
    mset news \<subseteq># mset (filter (\<lambda>r. vm_of two_vms two_vm_cluster r \<noteq> None) [2, 3]) \<and>
    (err \<noteq> None \<longrightarrow> mset news = mset (filter (\<lambda>r. vm_of two_vms two_vm_cluster r \<noteq> None) [2, 3])) \<and>
    (\<not> be \<longrightarrow> distinct (map (vm_of two_vms two_vm_cluster) news) \<and> (\<forall>n \<in> set news. \<forall>m \<in> set [0]. vm_of two_vms two_vm_cluster n \<noteq> vm_of two_vms two_vm_cluster m))"
  by (rule PlaceMasters_spec [OF sorted_ranges_ok]) simp

text \<open>
  C37: \<^verbatim>\<open>PlaceSlaves\<close>, when the cluster knows every old slave, returns a map with exactly the identifiers of
  the masters as keys and at most the replication factor of slaves for each. What it hands out are
  some of the old slaves, each once, and the new slaves that the cluster knows: all of them, unless
  it reports best effort and every master has as many slaves as the replication factor asks for.
\<close>

theorem PlaceSlaves_bounds:
  assumes ro: "range_orders_ok ro" and rf: "0 \<le> rf" and known: "\<forall>s \<in> set olds. snd (GetNodeByID c (n_ID (h s))) = None"
  shows "\<exists>m be kept rest. PlaceSlaves ro h c masters olds news rf = Some (m, be) \<and>
    dom m = (\<lambda>r. n_ID (h r)) ` set masters \<and> (\<forall>i. int (length (slice_at m i)) \<le> rf) \<and>
    mset (slots_of m (remdups (map (\<lambda>r. n_ID (h r)) masters))) = mset kept + mset rest \<and>
    mset kept \<subseteq># mset olds \<and> mset rest \<subseteq># mset (filter (\<lambda>r. vm_of h c r \<noteq> None) news) \<and>
    (mset rest = mset (filter (\<lambda>r. vm_of h c r \<noteq> None) news) \<or> be \<and> (\<forall>i \<in> dom m. int (length (slice_at m i)) = rf))"
proof -
  define V where "V = remdups (map (\<lambda>r. n_ID (h r)) masters)"
  define byVM where "byVM = sortRedisNodeByVM h c news"
  define m0 :: nodes_by where "m0 = foldl (\<lambda>m r. m(n_ID (h r) \<mapsto> [])) Map.empty masters"
  have m0: "slice_at m0 i = []" for i unfolding m0_def by (rule empty_slaves(2)) simp
  have dom0: "dom m0 = (\<lambda>r. n_ID (h r)) ` set masters" unfolding m0_def empty_slaves(1) by simp
  have ok0: "slaves_ok rf V m0" using m0 dom0 rf by (simp add: slaves_ok_def V_def)
  obtain m1 where m1: "place_old_slaves h c rf olds masters m0 = Some m1" using place_old_slaves_known [OF known] by blast
  from place_old_slaves_spec [OF m1 ok0] dom0 slots_of_all_empty [OF m0] obtain kept where
    ok1: "slaves_ok rf V m1" and kept: "mset kept \<subseteq># mset olds" "mset (slots_of m1 V) = mset kept" by auto
  define W where "W = ro 0 byVM"
  have fin: "finite (dom byVM)" unfolding byVM_def by (rule finite_sortRedisNodeByVM)
  then have W: "distinct W" "set W = dom byVM" using range_orders_okD [OF ro] by (simp_all add: W_def)
  obtain k m2 u left where s: "spread_vms ro h c rf byVM W 1 m1 Map.empty False = (k, m2, u, left)" by (metis prod_cases4)
  from spread_vms_spec [OF ro W(1) s subset_refl ok1] have
    ok2: "slaves_ok rf V m2" and u: "dom u \<subseteq> set W" and left: "left \<or> u = Map.empty" and "mset kept \<subseteq># mset (slots_of m2 V)"
    and sum: "mset (slots_of m2 V) + mset (slots_of u W) = mset kept + mset (slots_of byVM W)"
    using slots_of_all_empty [of Map.empty W] kept(2) by auto
  have new: "mset (slots_of byVM W) = mset (filter (\<lambda>r. vm_of h c r \<noteq> None) news)"
    using mset_by_vm W unfolding byVM_def by blast
  define rest where "rest = concat (map (slice_at u) (ro k u))"
  have "finite (dom u)" using u by (rule finite_subset) simp
  then have "mset rest = mset (slots_of u W)"
    using slots_of_superset [of "ro k u" W u] range_orders_okD [OF ro, of u k] W(1) u by (simp add: rest_def slots_of_def)
  note total = sum [folded this, unfolded new]
  obtain given where given: "mset (slots_of m2 V) = mset kept + mset given"
    using \<open>mset kept \<subseteq># mset (slots_of m2 V)\<close> by (metis ex_mset subset_mset.le_iff_add)
  with total have sum': "mset given + mset rest = mset (filter (\<lambda>r. vm_of h c r \<noteq> None) news)" by simp
  obtain k' m3 where m3: "attach_rest ro rf rest (Suc k) m2 = (k', m3)" by (metis surj_pair)
  have P: "PlaceSlaves ro h c masters olds news rf = Some (if left then m3 else m2, left)"
    using m1 s m3 by (simp add: PlaceSlaves_def byVM_def W_def m0_def rest_def Let_def)
  have D: "dom m = (\<lambda>r. n_ID (h r)) ` set masters \<and> (\<forall>i. int (length (slice_at m i)) \<le> rf)" if "slaves_ok rf V m" for m
    using that by (simp add: slaves_ok_def V_def)
  show ?thesis
  proof (cases left)
    case True
    from attach_rest_spec [OF ro m3 ok2] obtain more where ok3: "slaves_ok rf V m3" and
      more: "mset more \<subseteq># mset rest" "mset (slots_of m3 V) = mset (slots_of m2 V) + mset more"
        "mset more = mset rest \<or> (\<forall>i \<in> dom m3. int (length (slice_at m3 i)) = rf)" by blast
    have "mset (slots_of m3 V) = mset kept + mset (given @ more)" using more(2) given by simp
    moreover have "mset (given @ more) \<subseteq># mset given + mset rest" using more(1) by simp
    moreover have "mset (given @ more) = mset given + mset rest \<or> (\<forall>i \<in> dom m3. int (length (slice_at m3 i)) = rf)" using more(3) by auto
    moreover have "PlaceSlaves ro h c masters olds news rf = Some (m3, True)" using P True by simp
    ultimately show ?thesis using D [OF ok3] kept(1) unfolding sum' V_def
      by (intro exI [of _ m3] exI [of _ True] exI [of _ kept] exI [of _ "given @ more"]) simp
  next
    case False
    then have "rest = []" using left slots_of_all_empty [of u] by (simp add: rest_def slots_of_def)
    then have "mset given = mset (filter (\<lambda>r. vm_of h c r \<noteq> None) news)" using sum' by simp
    then show ?thesis using False P D [OF ok2] given kept(1) unfolding V_def
      by (intro exI [of _ m2] exI [of _ False] exI [of _ kept] exI [of _ given]) simp
  qed
qed

theorem PlaceSlaves_bounds_witness:
  "\<exists>m be kept rest. PlaceSlaves sorted_ranges two_vms two_vm_cluster [0, 1] [2] [3] 1 = Some (m, be) \<and>
    dom m = (\<lambda>r. n_ID (two_vms r)) ` set [0, 1] \<and> (\<forall>i. int (length (slice_at m i)) \<le> 1) \<and>
    mset (slots_of m (remdups (map (\<lambda>r. n_ID (two_vms r)) [0, 1]))) = mset kept + mset rest \<and>
    mset kept \<subseteq># mset [2] \<and> mset rest \<subseteq># mset (filter (\<lambda>r. vm_of two_vms two_vm_cluster r \<noteq> None) [3]) \<and>
    (mset rest = mset (filter (\<lambda>r. vm_of two_vms two_vm_cluster r \<noteq> None) [3]) \<or> be \<and> (\<forall>i \<in> dom m. int (length (slice_at m i)) = 1))"
  by (rule PlaceSlaves_bounds [OF sorted_ranges_ok]) (simp_all add: two_vms_def two_vm_cluster_def NewCluster_def GetNodeByID_def)

end
