(* ===== verification/Placement_V2.thy ===== *)
theory Placement_V2
  imports Placement
begin

text \<open>
  The placement the reconciler uses (\<^verbatim>\<open>controllers/clustering/placement_v2.go\<close>, \<^verbatim>\<open>roles.go\<close>): one master
  for every stateful set, the other pods of the set as its slaves. The context \<open>Ctx\<close> is the object the
  methods change; nodes are read from the heap.
\<close>

section \<open>Operations\<close>

record Ctx =
  x_expectedMasterNum :: int
  x_clusterName :: string
  x_cluster :: Cluster
  x_nodes :: nodes_by
  x_currentMasters :: Nodes
  x_newMastersBySts :: "string \<rightharpoonup> nref"
  x_slavesByMaster :: nodes_by
  x_bestEffort :: bool
  x_haconfig :: "HAspec option"
  x_hastatus :: HaStatus

text \<open>The orders in which the loops over the maps run.\<close>

record ctx_orders =
  co_zones :: "(string \<rightharpoonup> string) \<Rightarrow> string list"
  co_masters :: "(string \<rightharpoonup> nref) \<Rightarrow> string list"
  co_nodes :: "nodes_by \<Rightarrow> string list"

definition ClusterStatefulSetName :: "string \<Rightarrow> int \<Rightarrow> string" where
  "ClusterStatefulSetName clusterName i = ''drc-'' @ clusterName @ ''-'' @ Itoa i"

definition sts_name :: "heap \<Rightarrow> nref \<Rightarrow> string" where
  "sts_name h cNode = (if n_StatefulSet (h cNode) \<noteq> '''' then n_StatefulSet (h cNode) else unknownVMName)"

fun sortRedisNodeByStatefulSet_loop :: "heap \<Rightarrow> Nodes \<Rightarrow> Ctx \<Rightarrow> nodes_by \<Rightarrow> nodes_by \<times> Ctx" where
  "sortRedisNodeByStatefulSet_loop h [] c m = (m, c)"
| "sortRedisNodeByStatefulSet_loop h (rNode # nodes) c m =
     (case GetNodeByID (x_cluster c) (n_ID (h rNode)) of
        (Some cNode, None) \<Rightarrow>
          let ssName = sts_name h cNode;
              m = (if m ssName = None then m(ssName \<mapsto> []) else m);
              m = map_append m ssName [rNode];
              c = (if GetRole (h rNode) = RedisClusterNodeRoleMaster \<and> TotalSlots (h rNode) > 0
                   then c\<lparr>x_currentMasters := x_currentMasters c @ [rNode]\<rparr> else c)
          in sortRedisNodeByStatefulSet_loop h nodes c m
      | _ \<Rightarrow> sortRedisNodeByStatefulSet_loop h nodes c m)"

definition sortRedisNodeByStatefulSet :: "heap \<Rightarrow> Nodes \<Rightarrow> Ctx \<Rightarrow> nodes_by \<times> Ctx" where
  "sortRedisNodeByStatefulSet h nodes c = sortRedisNodeByStatefulSet_loop h nodes c Map.empty"

definition NewCtx :: "heap \<Rightarrow> HAspec option \<Rightarrow> Cluster \<Rightarrow> Nodes \<Rightarrow> int \<Rightarrow> string \<Rightarrow> Ctx" where
  "NewCtx h haconf cluster nodes masterNum clusterName =
     (let c = \<lparr>x_expectedMasterNum = masterNum, x_clusterName = clusterName, x_cluster = cluster, x_nodes = Map.empty,
               x_currentMasters = [], x_newMastersBySts = Map.empty, x_slavesByMaster = Map.empty, x_bestEffort = False,
               x_haconfig = haconf, x_hastatus = c_HaStatus cluster\<rparr>;
          (nodes, c) = sortRedisNodeByStatefulSet h nodes c
      in c\<lparr>x_nodes := nodes\<rparr>)"

text \<open>The first node in the zone whose turn it is. \<open>None\<close> is the division by a zero number of zones.\<close>

definition PlaceMastersHA :: "ctx_orders \<Rightarrow> heap \<Rightarrow> int \<Rightarrow> string \<Rightarrow> HAspec \<Rightarrow> Ctx \<Rightarrow> nref option option" where
  "PlaceMastersHA co h stsindex ssName haconf c =
     (let nodes = slice_at (x_nodes c) ssName; zones = co_zones co (ha_ZonesInfo haconf) in
      if length zones = 0 then None
      else
        let zoneoffset = stsindex mod int (length zones);
            zones = sort zones;
            zonename = zones ! nat zoneoffset
        in Some (find (\<lambda>node. n_Zonename (h node) = zonename) nodes))"

fun free_host :: "heap \<Rightarrow> Nodes \<Rightarrow> Nodes \<Rightarrow> nref option" where
  "free_host h allMasters [] = None"
| "free_host h allMasters (cNode # nodes) =
     (case Nodes_GetNodesByFunc h allMasters (\<lambda>n. n_NodeName n = n_NodeName (h cNode)) of
        (_, Some err) \<Rightarrow> Some cNode
      | (_, None) \<Rightarrow> free_host h allMasters nodes)"

text \<open>\<open>None\<close> is the panic of indexing an empty slice.\<close>

definition Ctx_PlaceMasters :: "ctx_orders \<Rightarrow> heap \<Rightarrow> string \<Rightarrow> Ctx \<Rightarrow> (nref \<times> Ctx) option" where
  "Ctx_PlaceMasters co h ssName c =
     (let allMasters = x_currentMasters c
            @ map (\<lambda>k. the (x_newMastersBySts c k)) (co_masters co (x_newMastersBySts c));
          nodes = slice_at (x_nodes c) ssName
      in case free_host h allMasters nodes of
           Some cNode \<Rightarrow> Some (cNode, c)
         | None \<Rightarrow> (case nodes of [] \<Rightarrow> None | n # ns \<Rightarrow> Some (n, c\<lparr>x_bestEffort := True\<rparr>)))"

definition place_for_sts :: "ctx_orders \<Rightarrow> heap \<Rightarrow> int \<Rightarrow> string \<Rightarrow> Ctx \<Rightarrow> (nref option \<times> Ctx) option" where
  "place_for_sts co h i stsName c =
     (case x_haconfig c of
        None \<Rightarrow> None
      | Some haconfig \<Rightarrow>
          if ha_HaEnabled haconfig \<and> x_hastatus c = HaStatusCreating
          then map_option (\<lambda>m. (m, c)) (PlaceMastersHA co h i stsName haconfig c)
          else map_option (\<lambda>(m, c). (Some m, c)) (Ctx_PlaceMasters co h stsName c))"

definition dispatch_sts :: "ctx_orders \<Rightarrow> heap \<Rightarrow> int \<Rightarrow> Ctx \<Rightarrow> (err option \<times> Ctx) option" where
  "dispatch_sts co h i c =
     (let stsName = ClusterStatefulSetName (x_clusterName c) i in
      case x_nodes c stsName of
        None \<Rightarrow> Some (Some (Errorf ''missing statefulset %s'' [stsName]), c)
      | Some nodes \<Rightarrow>
          (case FilterByFunc h IsMasterWithSlot nodes of
             [] \<Rightarrow>
               (case place_for_sts co h i stsName c of
                  None \<Rightarrow> None
                | Some (None, c) \<Rightarrow> Some (Some (Errorf ''unable to place master for statefulset %s'' [stsName]), c)
                | Some (Some master, c) \<Rightarrow>
                    Some (None, c\<lparr>x_newMastersBySts := (x_newMastersBySts c)(stsName \<mapsto> master)\<rparr>))
           | [master] \<Rightarrow> Some (None, c\<lparr>x_newMastersBySts := (x_newMastersBySts c)(stsName \<mapsto> master)\<rparr>)
           | _ \<Rightarrow> Some (Some (Errorf ''split brain: %s'' [stsName]), c)))"

fun Ctx_DispatchMasters_loop :: "ctx_orders \<Rightarrow> heap \<Rightarrow> nat list \<Rightarrow> Ctx \<Rightarrow> (err option \<times> Ctx) option" where
  "Ctx_DispatchMasters_loop co h [] c = Some (None, c)"
| "Ctx_DispatchMasters_loop co h (i # is) c =
     (case dispatch_sts co h (int i) c of
        None \<Rightarrow> None
      | Some (Some err, c) \<Rightarrow> Some (Some err, c)
      | Some (None, c) \<Rightarrow> Ctx_DispatchMasters_loop co h is c)"

definition Ctx_DispatchMasters :: "ctx_orders \<Rightarrow> heap \<Rightarrow> Ctx \<Rightarrow> (err option \<times> Ctx) option" where
  "Ctx_DispatchMasters co h c = Ctx_DispatchMasters_loop co h [0..<nat (x_expectedMasterNum c)] c"

text \<open>The loop over the pods of a set with its master.\<close>

fun place_set :: "heap \<Rightarrow> nref \<Rightarrow> Nodes \<Rightarrow> Ctx \<Rightarrow> Ctx" where
  "place_set h master [] c = c"
| "place_set h master (node # nodes) c =
     (if n_IP (h node) = n_IP (h master) then place_set h master nodes c
      else
        let c = (if n_NodeName (h node) \<noteq> n_NodeName (h master) then c\<lparr>x_bestEffort := False\<rparr> else c);
            attached = c\<lparr>x_slavesByMaster := map_append (x_slavesByMaster c) (n_ID (h master)) [node]\<rparr>
        in if GetRole (h node) = RedisClusterNodeRoleSlave then
             if n_MasterReferent (h node) \<noteq> n_ID (h master) then place_set h master nodes attached
             else place_set h master nodes c
           else place_set h master nodes attached)"

text \<open>\<open>None\<close> is the use of the \<^verbatim>\<open>nil\<close> master of a set for which no master was chosen.\<close>

fun Ctx_PlaceSlaves_loop :: "heap \<Rightarrow> string list \<Rightarrow> Ctx \<Rightarrow> Ctx option" where
  "Ctx_PlaceSlaves_loop h [] c = Some c"
| "Ctx_PlaceSlaves_loop h (ssName # sss) c =
     (case (x_newMastersBySts c ssName, slice_at (x_nodes c) ssName) of
        (None, []) \<Rightarrow> Ctx_PlaceSlaves_loop h sss c
      | (None, _ # _) \<Rightarrow> None
      | (Some master, nodes) \<Rightarrow> Ctx_PlaceSlaves_loop h sss (place_set h master nodes c))"

definition Ctx_PlaceSlaves :: "ctx_orders \<Rightarrow> heap \<Rightarrow> Ctx \<Rightarrow> (err option \<times> Ctx) option" where
  "Ctx_PlaceSlaves co h c =
     (let c = c\<lparr>x_bestEffort := True\<rparr>
      in map_option (\<lambda>c. (None, c)) (Ctx_PlaceSlaves_loop h (co_nodes co (x_nodes c)) c))"

definition GetCurrentMasters :: "Ctx \<Rightarrow> Nodes" where "GetCurrentMasters c = x_currentMasters c"

definition GetNewMasters :: "ctx_orders \<Rightarrow> Ctx \<Rightarrow> Nodes" where
  "GetNewMasters co c = map (\<lambda>k. the (x_newMastersBySts c k)) (co_masters co (x_newMastersBySts c))"

definition GetSlaves :: "Ctx \<Rightarrow> nodes_by" where "GetSlaves c = x_slavesByMaster c"

definition GetStatefulsetNodes :: "Ctx \<Rightarrow> nodes_by" where "GetStatefulsetNodes c = x_nodes c"

fun attach_slaves :: "env \<Rightarrow> nref \<Rightarrow> Nodes \<Rightarrow> err option \<Rightarrow> world \<Rightarrow> err option \<times> world" where
  "attach_slaves env masterNode [] globalErr w = (globalErr, w)"
| "attach_slaves env masterNode (slave # slaves) globalErr w =
     (case AttachSlaveToMaster env slave (n_ID (w_heap w masterNode)) w of
        (err, w) \<Rightarrow> attach_slaves env masterNode slaves (if err \<noteq> None then err else globalErr) w)"

fun AttachingSlavesToMaster_loop :: "env \<Rightarrow> Ctx \<Rightarrow> string list \<Rightarrow> err option \<Rightarrow> world \<Rightarrow> err option \<times> world" where
  "AttachingSlavesToMaster_loop env c [] globalErr w = (globalErr, w)"
| "AttachingSlavesToMaster_loop env c (masterID # ids) globalErr w =
     (case GetNodeByID (x_cluster c) masterID of
        (Some masterNode, None) \<Rightarrow>
          (case attach_slaves env masterNode (slice_at (x_slavesByMaster c) masterID) globalErr w of
             (globalErr, w) \<Rightarrow> AttachingSlavesToMaster_loop env c ids globalErr w)
      | _ \<Rightarrow> AttachingSlavesToMaster_loop env c ids globalErr w)"

definition AttachingSlavesToMaster :: "env \<Rightarrow> ctx_orders \<Rightarrow> Ctx \<Rightarrow> world \<Rightarrow> err option \<times> world" where
  "AttachingSlavesToMaster env co c w = AttachingSlavesToMaster_loop env c (co_nodes co (x_slavesByMaster c)) None w"

section \<open>Lemmas\<close>

definition sts_of :: "heap \<Rightarrow> Cluster \<Rightarrow> nref \<Rightarrow> string option" where
  "sts_of h cluster r = (case GetNodeByID cluster (n_ID (h r)) of (Some cnode, None) \<Rightarrow> Some (sts_name h cnode) | _ \<Rightarrow> None)"

lemma sortRedisNodeByStatefulSet_loop_spec:
  "sortRedisNodeByStatefulSet_loop h nodes c m = (m', c') \<Longrightarrow>
   (\<forall>v. slice_at m' v = slice_at m v @ filter (\<lambda>r. sts_of h (x_cluster c) r = Some v) nodes) \<and>
   dom m' = dom m \<union> {v. \<exists>r \<in> set nodes. sts_of h (x_cluster c) r = Some v} \<and>
   c' = c\<lparr>x_currentMasters := x_currentMasters c @ filter (\<lambda>r. sts_of h (x_cluster c) r \<noteq> None \<and> IsMasterWithSlot (h r)) nodes\<rparr>"
proof (induction nodes arbitrary: c m)
  case (Cons r nodes)
  show ?case
  proof (cases "sts_of h (x_cluster c) r")
    case None
    then have "sortRedisNodeByStatefulSet_loop h (r # nodes) c m = sortRedisNodeByStatefulSet_loop h nodes c m"
      by (auto simp: sts_of_def split: prod.splits option.splits)
    with None Cons show ?thesis by auto
  next
    case (Some v)
    define m1 where "m1 = map_append (if m v = None then m(v \<mapsto> []) else m) v [r]"
    define c1 where "c1 = (if IsMasterWithSlot (h r) then c\<lparr>x_currentMasters := x_currentMasters c @ [r]\<rparr> else c)"
    have "sortRedisNodeByStatefulSet_loop h (r # nodes) c m = sortRedisNodeByStatefulSet_loop h nodes c1 m1"
      using Some by (auto simp: sts_of_def m1_def c1_def IsMasterWithSlot_def Let_def split: prod.splits option.splits)
    with Cons have IH: "(\<forall>v. slice_at m' v = slice_at m1 v @ filter (\<lambda>r. sts_of h (x_cluster c1) r = Some v) nodes) \<and>
       dom m' = dom m1 \<union> {v. \<exists>r \<in> set nodes. sts_of h (x_cluster c1) r = Some v} \<and>
       c' = c1\<lparr>x_currentMasters := x_currentMasters c1 @ filter (\<lambda>r. sts_of h (x_cluster c1) r \<noteq> None \<and> IsMasterWithSlot (h r)) nodes\<rparr>"
      by simp
    have c1: "x_cluster c1 = x_cluster c" by (simp add: c1_def)
    have s1: "slice_at m1 v' = slice_at m v' @ (if v' = v then [r] else [])" for v'
      by (auto simp: m1_def slice_at_def map_append_def)
    have d1: "dom m1 = insert v (dom m)" by (auto simp: m1_def)
    have "\<forall>v'. slice_at m' v' = slice_at m v' @ filter (\<lambda>r. sts_of h (x_cluster c) r = Some v') (r # nodes)"
      using IH Some by (simp add: c1 s1)
    moreover have "dom m' = dom m \<union> {v. \<exists>r \<in> set (r # nodes). sts_of h (x_cluster c) r = Some v}"
      using IH Some by (auto simp: c1 d1)
    moreover have "c' = c\<lparr>x_currentMasters := x_currentMasters c @ filter (\<lambda>r. sts_of h (x_cluster c) r \<noteq> None \<and> IsMasterWithSlot (h r)) (r # nodes)\<rparr>"
      using IH Some by (simp add: c1) (simp add: c1_def)
    ultimately show ?thesis by blast
  qed
qed simp

lemma NewCtx_spec:
  fixes h ha cl nodes n name
  defines "c \<equiv> NewCtx h ha cl nodes n name"
  shows "slice_at (x_nodes c) v = filter (\<lambda>r. sts_of h cl r = Some v) nodes"
    and "dom (x_nodes c) = {v. \<exists>r \<in> set nodes. sts_of h cl r = Some v}"
    and "x_currentMasters c = filter (\<lambda>r. sts_of h cl r \<noteq> None \<and> IsMasterWithSlot (h r)) nodes"
    and "x_newMastersBySts c = Map.empty" "x_slavesByMaster c = Map.empty" "\<not> x_bestEffort c" "x_cluster c = cl"
    and "x_haconfig c = ha" "x_hastatus c = c_HaStatus cl" "x_expectedMasterNum c = n" "x_clusterName c = name"
proof -
  define c0 where "c0 = \<lparr>x_expectedMasterNum = n, x_clusterName = name, x_cluster = cl, x_nodes = Map.empty,
      x_currentMasters = [], x_newMastersBySts = Map.empty, x_slavesByMaster = Map.empty, x_bestEffort = False,
      x_haconfig = ha, x_hastatus = c_HaStatus cl\<rparr>"
  obtain m' c' where l: "sortRedisNodeByStatefulSet_loop h nodes c0 Map.empty = (m', c')" by (metis surj_pair)
  then have c: "c = c'\<lparr>x_nodes := m'\<rparr>" by (simp add: c_def NewCtx_def c0_def sortRedisNodeByStatefulSet_def)
  from sortRedisNodeByStatefulSet_loop_spec [OF l] have
    s: "slice_at m' v = filter (\<lambda>r. sts_of h cl r = Some v) nodes"
       "dom m' = {v. \<exists>r \<in> set nodes. sts_of h cl r = Some v}"
    and c': "c' = c0\<lparr>x_currentMasters := filter (\<lambda>r. sts_of h cl r \<noteq> None \<and> IsMasterWithSlot (h r)) nodes\<rparr>"
    by (simp_all add: c0_def)
  show "slice_at (x_nodes c) v = filter (\<lambda>r. sts_of h cl r = Some v) nodes" using s(1) by (simp add: c)
  show "dom (x_nodes c) = {v. \<exists>r \<in> set nodes. sts_of h cl r = Some v}" using s(2) by (simp add: c)
  show "x_currentMasters c = filter (\<lambda>r. sts_of h cl r \<noteq> None \<and> IsMasterWithSlot (h r)) nodes"
    "x_newMastersBySts c = Map.empty" "x_slavesByMaster c = Map.empty" "\<not> x_bestEffort c" "x_cluster c = cl"
    "x_haconfig c = ha" "x_hastatus c = c_HaStatus cl" "x_expectedMasterNum c = n" "x_clusterName c = name"
    by (simp_all add: c c') (simp_all add: c0_def)
qed

lemma finite_NewCtx_nodes: "finite (dom (x_nodes (NewCtx h ha cl nodes n name)))"
proof -
  have "dom (x_nodes (NewCtx h ha cl nodes n name)) \<subseteq> (\<lambda>r. the (sts_of h cl r)) ` set nodes"
    by (auto simp: NewCtx_spec image_iff) (metis option.sel)
  then show ?thesis by (rule finite_subset) simp
qed

text \<open>The contexts in which a master can be placed without a panic, as \<^verbatim>\<open>NewCtx\<close> makes them.\<close>

definition ctx_ok :: "ctx_orders \<Rightarrow> heap \<Rightarrow> Ctx \<Rightarrow> bool" where
  "ctx_ok co h c \<longleftrightarrow>
     (\<exists>ha. x_haconfig c = Some ha \<and> (ha_HaEnabled ha \<and> x_hastatus c = HaStatusCreating \<longrightarrow> co_zones co (ha_ZonesInfo ha) \<noteq> [])) \<and>
     (\<forall>v \<in> dom (x_nodes c). slice_at (x_nodes c) v \<noteq> []) \<and>
     (\<forall>v. \<forall>r \<in> set (slice_at (x_nodes c) v). IsMasterWithSlot (h r) \<longrightarrow> r \<in> set (x_currentMasters c))"

lemma NewCtx_ok:
  assumes "ha_HaEnabled ha \<and> c_HaStatus cl = HaStatusCreating \<longrightarrow> co_zones co (ha_ZonesInfo ha) \<noteq> []"
  shows "ctx_ok co h (NewCtx h (Some ha) cl nodes n name)"
proof -
  have "slice_at (x_nodes (NewCtx h (Some ha) cl nodes n name)) v \<noteq> []" if "v \<in> dom (x_nodes (NewCtx h (Some ha) cl nodes n name))" for v
    using that unfolding NewCtx_spec(2) by (auto simp: NewCtx_spec(1) filter_empty_conv)
  then show ?thesis using assms unfolding ctx_ok_def by (simp add: NewCtx_spec)
qed

definition ha_creating :: "Ctx \<Rightarrow> bool" where
  "ha_creating c \<longleftrightarrow> (case x_haconfig c of None \<Rightarrow> False | Some ha \<Rightarrow> ha_HaEnabled ha \<and> x_hastatus c = HaStatusCreating)"

definition zone_of :: "ctx_orders \<Rightarrow> Ctx \<Rightarrow> nat \<Rightarrow> string" where
  "zone_of co c i = (let zones = sort (co_zones co (ha_ZonesInfo (the (x_haconfig c)))) in zones ! (i mod length zones))"

text \<open>What makes the placement of the \<open>i\<close>-th master fail.\<close>

definition sts_problem :: "ctx_orders \<Rightarrow> heap \<Rightarrow> Ctx \<Rightarrow> nat \<Rightarrow> err option" where
  "sts_problem co h c i =
     (let name = ClusterStatefulSetName (x_clusterName c) (int i); ns = slice_at (x_nodes c) name;
          masters = filter (\<lambda>r. IsMasterWithSlot (h r)) ns
      in if name \<notin> dom (x_nodes c) then Some (Errorf ''missing statefulset %s'' [name])
         else if length masters > 1 then Some (Errorf ''split brain: %s'' [name])
         else if masters = [] \<and> ha_creating c \<and> (\<forall>r \<in> set ns. n_Zonename (h r) \<noteq> zone_of co c i)
         then Some (Errorf ''unable to place master for statefulset %s'' [name])
         else None)"

lemma free_host_spec:
  "(case free_host h ms ns of
      Some r \<Rightarrow> r \<in> set ns \<and> (\<forall>m \<in> set ms. n_NodeName (h m) \<noteq> n_NodeName (h r))
    | None \<Rightarrow> \<forall>r \<in> set ns. \<exists>m \<in> set ms. n_NodeName (h m) = n_NodeName (h r))"
  by (induction ns) (auto simp: Nodes_GetNodesByFunc_def Let_def filter_empty_conv split: option.splits if_splits prod.splits)

definition hosts :: "heap \<Rightarrow> Ctx \<Rightarrow> string set" where
  "hosts h c = (\<lambda>r. n_NodeName (h r)) ` (set (x_currentMasters c) \<union> ran (x_newMastersBySts c))"

text \<open>The choice for a set without a master: in the zone whose turn it is, or on a host of its own.\<close>

lemma place_for_sts_spec:
  assumes ok: "ctx_ok co h c" and ord: "\<And>m. finite (dom m) \<Longrightarrow> range_order (co_masters co m) m" and fin: "finite (dom (x_newMastersBySts c))"
    and name: "name \<in> dom (x_nodes c)"
  defines "ns \<equiv> slice_at (x_nodes c) name"
  shows "if ha_creating c \<and> (\<forall>r \<in> set ns. n_Zonename (h r) \<noteq> zone_of co c i) then place_for_sts co h (int i) name c = Some (None, c)
    else \<exists>m be. place_for_sts co h (int i) name c = Some (Some m, c\<lparr>x_bestEffort := be\<rparr>) \<and> m \<in> set ns \<and> (x_bestEffort c \<longrightarrow> be) \<and>
      (if ha_creating c then n_Zonename (h m) = zone_of co c i else be \<or> n_NodeName (h m) \<notin> hosts h c)"
proof -
  from ok obtain ha where ha: "x_haconfig c = Some ha" "ha_HaEnabled ha \<and> x_hastatus c = HaStatusCreating \<longrightarrow> co_zones co (ha_ZonesInfo ha) \<noteq> []"
    by (auto simp: ctx_ok_def)
  have ne: "ns \<noteq> []" using ok name by (simp add: ctx_ok_def ns_def)
  show ?thesis
  proof (cases "ha_creating c")
    case True
    then have en: "ha_HaEnabled ha" "x_hastatus c = HaStatusCreating" "co_zones co (ha_ZonesInfo ha) \<noteq> []" using ha by (simp_all add: ha_creating_def)
    have "int i mod int (length (co_zones co (ha_ZonesInfo ha))) = int (i mod length (co_zones co (ha_ZonesInfo ha)))" by (simp add: zmod_int)
    then have eq: "place_for_sts co h (int i) name c = Some (find (\<lambda>r. n_Zonename (h r) = zone_of co c i) ns, c)"
      using ha(1) en by (simp add: place_for_sts_def PlaceMastersHA_def zone_of_def Let_def ns_def)
    show ?thesis
    proof (cases "find (\<lambda>r. n_Zonename (h r) = zone_of co c i) ns")
      case None
      then show ?thesis using eq True by (auto simp: find_None_iff)
    next
      case (Some m)
      then have "m \<in> set ns" "n_Zonename (h m) = zone_of co c i" by (auto simp: find_Some_iff)
      then show ?thesis using eq True Some by (auto intro!: exI [of _ m] exI [of _ "x_bestEffort c"])
    qed
  next
    case False
    define ms where "ms = x_currentMasters c @ map (\<lambda>k. the (x_newMastersBySts c k)) (co_masters co (x_newMastersBySts c))"
    have "set (co_masters co (x_newMastersBySts c)) = dom (x_newMastersBySts c)" using ord [OF fin] by (simp add: range_order_def)
    moreover have "ran (x_newMastersBySts c) = (\<lambda>k. the (x_newMastersBySts c k)) ` dom (x_newMastersBySts c)"
      by (force simp: ran_def dom_def image_iff)
    ultimately have "set ms = set (x_currentMasters c) \<union> ran (x_newMastersBySts c)"
      unfolding ms_def by simp
    then have hosts: "hosts h c = (\<lambda>r. n_NodeName (h r)) ` set ms" by (simp add: hosts_def)
    have "\<not> (ha_HaEnabled ha \<and> x_hastatus c = HaStatusCreating)" using False ha(1) by (simp add: ha_creating_def)
    then have eq: "place_for_sts co h (int i) name c = map_option (\<lambda>(m, c). (Some m, c)) (Ctx_PlaceMasters co h name c)"
      unfolding place_for_sts_def ha(1) option.case by (rule if_not_P)
    note spec = free_host_spec [where h = h and ms = ms and ns = ns]
    have pm: "Ctx_PlaceMasters co h name c = (case free_host h ms ns of Some cNode \<Rightarrow> Some (cNode, c)
         | None \<Rightarrow> (case ns of [] \<Rightarrow> None | n # ns \<Rightarrow> Some (n, c\<lparr>x_bestEffort := True\<rparr>)))"
      unfolding Ctx_PlaceMasters_def ms_def ns_def Let_def ..
    show ?thesis
    proof (cases "free_host h ms ns")
      case None
      then show ?thesis using eq pm False ne by (cases ns) auto
    next
      case (Some m)
      then have "m \<in> set ns" "n_NodeName (h m) \<notin> hosts h c" using spec unfolding hosts by auto
      then show ?thesis using False eq pm Some by (auto intro!: exI [of _ m] exI [of _ "x_bestEffort c"])
    qed
  qed
qed

lemma dispatch_sts_spec:
  assumes ok: "ctx_ok co h c" and ord: "\<And>m. finite (dom m) \<Longrightarrow> range_order (co_masters co m) m" and fin: "finite (dom (x_newMastersBySts c))"
  defines "name \<equiv> \<lambda>i. ClusterStatefulSetName (x_clusterName c) (int i)"
  shows "if sts_problem co h c i \<noteq> None then dispatch_sts co h (int i) c = Some (sts_problem co h c i, c)
    else \<exists>m be. dispatch_sts co h (int i) c = Some (None, c\<lparr>x_newMastersBySts := (x_newMastersBySts c)(name i \<mapsto> m), x_bestEffort := be\<rparr>) \<and>
      m \<in> set (slice_at (x_nodes c) (name i)) \<and> (x_bestEffort c \<longrightarrow> be) \<and>
      (\<forall>r \<in> set (slice_at (x_nodes c) (name i)). IsMasterWithSlot (h r) \<longrightarrow> r = m) \<and>
      (IsMasterWithSlot (h m) \<or> (if ha_creating c then n_Zonename (h m) = zone_of co c i else be \<or> n_NodeName (h m) \<notin> hosts h c))"
proof (cases "name i \<in> dom (x_nodes c)")
  case False
  then have "x_nodes c (name i) = None" by (simp add: domIff)
  then show ?thesis by (simp add: sts_problem_def dispatch_sts_def name_def Let_def domIff)
next
  case True
  define ns where "ns = slice_at (x_nodes c) (name i)"
  have ns: "x_nodes c (name i) = Some ns" using True by (auto simp: ns_def slice_at_def)
  note place = place_for_sts_spec [OF ok ord fin True, of i, folded ns_def]
  consider "filter (\<lambda>r. IsMasterWithSlot (h r)) ns = []" | m where "filter (\<lambda>r. IsMasterWithSlot (h r)) ns = [m]"
    | m m' ms where "filter (\<lambda>r. IsMasterWithSlot (h r)) ns = m # m' # ms" by (metis list.exhaust)
  then show ?thesis
  proof cases
    case 1
    then have none: "\<not> IsMasterWithSlot (h r)" if "r \<in> set ns" for r using that by (auto simp: filter_empty_conv)
    show ?thesis
    proof (cases "ha_creating c \<and> (\<forall>r \<in> set ns. n_Zonename (h r) \<noteq> zone_of co c i)")
      case bad: True
      with 1 ns True place show ?thesis by (simp add: sts_problem_def dispatch_sts_def ns_def name_def Let_def)
    next
      case good: False
      with place obtain m be where m: "place_for_sts co h (int i) (name i) c = Some (Some m, c\<lparr>x_bestEffort := be\<rparr>)" "m \<in> set ns"
        "x_bestEffort c \<longrightarrow> be" "if ha_creating c then n_Zonename (h m) = zone_of co c i else be \<or> n_NodeName (h m) \<notin> hosts h c" by auto
      have "sts_problem co h c i = None" using good 1 True by (auto simp: sts_problem_def ns_def name_def Let_def)
      moreover have "dispatch_sts co h (int i) c = Some (None, c\<lparr>x_newMastersBySts := (x_newMastersBySts c)(name i \<mapsto> m), x_bestEffort := be\<rparr>)"
        using 1 ns m(1) by (simp add: dispatch_sts_def name_def Let_def)
      ultimately show ?thesis using m none unfolding ns_def by (auto intro!: exI [of _ m] exI [of _ be])
    qed
  next
    case (2 m)
    from arg_cong [OF this, of set] have "{r \<in> set ns. IsMasterWithSlot (h r)} = {m}" by simp
    then have m: "m \<in> set ns" "IsMasterWithSlot (h m)" "\<forall>r \<in> set ns. IsMasterWithSlot (h r) \<longrightarrow> r = m" by auto
    moreover have "sts_problem co h c i = None" using 2 True by (simp add: sts_problem_def ns_def name_def Let_def)
    moreover have "dispatch_sts co h (int i) c = Some (None, c\<lparr>x_newMastersBySts := (x_newMastersBySts c)(name i \<mapsto> m), x_bestEffort := x_bestEffort c\<rparr>)"
      using 2 ns by (simp add: dispatch_sts_def name_def Let_def)
    ultimately show ?thesis unfolding ns_def by (subst if_not_P) blast+
  next
    case 3
    with ns True show ?thesis by (simp add: sts_problem_def dispatch_sts_def ns_def name_def Let_def)
  qed
qed

lemma sts_problem_cong:
  "x_nodes c' = x_nodes c \<Longrightarrow> x_clusterName c' = x_clusterName c \<Longrightarrow> x_haconfig c' = x_haconfig c \<Longrightarrow> x_hastatus c' = x_hastatus c \<Longrightarrow>
   sts_problem co h c' = sts_problem co h c"
  by (rule ext) (simp add: sts_problem_def ha_creating_def zone_of_def Let_def cong: option.case_cong)

text \<open>
  The masters chosen so far, as the loop keeps them: \<open>placed co h c is\<close> says that the sets of the indices \<open>is\<close>
  have a master among their pods, the one that serves slots if there is one, otherwise in the right
  zone (or, without best effort, on a host that no other master uses).
\<close>

definition master_ok :: "ctx_orders \<Rightarrow> heap \<Rightarrow> Ctx \<Rightarrow> nat \<Rightarrow> nref \<Rightarrow> bool" where
  "master_ok co h c i m \<longleftrightarrow>
     (let ns = slice_at (x_nodes c) (ClusterStatefulSetName (x_clusterName c) (int i)) in
      m \<in> set ns \<and> (\<forall>r \<in> set ns. IsMasterWithSlot (h r) \<longrightarrow> r = m) \<and>
      (IsMasterWithSlot (h m) \<or> (ha_creating c \<longrightarrow> n_Zonename (h m) = zone_of co c i)))"

definition placed :: "ctx_orders \<Rightarrow> heap \<Rightarrow> Ctx \<Rightarrow> nat set \<Rightarrow> bool" where
  "placed co h c is \<longleftrightarrow>
     dom (x_newMastersBySts c) = (\<lambda>i. ClusterStatefulSetName (x_clusterName c) (int i)) ` is \<and>
     (\<forall>i \<in> is. \<exists>m. x_newMastersBySts c (ClusterStatefulSetName (x_clusterName c) (int i)) = Some m \<and> master_ok co h c i m)"

definition spread :: "heap \<Rightarrow> Ctx \<Rightarrow> bool" where
  "spread h c \<longleftrightarrow>
     (\<forall>s m. x_newMastersBySts c s = Some m \<longrightarrow> \<not> IsMasterWithSlot (h m) \<longrightarrow>
        (\<forall>r \<in> set (x_currentMasters c). n_NodeName (h r) \<noteq> n_NodeName (h m)) \<and>
        (\<forall>s' m'. s' \<noteq> s \<longrightarrow> x_newMastersBySts c s' = Some m' \<longrightarrow> n_NodeName (h m') \<noteq> n_NodeName (h m)))"

lemma ClusterStatefulSetName_inj: "ClusterStatefulSetName n (int i) = ClusterStatefulSetName n (int j) \<longleftrightarrow> i = j"
  by (simp add: ClusterStatefulSetName_def Itoa_inj)

definition chosen :: "Ctx \<Rightarrow> (string \<rightharpoonup> nref) \<Rightarrow> bool \<Rightarrow> Ctx" where
  "chosen c M be = c\<lparr>x_newMastersBySts := M, x_bestEffort := be\<rparr>"

lemma chosen_sel [simp]:
  "x_nodes (chosen c M be) = x_nodes c" "x_clusterName (chosen c M be) = x_clusterName c" "x_haconfig (chosen c M be) = x_haconfig c"
  "x_hastatus (chosen c M be) = x_hastatus c" "x_currentMasters (chosen c M be) = x_currentMasters c" "x_cluster (chosen c M be) = x_cluster c"
  "x_newMastersBySts (chosen c M be) = M" "x_bestEffort (chosen c M be) = be" "chosen (chosen c M be) M' be' = chosen c M' be'"
  "x_slavesByMaster (chosen c M be) = x_slavesByMaster c"
  by (simp_all add: chosen_def)

lemma chosen_inputs [simp]:
  "ctx_ok co h (chosen c M be) = ctx_ok co h c" "ha_creating (chosen c M be) = ha_creating c" "zone_of co (chosen c M be) = zone_of co c"
  "sts_problem co h (chosen c M be) = sts_problem co h c" "master_ok co h (chosen c M be) = master_ok co h c"
proof -
  show ha [simp]: "ha_creating (chosen c M be) = ha_creating c" by (simp add: ha_creating_def cong: option.case_cong)
  show z [simp]: "zone_of co (chosen c M be) = zone_of co c" by (rule ext) (simp add: zone_of_def)
  show "ctx_ok co h (chosen c M be) = ctx_ok co h c" by (simp add: ctx_ok_def)
  show "sts_problem co h (chosen c M be) = sts_problem co h c" by (rule sts_problem_cong) simp_all
  show "master_ok co h (chosen c M be) = master_ok co h c" by (intro ext) (simp add: master_ok_def)
qed

lemma placed_step:
  assumes "placed co h c D" "master_ok co h c i m"
  shows "placed co h (chosen c ((x_newMastersBySts c)(ClusterStatefulSetName (x_clusterName c) (int i) \<mapsto> m)) be) (insert i D)"
  using assms unfolding placed_def by (auto simp: ClusterStatefulSetName_inj)

lemma spread_step:
  assumes "spread h c" "IsMasterWithSlot (h m) \<and> m \<in> set (x_currentMasters c) \<or> n_NodeName (h m) \<notin> hosts h c"
  shows "spread h (chosen c ((x_newMastersBySts c)(s \<mapsto> m)) be)"
  unfolding spread_def
proof (intro allI impI)
  fix s1 m1
  assume m1: "x_newMastersBySts (chosen c ((x_newMastersBySts c)(s \<mapsto> m)) be) s1 = Some m1" "\<not> IsMasterWithSlot (h m1)"
  show "(\<forall>r \<in> set (x_currentMasters (chosen c ((x_newMastersBySts c)(s \<mapsto> m)) be)). n_NodeName (h r) \<noteq> n_NodeName (h m1)) \<and>
      (\<forall>s' m'. s' \<noteq> s1 \<longrightarrow> x_newMastersBySts (chosen c ((x_newMastersBySts c)(s \<mapsto> m)) be) s' = Some m' \<longrightarrow> n_NodeName (h m') \<noteq> n_NodeName (h m1))"
  proof (cases "s1 = s")
    case True
    with m1 assms(2) have "n_NodeName (h m1) \<notin> hosts h c" "m1 = m" by auto
    then have "n_NodeName (h r) \<noteq> n_NodeName (h m1)" if "r \<in> set (x_currentMasters c) \<or> r \<in> ran (x_newMastersBySts c)" for r
      using that unfolding hosts_def by (metis (no_types, lifting) Un_iff imageI)
    then show ?thesis using True by (auto intro: ranI)
  next
    case False
    with m1 have m1': "x_newMastersBySts c s1 = Some m1" by simp
    then have "m1 \<in> ran (x_newMastersBySts c)" by (auto simp: ran_def)
    then have "n_NodeName (h m1) \<in> hosts h c" by (simp add: hosts_def)
    then show ?thesis using assms m1' m1(2) False unfolding spread_def by (auto split: if_splits)
  qed
qed

lemma dispatch_sts_step:
  assumes ok: "ctx_ok co h c" and ord: "\<And>m. finite (dom m) \<Longrightarrow> range_order (co_masters co m) m"
    and pl: "placed co h c D" "finite D" and none: "sts_problem co h c i = None"
  shows "\<exists>M be. dispatch_sts co h (int i) c = Some (None, chosen c M be) \<and> (x_bestEffort c \<longrightarrow> be) \<and>
    placed co h (chosen c M be) (insert i D) \<and> (\<not> ha_creating c \<and> \<not> be \<and> spread h c \<longrightarrow> spread h (chosen c M be))"
proof -
  define name where "name = ClusterStatefulSetName (x_clusterName c) (int i)"
  have "finite (dom (x_newMastersBySts c))" using pl by (simp add: placed_def)
  from dispatch_sts_spec [OF ok ord this, of i] none obtain m be where
    d: "dispatch_sts co h (int i) c = Some (None, c\<lparr>x_newMastersBySts := (x_newMastersBySts c)(name \<mapsto> m), x_bestEffort := be\<rparr>)"
    and m: "m \<in> set (slice_at (x_nodes c) name)" "x_bestEffort c \<longrightarrow> be"
      "\<forall>r \<in> set (slice_at (x_nodes c) name). IsMasterWithSlot (h r) \<longrightarrow> r = m"
      "IsMasterWithSlot (h m) \<or> (if ha_creating c then n_Zonename (h m) = zone_of co c i else be \<or> n_NodeName (h m) \<notin> hosts h c)"
    unfolding name_def by auto
  define M where "M = (x_newMastersBySts c)(name \<mapsto> m)"
  have "master_ok co h c i m" unfolding master_ok_def Let_def name_def [symmetric] using m by presburger
  then have "placed co h (chosen c M be) (insert i D)" unfolding M_def name_def by (rule placed_step [OF pl(1)])
  moreover have "spread h (chosen c M be)" if s: "\<not> ha_creating c" "\<not> be" "spread h c"
  proof -
    have "m \<in> set (x_currentMasters c)" if "IsMasterWithSlot (h m)" using ok m(1) that unfolding ctx_ok_def by blast
    then show ?thesis unfolding M_def using m(4) s by (intro spread_step) auto
  qed
  ultimately show ?thesis using d m(2) unfolding chosen_def [symmetric] M_def [symmetric] by blast
qed

lemma Ctx_DispatchMasters_loop_spec:
  assumes ord: "\<And>m. finite (dom m) \<Longrightarrow> range_order (co_masters co m) m"
  shows "ctx_ok co h c \<Longrightarrow> placed co h c D \<Longrightarrow> finite D \<Longrightarrow> \<exists>e M be. Ctx_DispatchMasters_loop co h is c = Some (e, chosen c M be) \<and>
    e = (case find (\<lambda>i. sts_problem co h c i \<noteq> None) is of None \<Rightarrow> None | Some i \<Rightarrow> sts_problem co h c i) \<and> (x_bestEffort c \<longrightarrow> be) \<and>
    (e = None \<longrightarrow> placed co h (chosen c M be) (D \<union> set is) \<and> (\<not> ha_creating c \<and> \<not> be \<and> spread h c \<longrightarrow> spread h (chosen c M be)))"
proof (induction "is" arbitrary: c D)
  case Nil
  have "chosen c (x_newMastersBySts c) (x_bestEffort c) = c" by (simp add: chosen_def)
  with Nil.prems show ?case by (intro exI [of _ None] exI [of _ "x_newMastersBySts c"] exI [of _ "x_bestEffort c"]) (metis (no_types, lifting) Ctx_DispatchMasters_loop.simps(1) find.simps(1) option.case(1) list.set(1) sup_bot_right)
next
  case (Cons i "is")
  show ?case
  proof (cases "sts_problem co h c i")
    case (Some e)
    have "finite (dom (x_newMastersBySts c))" using Cons.prems by (simp add: placed_def)
    from dispatch_sts_spec [OF Cons.prems(1) ord this, of i] Some have "dispatch_sts co h (int i) c = Some (Some e, c)" by simp
    moreover have "chosen c (x_newMastersBySts c) (x_bestEffort c) = c" by (simp add: chosen_def)
    ultimately show ?thesis using Some by (intro exI [of _ "Some e"] exI [of _ "x_newMastersBySts c"] exI [of _ "x_bestEffort c"]) simp
  next
    case None
    from dispatch_sts_step [OF Cons.prems(1) ord Cons.prems(2,3) None] obtain M be where
      d: "dispatch_sts co h (int i) c = Some (None, chosen c M be)" "x_bestEffort c \<longrightarrow> be" "placed co h (chosen c M be) (insert i D)"
        "\<not> ha_creating c \<and> \<not> be \<and> spread h c \<longrightarrow> spread h (chosen c M be)" by blast
    have "ctx_ok co h (chosen c M be)" "finite (insert i D)" using Cons.prems by simp_all
    from Cons.IH [OF this(1) d(3) this(2), unfolded chosen_inputs chosen_sel] obtain e M' be' where
      l: "Ctx_DispatchMasters_loop co h is (chosen c M be) = Some (e, chosen c M' be')" and
      e: "e = (case find (\<lambda>i. sts_problem co h c i \<noteq> None) is of None \<Rightarrow> None | Some i \<Rightarrow> sts_problem co h c i)" and
      r: "be \<longrightarrow> be'" "e = None \<longrightarrow> placed co h (chosen c M' be') (insert i D \<union> set is) \<and>
         (\<not> ha_creating c \<and> \<not> be' \<and> spread h (chosen c M be) \<longrightarrow> spread h (chosen c M' be'))"
      by (elim exE conjE) (rule that)
    have "Ctx_DispatchMasters_loop co h (i # is) c = Some (e, chosen c M' be')" using d(1) l by simp
    moreover have "find (\<lambda>i. sts_problem co h c i \<noteq> None) (i # is) = find (\<lambda>i. sts_problem co h c i \<noteq> None) is" using None by simp
    moreover have "insert i D \<union> set is = D \<union> set (i # is)" by simp
    ultimately show ?thesis using e r d(2,4) by (intro exI [of _ e] exI [of _ M'] exI [of _ be']) (metis (no_types, lifting))
  qed
qed

text \<open>Which pods of a set have to be attached to its master.\<close>

definition to_attach :: "heap \<Rightarrow> nref \<Rightarrow> nref \<Rightarrow> bool" where
  "to_attach h m r \<longleftrightarrow> n_IP (h r) \<noteq> n_IP (h m) \<and> \<not> (GetRole (h r) = RedisClusterNodeRoleSlave \<and> n_MasterReferent (h r) = n_ID (h m))"

lemma place_set_spec:
  "\<exists>be sl. place_set h m ns c = c\<lparr>x_bestEffort := be, x_slavesByMaster := sl\<rparr> \<and>
     (\<forall>i. slice_at sl i = slice_at (x_slavesByMaster c) i @ (if i = n_ID (h m) then filter (to_attach h m) ns else [])) \<and>
     dom sl \<subseteq> insert (n_ID (h m)) (dom (x_slavesByMaster c))"
proof (induction ns arbitrary: c)
  case Nil
  show ?case by (intro exI [of _ "x_bestEffort c"] exI [of _ "x_slavesByMaster c"]) auto
next
  case (Cons r ns)
  define be where "be = (if n_IP (h r) \<noteq> n_IP (h m) \<and> n_NodeName (h r) \<noteq> n_NodeName (h m) then False else x_bestEffort c)"
  define sl where "sl = (if to_attach h m r then map_append (x_slavesByMaster c) (n_ID (h m)) [r] else x_slavesByMaster c)"
  have "place_set h m (r # ns) c = place_set h m ns (c\<lparr>x_bestEffort := be, x_slavesByMaster := sl\<rparr>)"
    by (auto simp: be_def sl_def to_attach_def Let_def)
  moreover obtain be' sl' where IH: "place_set h m ns (c\<lparr>x_bestEffort := be, x_slavesByMaster := sl\<rparr>) = c\<lparr>x_bestEffort := be', x_slavesByMaster := sl'\<rparr>"
    "\<forall>i. slice_at sl' i = slice_at sl i @ (if i = n_ID (h m) then filter (to_attach h m) ns else [])" "dom sl' \<subseteq> insert (n_ID (h m)) (dom sl)"
    using Cons [of "c\<lparr>x_bestEffort := be, x_slavesByMaster := sl\<rparr>"] by auto
  moreover have "\<forall>i. slice_at sl' i = slice_at (x_slavesByMaster c) i @ (if i = n_ID (h m) then filter (to_attach h m) (r # ns) else [])"
    using IH(2) by (simp add: sl_def)
  moreover have "dom sl' \<subseteq> insert (n_ID (h m)) (dom (x_slavesByMaster c))" using IH(3) by (auto simp: sl_def split: if_splits)
  ultimately show ?case by (intro exI [of _ be'] exI [of _ sl']) simp
qed

lemma Ctx_PlaceSlaves_loop_spec:
  "if \<exists>s \<in> set ss. x_newMastersBySts c s = None \<and> slice_at (x_nodes c) s \<noteq> [] then Ctx_PlaceSlaves_loop h ss c = None
   else \<exists>be sl. Ctx_PlaceSlaves_loop h ss c = Some (c\<lparr>x_bestEffort := be, x_slavesByMaster := sl\<rparr>) \<and>
     (\<forall>i r. r \<in> set (slice_at sl i) \<longleftrightarrow> r \<in> set (slice_at (x_slavesByMaster c) i) \<or>
        (\<exists>s \<in> set ss. \<exists>m. x_newMastersBySts c s = Some m \<and> i = n_ID (h m) \<and> r \<in> set (slice_at (x_nodes c) s) \<and> to_attach h m r)) \<and>
     dom sl \<subseteq> dom (x_slavesByMaster c) \<union> (\<lambda>m. n_ID (h m)) ` ran (x_newMastersBySts c)"
proof (induction ss arbitrary: c)
  case Nil
  show ?case by (auto intro!: exI [of _ "x_bestEffort c"] exI [of _ "x_slavesByMaster c"])
next
  case (Cons s ss)
  show ?case
  proof (cases "x_newMastersBySts c s")
    case None
    with Cons [of c] show ?thesis by (cases "slice_at (x_nodes c) s") auto
  next
    case (Some m)
    obtain be sl where p: "place_set h m (slice_at (x_nodes c) s) c = c\<lparr>x_bestEffort := be, x_slavesByMaster := sl\<rparr>"
      "\<forall>i. slice_at sl i = slice_at (x_slavesByMaster c) i @ (if i = n_ID (h m) then filter (to_attach h m) (slice_at (x_nodes c) s) else [])"
      "dom sl \<subseteq> insert (n_ID (h m)) (dom (x_slavesByMaster c))"
      using place_set_spec by blast
    define c1 where "c1 = c\<lparr>x_bestEffort := be, x_slavesByMaster := sl\<rparr>"
    have l: "Ctx_PlaceSlaves_loop h (s # ss) c = Ctx_PlaceSlaves_loop h ss c1"
      using Some p(1) by (simp add: c1_def split: list.splits)
    have "m \<in> ran (x_newMastersBySts c)" using Some by (rule ranI)
    then have fin: "dom sl \<subseteq> dom (x_slavesByMaster c) \<union> (\<lambda>m. n_ID (h m)) ` ran (x_newMastersBySts c)" using p(3) by blast
    show ?thesis
    proof (cases "\<exists>s \<in> set ss. x_newMastersBySts c s = None \<and> slice_at (x_nodes c) s \<noteq> []")
      case True
      with Cons [of c1] l show ?thesis by (auto simp: c1_def)
    next
      case False
      with Cons [of c1] obtain be' sl' where r: "Ctx_PlaceSlaves_loop h ss c1 = Some (c1\<lparr>x_bestEffort := be', x_slavesByMaster := sl'\<rparr>)"
        "\<forall>i r. r \<in> set (slice_at sl' i) \<longleftrightarrow> r \<in> set (slice_at sl i) \<or>
          (\<exists>s \<in> set ss. \<exists>m. x_newMastersBySts c s = Some m \<and> i = n_ID (h m) \<and> r \<in> set (slice_at (x_nodes c) s) \<and> to_attach h m r)"
        "dom sl' \<subseteq> dom sl \<union> (\<lambda>m. n_ID (h m)) ` ran (x_newMastersBySts c)" by (auto simp: c1_def)
      have "\<not> (\<exists>s \<in> set (s # ss). x_newMastersBySts c s = None \<and> slice_at (x_nodes c) s \<noteq> [])" using False Some by simp
      moreover have "Ctx_PlaceSlaves_loop h (s # ss) c = Some (c\<lparr>x_bestEffort := be', x_slavesByMaster := sl'\<rparr>)" using l r(1) by (simp add: c1_def)
      moreover have "\<forall>i r. r \<in> set (slice_at sl' i) \<longleftrightarrow> r \<in> set (slice_at (x_slavesByMaster c) i) \<or>
          (\<exists>s \<in> set (s # ss). \<exists>m. x_newMastersBySts c s = Some m \<and> i = n_ID (h m) \<and> r \<in> set (slice_at (x_nodes c) s) \<and> to_attach h m r)"
        unfolding r(2) [rule_format] p(2) [rule_format] using Some by auto
      moreover have "dom sl' \<subseteq> dom (x_slavesByMaster c) \<union> (\<lambda>m. n_ID (h m)) ` ran (x_newMastersBySts c)" using fin r(3) by blast
      ultimately show ?thesis by (subst if_not_P) blast+
    qed
  qed
qed

section \<open>Attaching the slaves\<close>

lemma become_slave [simp]:
  "n_ID (become i RedisSlaveRole n) = n_ID n" "i \<noteq> ''-'' \<Longrightarrow> n_MasterReferent (become i RedisSlaveRole n) = i"
  "GetRole (become i RedisSlaveRole n) = RedisClusterNodeRoleSlave"
  by (simp_all add: become_def SetReferentMaster_def SetRole_def GetRole_def Let_def RedisSlaveRole_def RedisMasterRole_def)

lemma AttachSlaveToMaster_heap:
  "AttachSlaveToMaster env r i w = (e, w') \<Longrightarrow>
   w_heap w' = (if e = None then (w_heap w)(r := become i RedisSlaveRole (w_heap w r)) else w_heap w)"
proof -
  assume a: "AttachSlaveToMaster env r i w = (e, w')"
  obtain c err w1 where g: "cnx_Get env (IPPort (w_heap w r)) w = ((c, err), w1)" by (metis surj_pair)
  have w1 [simp]: "w_heap w1 = w_heap w" using cnx_Get_heap [of env "IPPort (w_heap w r)" w] by (simp add: g)
  define resp w2 where "resp = fst (do_cmd env (IPPort (w_heap w r)) [AStr ''CLUSTER'', AStr ''REPLICATE'', AStr i] w1)"
    and "w2 = snd (do_cmd env (IPPort (w_heap w r)) [AStr ''CLUSTER'', AStr ''REPLICATE'', AStr i] w1)"
  have w2: "w_heap w2 = w_heap w" by (simp add: w2_def do_cmd_def)
  define v where "v = ValidateResp env (Some resp) (IPPort (w_heap w r)) ''unable to run command REPLICATE'' w2"
  have v: "w_heap (snd v) = w_heap w" "fst v = None \<longleftrightarrow> reply_err resp = None" unfolding v_def ValidateResp_heap w2 ValidateResp_ok_iff by (rule refl)+
  have "(e, w') = (if err \<noteq> None then (err, w1) else if fst v \<noteq> None then (fst v, snd v)
      else if reply_err resp \<noteq> None then (err, snd v) else (None, set_node r (become i RedisSlaveRole) (snd v)))"
    using a unfolding AttachSlaveToMaster_def Let_def split_beta g resp_def w2_def v_def fst_conv snd_conv by (rule sym)
  then show ?thesis using v by (auto simp: set_node_def split: if_splits)
qed

text \<open>The slaves that were attached without an error have the master as their referent.\<close>

definition slave_of :: "node \<Rightarrow> string \<Rightarrow> bool" where
  "slave_of n i \<longleftrightarrow> GetRole n = RedisClusterNodeRoleSlave \<and> n_MasterReferent n = i"

lemma attach_slaves_spec:
  "attach_slaves env m rs g w = (None, w') \<Longrightarrow> n_ID (w_heap w m) = i \<Longrightarrow> i \<noteq> ''-'' \<Longrightarrow>
   g = None \<and> (\<forall>r. n_ID (w_heap w' r) = n_ID (w_heap w r)) \<and> (\<forall>r. r \<notin> set rs \<longrightarrow> w_heap w' r = w_heap w r) \<and>
   (\<forall>r. r \<in> set rs \<or> slave_of (w_heap w r) i \<longrightarrow> slave_of (w_heap w' r) i)"
proof (induction rs arbitrary: g w)
  case (Cons r rs)
  obtain e w1 where a: "AttachSlaveToMaster env r i w = (e, w1)" by (metis surj_pair)
  with Cons.prems have "attach_slaves env m rs (if e \<noteq> None then e else g) w1 = (None, w')" by simp
  note IH = Cons.IH [OF this _ Cons.prems(3)]
  have e: "e = None" using IH Cons.prems(2) AttachSlaveToMaster_heap [OF a] by (auto split: if_splits)
  then have h: "w_heap w1 = (w_heap w)(r := become i RedisSlaveRole (w_heap w r))" using AttachSlaveToMaster_heap [OF a] by simp
  then have "n_ID (w_heap w1 m) = i" using Cons.prems(2) by auto
  from IH [OF this] h e Cons.prems(3) show ?case by (auto simp: slave_of_def)
qed simp

text \<open>What no attachment changes.\<close>

definition static :: "node \<Rightarrow> string \<times> string \<times> slot list \<times> string" where
  "static n = (n_ID n, n_IP n, n_Slots n, n_StatefulSet n)"

lemma static_become [simp]: "static (become i RedisSlaveRole n) = static n"
  by (simp add: static_def become_def SetReferentMaster_def SetRole_def RedisSlaveRole_def RedisMasterRole_def Let_def)

lemma attach_slaves_static: "attach_slaves env m rs g w = (g', w') \<Longrightarrow> static (w_heap w' r) = static (w_heap w r)"
proof (induction rs arbitrary: g w)
  case (Cons s rs)
  obtain e w1 where a: "AttachSlaveToMaster env s (n_ID (w_heap w m)) w = (e, w1)" by (metis surj_pair)
  with Cons.prems have "attach_slaves env m rs (if e \<noteq> None then e else g) w1 = (g', w')" by simp
  from Cons.IH [OF this] AttachSlaveToMaster_heap [OF a] show ?case by auto
qed simp

lemma attach_slaves_ids: "attach_slaves env m rs g w = (g', w') \<Longrightarrow> n_ID (w_heap w' r) = n_ID (w_heap w r)"
  using attach_slaves_static [of env m rs g w g' w' r] by (simp add: static_def)

lemma AttachingSlavesToMaster_loop_static:
  "AttachingSlavesToMaster_loop env c ids g w = (g', w') \<Longrightarrow> static (w_heap w' r) = static (w_heap w r)"
proof (induction ids arbitrary: g w)
  case (Cons i ids)
  show ?case
  proof (cases "GetNodeByID (x_cluster c) i")
    case (Pair m e)
    show ?thesis
    proof (cases "m \<noteq> None \<and> e = None")
      case True
      obtain g1 w1 where a: "attach_slaves env (the m) (slice_at (x_slavesByMaster c) i) g w = (g1, w1)" by (metis surj_pair)
      with Cons.prems True Pair have "AttachingSlavesToMaster_loop env c ids g1 w1 = (g', w')" by auto
      from Cons.IH [OF this] attach_slaves_static [OF a] show ?thesis by simp
    next
      case False
      with Cons.prems Pair have "AttachingSlavesToMaster_loop env c ids g w = (g', w')" by (auto split: option.splits)
      then show ?thesis by (rule Cons.IH)
    qed
  qed
qed simp

text \<open>Servers that accept \<^verbatim>\<open>CLUSTER REPLICATE\<close> accept every attachment.\<close>

lemma AttachSlaveToMaster_ok:
  assumes "ping_returns env" and "\<And>h a i. \<exists>v. e_do env h a [AStr ''CLUSTER'', AStr ''REPLICATE'', AStr i] = RVal v"
  shows "fst (AttachSlaveToMaster env r i w) = None"
proof -
  have "fst (cnx_Get env (IPPort (w_heap w r)) w) = (Some (IPPort (w_heap w r)), None)"
    using assms(1) by (simp add: cnx_Get_def connect_eq ping_returns_def) (metis option.distinct(1))
  then obtain w1 where g: "cnx_Get env (IPPort (w_heap w r)) w = ((Some (IPPort (w_heap w r)), None), w1)" by (metis prod.collapse)
  obtain v where v: "e_do env (w_trace w1) (IPPort (w_heap w r)) [AStr ''CLUSTER'', AStr ''REPLICATE'', AStr i] = RVal v" using assms(2) by blast
  have "fst (ValidateResp env (Some (RVal v)) addr msg w2) = None" for addr msg w2 by (simp add: ValidateResp_ok_iff reply_err_def)
  then show ?thesis by (simp add: AttachSlaveToMaster_def g do_cmd_def v reply_err_def Let_def split_beta)
qed

lemma attach_slaves_ok:
  assumes "ping_returns env" and "\<And>h a i. \<exists>v. e_do env h a [AStr ''CLUSTER'', AStr ''REPLICATE'', AStr i] = RVal v"
  shows "fst (attach_slaves env m rs None w) = None"
proof (induction rs arbitrary: w)
  case (Cons r rs)
  obtain e w1 where a: "AttachSlaveToMaster env r (n_ID (w_heap w m)) w = (e, w1)" by (metis surj_pair)
  moreover have "e = None" using AttachSlaveToMaster_ok [OF assms, of r "n_ID (w_heap w m)" w] a by simp
  ultimately show ?case using Cons.IH [of w1] by simp
qed simp

lemma AttachingSlavesToMaster_ok:
  assumes "ping_returns env" and "\<And>h a i. \<exists>v. e_do env h a [AStr ''CLUSTER'', AStr ''REPLICATE'', AStr i] = RVal v"
  shows "fst (AttachingSlavesToMaster env co c w) = None"
proof -
  have "fst (AttachingSlavesToMaster_loop env c ids None w) = None" for ids
  proof (induction ids arbitrary: w)
    case (Cons i ids)
    have "fst (attach_slaves env m (slice_at (x_slavesByMaster c) i) None w) = None" for m by (rule attach_slaves_ok [OF assms])
    then have "g = None" if "attach_slaves env m (slice_at (x_slavesByMaster c) i) None w = (g, w1)" for m g w1 using that by (metis fst_conv)
    with Cons.IH show ?case by (auto split: prod.splits option.splits)
  qed simp
  then show ?thesis by (simp add: AttachingSlavesToMaster_def)
qed

lemma AttachingSlavesToMaster_loop_spec:
  assumes disj: "\<forall>i j r. r \<in> set (slice_at (x_slavesByMaster c) i) \<longrightarrow> r \<in> set (slice_at (x_slavesByMaster c) j) \<longrightarrow> i = j"
  shows "AttachingSlavesToMaster_loop env c ids g w = (None, w') \<Longrightarrow> ''-'' \<notin> set ids \<Longrightarrow>
   \<forall>i \<in> set ids. \<exists>m. c_Nodes (x_cluster c) i = Some m \<and> n_ID (w_heap w m) = i \<Longrightarrow>
   g = None \<and> (\<forall>r. n_ID (w_heap w' r) = n_ID (w_heap w r)) \<and>
   (\<forall>r. (\<forall>i \<in> set ids. r \<notin> set (slice_at (x_slavesByMaster c) i)) \<longrightarrow> w_heap w' r = w_heap w r) \<and>
   (\<forall>i \<in> set ids. \<forall>r \<in> set (slice_at (x_slavesByMaster c) i). slave_of (w_heap w' r) i)"
proof (induction ids arbitrary: g w)
  case (Cons i ids)
  from Cons.prems(3) obtain m where m: "c_Nodes (x_cluster c) i = Some m" "n_ID (w_heap w m) = i" by auto
  obtain g1 w1 where a: "attach_slaves env m (slice_at (x_slavesByMaster c) i) g w = (g1, w1)" by (metis surj_pair)
  with Cons.prems(1) m(1) have l: "AttachingSlavesToMaster_loop env c ids g1 w1 = (None, w')" by (simp add: GetNodeByID_def)
  note ids = attach_slaves_ids [OF a]
  have "\<forall>i \<in> set ids. \<exists>m. c_Nodes (x_cluster c) i = Some m \<and> n_ID (w_heap w1 m) = i" using Cons.prems(3) by (simp add: ids)
  with Cons.IH [OF l] Cons.prems(2) have g1: "g1 = None" and IH: "\<forall>r. n_ID (w_heap w' r) = n_ID (w_heap w1 r)"
    "\<forall>r. (\<forall>i \<in> set ids. r \<notin> set (slice_at (x_slavesByMaster c) i)) \<longrightarrow> w_heap w' r = w_heap w1 r"
    "\<forall>i \<in> set ids. \<forall>r \<in> set (slice_at (x_slavesByMaster c) i). slave_of (w_heap w' r) i" by auto
  have "i \<noteq> ''-''" using Cons.prems(2) by auto
  note A = attach_slaves_spec [OF a [unfolded g1] m(2) this]
  have "slave_of (w_heap w' r) i" if r: "r \<in> set (slice_at (x_slavesByMaster c) i)" for r
  proof (cases "i \<in> set ids")
    case True
    with r IH(3) show ?thesis by blast
  next
    case False
    with disj r have "w_heap w' r = w_heap w1 r" using IH(2) by blast
    with A r show ?thesis by simp
  qed
  with A IH show ?case by auto
qed simp

lemma Ctx_PlaceSlaves_cases:
  assumes "range_order (co_nodes co (x_nodes c)) (x_nodes c)"
  shows "if \<exists>s \<in> dom (x_nodes c). x_newMastersBySts c s = None \<and> slice_at (x_nodes c) s \<noteq> [] then Ctx_PlaceSlaves co h c = None
   else \<exists>be sl. Ctx_PlaceSlaves co h c = Some (None, c\<lparr>x_bestEffort := be, x_slavesByMaster := sl\<rparr>) \<and>
     (\<forall>i r. r \<in> set (slice_at sl i) \<longleftrightarrow> r \<in> set (slice_at (x_slavesByMaster c) i) \<or>
        (\<exists>s m. x_newMastersBySts c s = Some m \<and> i = n_ID (h m) \<and> r \<in> set (slice_at (x_nodes c) s) \<and> to_attach h m r)) \<and>
     dom sl \<subseteq> dom (x_slavesByMaster c) \<union> (\<lambda>m. n_ID (h m)) ` ran (x_newMastersBySts c)"
proof -
  define c0 where "c0 = c\<lparr>x_bestEffort := True\<rparr>"
  have set: "set (co_nodes co (x_nodes c)) = dom (x_nodes c)" using assms by (simp add: range_order_def)
  have eq: "Ctx_PlaceSlaves co h c = map_option (\<lambda>c. (None, c)) (Ctx_PlaceSlaves_loop h (co_nodes co (x_nodes c)) c0)"
    by (simp add: Ctx_PlaceSlaves_def c0_def)
  have sel: "x_nodes c0 = x_nodes c" "x_newMastersBySts c0 = x_newMastersBySts c" "x_slavesByMaster c0 = x_slavesByMaster c"
    "c0\<lparr>x_bestEffort := be, x_slavesByMaster := sl\<rparr> = c\<lparr>x_bestEffort := be, x_slavesByMaster := sl\<rparr>" for be sl
    by (simp_all add: c0_def)
  note spec = Ctx_PlaceSlaves_loop_spec [where ss = "co_nodes co (x_nodes c)" and c = c0 and h = h, unfolded set sel]
  have dom: "s \<in> dom (x_nodes c)" if "r \<in> set (slice_at (x_nodes c) s)" for r s
    using that by (cases "s \<in> dom (x_nodes c)") (simp_all add: slice_at_not_dom)
  show ?thesis
  proof (cases "\<exists>s \<in> dom (x_nodes c). x_newMastersBySts c s = None \<and> slice_at (x_nodes c) s \<noteq> []")
    case True
    with spec eq show ?thesis by simp
  next
    case False
    with spec obtain be sl where l: "Ctx_PlaceSlaves_loop h (co_nodes co (x_nodes c)) c0 = Some (c\<lparr>x_bestEffort := be, x_slavesByMaster := sl\<rparr>)" and
      sl: "\<forall>i r. r \<in> set (slice_at sl i) \<longleftrightarrow> r \<in> set (slice_at (x_slavesByMaster c) i) \<or>
        (\<exists>s \<in> dom (x_nodes c). \<exists>m. x_newMastersBySts c s = Some m \<and> i = n_ID (h m) \<and> r \<in> set (slice_at (x_nodes c) s) \<and> to_attach h m r)"
        "dom sl \<subseteq> dom (x_slavesByMaster c) \<union> (\<lambda>m. n_ID (h m)) ` ran (x_newMastersBySts c)" by (simp only: if_False) blast
    have "\<forall>i r. r \<in> set (slice_at sl i) \<longleftrightarrow> r \<in> set (slice_at (x_slavesByMaster c) i) \<or>
        (\<exists>s m. x_newMastersBySts c s = Some m \<and> i = n_ID (h m) \<and> r \<in> set (slice_at (x_nodes c) s) \<and> to_attach h m r)"
      using sl(1) dom by blast
    moreover have "Ctx_PlaceSlaves co h c = Some (None, c\<lparr>x_bestEffort := be, x_slavesByMaster := sl\<rparr>)" using eq l by simp
    ultimately show ?thesis using False sl(2) by (subst if_not_P) blast+
  qed
qed

lemma NewCtx_dispatched:
  assumes ord: "\<And>m. finite (dom m) \<Longrightarrow> range_order (co_masters co m) m"
    and zones: "ha_HaEnabled ha \<and> c_HaStatus cl = HaStatusCreating \<longrightarrow> co_zones co (ha_ZonesInfo ha) \<noteq> []"
  shows "\<exists>e M be. Ctx_DispatchMasters co h (NewCtx h (Some ha) cl nodes n name) = Some (e, chosen (NewCtx h (Some ha) cl nodes n name) M be) \<and>
    ((\<forall>i < nat n. sts_problem co h (NewCtx h (Some ha) cl nodes n name) i = None) \<longrightarrow> e = None) \<and>
    (e = None \<longrightarrow> placed co h (chosen (NewCtx h (Some ha) cl nodes n name) M be) {..<nat n})"
proof -
  define c where "c = NewCtx h (Some ha) cl nodes n name"
  have "ctx_ok co h c" unfolding c_def by (rule NewCtx_ok [OF zones])
  moreover have "placed co h c {}" by (simp add: placed_def c_def NewCtx_spec)
  ultimately obtain e M be where l: "Ctx_DispatchMasters_loop co h [0..<nat n] c = Some (e, chosen c M be)"
    and e: "e = (case find (\<lambda>i. sts_problem co h c i \<noteq> None) [0..<nat n] of None \<Rightarrow> None | Some i \<Rightarrow> sts_problem co h c i)"
    and p: "e = None \<longrightarrow> placed co h (chosen c M be) ({} \<union> set [0..<nat n])"
    using Ctx_DispatchMasters_loop_spec [OF ord] finite.emptyI by metis
  have "Ctx_DispatchMasters co h c = Some (e, chosen c M be)" using l by (simp add: Ctx_DispatchMasters_def c_def NewCtx_spec)
  moreover have "e = None" if "\<forall>i < nat n. sts_problem co h c i = None"
  proof -
    have "find (\<lambda>i. sts_problem co h c i \<noteq> None) [0..<nat n] = None" using that by (simp add: find_None_iff)
    with e show ?thesis by simp
  qed
  moreover have "e = None \<longrightarrow> placed co h (chosen c M be) {..<nat n}" using p by (simp add: atLeast0LessThan)
  ultimately show ?thesis unfolding c_def by blast
qed

lemma placed_master:
  assumes "placed co h c1 D" and "x_nodes c1 = x_nodes (NewCtx h ha cl nodes n name)" and "x_newMastersBySts c1 s = Some m"
  shows "\<exists>i \<in> D. s = ClusterStatefulSetName (x_clusterName c1) (int i) \<and> m \<in> set nodes \<and> sts_of h cl m = Some s"
proof -
  from assms(1,3) obtain i where i: "i \<in> D" "s = ClusterStatefulSetName (x_clusterName c1) (int i)" "master_ok co h c1 i m"
    unfolding placed_def by (metis (no_types, lifting) domI imageE option.inject)
  then have "m \<in> set (slice_at (x_nodes c1) s)" by (simp add: master_ok_def Let_def)
  then have "m \<in> set nodes \<and> sts_of h cl m = Some s" unfolding assms(2) NewCtx_spec(1) by simp
  with i show ?thesis by blast
qed

text \<open>
  The slaves after \<^verbatim>\<open>PlaceSlaves\<close> and \<^verbatim>\<open>AttachingSlavesToMaster\<close>: the pods of a set with another address than its master
  are its slaves, and the masters are as they were.
\<close>

lemma placement_attached:
  fixes w ha cl nodes n name
  defines "h \<equiv> w_heap w" and "c \<equiv> NewCtx (w_heap w) (Some ha) cl nodes n name"
  assumes ord: "\<And>m. finite (dom m) \<Longrightarrow> range_order (co_nodes co m) m"
    and known: "\<forall>r \<in> set nodes. c_Nodes cl (n_ID (h r)) = Some r \<and> n_ID (h r) \<noteq> ''-''"
    and c1: "c1 = chosen c M be" and pl: "placed co h c1 {..<nat n}"
    and place: "Ctx_PlaceSlaves co h c1 = Some (e, c2)" and attach: "AttachingSlavesToMaster env co c2 w = (None, w')"
    and s: "M s = Some m"
  shows "w_heap w' m = h m"
    and "r \<in> set nodes \<Longrightarrow> sts_of h cl r = Some s \<Longrightarrow> n_IP (h r) \<noteq> n_IP (h m) \<Longrightarrow> slave_of (w_heap w' r) (n_ID (h m))"
proof -
  have sel [simp]: "x_nodes c1 = x_nodes c" "x_cluster c1 = cl" "x_slavesByMaster c1 = Map.empty" "x_newMastersBySts c1 = M"
    by (simp_all add: c1 c_def NewCtx_spec)
  have nodes: "r \<in> set (slice_at (x_nodes c) s) \<longleftrightarrow> r \<in> set nodes \<and> sts_of h cl r = Some s" for r s
    by (auto simp: c_def h_def NewCtx_spec)
  have master: "m \<in> set nodes \<and> sts_of h cl m = Some s" if "M s = Some m" for s m
    using placed_master [OF pl, of "Some ha" cl nodes n name s m] that by (auto simp: c_def h_def)
  have "range_order (co_nodes co (x_nodes c1)) (x_nodes c1)" unfolding sel by (rule ord) (simp add: c_def finite_NewCtx_nodes)
  from Ctx_PlaceSlaves_cases [OF this, of h] place obtain be' sl where c2: "c2 = c1\<lparr>x_bestEffort := be', x_slavesByMaster := sl\<rparr>" and
    sl: "\<And>i r. r \<in> set (slice_at sl i) \<longleftrightarrow> (\<exists>s m. M s = Some m \<and> i = n_ID (h m) \<and> r \<in> set (slice_at (x_nodes c) s) \<and> to_attach h m r)"
      "dom sl \<subseteq> (\<lambda>m. n_ID (h m)) ` ran M"
    by (auto split: if_splits)
  have "finite (ran M)" using pl by (simp add: placed_def finite_ran)
  then have "finite (dom sl)" using sl(2) by (meson finite_imageI finite_subset)
  then have ids: "set (co_nodes co sl) = dom sl" using ord by (simp add: range_order_def)
  have sel2: "x_cluster c2 = cl" "x_slavesByMaster c2 = sl" by (simp_all add: c2)
  have disj: "\<forall>i j r. r \<in> set (slice_at (x_slavesByMaster c2) i) \<longrightarrow> r \<in> set (slice_at (x_slavesByMaster c2) j) \<longrightarrow> i = j"
    unfolding sel2 by (auto simp: sl(1) nodes)
  have listed: "\<exists>m. c_Nodes cl i = Some m \<and> n_ID (w_heap w m) = i \<and> i \<noteq> ''-''" if "i \<in> dom sl" for i
  proof -
    from sl(2) that obtain s m where m: "i = n_ID (h m)" "M s = Some m" by (auto simp: ran_def)
    with master known show ?thesis unfolding h_def by blast
  qed
  have run: "AttachingSlavesToMaster_loop env c2 (co_nodes co sl) None w = (None, w')" using attach by (simp add: AttachingSlavesToMaster_def c2)
  have dash: "''-'' \<notin> set (co_nodes co sl)" unfolding ids using listed by blast
  have "\<forall>i \<in> set (co_nodes co sl). \<exists>m. c_Nodes (x_cluster c2) i = Some m \<and> n_ID (w_heap w m) = i" unfolding ids sel2 using listed by blast
  note L = AttachingSlavesToMaster_loop_spec [OF disj run dash this, unfolded sel2 ids, folded h_def]
  note att = L [THEN conjunct2, THEN conjunct2, THEN conjunct1] L [THEN conjunct2, THEN conjunct2, THEN conjunct2]
  have "m \<notin> set (slice_at sl i)" for i using s master [OF s] unfolding sl(1) nodes to_attach_def by auto
  then show "w_heap w' m = h m" using att(1) by blast
  assume r: "r \<in> set nodes" "sts_of h cl r = Some s" "n_IP (h r) \<noteq> n_IP (h m)"
  show "slave_of (w_heap w' r) (n_ID (h m))"
  proof (cases "to_attach h m r")
    case True
    with s r have "r \<in> set (slice_at sl (n_ID (h m)))" unfolding sl(1) nodes by blast
    moreover from this have "n_ID (h m) \<in> dom sl" by (cases "n_ID (h m) \<in> dom sl") (simp_all add: slice_at_not_dom)
    ultimately show ?thesis using att(2) by blast
  next
    case False
    then have "r \<notin> set (slice_at sl i)" for i using s r unfolding sl(1) nodes by auto
    then have "w_heap w' r = h r" using att(1) by blast
    with False r(3) show ?thesis by (simp add: to_attach_def slave_of_def)
  qed
qed

lemma sts_of_named:
  assumes "c_Nodes cl (n_ID (h r)) = Some r"
  shows "sts_of h cl r = Some (ClusterStatefulSetName name i) \<longleftrightarrow> n_StatefulSet (h r) = ClusterStatefulSetName name i"
  using assms by (auto simp: sts_of_def GetNodeByID_def sts_name_def unknownVMName_def ClusterStatefulSetName_def)

section \<open>Properties\<close>

text \<open>
  C22: \<^verbatim>\<open>DispatchMasters\<close> on a context made by \<^verbatim>\<open>NewCtx\<close> with an HA configuration (with a zone, while HA is being
  created) never panics. Its error is that of the first set, in the order of the indices, that is
  missing, has more than one master with slots, or has no pod in the zone whose turn it is. Without
  an error every set has exactly one master, a pod of the set: the one with slots if there is one,
  otherwise one in the zone of the turn while HA is being created; and otherwise, unless best effort
  was set, a pod on a host that no current master and no other chosen master runs on.
\<close>

theorem Ctx_DispatchMasters_spec:
  assumes ord: "\<And>m. finite (dom m) \<Longrightarrow> range_order (co_masters co m) m"
    and zones: "ha_HaEnabled ha \<and> c_HaStatus cl = HaStatusCreating \<longrightarrow> co_zones co (ha_ZonesInfo ha) \<noteq> []"
  shows "let c = NewCtx h (Some ha) cl nodes n name in
    \<exists>e c'. Ctx_DispatchMasters co h c = Some (e, c') \<and>
      e = (case find (\<lambda>i. sts_problem co h c i \<noteq> None) [0..<nat n] of None \<Rightarrow> None | Some i \<Rightarrow> sts_problem co h c i) \<and>
      (e = None \<longrightarrow> placed co h c' {..<nat n} \<and> x_nodes c' = x_nodes c \<and> (ha_creating c \<or> x_bestEffort c' \<or> spread h c'))"
proof -
  define c where "c = NewCtx h (Some ha) cl nodes n name"
  have "ctx_ok co h c" unfolding c_def by (rule NewCtx_ok [OF zones])
  moreover have "placed co h c {}" by (simp add: placed_def c_def NewCtx_spec)
  ultimately obtain e M be where "Ctx_DispatchMasters_loop co h [0..<nat n] c = Some (e, chosen c M be)"
    "e = (case find (\<lambda>i. sts_problem co h c i \<noteq> None) [0..<nat n] of None \<Rightarrow> None | Some i \<Rightarrow> sts_problem co h c i)"
    "e = None \<longrightarrow> placed co h (chosen c M be) ({} \<union> set [0..<nat n]) \<and> (\<not> ha_creating c \<and> \<not> be \<and> spread h c \<longrightarrow> spread h (chosen c M be))"
    using Ctx_DispatchMasters_loop_spec [OF ord] finite.emptyI by metis
  moreover have "{} \<union> set [0..<nat n] = {..<nat n}" by auto
  moreover have "spread h c" by (simp add: spread_def c_def NewCtx_spec)
  moreover have "x_expectedMasterNum c = n" by (simp add: c_def NewCtx_spec)
  ultimately show ?thesis unfolding Let_def c_def [symmetric] Ctx_DispatchMasters_def by (metis chosen_sel(1,8))
qed

text \<open>Loops in ascending order; a cluster of two sets on two hosts.\<close>

definition sorted_ctx :: ctx_orders where
  "sorted_ctx = \<lparr>co_zones = (\<lambda>m. sorted_list_of_set (dom m)), co_masters = (\<lambda>m. sorted_list_of_set (dom m)),
     co_nodes = (\<lambda>m. sorted_list_of_set (dom m))\<rparr>"

definition no_ha :: HAspec where "no_ha = \<lparr>ha_HaEnabled = False, ha_ZonesInfo = Map.empty\<rparr>"

definition two_sets :: heap where
  "two_sets = (\<lambda>_. NewDefaultNode)(0 := NewDefaultNode\<lparr>n_ID := ''a'', n_IP := ''1'', n_NodeName := ''vm1'', n_StatefulSet := ''drc-c-0''\<rparr>,
     1 := NewDefaultNode\<lparr>n_ID := ''b'', n_IP := ''2'', n_NodeName := ''vm2'', n_StatefulSet := ''drc-c-0''\<rparr>,
     2 := NewDefaultNode\<lparr>n_ID := ''c'', n_IP := ''3'', n_NodeName := ''vm1'', n_StatefulSet := ''drc-c-1''\<rparr>,
     3 := NewDefaultNode\<lparr>n_ID := ''d'', n_IP := ''4'', n_NodeName := ''vm2'', n_StatefulSet := ''drc-c-1''\<rparr>)"

lemma sorted_ctx_ok: "finite (dom m) \<Longrightarrow> range_order (co_masters sorted_ctx m) m" "finite (dom m') \<Longrightarrow> range_order (co_nodes sorted_ctx m') m'"
  by (simp_all add: sorted_ctx_def range_order_def)

theorem Ctx_DispatchMasters_spec_witness:
  "let c = NewCtx two_sets (Some no_ha) two_vm_cluster [0, 1, 2, 3] 2 ''c'' in
    \<exists>e c'. Ctx_DispatchMasters sorted_ctx two_sets c = Some (e, c') \<and>
      e = (case find (\<lambda>i. sts_problem sorted_ctx two_sets c i \<noteq> None) [0..<nat 2] of None \<Rightarrow> None | Some i \<Rightarrow> sts_problem sorted_ctx two_sets c i) \<and>
      (e = None \<longrightarrow> placed sorted_ctx two_sets c' {..<nat 2} \<and> x_nodes c' = x_nodes c \<and> (ha_creating c \<or> x_bestEffort c' \<or> spread two_sets c'))"
  by (rule Ctx_DispatchMasters_spec [OF sorted_ctx_ok(1)]) (simp_all add: no_ha_def)

text \<open>
  Whatever the order of the loop, \<^verbatim>\<open>PlaceSlaves\<close> panics exactly when some set with pods has no chosen master (its map
  lookup gives a nil node). Otherwise it returns no error, and a pod is listed under a master exactly if
  it was listed before or belongs to the set of a master with that identifier, has another address
  and is not already a slave of that master.
\<close>

theorem Ctx_PlaceSlaves_spec:
  assumes "range_order (co_nodes co (x_nodes c)) (x_nodes c)"
  shows "(case Ctx_PlaceSlaves co h c of
      None \<Rightarrow> \<exists>s \<in> dom (x_nodes c). x_newMastersBySts c s = None \<and> slice_at (x_nodes c) s \<noteq> []
    | Some (e, c') \<Rightarrow> e = None \<and> \<not> (\<exists>s \<in> dom (x_nodes c). x_newMastersBySts c s = None \<and> slice_at (x_nodes c) s \<noteq> []) \<and>
        (\<forall>i r. r \<in> set (slice_at (GetSlaves c') i) \<longleftrightarrow> r \<in> set (slice_at (GetSlaves c) i) \<or>
          (\<exists>s m. x_newMastersBySts c s = Some m \<and> i = n_ID (h m) \<and> r \<in> set (slice_at (GetStatefulsetNodes c) s) \<and>
             n_IP (h r) \<noteq> n_IP (h m) \<and> \<not> (GetRole (h r) = RedisClusterNodeRoleSlave \<and> n_MasterReferent (h r) = n_ID (h m)))))"
proof (cases "\<exists>s \<in> dom (x_nodes c). x_newMastersBySts c s = None \<and> slice_at (x_nodes c) s \<noteq> []")
  case True
  with Ctx_PlaceSlaves_cases [OF assms, of h] show ?thesis by simp
next
  case False
  with Ctx_PlaceSlaves_cases [OF assms, of h] obtain be sl where "Ctx_PlaceSlaves co h c = Some (None, c\<lparr>x_bestEffort := be, x_slavesByMaster := sl\<rparr>)"
    "\<forall>i r. r \<in> set (slice_at sl i) \<longleftrightarrow> r \<in> set (slice_at (x_slavesByMaster c) i) \<or>
        (\<exists>s m. x_newMastersBySts c s = Some m \<and> i = n_ID (h m) \<and> r \<in> set (slice_at (x_nodes c) s) \<and> to_attach h m r)"
    by (simp only: if_False) blast
  with False show ?thesis unfolding GetSlaves_def GetStatefulsetNodes_def to_attach_def by simp
qed

theorem Ctx_PlaceSlaves_spec_witness:
  "let c = NewCtx two_sets (Some no_ha) two_vm_cluster [0, 1, 2, 3] 2 ''c'' in
   (case Ctx_PlaceSlaves sorted_ctx two_sets c of
      None \<Rightarrow> \<exists>s \<in> dom (x_nodes c). x_newMastersBySts c s = None \<and> slice_at (x_nodes c) s \<noteq> []
    | Some (e, c') \<Rightarrow> e = None \<and> \<not> (\<exists>s \<in> dom (x_nodes c). x_newMastersBySts c s = None \<and> slice_at (x_nodes c) s \<noteq> []) \<and>
        (\<forall>i r. r \<in> set (slice_at (GetSlaves c') i) \<longleftrightarrow> r \<in> set (slice_at (GetSlaves c) i) \<or>
          (\<exists>s m. x_newMastersBySts c s = Some m \<and> i = n_ID (two_sets m) \<and> r \<in> set (slice_at (GetStatefulsetNodes c) s) \<and>
             n_IP (two_sets r) \<noteq> n_IP (two_sets m) \<and> \<not> (GetRole (two_sets r) = RedisClusterNodeRoleSlave \<and> n_MasterReferent (two_sets r) = n_ID (two_sets m)))))"
  unfolding Let_def by (rule Ctx_PlaceSlaves_spec, rule sorted_ctx_ok(2), rule finite_NewCtx_nodes)

text \<open>
  C4: The placement as the reconciler runs it. If the cluster lists the nodes under their identifiers,
  \<^verbatim>\<open>DispatchMasters\<close> and \<^verbatim>\<open>PlaceSlaves\<close> succeed and \<^verbatim>\<open>AttachingSlavesToMaster\<close> reports no error, then every
  set has a master among its own pods and, at the end, every other pod of the set (every pod with
  another address) is a slave of that master.
\<close>

theorem placement_roles:
  assumes ord: "\<And>m. finite (dom m) \<Longrightarrow> range_order (co_masters co m) m" "\<And>m. finite (dom m) \<Longrightarrow> range_order (co_nodes co m) m"
    and zones: "ha_HaEnabled ha \<and> c_HaStatus cl = HaStatusCreating \<longrightarrow> co_zones co (ha_ZonesInfo ha) \<noteq> []"
    and known: "\<forall>r \<in> set nodes. c_Nodes cl (n_ID (w_heap w r)) = Some r \<and> n_ID (w_heap w r) \<noteq> ''-''"
    and dispatch: "Ctx_DispatchMasters co (w_heap w) (NewCtx (w_heap w) (Some ha) cl nodes n name) = Some (None, c1)"
    and place: "Ctx_PlaceSlaves co (w_heap w) c1 = Some (e, c2)"
    and attach: "AttachingSlavesToMaster env co c2 w = (None, w')"
  shows "\<forall>i < nat n. \<exists>m \<in> set nodes. x_newMastersBySts c1 (ClusterStatefulSetName name (int i)) = Some m \<and>
    n_StatefulSet (w_heap w m) = ClusterStatefulSetName name (int i) \<and>
    (\<forall>r \<in> set nodes. n_StatefulSet (w_heap w r) = ClusterStatefulSetName name (int i) \<longrightarrow>
       n_IP (w_heap w r) = n_IP (w_heap w m) \<or>
       GetRole (w_heap w' r) = RedisClusterNodeRoleSlave \<and> n_MasterReferent (w_heap w' r) = n_ID (w_heap w m))"
proof -
  define h where "h = w_heap w"
  define c where "c = NewCtx h (Some ha) cl nodes n name"
  from NewCtx_dispatched [OF ord(1) zones, of h nodes n name] dispatch obtain M be where
    c1: "c1 = chosen c M be" and pl: "placed co h c1 {..<nat n}" unfolding c_def h_def by auto
  have name: "x_clusterName c1 = name" "x_nodes c1 = x_nodes c" "x_newMastersBySts c1 = M" by (simp_all add: c1 c_def NewCtx_spec)
  have att: "slave_of (w_heap w' r) (n_ID (h m))" if "M s = Some m" "r \<in> set nodes" "sts_of h cl r = Some s" "n_IP (h r) \<noteq> n_IP (h m)" for s m r
    using that unfolding h_def
    by - (rule placement_attached(2) [OF ord(2) known c1 [unfolded c_def h_def] pl [unfolded h_def] place attach])
  have named: "sts_of h cl r = Some (ClusterStatefulSetName name (int i)) \<longleftrightarrow> n_StatefulSet (h r) = ClusterStatefulSetName name (int i)"
    if "r \<in> set nodes" for r i using known that by (intro sts_of_named) (simp add: h_def)
  show ?thesis unfolding h_def [symmetric]
  proof (intro allI impI)
    fix i assume "i < nat n"
    with pl obtain m where m: "M (ClusterStatefulSetName name (int i)) = Some m" unfolding placed_def name by blast
    then have mem: "m \<in> set nodes" "sts_of h cl m = Some (ClusterStatefulSetName name (int i))"
      using placed_master [OF pl] unfolding name c_def by blast+
    have "n_IP (h r) = n_IP (h m) \<or> slave_of (w_heap w' r) (n_ID (h m))"
      if "r \<in> set nodes" "n_StatefulSet (h r) = ClusterStatefulSetName name (int i)" for r
      using att [OF m that(1)] that named by blast
    with m mem named show "\<exists>m \<in> set nodes. x_newMastersBySts c1 (ClusterStatefulSetName name (int i)) = Some m \<and>
      n_StatefulSet (h m) = ClusterStatefulSetName name (int i) \<and>
      (\<forall>r \<in> set nodes. n_StatefulSet (h r) = ClusterStatefulSetName name (int i) \<longrightarrow>
       n_IP (h r) = n_IP (h m) \<or> GetRole (w_heap w' r) = RedisClusterNodeRoleSlave \<and> n_MasterReferent (w_heap w' r) = n_ID (h m))"
      unfolding name slave_of_def by (intro bexI [of _ m]) simp_all
  qed
qed

definition one_set :: world where
  "one_set = \<lparr>w_heap = two_sets, w_clients = [''2:6379''], w_trace = [], w_draws = 0\<rparr>"

definition one_set_ctx :: Ctx where
  "one_set_ctx = \<lparr>x_expectedMasterNum = 1, x_clusterName = ''c'', x_cluster = two_vm_cluster, x_nodes = [''drc-c-0'' \<mapsto> [0, 1]],
     x_currentMasters = [], x_newMastersBySts = Map.empty, x_slavesByMaster = Map.empty, x_bestEffort = False,
     x_haconfig = Some no_ha, x_hastatus = ''''\<rparr>"

lemmas example_defs = one_set_def two_sets_def no_ha_def two_vm_cluster_def GetNodeByID_def NewCluster_def sts_name_def map_append_def
  slice_at_def NewDefaultNode_def GetRole_def TotalSlots_def RedisMasterRole_def RedisSlaveRole_def IsMasterWithSlot_def

lemma one_set_steps:
  "NewCtx two_sets (Some no_ha) two_vm_cluster [0, 1] 1 ''c'' = one_set_ctx"
  "Ctx_DispatchMasters sorted_ctx two_sets one_set_ctx = Some (None, one_set_ctx\<lparr>x_newMastersBySts := [''drc-c-0'' \<mapsto> 0]\<rparr>)"
  "Ctx_PlaceSlaves sorted_ctx two_sets (one_set_ctx\<lparr>x_newMastersBySts := [''drc-c-0'' \<mapsto> 0]\<rparr>)
     = Some (None, one_set_ctx\<lparr>x_newMastersBySts := [''drc-c-0'' \<mapsto> 0], x_slavesByMaster := [''a'' \<mapsto> [1]]\<rparr>)"
  "fst (AttachingSlavesToMaster example_server sorted_ctx (one_set_ctx\<lparr>x_newMastersBySts := [''drc-c-0'' \<mapsto> 0], x_slavesByMaster := [''a'' \<mapsto> [1]]\<rparr>) one_set) = None"
proof -
  show "NewCtx two_sets (Some no_ha) two_vm_cluster [0, 1] 1 ''c'' = one_set_ctx"
    by (simp add: NewCtx_def sortRedisNodeByStatefulSet_def one_set_ctx_def example_defs)
  have "ClusterStatefulSetName ''c'' 0 = ''drc-c-0''" by code_simp
  then show "Ctx_DispatchMasters sorted_ctx two_sets one_set_ctx = Some (None, one_set_ctx\<lparr>x_newMastersBySts := [''drc-c-0'' \<mapsto> 0]\<rparr>)"
    by (simp add: Ctx_DispatchMasters_def dispatch_sts_def place_for_sts_def Ctx_PlaceMasters_def Nodes_GetNodesByFunc_def sorted_ctx_def Let_def
        one_set_ctx_def example_defs)
  show "Ctx_PlaceSlaves sorted_ctx two_sets (one_set_ctx\<lparr>x_newMastersBySts := [''drc-c-0'' \<mapsto> 0]\<rparr>)
     = Some (None, one_set_ctx\<lparr>x_newMastersBySts := [''drc-c-0'' \<mapsto> 0], x_slavesByMaster := [''a'' \<mapsto> [1]]\<rparr>)"
    by (simp add: Ctx_PlaceSlaves_def sorted_ctx_def one_set_ctx_def example_defs)
  show "fst (AttachingSlavesToMaster example_server sorted_ctx (one_set_ctx\<lparr>x_newMastersBySts := [''drc-c-0'' \<mapsto> 0], x_slavesByMaster := [''a'' \<mapsto> [1]]\<rparr>) one_set) = None"
    by (simp add: AttachingSlavesToMaster_def AttachSlaveToMaster_def IPPort_def JoinHostPort_def DefaultRedisPort_def cnx_Get_def do_cmd_def
        reply_err_def Let_def example_server_def server_with_def sendable_def dead_env_def sorted_ctx_def one_set_ctx_def example_defs)
qed

theorem placement_roles_witness:
  "\<exists>(c1 :: Ctx) (w' :: world). \<forall>i < nat 1. \<exists>m \<in> set [0, 1]. x_newMastersBySts c1 (ClusterStatefulSetName ''c'' (int i)) = Some m \<and>
    n_StatefulSet (w_heap one_set m) = ClusterStatefulSetName ''c'' (int i) \<and>
    (\<forall>r \<in> set [0, 1]. n_StatefulSet (w_heap one_set r) = ClusterStatefulSetName ''c'' (int i) \<longrightarrow>
       n_IP (w_heap one_set r) = n_IP (w_heap one_set m) \<or>
       GetRole (w_heap w' r) = RedisClusterNodeRoleSlave \<and> n_MasterReferent (w_heap w' r) = n_ID (w_heap one_set m))"
proof -
  have h: "w_heap one_set = two_sets" by (simp add: one_set_def)
  obtain w' where "AttachingSlavesToMaster example_server sorted_ctx (one_set_ctx\<lparr>x_newMastersBySts := [''drc-c-0'' \<mapsto> 0], x_slavesByMaster := [''a'' \<mapsto> [1]]\<rparr>) one_set = (None, w')"
    using one_set_steps(4) by (metis prod.collapse)
  note run = one_set_steps(2,3) this
  have zones: "ha_HaEnabled no_ha \<and> c_HaStatus two_vm_cluster = HaStatusCreating \<longrightarrow> co_zones sorted_ctx (ha_ZonesInfo no_ha) \<noteq> []" by (simp add: no_ha_def)
  have known: "\<forall>r \<in> set [0, 1]. c_Nodes two_vm_cluster (n_ID (two_sets r)) = Some r \<and> n_ID (two_sets r) \<noteq> ''-''" by (simp add: example_defs)
  show ?thesis unfolding h
    by (intro exI, rule placement_roles [where co = sorted_ctx and ha = no_ha and cl = two_vm_cluster and w = one_set and nodes = "[0, 1]" and n = 1 and name = "''c''",
        unfolded h one_set_steps(1), OF sorted_ctx_ok zones known run])
qed

end
