(* ===== verification/Checker.thy ===== *)
theory Checker
  imports Kube Placement_V2
begin

text \<open>
  The checks of \<^verbatim>\<open>controllers/manager/checker.go\<close>: whether the stateful sets have the specified number of ready
  pods, whether the number of masters is the specified one, and whether the versions of the access
  control secrets changed.
\<close>

section \<open>Pods and masters\<close>

definition checkRedisNodeNum :: "int \<Rightarrow> StatefulSet \<Rightarrow> err option" where
  "checkRedisNodeNum expectNodeNum ss =
     (if expectNodeNum \<noteq> ss_Replicas ss then Some (Errorf ''number of redis pods is different from specification'' [])
      else if expectNodeNum \<noteq> ss_ReadyReplicas ss then Some (Errorf ''redis pods are not all ready'' [])
      else None)"

fun CheckRedisNodeNum_loop :: "kube \<Rightarrow> DistributedRedisCluster \<Rightarrow> nat list \<Rightarrow> hworld \<Rightarrow> err option \<times> hworld" where
  "CheckRedisNodeNum_loop k cluster [] w = (None, w)"
| "CheckRedisNodeNum_loop k cluster (i # is) w =
     (let name = ClusterStatefulSetName (drc_Name cluster) (int i);
          expectNodeNum = spec_ClusterReplicas (drc_Spec cluster) + 1
      in case GetStatefulSet k (drc_Namespace cluster) name w of
           (Inl err, w) \<Rightarrow> (Some err, w)
         | (Inr ss, w) \<Rightarrow>
             (case checkRedisNodeNum expectNodeNum ss of
                Some err \<Rightarrow> (Some err, w)
              | None \<Rightarrow> CheckRedisNodeNum_loop k cluster is w))"

definition CheckRedisNodeNum :: "kube \<Rightarrow> DistributedRedisCluster \<Rightarrow> hworld \<Rightarrow> err option \<times> hworld" where
  "CheckRedisNodeNum k cluster w = CheckRedisNodeNum_loop k cluster [0..<nat (spec_MasterSize (drc_Spec cluster))] w"

definition CheckRedisMasterNum :: "DistributedRedisCluster \<Rightarrow> err option" where
  "CheckRedisMasterNum cluster =
     (if spec_MasterSize (drc_Spec cluster) \<noteq> st_NumberOfMaster (drc_Status cluster)
      then Some (Errorf ''number of redis master different from specification'' []) else None)"

section \<open>Versions of secrets\<close>

text \<open>\<open>ord\<close> gives the order in which a loop visits the keys of a map.\<close>

definition IsdiffAclVerions :: "((string \<rightharpoonup> string) \<Rightarrow> string list) \<Rightarrow> (string \<rightharpoonup> string) \<Rightarrow> (string \<rightharpoonup> string) \<Rightarrow> bool" where
  "IsdiffAclVerions ord curr_map check_map =
     (if \<exists>key \<in> set (ord curr_map). check_map key = None then True
      else if \<exists>key \<in> set (ord check_map). curr_map key = None then True
      else if \<exists>key \<in> set (ord curr_map). (case check_map key of Some map2Value \<Rightarrow> curr_map key \<noteq> Some map2Value | None \<Rightarrow> False) then True
      else False)"

section \<open>Lemmas\<close>

lemma checkRedisNodeNum_iff: "checkRedisNodeNum n ss = None \<longleftrightarrow> ss_Replicas ss = n \<and> ss_ReadyReplicas ss = n"
  by (auto simp: checkRedisNodeNum_def)

text \<open>What the check does to the history, and what its success says of the answers of the API server.\<close>

lemma CheckRedisNodeNum_loop_spec:
  "CheckRedisNodeNum_loop k cluster is w = (e, w') \<Longrightarrow>
   hw_redis w' = hw_redis w \<and> (\<exists>n \<le> length is. hw_calls w' = hw_calls w @ map (\<lambda>i. KGet KStatefulSet (drc_Namespace cluster) (ClusterStatefulSetName (drc_Name cluster) (int i))) (take n is)) \<and>
   (e = None \<longrightarrow> (\<forall>j < length is. \<exists>cs ss. k_get_set k (hw_calls w @ cs) (drc_Namespace cluster) (ClusterStatefulSetName (drc_Name cluster) (int (is ! j))) = Inr ss \<and>
      ss_Replicas ss = spec_ClusterReplicas (drc_Spec cluster) + 1 \<and> ss_ReadyReplicas ss = spec_ClusterReplicas (drc_Spec cluster) + 1))"
proof (induction "is" arbitrary: w)
  case (Cons i "is")
  define name where "name = ClusterStatefulSetName (drc_Name cluster) (int i)"
  define w1 where "w1 = call (KGet KStatefulSet (drc_Namespace cluster) name) w"
  have get: "GetStatefulSet k (drc_Namespace cluster) name w = (k_get_set k (hw_calls w) (drc_Namespace cluster) name, w1)"
    by (simp add: GetStatefulSet_def w1_def)
  have stop: "\<exists>n \<le> length (i # is). hw_calls w1 = hw_calls w @ map (\<lambda>i. KGet KStatefulSet (drc_Namespace cluster) (ClusterStatefulSetName (drc_Name cluster) (int i))) (take n (i # is))"
    by (rule exI [of _ 1]) (simp add: w1_def name_def)
  show ?case
  proof (cases "\<exists>ss. k_get_set k (hw_calls w) (drc_Namespace cluster) name = Inr ss \<and> checkRedisNodeNum (spec_ClusterReplicas (drc_Spec cluster) + 1) ss = None")
    case True
    then obtain ss where ss: "k_get_set k (hw_calls w) (drc_Namespace cluster) name = Inr ss" "checkRedisNodeNum (spec_ClusterReplicas (drc_Spec cluster) + 1) ss = None" by blast
    with Cons.prems get have rest: "CheckRedisNodeNum_loop k cluster is w1 = (e, w')" by (simp add: name_def)
    note IH = Cons.IH [OF rest]
    from IH obtain n where n: "n \<le> length is" "hw_calls w' = hw_calls w1 @ map (\<lambda>i. KGet KStatefulSet (drc_Namespace cluster) (ClusterStatefulSetName (drc_Name cluster) (int i))) (take n is)" by blast
    have "\<exists>n \<le> length (i # is). hw_calls w' = hw_calls w @ map (\<lambda>i. KGet KStatefulSet (drc_Namespace cluster) (ClusterStatefulSetName (drc_Name cluster) (int i))) (take n (i # is))"
      using n by (intro exI [of _ "Suc n"]) (simp add: w1_def name_def)
    moreover have "hw_redis w' = hw_redis w" using IH by (simp add: w1_def)
    moreover have "e = None \<longrightarrow> (\<forall>j < length (i # is). \<exists>cs ss. k_get_set k (hw_calls w @ cs) (drc_Namespace cluster) (ClusterStatefulSetName (drc_Name cluster) (int ((i # is) ! j))) = Inr ss \<and>
      ss_Replicas ss = spec_ClusterReplicas (drc_Spec cluster) + 1 \<and> ss_ReadyReplicas ss = spec_ClusterReplicas (drc_Spec cluster) + 1)"
    proof (intro impI allI)
      fix j assume "e = None" and j: "j < length (i # is)"
      let ?ok = "\<lambda>cs ss j. k_get_set k (hw_calls w @ cs) (drc_Namespace cluster) (ClusterStatefulSetName (drc_Name cluster) (int ((i # is) ! j))) = Inr ss \<and>
        ss_Replicas ss = spec_ClusterReplicas (drc_Spec cluster) + 1 \<and> ss_ReadyReplicas ss = spec_ClusterReplicas (drc_Spec cluster) + 1"
      show "\<exists>cs ss. ?ok cs ss j"
      proof (cases j)
        case 0
        with ss have "?ok [] ss j" by (simp add: checkRedisNodeNum_iff name_def)
        then show ?thesis by blast
      next
        case (Suc j')
        with IH \<open>e = None\<close> j obtain cs ss where "?ok (KGet KStatefulSet (drc_Namespace cluster) name # cs) ss j" by (auto simp: w1_def)
        then show ?thesis by blast
      qed
    qed
    ultimately show ?thesis by blast
  next
    case False
    with Cons.prems get have "w' = w1 \<and> e \<noteq> None"
      unfolding name_def by (cases "k_get_set k (hw_calls w) (drc_Namespace cluster) (ClusterStatefulSetName (drc_Name cluster) (int i))") (auto split: option.splits, metis)
    moreover have "hw_redis w1 = hw_redis w" by (simp add: w1_def)
    ultimately show ?thesis using stop by blast
  qed
qed simp

section \<open>Properties\<close>

text \<open>
  \<^verbatim>\<open>IsdiffAclVerions\<close> reports a difference exactly when the two maps of versions differ, whatever the order of its
  loops: a removed user, a new user and a changed version are each found.
\<close>

theorem IsdiffAclVerions_iff:
  assumes "range_order (ord curr_map) curr_map" and "range_order (ord check_map) check_map"
  shows "IsdiffAclVerions ord curr_map check_map \<longleftrightarrow> curr_map \<noteq> check_map"
proof -
  have "curr_map = check_map" if "\<not> IsdiffAclVerions ord curr_map check_map"
  proof (rule ext)
    fix key
    have "key \<in> dom curr_map \<longrightarrow> curr_map key = check_map key" "key \<in> dom check_map \<longrightarrow> key \<in> dom curr_map"
      using that assms unfolding IsdiffAclVerions_def range_order_def by (auto split: if_splits option.splits, metis domI)
    then show "curr_map key = check_map key" by (cases "key \<in> dom check_map") (auto simp: domIff)
  qed
  moreover have "\<not> IsdiffAclVerions ord curr_map curr_map"
    using assms(1) unfolding IsdiffAclVerions_def range_order_def by (auto split: option.splits)
  ultimately show ?thesis by metis
qed

theorem IsdiffAclVerions_iff_witness:
  "IsdiffAclVerions (\<lambda>m. if m = [''a'' \<mapsto> ''1''] then [''a''] else [''a'', ''b'']) [''a'' \<mapsto> ''1''] [''a'' \<mapsto> ''1'', ''b'' \<mapsto> ''2'']
     \<longleftrightarrow> [''a'' \<mapsto> ''1''] \<noteq> [''a'' \<mapsto> ''1'', ''b'' \<mapsto> ''2'']"
proof (rule IsdiffAclVerions_iff)
  have ne: "[''a'' \<mapsto> ''1'', ''b'' \<mapsto> ''2''] \<noteq> [''a'' \<mapsto> ''1'']" by (auto dest: fun_cong [of _ _ "''b''"])
  show "range_order (if [''a'' \<mapsto> ''1''] = [''a'' \<mapsto> ''1''] then [''a''] else [''a'', ''b'']) [''a'' \<mapsto> ''1'']"
    by (simp add: range_order_def)
  show "range_order (if [''a'' \<mapsto> ''1'', ''b'' \<mapsto> ''2''] = [''a'' \<mapsto> ''1''] then [''a''] else [''a'', ''b'']) [''a'' \<mapsto> ''1'', ''b'' \<mapsto> ''2'']"
    unfolding if_not_P [OF ne] by (auto simp: range_order_def)
qed

end
