(* ===== verification/Go_Float.thy ===== *)
theory Go_Float
  imports Go_Base Complex_Main
begin

text \<open>
  Go's \<^verbatim>\<open>float64\<close> arithmetic, as far as the slot computations use it: the values are rationals, and
  every operation is the exact operation followed by rounding to 53 significant bits, to the nearest
  value and to the even one on a tie. The exponent is unbounded: overflow and subnormal numbers are
  far outside the range of slot numbers. What the proofs use of the rounding is the locale
  \<open>rounding\<close>, interpreted on the rounding function itself.
\<close>

section \<open>Rounding\<close>

fun bitlen :: "nat \<Rightarrow> nat" where
  "bitlen n = (if n = 0 then 0 else Suc (bitlen (n div 2)))"

declare bitlen.simps [simp del]

text \<open>The exponent \<open>e\<close> of a positive number: \<open>2 ^ e \<le> x < 2 ^ (e + 1)\<close>.\<close>

definition expo :: "rat \<Rightarrow> int" where
  "expo x = (if x \<ge> 1 then int (bitlen (nat \<lfloor>x\<rfloor>)) - 1 else - int (bitlen (nat (\<lceil>1 / x\<rceil> - 1))))"

definition rne :: "rat \<Rightarrow> int" where
  "rne y = (let f = \<lfloor>y\<rfloor>; d = y - of_int f in
     if d < 1 / 2 then f else if d > 1 / 2 then f + 1 else if even f then f else f + 1)"

definition fl_pos :: "rat \<Rightarrow> rat" where
  "fl_pos x = (let u = 2 powi (expo x - 52) in of_int (rne (x / u)) * u)"

definition fl :: "rat \<Rightarrow> rat" where
  "fl x = (if x = 0 then 0 else if x > 0 then fl_pos x else - fl_pos (- x))"

text \<open>\<^verbatim>\<open>int(x)\<close> cuts off the fraction.\<close>

definition trunc :: "rat \<Rightarrow> int" where
  "trunc x = (if x \<ge> 0 then \<lfloor>x\<rfloor> else \<lceil>x\<rceil>)"

lemma bitlen_bounds: "n > 0 \<Longrightarrow> 2 ^ (bitlen n - 1) \<le> n \<and> n < 2 ^ bitlen n \<and> bitlen n > 0"
proof (induction n rule: bitlen.induct)
  case (1 n)
  show ?case
  proof (cases "n div 2 = 0")
    case True
    then have "n = 1" using "1.prems" by auto
    then show ?thesis by (simp add: bitlen.simps [of "Suc 0"] bitlen.simps [of 0])
  next
    case False
    then have ih: "2 ^ (bitlen (n div 2) - 1) \<le> n div 2" "n div 2 < 2 ^ bitlen (n div 2)" "bitlen (n div 2) > 0"
      using "1.IH" "1.prems" by auto
    have "bitlen n = Suc (bitlen (n div 2))" using "1.prems" by (subst bitlen.simps) simp
    moreover have "2 ^ bitlen (n div 2) \<le> n"
    proof -
      have "2 ^ bitlen (n div 2) = 2 * (2 ^ (bitlen (n div 2) - 1) :: nat)"
        using ih(3) by (cases "bitlen (n div 2)") auto
      with ih(1) show ?thesis by linarith
    qed
    moreover have "n < 2 * 2 ^ bitlen (n div 2)" using ih(2) by linarith
    ultimately show ?thesis by simp
  qed
qed

lemma expo_bounds:
  assumes "x > 0"
  shows "2 powi expo x \<le> x \<and> x < 2 powi (expo x + 1)"
proof (cases "x \<ge> 1")
  case True
  define n where "n = nat \<lfloor>x\<rfloor>"
  have n: "n > 0" "of_nat n \<le> x" "x < of_nat n + 1"
    using True by (simp_all add: n_def le_floor_iff) linarith+
  note b = bitlen_bounds [OF n(1)]
  have e: "expo x = int (bitlen n - 1)" "expo x + 1 = int (bitlen n)"
    using True b by (simp_all add: expo_def n_def)
  have "(2 :: rat) ^ (bitlen n - 1) \<le> of_nat n" using b by (metis of_nat_le_iff of_nat_numeral of_nat_power)
  moreover have "of_nat n + 1 \<le> (2 :: rat) ^ bitlen n"
    using b by (metis Suc_leI of_nat_Suc of_nat_le_iff of_nat_numeral of_nat_power add.commute)
  moreover have "2 powi expo x = (2 :: rat) ^ (bitlen n - 1)" "2 powi (expo x + 1) = (2 :: rat) ^ bitlen n"
    using e by (metis power_int_of_nat)+
  ultimately show ?thesis
    using n by (simp only:) linarith
next
  case False
  define y where "y = 1 / x"
  have y: "y > 1" using assms False by (simp add: y_def)
  define m where "m = nat (\<lceil>y\<rceil> - 1)"
  have m: "m > 0" "of_nat m < y" "y \<le> of_nat m + 1"
  proof -
    have "\<lceil>y\<rceil> \<ge> 2" using y by linarith
    then show "m > 0" by (simp add: m_def)
    have "of_int (\<lceil>y\<rceil> - 1) = (of_nat m :: rat)" using \<open>\<lceil>y\<rceil> \<ge> 2\<close> by (simp add: m_def)
    then show "of_nat m < y" "y \<le> of_nat m + 1" by linarith+
  qed
  note b = bitlen_bounds [OF m(1)]
  have e: "expo x = - int (bitlen m)" "expo x + 1 = - int (bitlen m - 1)"
    using False b by (simp_all add: expo_def m_def y_def)
  have "(2 :: rat) ^ (bitlen m - 1) \<le> of_nat m" using b by (metis of_nat_le_iff of_nat_numeral of_nat_power)
  then have lo: "2 ^ (bitlen m - 1) < y" using m(2) by linarith
  have "of_nat m + 1 \<le> (2 :: rat) ^ bitlen m"
    using b by (metis Suc_leI of_nat_Suc of_nat_le_iff of_nat_numeral of_nat_power add.commute)
  then have hi: "y \<le> 2 ^ bitlen m" using m(3) by linarith
  have x: "x = 1 / y" by (simp add: y_def)
  have "2 powi expo x = (1 :: rat) / 2 ^ bitlen m"
    unfolding e(1) by (simp add: power_int_minus inverse_eq_divide)
  moreover have "2 powi (expo x + 1) = (1 :: rat) / 2 ^ (bitlen m - 1)"
    unfolding e(2) by (simp add: power_int_minus inverse_eq_divide)
  moreover have "1 / 2 ^ bitlen m \<le> 1 / y" using hi y by (intro divide_left_mono) auto
  moreover have "1 / y < 1 / 2 ^ (bitlen m - 1)" using lo y by (intro divide_strict_left_mono) auto
  ultimately show ?thesis using x by simp
qed

lemma rne_error: "\<bar>of_int (rne y) - y\<bar> \<le> 1 / 2"
proof -
  have "of_int \<lfloor>y\<rfloor> \<le> y" "y < of_int \<lfloor>y\<rfloor> + 1" by linarith+
  then show ?thesis unfolding rne_def Let_def by (auto split: if_splits)
qed

lemma rne_int: "rne (of_int k) = k"
  by (simp add: rne_def)

lemma rne_ge: "of_int k \<le> y \<Longrightarrow> k \<le> rne y"
  unfolding rne_def Let_def by (auto split: if_splits) linarith+

lemma fl_pos_error:
  assumes "x > 0"
  shows "\<bar>fl_pos x - x\<bar> \<le> x / 2 ^ 53"
proof -
  define u where "u = (2 :: rat) powi (expo x - 52)"
  have u: "u > 0" by (simp add: u_def)
  have "2 powi expo x = u * 2 ^ 52" by (simp add: u_def power_int_diff)
  then have "u * 2 ^ 52 \<le> x" using expo_bounds [OF assms] by simp
  have "\<bar>of_int (rne (x / u)) * u - x\<bar> = \<bar>of_int (rne (x / u)) - x / u\<bar> * u"
  proof -
    have "of_int (rne (x / u)) * u - x = (of_int (rne (x / u)) - x / u) * u" using u by (simp add: left_diff_distrib)
    then show ?thesis using u by (simp add: abs_mult)
  qed
  also have "\<dots> \<le> 1 / 2 * u" using rne_error [of "x / u"] u by (intro mult_right_mono) auto
  also have "\<dots> \<le> x / 2 ^ 53" using \<open>u * 2 ^ 52 \<le> x\<close> by simp
  finally show ?thesis by (simp add: fl_pos_def u_def Let_def)
qed

lemma fl_error: "\<bar>fl x - x\<bar> \<le> \<bar>x\<bar> / 2 ^ 53"
proof -
  consider "x = 0" | "x > 0" | "x < 0" by linarith
  then show ?thesis
  proof cases
    case 3
    have "\<bar>- fl_pos (- x) - x\<bar> = \<bar>fl_pos (- x) - (- x)\<bar>" by linarith
    then show ?thesis using 3 fl_pos_error [of "- x"] by (simp add: fl_def)
  qed (use fl_pos_error [of x] in \<open>simp_all add: fl_def\<close>)
qed

lemma unit_integral:
  assumes "x > 0" and "x < 2 ^ 53"
  shows "\<exists>k :: int. 1 / (2 :: rat) powi (expo x - 52) = of_int k"
proof -
  have "2 powi expo x < (2 :: rat) powi 53"
    using expo_bounds [OF assms(1)] assms(2) by (simp add: le_less_trans)
  then have "expo x < 53" using power_int_increasing [of 53 "expo x" "2 :: rat"] by linarith
  then have j: "expo x - 52 = - int (nat (52 - expo x))" by simp
  define j where "j = nat (52 - expo x)"
  have "1 / (2 :: rat) powi (expo x - 52) = of_int (2 ^ j)"
    unfolding j j_def [symmetric] by (simp add: power_int_minus divide_simps)
  then show ?thesis by blast
qed

text \<open>An integer below a number is still below it after rounding.\<close>

lemma fl_ge_int:
  assumes "of_int k \<le> x" and "k \<ge> 0" and "x < 2 ^ 53"
  shows "of_int k \<le> fl x"
proof (cases "x = 0")
  case True
  then show ?thesis using assms by (simp add: fl_def)
next
  case False
  then have x: "x > 0" using assms(1,2) by (metis le_less of_int_0_le_iff order_trans)
  define u where "u = (2 :: rat) powi (expo x - 52)"
  have u: "u > 0" by (simp add: u_def)
  obtain j :: int where j: "1 / u = of_int j" using unit_integral [OF x assms(3)] by (auto simp: u_def)
  have "of_int (k * j) = of_int k / u" using j by (metis of_int_mult times_divide_eq_right mult.right_neutral)
  also have "\<dots> \<le> x / u" using assms(1) u by (simp add: divide_right_mono)
  finally have "k * j \<le> rne (x / u)" by (rule rne_ge)
  then have "(of_int (k * j) :: rat) \<le> of_int (rne (x / u))" by (simp only: of_int_le_iff)
  then have "of_int (k * j) * u \<le> of_int (rne (x / u)) * u" using u by (intro mult_right_mono) (assumption, simp)
  moreover have "of_int (k * j) * u = of_int k" using j u by (simp add: field_simps)
  moreover have "fl x = of_int (rne (x / u)) * u" using x by (simp add: fl_def fl_pos_def u_def Let_def)
  ultimately show ?thesis by (simp only:)
qed

lemma fl_int_exact:
  assumes "0 \<le> k" and "k < 2 ^ 53"
  shows "fl (of_int k) = of_int k"
proof (cases "k = 0")
  case True
  then show ?thesis by (simp add: fl_def)
next
  case False
  then have x: "(of_int k :: rat) > 0" and x2: "(of_int k :: rat) < 2 ^ 53"
    using assms by (simp, metis of_int_less_iff of_int_numeral of_int_power)
  define u where "u = (2 :: rat) powi (expo (of_int k) - 52)"
  have u: "u > 0" by (simp add: u_def)
  obtain j :: int where j: "1 / u = of_int j" using unit_integral [OF x x2] by (auto simp: u_def)
  have "of_int k / u = of_int (k * j)" using j by (metis of_int_mult times_divide_eq_right mult.right_neutral)
  then have "rne (of_int k / u) = k * j" by (simp only: rne_int)
  moreover have "of_int (k * j) * u = (of_int k :: rat)" using j u by (simp add: field_simps)
  ultimately show ?thesis using x by (simp add: fl_def fl_pos_def u_def Let_def)
qed

lemma fl_neg: "fl (- x) = - fl x"
  by (auto simp: fl_def)

section \<open>What rounding promises\<close>

text \<open>
  A rounding function: a relative error of at most \<open>2 ^ -53\<close>, and no rounding below an integer, for
  numbers in the range where integers are exact.
\<close>

locale rounding =
  fixes rnd :: "rat \<Rightarrow> rat"
  assumes error: "\<bar>rnd x - x\<bar> \<le> \<bar>x\<bar> / 2 ^ 53"
    and ge_int: "of_int k \<le> x \<Longrightarrow> k \<ge> 0 \<Longrightarrow> x < 2 ^ 53 \<Longrightarrow> of_int k \<le> rnd x"
begin

lemma error_bound:
  assumes "\<bar>x\<bar> \<le> b"
  shows "\<bar>rnd x - x\<bar> \<le> b / 2 ^ 53"
proof -
  have "\<bar>x\<bar> / 2 ^ 53 \<le> b / 2 ^ 53" using assms by (rule divide_right_mono) simp
  with error [of x] show ?thesis by linarith
qed

text \<open>Dividing two integers and cutting off the fraction is integer division.\<close>

lemma floor_div:
  fixes a b :: int
  assumes "0 \<le> a" and "a < 2 ^ 53" and "0 < b"
  shows "\<lfloor>rnd (of_int a / of_int b)\<rfloor> = a div b"
proof -
  let ?q = "of_int a / of_int b :: rat"
  have d: "of_int (a div b) \<le> ?q" "?q = of_int (a div b) + of_int (a mod b) / of_int b"
  proof -
    have "of_int a = (of_int (a div b) * of_int b + of_int (a mod b) :: rat)"
      by (metis div_mult_mod_eq of_int_add of_int_mult)
    then show "?q = of_int (a div b) + of_int (a mod b) / of_int b"
      using assms(3) by (simp add: field_simps)
    then show "of_int (a div b) \<le> ?q" using assms(3) by simp
  qed
  have q: "0 \<le> ?q" using assms by simp
  have "?q \<le> of_int a" using assms by (simp add: divide_le_eq mult_le_cancel_left1)
  moreover have a: "(of_int a :: rat) < 2 ^ 53" using assms(2) by (metis of_int_less_iff of_int_numeral of_int_power)
  ultimately have lo: "of_int (a div b) \<le> rnd ?q"
    using d(1) assms by (intro ge_int) (simp_all add: pos_imp_zdiv_nonneg_iff)
  have "of_int (a mod b) + 1 \<le> (of_int b :: rat)"
    using assms(3) by (metis add1_zle_eq of_int_1 of_int_add of_int_le_iff pos_mod_bound)
  then have "of_int (a mod b) / of_int b + 1 / of_int b \<le> (1 :: rat)"
    using assms(3) by (simp add: add_divide_distrib [symmetric] divide_le_eq)
  with d(2) have gap: "?q + 1 / of_int b \<le> of_int (a div b) + 1" by linarith
  have "?q / 2 ^ 53 < 1 / of_int b"
    using a assms(3) by (simp add: divide_strict_right_mono field_simps)
  then have "rnd ?q < ?q + 1 / of_int b" using error [of ?q] q by simp
  with gap lo show ?thesis by (intro floor_unique) linarith+
qed

end

interpretation float64: rounding fl
  by unfold_locales (rule fl_error, rule fl_ge_int)

end
