(* ===== verification/Rebalance.thy ===== *)
theory Rebalance
  imports Redis_Admin Go_Float
begin

text \<open>
  The distribution of slots over the masters (\<^verbatim>\<open>controllers/clustering/rebalance.go\<close>): the first
  allocation of all slots to new masters and the rebalancing of a running cluster, with the slots it
  moves and the commands it sends. Balances and slot counts are far below \<open>2 ^ 53\<close>, so that their
  conversions to \<^verbatim>\<open>float64\<close> are exact; the quotients are rounded.
\<close>

section \<open>Operations\<close>

text \<open>\<^verbatim>\<open>utils.Round\<close>\<close>

definition Round :: "rat \<Rightarrow> int" where
  "Round num = trunc (fl (num + (if num \<ge> 0 then 1 / 2 else - (1 / 2))))"

definition clusterHashSlots :: int where
  "clusterHashSlots = uint (GetHashMaxSlot + 1)"

definition expected_slots :: "nat \<Rightarrow> int" where
  "expected_slots nbNode = trunc (fl (of_int clusterHashSlots / of_nat nbNode))"

definition set_balance :: "nref \<Rightarrow> int \<Rightarrow> heap \<Rightarrow> heap" where
  "set_balance r b h = h(r := SetBalance (h r) b)"

fun init_balances :: "int \<Rightarrow> Nodes \<Rightarrow> heap \<Rightarrow> heap" where
  "init_balances expected [] h = h"
| "init_balances expected (r # ns) h =
     init_balances expected ns (set_balance r (int (length (n_Slots (h r))) - expected) h)"

fun total_balance :: "Nodes \<Rightarrow> heap \<Rightarrow> int" where
  "total_balance [] h = 0"
| "total_balance (r # ns) h = Balance (h r) + total_balance ns h"

text \<open>One pass of the loop body over all nodes, and the loop itself, which may run forever.\<close>

fun adjust_pass :: "Nodes \<Rightarrow> int \<Rightarrow> heap \<Rightarrow> int \<times> heap" where
  "adjust_pass [] tb h = (tb, h)"
| "adjust_pass (r # ns) tb h =
     (if Balance (h r) < 0 \<and> tb > 0
      then adjust_pass ns (tb - 1) (set_balance r (Balance (h r) - 1) h)
      else adjust_pass ns tb h)"

partial_function (option) adjust_loop :: "Nodes \<Rightarrow> int \<Rightarrow> heap \<Rightarrow> heap option" where
  "adjust_loop ns tb h =
     (if tb > 0 then (case adjust_pass ns tb h of (tb, h) \<Rightarrow> adjust_loop ns tb h) else Some h)"

record MovedNode =
  mv_Source :: nref
  mv_Slot :: slot

text \<open>
  The inner loop of \<^verbatim>\<open>computeReshardTable\<close> for one source: \<open>None\<close> is the panic of an index beyond the
  slots of the node.
\<close>

fun take_slots :: "nref \<Rightarrow> slot list \<Rightarrow> int \<Rightarrow> nat list \<Rightarrow> MovedNode list \<Rightarrow> MovedNode list option" where
  "take_slots r keys numSlots [] moved = Some moved"
| "take_slots r keys numSlots (i # is) moved =
     (if int (length moved) < numSlots then
        if i < length keys
        then take_slots r keys numSlots is (moved @ [\<lparr>mv_Source = r, mv_Slot = keys ! i\<rparr>])
        else None
      else take_slots r keys numSlots is moved)"

text \<open>
  \<^verbatim>\<open>float64(numSlots) / float64(sourceTotSlots) * float64(node.TotalSlots())\<close>, rounded up or down.
  Without any source slots the product is not a number, whose conversion to \<^verbatim>\<open>int\<close> is not positive:
  the loop runs zero times.
\<close>

definition share_of :: "int \<Rightarrow> int \<Rightarrow> int \<Rightarrow> bool \<Rightarrow> nat" where
  "share_of numSlots tot slots first =
     (if tot = 0 then 0
      else let n = fl (fl (of_int numSlots / of_int tot) * of_int slots)
           in nat (if first then \<lceil>n\<rceil> else \<lfloor>n\<rfloor>))"

fun reshard_sources :: "heap \<Rightarrow> int \<Rightarrow> int \<Rightarrow> bool \<Rightarrow> Nodes \<Rightarrow> MovedNode list \<Rightarrow> MovedNode list option" where
  "reshard_sources h numSlots tot first [] moved = Some moved"
| "reshard_sources h numSlots tot first (r # rs) moved =
     do {
       moved \<leftarrow> take_slots r (n_Slots (h r)) numSlots [0..<share_of numSlots tot (TotalSlots (h r)) first] moved;
       reshard_sources h numSlots tot False rs moved
     }"

definition computeReshardTable :: "(nref \<Rightarrow> nat) \<Rightarrow> heap \<Rightarrow> Nodes \<Rightarrow> int \<Rightarrow> MovedNode list option" where
  "computeReshardTable met h src numSlots =
     (let sources = SortByFunc met (\<lambda>a b. TotalSlots (h a) < TotalSlots (h b)) src;
          sourceTotSlots = sum_list (map (\<lambda>r. TotalSlots (h r)) sources)
      in reshard_sources h numSlots sourceTotSlots True sources [])"

definition moveSlot :: "env \<Rightarrow> MovedNode \<Rightarrow> nref \<Rightarrow> world \<Rightarrow> (err option \<times> world) option" where
  "moveSlot env source target w =
     (let src = mv_Source source; slot = mv_Slot source;
          taddr = IPPort (w_heap w target); saddr = IPPort (w_heap w src);
          tid = n_ID (w_heap w target); sid = n_ID (w_heap w src)
      in case SetSlot env taddr ''IMPORTING'' slot tid w of
           (err, w) \<Rightarrow>
             if err \<noteq> None then Some (err, w)
             else case SetSlot env saddr ''MIGRATING'' slot sid w of
               (err, w) \<Rightarrow>
                 if err \<noteq> None then Some (err, w)
                 else do {
                   ((_, err), w) \<leftarrow> MigrateKeysInSlot env saddr (w_heap w target) slot 10 30000 True w;
                   if err \<noteq> None then Some (err, w)
                   else
                     let (_, w) = SetSlot env taddr ''NODE'' slot tid w;
                         (_, w) = SetSlot env saddr ''NODE'' slot tid w
                     in Some (None, set_node src (\<lambda>n. n\<lparr>n_Slots := RemoveSlot (n_Slots n) slot\<rparr>) w)
                 })"

fun moveSlots :: "env \<Rightarrow> MovedNode list \<Rightarrow> nref \<Rightarrow> world \<Rightarrow> (err option \<times> world) option" where
  "moveSlots env [] dst w = Some (None, w)"
| "moveSlots env (e # es) dst w =
     do {
       (err, w) \<leftarrow> moveSlot env e dst w;
       if err \<noteq> None then Some (err, w) else moveSlots env es dst w
     }"

text \<open>One iteration of the main loop, and the loop over the two indices.\<close>

definition rebalance_step :: "env \<Rightarrow> nref \<Rightarrow> nref \<Rightarrow> world \<Rightarrow> (err option \<times> world) option" where
  "rebalance_step env dst src w =
     (let h = w_heap w;
          numSlots = (if \<bar>Balance (h dst)\<bar> < \<bar>Balance (h src)\<bar> then \<bar>Balance (h dst)\<bar> else \<bar>Balance (h src)\<bar>)
      in do {
           (err, w) \<leftarrow> (if numSlots > 0
                         then do { table \<leftarrow> computeReshardTable (e_met env (w_trace w)) h [src] numSlots; moveSlots env table dst w }
                         else Some (None, w));
           if err \<noteq> None then Some (err, w)
           else
             let w = set_node dst (\<lambda>n. SetBalance n (Balance n + numSlots)) w;
                 w = set_node src (\<lambda>n. SetBalance n (Balance n - numSlots)) w
             in Some (None, w)
         })"

partial_function (option) rebalance_loop ::
    "env \<Rightarrow> Nodes \<Rightarrow> int \<Rightarrow> int \<Rightarrow> world \<Rightarrow> (err option \<times> world) option" where
  "rebalance_loop env sn dstIdx srcIdx w =
     (if dstIdx < srcIdx then
        do {
          (err, w) \<leftarrow> rebalance_step env (sn ! nat dstIdx) (sn ! nat srcIdx) w;
          if err \<noteq> None then Some (err, w)
          else rebalance_loop env sn
                 (if Balance (w_heap w (sn ! nat dstIdx)) = 0 then dstIdx + 1 else dstIdx)
                 (if Balance (w_heap w (sn ! nat srcIdx)) = 0 then srcIdx - 1 else srcIdx) w
        }
      else Some (None, w))"

text \<open>The result holds the slice of nodes after the call, which is sorted in place.\<close>

definition RebalancedCluster :: "env \<Rightarrow> Nodes \<Rightarrow> world \<Rightarrow> ((err option \<times> Nodes) \<times> world) option" where
  "RebalancedCluster env newMasterNodes w =
     (let nbNode = length newMasterNodes;
          h = init_balances (expected_slots nbNode) newMasterNodes (w_heap w)
      in do {
           h \<leftarrow> adjust_loop newMasterNodes (total_balance newMasterNodes h) h;
           let sn = SortByFunc (e_met env (w_trace w)) (\<lambda>a b. Balance (h a) < Balance (h b)) newMasterNodes;
           (err, w) \<leftarrow> rebalance_loop env sn 0 (int (length sn) - 1) (w\<lparr>w_heap := h\<rparr>);
           Some ((err, sn), w)
         })"

text \<open>
  \<^verbatim>\<open>AllocSlots\<close>: the loop with its variables \<^verbatim>\<open>index\<close>, \<^verbatim>\<open>first\<close> and \<^verbatim>\<open>cursor\<close>. \<^verbatim>\<open>Slot(first)\<close> is the
  conversion of an \<^verbatim>\<open>int\<close> to a 64-bit slot.
\<close>

definition alloc_last :: "nat \<Rightarrow> nat \<Rightarrow> int \<Rightarrow> rat \<Rightarrow> rat \<Rightarrow> int" where
  "alloc_last mastersNum index first cursor slotsPerNode =
     (let last = Round (fl (fl (cursor + slotsPerNode) - 1));
          last = (if last > clusterHashSlots \<or> int index = int mastersNum - 1 then clusterHashSlots - 1 else last)
      in if last < first then first else last)"

fun AllocSlots_loop :: "env \<Rightarrow> nat \<Rightarrow> rat \<Rightarrow> nat \<Rightarrow> int \<Rightarrow> rat \<Rightarrow> Nodes \<Rightarrow> world \<Rightarrow> (err option \<times> world) option" where
  "AllocSlots_loop env mastersNum slotsPerNode index first cursor [] w = Some (None, w)"
| "AllocSlots_loop env mastersNum slotsPerNode index first cursor (r # ns) w =
     (let last = alloc_last mastersNum index first cursor slotsPerNode
      in do {
           slots \<leftarrow> BuildSlotSlice (word_of_int first) (word_of_int last);
           let w = set_node r (\<lambda>n. n\<lparr>n_Slots := slots\<rparr>) w;
           let (err, w) = Admin_AddSlots env (IPPort (w_heap w r)) slots w;
           if err \<noteq> None then Some (err, w)
           else AllocSlots_loop env mastersNum slotsPerNode (Suc index) (last + 1) (fl (cursor + slotsPerNode)) ns w
         })"

definition AllocSlots :: "env \<Rightarrow> Nodes \<Rightarrow> world \<Rightarrow> (err option \<times> world) option" where
  "AllocSlots env newMasterNodes w =
     (let mastersNum = length newMasterNodes;
          slotsPerNode = fl (of_int clusterHashSlots / of_nat mastersNum)
      in AllocSlots_loop env mastersNum slotsPerNode 0 0 0 newMasterNodes w)"

section \<open>Expected shares\<close>

lemma clusterHashSlots_eq [simp]: "clusterHashSlots = 16384"
  by (simp add: clusterHashSlots_def GetHashMaxSlot_def DefaultHashMaxSlots_def)

lemma expected_slots_eq: "n > 0 \<Longrightarrow> expected_slots n = 16384 div int n"
proof -
  assume n: "n > 0"
  have "\<lfloor>fl (of_int 16384 / of_int (int n))\<rfloor> = 16384 div int n"
    using n by (intro float64.floor_div) simp_all
  moreover have "fl (of_int 16384 / of_int (int n)) \<ge> of_int 0"
    using n by (intro float64.ge_int) (simp_all add: divide_less_eq)
  ultimately show ?thesis by (simp add: expected_slots_def trunc_def)
qed

section \<open>The first allocation\<close>

text \<open>The values of \<^verbatim>\<open>cursor\<close> and the bounds between the shares of consecutive masters.\<close>

fun cursor_at :: "rat \<Rightarrow> nat \<Rightarrow> rat" where
  "cursor_at spn 0 = 0"
| "cursor_at spn (Suc i) = fl (cursor_at spn i + spn)"

definition bound_at :: "nat \<Rightarrow> nat \<Rightarrow> int" where
  "bound_at n i =
     (if i = 0 then 0 else if i = n then 16384
      else Round (fl (cursor_at (fl (16384 / of_nat n)) i - 1)) + 1)"

lemma slots_per_node:
  assumes "0 < n" and "n \<le> 16384"
  defines "q \<equiv> 16384 / of_nat n :: rat"
  shows "1 \<le> fl q" and "\<bar>fl q - q\<bar> \<le> 1 / 2 ^ 39" and "1 \<le> q" and "q \<le> 16384"
proof -
  have n: "(0 :: rat) < of_nat n" "(of_nat n :: rat) \<le> 16384"
    using assms by (simp, metis of_nat_le_iff of_nat_numeral)
  then show q1: "1 \<le> q" by (simp add: q_def)
  have "1 \<le> (of_nat n :: rat)" using assms(1) by (metis One_nat_def Suc_leI of_nat_1 of_nat_mono)
  then show q2: "q \<le> 16384" by (simp add: q_def divide_le_eq)
  show "1 \<le> fl q" using float64.ge_int [of 1 q] q1 q2 by simp
  show "\<bar>fl q - q\<bar> \<le> 1 / 2 ^ 39" using float64.error_bound [of q 16384] q1 q2 by simp
qed

lemma cursor_error:
  assumes n: "0 < n" "n \<le> 16384"
  defines "q \<equiv> 16384 / of_nat n :: rat"
  shows "i \<le> n \<Longrightarrow> \<bar>cursor_at (fl q) i - of_nat i * q\<bar> \<le> of_nat i / 2 ^ 37 \<and> cursor_at (fl q) i \<ge> of_nat (min i 1)"
proof (induction i)
  case 0
  then show ?case by simp
next
  case (Suc i)
  note q = slots_per_node [OF n, folded q_def]
  let ?c = "cursor_at (fl q) i"
  have ih: "\<bar>?c - of_nat i * q\<bar> \<le> of_nat i / 2 ^ 37" "?c \<ge> 0"
    using Suc by (auto intro: order.trans [of _ "of_nat (min i 1)"])
  have "(of_nat (Suc i) :: rat) \<le> of_nat n" using Suc.prems by (simp only: of_nat_le_iff)
  then have "of_nat (Suc i) * q \<le> of_nat n * q" using q(3) by (intro mult_right_mono) auto
  also have "of_nat n * q = 16384" using n by (simp add: q_def)
  finally have top: "of_nat (Suc i) * q \<le> 16384" .
  have "(of_nat i :: rat) \<le> 16384" using Suc.prems n by (metis Suc_leD of_nat_le_iff of_nat_numeral order.trans)
  then have "of_nat i / 2 ^ 37 \<le> (1 :: rat)" "1 / 2 ^ 39 \<le> (1 :: rat)" by simp_all
  moreover have "of_nat (Suc i) * q = of_nat i * q + q" by (simp add: algebra_simps)
  ultimately have b: "\<bar>?c + fl q - of_nat (Suc i) * q\<bar> \<le> of_nat i / 2 ^ 37 + 1 / 2 ^ 39" "?c + fl q \<le> 32768" "1 \<le> ?c + fl q"
    using ih q top by linarith+
  have "\<bar>fl (?c + fl q) - (?c + fl q)\<bar> \<le> 2 ^ 15 / 2 ^ 53"
    using b by (intro float64.error_bound) simp
  moreover have "of_int 1 \<le> fl (?c + fl q)"
    using b(2,3) by (intro float64.ge_int) simp_all
  moreover have "(of_nat i / 2 ^ 37 + 1 / 2 ^ 39 + 2 ^ 15 / 2 ^ 53 :: rat) \<le> of_nat (Suc i) / 2 ^ 37"
    by (simp add: field_simps)
  ultimately have "\<bar>fl (?c + fl q) - of_nat (Suc i) * q\<bar> \<le> of_nat (Suc i) / 2 ^ 37" and "1 \<le> fl (?c + fl q)"
    using b(1) by linarith+
  then show ?case by (simp only: cursor_at.simps) simp
qed

lemma bound_error:
  assumes n: "0 < n" "n \<le> 16384" and "i \<le> n"
  shows "\<bar>of_int (bound_at n i) - of_nat i * (16384 / of_nat n)\<bar> \<le> (1 / 2 + 1 / 2 ^ 21 :: rat)"
proof -
  define q where "q = (16384 / of_nat n :: rat)"
  note q = slots_per_node [OF n, folded q_def]
  consider "i = 0" | "i = n" | "0 < i" "i < n" using assms(3) by linarith
  then show ?thesis
  proof cases
    case 3
    let ?c = "cursor_at (fl q) i"
    have c: "\<bar>?c - of_nat i * q\<bar> \<le> of_nat i / 2 ^ 37" "1 \<le> ?c"
      using cursor_error [OF n assms(3)] 3 by (auto simp: q_def [symmetric] min_def split: if_splits)
    have "(of_nat i :: rat) \<le> of_nat n" using 3 by simp
    then have "of_nat i * q \<le> of_nat n * q" using q(3) by (intro mult_right_mono) auto
    also have "of_nat n * q = 16384" using n by (simp add: q_def)
    finally have top: "of_nat i * q \<le> 16384" .
    have "(of_nat i :: rat) \<le> 16384" using 3 n by (metis less_imp_le_nat of_nat_le_iff of_nat_numeral order.trans)
    then have e: "of_nat i / 2 ^ 37 \<le> (1 / 2 ^ 23 :: rat)" by simp
    have "(1 / 2 ^ 23 :: rat) \<le> 1" by simp
    then have c1: "?c - 1 \<ge> 0" "?c - 1 \<le> 32768" using c e top by linarith+
    define x where "x = fl (?c - 1)"
    have x: "\<bar>x - (?c - 1)\<bar> \<le> 2 ^ 15 / 2 ^ 53" "x \<ge> 0"
      using float64.error_bound [of "?c - 1" 32768] float64.ge_int [of 0 "?c - 1"] c1
      by (simp_all add: x_def)
    moreover have "(2 ^ 15 / 2 ^ 53 :: rat) \<le> 1" by simp
    ultimately have x2: "x + 1 / 2 \<le> 65536" using c1 by linarith
    define y where "y = fl (x + 1 / 2)"
    have y: "\<bar>y - (x + 1 / 2)\<bar> \<le> 2 ^ 16 / 2 ^ 53" "y \<ge> 0"
      using float64.error_bound [of "x + 1 / 2" 65536] float64.ge_int [of 0 "x + 1 / 2"] x x2
      by (simp_all add: y_def)
    have "bound_at n i = \<lfloor>y\<rfloor> + 1"
      using 3 x(2) y(2) by (simp add: bound_at_def Round_def trunc_def q_def [symmetric] x_def [symmetric] y_def [symmetric])
    moreover have "of_int \<lfloor>y\<rfloor> \<le> y" "y < of_int \<lfloor>y\<rfloor> + 1" by linarith+
    moreover have "(1 / 2 ^ 23 + 2 ^ 15 / 2 ^ 53 + 2 ^ 16 / 2 ^ 53 :: rat) \<le> 1 / 2 ^ 21" by simp
    ultimately have "of_int (bound_at n i) - of_nat i * q \<le> 1 / 2 + 1 / 2 ^ 21"
      and "- (1 / 2 + 1 / 2 ^ 21) \<le> of_int (bound_at n i) - of_nat i * q"
      using c(1) e x(1) y(1) by (simp_all only: of_int_add of_int_1)
    then show ?thesis unfolding q_def [symmetric] by (intro abs_leI) linarith+
  qed (use n in \<open>simp_all add: bound_at_def\<close>)
qed

lemma int_near:
  fixes s t :: int
  assumes "\<bar>of_int s - x\<bar> \<le> a" and "\<bar>of_int t - y\<bar> \<le> b" and "a + b + \<bar>x - y\<bar> < (1 :: rat)"
  shows "s = t"
proof -
  have "\<bar>of_int s - of_int t\<bar> < (1 :: rat)" using assms by linarith
  then have "\<bar>of_int (s - t)\<bar> < (1 :: rat)" by simp
  then show ?thesis by linarith
qed

lemma near_diff:
  fixes a b x q e :: rat
  shows "\<bar>a - x\<bar> \<le> e \<Longrightarrow> \<bar>b - (x + q)\<bar> \<le> e \<Longrightarrow> \<bar>b - a - q\<bar> \<le> e + e"
  by linarith

text \<open>Every share is the integer quotient or one more, and exactly the quotient if there is no rest.\<close>

lemma share_bounds:
  assumes n: "0 < n" "n \<le> 16384" and i: "i < n"
  shows "16384 div int n \<le> bound_at n (Suc i) - bound_at n i \<and>
         bound_at n (Suc i) - bound_at n i \<le> (16384 + int n - 1) div int n"
proof -
  let ?q = "16384 / of_nat n :: rat" and ?d = "16384 div int n" and ?m = "16384 mod int n"
  let ?s = "bound_at n (Suc i) - bound_at n i"
  have q: "?q = of_int ?d + of_int ?m / of_nat n"
  proof -
    have "(16384 :: rat) = of_int (?d * int n + ?m)" by simp
    also have "\<dots> = of_int ?d * of_nat n + of_int ?m" by (simp only: of_int_add of_int_mult of_int_of_nat_eq)
    finally show ?thesis using n by (simp add: field_simps)
  qed
  note b1 = bound_error [OF n less_imp_le [OF i]] and b2 = bound_error [OF n Suc_leI [OF i]]
  show ?thesis
  proof (cases "?m = 0")
    case True
    then have q: "?q = of_int ?d" using q by simp
    have "bound_at n j = int j * ?d" if "j \<le> n" for j
      by (rule int_near [OF bound_error [OF n that], where b = 0 and y = "of_nat j * ?q"]) (simp_all add: q)
    then have "?s = ?d" using i by (simp add: algebra_simps)
    moreover have "(16384 + int n - 1) div int n = ?d"
    proof -
      have "16384 + int n - 1 = (int n - 1) + ?d * int n" using True by (simp add: mod_0_imp_dvd)
      also have "\<dots> div int n = ?d" using n by (subst div_mult_self1) (simp_all add: div_pos_pos_trivial)
      finally show ?thesis .
    qed
    ultimately show ?thesis by simp
  next
    case False
    have m: "1 \<le> ?m" "?m + 1 \<le> int n" using False n pos_mod_bound [of "int n" 16384] pos_mod_sign [of "int n" 16384] by linarith+
    have nn: "(of_nat n :: rat) > 0" "(of_nat n :: rat) \<le> 16384" using n by (simp, metis of_nat_le_iff of_nat_numeral)
    have f1: "1 / of_nat n \<le> of_int ?m / (of_nat n :: rat)" using m(1) nn by (simp add: divide_right_mono)
    have "of_int ?m + 1 \<le> (of_nat n :: rat)" using m(2) by (metis of_int_1 of_int_add of_int_le_iff of_int_of_nat_eq)
    then have "of_int ?m / of_nat n + 1 / of_nat n \<le> (1 :: rat)" using nn by (simp add: add_divide_distrib [symmetric])
    moreover have f2: "1 / 16384 \<le> 1 / (of_nat n :: rat)" using nn by (intro divide_left_mono) auto
    moreover have "\<bar>of_int ?s - ?q\<bar> \<le> 1 + 1 / 2 ^ 20"
    proof -
      have "of_nat (Suc i) * ?q = of_nat i * ?q + ?q" by (simp add: ring_distribs add_divide_distrib)
      with near_diff [OF b1, of "of_int (bound_at n (Suc i))" ?q] b2 show ?thesis by (simp only: of_int_diff) simp
    qed
    moreover have "(1 / 2 ^ 20 :: rat) < 1 / 16384" by simp
    ultimately have "of_int ?d - 1 < (of_int ?s :: rat)" "of_int ?s < (of_int ?d + 2 :: rat)"
      using q f1 by linarith+
    then have "of_int (?d - 1) < (of_int ?s :: rat)" "of_int ?s < (of_int (?d + 2) :: rat)" by simp_all
    then have "?d - 1 < ?s" "?s < ?d + 2" by (simp_all only: of_int_less_iff)
    moreover have "?d + 1 \<le> (16384 + int n - 1) div int n"
    proof -
      have "16384 + int n - 1 = (?m - 1) + (?d + 1) * int n" by (simp add: algebra_simps)
      moreover have "((?m - 1) + (?d + 1) * int n) div int n \<ge> ?d + 1"
        using n m by (subst div_mult_self1) (simp_all add: pos_imp_zdiv_nonneg_iff)
      ultimately show ?thesis by (simp only:)
    qed
    ultimately show ?thesis by linarith
  qed
qed

lemma bound_mono: "0 < n \<Longrightarrow> n \<le> 16384 \<Longrightarrow> i < n \<Longrightarrow> bound_at n i + 1 \<le> bound_at n (Suc i)"
proof -
  assume a: "0 < n" "n \<le> 16384" "i < n"
  then have "0 < 16384 div int n" by (simp add: pos_imp_zdiv_pos_iff)
  with share_bounds [OF a] show ?thesis by linarith
qed

lemma bound_range:
  assumes "0 < n" "n \<le> 16384"
  shows "i \<le> n \<Longrightarrow> int i \<le> bound_at n i \<and> bound_at n i \<le> 16384 - int (n - i)"
proof -
  have up: "i \<le> n \<Longrightarrow> int i \<le> bound_at n i" for i
  proof (induction i)
    case 0
    then show ?case by (simp add: bound_at_def)
  next
    case (Suc i)
    with bound_mono [OF assms, of i] show ?case by simp
  qed
  have down: "j \<le> n \<Longrightarrow> bound_at n (n - j) \<le> 16384 - int j" for j
  proof (induction j)
    case 0
    then show ?case using assms by (simp add: bound_at_def)
  next
    case (Suc j)
    then have "Suc (n - Suc j) = n - j" by simp
    with Suc bound_mono [OF assms, of "n - Suc j"] show ?case by simp
  qed
  assume "i \<le> n"
  with up [of i] down [of "n - i"] show ?thesis by simp
qed

text \<open>What an iteration of the allocation loop computes for \<^verbatim>\<open>last\<close>.\<close>

lemma alloc_last_bound:
  assumes "0 < n" "n \<le> 16384" "i < n"
  shows "alloc_last n i (bound_at n i) (cursor_at (fl (16384 / of_nat n)) i) (fl (16384 / of_nat n)) = bound_at n (Suc i) - 1"
proof -
  let ?l = "Round (fl (fl (cursor_at (fl (16384 / of_nat n)) i + fl (16384 / of_nat n)) - 1))"
  have mono: "bound_at n i + 1 \<le> bound_at n (Suc i)" by (rule bound_mono [OF assms])
  have le: "bound_at n (Suc i) \<le> 16384" using bound_range [OF assms(1,2), of "Suc i"] assms(3) by simp
  show ?thesis
  proof (cases "Suc i = n")
    case True
    then have "bound_at n (Suc i) = 16384" "int i = int n - 1" by (auto simp: bound_at_def)
    with mono show ?thesis by (simp add: alloc_last_def Let_def)
  next
    case False
    then have "?l = bound_at n (Suc i) - 1" "int i \<noteq> int n - 1"
      using assms(3) by (auto simp: bound_at_def)
    with mono le show ?thesis by (simp add: alloc_last_def Let_def)
  qed
qed

definition share :: "nat \<Rightarrow> nat \<Rightarrow> slot list" where
  "share n i = map word_of_nat [nat (bound_at n i)..<nat (bound_at n (Suc i))]"

lemma BuildSlotSlice_ints:
  assumes "0 \<le> a" and "a < b" and "b \<le> 16384"
  shows "BuildSlotSlice (word_of_int a) (word_of_int (b - 1)) = Some (map word_of_nat [nat a..<nat b])"
proof -
  have u: "unat (word_of_int k :: slot) = nat k" if "0 \<le> k" "k < 16384" for k
  proof -
    have "uint (word_of_int k :: slot) = k" using that by (simp add: uint_word_of_int)
    then show ?thesis by (metis nat_uint_eq)
  qed
  define last where "last = (word_of_int (b - 1) :: slot)"
  have l: "Suc (unat last) = nat b" using u [of "b - 1"] assms by (simp add: last_def)
  then have "last \<noteq> - 1" unfolding not_max_word using assms by simp
  with l show ?thesis
    unfolding last_def [symmetric] using assms by (simp add: BuildSlotSlice_eq slots_between_def u del: upt_Suc)
qed

lemma Admin_AddSlots_ok:
  assumes "ping_returns env" and "\<And>h a x y. e_addslots env h a x y = None"
  shows "fst (Admin_AddSlots env addr slots w) = None \<and> w_heap (snd (Admin_AddSlots env addr slots w)) = w_heap w"
proof -
  obtain r where "e_ping env (w_trace w) addr = Some r" using assms(1) by (auto simp: ping_returns_def)
  with assms(2) show ?thesis by (simp add: Admin_AddSlots_def cnx_Get_def connect_eq Let_def)
qed

lemma AllocSlots_loop_shares:
  assumes n: "0 < n" "n \<le> 16384" and env: "ping_returns env" "\<And>h a x y. e_addslots env h a x y = None"
  shows "i + length ns = n \<Longrightarrow> distinct ns \<Longrightarrow>
    \<exists>w'. AllocSlots_loop env n (fl (16384 / of_nat n)) i (bound_at n i) (cursor_at (fl (16384 / of_nat n)) i) ns w = Some (None, w')
       \<and> (\<forall>r. r \<notin> set ns \<longrightarrow> w_heap w' r = w_heap w r)
       \<and> (\<forall>r. w_heap w' r = (w_heap w r)\<lparr>n_Slots := n_Slots (w_heap w' r)\<rparr>)
       \<and> map (\<lambda>r. n_Slots (w_heap w' r)) ns = map (share n) [i..<n]"
proof (induction ns arbitrary: i w)
  case Nil
  then show ?case by simp
next
  case (Cons r ns)
  have i: "i < n" using Cons.prems by simp
  have slots: "BuildSlotSlice (word_of_int (bound_at n i)) (word_of_int (bound_at n (Suc i) - 1)) = Some (share n i)"
    unfolding share_def using bound_range [OF n, of i] bound_range [OF n, of "Suc i"] bound_mono [OF n i] i
    by (intro BuildSlotSlice_ints) simp_all
  define w1 where "w1 = set_node r (\<lambda>nd. nd\<lparr>n_Slots := share n i\<rparr>) w"
  obtain w2 where a: "Admin_AddSlots env (IPPort (w_heap w1 r)) (share n i) w1 = (None, w2)" "w_heap w2 = w_heap w1"
    using Admin_AddSlots_ok [OF env, of "IPPort (w_heap w1 r)" "share n i" w1] by (metis prod.collapse)
  have step: "AllocSlots_loop env n (fl (16384 / of_nat n)) i (bound_at n i) (cursor_at (fl (16384 / of_nat n)) i) (r # ns) w
      = AllocSlots_loop env n (fl (16384 / of_nat n)) (Suc i) (bound_at n (Suc i)) (cursor_at (fl (16384 / of_nat n)) (Suc i)) ns w2"
    unfolding AllocSlots_loop.simps alloc_last_bound [OF n i] Let_def slots
    using a(1) by (simp add: w1_def)
  obtain w' where w': "AllocSlots_loop env n (fl (16384 / of_nat n)) (Suc i) (bound_at n (Suc i)) (cursor_at (fl (16384 / of_nat n)) (Suc i)) ns w2 = Some (None, w')"
      "\<forall>r. r \<notin> set ns \<longrightarrow> w_heap w' r = w_heap w2 r" "map (\<lambda>r. n_Slots (w_heap w' r)) ns = map (share n) [Suc i..<n]"
    and only: "\<forall>r. w_heap w' r = (w_heap w2 r)\<lparr>n_Slots := n_Slots (w_heap w' r)\<rparr>"
  proof -
    have "Suc i + length ns = n" and "distinct ns" using Cons.prems by simp_all
    from Cons.IH [OF this, of w2] show ?thesis by (elim exE conjE) (rule that)
  qed
  have only': "w_heap w' x = (w_heap w x)\<lparr>n_Slots := n_Slots (w_heap w' x)\<rparr>" for x
  proof -
    have "(w_heap w2 x)\<lparr>n_Slots := s\<rparr> = (w_heap w x)\<lparr>n_Slots := s\<rparr>" for s using a(2) by (simp add: w1_def)
    with only show ?thesis by metis
  qed
  have "n_Slots (w_heap w' r) = share n i"
    using w'(2) Cons.prems a(2) by (simp add: w1_def)
  moreover have "[i..<n] = i # [Suc i..<n]" using i by (rule upt_conv_Cons)
  ultimately have "map (\<lambda>r. n_Slots (w_heap w' r)) (r # ns) = map (share n) [i..<n]" using w'(3) by simp
  moreover have "\<forall>x. x \<notin> set (r # ns) \<longrightarrow> w_heap w' x = w_heap w x" using w'(2) a(2) by (simp add: w1_def)
  ultimately show ?case unfolding step using w'(1) only' by blast
qed

lemma concat_shares:
  assumes "0 < n" "n \<le> 16384"
  shows "i \<le> n \<Longrightarrow> concat (map (share n) [0..<i]) = map word_of_nat [0..<nat (bound_at n i)]"
proof (induction i)
  case 0
  then show ?case by (simp add: bound_at_def)
next
  case (Suc i)
  have "nat (bound_at n i) \<le> nat (bound_at n (Suc i))" using bound_mono [OF assms, of i] Suc.prems by simp
  then have "[0..<nat (bound_at n (Suc i))] = [0..<nat (bound_at n i)] @ [nat (bound_at n i)..<nat (bound_at n (Suc i))]"
    by (metis le_add_diff_inverse upt_add_eq_append zero_le)
  with Suc show ?case by (simp add: share_def)
qed

section \<open>Balances\<close>

lemma IPPort_upd [simp]: "IPPort (n\<lparr>n_Slots := ss\<rparr>) = IPPort n" "IPPort (n\<lparr>n_balance := b\<rparr>) = IPPort n" "IPPort (SetBalance n b) = IPPort n"
  by (simp_all add: IPPort_def SetBalance_def)

lemma set_balance_simps [simp]:
  "Balance (set_balance r b h r') = (if r' = r then b else Balance (h r'))"
  "n_Slots (set_balance r b h r') = n_Slots (h r')"
  "IPPort (set_balance r b h r') = IPPort (h r')"
  "r' \<noteq> r \<Longrightarrow> set_balance r b h r' = h r'"
  by (simp_all add: set_balance_def SetBalance_def Balance_def)

lemma init_balances_eq:
  "distinct ns \<Longrightarrow> Balance (init_balances e ns h r) = (if r \<in> set ns then int (length (n_Slots (h r))) - e else Balance (h r))"
  "n_Slots (init_balances e ns h r) = n_Slots (h r)"
  "IPPort (init_balances e ns h r) = IPPort (h r)"
  by (induction e ns h rule: init_balances.induct) auto

lemma total_balance_sum: "total_balance ns h = sum_list (map (\<lambda>r. Balance (h r)) ns)"
  by (induction ns) auto

lemma total_set_balance:
  "distinct ns \<Longrightarrow> r \<in> set ns \<Longrightarrow>
   total_balance ns (set_balance r b h) = total_balance ns h + b - Balance (h r)"
  using sum_list_map_update [of ns r "\<lambda>r. Balance (h r)" "b - Balance (h r)"]
  by (simp add: total_balance_sum if_distrib cong: if_cong)

text \<open>
  A pass over the nodes takes one from the balance of each node that is behind, as long as there is
  something to take: the surplus of the others is left alone.
\<close>

lemma adjust_pass_frame:
  "adjust_pass ns tb h = (tb', h') \<Longrightarrow>
   n_Slots (h' r) = n_Slots (h r) \<and> IPPort (h' r) = IPPort (h r) \<and> (Balance (h r) \<ge> 0 \<longrightarrow> Balance (h' r) = Balance (h r)) \<and>
   (Balance (h r) < 0 \<longrightarrow> Balance (h' r) < 0) \<and> (r \<notin> set ns \<longrightarrow> h' r = h r) \<and> tb' \<le> tb \<and> (tb \<ge> 0 \<longrightarrow> tb' \<ge> 0)"
proof (induction ns tb h rule: adjust_pass.induct)
  case (1 tb h)
  then show ?case by simp
next
  case (2 a ns tb h)
  show ?case
  proof (cases "Balance (h a) < 0 \<and> tb > 0")
    case True
    with "2.IH"(1) [OF True] "2.prems" show ?thesis by (auto split: if_splits)
  next
    case False
    with "2.IH"(2) [OF False] "2.prems" show ?thesis by (simp split: if_splits)
  qed
qed

lemma adjust_pass_total:
  assumes "distinct all" and "set ns \<subseteq> set all"
  shows "adjust_pass ns tb h = (tb', h') \<Longrightarrow> total_balance all h' - tb' = total_balance all h - tb"
  using assms(2)
proof (induction ns tb h rule: adjust_pass.induct)
  case (1 tb h)
  then show ?case by simp
next
  case (2 a ns tb h)
  then show ?case
    using total_set_balance [OF assms(1), of a "Balance (h a) - 1" h] by (auto split: if_splits)
qed

lemma adjust_pass_progress:
  "adjust_pass ns tb h = (tb', h') \<Longrightarrow> tb > 0 \<Longrightarrow> \<exists>r \<in> set ns. Balance (h r) < 0 \<Longrightarrow> tb' < tb"
proof (induction ns tb h rule: adjust_pass.induct)
  case (1 tb h)
  then show ?case by simp
next
  case (2 a ns tb h)
  show ?case
  proof (cases "Balance (h a) < 0")
    case True
    with "2.prems" show ?thesis
      using adjust_pass_frame [of ns "tb - 1" "set_balance a (Balance (h a) - 1) h" tb' h'] by auto
  next
    case False
    with 2 show ?thesis by auto
  qed
qed

lemma adjust_loop_returns:
  assumes "distinct ns" and "tb \<ge> 0" and "tb = 0 \<or> (\<exists>r \<in> set ns. Balance (h r) < 0)"
  shows "\<exists>h'. adjust_loop ns tb h = Some h' \<and> total_balance ns h' = total_balance ns h - tb \<and>
           (\<forall>r. n_Slots (h' r) = n_Slots (h r) \<and> IPPort (h' r) = IPPort (h r) \<and> (Balance (h r) \<ge> 0 \<longrightarrow> Balance (h' r) = Balance (h r)) \<and>
                (Balance (h r) < 0 \<longrightarrow> Balance (h' r) < 0))"
  using assms(2,3)
proof (induction "nat tb" arbitrary: tb h rule: less_induct)
  case less
  show ?case
  proof (cases "tb > 0")
    case False
    then have "tb = 0" using less.prems by simp
    then show ?thesis by (subst adjust_loop.simps) simp
  next
    case True
    obtain tb1 h1 where p: "adjust_pass ns tb h = (tb1, h1)" by fastforce
    from True less.prems obtain r where r: "r \<in> set ns" "Balance (h r) < 0" by auto
    note fr = adjust_pass_frame [OF p]
    have "tb1 < tb" using adjust_pass_progress [OF p True] r by blast
    moreover have "0 \<le> tb1" using fr True by simp
    moreover have "Balance (h1 r) < 0" using fr [of r] r by simp
    ultimately obtain h' where h': "adjust_loop ns tb1 h1 = Some h'" "total_balance ns h' = total_balance ns h1 - tb1"
        "\<forall>r. n_Slots (h' r) = n_Slots (h1 r) \<and> IPPort (h' r) = IPPort (h1 r) \<and> (Balance (h1 r) \<ge> 0 \<longrightarrow> Balance (h' r) = Balance (h1 r)) \<and>
             (Balance (h1 r) < 0 \<longrightarrow> Balance (h' r) < 0)"
      using less.hyps [of tb1 h1] r(1) True by (metis nat_less_eq_zless less_imp_le)
    have "adjust_loop ns tb h = Some h'" using True p h'(1) by (subst adjust_loop.simps) simp
    moreover have "total_balance ns h' = total_balance ns h - tb"
      using h'(2) adjust_pass_total [OF assms(1) order_refl p] by simp
    ultimately show ?thesis using h'(3) fr by (metis linorder_not_le)
  qed
qed

lemma adjust_loop_diverges:
  assumes "adjust_loop ns tb h = Some h'"
  shows "tb \<le> 0 \<or> (\<exists>r \<in> set ns. Balance (h r) < 0)"
proof -
  have "adjust_pass ns tb h = (tb, h)" if "\<forall>r \<in> set ns. \<not> Balance (h r) < 0" for ns tb h
    using that by (induction ns tb h rule: adjust_pass.induct) auto
  then show ?thesis
    by (intro adjust_loop.raw_induct [where P = "\<lambda>ns tb h h'. tb \<le> 0 \<or> (\<exists>r \<in> set ns. Balance (h r) < 0)", OF _ assms])
      (smt (verit) old.prod.case option.distinct(1))
qed

section \<open>Moving slots\<close>

lemma take_slots_prefix:
  assumes "k \<le> length keys" and "k \<le> m"
  shows "i \<le> k \<Longrightarrow> length moved = i \<Longrightarrow>
    take_slots r keys (int k) [i..<m] moved
      = Some (moved @ map (\<lambda>s. \<lparr>mv_Source = r, mv_Slot = s\<rparr>) (take (k - i) (drop i keys)))"
proof (induction "k - i" arbitrary: i moved)
  case 0
  have "take_slots r keys (int (length moved)) is moved = Some moved" for "is"
    by (induction "is") auto
  with 0 show ?case by simp
next
  case (Suc x)
  then have i: "i < k" by simp
  then have "take (k - i) (drop i keys) = keys ! i # take (k - Suc i) (drop (Suc i) keys)"
    using assms(1) by (simp add: Cons_nth_drop_Suc [symmetric] take_Cons' Suc_diff_Suc)
  moreover have "[i..<m] = i # [Suc i..<m]" using i assms(2) by (intro upt_conv_Cons) simp
  ultimately show ?case
    using Suc.hyps(1) [of "Suc i" "moved @ [\<lparr>mv_Source = r, mv_Slot = keys ! i\<rparr>]"] Suc.hyps(2) Suc.prems i assms(1) by simp
qed

lemma share_of_enough:
  assumes "0 < k" and "k \<le> l" and "l \<le> 2 ^ 50"
  shows "nat k \<le> share_of k l l True"
proof -
  let ?x = "of_int k / of_int l :: rat"
  have l: "(of_int l :: rat) > 0" and k: "(of_int k :: rat) > 0" using assms by simp_all
  have k2: "(of_int k :: rat) \<le> 2 ^ 50"
    using assms by (metis dual_order.trans of_int_le_iff of_int_numeral of_int_power)
  have kx: "?x * of_int l = of_int k" using l by simp
  have "\<bar>fl ?x * of_int l - of_int k\<bar> = \<bar>fl ?x - ?x\<bar> * of_int l"
  proof -
    have "fl ?x * of_int l - of_int k = (fl ?x - ?x) * of_int l" by (simp only: left_diff_distrib kx)
    then show ?thesis using l by (simp add: abs_mult)
  qed
  also have "\<dots> \<le> (?x / 2 ^ 53) * of_int l"
    using float64.error [of ?x] l k by (intro mult_right_mono) simp_all
  also have "\<dots> = of_int k / 2 ^ 53" using l by simp
  finally have 1: "\<bar>fl ?x * of_int l - of_int k\<bar> \<le> of_int k / 2 ^ 53" .
  have "of_int k / 2 ^ 53 \<le> (1 / 8 :: rat)" using k2 by simp
  with 1 have small: "\<bar>fl ?x * of_int l - of_int k\<bar> \<le> 1 / 8" by (rule order_trans)
  moreover have "of_int k \<le> (1125899906842624 :: rat)" using k2 by simp
  ultimately have "\<bar>fl ?x * of_int l\<bar> \<le> 2251799813685248" using k by linarith
  then have "\<bar>fl (fl ?x * of_int l) - fl ?x * of_int l\<bar> \<le> 2251799813685248 / 2 ^ 53" by (rule float64.error_bound)
  moreover have "(2251799813685248 / 2 ^ 53 :: rat) = 1 / 4" by simp
  ultimately have "of_int k - 1 < fl (fl ?x * of_int l)" using small by linarith
  then have "k \<le> \<lceil>fl (fl ?x * of_int l)\<rceil>" by linarith
  then show ?thesis using assms by (simp add: share_of_def Let_def nat_mono)
qed

lemma computeReshardTable_single:
  assumes "0 < k" and "k \<le> int (length (n_Slots (h r)))" and "length (n_Slots (h r)) \<le> 2 ^ 50"
  shows "computeReshardTable met h [r] k = Some (map (\<lambda>s. \<lparr>mv_Source = r, mv_Slot = s\<rparr>) (take (nat k) (n_Slots (h r))))"
proof -
  have "int (length (n_Slots (h r))) \<le> 2 ^ 50" using assms(3) by (metis of_nat_le_iff of_nat_numeral of_nat_power)
  then have "nat k \<le> share_of k (TotalSlots (h r)) (TotalSlots (h r)) True"
    using assms by (intro share_of_enough) (simp_all add: TotalSlots_def)
  moreover have "nat k \<le> length (n_Slots (h r))" using assms by simp
  ultimately have "take_slots r (n_Slots (h r)) (int (nat k)) [0..<share_of k (TotalSlots (h r)) (TotalSlots (h r)) True] []
      = Some (map (\<lambda>s. \<lparr>mv_Source = r, mv_Slot = s\<rparr>) (take (nat k) (n_Slots (h r))))"
    by (subst take_slots_prefix) simp_all
  with assms(1) show ?thesis by (simp add: computeReshardTable_def SortByFunc_def)
qed

text \<open>
  What the servers and the client library promise while slots are moved: a ping gives a reply, the marks
  \<^verbatim>\<open>IMPORTING\<close> and \<^verbatim>\<open>MIGRATING\<close> are accepted, \<^verbatim>\<open>GETKEYSINSLOT\<close> lists keys, and the client refuses a command with a
  slice among its arguments. What becomes of the \<^verbatim>\<open>NODE\<close> commands is left open.
\<close>

definition marks_ok :: "env \<Rightarrow> bool" where
  "marks_ok env \<longleftrightarrow> ping_returns env \<and>
     (\<forall>h a action i slots. action \<in> {''IMPORTING'', ''MIGRATING''} \<longrightarrow>
        (\<exists>out. e_pipe env h a (map (setslot_args action i) slots) = (Some out, None)))"

definition moves_ok :: "env \<Rightarrow> (string \<Rightarrow> slot \<Rightarrow> string list) \<Rightarrow> bool" where
  "moves_ok env keys \<longleftrightarrow> marks_ok env \<and> refuses_lists env \<and> lists_keys env 10 keys"

lemma cnx_Get_ok:
  "ping_returns env \<Longrightarrow> \<exists>w'. cnx_Get env a w = ((Some a, None), w') \<and> a \<in> set (w_clients w') \<and> w_heap w' = w_heap w"
proof -
  assume "ping_returns env"
  then obtain r where "e_ping env (w_trace w) a = Some r" by (auto simp: ping_returns_def)
  then show ?thesis by (simp add: cnx_Get_def connect_eq)
qed

lemma SetSlot_ok:
  assumes "moves_ok env keys" and "action \<in> {''IMPORTING'', ''MIGRATING''}"
  shows "\<exists>w'. SetSlot env a action slot i w = (None, w') \<and> w_heap w' = w_heap w"
proof -
  obtain w1 where w1: "cnx_Get env a w = ((Some a, None), w1)" "w_heap w1 = w_heap w"
    using cnx_Get_ok [of env a w] assms by (auto simp: moves_ok_def marks_ok_def)
  obtain out where "e_pipe env (w_trace w1) a (map (setslot_args action i) [slot]) = (Some out, None)"
    using assms unfolding moves_ok_def marks_ok_def by blast
  with w1 show ?thesis by (simp add: SetSlot_def exec_pipe_def ValidatePipeResp_def)
qed

lemma SetSlot_heap [simp]: "w_heap (snd (SetSlot env a action slot i w)) = w_heap w"
proof -
  obtain c err w1 where 1: "cnx_Get env a w = ((c, err), w1)" by (metis surj_pair)
  obtain out err' w2 where 2: "exec_pipe env a [setslot_args action i slot] w1 = ((out, err'), w2)" by (metis surj_pair)
  obtain ok w3 where 3: "ValidatePipeResp env out a err' w2 = (ok, w3)" by (metis surj_pair)
  have "w_heap w1 = w_heap w" using cnx_Get_heap [of env a w] 1 by simp
  moreover have "w_heap w2 = w_heap w1" using 2 by (auto simp: exec_pipe_def)
  moreover have "w_heap w3 = w_heap w2" using ValidatePipeResp_heap [of env out a err' w2] 3 by simp
  ultimately show ?thesis using 1 2 3 by (simp add: SetSlot_def)
qed

lemma MigrateKeysInSlot_ok:
  assumes "moves_ok env keys"
  shows "\<exists>k err w'. MigrateKeysInSlot env a dest slot 10 t r w = Some ((k, err), w') \<and> w_heap w' = w_heap w \<and>
    (err = None \<longleftrightarrow> keys a slot = [])"
proof -
  obtain w1 where w1: "cnx_Get env a w = ((Some a, None), w1)" "w_heap w1 = w_heap w"
    using cnx_Get_ok [of env a w] assms by (auto simp: moves_ok_def marks_ok_def)
  have "refuses_lists env" "lists_keys env 10 keys" using assms by (simp_all add: moves_ok_def)
  from MigrateKeysInSlot_loop_stops [OF this, of a dest slot "Itoa t" r 0 w1] w1 show ?thesis
    by (auto simp: MigrateKeysInSlot_def)
qed

text \<open>
  Giving slots away, from a heap to a later one: every slot a node has lost held no key there, and an error is
  due to a slot with keys at one of the nodes that give.
\<close>

definition sheds :: "(string \<Rightarrow> slot \<Rightarrow> string list) \<Rightarrow> nref set \<Rightarrow> heap \<Rightarrow> err option \<Rightarrow> heap \<Rightarrow> bool" where
  "sheds keys R h err h' \<longleftrightarrow>
     (\<forall>r. IPPort (h' r) = IPPort (h r) \<and> set (n_Slots (h' r)) \<subseteq> set (n_Slots (h r)) \<and>
        (\<forall>s \<in> set (n_Slots (h r)) - set (n_Slots (h' r)). keys (IPPort (h r)) s = [])) \<and>
     (err \<noteq> None \<longrightarrow> (\<exists>r \<in> R. \<exists>s \<in> set (n_Slots (h r)). keys (IPPort (h r)) s \<noteq> []))"

lemma sheds_refl [simp]: "sheds keys R h None h"
  by (simp add: sheds_def)

lemma sheds_trans:
  assumes "sheds keys R h None h1" and "sheds keys R h1 err h'"
  shows "sheds keys R h err h'"
proof -
  have "IPPort (h' r) = IPPort (h r) \<and> set (n_Slots (h' r)) \<subseteq> set (n_Slots (h r)) \<and>
      (\<forall>s \<in> set (n_Slots (h r)) - set (n_Slots (h' r)). keys (IPPort (h r)) s = [])" for r
  proof -
    have 1: "IPPort (h1 r) = IPPort (h r)" "set (n_Slots (h1 r)) \<subseteq> set (n_Slots (h r))"
      "\<And>s. s \<in> set (n_Slots (h r)) \<Longrightarrow> s \<notin> set (n_Slots (h1 r)) \<Longrightarrow> keys (IPPort (h r)) s = []"
      using assms(1) unfolding sheds_def by blast+
    have 2: "IPPort (h' r) = IPPort (h1 r)" "set (n_Slots (h' r)) \<subseteq> set (n_Slots (h1 r))"
      "\<And>s. s \<in> set (n_Slots (h1 r)) \<Longrightarrow> s \<notin> set (n_Slots (h' r)) \<Longrightarrow> keys (IPPort (h1 r)) s = []"
      using assms(2) unfolding sheds_def by blast+
    have "keys (IPPort (h r)) s = []" if "s \<in> set (n_Slots (h r))" "s \<notin> set (n_Slots (h' r))" for s
      using 1(3) [of s] 2(3) [of s] that 1(1) by (cases "s \<in> set (n_Slots (h1 r))") simp_all
    then show ?thesis using 1(1,2) 2(1,2) by auto
  qed
  moreover have "\<exists>r \<in> R. \<exists>s \<in> set (n_Slots (h r)). keys (IPPort (h r)) s \<noteq> []" if e: "err \<noteq> None"
  proof -
    obtain r s where "r \<in> R" "s \<in> set (n_Slots (h1 r))" "keys (IPPort (h1 r)) s \<noteq> []"
      using assms(2) e unfolding sheds_def by blast
    moreover have "IPPort (h1 r) = IPPort (h r)" "set (n_Slots (h1 r)) \<subseteq> set (n_Slots (h r))"
      using assms(1) unfolding sheds_def by blast+
    ultimately show ?thesis by auto
  qed
  ultimately show ?thesis unfolding sheds_def by blast
qed

lemma sheds_mono: "sheds keys R h err h' \<Longrightarrow> R \<subseteq> R' \<Longrightarrow> sheds keys R' h err h'"
  by (auto simp: sheds_def)

lemma moveSlot_ok:
  assumes "moves_ok env keys" and "mv_Slot e \<in> set (n_Slots (w_heap w (mv_Source e)))"
  shows "\<exists>err w'. moveSlot env e dst w = Some (err, w') \<and> sheds keys {mv_Source e} (w_heap w) err (w_heap w') \<and> (err = None \<longrightarrow>
    w_heap w' = (w_heap w)(mv_Source e := (w_heap w (mv_Source e))\<lparr>n_Slots := RemoveSlot (n_Slots (w_heap w (mv_Source e))) (mv_Slot e)\<rparr>))"
proof -
  let ?h = "w_heap w"
  let ?ta = "IPPort (?h dst)" and ?sa = "IPPort (?h (mv_Source e))" and ?ti = "n_ID (?h dst)" and ?si = "n_ID (?h (mv_Source e))"
  obtain w1 where 1: "SetSlot env ?ta ''IMPORTING'' (mv_Slot e) ?ti w = (None, w1)" "w_heap w1 = ?h"
    using SetSlot_ok [OF assms(1)] by blast
  obtain w2 where 2: "SetSlot env ?sa ''MIGRATING'' (mv_Slot e) ?si w1 = (None, w2)" "w_heap w2 = ?h"
    using SetSlot_ok [OF assms(1)] 1(2) by (metis insertCI)
  obtain k err w3 where 3: "MigrateKeysInSlot env ?sa (?h dst) (mv_Slot e) 10 30000 True w2 = Some ((k, err), w3)" "w_heap w3 = ?h"
      "err = None \<longleftrightarrow> keys ?sa (mv_Slot e) = []"
    using MigrateKeysInSlot_ok [OF assms(1)] 2(2) by metis
  show ?thesis
  proof (cases "err = None")
    case False
    with 1 2 3 have "moveSlot env e dst w = Some (err, w3)" by (simp add: moveSlot_def Let_def)
    moreover have "sheds keys {mv_Source e} ?h err ?h" using False 3(3) assms(2) by (auto simp: sheds_def)
    ultimately show ?thesis using False 3(2) by auto
  next
    case True
    obtain e4 w4 where 4: "SetSlot env ?ta ''NODE'' (mv_Slot e) ?ti w3 = (e4, w4)" by fastforce
    obtain e5 w5 where 5: "SetSlot env ?sa ''NODE'' (mv_Slot e) ?ti w4 = (e5, w5)" by fastforce
    have h: "w_heap w5 = ?h"
      using SetSlot_heap [of env ?ta "''NODE''" "mv_Slot e" ?ti w3] SetSlot_heap [of env ?sa "''NODE''" "mv_Slot e" ?ti w4] 4 5 3(2) by simp
    let ?w = "set_node (mv_Source e) (\<lambda>n. n\<lparr>n_Slots := RemoveSlot (n_Slots n) (mv_Slot e)\<rparr>) w5"
    have "moveSlot env e dst w = Some (None, ?w)" using 1 2 3 4 5 True by (simp add: moveSlot_def Let_def)
    moreover have "sheds keys {mv_Source e} ?h None (w_heap ?w)"
      using 3(3) True h by (auto simp: sheds_def RemoveSlot_remove1 dest: set_remove1_subset [THEN subsetD]) (metis in_set_remove1)
    ultimately show ?thesis using h by auto
  qed
qed

lemma moveSlots_ok:
  assumes "moves_ok env keys"
  shows "k \<le> length (n_Slots (w_heap w src)) \<Longrightarrow>
    \<exists>err w'. moveSlots env (map (\<lambda>s. \<lparr>mv_Source = src, mv_Slot = s\<rparr>) (take k (n_Slots (w_heap w src)))) dst w = Some (err, w') \<and>
      sheds keys {src} (w_heap w) err (w_heap w') \<and>
      (err = None \<longrightarrow> w_heap w' = (w_heap w)(src := (w_heap w src)\<lparr>n_Slots := drop k (n_Slots (w_heap w src))\<rparr>))"
proof (induction k arbitrary: w)
  case 0
  then show ?case by simp
next
  case (Suc k)
  then obtain s ss where s: "n_Slots (w_heap w src) = s # ss" by (cases "n_Slots (w_heap w src)") auto
  obtain err w1 where w1: "moveSlot env \<lparr>mv_Source = src, mv_Slot = s\<rparr> dst w = Some (err, w1)"
      "sheds keys {src} (w_heap w) err (w_heap w1)"
      "err = None \<longrightarrow> w_heap w1 = (w_heap w)(src := (w_heap w src)\<lparr>n_Slots := ss\<rparr>)"
    using moveSlot_ok [OF assms, of "\<lparr>mv_Source = src, mv_Slot = s\<rparr>" w dst] by (auto simp: s RemoveSlot_remove1)
  show ?case
  proof (cases err)
    case (Some e)
    with w1 s show ?thesis by simp
  next
    case None
    with w1(3) have h1: "w_heap w1 = (w_heap w)(src := (w_heap w src)\<lparr>n_Slots := ss\<rparr>)" by simp
    then have ss: "n_Slots (w_heap w1 src) = ss" by simp
    have "k \<le> length ss" using Suc.prems s by simp
    from Suc.IH [of w1, unfolded ss, OF this] obtain err' w' where w': "moveSlots env (map (\<lambda>s. \<lparr>mv_Source = src, mv_Slot = s\<rparr>) (take k ss)) dst w1 = Some (err', w')"
        "sheds keys {src} (w_heap w1) err' (w_heap w')"
        "err' = None \<longrightarrow> w_heap w' = (w_heap w1)(src := (w_heap w1 src)\<lparr>n_Slots := drop k ss\<rparr>)"
      by blast
    have "moveSlots env (map (\<lambda>s. \<lparr>mv_Source = src, mv_Slot = s\<rparr>) (take (Suc k) (n_Slots (w_heap w src)))) dst w = Some (err', w')"
      using w1(1) w'(1) None s by simp
    moreover have "sheds keys {src} (w_heap w) err' (w_heap w')"
      by (rule sheds_trans [OF w1(2) [unfolded None] w'(2)])
    moreover have "w_heap w' = (w_heap w)(src := (w_heap w src)\<lparr>n_Slots := drop (Suc k) (n_Slots (w_heap w src))\<rparr>)" if "err' = None"
      using w'(3) [THEN mp, OF that] by (simp add: h1 s)
    ultimately show ?thesis by blast
  qed
qed

section \<open>The main loop\<close>

text \<open>What a node will be left with: its slots, less the surplus it still has to give away.\<close>

definition target_slots :: "heap \<Rightarrow> nref \<Rightarrow> int" where
  "target_slots h r = int (length (n_Slots (h r))) - max 0 (Balance (h r))"

lemma rebalance_step_ok:
  assumes "moves_ok env keys" and "dst \<noteq> src"
    and "Balance (w_heap w dst) \<le> 0" "0 \<le> Balance (w_heap w src)"
    and "Balance (w_heap w src) \<le> int (length (n_Slots (w_heap w src)))" "length (n_Slots (w_heap w src)) \<le> 2 ^ 50"
  defines "num \<equiv> min (- Balance (w_heap w dst)) (Balance (w_heap w src))"
  shows "\<exists>err w'. rebalance_step env dst src w = Some (err, w') \<and> sheds keys {src} (w_heap w) err (w_heap w') \<and> (err = None \<longrightarrow>
    Balance (w_heap w' dst) = Balance (w_heap w dst) + num \<and> Balance (w_heap w' src) = Balance (w_heap w src) - num \<and>
    n_Slots (w_heap w' dst) = n_Slots (w_heap w dst) \<and> n_Slots (w_heap w' src) = drop (nat num) (n_Slots (w_heap w src)) \<and>
    (\<forall>r. r \<noteq> dst \<longrightarrow> r \<noteq> src \<longrightarrow> w_heap w' r = w_heap w r))"
proof -
  let ?h = "w_heap w"
  let ?moved = "if num > 0 then do { table \<leftarrow> computeReshardTable (e_met env (w_trace w)) ?h [src] num; moveSlots env table dst w } else Some (None, w)"
  have num: "(if \<bar>Balance (?h dst)\<bar> < \<bar>Balance (?h src)\<bar> then \<bar>Balance (?h dst)\<bar> else \<bar>Balance (?h src)\<bar>) = num"
    using assms(3,4) by (auto simp: num_def)
  have "0 \<le> num" "num \<le> int (length (n_Slots (?h src)))" using assms(3-5) by (auto simp: num_def)
  have "\<exists>err w1. ?moved = Some (err, w1) \<and> sheds keys {src} ?h err (w_heap w1) \<and>
      (err = None \<longrightarrow> w_heap w1 = ?h(src := (?h src)\<lparr>n_Slots := drop (nat num) (n_Slots (?h src))\<rparr>))"
  proof (cases "num > 0")
    case True
    then show ?thesis
      using computeReshardTable_single [OF True, of ?h src] moveSlots_ok [OF assms(1), of "nat num" w src dst]
        \<open>num \<le> int (length (n_Slots (?h src)))\<close> assms(6) by auto
  next
    case False
    with \<open>0 \<le> num\<close> show ?thesis by simp
  qed
  then obtain err w1 where w1: "?moved = Some (err, w1)" "sheds keys {src} ?h err (w_heap w1)"
    "err = None \<longrightarrow> w_heap w1 = ?h(src := (?h src)\<lparr>n_Slots := drop (nat num) (n_Slots (?h src))\<rparr>)" by blast
  show ?thesis
  proof (cases err)
    case (Some x)
    then have "rebalance_step env dst src w = Some (err, w1)" unfolding rebalance_step_def Let_def num w1(1) by simp
    with Some w1(2) show ?thesis by auto
  next
    case None
    let ?w' = "set_node src (\<lambda>n. SetBalance n (Balance n - num)) (set_node dst (\<lambda>n. SetBalance n (Balance n + num)) w1)"
    have "rebalance_step env dst src w = Some (None, ?w')"
      unfolding rebalance_step_def Let_def num w1(1) None by simp
    moreover have "sheds keys {src} ?h None (w_heap ?w')"
      using w1(2) assms(2) None by (simp add: sheds_def SetBalance_def IPPort_def)
    ultimately show ?thesis
      using w1(3) None assms(2) by (auto simp: SetBalance_def Balance_def)
  qed
qed

definition signs :: "nat \<Rightarrow> Nodes \<Rightarrow> heap \<Rightarrow> bool" where
  "signs p sn h \<longleftrightarrow> (\<forall>i < length sn. (i < p \<longrightarrow> Balance (h (sn ! i)) \<le> 0) \<and> (p \<le> i \<longrightarrow> 0 \<le> Balance (h (sn ! i))))"

definition settled_outside :: "int \<Rightarrow> int \<Rightarrow> Nodes \<Rightarrow> heap \<Rightarrow> bool" where
  "settled_outside d s sn h \<longleftrightarrow> (\<forall>i < length sn. int i < d \<or> s < int i \<longrightarrow> Balance (h (sn ! i)) = 0)"

lemma total_balance_nth: "total_balance sn h = (\<Sum>i < length sn. Balance (h (sn ! i)))"
  by (simp add: total_balance_sum sum_list_sum_nth atLeast0LessThan)

lemma total_zero_all_zero:
  assumes "total_balance sn h = 0"
    and "(\<forall>i < length sn. 0 \<le> Balance (h (sn ! i))) \<or> (\<forall>i < length sn. Balance (h (sn ! i)) \<le> 0)"
  shows "\<forall>i < length sn. Balance (h (sn ! i)) = 0"
proof (cases "\<forall>i < length sn. 0 \<le> Balance (h (sn ! i))")
  case True
  with assms(1) show ?thesis
    using sum_nonneg_eq_0_iff [of "{..<length sn}" "\<lambda>i. Balance (h (sn ! i))"] by (simp add: total_balance_nth)
next
  case False
  with assms(2) have "\<forall>i < length sn. 0 \<le> - Balance (h (sn ! i))" by auto
  with assms(1) show ?thesis
    using sum_nonneg_eq_0_iff [of "{..<length sn}" "\<lambda>i. - Balance (h (sn ! i))"]
    by (simp add: total_balance_nth sum_negf)
qed

lemma total_zero_last:
  assumes "total_balance sn h = 0" and "settled_outside d s sn h" and "s \<le> d"
  shows "\<forall>i < length sn. Balance (h (sn ! i)) = 0"
proof (intro allI impI)
  fix i assume i: "i < length sn"
  show "Balance (h (sn ! i)) = 0"
  proof (cases "int i = d")
    case False
    with assms(2,3) i show ?thesis by (auto simp: settled_outside_def)
  next
    case True
    have "(\<Sum>j < length sn. Balance (h (sn ! j))) = Balance (h (sn ! i)) + (\<Sum>j \<in> {..<length sn} - {i}. Balance (h (sn ! j)))"
      using i by (subst sum.remove [of _ i]) auto
    moreover have "(\<Sum>j \<in> {..<length sn} - {i}. Balance (h (sn ! j))) = 0"
      using assms(2,3) True by (intro sum.neutral) (auto simp: settled_outside_def)
    ultimately show ?thesis using assms(1) by (simp add: total_balance_nth)
  qed
qed

text \<open>What the main loop keeps, with the position \<open>p\<close> where the nodes with slots to give away begin.\<close>

definition loop_inv :: "nat \<Rightarrow> int \<Rightarrow> int \<Rightarrow> Nodes \<Rightarrow> heap \<Rightarrow> bool" where
  "loop_inv p d s sn h \<longleftrightarrow> total_balance sn h = 0 \<and> signs p sn h \<and> settled_outside d s sn h \<and> 0 \<le> d \<and> s < int (length sn) \<and>
     (\<forall>r \<in> set sn. Balance (h r) \<le> int (length (n_Slots (h r))) \<and> length (n_Slots (h r)) \<le> 2 ^ 50)"

lemma loop_inv_done:
  assumes "loop_inv p d s sn h" and "s \<le> d \<or> int p \<le> d \<or> s < int p"
  shows "\<forall>i < length sn. Balance (h (sn ! i)) = 0"
proof -
  note inv = assms(1) [unfolded loop_inv_def]
  consider "s \<le> d" | "int p \<le> d" | "s < int p" using assms(2) by blast
  then show ?thesis
  proof cases
    case 1
    then show ?thesis using total_zero_last inv by blast
  next
    case 2
    then have "\<forall>i < length sn. 0 \<le> Balance (h (sn ! i))"
      using inv unfolding signs_def settled_outside_def by (metis linorder_not_le order_refl of_nat_le_iff order_trans nle_le)
    then show ?thesis using total_zero_all_zero inv by blast
  next
    case 3
    then have "\<forall>i < length sn. Balance (h (sn ! i)) \<le> 0"
      using inv unfolding signs_def settled_outside_def by (metis linorder_not_le order_refl of_nat_le_iff order_less_le_trans)
    then show ?thesis using total_zero_all_zero inv by blast
  qed
qed

lemma loop_inv_step:
  assumes inv: "loop_inv p d s sn h" and "distinct sn" and d: "d < s"
    and sg: "Balance (h (sn ! nat d)) \<le> 0" "0 \<le> Balance (h (sn ! nat s))" and num: "num = min (- Balance (h (sn ! nat d))) (Balance (h (sn ! nat s)))"
    and h': "Balance (h' (sn ! nat d)) = Balance (h (sn ! nat d)) + num" "Balance (h' (sn ! nat s)) = Balance (h (sn ! nat s)) - num"
      "n_Slots (h' (sn ! nat d)) = n_Slots (h (sn ! nat d))" "n_Slots (h' (sn ! nat s)) = drop (nat num) (n_Slots (h (sn ! nat s)))"
      "\<forall>r. r \<noteq> sn ! nat d \<longrightarrow> r \<noteq> sn ! nat s \<longrightarrow> h' r = h r"
  defines "d' \<equiv> if Balance (h' (sn ! nat d)) = 0 then d + 1 else d"
    and "s' \<equiv> if Balance (h' (sn ! nat s)) = 0 then s - 1 else s"
  shows "loop_inv p d' s' sn h'" and "s' - d' < s - d" and "\<forall>r \<in> set sn. target_slots h' r = target_slots h r"
proof -
  note I = inv [unfolded loop_inv_def]
  have b: "nat d < length sn" "nat s < length sn" "nat d \<noteq> nat s" using I d by auto
  have ne: "sn ! nat d \<noteq> sn ! nat s" using b assms(2) by (simp add: nth_eq_iff_index_eq)
  have other: "h' (sn ! i) = h (sn ! i)" if "i < length sn" "i \<noteq> nat d" "i \<noteq> nat s" for i
    using h'(5) that b assms(2) by (simp add: nth_eq_iff_index_eq)
  have n0: "0 \<le> num" "num \<le> int (length (n_Slots (h (sn ! nat s))))"
    using I sg num nth_mem [OF b(2)] by (auto simp: min_le_iff_disj)
  have nd: "num \<le> - Balance (h (sn ! nat d))" using num by simp
  have "total_balance sn h' = total_balance sn h"
  proof -
    have split: "(\<Sum>i < length sn. Balance (g (sn ! i)))
        = Balance (g (sn ! nat d)) + (Balance (g (sn ! nat s)) + (\<Sum>i \<in> {..<length sn} - {nat d} - {nat s}. Balance (g (sn ! i))))" for g
      using b by (subst sum.remove [of _ "nat d"]; simp; subst sum.remove [of _ "nat s"]; simp)
    have "(\<Sum>i \<in> {..<length sn} - {nat d} - {nat s}. Balance (h' (sn ! i))) = (\<Sum>i \<in> {..<length sn} - {nat d} - {nat s}. Balance (h (sn ! i)))"
      using other by (intro sum.cong) auto
    then show ?thesis unfolding total_balance_nth split [of h'] split [of h] h' by simp
  qed
  moreover have "signs p sn h'"
  proof -
    have "(i < p \<longrightarrow> Balance (h' (sn ! i)) \<le> 0) \<and> (p \<le> i \<longrightarrow> 0 \<le> Balance (h' (sn ! i)))" if i: "i < length sn" for i
    proof -
      consider "i = nat d" | "i = nat s" | "i \<noteq> nat d" "i \<noteq> nat s" by blast
      then show ?thesis
      proof cases
        case 1
        moreover have "nat d < p \<or> 0 \<le> Balance (h (sn ! nat d))" using I b(1) by (auto simp: signs_def)
        ultimately show ?thesis using h'(1) num sg by (auto simp: min_def)
      next
        case 2
        moreover have "p \<le> nat s \<or> Balance (h (sn ! nat s)) \<le> 0" using I b(2) by (auto simp: signs_def)
        ultimately show ?thesis using h'(2) num sg by (auto simp: min_def)
      next
        case 3
        then show ?thesis using I i other [OF i] by (simp add: signs_def)
      qed
    qed
    then show ?thesis by (simp add: signs_def)
  qed
  moreover have "settled_outside d' s' sn h'"
  proof -
    have "Balance (h' (sn ! i)) = 0" if i: "i < length sn" "int i < d' \<or> s' < int i" for i
    proof -
      consider "i = nat d" | "i = nat s" | "i \<noteq> nat d" "i \<noteq> nat s" by blast
      then show ?thesis
      proof cases
        case 1
        then show ?thesis using i b I d by (auto simp: d'_def s'_def split: if_splits)
      next
        case 2
        then show ?thesis using i b I d by (auto simp: d'_def s'_def split: if_splits)
      next
        case 3
        then have "int i < d \<or> s < int i" using i I d by (auto simp: d'_def s'_def split: if_splits)
        with 3 i other I show ?thesis by (auto simp: settled_outside_def)
      qed
    qed
    then show ?thesis by (simp add: settled_outside_def)
  qed
  moreover have "\<forall>r \<in> set sn. Balance (h' r) \<le> int (length (n_Slots (h' r))) \<and> length (n_Slots (h' r)) \<le> 2 ^ 50"
  proof
    fix r assume r: "r \<in> set sn"
    have len: "Balance (h r) \<le> int (length (n_Slots (h r))) \<and> length (n_Slots (h r)) \<le> 2 ^ 50" using I r by blast
    consider "r = sn ! nat d" | "r = sn ! nat s" | "r \<noteq> sn ! nat d" "r \<noteq> sn ! nat s" by blast
    then show "Balance (h' r) \<le> int (length (n_Slots (h' r))) \<and> length (n_Slots (h' r)) \<le> 2 ^ 50"
    proof cases
      case 1
      then show ?thesis using len nd h'(1,3) sg(1) by simp
    next
      case 2
      then show ?thesis using len n0 h'(2,4) by (simp add: of_nat_diff order_trans [OF diff_le_self])
    next
      case 3
      then show ?thesis using len h'(5) by simp
    qed
  qed
  ultimately show "loop_inv p d' s' sn h'"
    using I by (auto simp: loop_inv_def d'_def s'_def)
  have "Balance (h' (sn ! nat d)) = 0 \<or> Balance (h' (sn ! nat s)) = 0" using h'(1,2) num by (simp add: min_def)
  then show "s' - d' < s - d" by (auto simp: d'_def s'_def)
  show "\<forall>r \<in> set sn. target_slots h' r = target_slots h r"
  proof
    fix r assume r: "r \<in> set sn"
    consider "r = sn ! nat d" | "r = sn ! nat s" | "r \<noteq> sn ! nat d" "r \<noteq> sn ! nat s" by blast
    then show "target_slots h' r = target_slots h r"
    proof cases
      case 1
      then show ?thesis using nd sg(1) h'(1,3) by (simp add: target_slots_def)
    next
      case 2
      moreover have "num \<le> Balance (h (sn ! nat s))" using num by simp
      ultimately show ?thesis using n0 h'(2,4) by (simp add: target_slots_def of_nat_diff)
    next
      case 3
      then show ?thesis using h'(5) by (simp add: target_slots_def)
    qed
  qed
qed

lemma rebalance_loop_ok:
  assumes "moves_ok env keys" and "distinct sn"
  shows "loop_inv p d s sn (w_heap w) \<Longrightarrow>
    \<exists>err w'. rebalance_loop env sn d s w = Some (err, w') \<and> sheds keys (set sn) (w_heap w) err (w_heap w') \<and>
      (err = None \<longrightarrow> (\<forall>r \<in> set sn. int (length (n_Slots (w_heap w' r))) = target_slots (w_heap w) r))"
proof (induction "nat (s - d)" arbitrary: d s w rule: less_induct)
  case less
  show ?case
  proof (cases "d < s")
    case False
    then have "\<forall>r \<in> set sn. Balance (w_heap w r) = 0" using loop_inv_done [OF less.prems] by (simp add: all_set_conv_all_nth)
    then have "\<forall>r \<in> set sn. int (length (n_Slots (w_heap w r))) = target_slots (w_heap w) r" by (simp add: target_slots_def)
    moreover have "rebalance_loop env sn d s w = Some (None, w)" using False by (subst rebalance_loop.simps) simp
    ultimately show ?thesis using sheds_refl by blast
  next
    case True
    let ?h = "w_heap w" and ?dst = "sn ! nat d" and ?src = "sn ! nat s"
    have b: "nat d < length sn" "nat s < length sn" "?dst \<noteq> ?src"
      using less.prems True assms(2) by (auto simp: loop_inv_def nth_eq_iff_index_eq)
    have sg: "Balance (?h ?dst) \<le> 0" "0 \<le> Balance (?h ?src)"
    proof -
      have "Balance (?h ?dst) \<le> 0 \<and> 0 \<le> Balance (?h ?src)"
      proof (cases "int p \<le> d \<or> s < int p")
        case True
        then show ?thesis using loop_inv_done [OF less.prems] b by simp
      next
        case False
        then have "nat d < p" "p \<le> nat s" using less.prems by (auto simp: loop_inv_def)
        then show ?thesis using less.prems b by (simp add: loop_inv_def signs_def)
      qed
      then show "Balance (?h ?dst) \<le> 0" "0 \<le> Balance (?h ?src)" by simp_all
    qed
    have "Balance (?h ?src) \<le> int (length (n_Slots (?h ?src)))" "length (n_Slots (?h ?src)) \<le> 2 ^ 50"
      using less.prems b by (auto simp: loop_inv_def)
    from rebalance_step_ok [OF assms(1) b(3) sg this] obtain err w1 where w1: "rebalance_step env ?dst ?src w = Some (err, w1)"
      and g1: "sheds keys {?src} ?h err (w_heap w1)" and ok: "err = None \<longrightarrow>
        Balance (w_heap w1 ?dst) = Balance (?h ?dst) + min (- Balance (?h ?dst)) (Balance (?h ?src)) \<and>
        Balance (w_heap w1 ?src) = Balance (?h ?src) - min (- Balance (?h ?dst)) (Balance (?h ?src)) \<and>
        n_Slots (w_heap w1 ?dst) = n_Slots (?h ?dst) \<and>
        n_Slots (w_heap w1 ?src) = drop (nat (min (- Balance (?h ?dst)) (Balance (?h ?src)))) (n_Slots (?h ?src)) \<and>
        (\<forall>r. r \<noteq> ?dst \<longrightarrow> r \<noteq> ?src \<longrightarrow> w_heap w1 r = ?h r)" by blast
    have g: "sheds keys (set sn) ?h err (w_heap w1)" by (rule sheds_mono [OF g1]) (use b in simp)
    show ?thesis
    proof (cases err)
      case (Some e)
      then have "rebalance_loop env sn d s w = Some (Some e, w1)" using True w1 by (subst rebalance_loop.simps) simp
      with g Some show ?thesis by blast
    next
      case None
      let ?d = "if Balance (w_heap w1 ?dst) = 0 then d + 1 else d" and ?s = "if Balance (w_heap w1 ?src) = 0 then s - 1 else s"
      note h1 = ok [THEN mp, OF None]
      note step = loop_inv_step [OF less.prems assms(2) True sg refl h1 [THEN conjunct1] h1 [THEN conjunct2, THEN conjunct1]
          h1 [THEN conjunct2, THEN conjunct2, THEN conjunct1] h1 [THEN conjunct2, THEN conjunct2, THEN conjunct2, THEN conjunct1]
          h1 [THEN conjunct2, THEN conjunct2, THEN conjunct2, THEN conjunct2]]
      have "nat (?s - ?d) < nat (s - d)" using step(2) True by linarith
      from less.hyps [OF this step(1)] obtain err' w' where w': "rebalance_loop env sn ?d ?s w1 = Some (err', w')"
          "sheds keys (set sn) (w_heap w1) err' (w_heap w')"
          "err' = None \<longrightarrow> (\<forall>r \<in> set sn. int (length (n_Slots (w_heap w' r))) = target_slots (w_heap w1) r)" by blast
      have "rebalance_loop env sn d s w = Some (err', w')" using True w1 w'(1) None by (subst rebalance_loop.simps) simp
      moreover have "sheds keys (set sn) ?h err' (w_heap w')" using g w'(2) None sheds_trans by blast
      ultimately show ?thesis using w'(3) step(3) by auto
    qed
  qed
qed

lemma sorted_signs: "\<exists>p. signs p (sort_key (\<lambda>r. Balance (h r)) ns) h"
proof -
  let ?sn = "sort_key (\<lambda>r. Balance (h r)) ns"
  let ?p = "length (takeWhile (\<lambda>r. Balance (h r) < 0) ?sn)"
  have "0 \<le> Balance (h (?sn ! i))" if "?p \<le> i" "i < length ?sn" for i
  proof -
    have "0 \<le> Balance (h (?sn ! ?p))"
      using that nth_length_takeWhile [of "\<lambda>r. Balance (h r) < 0" ?sn] by simp
    also have "\<dots> \<le> Balance (h (?sn ! i))"
      using that sorted_nth_mono [of "map (\<lambda>r. Balance (h r)) ?sn" ?p i] by (simp add: sorted_sort_key)
    finally show ?thesis .
  qed
  moreover have "Balance (h (?sn ! i)) \<le> 0" if "i < ?p" for i
    using that by (metis (mono_tags, lifting) less_imp_le nth_mem set_takeWhileD takeWhile_nth)
  ultimately show ?thesis unfolding signs_def by blast
qed

lemma total_balance_perm: "mset xs = mset ys \<Longrightarrow> total_balance xs h = total_balance ys h"
  unfolding total_balance_sum by (metis mset_map sum_mset_sum_list)

lemma int_sum_list: "int (\<Sum>x \<leftarrow> xs. f x) = (\<Sum>x \<leftarrow> xs. int (f x))"
  by (induction xs) auto

text \<open>The sum of the balances is what the integer quotient leaves over.\<close>

lemma total_init_balances:
  assumes "distinct ns" and "(\<Sum>r \<leftarrow> ns. length (n_Slots (h r))) = 16384"
  shows "total_balance ns (init_balances (expected_slots (length ns)) ns h) = 16384 mod int (length ns)"
proof -
  let ?e = "expected_slots (length ns)"
  have pos: "length ns > 0" using assms(2) by auto
  have "total_balance ns (init_balances ?e ns h) = (\<Sum>r \<leftarrow> ns. int (length (n_Slots (h r))) - ?e)"
    unfolding total_balance_sum using init_balances_eq(1) [OF assms(1)]
    by (intro arg_cong [where f = sum_list]) (simp cong: map_cong)
  also have "\<dots> = int (\<Sum>r \<leftarrow> ns. length (n_Slots (h r))) - int (length ns) * ?e"
    unfolding sum_list_subtractf by (simp add: sum_list_triv int_sum_list)
  also have "\<dots> = 16384 - int (length ns) * (16384 div int (length ns))"
    using assms(2) pos by (simp add: expected_slots_eq)
  also have "\<dots> = 16384 mod int (length ns)" by (simp add: minus_mult_div_eq_mod)
  finally show ?thesis .
qed

lemma length_slots_le: "r \<in> set ns \<Longrightarrow> length (n_Slots (h r)) \<le> (\<Sum>r \<leftarrow> ns. length (n_Slots (h r)))"
  by (rule member_le_sum_list) simp_all

lemma RebalancedCluster_ok:
  assumes env: "moves_ok env keys" and dist: "distinct ns"
    and full: "(\<Sum>r \<leftarrow> ns. length (n_Slots (w_heap w r))) = 16384"
    and below: "16384 mod int (length ns) = 0 \<or> (\<exists>r \<in> set ns. int (length (n_Slots (w_heap w r))) < 16384 div int (length ns))"
  shows "\<exists>err sn w'. RebalancedCluster env ns w = Some ((err, sn), w') \<and> mset sn = mset ns \<and>
    sheds keys (set ns) (w_heap w) err (w_heap w') \<and> (err = None \<longrightarrow>
      (\<forall>r \<in> set ns. int (length (n_Slots (w_heap w' r))) = min (int (length (n_Slots (w_heap w r)))) (16384 div int (length ns))))"
proof -
  let ?n = "length ns" and ?h = "w_heap w"
  have pos: "?n > 0" using full by auto
  define e where "e = 16384 div int ?n"
  have e: "expected_slots ?n = e" "0 \<le> e" using pos by (simp_all add: e_def expected_slots_eq pos_imp_zdiv_nonneg_iff)
  let ?g = "init_balances e ns ?h"
  have b0: "Balance (?g r) = int (length (n_Slots (?h r))) - e" if "r \<in> set ns" for r
    by (simp only: init_balances_eq(1) [OF dist] that if_True)
  have tb: "total_balance ns ?g = 16384 mod int ?n" using total_init_balances [OF dist full] e by simp
  then have "total_balance ns ?g = 0 \<or> (\<exists>r \<in> set ns. Balance (?g r) < 0)"
    using below b0 by (auto simp: e_def [symmetric])
  moreover have "0 \<le> total_balance ns ?g" unfolding tb using pos by simp
  ultimately obtain h1 where h1: "adjust_loop ns (total_balance ns ?g) ?g = Some h1" "total_balance ns h1 = 0"
      and same: "\<And>r. n_Slots (h1 r) = n_Slots (?h r)" "\<And>r. Balance (?g r) \<ge> 0 \<Longrightarrow> Balance (h1 r) = Balance (?g r)"
        "\<And>r. Balance (?g r) < 0 \<Longrightarrow> Balance (h1 r) < 0" "\<And>r. IPPort (h1 r) = IPPort (?h r)"
    using adjust_loop_returns [OF dist, of "total_balance ns ?g" ?g] init_balances_eq(2,3) by auto
  define sn where "sn = sort_key (\<lambda>r. Balance (h1 r)) (sort_key (e_met env (w_trace w)) ns)"
  have sn: "set sn = set ns" "mset sn = mset ns" "distinct sn" using dist by (simp_all add: sn_def)
  obtain p where p: "signs p sn h1" using sorted_signs unfolding sn_def by blast
  have max: "max 0 (Balance (h1 r)) = max 0 (int (length (n_Slots (?h r))) - e)" if "r \<in> set ns" for r
    using same(2,3) [of r] b0 [OF that] by (cases "Balance (?g r) \<ge> 0") auto
  have "Balance (h1 r) \<le> int (length (n_Slots (h1 r))) \<and> length (n_Slots (h1 r)) \<le> 2 ^ 50" if "r \<in> set ns" for r
    using max [OF that] e(2) same(1) length_slots_le [OF that, of ?h] full by simp
  then have "loop_inv p 0 (int (length sn) - 1) sn h1"
    using p h1(2) total_balance_perm [OF sn(2)] sn(1) by (simp add: loop_inv_def settled_outside_def)
  then obtain err w' where w': "rebalance_loop env sn 0 (int (length sn) - 1) (w\<lparr>w_heap := h1\<rparr>) = Some (err, w')"
      "sheds keys (set sn) h1 err (w_heap w')"
      "err = None \<longrightarrow> (\<forall>r \<in> set sn. int (length (n_Slots (w_heap w' r))) = target_slots h1 r)"
    using rebalance_loop_ok [OF env sn(3), of p 0 "int (length sn) - 1" "w\<lparr>w_heap := h1\<rparr>"] by auto
  have "RebalancedCluster env ns w = Some ((err, sn), w')"
    using h1(1) w'(1) by (simp add: RebalancedCluster_def e(1) Let_def SortByFunc_key sn_def)
  moreover have "target_slots h1 r = min (int (length (n_Slots (?h r)))) e" if "r \<in> set ns" for r
    using max [OF that] same(1) by (simp add: target_slots_def)
  moreover have "sheds keys (set ns) ?h err (w_heap w')"
    using w'(2) same(1,4) sn(1) by (simp add: sheds_def)
  ultimately show ?thesis using w'(3) sn(1,2) by (auto simp: e_def)
qed

section \<open>Properties\<close>

text \<open>Servers without keys, and servers with a key in slot 5.\<close>

definition empty_server :: env where
  "empty_server = server_with (\<lambda>_ _. [])"

definition one_key :: "string \<Rightarrow> int \<Rightarrow> string list" where
  "one_key addr slot = (if slot = 5 then [''k''] else [])"

definition two_masters :: world where
  "two_masters = example_world\<lparr>w_heap := (\<lambda>_. NewDefaultNode)(0 := NewDefaultNode\<lparr>n_ID := ''a'', n_Slots := map word_of_nat [0..<16384]\<rparr>,
     1 := NewDefaultNode\<lparr>n_ID := ''b''\<rparr>)\<rparr>"

definition three_masters :: world where
  "three_masters = example_world\<lparr>w_heap := (\<lambda>_. NewDefaultNode)(0 := NewDefaultNode\<lparr>n_ID := ''a'', n_Slots := map word_of_nat [0..<5461]\<rparr>,
     1 := NewDefaultNode\<lparr>n_ID := ''b'', n_Slots := map word_of_nat [5461..<10923]\<rparr>,
     2 := NewDefaultNode\<lparr>n_ID := ''c'', n_Slots := map word_of_nat [10923..<16384]\<rparr>)\<rparr>"

lemma server_with_moves: "moves_ok (server_with keys) (\<lambda>a s. keys a (Slot_ToInt s))"
  using server_with_refuses server_with_keys [of 10 keys]
  by (simp add: moves_ok_def marks_ok_def ping_returns_def server_with_def dead_env_def)

lemmas server_defs = empty_server_def server_with_def dead_env_def ping_returns_def

lemma AllocSlots_ok:
  assumes "ping_returns env" and "\<And>h a x y. e_addslots env h a x y = None"
    and "distinct ns" and "ns \<noteq> []" and "length ns \<le> 16384"
  shows "\<exists>w'. AllocSlots env ns w = Some (None, w') \<and>
    concat (map (\<lambda>r. n_Slots (w_heap w' r)) ns) = map word_of_nat [0..<16384] \<and>
    (\<forall>r \<in> set ns. 16384 div int (length ns) \<le> int (length (n_Slots (w_heap w' r))) \<and>
       int (length (n_Slots (w_heap w' r))) \<le> (16384 + int (length ns) - 1) div int (length ns)) \<and>
    (\<forall>r. r \<notin> set ns \<longrightarrow> w_heap w' r = w_heap w r) \<and> (\<forall>r. w_heap w' r = (w_heap w r)\<lparr>n_Slots := n_Slots (w_heap w' r)\<rparr>)"
proof -
  define n where "n = length ns"
  have n: "0 < n" "n \<le> 16384" using assms(4,5) by (simp_all add: n_def)
  obtain w' where w': "AllocSlots_loop env n (fl (16384 / of_nat n)) 0 (bound_at n 0) (cursor_at (fl (16384 / of_nat n)) 0) ns w = Some (None, w')"
      "map (\<lambda>r. n_Slots (w_heap w' r)) ns = map (share n) [0..<n]"
    and frame: "\<forall>r. r \<notin> set ns \<longrightarrow> w_heap w' r = w_heap w r" "\<forall>r. w_heap w' r = (w_heap w r)\<lparr>n_Slots := n_Slots (w_heap w' r)\<rparr>"
  proof -
    have "0 + length ns = n" by (simp add: n_def)
    from AllocSlots_loop_shares [OF n assms(1,2) this assms(3), of w] show ?thesis by (elim exE conjE) (rule that)
  qed
  have "AllocSlots env ns w = Some (None, w')"
    using w'(1) by (simp add: AllocSlots_def Let_def n_def bound_at_def)
  moreover have "concat (map (\<lambda>r. n_Slots (w_heap w' r)) ns) = map word_of_nat [0..<16384]"
    unfolding w'(2) concat_shares [OF n order_refl] using n by (simp add: bound_at_def)
  moreover have "16384 div int n \<le> int (length (n_Slots (w_heap w' r))) \<and>
       int (length (n_Slots (w_heap w' r))) \<le> (16384 + int n - 1) div int n" if "r \<in> set ns" for r
  proof -
    have "n_Slots (w_heap w' r) \<in> set (map (share n) [0..<n])" unfolding w'(2) [symmetric] using that by simp
    then obtain i where i: "i < n" "n_Slots (w_heap w' r) = share n i" by auto
    have "int (length (share n i)) = bound_at n (Suc i) - bound_at n i"
      using bound_range [OF n, of i] bound_mono [OF n i(1)] i(1) by (simp add: share_def)
    with share_bounds [OF n i(1)] i(2) show ?thesis by simp
  qed
  ultimately show ?thesis using frame unfolding n_def by blast
qed

text \<open>
  C3: \<^verbatim>\<open>AllocSlots\<close> partitions the slots. For up to 16384 masters it ends without error, the
  slots of the masters, in order, are the slots 0 to 16383 without gap or overlap, and every master
  gets the integer quotient of the slots or one more (rounded up): the rounding errors of the floating-point
  cursor never shift a bound by a slot too many.
\<close>

theorem AllocSlots_partition:
  assumes "ping_returns env" and "\<And>h a x y. e_addslots env h a x y = None"
    and "distinct ns" and "ns \<noteq> []" and "length ns \<le> 16384"
  shows "\<exists>w'. AllocSlots env ns w = Some (None, w') \<and>
    concat (map (\<lambda>r. n_Slots (w_heap w' r)) ns) = map word_of_nat [0..<16384] \<and>
    (\<forall>r \<in> set ns. 16384 div int (length ns) \<le> int (length (n_Slots (w_heap w' r))) \<and>
       int (length (n_Slots (w_heap w' r))) \<le> (16384 + int (length ns) - 1) div int (length ns))"
  using AllocSlots_ok [OF assms] by blast

theorem AllocSlots_partition_witness:
  "\<exists>w'. AllocSlots empty_server [0, 1, 2] example_world = Some (None, w') \<and>
    concat (map (\<lambda>r. n_Slots (w_heap w' r)) [0, 1, 2]) = map word_of_nat [0..<16384] \<and>
    (\<forall>r \<in> set [0, 1, 2]. 16384 div int (length [0, 1, 2 :: nref]) \<le> int (length (n_Slots (w_heap w' r))) \<and>
       int (length (n_Slots (w_heap w' r))) \<le> (16384 + int (length [0, 1, 2 :: nref]) - 1) div int (length [0, 1, 2 :: nref]))"
  by (rule AllocSlots_partition) (simp_all add: server_defs)

text \<open>
  C5: \<^verbatim>\<open>RebalancedCluster\<close> gives away empty slots only. If the masters own all slots
  between them, and either the slots divide evenly or some master is below the quotient, then the loops end. If no
  slot of the masters holds a key, no error is returned; as the client refuses the arguments of \<^verbatim>\<open>MIGRATE\<close>, the first
  slot with a key ends the call with an error. In both cases every slot a master has lost held no key. Without an
  error, every master keeps the smaller of what it had and the quotient: no master that is behind loses a slot
  and none stays ahead.
\<close>

theorem RebalancedCluster_balances:
  assumes "moves_ok env keys" and "distinct ns"
    and "(\<Sum>r \<leftarrow> ns. length (n_Slots (w_heap w r))) = 16384"
    and "16384 mod int (length ns) = 0 \<or> (\<exists>r \<in> set ns. int (length (n_Slots (w_heap w r))) < 16384 div int (length ns))"
  shows "\<exists>err sn w'. RebalancedCluster env ns w = Some ((err, sn), w') \<and> mset sn = mset ns \<and>
    (\<forall>r \<in> set ns. \<forall>s \<in> set (n_Slots (w_heap w r)) - set (n_Slots (w_heap w' r)). keys (IPPort (w_heap w r)) s = []) \<and>
    (err \<noteq> None \<longrightarrow> (\<exists>r \<in> set ns. \<exists>s \<in> set (n_Slots (w_heap w r)). keys (IPPort (w_heap w r)) s \<noteq> [])) \<and>
    (err = None \<longrightarrow>
      (\<forall>r \<in> set ns. int (length (n_Slots (w_heap w' r))) = min (int (length (n_Slots (w_heap w r)))) (16384 div int (length ns))))"
  using RebalancedCluster_ok [OF assms] unfolding sheds_def by blast

theorem RebalancedCluster_balances_witness:
  "(\<exists>sn w'. RebalancedCluster empty_server [0, 1] two_masters = Some ((None, sn), w') \<and> mset sn = mset [0, 1] \<and>
     length (n_Slots (w_heap w' 0)) = 8192) \<and>
   (\<exists>err sn w'. RebalancedCluster (server_with one_key) [0, 1] two_masters = Some ((err, sn), w') \<and> 5 \<in> set (n_Slots (w_heap w' 0)))"
proof
  have "(\<Sum>r \<leftarrow> [0, 1]. length (n_Slots (w_heap two_masters r))) = 16384"
    and "16384 mod int (length [0, 1 :: nref]) = 0 \<or>
      (\<exists>r \<in> set [0, 1]. int (length (n_Slots (w_heap two_masters r))) < 16384 div int (length [0, 1 :: nref]))"
    by (simp_all add: two_masters_def NewDefaultNode_def)
  note balances = RebalancedCluster_balances [OF server_with_moves _ this, simplified]
  show "\<exists>sn w'. RebalancedCluster empty_server [0, 1] two_masters = Some ((None, sn), w') \<and> mset sn = mset [0, 1] \<and>
     length (n_Slots (w_heap w' 0)) = 8192"
    using balances [of "\<lambda>_ _. []"] by (auto simp: empty_server_def two_masters_def NewDefaultNode_def)
  have "(5 :: slot) \<in> set (n_Slots (w_heap two_masters 0))"
  proof -
    have "(5 :: slot) \<in> word_of_nat ` {0..<16384}" by (rule image_eqI [of _ _ 5]) simp_all
    then show ?thesis unfolding two_masters_def by (simp del: upt_rec_numeral)
  qed
  moreover have "Slot_ToInt 5 = 5" by (simp add: Slot_ToInt_small)
  moreover obtain err sn w' where "RebalancedCluster (server_with one_key) [0, 1] two_masters = Some ((err, sn), w')"
      "\<forall>s \<in> set (n_Slots (w_heap two_masters 0)) - set (n_Slots (w_heap w' 0)). one_key (IPPort (w_heap two_masters 0)) (Slot_ToInt s) = []"
    using balances [of one_key] unfolding One_nat_def by blast
  ultimately show "\<exists>err sn w'. RebalancedCluster (server_with one_key) [0, 1] two_masters = Some ((err, sn), w') \<and> 5 \<in> set (n_Slots (w_heap w' 0))"
    by (metis DiffI list.distinct(1) one_key_def)
qed

text \<open>
  C6: \<^verbatim>\<open>RebalancedCluster\<close> never returns when the slots do not divide evenly and no master is
  below the quotient, whatever the servers answer: the loop that spreads the rest looks only at masters behind, and
  there is none. The even distribution of \<^verbatim>\<open>AllocSlots\<close> over three masters is such a state.
\<close>

theorem RebalancedCluster_diverges:
  assumes "distinct ns" and "(\<Sum>r \<leftarrow> ns. length (n_Slots (w_heap w r))) = 16384"
    and "16384 mod int (length ns) \<noteq> 0" and "\<forall>r \<in> set ns. 16384 div int (length ns) \<le> int (length (n_Slots (w_heap w r)))"
  shows "RebalancedCluster env ns w = None"
proof -
  let ?e = "16384 div int (length ns)"
  let ?g = "init_balances ?e ns (w_heap w)"
  have pos: "length ns > 0" using assms(2) by auto
  then have e: "expected_slots (length ns) = ?e" by (rule expected_slots_eq)
  have "0 < total_balance ns ?g"
    using total_init_balances [OF assms(1,2)] assms(3) pos by (simp add: e order_less_le)
  moreover have "\<not> (\<exists>r \<in> set ns. Balance (?g r) < 0)"
    using init_balances_eq(1) [OF assms(1), of ?e "w_heap w"] assms(4) by auto
  ultimately have "adjust_loop ns (total_balance ns ?g) ?g = None"
    using adjust_loop_diverges [of ns "total_balance ns ?g" ?g] by fastforce
  then show ?thesis by (simp add: RebalancedCluster_def e Let_def)
qed

theorem RebalancedCluster_diverges_witness: "RebalancedCluster empty_server [0, 1, 2] three_masters = None"
  by (rule RebalancedCluster_diverges) (simp_all add: three_masters_def NewDefaultNode_def del: upt_rec_numeral)

end
