(* ===== verification/Migration.thy ===== *)
theory Migration
  imports Rebalance "HOL-Library.Product_Lexorder" "HOL-Library.Option_ord"
begin

text \<open>
  The migration of slots to a new set of masters (\<^verbatim>\<open>controllers/clustering/migration.go\<close>): which
  slots every old master gives away, which were lost, how the available slots are spread over the
  new masters, which (source, target) pair every slot moves between, and the commands that
  carry the plan out.

  The code ranges over several maps, whose order the language leaves open. The orders are a
  parameter, a record with one function per loop from the map to the list of its keys.
\<close>

section \<open>Operations\<close>

type_synonym slotmap = "string \<rightharpoonup> slot list"

text \<open>\<^verbatim>\<open>migrationInfo\<close>: the source, which may be \<^verbatim>\<open>nil\<close>, and the target; \<^verbatim>\<open>mapSlotByMigInfo\<close>.\<close>

type_synonym migrationInfo = "nref option \<times> nref"
type_synonym mapSlotByMigInfo = "migrationInfo \<rightharpoonup> slot list"

record orders =
  o_deleted :: "slotmap \<Rightarrow> string list"
  o_available :: "slotmap \<Rightarrow> string list"
  o_update :: "slotmap \<Rightarrow> string list"
  o_moves :: "mapSlotByMigInfo \<Rightarrow> migrationInfo list"

text \<open>\<open>None\<close> is the panic of a slice expression with a negative bound.\<close>

fun retrieveSlotToMigrateFrom :: "heap \<Rightarrow> Nodes \<Rightarrow> int \<Rightarrow> slotmap \<Rightarrow> slotmap option" where
  "retrieveSlotToMigrateFrom h [] nbSlotByNode m = Some m"
| "retrieveSlotToMigrateFrom h (r # ns) nbSlotByNode m =
     (if TotalSlots (h r) \<ge> nbSlotByNode then
        if nbSlotByNode < 0 then None
        else retrieveSlotToMigrateFrom h ns nbSlotByNode
               (if length (drop (nat nbSlotByNode) (n_Slots (h r))) > 0
                then map_append m (n_ID (h r)) (drop (nat nbSlotByNode) (n_Slots (h r))) else m)
      else retrieveSlotToMigrateFrom h ns nbSlotByNode m)"

fun is_present :: "heap \<Rightarrow> Nodes \<Rightarrow> string \<Rightarrow> bool" where
  "is_present h [] i = False"
| "is_present h (r # ns) i = (if i = n_ID (h r) then True else is_present h ns i)"

fun removed_nodes :: "heap \<Rightarrow> Nodes \<Rightarrow> Nodes \<Rightarrow> Nodes" where
  "removed_nodes h newMasterNodes [] = []"
| "removed_nodes h newMasterNodes (r # ns) =
     (if \<not> is_present h newMasterNodes (n_ID (h r)) then r # removed_nodes h newMasterNodes ns
      else removed_nodes h newMasterNodes ns)"

definition retrieveSlotToMigrateFromRemovedNodes :: "heap \<Rightarrow> Nodes \<Rightarrow> Nodes \<Rightarrow> slotmap" where
  "retrieveSlotToMigrateFromRemovedNodes h newMasterNodes oldMasterNodes =
     foldl (\<lambda>m r. m(n_ID (h r) \<mapsto> n_Slots (h r))) Map.empty (removed_nodes h newMasterNodes oldMasterNodes)"

text \<open>\<^verbatim>\<open>for i := first; i < bound; i++ \<close>, collecting the values of \<^verbatim>\<open>i\<close>.\<close>

function slots_up_to :: "slot \<Rightarrow> slot \<Rightarrow> slot list" where
  "slots_up_to i bound = (if i < bound then i # slots_up_to (i + 1) bound else [])"
  by pat_completeness auto

termination slots_up_to
proof (relation "measure (\<lambda>(i, bound). unat bound - unat i)")
  fix i bound :: slot
  assume "i < bound"
  then have "unat i < unat bound" by (simp add: word_less_nat_alt)
  moreover have "unat (i + 1) = Suc (unat i)"
    using \<open>i < bound\<close> by (intro unat_Suc_slot) (auto simp: word_order.extremum_strict)
  ultimately show "((i + 1, bound), (i, bound)) \<in> measure (\<lambda>(i, bound). unat bound - unat i)" by simp
qed simp

fun lost_loop :: "slot list \<Rightarrow> slot \<Rightarrow> slot list \<Rightarrow> slot \<times> slot list" where
  "lost_loop [] prev lostSlots = (prev, lostSlots)"
| "lost_loop (slot # slots) prev lostSlots =
     lost_loop slots slot (if slot > prev + 1 then lostSlots @ slots_up_to (prev + 1) slot else lostSlots)"

definition retrieveLostSlots :: "heap \<Rightarrow> Nodes \<Rightarrow> int \<Rightarrow> slot list" where
  "retrieveLostSlots h oldMasterNodes nbSlots =
     (let currentFullRange = sort (concat (map (\<lambda>r. n_Slots (h r)) oldMasterNodes));
          lostSlots = (if length currentFullRange = 0 \<or> currentFullRange ! 0 \<noteq> 0 then [0] else []);
          (last, lostSlots) = lost_loop currentFullRange 0 lostSlots
      in lostSlots @ slots_up_to (last + 1) (word_of_int nbSlots))"

text \<open>
  \<^verbatim>\<open>buildSlotByNodeFromAvailableSlots\<close>: the loop over the available slots with the index of the
  node being filled, the slots every index has so far, and the slots to add by id.
\<close>

fun fill_slots ::
    "heap \<Rightarrow> Nodes \<Rightarrow> int \<Rightarrow> slot list \<Rightarrow> nat \<Rightarrow> (nat \<Rightarrow> slot list) \<Rightarrow> slotmap \<Rightarrow> nat \<times> (nat \<Rightarrow> slot list) \<times> slotmap" where
  "fill_slots h ns nbSlotByNode [] idNode slotOfNode add = (idNode, slotOfNode, add)"
| "fill_slots h ns nbSlotByNode (slot # slots) idNode slotOfNode add =
     (let missingSlots = nbSlotByNode - int (length (slotOfNode idNode));
          idNode = (if missingSlots > 0 then idNode
                    else if int (idNode + 1) > int (length ns) - 1 then idNode + 1 - 1 else idNode + 1)
      in fill_slots h ns nbSlotByNode slots idNode
           (slotOfNode(idNode := slotOfNode idNode @ [slot]))
           (map_append add (n_ID (h (ns ! idNode))) [slot]))"

fun fill_from ::
    "heap \<Rightarrow> Nodes \<Rightarrow> int \<Rightarrow> slotmap \<Rightarrow> string list \<Rightarrow> nat \<Rightarrow> (nat \<Rightarrow> slot list) \<Rightarrow> slotmap \<Rightarrow> slotmap" where
  "fill_from h ns nbSlotByNode avail [] idNode slotOfNode add = add"
| "fill_from h ns nbSlotByNode avail (k # ks) idNode slotOfNode add =
     (case fill_slots h ns nbSlotByNode (slice_at avail k) idNode slotOfNode add of
        (idNode, slotOfNode, add) \<Rightarrow> fill_from h ns nbSlotByNode avail ks idNode slotOfNode add)"

definition buildSlotByNodeFromAvailableSlots ::
    "orders \<Rightarrow> heap \<Rightarrow> Nodes \<Rightarrow> int \<Rightarrow> slotmap \<Rightarrow> slotmap" where
  "buildSlotByNodeFromAvailableSlots os h newMasterNodes nbSlotByNode slotToMigrateByNode =
     (if length newMasterNodes = 0 then Map.empty
      else fill_from h newMasterNodes nbSlotByNode slotToMigrateByNode (o_available os slotToMigrateByNode) 0
             (\<lambda>i. if i < length newMasterNodes then n_Slots (h (newMasterNodes ! i)) else []) Map.empty)"

text \<open>\<^verbatim>\<open>int(math.Ceil(float64(nbSlots) / float64(nbNode)))\<close>\<close>

definition nb_slot_by_node :: "int \<Rightarrow> nat \<Rightarrow> int" where
  "nb_slot_by_node nbSlots nbNode = \<lceil>fl (of_int nbSlots / of_nat nbNode)\<rceil>"

definition slots_to_migrate :: "orders \<Rightarrow> heap \<Rightarrow> Nodes \<Rightarrow> Nodes \<Rightarrow> int \<Rightarrow> int \<Rightarrow> slotmap option" where
  "slots_to_migrate os h newMasterNodes oldMasterNodes nbSlotByNode nbSlots =
     do {
       slotToMigrateByNode \<leftarrow> retrieveSlotToMigrateFrom h oldMasterNodes nbSlotByNode Map.empty;
       let fromDeleted = retrieveSlotToMigrateFromRemovedNodes h newMasterNodes oldMasterNodes;
       let slotToMigrateByNode = foldl (\<lambda>m i. m(i \<mapsto> slice_at fromDeleted i)) slotToMigrateByNode (o_deleted os fromDeleted);
       Some (slotToMigrateByNode('''' \<mapsto> retrieveLostSlots h oldMasterNodes nbSlots))
     }"

text \<open>The rest of \<^verbatim>\<open>BuildSlotsByNode\<close> computes what it logs.\<close>

definition BuildSlotsByNode :: "orders \<Rightarrow> heap \<Rightarrow> Nodes \<Rightarrow> Nodes \<Rightarrow> Nodes \<Rightarrow> int \<Rightarrow> slotmap option" where
  "BuildSlotsByNode os h newMasterNodes oldMasterNodes allMasterNodes nbSlots =
     (if length newMasterNodes = 0 then Some Map.empty
      else let nbSlotByNode = nb_slot_by_node nbSlots (length newMasterNodes) in
        do {
          slotToMigrateByNode \<leftarrow> slots_to_migrate os h newMasterNodes oldMasterNodes nbSlotByNode nbSlots;
          Some (buildSlotByNodeFromAvailableSlots os h newMasterNodes nbSlotByNode slotToMigrateByNode)
        })"

text \<open>
  The inner loop of \<^verbatim>\<open>feedMigInfo\<close> over the old masters for one slot: the state is the plan and the
  count of slots to migrate, the result also says whether the slot was found.
\<close>

fun feed_old ::
    "heap \<Rightarrow> Nodes \<Rightarrow> string \<Rightarrow> slot \<Rightarrow> Nodes \<Rightarrow> mapSlotByMigInfo \<Rightarrow> int \<Rightarrow> bool \<times> mapSlotByMigInfo \<times> int" where
  "feed_old h newMasterNodes i s [] mapOut nb = (False, mapOut, nb)"
| "feed_old h newMasterNodes i s (oldNode # ns) mapOut nb =
     (if n_ID (h oldNode) = i then
        if Contains (n_Slots (h oldNode)) s then (True, mapOut, nb)
        else feed_old h newMasterNodes i s ns mapOut nb
      else if Contains (n_Slots (h oldNode)) s then
        (case Nodes_GetNodeByID h newMasterNodes i of
           (Some newNode, None) \<Rightarrow> (True, map_append mapOut (Some oldNode, newNode) [s], nb + 1)
         | _ \<Rightarrow> feed_old h newMasterNodes i s ns mapOut nb)
      else feed_old h newMasterNodes i s ns mapOut nb)"

definition feed_slot ::
    "heap \<Rightarrow> Nodes \<Rightarrow> Nodes \<Rightarrow> string \<Rightarrow> slot \<Rightarrow> mapSlotByMigInfo \<times> int \<Rightarrow> mapSlotByMigInfo \<times> int" where
  "feed_slot h newMasterNodes oldMasterNodes i s st =
     (case st of (mapOut, nb) \<Rightarrow>
        case feed_old h newMasterNodes i s oldMasterNodes mapOut nb of
          (found, mapOut, nb) \<Rightarrow>
            if \<not> found then
              (case Nodes_GetNodeByID h newMasterNodes i of
                 (Some newNode, None) \<Rightarrow> (map_append mapOut (None, newNode) [s], nb + 1)
               | _ \<Rightarrow> (mapOut, nb))
            else (mapOut, nb))"

definition feedMigInfo ::
    "orders \<Rightarrow> heap \<Rightarrow> Nodes \<Rightarrow> Nodes \<Rightarrow> Nodes \<Rightarrow> int \<Rightarrow> (mapSlotByMigInfo \<times> int) option" where
  "feedMigInfo os h newMasterNodes oldMasterNodes allMasterNodes nbSlots =
     do {
       mapSlotToUpdate \<leftarrow> BuildSlotsByNode os h newMasterNodes oldMasterNodes allMasterNodes nbSlots;
       Some (fold (\<lambda>i. fold (feed_slot h newMasterNodes oldMasterNodes i) (slice_at mapSlotToUpdate i))
               (o_update os mapSlotToUpdate) (Map.empty, 0))
     }"

text \<open>The loop that tells the other masters, and the body of the loop over the plan.\<close>

fun tell_others :: "env \<Rightarrow> nref option \<times> nref \<Rightarrow> slot list \<Rightarrow> Nodes \<Rightarrow> world \<Rightarrow> world" where
  "tell_others env mi slots [] w = w"
| "tell_others env mi slots (master # ms) w =
     (if IPPort (w_heap w master) = IPPort (w_heap w (snd mi))
         \<or> IPPort (w_heap w master) = IPPort (w_heap w (the (fst mi)))
      then tell_others env mi slots ms w
      else if TotalSlots (w_heap w master) = 0 then tell_others env mi slots ms w
      else tell_others env mi slots ms
             (snd (SetSlots env (IPPort (w_heap w master)) ''NODE'' slots (n_ID (w_heap w (snd mi))) w)))"

definition dispatch_move ::
    "env \<Rightarrow> Nodes \<Rightarrow> nref \<Rightarrow> nref \<Rightarrow> slot list \<Rightarrow> world \<Rightarrow> (err option \<times> world) option" where
  "dispatch_move env allMasterNodes src to slots w =
     (let toAddr = IPPort (w_heap w to); fromAddr = IPPort (w_heap w src);
          toID = n_ID (w_heap w to); fromID = n_ID (w_heap w src)
      in case SetSlots env toAddr ''IMPORTING'' slots fromID w of
           (err, w) \<Rightarrow>
             if err \<noteq> None then Some (err, w)
             else case SetSlots env fromAddr ''MIGRATING'' slots toID w of
               (err, w) \<Rightarrow>
                 if err \<noteq> None then Some (err, w)
                 else do {
                   ((_, migerr), w) \<leftarrow> MigrateKeys env fromAddr (w_heap w to) slots 10 30000 True w;
                   let (_, w) = SetSlots env toAddr ''NODE'' slots toID w;
                   let (_, w) = SetSlots env fromAddr ''NODE'' slots toID w;
                   let w = set_node src (\<lambda>n. n\<lparr>n_Slots := RemoveSlots (n_Slots n) slots\<rparr>) w;
                   Some (None, tell_others env (Some src, to) slots allMasterNodes w)
                 })"

definition dispatch_entry ::
    "env \<Rightarrow> Nodes \<Rightarrow> migrationInfo \<Rightarrow> slot list \<Rightarrow> world \<Rightarrow> (err option \<times> world) option" where
  "dispatch_entry env allMasterNodes mi slots w =
     do {
       (err, w) \<leftarrow> (case fst mi of
                       None \<Rightarrow> Some (Admin_AddSlots env (IPPort (w_heap w (snd mi))) slots w)
                     | Some src \<Rightarrow> dispatch_move env allMasterNodes src (snd mi) slots w);
       Some (if err \<noteq> None then (err, w)
             else (None, set_node (snd mi) (\<lambda>n. n\<lparr>n_Slots := AddSlots (n_Slots n) slots\<rparr>) w))
     }"

fun dispatch_entries ::
    "env \<Rightarrow> Nodes \<Rightarrow> mapSlotByMigInfo \<Rightarrow> migrationInfo list \<Rightarrow> world \<Rightarrow> (err option \<times> world) option" where
  "dispatch_entries env allMasterNodes plan [] w = Some (None, w)"
| "dispatch_entries env allMasterNodes plan (mi # mis) w =
     do {
       (err, w) \<leftarrow> dispatch_entry env allMasterNodes mi (slice_at plan mi) w;
       if err \<noteq> None then Some (err, w) else dispatch_entries env allMasterNodes plan mis w
     }"

definition DispatchSlotToNewMasters ::
    "env \<Rightarrow> orders \<Rightarrow> Cluster \<Rightarrow> Nodes \<Rightarrow> Nodes \<Rightarrow> Nodes \<Rightarrow> world \<Rightarrow> ((err option \<times> Cluster) \<times> world) option" where
  "DispatchSlotToNewMasters env os cluster newMasterNodes currentMasterNodes allMasterNodes w =
     do {
       (plan, nb) \<leftarrow> feedMigInfo os (w_heap w) newMasterNodes currentMasterNodes allMasterNodes (uint (GetHashMaxSlot + 1));
       let cluster = cluster\<lparr>c_NbslotsToMigrate := nb, c_Status := ClusterStatusRebalancing\<rparr>;
       (err, w) \<leftarrow> dispatch_entries env allMasterNodes plan (o_moves os plan) w;
       Some ((err, cluster), w)
     }"

section \<open>Lost slots\<close>

declare slots_up_to.simps [simp del]

lemma slot_Suc_le: "i < (bound :: slot) \<Longrightarrow> i + 1 \<le> s \<longleftrightarrow> i < s"
proof -
  assume "i < bound"
  then have "i \<noteq> - 1" by (auto simp: word_order.extremum_strict)
  then show ?thesis by (simp add: word_le_nat_alt word_less_nat_alt unat_Suc_slot Suc_le_eq)
qed

lemma slots_up_to_spec: "set (slots_up_to i bound) = {i..<bound} \<and> sorted (slots_up_to i bound) \<and> distinct (slots_up_to i bound)"
proof (induction i bound rule: slots_up_to.induct)
  case (1 i bound)
  show ?case
  proof (cases "i < bound")
    case True
    then have eq: "slots_up_to i bound = i # slots_up_to (i + 1) bound" by (subst slots_up_to.simps) simp
    note ih = 1 [OF True]
    have "{i + 1..<bound} = {i<..<bound}" by (simp add: set_eq_iff slot_Suc_le [OF True])
    then have st: "set (slots_up_to (i + 1) bound) = {i<..<bound}" using ih by simp
    moreover have "{i..<bound} = insert i {i<..<bound}" using True by (auto simp: order_le_less)
    ultimately show ?thesis using ih unfolding eq by (simp add: less_imp_le)
  next
    case False
    then have "slots_up_to i bound = []" by (subst slots_up_to.simps) simp
    with False show ?thesis by simp
  qed
qed

lemma slots_between_gap: "prev < (bound :: slot) \<Longrightarrow> set (if x > prev + 1 then slots_up_to (prev + 1) x else []) = {prev<..<x}"
proof -
  assume "prev < bound"
  then have eq: "{prev + 1..<x} = {prev<..<x}" by (simp add: set_eq_iff slot_Suc_le)
  moreover have "\<not> x > prev + 1 \<Longrightarrow> {prev + 1..<x} = {}" by simp
  ultimately show ?thesis using slots_up_to_spec [of "prev + 1" x] by (cases "x > prev + 1") simp_all
qed

lemma lost_loop_spec:
  assumes "\<forall>s \<in> set xs. s < bound" and "prev < bound" and "sorted (prev # xs)"
  shows "\<exists>ls. lost_loop xs prev lost = (last (prev # xs), lost @ ls) \<and> sorted ls \<and> distinct ls \<and>
     set ls = {prev<..last (prev # xs)} - set xs"
  using assms
proof (induction xs arbitrary: prev lost)
  case Nil
  then show ?case by simp
next
  case (Cons x xs)
  let ?gap = "if x > prev + 1 then slots_up_to (prev + 1) x else []"
  have gap: "set ?gap = {prev<..<x}" "sorted ?gap" "distinct ?gap"
    using slots_between_gap [OF Cons.prems(2)] slots_up_to_spec by simp_all
  obtain ls where ls: "lost_loop xs x (lost @ ?gap) = (last (x # xs), (lost @ ?gap) @ ls)"
      "sorted ls" "distinct ls" "set ls = {x<..last (x # xs)} - set xs"
    using Cons.IH [of x "lost @ ?gap"] Cons.prems by auto
  have x: "x \<le> last (x # xs)" using Cons.prems(3) by simp
  have up: "\<forall>y \<in> set xs. x \<le> y" "prev \<le> x" using Cons.prems(3) by simp_all
  have "{prev<..last (x # xs)} = {prev<..<x} \<union> ({x} \<inter> {prev<..}) \<union> {x<..last (x # xs)}" using x up(2) by auto
  moreover have "{prev<..<x} \<inter> set (x # xs) = {}" using up(1) by force
  ultimately have "set (?gap @ ls) = {prev<..last (x # xs)} - set (x # xs)"
    unfolding set_append gap(1) ls(4) by auto
  moreover have "sorted (?gap @ ls)" using gap ls(2,4) by (auto simp: sorted_append)
  moreover have "distinct (?gap @ ls)" using gap ls(3,4) by auto
  moreover have "lost_loop (x # xs) prev lost = (last (prev # x # xs), lost @ (?gap @ ls))"
    using ls(1) by (cases "prev + 1 < x") simp_all
  ultimately show ?case by (metis last_ConsR list.discI)
qed

lemma split_at: "l < (n :: slot) \<Longrightarrow> {0..<n} = {0} \<union> {0<..l} \<union> {l<..<n}"
proof -
  assume l: "l < n"
  have "x < n \<longleftrightarrow> x = 0 \<or> 0 < x \<and> x \<le> l \<or> l < x \<and> x < n" for x :: slot
    using l le_less_trans [of x l n] le_less_trans [of 0 l n] word_gt_0 [of x] by (cases "x = 0"; cases "x \<le> l") auto
  then show ?thesis by (simp add: set_eq_iff)
qed

lemma retrieveLostSlots_spec:
  assumes "\<forall>r \<in> set old. \<forall>s \<in> set (n_Slots (h r)). s < word_of_int nbSlots" and "0 < (word_of_int nbSlots :: slot)"
  shows "set (retrieveLostSlots h old nbSlots) = {0..<word_of_int nbSlots} - (\<Union>r \<in> set old. set (n_Slots (h r)))
       \<and> sorted (retrieveLostSlots h old nbSlots) \<and> distinct (retrieveLostSlots h old nbSlots)"
proof -
  let ?N = "word_of_int nbSlots :: slot"
  define full where "full = sort (concat (map (\<lambda>r. n_Slots (h r)) old))"
  have set_full: "set full = (\<Union>r \<in> set old. set (n_Slots (h r)))" by (simp add: full_def)
  have full: "sorted full" "\<forall>s \<in> set full. s < ?N" using assms(1) by (auto simp: full_def)
  define zero where "zero = (if length full = 0 \<or> full ! 0 \<noteq> 0 then [0 :: slot] else [])"
  have "(length full = 0 \<or> full ! 0 \<noteq> 0) = (0 \<notin> set full)"
    using full(1) by (cases full) auto
  then have zero: "set zero = {0} - set full" "sorted zero" "distinct zero" by (auto simp: zero_def)
  define l where "l = last (0 # full)"
  obtain ls where ls: "lost_loop full 0 zero = (l, zero @ ls)" "sorted ls" "distinct ls" "set ls = {0<..l} - set full"
    using lost_loop_spec [of full ?N 0 zero] full assms(2) by (auto simp: l_def)
  have lst: "l < ?N" using full(2) assms(2) by (simp add: l_def)
  define rest where "rest = slots_up_to (l + 1) ?N"
  have "{l + 1..<?N} = {l<..<?N}" by (simp add: set_eq_iff slot_Suc_le [OF lst])
  then have rest: "set rest = {l<..<?N}" "sorted rest" "distinct rest"
    using slots_up_to_spec [of "l + 1" ?N] by (simp_all add: rest_def)
  have top: "s \<le> l" if "s \<in> set full" for s
    using that full(1) by (cases full rule: rev_cases) (auto simp: sorted_append l_def)
  have eq: "retrieveLostSlots h old nbSlots = zero @ ls @ rest"
    unfolding retrieveLostSlots_def full_def [symmetric] Let_def zero_def [symmetric] ls(1) by (simp add: rest_def)
  have "{l<..<?N} \<inter> set full = {}" using top by (auto simp: not_le [symmetric])
  then have "set (zero @ ls @ rest) = {0..<?N} - set full"
    unfolding split_at [OF lst] set_append zero(1) ls(4) rest(1) by blast
  moreover have "sorted (zero @ ls @ rest)"
    using zero ls(2,4) rest by (auto simp: sorted_append intro: less_imp_le order_trans)
  moreover have "distinct (zero @ ls @ rest)" using zero ls(3,4) rest by auto
  ultimately show ?thesis by (simp add: eq set_full)
qed

section \<open>Spreading the available slots\<close>

lemma fill_slots_spec:
  assumes "distinct (map (\<lambda>r. n_ID (h r)) ns)"
  shows "fill_slots h ns nb slots i f add = (i', f', add') \<Longrightarrow> i < length ns \<Longrightarrow>
    i' < length ns \<and>
    mset (slots_of add' (map (\<lambda>r. n_ID (h r)) ns)) = mset (slots_of add (map (\<lambda>r. n_ID (h r)) ns)) + mset slots \<and>
    dom add' \<subseteq> dom add \<union> (\<lambda>r. n_ID (h r)) ` set ns"
proof (induction slots arbitrary: i f add)
  case Nil
  then show ?case by simp
next
  case (Cons slot slots)
  define j where "j = (if nb - int (length (f i)) > 0 then i
                       else if int (i + 1) > int (length ns) - 1 then i + 1 - 1 else i + 1)"
  have j: "j < length ns" using Cons.prems(2) by (auto simp: j_def)
  then have mem: "n_ID (h (ns ! j)) \<in> set (map (\<lambda>r. n_ID (h r)) ns)" by simp
  have eq: "fill_slots h ns nb slots j (f(j := f j @ [slot])) (map_append add (n_ID (h (ns ! j))) [slot]) = (i', f', add')"
    using Cons.prems(1) by (simp only: fill_slots.simps Let_def j_def)
  show ?case
    using Cons.IH [OF eq j] mem slots_of_map_append [OF assms mem, of add "[slot]"] by auto
qed

lemma fill_from_spec:
  assumes "distinct (map (\<lambda>r. n_ID (h r)) ns)"
  shows "i < length ns \<Longrightarrow>
    mset (slots_of (fill_from h ns nb avail ks i f add) (map (\<lambda>r. n_ID (h r)) ns))
      = mset (slots_of add (map (\<lambda>r. n_ID (h r)) ns)) + mset (slots_of avail ks) \<and>
    dom (fill_from h ns nb avail ks i f add) \<subseteq> dom add \<union> (\<lambda>r. n_ID (h r)) ` set ns"
proof (induction ks arbitrary: i f add)
  case Nil
  then show ?case by (simp add: slots_of_def)
next
  case (Cons k ks)
  obtain i' f' add' where st: "fill_slots h ns nb (slice_at avail k) i f add = (i', f', add')" by (metis prod_cases3)
  note one = fill_slots_spec [OF assms st Cons.prems]
  then have "i' < length ns" by simp
  note ih = Cons.IH [OF this, of f' add']
  have "mset (slots_of (fill_from h ns nb avail (k # ks) i f add) (map (\<lambda>r. n_ID (h r)) ns))
      = mset (slots_of add (map (\<lambda>r. n_ID (h r)) ns)) + mset (slots_of avail (k # ks))"
    using ih one by (simp add: st slots_of_def)
  moreover have "dom (fill_from h ns nb avail (k # ks) i f add) \<subseteq> dom add \<union> (\<lambda>r. n_ID (h r)) ` set ns"
    using ih one unfolding fill_from.simps st prod.case by blast
  ultimately show ?case by blast
qed

lemma buildSlotByNode_spec:
  assumes "distinct (map (\<lambda>r. n_ID (h r)) ns)" and "ns \<noteq> []"
  shows "mset (slots_of (buildSlotByNodeFromAvailableSlots os h ns nb avail) (map (\<lambda>r. n_ID (h r)) ns))
           = mset (slots_of avail (o_available os avail)) \<and>
         dom (buildSlotByNodeFromAvailableSlots os h ns nb avail) \<subseteq> (\<lambda>r. n_ID (h r)) ` set ns"
  using fill_from_spec [OF assms(1), of 0 nb avail "o_available os avail"
      "\<lambda>i. if i < length ns then n_Slots (h (ns ! i)) else []" Map.empty] assms(2)
  by (simp add: buildSlotByNodeFromAvailableSlots_def slots_of_def)

section \<open>The available slots\<close>

lemma foldl_upd_out: "k \<notin> f ` set xs \<Longrightarrow> foldl (\<lambda>m x. m(f x \<mapsto> g x)) m xs k = m k"
  by (induction xs arbitrary: m) auto

lemma foldl_upd_in: "distinct (map f xs) \<Longrightarrow> x \<in> set xs \<Longrightarrow> foldl (\<lambda>m x. m(f x \<mapsto> g x)) m xs (f x) = Some (g x)"
proof (induction xs arbitrary: m)
  case (Cons a xs)
  then show ?case
    using foldl_upd_out [of "f a" f xs g "m(f a \<mapsto> g a)"] by (cases "x = a") (simp_all add: fun_upd_same del: fun_upd_apply)
qed simp

lemma is_present_iff [simp]: "is_present h ns i \<longleftrightarrow> i \<in> (\<lambda>r. n_ID (h r)) ` set ns"
  by (induction ns) auto

lemma removed_nodes_filter [simp]:
  "removed_nodes h new old = filter (\<lambda>r. n_ID (h r) \<notin> (\<lambda>r. n_ID (h r)) ` set new) old"
  by (induction old) auto

lemma retrieveSlotToMigrateFrom_spec:
  assumes "0 \<le> nb"
  shows "distinct (map (\<lambda>r. n_ID (h r)) ns) \<Longrightarrow> \<forall>r \<in> set ns. n_ID (h r) \<notin> dom m \<Longrightarrow>
    \<exists>m'. retrieveSlotToMigrateFrom h ns nb m = Some m' \<and> dom m' \<subseteq> dom m \<union> (\<lambda>r. n_ID (h r)) ` set ns \<and>
      (\<forall>r \<in> set ns. slice_at m' (n_ID (h r)) = drop (nat nb) (n_Slots (h r))) \<and>
      (\<forall>k. k \<notin> (\<lambda>r. n_ID (h r)) ` set ns \<longrightarrow> slice_at m' k = slice_at m k)"
proof (induction ns arbitrary: m)
  case Nil
  then show ?case by simp
next
  case (Cons a ns)
  let ?rest = "drop (nat nb) (n_Slots (h a))"
  define m1 where "m1 = (if TotalSlots (h a) \<ge> nb \<and> length ?rest > 0 then map_append m (n_ID (h a)) ?rest else m)"
  have "slice_at m (n_ID (h a)) = []" using Cons.prems(2) by (simp add: slice_at_not_dom)
  then have m1: "slice_at m1 k = (if k = n_ID (h a) then ?rest else slice_at m k)" for k
    using assms by (auto simp: m1_def TotalSlots_def)
  have dom1: "dom m1 \<subseteq> insert (n_ID (h a)) (dom m)" by (auto simp: m1_def)
  have dist: "distinct (map (\<lambda>r. n_ID (h r)) ns)" and a: "n_ID (h a) \<notin> (\<lambda>r. n_ID (h r)) ` set ns"
    using Cons.prems(1) by simp_all
  have "\<forall>r \<in> set ns. n_ID (h r) \<notin> dom m1"
    using dom1 a Cons.prems(2) by (metis image_eqI insertE list.set_intros(2) subsetD)
  from Cons.IH [OF dist this] obtain m' where m': "retrieveSlotToMigrateFrom h ns nb m1 = Some m'"
      "dom m' \<subseteq> dom m1 \<union> (\<lambda>r. n_ID (h r)) ` set ns"
      "\<forall>r \<in> set ns. slice_at m' (n_ID (h r)) = drop (nat nb) (n_Slots (h r))"
      "\<forall>k. k \<notin> (\<lambda>r. n_ID (h r)) ` set ns \<longrightarrow> slice_at m' k = slice_at m1 k" by blast
  have "retrieveSlotToMigrateFrom h (a # ns) nb m = Some m'" using assms m'(1) by (auto simp: m1_def split: if_splits)
  moreover have "dom m' \<subseteq> dom m \<union> (\<lambda>r. n_ID (h r)) ` set (a # ns)" using m'(2) dom1 by auto
  moreover have "slice_at m' (n_ID (h a)) = ?rest" using m'(4) a by (simp add: m1)
  moreover have "slice_at m' k = slice_at m k" if "k \<notin> (\<lambda>r. n_ID (h r)) ` set (a # ns)" for k
    using m'(4) that by (simp add: m1)
  ultimately show ?case using m'(3) by (intro exI [of _ m']) simp
qed

text \<open>What an old master makes available: everything if it is removed, else what is above the share.\<close>

definition gives :: "heap \<Rightarrow> Nodes \<Rightarrow> int \<Rightarrow> nref \<Rightarrow> slot list" where
  "gives h new nb r = (if is_present h new (n_ID (h r)) then drop (nat nb) (n_Slots (h r)) else n_Slots (h r))"

lemma slots_to_migrate_spec:
  assumes "0 \<le> nb" and "distinct (map (\<lambda>r. n_ID (h r)) old)" and "\<forall>r \<in> set old. n_ID (h r) \<noteq> ''''"
    and "\<And>m. finite (dom m) \<Longrightarrow> range_order (o_deleted os m) m"
  shows "\<exists>A. slots_to_migrate os h new old nb nbSlots = Some A \<and> finite (dom A) \<and>
    slice_at A '''' = retrieveLostSlots h old nbSlots \<and>
    (\<forall>r \<in> set old. slice_at A (n_ID (h r)) = gives h new nb r) \<and>
    (\<forall>k. k \<noteq> '''' \<longrightarrow> k \<notin> (\<lambda>r. n_ID (h r)) ` set old \<longrightarrow> slice_at A k = [])"
proof -
  let ?id = "\<lambda>r. n_ID (h r)"
  let ?rem = "filter (\<lambda>r. ?id r \<notin> ?id ` set new) old"
  define D where "D = retrieveSlotToMigrateFromRemovedNodes h new old"
  obtain m where m: "retrieveSlotToMigrateFrom h old nb Map.empty = Some m" "dom m \<subseteq> ?id ` set old"
      "\<forall>r \<in> set old. slice_at m (?id r) = drop (nat nb) (n_Slots (h r))"
      "\<forall>k. k \<notin> ?id ` set old \<longrightarrow> slice_at m k = []"
    using retrieveSlotToMigrateFrom_spec [OF assms(1,2), of Map.empty] by auto
  have D_eq: "D = foldl (\<lambda>m r. m(?id r \<mapsto> n_Slots (h r))) Map.empty ?rem"
    by (simp add: D_def retrieveSlotToMigrateFromRemovedNodes_def)
  have D_in: "D (?id r) = Some (n_Slots (h r))" if "r \<in> set ?rem" for r
    unfolding D_eq by (rule foldl_upd_in [OF distinct_map_filter [OF assms(2)] that])
  have D_out: "D k = None" if "k \<notin> ?id ` set ?rem" for k
    unfolding D_eq by (rule foldl_upd_out [OF that])
  have dom_D: "dom D = ?id ` set ?rem"
  proof (intro subset_antisym subsetI)
    fix k assume "k \<in> dom D"
    then show "k \<in> ?id ` set ?rem" using D_out [of k] by (cases "k \<in> ?id ` set ?rem") (simp_all add: domIff)
  next
    fix k assume "k \<in> ?id ` set ?rem"
    then obtain r where "r \<in> set ?rem" "k = ?id r" by blast
    then show "k \<in> dom D" using D_in [of r] by (simp add: domIff)
  qed
  have ro: "distinct (o_deleted os D)" "set (o_deleted os D) = dom D"
    using range_orderD [OF assms(4) [of D]] dom_D by simp_all
  define B where "B = foldl (\<lambda>m i. m(i \<mapsto> slice_at D i)) m (o_deleted os D)"
  have B_in: "B k = Some (slice_at D k)" if "k \<in> dom D" for k
    using foldl_upd_in [of "\<lambda>i. i" "o_deleted os D" k "slice_at D" m] ro that by (simp add: B_def)
  have B_out: "B k = m k" if "k \<notin> dom D" for k
    using foldl_upd_out [of k "\<lambda>i. i" "o_deleted os D" "slice_at D" m] ro that by (simp add: B_def)
  have B_old: "slice_at B (?id r) = gives h new nb r" if r: "r \<in> set old" for r
  proof (cases "?id r \<in> ?id ` set new")
    case True
    then have "?id r \<notin> dom D" by (auto simp: dom_D)
    then have "slice_at B (?id r) = slice_at m (?id r)" by (simp add: slice_at_def B_out)
    with True m(3) r show ?thesis by (simp add: gives_def)
  next
    case False
    with r have rem: "r \<in> set ?rem" by simp
    then have "?id r \<in> dom D" by (auto simp: dom_D)
    then have "slice_at B (?id r) = n_Slots (h r)" using B_in D_in [OF rem] by (simp add: slice_at_def)
    with False show ?thesis by (simp add: gives_def)
  qed
  have B_other: "slice_at B k = []" if "k \<notin> ?id ` set old" for k
  proof -
    have "k \<notin> dom D" using that by (auto simp: dom_D)
    then have "slice_at B k = slice_at m k" by (simp add: slice_at_def B_out)
    with m(4) that show ?thesis by simp
  qed
  have "dom B \<subseteq> dom m \<union> dom D" using B_out by (metis UnCI domIff subsetI)
  moreover have "finite (dom m \<union> dom D)" using finite_subset [OF m(2)] by (simp add: dom_D)
  ultimately have "finite (dom B)" by (rule finite_subset)
  moreover have "slots_to_migrate os h new old nb nbSlots = Some (B('''' \<mapsto> retrieveLostSlots h old nbSlots))"
    using m(1) by (simp add: slots_to_migrate_def B_def D_def Let_def)
  ultimately show ?thesis
    using B_old B_other assms(3) by (intro exI [of _ "B('''' \<mapsto> retrieveLostSlots h old nbSlots)"]) simp
qed

text \<open>
  The masters before and after: ids are unique and not empty, an old and a new master with the same
  id are the same node, no slot has two owners, and a master that is new owns nothing yet.
\<close>

definition migration_ok :: "heap \<Rightarrow> Nodes \<Rightarrow> Nodes \<Rightarrow> bool" where
  "migration_ok h new old \<longleftrightarrow>
     new \<noteq> [] \<and> distinct (map (\<lambda>r. n_ID (h r)) new) \<and> distinct (map (\<lambda>r. n_ID (h r)) old) \<and>
     (\<forall>r \<in> set old \<union> set new. n_ID (h r) \<noteq> '''') \<and>
     (\<forall>a \<in> set old. \<forall>b \<in> set new. n_ID (h a) = n_ID (h b) \<longrightarrow> a = b) \<and>
     distinct (concat (map (\<lambda>r. n_Slots (h r)) old)) \<and>
     (\<forall>r \<in> set old. \<forall>s \<in> set (n_Slots (h r)). s < 16384) \<and>
     (\<forall>r \<in> set new. r \<notin> set old \<longrightarrow> n_Slots (h r) = [])"

lemma migration_okD:
  assumes "migration_ok h new old"
  shows "new \<noteq> []" and "distinct (map (\<lambda>r. n_ID (h r)) new)" and "distinct (map (\<lambda>r. n_ID (h r)) old)"
    and "\<forall>r \<in> set old. n_ID (h r) \<noteq> ''''"
    and "r \<in> set old \<Longrightarrow> distinct (n_Slots (h r))"
    and "r \<in> set old \<Longrightarrow> r' \<in> set old \<Longrightarrow> s \<in> set (n_Slots (h r)) \<Longrightarrow> s \<in> set (n_Slots (h r')) \<Longrightarrow> r = r'"
    and "a \<in> set old \<Longrightarrow> b \<in> set new \<Longrightarrow> n_ID (h a) = n_ID (h b) \<Longrightarrow> a = b"
    and "r \<in> set new \<Longrightarrow> r \<notin> set old \<Longrightarrow> n_Slots (h r) = []"
    and "r \<in> set old \<Longrightarrow> n_ID (h r) \<in> (\<lambda>r. n_ID (h r)) ` set new \<longleftrightarrow> r \<in> set new"
proof -
  note ok = assms [unfolded migration_ok_def]
  show "new \<noteq> []" "distinct (map (\<lambda>r. n_ID (h r)) new)" and old: "distinct (map (\<lambda>r. n_ID (h r)) old)"
    and "\<forall>r \<in> set old. n_ID (h r) \<noteq> ''''" using ok by blast+
  have "distinct old" using old by (simp add: distinct_map)
  note slots = distinct_concat_map_iff [OF this, THEN iffD1, OF ok [THEN conjunct2, THEN conjunct2, THEN conjunct2, THEN conjunct2, THEN conjunct2, THEN conjunct1]]
  show "r \<in> set old \<Longrightarrow> distinct (n_Slots (h r))" using slots by blast
  show "r \<in> set old \<Longrightarrow> r' \<in> set old \<Longrightarrow> s \<in> set (n_Slots (h r)) \<Longrightarrow> s \<in> set (n_Slots (h r')) \<Longrightarrow> r = r'"
    using slots by blast
  show same: "a \<in> set old \<Longrightarrow> b \<in> set new \<Longrightarrow> n_ID (h a) = n_ID (h b) \<Longrightarrow> a = b" for a b using ok by blast
  show "r \<in> set new \<Longrightarrow> r \<notin> set old \<Longrightarrow> n_Slots (h r) = []" using ok by blast
  show "r \<in> set old \<Longrightarrow> n_ID (h r) \<in> (\<lambda>r. n_ID (h r)) ` set new \<longleftrightarrow> r \<in> set new" using same by blast
qed

lemma lost_slots:
  assumes "migration_ok h new old"
  shows "set (retrieveLostSlots h old 16384) = {0..<16384} - (\<Union>r \<in> set old. set (n_Slots (h r)))
       \<and> distinct (retrieveLostSlots h old 16384)"
  using retrieveLostSlots_spec [of old h 16384] assms by (simp add: migration_ok_def)

lemma gives_subset: "set (gives h new nb r) \<subseteq> set (n_Slots (h r))"
  by (auto simp: gives_def dest: in_set_dropD)

lemma distinct_gives: "distinct (n_Slots (h r)) \<Longrightarrow> distinct (gives h new nb r)"
  by (simp add: gives_def)

lemma available_slots:
  assumes ok: "migration_ok h new old" and "range_order ks A"
    and A: "slice_at A '''' = retrieveLostSlots h old 16384" "\<forall>r \<in> set old. slice_at A (n_ID (h r)) = gives h new nb r"
      "\<forall>k. k \<noteq> '''' \<longrightarrow> k \<notin> (\<lambda>r. n_ID (h r)) ` set old \<longrightarrow> slice_at A k = []"
  shows "distinct (slots_of A ks) \<and>
    set (slots_of A ks) = set (retrieveLostSlots h old 16384) \<union> (\<Union>r \<in> set old. set (gives h new nb r))"
proof -
  note ks = range_orderD [OF assms(2)] and okD = migration_okD [OF ok]
  have cases: "k = '''' \<or> (\<exists>r \<in> set old. k = n_ID (h r)) \<or> slice_at A k = []" for k using A(3) by blast
  have lost: "set (retrieveLostSlots h old 16384) \<inter> set (gives h new nb r) = {}" if "r \<in> set old" for r
    using lost_slots [OF ok] gives_subset [of h new nb r] that by blast
  have one: "distinct (slice_at A k)" for k
    using cases [of k] A(1,2) lost_slots [OF ok] okD(5) distinct_gives by auto
  have two: "set (slice_at A k) \<inter> set (slice_at A k') = {}" if "k \<noteq> k'" for k k'
  proof -
    have dis: "set (gives h new nb r) \<inter> set (gives h new nb r') = {}"
      if "r \<in> set old" "r' \<in> set old" "n_ID (h r) \<noteq> n_ID (h r')" for r r'
      using gives_subset [of h new nb] okD(6) that by blast
    show ?thesis
      using cases [of k] cases [of k'] that A(1,2) lost dis by (elim disjE bexE) (simp_all add: Int_commute)
  qed
  have "distinct (slots_of A ks)"
    unfolding slots_of_def distinct_concat_map_iff [OF ks(1)] using one two by blast
  moreover have "set (slots_of A ks) = (\<Union>k. set (slice_at A k))"
    using ks(2) slice_at_not_dom [of _ A] by (fastforce simp: slots_of_def)
  moreover have "(\<Union>k. set (slice_at A k)) = set (retrieveLostSlots h old 16384) \<union> (\<Union>r \<in> set old. set (gives h new nb r))"
    (is "?l = ?r")
  proof
    show "?l \<subseteq> ?r"
    proof
      fix s assume "s \<in> ?l"
      then obtain k where "s \<in> set (slice_at A k)" by blast
      with cases [of k] A(1,2) show "s \<in> ?r" by auto
    qed
    show "?r \<subseteq> ?l"
    proof
      fix s assume "s \<in> ?r"
      then have "s \<in> set (slice_at A '''') \<or> (\<exists>r \<in> set old. s \<in> set (slice_at A (n_ID (h r))))"
        using A(1,2) by auto
      then show "s \<in> ?l" by blast
    qed
  qed
  ultimately show ?thesis by simp
qed

section \<open>The plan\<close>

text \<open>Where a slot assigned to a target comes from: \<open>None\<close> if it already is with the target.\<close>

definition move_of :: "heap \<Rightarrow> Nodes \<Rightarrow> nref \<Rightarrow> slot \<Rightarrow> migrationInfo option" where
  "move_of h old t s =
     (case find (\<lambda>r. s \<in> set (n_Slots (h r))) old of
        None \<Rightarrow> Some (None, t)
      | Some r \<Rightarrow> if n_ID (h r) = n_ID (h t) then None else Some (Some r, t))"

lemma Nodes_GetNodeByID_mem:
  "distinct (map (\<lambda>r. n_ID (h r)) ns) \<Longrightarrow> t \<in> set ns \<Longrightarrow> Nodes_GetNodeByID h ns (n_ID (h t)) = (Some t, None)"
  by (induction ns) (auto dest: image_eqI [where f = "\<lambda>r. n_ID (h r)"])

lemma feed_old_find:
  assumes "Nodes_GetNodeByID h new i = (Some t, None)"
  shows "feed_old h new i s old m nb =
    (case find (\<lambda>r. s \<in> set (n_Slots (h r))) old of
       None \<Rightarrow> (False, m, nb)
     | Some r \<Rightarrow> if n_ID (h r) = i then (True, m, nb) else (True, map_append m (Some r, t) [s], nb + 1))"
  using assms by (induction old) auto

lemma feed_slot_eq:
  assumes "distinct (map (\<lambda>r. n_ID (h r)) new)" and "t \<in> set new"
  shows "feed_slot h new old (n_ID (h t)) s (m, nb) =
    (case move_of h old t s of None \<Rightarrow> (m, nb) | Some mi \<Rightarrow> (map_append m mi [s], nb + 1))"
  using Nodes_GetNodeByID_mem [OF assms] feed_old_find [OF Nodes_GetNodeByID_mem [OF assms], of s old m nb]
  by (auto simp: feed_slot_def move_of_def split: option.splits)

lemma fold_feed_slot:
  assumes "distinct (map (\<lambda>r. n_ID (h r)) new)" and "t \<in> set new"
  shows "fold (feed_slot h new old (n_ID (h t))) ss (m, nb) = (m', nb') \<Longrightarrow>
    (\<forall>mi. slice_at m' mi = slice_at m mi @ filter (\<lambda>s. move_of h old t s = Some mi) ss) \<and>
    dom m' = dom m \<union> {mi. \<exists>s \<in> set ss. move_of h old t s = Some mi} \<and>
    nb' = nb + int (length (filter (\<lambda>s. move_of h old t s \<noteq> None) ss))"
proof (induction ss arbitrary: m nb)
  case (Cons s ss)
  show ?case
  proof (cases "move_of h old t s")
    case None
    with Cons show ?thesis by (auto simp: feed_slot_eq [OF assms])
  next
    case (Some mi)
    from Cons.prems have "fold (feed_slot h new old (n_ID (h t))) ss (map_append m mi [s], nb + 1) = (m', nb')"
      by (simp add: feed_slot_eq [OF assms] Some)
    note ih = Cons.IH [OF this]
    then show ?thesis by (auto simp: Some)
  qed
qed simp

text \<open>The fold over the targets, whose ids are the keys of the map of slots to add.\<close>

lemma fold_feed_targets:
  assumes "distinct (map (\<lambda>r. n_ID (h r)) new)"
  shows "set ts \<subseteq> set new \<Longrightarrow>
    fold (\<lambda>i. fold (feed_slot h new old i) (slice_at u i)) (map (\<lambda>r. n_ID (h r)) ts) (m, nb) = (m', nb') \<Longrightarrow>
    (\<forall>mi. set (slice_at m' mi) = set (slice_at m mi) \<union>
       {s. \<exists>t \<in> set ts. s \<in> set (slice_at u (n_ID (h t))) \<and> move_of h old t s = Some mi}) \<and>
    dom m' = dom m \<union> {mi. \<exists>t \<in> set ts. \<exists>s \<in> set (slice_at u (n_ID (h t))). move_of h old t s = Some mi} \<and>
    nb' = nb + int (\<Sum>t \<leftarrow> ts. length (filter (\<lambda>s. move_of h old t s \<noteq> None) (slice_at u (n_ID (h t)))))"
proof (induction ts arbitrary: m nb)
  case (Cons t ts)
  obtain m1 nb1 where one: "fold (feed_slot h new old (n_ID (h t))) (slice_at u (n_ID (h t))) (m, nb) = (m1, nb1)"
    by fastforce
  from Cons.prems have "t \<in> set new" by simp
  note s1 = fold_feed_slot [OF assms this one]
  have "fold (\<lambda>i. fold (feed_slot h new old i) (slice_at u i)) (map (\<lambda>r. n_ID (h r)) ts) (m1, nb1) = (m', nb')"
    using Cons.prems(2) one by simp
  note s2 = Cons.IH [OF _ this]
  show ?case
  proof (intro conjI)
    show "\<forall>mi. set (slice_at m' mi) = set (slice_at m mi) \<union>
       {s. \<exists>t' \<in> set (t # ts). s \<in> set (slice_at u (n_ID (h t'))) \<and> move_of h old t' s = Some mi}"
      using s1 s2 Cons.prems(1) by auto
    show "dom m' = dom m \<union> {mi. \<exists>t' \<in> set (t # ts). \<exists>s \<in> set (slice_at u (n_ID (h t'))). move_of h old t' s = Some mi}"
      using s1 s2 Cons.prems(1) by auto
    show "nb' = nb + int (\<Sum>t' \<leftarrow> t # ts. length (filter (\<lambda>s. move_of h old t' s \<noteq> None) (slice_at u (n_ID (h t')))))"
      using s1 s2 Cons.prems(1) by simp
  qed
qed simp

text \<open>The orders of the loops are ones the language allows.\<close>

definition orders_ok :: "orders \<Rightarrow> bool" where
  "orders_ok os \<longleftrightarrow>
     (\<forall>m. finite (dom m) \<longrightarrow> range_order (o_deleted os m) m \<and> range_order (o_available os m) m \<and> range_order (o_update os m) m) \<and>
     (\<forall>m. finite (dom m) \<longrightarrow> range_order (o_moves os m) m)"

lemma nb_slot_by_node_nonneg: "0 < n \<Longrightarrow> 0 \<le> nb_slot_by_node 16384 n"
proof -
  assume "0 < n"
  then have "of_int 0 \<le> fl (of_int 16384 / of_nat n :: rat)"
    by (intro float64.ge_int) (simp_all add: divide_less_eq)
  then show ?thesis by (simp add: nb_slot_by_node_def)
qed

lemma keys_of_nodes: "set ks \<subseteq> f ` A \<Longrightarrow> \<exists>ts. set ts \<subseteq> A \<and> ks = map f ts"
proof (induction ks)
  case (Cons k ks)
  then obtain ts t where "set ts \<subseteq> A" "ks = map f ts" "t \<in> A" "k = f t" by auto
  then show ?case by (intro exI [of _ "t # ts"]) simp
qed simp

text \<open>
  A plan: the new masters get disjoint sets of slots, together all that are lost or given away, and
  the moves are the slots of each target by where they come from.
\<close>

definition plan_of :: "heap \<Rightarrow> Nodes \<Rightarrow> Nodes \<Rightarrow> (nref \<Rightarrow> slot set) \<Rightarrow> mapSlotByMigInfo \<Rightarrow> bool" where
  "plan_of h new old assigned P \<longleftrightarrow>
     (\<forall>t \<in> set new. \<forall>t' \<in> set new. t \<noteq> t' \<longrightarrow> assigned t \<inter> assigned t' = {}) \<and>
     (\<Union>t \<in> set new. assigned t) = set (retrieveLostSlots h old 16384) \<union>
        (\<Union>r \<in> set old. set (gives h new (nb_slot_by_node 16384 (length new)) r)) \<and>
     (\<forall>mi. set (slice_at P mi) = {s. \<exists>t \<in> set new. s \<in> assigned t \<and> move_of h old t s = Some mi}) \<and>
     dom P = {mi. \<exists>t \<in> set new. \<exists>s \<in> assigned t. move_of h old t s = Some mi}"

lemma feedMigInfo_plan:
  assumes ok: "migration_ok h new old" and os: "orders_ok os"
  shows "\<exists>P nb assigned. feedMigInfo os h new old allm 16384 = Some (P, nb) \<and> plan_of h new old assigned P"
proof -
  let ?id = "\<lambda>r. n_ID (h r)"
  let ?nb = "nb_slot_by_node 16384 (length new)"
  note okD = migration_okD [OF ok]
  have nb: "0 \<le> ?nb" using okD(1) by (intro nb_slot_by_node_nonneg) simp
  obtain A where A: "slots_to_migrate os h new old ?nb 16384 = Some A" "finite (dom A)"
      "slice_at A '''' = retrieveLostSlots h old 16384" "\<forall>r \<in> set old. slice_at A (?id r) = gives h new ?nb r"
      "\<forall>k. k \<noteq> '''' \<longrightarrow> k \<notin> ?id ` set old \<longrightarrow> slice_at A k = []"
    using slots_to_migrate_spec [OF nb okD(3,4), of os new 16384] os unfolding orders_ok_def by blast
  have "range_order (o_available os A) A" using os A(2) by (auto simp: orders_ok_def)
  note avail = available_slots [OF ok this A(3-5)]
  define U where "U = buildSlotByNodeFromAvailableSlots os h new ?nb A"
  have U: "mset (slots_of U (map ?id new)) = mset (slots_of A (o_available os A))" "dom U \<subseteq> ?id ` set new"
    using buildSlotByNode_spec [OF okD(2,1)] by (simp_all add: U_def)
  define assigned where "assigned t = set (slice_at U (?id t))" for t
  have distU: "distinct (slots_of U (map ?id new))" using U(1) avail mset_eq_imp_distinct_iff by blast
  have ne: "?id t \<noteq> ?id t'" if "t \<in> set new" "t' \<in> set new" "t \<noteq> t'" for t t'
    using okD(2) that by (auto simp: distinct_map inj_on_def)
  have dis: "assigned t \<inter> assigned t' = {}" if "t \<in> set new" "t' \<in> set new" "t \<noteq> t'" for t t'
    using distU ne [OF that] that unfolding slots_of_def distinct_concat_map_iff [OF okD(2)] assigned_def by simp
  have "(\<Union>t \<in> set new. assigned t) = set (slots_of U (map ?id new))" by (auto simp: slots_of_def assigned_def)
  also have "\<dots> = set (slots_of A (o_available os A))" using U(1) by (rule mset_eq_setD)
  finally have all: "(\<Union>t \<in> set new. assigned t) = set (retrieveLostSlots h old 16384) \<union> (\<Union>r \<in> set old. set (gives h new ?nb r))"
    using avail by simp
  have finU: "finite (dom U)" using U(2) by (rule finite_subset) simp
  then have ks: "range_order (o_update os U) U" using os by (auto simp: orders_ok_def)
  obtain ts where ts: "set ts \<subseteq> set new" "o_update os U = map ?id ts"
    using keys_of_nodes [of "o_update os U" ?id "set new"] range_orderD(2) [OF ks] U(2) by blast
  obtain P n where P: "fold (\<lambda>i. fold (feed_slot h new old i) (slice_at U i)) (map ?id ts) (Map.empty, 0) = (P, n)"
    by fastforce
  note spec = fold_feed_targets [OF okD(2) ts(1) P]
  have empty: "assigned t = {}" if "t \<in> set new" "t \<notin> set ts" for t
  proof -
    have "?id t \<notin> ?id ` set ts" using ne that ts(1) by blast
    then have "?id t \<notin> dom U" using range_orderD(2) [OF ks] ts(2) by simp
    then show ?thesis by (simp add: assigned_def slice_at_not_dom)
  qed
  have mem: "t \<in> set ts" if "t \<in> set new" "s \<in> assigned t" for t s using empty [OF that(1)] that(2) by blast
  have ex: "(\<exists>t \<in> set ts. s \<in> set (slice_at U (?id t)) \<and> move_of h old t s = Some mi)
      \<longleftrightarrow> (\<exists>t \<in> set new. s \<in> assigned t \<and> move_of h old t s = Some mi)" for s mi
  proof
    assume "\<exists>t \<in> set ts. s \<in> set (slice_at U (?id t)) \<and> move_of h old t s = Some mi"
    with ts(1) show "\<exists>t \<in> set new. s \<in> assigned t \<and> move_of h old t s = Some mi" unfolding assigned_def by blast
  next
    assume "\<exists>t \<in> set new. s \<in> assigned t \<and> move_of h old t s = Some mi"
    with mem show "\<exists>t \<in> set ts. s \<in> set (slice_at U (?id t)) \<and> move_of h old t s = Some mi" unfolding assigned_def by blast
  qed

  have moves: "set (slice_at P mi) = {s. \<exists>t \<in> set new. s \<in> assigned t \<and> move_of h old t s = Some mi}" for mi
    using spec [THEN conjunct1, rule_format, of mi] unfolding ex by simp
  have "mi \<in> dom P \<longleftrightarrow> (\<exists>s. \<exists>t \<in> set ts. s \<in> set (slice_at U (?id t)) \<and> move_of h old t s = Some mi)" for mi
    unfolding spec [THEN conjunct2, THEN conjunct1] dom_empty by blast
  then have "dom P = {mi. \<exists>t \<in> set new. \<exists>s \<in> assigned t. move_of h old t s = Some mi}"
    unfolding ex by blast
  then have plan: "plan_of h new old assigned P" unfolding plan_of_def using moves dis all by blast
  have "BuildSlotsByNode os h new old allm 16384 = Some U"
    using A(1) okD(1) by (simp add: BuildSlotsByNode_def Let_def U_def)
  then have "feedMigInfo os h new old allm 16384 = Some (P, n)"
    using P ts(2) by (simp add: feedMigInfo_def)
  then show ?thesis using plan by blast
qed

section \<open>Carrying out the plan\<close>

lemma SetSlots_ok:
  assumes "marks_ok env" and "action \<in> {''IMPORTING'', ''MIGRATING''}"
  shows "\<exists>w'. SetSlots env a action slots i w = (None, w') \<and> w_heap w' = w_heap w \<and> extends w w'"
proof -
  have "fst (SetSlots env a action slots i w) = None"
  proof (cases "slots = []")
    case False
    obtain w1 where w1: "cnx_Get env a w = ((Some a, None), w1)"
      using cnx_Get_ok [of env a w] assms by (auto simp: marks_ok_def)
    obtain out where "e_pipe env (w_trace w1) a (map (setslot_args action i) slots) = (Some out, None)"
      using assms unfolding marks_ok_def by blast
    with w1 False show ?thesis by (simp add: SetSlots_def exec_pipe_def ValidatePipeResp_def)
  qed (simp add: SetSlots_def)
  then show ?thesis using SetSlots_frame [where w = w and env = env and a = a and action = action and slots = slots and i = i] by (metis prod.collapse)
qed

lemma MigrateKeys_slot_returns:
  assumes "refuses_lists env"
  shows "\<exists>r w'. MigrateKeys_slot env addr dest slotint b t rep n w = Some (r, w') \<and> w_heap w' = w_heap w \<and> extends w w'"
proof -
  have refused: "e_do env h addr [AStr ''MIGRATE'', AList (migrateCmdArgs env dest t rep ks)] \<noteq> RVal v" for h ks v
  proof -
    have "\<not> sendable [AStr ''MIGRATE'', AList (migrateCmdArgs env dest t rep ks)]" by (simp add: sendable_def)
    then show ?thesis using assms unfolding refuses_lists_def by (metis reply.distinct(1))
  qed
  show ?thesis
    using refused by (subst MigrateKeys_slot.simps)
      (auto simp: do_cmd_def reply_err_def extends_emit split: sum.splits reply.splits)
qed

lemma MigrateKeys_slots_returns:
  assumes "refuses_lists env"
  shows "\<exists>r w'. MigrateKeys_slots env addr dest slots b t rep n w = Some (r, w') \<and> w_heap w' = w_heap w \<and> extends w w'"
proof (induction slots arbitrary: n w)
  case (Cons slot slots)
  obtain r w1 where one: "MigrateKeys_slot env addr dest (Slot_ToInt slot) b t rep n w = Some (r, w1)" "w_heap w1 = w_heap w" "extends w w1"
    using MigrateKeys_slot_returns [OF assms] by blast
  show ?case
  proof (cases r)
    case (Inr k)
    from Cons [of k w1] obtain r' w' where "MigrateKeys_slots env addr dest slots b t rep k w1 = Some (r', w')"
        "w_heap w' = w_heap w1" "extends w1 w'" by blast
    with Inr one show ?thesis using extends_trans by auto
  qed (use one in auto)
qed simp

lemma MigrateKeys_returns:
  assumes "refuses_lists env"
  shows "\<exists>r w'. MigrateKeys env addr dest slots batch t rep w = Some (r, w') \<and> w_heap w' = w_heap w \<and> extends w w'"
proof -
  obtain c err w1 where w1: "cnx_Get env addr w = ((c, err), w1)" by (metis surj_pair)
  then have "w_heap w1 = w_heap w" "extends w w1"
    using cnx_Get_heap [of env addr w] cnx_Get_extends [of w env addr] by simp_all
  moreover obtain r w' where "MigrateKeys_slots env addr dest slots (Itoa batch) (Itoa t) rep 0 w1 = Some (r, w')"
      "w_heap w' = w_heap w1" "extends w1 w'"
    using MigrateKeys_slots_returns [OF assms] by blast
  moreover have "extends w w'" by (rule extends_trans) fact+
  ultimately show ?thesis using w1 by (auto simp: MigrateKeys_def)
qed

lemma tell_others_frame: "w_heap (tell_others env mi slots ms w) = w_heap w \<and> extends w (tell_others env mi slots ms w)"
proof (induction env mi slots ms w rule: tell_others.induct)
  case (2 env mi slots master ms w)
  have "extends w (snd (SetSlots env a action slots i w))" for a action i by simp
  with 2 show ?case by (simp del: SetSlots_frame(1)) (blast intro: extends_trans)
qed simp

lemma dispatch_move_ok:
  assumes "marks_ok env" and "refuses_lists env"
  shows "\<exists>w'. dispatch_move env allm src to slots w = Some (None, w') \<and> extends w w' \<and>
    w_heap w' = (w_heap w)(src := (w_heap w src)\<lparr>n_Slots := RemoveSlots (n_Slots (w_heap w src)) slots\<rparr>)"
proof -
  let ?h = "w_heap w"
  let ?ta = "IPPort (?h to)" and ?sa = "IPPort (?h src)"
  obtain w1 where 1: "SetSlots env ?ta ''IMPORTING'' slots (n_ID (?h src)) w = (None, w1)" "w_heap w1 = ?h" "extends w w1"
    using SetSlots_ok [OF assms(1)] by blast
  obtain w2 where 2: "SetSlots env ?sa ''MIGRATING'' slots (n_ID (?h to)) w1 = (None, w2)" "w_heap w2 = ?h" "extends w1 w2"
    using SetSlots_ok [OF assms(1)] 1(2) by (metis insertCI)
  obtain k e w3 where 3: "MigrateKeys env ?sa (?h to) slots 10 30000 True w2 = Some ((k, e), w3)" "w_heap w3 = ?h" "extends w2 w3"
    using MigrateKeys_returns [OF assms(2)] 2(2) by (metis prod.collapse)
  define w4 where "w4 = snd (SetSlots env ?ta ''NODE'' slots (n_ID (?h to)) w3)"
  define w5 where "w5 = snd (SetSlots env ?sa ''NODE'' slots (n_ID (?h to)) w4)"
  have 5: "w_heap w5 = ?h" "extends w3 w5"
    using 3(2) extends_trans [OF SetSlots_frame(1) SetSlots_frame(1)] by (simp_all add: w4_def w5_def)
  let ?w6 = "set_node src (\<lambda>n. n\<lparr>n_Slots := RemoveSlots (n_Slots n) slots\<rparr>) w5"
  have "dispatch_move env allm src to slots w = Some (None, tell_others env (Some src, to) slots allm ?w6)"
    using 1 2 3 by (simp add: dispatch_move_def split_beta Let_def w4_def w5_def)
  moreover have "extends w ?w6"
    using extends_trans [OF 1(3) extends_trans [OF 2(3) extends_trans [OF 3(3) 5(2)]]] by (rule extends_same) simp
  ultimately show ?thesis
    using tell_others_frame [of env "(Some src, to)" slots allm ?w6] 5(1) extends_trans by (auto simp: set_node_def)
qed

text \<open>
  A claim of lost slots that the server refuses: a range between two of them, sent last.
\<close>

definition refused_claim :: "env \<Rightarrow> slot set \<Rightarrow> world \<Rightarrow> world \<Rightarrow> bool" where
  "refused_claim env lost w w' \<longleftrightarrow>
     (\<exists>es a s s'. s \<in> lost \<and> s' \<in> lost \<and>
        w_trace w' = w_trace w @ es @ [EAddSlotsRange a (Slot_ToInt s) (Slot_ToInt s')] \<and>
        e_addslots env (w_trace w @ es) a (Slot_ToInt s) (Slot_ToInt s') \<noteq> None)"

lemma refused_claim_later:
  assumes "extends w w1" and "refused_claim env lost w1 w'"
  shows "refused_claim env lost w w'"
proof -
  obtain es1 where 1: "w_trace w1 = w_trace w @ es1" using assms(1) by (auto simp: extends_def)
  obtain es a s s' where "s \<in> lost" "s' \<in> lost" "w_trace w' = w_trace w1 @ es @ [EAddSlotsRange a (Slot_ToInt s) (Slot_ToInt s')]"
      "e_addslots env (w_trace w1 @ es) a (Slot_ToInt s) (Slot_ToInt s') \<noteq> None"
    using assms(2) unfolding refused_claim_def by blast
  with 1 show ?thesis unfolding refused_claim_def
    by (intro exI [of _ "es1 @ es"] exI [of _ a] exI [of _ s] exI [of _ s']) simp
qed

lemma Admin_AddSlots_cases:
  assumes "ping_returns env" and "Admin_AddSlots env addr slots w = (err, w')"
  shows "w_heap w' = w_heap w \<and> extends w w' \<and> (err \<noteq> None \<longrightarrow> refused_claim env (set slots) w w')"
proof -
  obtain w1 where w1: "cnx_Get env addr w = ((Some addr, None), w1)" "w_heap w1 = w_heap w"
    using cnx_Get_ok [OF assms(1)] by blast
  then obtain es where es: "w_trace w1 = w_trace w @ es" using cnx_Get_extends [of w env addr] by (auto simp: extends_def)
  show ?thesis
  proof (cases "slots = []")
    case False
    then have mem: "slots ! 0 \<in> set slots" "slots ! (length slots - 1) \<in> set slots" by simp_all
    let ?x = "Slot_ToInt (slots ! 0)" and ?y = "Slot_ToInt (slots ! (length slots - 1))"
    have e: "err = e_addslots env (w_trace w1) addr ?x ?y" "w' = emit (EAddSlotsRange addr ?x ?y) w1"
      using assms(2) w1(1) False by (auto simp: Admin_AddSlots_def Let_def split: if_splits)
    then have "refused_claim env (set slots) w w'" if "err \<noteq> None"
      unfolding refused_claim_def using mem es that
      by (intro exI [of _ es] exI [of _ addr] exI [of _ "slots ! 0"] exI [of _ "slots ! (length slots - 1)"]) simp
    moreover have "extends w w'" using Admin_AddSlots_extends [of w env addr slots] assms(2) by simp
    ultimately show ?thesis using w1(2) e(2) by simp
  qed (use assms(2) in \<open>simp add: Admin_AddSlots_def\<close>)
qed

lemma dispatch_entry_ok:
  assumes "marks_ok env" "refuses_lists env" and "fst mi \<noteq> Some (snd mi)" and "fst mi = None \<Longrightarrow> set slots \<subseteq> lost"
  shows "\<exists>err w'. dispatch_entry env allm mi slots w = Some (err, w') \<and> (err \<noteq> None \<longrightarrow> refused_claim env lost w w') \<and>
    (err = None \<longrightarrow> extends w w' \<and> (\<forall>r. set (n_Slots (w_heap w' r)) =
           (set (n_Slots (w_heap w r)) - (if fst mi = Some r then set slots else {})) \<union> (if snd mi = r then set slots else {})))"
proof (cases "fst mi")
  case None
  obtain err w1 where 1: "Admin_AddSlots env (IPPort (w_heap w (snd mi))) slots w = (err, w1)" by fastforce
  have "ping_returns env" using assms(1) by (simp add: marks_ok_def)
  note c = Admin_AddSlots_cases [OF this 1]
  show ?thesis
  proof (cases err)
    case (Some e)
    with c have "refused_claim env (set slots) w w1" by simp
    then have "refused_claim env lost w w1" using assms(4) [OF None] unfolding refused_claim_def by blast
    with Some None 1 show ?thesis by (auto simp: dispatch_entry_def)
  next
    case None': None
    let ?w' = "set_node (snd mi) (\<lambda>n. n\<lparr>n_Slots := AddSlots (n_Slots n) slots\<rparr>) w1"
    have "extends w ?w'" by (rule extends_same [of w w1]) (use c in simp_all)
    moreover have "dispatch_entry env allm mi slots w = Some (None, ?w')" using None None' 1 by (simp add: dispatch_entry_def)
    moreover have "set (n_Slots (w_heap ?w' r)) = set (n_Slots (w_heap w r)) \<union> (if snd mi = r then set slots else {})" for r
      using c by simp
    ultimately show ?thesis using None by (intro exI [of _ None] exI [of _ ?w'] conjI impI allI) simp_all
  qed
next
  case (Some src)
  obtain w1 where 1: "dispatch_move env allm src (snd mi) slots w = Some (None, w1)" "extends w w1"
      "w_heap w1 = (w_heap w)(src := (w_heap w src)\<lparr>n_Slots := RemoveSlots (n_Slots (w_heap w src)) slots\<rparr>)"
    using dispatch_move_ok [OF assms(1,2)] by blast
  have "extends w (set_node (snd mi) (\<lambda>n. n\<lparr>n_Slots := AddSlots (n_Slots n) slots\<rparr>) w1)"
    by (rule extends_same [of w w1]) (use 1(2) in simp_all)
  with 1 Some assms(3) show ?thesis by (auto simp: dispatch_entry_def set_node_def RemoveSlots_filter)
qed

lemma dispatch_entries_ok:
  assumes env: "marks_ok env" "refuses_lists env" and dis: "\<And>mi mi'. mi \<noteq> mi' \<Longrightarrow> set (slice_at P mi) \<inter> set (slice_at P mi') = {}"
  shows "distinct mis \<Longrightarrow> \<forall>mi \<in> set mis. fst mi \<noteq> Some (snd mi) \<and> (fst mi = None \<longrightarrow> set (slice_at P mi) \<subseteq> lost) \<Longrightarrow>
    \<exists>err w'. dispatch_entries env allm P mis w = Some (err, w') \<and> (err \<noteq> None \<longrightarrow> refused_claim env lost w w') \<and> (err = None \<longrightarrow>
      (\<forall>r. set (n_Slots (w_heap w' r)) = (set (n_Slots (w_heap w r)) - (\<Union>mi \<in> {mi \<in> set mis. fst mi = Some r}. set (slice_at P mi)))
             \<union> (\<Union>mi \<in> {mi \<in> set mis. snd mi = r}. set (slice_at P mi))))"
proof (induction mis arbitrary: w)
  case Nil
  then show ?case by simp
next
  case (Cons mi mis)
  have "fst mi \<noteq> Some (snd mi)" and "fst mi = None \<Longrightarrow> set (slice_at P mi) \<subseteq> lost" using Cons.prems(2) by simp_all
  from dispatch_entry_ok [OF env this, of allm w] obtain err w1 where w1: "dispatch_entry env allm mi (slice_at P mi) w = Some (err, w1)"
      "err \<noteq> None \<longrightarrow> refused_claim env lost w w1" "err = None \<longrightarrow> extends w w1 \<and> (\<forall>r. set (n_Slots (w_heap w1 r)) =
        (set (n_Slots (w_heap w r)) - (if fst mi = Some r then set (slice_at P mi) else {})) \<union> (if snd mi = r then set (slice_at P mi) else {}))"
    by blast
  show ?case
  proof (cases err)
    case (Some e)
    with w1 show ?thesis by simp
  next
    case None
    then have h1: "\<And>r. set (n_Slots (w_heap w1 r)) =
        (set (n_Slots (w_heap w r)) - (if fst mi = Some r then set (slice_at P mi) else {})) \<union> (if snd mi = r then set (slice_at P mi) else {})"
      and x1: "extends w w1" using w1(3) by simp_all
    obtain err' w' where w': "dispatch_entries env allm P mis w1 = Some (err', w')" "err' \<noteq> None \<longrightarrow> refused_claim env lost w1 w'"
        "err' = None \<longrightarrow> (\<forall>r. set (n_Slots (w_heap w' r)) = (set (n_Slots (w_heap w1 r)) - (\<Union>mi \<in> {mi \<in> set mis. fst mi = Some r}. set (slice_at P mi)))
             \<union> (\<Union>mi \<in> {mi \<in> set mis. snd mi = r}. set (slice_at P mi)))"
      using Cons.IH [of w1] Cons.prems by auto
    have sep: "set (slice_at P mi) \<inter> (\<Union>mi \<in> {mi \<in> set mis. fst mi = Some r}. set (slice_at P mi)) = {}" for r
      using dis [of mi] Cons.prems(1) by fastforce
    have fst_set: "{m \<in> set (mi # mis). fst m = Some r}
        = (if fst mi = Some r then insert mi {m \<in> set mis. fst m = Some r} else {m \<in> set mis. fst m = Some r})" for r by auto
    have snd_set: "{m \<in> set (mi # mis). snd m = r}
        = (if snd mi = r then insert mi {m \<in> set mis. snd m = r} else {m \<in> set mis. snd m = r})" for r by auto
    have "set (n_Slots (w_heap w' r)) = (set (n_Slots (w_heap w r)) - (\<Union>m \<in> {m \<in> set (mi # mis). fst m = Some r}. set (slice_at P m)))
               \<union> (\<Union>m \<in> {m \<in> set (mi # mis). snd m = r}. set (slice_at P m))" if "err' = None" for r
      unfolding w'(3) [THEN mp, OF that, THEN spec] h1 fst_set snd_set using sep [of r] by auto
    moreover have "dispatch_entries env allm P (mi # mis) w = Some (err', w')" using w1(1) w'(1) None by simp
    ultimately show ?thesis using w'(2) refused_claim_later [OF x1, of env lost w'] by (intro exI [of _ err'] exI [of _ w']) blast
  qed
qed



section \<open>Ownership after the migration\<close>

lemma find_owner:
  assumes "migration_ok h new old" and "r \<in> set old" and "s \<in> set (n_Slots (h r))"
  shows "find (\<lambda>r. s \<in> set (n_Slots (h r))) old = Some r"
proof -
  obtain r' where r': "find (\<lambda>r. s \<in> set (n_Slots (h r))) old = Some r'"
    using assms(2,3) by (cases "find (\<lambda>r. s \<in> set (n_Slots (h r))) old") (auto simp: find_None_iff)
  then have "r' \<in> set old" "s \<in> set (n_Slots (h r'))" by (auto simp: find_Some_iff)
  with migration_okD(6) [OF assms(1)] assms(2,3) have "r' = r" by blast
  with r' show ?thesis by simp
qed

lemma move_of_owned:
  assumes "migration_ok h new old" and "r \<in> set old" and "s \<in> set (n_Slots (h r))"
  shows "move_of h old t s = (if n_ID (h r) = n_ID (h t) then None else Some (Some r, t))"
  by (simp add: move_of_def find_owner [OF assms])

lemma move_of_target: "move_of h old t s = Some mi \<Longrightarrow> snd mi = t \<and> fst mi \<noteq> Some t"
  by (auto simp: move_of_def split: option.splits if_splits)

lemma move_of_source: "move_of h old t s = Some (Some r, t') \<Longrightarrow> r \<in> set old \<and> s \<in> set (n_Slots (h r))"
  by (auto simp: move_of_def find_Some_iff split: option.splits if_splits)

lemma move_of_None: "move_of h old t s = None \<Longrightarrow> \<exists>r \<in> set old. s \<in> set (n_Slots (h r)) \<and> n_ID (h r) = n_ID (h t)"
  by (auto simp: move_of_def find_Some_iff split: option.splits if_splits)

lemma plan_disjoint:
  assumes "plan_of h new old assigned P" and "mi \<noteq> mi'"
  shows "set (slice_at P mi) \<inter> set (slice_at P mi') = {}"
proof (rule ccontr)
  assume "set (slice_at P mi) \<inter> set (slice_at P mi') \<noteq> {}"
  then obtain s t t' where "t \<in> set new" "t' \<in> set new" "s \<in> assigned t" "s \<in> assigned t'"
      "move_of h old t s = Some mi" "move_of h old t' s = Some mi'"
    using assms(1) unfolding plan_of_def by auto
  moreover from this have "t = t'" using assms(1) unfolding plan_of_def by blast
  ultimately show False using assms(2) by simp
qed

text \<open>The owner of every slot after the moves of a plan, given as sets of slots.\<close>

lemma plan_ownership:
  assumes ok: "migration_ok h new old" and plan: "plan_of h new old assigned P"
    and own: "\<And>r. own r = (set (n_Slots (h r)) - (\<Union>mi \<in> {mi \<in> dom P. fst mi = Some r}. set (slice_at P mi)))
                       \<union> (\<Union>mi \<in> {mi \<in> dom P. snd mi = r}. set (slice_at P mi))"
  shows "r \<in> set new \<Longrightarrow> own r = assigned r \<union> (set (n_Slots (h r)) - (\<Union>t \<in> set new. assigned t))"
    and "r \<in> set old \<Longrightarrow> r \<notin> set new \<Longrightarrow> own r = {}"
proof -
  note okD = migration_okD [OF ok] and pl = plan [unfolded plan_of_def]
  have disj: "t = t'" if "t \<in> set new" "t' \<in> set new" "s \<in> assigned t" "s \<in> assigned t'" for s t t'
    using pl that by blast
  have slice: "s \<in> set (slice_at P mi) \<longleftrightarrow> (\<exists>t \<in> set new. s \<in> assigned t \<and> move_of h old t s = Some mi)" for s mi
    using pl by blast
  have "mi \<in> dom P" if "s \<in> set (slice_at P mi)" for s mi using pl that unfolding slice by blast
  then have removed: "s \<in> (\<Union>mi \<in> {mi \<in> dom P. fst mi = Some r}. set (slice_at P mi))
      \<longleftrightarrow> (\<exists>t \<in> set new. s \<in> assigned t \<and> (\<exists>t'. move_of h old t s = Some (Some r, t')))" for s r
    using slice [of s] by (auto, metis)
  have "s \<in> (\<Union>mi \<in> {mi \<in> dom P. snd mi = r}. set (slice_at P mi))
      \<longleftrightarrow> r \<in> set new \<and> s \<in> assigned r \<and> move_of h old r s \<noteq> None" for s r
  proof
    assume "s \<in> (\<Union>mi \<in> {mi \<in> dom P. snd mi = r}. set (slice_at P mi))"
    then obtain mi t where "snd mi = r" "t \<in> set new" "s \<in> assigned t" "move_of h old t s = Some mi" using slice by blast
    with move_of_target [of h old t s mi] show "r \<in> set new \<and> s \<in> assigned r \<and> move_of h old r s \<noteq> None" by auto
  next
    assume r: "r \<in> set new \<and> s \<in> assigned r \<and> move_of h old r s \<noteq> None"
    then obtain mi where mi: "move_of h old r s = Some mi" by blast
    then have "snd mi = r" using move_of_target by blast
    moreover have s: "s \<in> set (slice_at P mi)" using r mi slice by blast
    moreover have "mi \<in> dom P" using s \<open>\<And>s mi. s \<in> set (slice_at P mi) \<Longrightarrow> mi \<in> dom P\<close> by blast
    ultimately show "s \<in> (\<Union>mi \<in> {mi \<in> dom P. snd mi = r}. set (slice_at P mi))" by blast
  qed
  note mem = own [THEN eqset_imp_iff, unfolded Un_iff Diff_iff removed this]
  show "own r = assigned r \<union> (set (n_Slots (h r)) - (\<Union>t \<in> set new. assigned t))" if r: "r \<in> set new"
  proof (intro set_eqI)
    fix s
    have same: "n_ID (h r) = n_ID (h t) \<longleftrightarrow> r = t" if "t \<in> set new" for t
      using okD(2) r that by (auto simp: distinct_map inj_on_def)
    consider "s \<in> assigned r" "s \<in> set (n_Slots (h r))" | "s \<in> assigned r" "s \<notin> set (n_Slots (h r))"
      | t where "t \<in> set new" "t \<noteq> r" "s \<in> assigned t" | "\<forall>t \<in> set new. s \<notin> assigned t" using r by blast
    then show "s \<in> own r \<longleftrightarrow> s \<in> assigned r \<union> (set (n_Slots (h r)) - (\<Union>t \<in> set new. assigned t))"
    proof cases
      case 1
      then have "r \<in> set old" using okD(8) r by force
      with 1 have "move_of h old r s = None" using move_of_owned [OF ok] by simp
      with 1 r disj show ?thesis unfolding mem by (metis UnI1 option.distinct(1))
    next
      case 2
      have "move_of h old r s \<noteq> None"
        using move_of_None [of h old r s] okD(7) [OF _ r] 2(2) by blast
      with 2 r show ?thesis unfolding mem by blast
    next
      case 3
      then have "s \<notin> assigned r" using disj r by blast
      moreover have "s \<notin> own r"
      proof (cases "s \<in> set (n_Slots (h r))")
        case True
        then have "r \<in> set old" using okD(8) r by force
        then have "move_of h old t s = Some (Some r, t)" using move_of_owned [OF ok _ True] same [OF 3(1)] 3(2) by auto
        with 3 \<open>s \<notin> assigned r\<close> show ?thesis unfolding mem by blast
      qed (use \<open>s \<notin> assigned r\<close> mem in blast)
      ultimately show ?thesis using 3 by blast
    next
      case 4
      then show ?thesis unfolding mem using r by blast
    qed
  qed
  show "own r = {}" if r: "r \<in> set old" "r \<notin> set new"
  proof -
    have "s \<notin> own r" for s
    proof (cases "s \<in> set (n_Slots (h r))")
      case True
      have "gives h new nb r = n_Slots (h r)" for nb using okD(9) r by (simp add: gives_def)
      then have "s \<in> set (gives h new (nb_slot_by_node 16384 (length new)) r)" using True by simp
      then have "s \<in> (\<Union>t \<in> set new. assigned t)" using pl r(1) by blast
      then obtain t where t: "t \<in> set new" "s \<in> assigned t" by blast
      then have "n_ID (h r) \<noteq> n_ID (h t)" using okD(7) r by blast
      then have "move_of h old t s = Some (Some r, t)" using move_of_owned [OF ok r(1) True] by simp
      with t r(2) show ?thesis unfolding mem by blast
    qed (use mem r(2) in blast)
    then show ?thesis by blast
  qed
qed

section \<open>Properties\<close>

text \<open>Loops that visit the keys of a map in ascending order, and three masters of which the third is new.\<close>

definition sorted_orders :: orders where
  "sorted_orders = \<lparr>o_deleted = (\<lambda>m. sorted_list_of_set (dom m)), o_available = (\<lambda>m. sorted_list_of_set (dom m)),
     o_update = (\<lambda>m. sorted_list_of_set (dom m)), o_moves = (\<lambda>m. sorted_list_of_set (dom m))\<rparr>"

definition scale_out :: world where
  "scale_out = example_world\<lparr>w_heap := (\<lambda>_. NewDefaultNode)(0 := NewDefaultNode\<lparr>n_ID := ''a'', n_IP := ''1'', n_Slots := map word_of_nat [0..<8000]\<rparr>,
     1 := NewDefaultNode\<lparr>n_ID := ''b'', n_IP := ''2'', n_Slots := map word_of_nat [8192..<16384]\<rparr>,
     2 := NewDefaultNode\<lparr>n_ID := ''c'', n_IP := ''3''\<rparr>)\<rparr>"

lemma sorted_orders_ok: "orders_ok sorted_orders"
  by (simp add: orders_ok_def range_order_def sorted_orders_def)

lemma less_of_nat_slot: "n < 16384 \<Longrightarrow> (word_of_nat n :: slot) < 16384"
  by (simp add: word_less_nat_alt unat_of_nat_slot)

lemma distinct_word_list: "distinct xs \<Longrightarrow> \<forall>x \<in> set xs. x < 16384 \<Longrightarrow> distinct (map (word_of_nat :: nat \<Rightarrow> slot) xs)"
proof (unfold distinct_map, intro conjI inj_onI)
  fix x y assume "\<forall>x \<in> set xs. x < 16384" "x \<in> set xs" "y \<in> set xs" and eq: "word_of_nat x = (word_of_nat y :: slot)"
  then have "x < 2 ^ 64" "y < 2 ^ 64" by fastforce+
  then show "x = y" using arg_cong [OF eq, of unat] by (simp only: unat_of_nat_slot)
qed

text \<open>
  C2: \<^verbatim>\<open>DispatchSlotToNewMasters\<close> completes the migration. Whatever the order of its map loops, and whatever keys the
  slots hold, it ends; the one error it can return is that a server refused to claim a range between two slots
  without an owner, and then nothing is sent after the claim. Without an error every one of the 16384
  slots has exactly one owner among the new masters, also the slots that had been lost, the new
  masters own no other slots, and the masters that are removed own none. The servers accept the marks of a move;
  the client refuses the arguments of \<^verbatim>\<open>MIGRATE\<close>, so no key has moved.
\<close>

theorem DispatchSlotToNewMasters_complete:
  assumes "migration_ok (w_heap w) new cur" and "orders_ok os" and "marks_ok env" and "refuses_lists env"
  shows "\<exists>err cluster' w'. DispatchSlotToNewMasters env os cluster new cur allm w = Some ((err, cluster'), w') \<and>
    (err \<noteq> None \<longrightarrow> refused_claim env (set (retrieveLostSlots (w_heap w) cur 16384)) w w') \<and>
    (err = None \<longrightarrow> (\<forall>s < 16384. \<exists>!r. r \<in> set new \<and> s \<in> set (n_Slots (w_heap w' r))) \<and>
      (\<forall>r \<in> set new. set (n_Slots (w_heap w' r)) \<subseteq> {..<16384}) \<and>
      (\<forall>r \<in> set cur - set new. n_Slots (w_heap w' r) = []))"
proof -
  let ?h = "w_heap w"
  note okD = migration_okD [OF assms(1)]
  obtain P nb assigned where P: "feedMigInfo os ?h new cur allm 16384 = Some (P, nb)" and plan: "plan_of ?h new cur assigned P"
    using feedMigInfo_plan [OF assms(1,2)] by blast
  note pl = plan [unfolded plan_of_def]
  have "finite (dom P)"
  proof -
    have "mi \<in> insert None (Some ` set cur) \<times> set new" if "mi \<in> dom P" for mi
    proof -
      obtain t s where t: "t \<in> set new" "move_of ?h cur t s = Some mi" using pl \<open>mi \<in> dom P\<close> by blast
      have "snd mi \<in> set new" using move_of_target [OF t(2)] t(1) by blast
      moreover have "fst mi = None \<or> fst mi \<in> Some ` set cur"
        using move_of_source [of ?h cur t s _ "snd mi"] t(2) by (cases mi; cases "fst mi") auto
      ultimately show ?thesis by (cases mi) auto
    qed
    then have "dom P \<subseteq> insert None (Some ` set cur) \<times> set new" by (rule subsetI)
    then show ?thesis by (rule finite_subset) simp
  qed
  then have ro: "distinct (o_moves os P)" "set (o_moves os P) = dom P"
    using assms(2) by (auto simp: orders_ok_def range_order_def)
  let ?lost = "set (retrieveLostSlots ?h cur 16384)"
  have "\<forall>mi \<in> set (o_moves os P). fst mi \<noteq> Some (snd mi) \<and> (fst mi = None \<longrightarrow> set (slice_at P mi) \<subseteq> ?lost)"
  proof (intro ballI conjI impI subsetI)
    fix mi assume "mi \<in> set (o_moves os P)"
    then have "mi \<in> dom P" by (simp only: ro(2))
    then obtain t s where "move_of ?h cur t s = Some mi" using pl by blast
    from move_of_target [OF this] show "fst mi \<noteq> Some (snd mi)" by simp
  next
    fix mi s assume "fst mi = None" and "s \<in> set (slice_at P mi)"
    then obtain t where t: "t \<in> set new" "s \<in> assigned t" "move_of ?h cur t s = Some mi" "fst mi = None" using pl by blast
    then have "\<not> (\<exists>r \<in> set cur. s \<in> set (n_Slots (?h r)))"
      by (auto simp: move_of_def find_None_iff split: option.splits if_splits)
    with t(1,2) show "s \<in> ?lost" using pl gives_subset by blast
  qed
  from dispatch_entries_ok [OF assms(3,4) plan_disjoint [OF plan] ro(1) this]
  obtain err w' where d: "dispatch_entries env allm P (o_moves os P) w = Some (err, w')"
      "err \<noteq> None \<longrightarrow> refused_claim env ?lost w w'"
      "err = None \<longrightarrow> (\<forall>r. set (n_Slots (w_heap w' r)) = (set (n_Slots (?h r)) - (\<Union>mi \<in> {mi \<in> dom P. fst mi = Some r}. set (slice_at P mi)))
             \<union> (\<Union>mi \<in> {mi \<in> dom P. snd mi = r}. set (slice_at P mi)))"
    unfolding ro(2) by blast
  have max: "uint (GetHashMaxSlot + 1) = 16384" by (simp add: GetHashMaxSlot_def DefaultHashMaxSlots_def)
  have run: "\<exists>cluster'. DispatchSlotToNewMasters env os cluster new cur allm w = Some ((err, cluster'), w')"
    using P d(1) max by (simp add: DispatchSlotToNewMasters_def)
  show ?thesis
  proof (cases err)
    case (Some e)
    with run d(2) show ?thesis by blast
  next
    case None
    note w' = d(3) [THEN mp, OF None, THEN spec]
    note own = plan_ownership [OF assms(1) plan w']
    let ?Av = "\<Union>t \<in> set new. assigned t"
    have bound: "s < 16384" if "r \<in> set cur" "s \<in> set (n_Slots (?h r))" for r s
      using assms(1) that by (auto simp: migration_ok_def)
    have av: "s < 16384" if "s \<in> ?Av" for s
    proof -
      have "s \<in> set (retrieveLostSlots ?h cur 16384) \<or> (\<exists>r \<in> set cur. s \<in> set (n_Slots (?h r)))"
        using that pl gives_subset by blast
      then show ?thesis using lost_slots [OF assms(1)] bound by auto
    qed
    have disj: "t = t'" if "t \<in> set new" "t' \<in> set new" "s \<in> assigned t" "s \<in> assigned t'" for s t t'
      using pl that by blast
    have mem: "s \<in> set (n_Slots (w_heap w' r)) \<longleftrightarrow> s \<in> assigned r \<or> s \<in> set (n_Slots (?h r)) \<and> s \<notin> ?Av" if "r \<in> set new" for r s
      unfolding own(1) [OF that] by blast
    have uniq: "\<exists>!r. r \<in> set new \<and> s \<in> set (n_Slots (w_heap w' r))" if small: "s < 16384" for s
    proof (cases "s \<in> ?Av")
      case True
      then obtain t where t: "t \<in> set new" "s \<in> assigned t" by blast
      have "r = t" if "r \<in> set new" "s \<in> set (n_Slots (w_heap w' r))" for r
        using that(2) True disj [OF that(1) t(1)] t(2) unfolding mem [OF that(1)] by blast
      moreover have "s \<in> set (n_Slots (w_heap w' t))" using t by (simp add: mem)
      ultimately show ?thesis using t(1) by blast
    next
      case False
      then have "s \<notin> set (retrieveLostSlots ?h cur 16384)" using pl by blast
      then obtain r where r: "r \<in> set cur" "s \<in> set (n_Slots (?h r))" using small lost_slots [OF assms(1)] by auto
      have "r \<in> set new"
      proof (rule ccontr)
        assume "r \<notin> set new"
        then have "s \<in> set (gives ?h new (nb_slot_by_node 16384 (length new)) r)" using r okD(9) by (simp add: gives_def)
        then have "s \<in> ?Av" using pl r(1) by blast
        with False show False by contradiction
      qed
      moreover have "r' = r" if "r' \<in> set new" "s \<in> set (n_Slots (w_heap w' r'))" for r'
      proof -
        have "s \<in> set (n_Slots (?h r'))" using that(2) False that(1) unfolding mem [OF that(1)] by blast
        moreover from this have "r' \<in> set cur" using okD(8) that(1) by force
        ultimately show ?thesis using okD(6) r by blast
      qed
      moreover have "s \<in> set (n_Slots (w_heap w' r))" using r(2) False \<open>r \<in> set new\<close> by (simp add: mem)
      ultimately show ?thesis by blast
    qed
    have "set (n_Slots (w_heap w' r)) \<subseteq> {..<16384}" if rnew: "r \<in> set new" for r
    proof
      fix s assume "s \<in> set (n_Slots (w_heap w' r))"
      then consider "s \<in> ?Av" | "s \<in> set (n_Slots (?h r))" using rnew unfolding mem [OF rnew] by blast
      then show "s \<in> {..<16384}"
      proof cases
        case 2
        then have "r \<in> set cur" using okD(8) rnew by force
        with 2 bound show ?thesis by blast
      qed (simp add: av)
    qed
    moreover have "n_Slots (w_heap w' r) = []" if "r \<in> set cur - set new" for r using own(2) that by simp
    ultimately show ?thesis using run uniq None by blast
  qed
qed

theorem DispatchSlotToNewMasters_complete_witness:
  "\<exists>cluster' w'. DispatchSlotToNewMasters example_server sorted_orders (NewCluster ''c'' ''n'') [0, 1, 2] [0, 1] [0, 1, 2] scale_out = Some ((None, cluster'), w') \<and>
    (\<exists>!r. r \<in> {0, 1, 2} \<and> 9000 \<in> set (n_Slots (w_heap w' r)))"
proof -
  have "distinct (map (word_of_nat :: nat \<Rightarrow> slot) ([0..<8000] @ [8192..<16384]))"
    by (rule distinct_word_list) (auto simp del: upt_rec_numeral)
  then have "migration_ok (w_heap scale_out) [0, 1, 2] [0, 1]"
    using less_of_nat_slot
    by (auto simp: migration_ok_def scale_out_def NewDefaultNode_def simp del: upt_rec_numeral)
  moreover have "marks_ok example_server" "refuses_lists example_server"
    using server_with_moves [of five_keys] by (simp_all add: example_server_def moves_ok_def)
  ultimately obtain err cluster' w' where d: "DispatchSlotToNewMasters example_server sorted_orders (NewCluster ''c'' ''n'') [0, 1, 2] [0, 1] [0, 1, 2] scale_out
      = Some ((err, cluster'), w')"
    and refused: "err \<noteq> None \<longrightarrow> refused_claim example_server (set (retrieveLostSlots (w_heap scale_out) [0, 1] 16384)) scale_out w'"
    and owners: "err = None \<longrightarrow> (\<forall>s < 16384. \<exists>!r. r \<in> set [0, 1, 2] \<and> s \<in> set (n_Slots (w_heap w' r)))"
    using DispatchSlotToNewMasters_complete [OF _ sorted_orders_ok, of scale_out "[0, 1, 2]" "[0, 1]" example_server "NewCluster ''c'' ''n''" "[0, 1, 2]"]
    by blast
  have "\<not> refused_claim example_server (set (retrieveLostSlots (w_heap scale_out) [0, 1] 16384)) scale_out w'"
    by (simp add: refused_claim_def example_server_def server_with_def)
  with refused have e: "err = None" by blast
  have "(9000 :: slot) < 16384" by (simp add: word_less_nat_alt)
  with owners e have "\<exists>!r. r \<in> set [0, 1, 2] \<and> (9000 :: slot) \<in> set (n_Slots (w_heap w' r))" by blast
  with d e show ?thesis by auto
qed



text \<open>
  C38: \<^verbatim>\<open>retrieveLostSlots\<close> returns exactly the slots below the bound that no master owns, in ascending
  order and once each.
\<close>

theorem retrieveLostSlots_complement:
  assumes "\<forall>r \<in> set old. \<forall>s \<in> set (n_Slots (h r)). s < word_of_int nbSlots" and "0 < (word_of_int nbSlots :: slot)"
  shows "set (retrieveLostSlots h old nbSlots) = {0..<word_of_int nbSlots} - (\<Union>r \<in> set old. set (n_Slots (h r)))
       \<and> sorted (retrieveLostSlots h old nbSlots) \<and> distinct (retrieveLostSlots h old nbSlots)"
  by (rule retrieveLostSlots_spec [OF assms])

theorem retrieveLostSlots_complement_witness:
  "set (retrieveLostSlots (\<lambda>r. NewDefaultNode\<lparr>n_Slots := [1, 3]\<rparr>) [0] 6)
      = {0..<word_of_int 6} - (\<Union>r \<in> set [0 :: nref]. set (n_Slots (NewDefaultNode\<lparr>n_Slots := [1, 3]\<rparr>)))
   \<and> sorted (retrieveLostSlots (\<lambda>r. NewDefaultNode\<lparr>n_Slots := [1, 3]\<rparr>) [0] 6)
   \<and> distinct (retrieveLostSlots (\<lambda>r. NewDefaultNode\<lparr>n_Slots := [1, 3]\<rparr>) [0] 6)"
  by (rule retrieveLostSlots_complement [where h = "\<lambda>r. NewDefaultNode\<lparr>n_Slots := [1, 3]\<rparr>"]) (simp_all add: word_less_nat_alt)

text \<open>
  C39: \<^verbatim>\<open>buildSlotByNodeFromAvailableSlots\<close> loses and invents nothing: whatever the order in which
  it visits the map, the slots it hands out to the new masters are, counted with
  multiplicity, the available ones, and no other node gets any.
\<close>

theorem buildSlotByNode_conserves:
  assumes "distinct (map (\<lambda>r. n_ID (h r)) ns)" and "ns \<noteq> []"
  shows "mset (concat (map (\<lambda>r. slice_at (buildSlotByNodeFromAvailableSlots os h ns nb avail) (n_ID (h r))) ns))
           = mset (concat (map (slice_at avail) (o_available os avail))) \<and>
         dom (buildSlotByNodeFromAvailableSlots os h ns nb avail) \<subseteq> (\<lambda>r. n_ID (h r)) ` set ns"
  using buildSlotByNode_spec [OF assms] by (simp add: slots_of_def comp_def)

theorem buildSlotByNode_conserves_witness:
  "mset (concat (map (\<lambda>r. slice_at (buildSlotByNodeFromAvailableSlots sorted_orders (w_heap scale_out) [0, 1, 2] 5462 [''a'' \<mapsto> [1, 2], '''' \<mapsto> [8000]])
              (n_ID (w_heap scale_out r))) [0, 1, 2]))
     = mset (concat (map (slice_at [''a'' \<mapsto> [1, 2], '''' \<mapsto> [8000]]) (o_available sorted_orders [''a'' \<mapsto> [1, 2], '''' \<mapsto> [8000]]))) \<and>
   dom (buildSlotByNodeFromAvailableSlots sorted_orders (w_heap scale_out) [0, 1, 2] 5462 [''a'' \<mapsto> [1, 2], '''' \<mapsto> [8000]])
     \<subseteq> (\<lambda>r. n_ID (w_heap scale_out r)) ` set [0, 1, 2]"
  by (rule buildSlotByNode_conserves) (simp_all add: scale_out_def del: upt_rec_numeral)

end
