(* ===== verification/Heal.thy ===== *)
theory Heal
  imports Kube
begin

text \<open>
  The repair of a cluster (\<^verbatim>\<open>controllers/heal\<close>, \<^verbatim>\<open>controllers/manager/healer.go\<close>): forgetting ghost and untrusted nodes, deleting pods that hang in
  termination, and merging a split cluster. The calls made to Kubernetes are recorded. \<open>agg\<close> stands for \<^verbatim>\<open>errors.NewAggregate\<close> of the Kubernetes library, which
  returns nil exactly for an empty list.
\<close>

record CheckAndHeal =
  ch_Pods :: "Pod list"
  ch_DryRun :: bool

section \<open>Terminating pods\<close>

fun FixTerminatingPods_loop ::
    "kube \<Rightarrow> int \<Rightarrow> CheckAndHeal \<Rightarrow> string \<Rightarrow> int \<Rightarrow> Pod list \<Rightarrow> bool \<Rightarrow> err list \<Rightarrow> hworld \<Rightarrow> (bool \<times> err list) \<times> hworld" where
  "FixTerminatingPods_loop k now c ns maxDuration [] actionDone errs w = ((actionDone, errs), w)"
| "FixTerminatingPods_loop k now c ns maxDuration (pod # pods) actionDone errs w =
     (case pod_DeletionTimestamp pod of
        None \<Rightarrow> FixTerminatingPods_loop k now c ns maxDuration pods actionDone errs w
      | Some t \<Rightarrow>
          let maxTime = t + maxDuration in
          if maxTime < now then
            if \<not> ch_DryRun c then
              (case DeletePodByName k ns (pod_Name pod) w of
                 (err, w) \<Rightarrow> FixTerminatingPods_loop k now c ns maxDuration pods True
                   (case err of Some e \<Rightarrow> errs @ [e] | None \<Rightarrow> errs) w)
            else FixTerminatingPods_loop k now c ns maxDuration pods True errs w
          else FixTerminatingPods_loop k now c ns maxDuration pods actionDone errs w)"

definition FixTerminatingPods ::
    "kube \<Rightarrow> (err list \<Rightarrow> err option) \<Rightarrow> int \<Rightarrow> CheckAndHeal \<Rightarrow> DistributedRedisCluster \<Rightarrow> int \<Rightarrow> hworld \<Rightarrow> (bool \<times> err option) \<times> hworld" where
  "FixTerminatingPods k agg now c cluster maxDuration w =
     (if maxDuration = 0 then ((False, None), w)
      else case FixTerminatingPods_loop k now c (drc_Namespace cluster) maxDuration (ch_Pods c) False [] w of
             ((actionDone, errs), w) \<Rightarrow> ((actionDone, agg errs), w))"

section \<open>Ghost nodes\<close>

definition wrap_int32 :: "int \<Rightarrow> int" where
  "wrap_int32 i = (i + 2 ^ 31) mod 2 ^ 32 - 2 ^ 31"

definition half :: "int \<Rightarrow> int" where
  "half i = (if i \<ge> 0 then i div 2 else - ((- i) div 2))"

definition ghost_threshold :: "DistributedRedisCluster \<Rightarrow> int" where
  "ghost_threshold cluster =
     half (wrap_int32 (wrap_int32 (spec_ClusterReplicas (drc_Spec cluster) + 1) * spec_MasterSize (drc_Spec cluster)))"

definition bump :: "string \<Rightarrow> (string \<rightharpoonup> int) \<Rightarrow> (string \<rightharpoonup> int)" where
  "bump i m = m(i \<mapsto> (case m i of None \<Rightarrow> 0 | Some c \<Rightarrow> c) + 1)"

definition ghost_detect :: "node \<Rightarrow> (string \<rightharpoonup> int) \<Rightarrow> (string \<rightharpoonup> int)" where
  "ghost_detect node detect =
     (let detect = (if HasStatus node NodeStatusNoAddr then bump (n_ID node) detect else detect)
      in if HasStatus node NodeStatusFail then bump (n_ID node) detect else detect)"

definition ghostNodesDetect :: "ClusterInfos \<Rightarrow> string \<rightharpoonup> int" where
  "ghostNodesDetect infos = foldl (\<lambda>m (addr, nodeinfos). foldl (\<lambda>m node. ghost_detect node m) m (ni_Friends nodeinfos)) Map.empty (ci_Infos infos)"

definition listGhostNodes :: "DistributedRedisCluster \<Rightarrow> ClusterInfos option \<Rightarrow> string \<rightharpoonup> bool" where
  "listGhostNodes cluster infos =
     (case infos of
        None \<Rightarrow> Map.empty
      | Some infos \<Rightarrow>
          (\<lambda>i. case ghostNodesDetect infos i of
                 Some n \<Rightarrow> if n \<ge> ghost_threshold cluster then Some True else None
               | None \<Rightarrow> None))"

definition heal_forget :: "env \<Rightarrow> string \<Rightarrow> hworld \<Rightarrow> (err option \<times> hworld) option" where
  "heal_forget env i w = map_option (\<lambda>(err, r). (err, w\<lparr>hw_redis := r\<rparr>)) (ForgetNode env i (hw_redis w))"

fun FixFailedNodes_loop :: "env \<Rightarrow> CheckAndHeal \<Rightarrow> string list \<Rightarrow> bool \<Rightarrow> err list \<Rightarrow> hworld \<Rightarrow> ((bool \<times> err list) \<times> hworld) option" where
  "FixFailedNodes_loop env c [] doneAnAction errs w = Some ((doneAnAction, errs), w)"
| "FixFailedNodes_loop env c (i # ids) doneAnAction errs w =
     (if \<not> ch_DryRun c then
        (case heal_forget env i w of
           None \<Rightarrow> None
         | Some (err, w) \<Rightarrow> FixFailedNodes_loop env c ids True (case err of Some e \<Rightarrow> errs @ [e] | None \<Rightarrow> errs) w)
      else FixFailedNodes_loop env c ids True errs w)"

definition FixFailedNodes ::
    "env \<Rightarrow> (err list \<Rightarrow> err option) \<Rightarrow> ((string \<rightharpoonup> bool) \<Rightarrow> string list) \<Rightarrow> CheckAndHeal \<Rightarrow> DistributedRedisCluster \<Rightarrow> ClusterInfos option
       \<Rightarrow> hworld \<Rightarrow> ((bool \<times> err option) \<times> hworld) option" where
  "FixFailedNodes env agg ord c cluster infos w =
     (let forgetSet = listGhostNodes cluster infos in
      case FixFailedNodes_loop env c (ord forgetSet) False [] w of
        None \<Rightarrow> None
      | Some ((doneAnAction, errs), w) \<Rightarrow> Some ((doneAnAction, agg errs), w))"

section \<open>Untrusted nodes\<close>

definition untrust :: "node \<Rightarrow> (string \<rightharpoonup> node) \<Rightarrow> (string \<rightharpoonup> node)" where
  "untrust node m = (if HasStatus node NodeStatusHandshake then if m (n_ID node) = None then m(n_ID node \<mapsto> node) else m else m)"

definition listUntrustedNodes :: "ClusterInfos option \<Rightarrow> string \<rightharpoonup> node" where
  "listUntrustedNodes infos =
     (case infos of
        None \<Rightarrow> Map.empty
      | Some infos \<Rightarrow> foldl (\<lambda>m (addr, nodeinfos). foldl (\<lambda>m node. untrust node m) m (ni_Friends nodeinfos)) Map.empty (ci_Infos infos))"

fun pod_name_loop :: "node \<Rightarrow> Pod list \<Rightarrow> bool \<Rightarrow> bool \<times> bool" where
  "pod_name_loop node [] exist = (exist, False)"
| "pod_name_loop node (currentPod # pods) exist =
     (if pod_Name currentPod = n_PodName node then
        if pod_PodIP currentPod = n_IP node then (True, True) else pod_name_loop node pods True
      else pod_name_loop node pods exist)"

definition checkIfPodNameExistAndIsReused :: "node \<Rightarrow> Pod list \<Rightarrow> bool \<times> bool" where
  "checkIfPodNameExistAndIsReused node podlist =
     (if n_PodName node = '''' then (False, False) else pod_name_loop node podlist False)"

text \<open>\<^verbatim>\<open>GetNodesByFunc\<close> on the nodes of the infos, which are kept by value.\<close>

definition nodes_by_func :: "(node \<Rightarrow> bool) \<Rightarrow> node list \<Rightarrow> node list \<times> err option" where
  "nodes_by_func f ns = (let r = filter f ns in if length r = 0 then (r, Some nodeNotFoundedError) else (r, None))"

definition fix_untrusted ::
    "kube \<Rightarrow> env \<Rightarrow> CheckAndHeal \<Rightarrow> DistributedRedisCluster \<Rightarrow> ClusterInfos \<Rightarrow> string \<Rightarrow> node \<Rightarrow> bool \<Rightarrow> err list \<Rightarrow> hworld
       \<Rightarrow> ((bool \<times> err list) \<times> hworld) option" where
  "fix_untrusted k env c cluster infos i uNode doneAnAction errs w =
     (case nodes_by_func (\<lambda>n. if n_IP n = n_IP uNode \<and> n_ID n \<noteq> n_ID uNode then True else False) (GetNodes infos) of
        (node2, err) \<Rightarrow>
          if err \<noteq> None \<and> \<not> IsNodeNotFoundedError err then Some ((doneAnAction, errs @ [the err]), w)
          else if length node2 > 0 then Some ((doneAnAction, errs), w)
          else
            (case checkIfPodNameExistAndIsReused uNode (ch_Pods c) of
               (exist, reused) \<Rightarrow>
                 (case (if exist \<and> \<not> reused
                        then case DeletePodByName k (drc_Namespace cluster) (n_PodName uNode) w of
                               (err, w) \<Rightarrow> (case err of Some e \<Rightarrow> errs @ [e] | None \<Rightarrow> errs, w)
                        else (errs, w)) of
                    (errs, w) \<Rightarrow>
                      if \<not> ch_DryRun c then
                        (case heal_forget env i w of
                           None \<Rightarrow> None
                         | Some (err, w) \<Rightarrow> Some ((True, case err of Some e \<Rightarrow> errs @ [e] | None \<Rightarrow> errs), w))
                      else Some ((True, errs), w))))"

fun FixUntrustedNodes_loop ::
    "kube \<Rightarrow> env \<Rightarrow> CheckAndHeal \<Rightarrow> DistributedRedisCluster \<Rightarrow> ClusterInfos \<Rightarrow> (string \<rightharpoonup> node) \<Rightarrow> string list \<Rightarrow> bool \<Rightarrow> err list \<Rightarrow> hworld
       \<Rightarrow> ((bool \<times> err list) \<times> hworld) option" where
  "FixUntrustedNodes_loop k env c cluster infos m [] doneAnAction errs w = Some ((doneAnAction, errs), w)"
| "FixUntrustedNodes_loop k env c cluster infos m (i # ids) doneAnAction errs w =
     (case fix_untrusted k env c cluster infos i (the (m i)) doneAnAction errs w of
        None \<Rightarrow> None
      | Some ((doneAnAction, errs), w) \<Rightarrow> FixUntrustedNodes_loop k env c cluster infos m ids doneAnAction errs w)"

definition FixUntrustedNodes ::
    "kube \<Rightarrow> env \<Rightarrow> (err list \<Rightarrow> err option) \<Rightarrow> ((string \<rightharpoonup> node) \<Rightarrow> string list) \<Rightarrow> CheckAndHeal \<Rightarrow> DistributedRedisCluster
       \<Rightarrow> ClusterInfos option \<Rightarrow> hworld \<Rightarrow> ((bool \<times> err option) \<times> hworld) option" where
  "FixUntrustedNodes k env agg ord c cluster infos w =
     (let untrustedNode = listUntrustedNodes infos in
      case FixUntrustedNodes_loop k env c cluster (case infos of Some i \<Rightarrow> i | None \<Rightarrow> NewClusterInfos) untrustedNode (ord untrustedNode) False [] w of
        None \<Rightarrow> None
      | Some ((doneAnAction, errs), w) \<Rightarrow> Some ((doneAnAction, agg errs), w))"

definition Heal ::
    "kube \<Rightarrow> env \<Rightarrow> (err list \<Rightarrow> err option) \<Rightarrow> ((string \<rightharpoonup> bool) \<Rightarrow> string list) \<Rightarrow> ((string \<rightharpoonup> node) \<Rightarrow> string list) \<Rightarrow> CheckAndHeal
       \<Rightarrow> DistributedRedisCluster \<Rightarrow> ClusterInfos option \<Rightarrow> hworld \<Rightarrow> ((bool \<times> err option) \<times> hworld) option" where
  "Heal k env agg ordf ordu h cluster infos w =
     (case FixFailedNodes env agg ordf h cluster infos w of
        None \<Rightarrow> None
      | Some ((actionDone, err), w) \<Rightarrow>
          if err \<noteq> None then Some ((actionDone, err), w)
          else if actionDone then Some ((actionDone, None), w)
          else
            (case FixUntrustedNodes k env agg ordu h cluster infos w of
               None \<Rightarrow> None
             | Some ((actionDone, err), w) \<Rightarrow>
                 if err \<noteq> None then Some ((actionDone, err), w)
                 else if actionDone then Some ((actionDone, None), w)
                 else Some ((False, None), w)))"

section \<open>Split clusters\<close>

type_synonym cluster = "string list"

fun findInCluster :: "string \<Rightarrow> cluster list \<Rightarrow> bool" where
  "findInCluster addr [] = False"
| "findInCluster addr (c # clusters) = (if addr \<in> set c then True else findInCluster addr clusters)"

definition view_addrs :: "NodeInfos \<Rightarrow> cluster" where
  "view_addrs nodeinfos = map IPPort (filter (\<lambda>node. length (n_FailStatus node) = 0) (ni_Friends nodeinfos @ [ni_Node nodeinfos]))"

fun overlaps :: "cluster \<Rightarrow> cluster list \<Rightarrow> bool" where
  "overlaps [] clusters = False"
| "overlaps (node # c) clusters = (if findInCluster node clusters then True else overlaps c clusters)"

fun buildClustersLists_loop :: "NodeInfos list \<Rightarrow> cluster list \<Rightarrow> cluster list" where
  "buildClustersLists_loop [] clusters = clusters"
| "buildClustersLists_loop (nodeinfos # infos) clusters =
     (let c = view_addrs nodeinfos
      in buildClustersLists_loop infos (if \<not> overlaps c clusters then clusters @ [c] else clusters))"

definition buildClustersLists :: "ClusterInfos \<Rightarrow> cluster list" where
  "buildClustersLists infos = buildClustersLists_loop (map snd (ci_Infos infos)) []"

fun main_loop :: "cluster list \<Rightarrow> nat \<Rightarrow> int \<Rightarrow> int \<Rightarrow> int" where
  "main_loop [] i maincluster maxSize = maincluster"
| "main_loop (c # cs) i maincluster maxSize =
     (if int (length c) > maxSize then main_loop cs (Suc i) (int i) (int (length c)) else main_loop cs (Suc i) maincluster maxSize)"

definition splitMainCluster :: "cluster list \<Rightarrow> cluster \<times> cluster list" where
  "splitMainCluster clusters =
     (if length clusters = 0 then ([], [])
      else
        let maincluster = main_loop clusters 0 (- 1) 0 in
        if maincluster \<noteq> - 1
        then (clusters ! nat maincluster, take (nat maincluster) clusters @ drop (nat maincluster + 1) clusters)
        else (clusters ! 0, []))"

text \<open>
  The two pools of the repair: the one of the admin, whose connections are put aside while the pool of
  the admin of a lost cluster (made with its own options, \<open>env'\<close>) is in use.
\<close>

fun reset_nodes :: "env \<Rightarrow> env \<Rightarrow> string list \<Rightarrow> string list \<Rightarrow> err list \<Rightarrow> world \<Rightarrow> (string list \<times> err list) \<times> world" where
  "reset_nodes env env' [] pool errs w = ((pool, errs), w)"
| "reset_nodes env env' (nodeAddr # addrs) pool errs w =
     (let main = w_clients w in
      case FlushAndReset env' nodeAddr ResetHard (w\<lparr>w_clients := pool\<rparr>) of
        (e1, w1) \<Rightarrow>
          (case AttachNodeToCluster env nodeAddr (w1\<lparr>w_clients := main\<rparr>) of
             (e2, w2) \<Rightarrow>
               reset_nodes env env' addrs (w_clients w1)
                 ((case e1 of Some e \<Rightarrow> errs @ [e] | None \<Rightarrow> errs) @ (case e2 of Some e \<Rightarrow> [e] | None \<Rightarrow> [])) w2))"

fun reassign_loop :: "env \<Rightarrow> env \<Rightarrow> cluster list \<Rightarrow> err list \<Rightarrow> world \<Rightarrow> err list \<times> world" where
  "reassign_loop env env' [] errs w = (errs, w)"
| "reassign_loop env env' (c # cs) errs w =
     (let main = w_clients w; w0 = NewAdmin env' c w in
      case reset_nodes env env' c (w_clients w0) errs (w0\<lparr>w_clients := main\<rparr>) of
        ((pool, errs), w1) \<Rightarrow>
          let w2 = Admin_Close env' (w1\<lparr>w_clients := pool\<rparr>)
          in reassign_loop env env' cs errs (w2\<lparr>w_clients := w_clients w1\<rparr>))"

definition reassignClusters :: "env \<Rightarrow> env \<Rightarrow> (err list \<Rightarrow> err option) \<Rightarrow> cluster list \<Rightarrow> world \<Rightarrow> err option \<times> world" where
  "reassignClusters env env' agg clusters w =
     (case splitMainCluster clusters of
        (mainCluster, badClusters) \<Rightarrow>
          if length mainCluster = 0 then (Some (Errorf ''impossible to fix cluster split, cannot elect main cluster'' []), w)
          else case reassign_loop env env' badClusters [] (ReplaceAll env mainCluster w) of
                 (errs, w) \<Rightarrow> (agg errs, w))"

definition FixClusterSplit ::
    "env \<Rightarrow> env \<Rightarrow> (err list \<Rightarrow> err option) \<Rightarrow> CheckAndHeal \<Rightarrow> ClusterInfos \<Rightarrow> world \<Rightarrow> (bool \<times> err option) \<times> world" where
  "FixClusterSplit env env' agg c infos w =
     (let clusters = buildClustersLists infos in
      if length clusters > 1 then
        if ch_DryRun c then ((True, None), w)
        else case reassignClusters env env' agg clusters w of (err, w) \<Rightarrow> ((True, err), w)
      else ((False, None), w))"

section \<open>Lemmas\<close>

text \<open>The pods that should have been gone since \<open>maxDuration\<close>.\<close>

definition overdue :: "int \<Rightarrow> int \<Rightarrow> Pod \<Rightarrow> bool" where
  "overdue now maxDuration p \<longleftrightarrow> (case pod_DeletionTimestamp p of None \<Rightarrow> False | Some t \<Rightarrow> t + maxDuration < now)"

lemma DeletePodByName_spec:
  "DeletePodByName k ns n w = (e, w') \<Longrightarrow> hw_redis w' = hw_redis w \<and>
   (\<exists>cs. hw_calls w' = hw_calls w @ cs \<and> set cs \<subseteq> {KGetPod ns n, KDeletePod ns n} \<and> (e = None \<longrightarrow> cs = [KGetPod ns n, KDeletePod ns n]))"
  by (auto simp: DeletePodByName_def GetPod_def split: option.splits prod.splits)

lemma FixTerminatingPods_loop_spec:
  "FixTerminatingPods_loop k now c ns d pods a errs w = ((a', errs'), w') \<Longrightarrow>
   hw_redis w' = hw_redis w \<and> (a' \<longleftrightarrow> a \<or> (\<exists>p \<in> set pods. overdue now d p)) \<and>
   (if ch_DryRun c then w' = w \<and> errs' = errs
    else \<exists>cs new. hw_calls w' = hw_calls w @ cs \<and> errs' = errs @ new \<and>
      set cs \<subseteq> (\<Union>p \<in> set (filter (overdue now d) pods). {KGetPod ns (pod_Name p), KDeletePod ns (pod_Name p)}) \<and>
      (new = [] \<longrightarrow> cs = concat (map (\<lambda>p. [KGetPod ns (pod_Name p), KDeletePod ns (pod_Name p)]) (filter (overdue now d) pods))))"
proof (induction pods arbitrary: a errs w)
  case (Cons p pods)
  show ?case
  proof (cases "overdue now d p")
    case False
    with Cons.prems have "FixTerminatingPods_loop k now c ns d pods a errs w = ((a', errs'), w')"
      by (auto simp: overdue_def Let_def split: option.splits)
    from Cons.IH [OF this] False show ?thesis by (auto split: if_splits)
  next
    case True
    then obtain t where t: "pod_DeletionTimestamp p = Some t" "t + d < now" by (auto simp: overdue_def split: option.splits)
    show ?thesis
    proof (cases "ch_DryRun c")
      case dry: True
      with t Cons.prems have "FixTerminatingPods_loop k now c ns d pods True errs w = ((a', errs'), w')" by simp
      from Cons.IH [OF this] True dry show ?thesis by simp
    next
      case wet: False
      obtain e w1 where del: "DeletePodByName k ns (pod_Name p) w = (e, w1)" by (metis surj_pair)
      define errs1 where "errs1 = (case e of Some e \<Rightarrow> errs @ [e] | None \<Rightarrow> errs)"
      from t wet Cons.prems del have "FixTerminatingPods_loop k now c ns d pods True errs1 w1 = ((a', errs'), w')"
        by (simp add: errs1_def)
      from Cons.IH [OF this] wet obtain cs new where IH: "hw_redis w' = hw_redis w1" "a'" "hw_calls w' = hw_calls w1 @ cs" "errs' = errs1 @ new"
        "set cs \<subseteq> (\<Union>p \<in> set (filter (overdue now d) pods). {KGetPod ns (pod_Name p), KDeletePod ns (pod_Name p)})"
        "new = [] \<longrightarrow> cs = concat (map (\<lambda>p. [KGetPod ns (pod_Name p), KDeletePod ns (pod_Name p)]) (filter (overdue now d) pods))" by auto
      from DeletePodByName_spec [OF del] obtain cs0 where d: "hw_redis w1 = hw_redis w" "hw_calls w1 = hw_calls w @ cs0"
        "set cs0 \<subseteq> {KGetPod ns (pod_Name p), KDeletePod ns (pod_Name p)}" "e = None \<longrightarrow> cs0 = [KGetPod ns (pod_Name p), KDeletePod ns (pod_Name p)]"
        by blast
      define new0 where "new0 = (case e of Some e \<Rightarrow> [e] | None \<Rightarrow> [])"
      have "errs1 = errs @ new0" "new0 = [] \<longleftrightarrow> e = None" by (auto simp: errs1_def new0_def split: option.splits)
      with IH d True have "hw_calls w' = hw_calls w @ (cs0 @ cs)" "errs' = errs @ (new0 @ new)"
        "set (cs0 @ cs) \<subseteq> (\<Union>p \<in> set (filter (overdue now d) (p # pods)). {KGetPod ns (pod_Name p), KDeletePod ns (pod_Name p)})"
        "new0 @ new = [] \<longrightarrow> cs0 @ cs = concat (map (\<lambda>p. [KGetPod ns (pod_Name p), KDeletePod ns (pod_Name p)]) (filter (overdue now d) (p # pods)))"
        by auto
      with IH(1,2) d(1) True wet show ?thesis by auto
    qed
  qed
qed auto

text \<open>How often a node is reported as failed or without address: a report with both flags counts twice.\<close>

definition node_reports :: "string \<Rightarrow> node \<Rightarrow> int" where
  "node_reports i n = (if n_ID n = i then (if HasStatus n NodeStatusNoAddr then 1 else 0) + (if HasStatus n NodeStatusFail then 1 else 0) else 0)"

definition reports :: "ClusterInfos \<Rightarrow> string \<Rightarrow> int" where
  "reports infos i = (\<Sum>n \<leftarrow> concat (map (\<lambda>(addr, ni). ni_Friends ni) (ci_Infos infos)). node_reports i n)"

definition count_at :: "(string \<rightharpoonup> int) \<Rightarrow> string \<Rightarrow> int" where
  "count_at m i = (case m i of None \<Rightarrow> 0 | Some c \<Rightarrow> c)"

lemma node_reports_nonneg: "0 \<le> node_reports i n"
  by (simp add: node_reports_def)

lemma ghost_detect_spec:
  "count_at (ghost_detect n m) i = count_at m i + node_reports i n"
  "(\<forall>j. m j = None \<or> count_at m j > 0) \<Longrightarrow> ghost_detect n m i = None \<or> count_at (ghost_detect n m) i > 0"
  by (auto simp: ghost_detect_def bump_def count_at_def node_reports_def Let_def split: option.splits)
    (smt (verit, best) option.case_eq_if)+

lemma ghost_detect_fold:
  assumes "\<forall>j. m j = None \<or> count_at m j > 0"
  shows "(\<forall>i. count_at (foldl (\<lambda>m n. ghost_detect n m) m ns) i = count_at m i + (\<Sum>n \<leftarrow> ns. node_reports i n)) \<and>
    (\<forall>j. foldl (\<lambda>m n. ghost_detect n m) m ns j = None \<or> count_at (foldl (\<lambda>m n. ghost_detect n m) m ns) j > 0)"
  using assms
proof (induction ns arbitrary: m)
  case (Cons n ns)
  have "\<forall>j. ghost_detect n m j = None \<or> count_at (ghost_detect n m) j > 0" using ghost_detect_spec(2) [OF Cons.prems] by blast
  from Cons.IH [OF this] show ?case by (auto simp: ghost_detect_spec(1))
qed simp

lemma ghostNodesDetect_flat:
  "ghostNodesDetect infos = foldl (\<lambda>m n. ghost_detect n m) Map.empty (concat (map (\<lambda>(addr, ni). ni_Friends ni) (ci_Infos infos)))"
proof -
  have "foldl (\<lambda>m (addr, nodeinfos). foldl (\<lambda>m node. ghost_detect node m) m (ni_Friends nodeinfos)) m xs
      = foldl (\<lambda>m n. ghost_detect n m) m (concat (map (\<lambda>(addr, ni). ni_Friends ni) xs))" for m and xs :: "(string \<times> NodeInfos) list"
    by (induction xs arbitrary: m) (auto simp: split_beta)
  then show ?thesis by (simp add: ghostNodesDetect_def)
qed

lemma listGhostNodes_iff:
  "listGhostNodes cluster (Some infos) i = Some True \<longleftrightarrow> 0 < reports infos i \<and> ghost_threshold cluster \<le> reports infos i"
  "listGhostNodes cluster (Some infos) i = None \<or> listGhostNodes cluster (Some infos) i = Some True"
proof -
  have "count_at (ghostNodesDetect infos) i = reports infos i" "ghostNodesDetect infos i = None \<or> 0 < count_at (ghostNodesDetect infos) i"
    using ghost_detect_fold [of Map.empty "concat (map (\<lambda>(addr, ni). ni_Friends ni) (ci_Infos infos))"]
    unfolding ghostNodesDetect_flat reports_def by (auto simp: count_at_def [of Map.empty])
  then show "listGhostNodes cluster (Some infos) i = Some True \<longleftrightarrow> 0 < reports infos i \<and> ghost_threshold cluster \<le> reports infos i"
    by (auto simp: listGhostNodes_def count_at_def split: option.splits)
  show "listGhostNodes cluster (Some infos) i = None \<or> listGhostNodes cluster (Some infos) i = Some True"
    by (auto simp: listGhostNodes_def split: option.splits)
qed

lemma findInCluster_iff: "findInCluster a cs \<longleftrightarrow> (\<exists>c \<in> set cs. a \<in> set c)"
  by (induction cs) auto

lemma overlaps_iff: "overlaps c cs \<longleftrightarrow> (\<exists>a \<in> set c. \<exists>d \<in> set cs. a \<in> set d)"
  by (induction c) (auto simp: findInCluster_iff)

definition split_ok :: "cluster list \<Rightarrow> bool" where
  "split_ok cs \<longleftrightarrow> (\<forall>i < length cs. \<forall>j < length cs. i \<noteq> j \<longrightarrow> set (cs ! i) \<inter> set (cs ! j) = {})"

lemma split_ok_snoc: "split_ok cs \<Longrightarrow> \<not> overlaps c cs \<Longrightarrow> split_ok (cs @ [c])"
  unfolding split_ok_def overlaps_iff
  by (auto simp: nth_append less_Suc_eq)

lemma buildClustersLists_loop_spec:
  "split_ok cs \<Longrightarrow> split_ok (buildClustersLists_loop infos cs) \<and> (\<exists>new. buildClustersLists_loop infos cs = cs @ new \<and> set new \<subseteq> view_addrs ` set infos) \<and>
   (\<forall>ni \<in> set infos. view_addrs ni \<in> set (buildClustersLists_loop infos cs) \<or> overlaps (view_addrs ni) (buildClustersLists_loop infos cs))"
proof (induction infos arbitrary: cs)
  case (Cons ni infos)
  define cs1 where "cs1 = (if \<not> overlaps (view_addrs ni) cs then cs @ [view_addrs ni] else cs)"
  have "split_ok cs1" using Cons.prems split_ok_snoc by (simp add: cs1_def)
  from Cons.IH [OF this] obtain new where IH: "split_ok (buildClustersLists_loop infos cs1)" "buildClustersLists_loop infos cs1 = cs1 @ new"
    "set new \<subseteq> view_addrs ` set infos"
    "\<forall>ni \<in> set infos. view_addrs ni \<in> set (buildClustersLists_loop infos cs1) \<or> overlaps (view_addrs ni) (buildClustersLists_loop infos cs1)" by blast
  have eq: "buildClustersLists_loop (ni # infos) cs = cs1 @ new" using IH(2) by (simp add: cs1_def Let_def)
  have "view_addrs ni \<in> set (cs1 @ new) \<or> overlaps (view_addrs ni) (cs1 @ new)" by (auto simp: cs1_def overlaps_iff)
  moreover have "\<exists>new'. cs1 @ new = cs @ new' \<and> set new' \<subseteq> view_addrs ` set (ni # infos)"
    using IH(3) by (auto simp: cs1_def)
  ultimately show ?case using IH(1,4) unfolding eq IH(2) by auto
qed simp

lemma main_loop_spec:
  assumes "main = (if k < 0 then [] else pre ! nat k)" "k < 0 \<longrightarrow> k = - 1" "k < int (length pre)" "int (length main) = m" "\<forall>c \<in> set pre. int (length c) \<le> m"
    "\<forall>j < nat k. k \<ge> 0 \<longrightarrow> int (length (pre ! j)) < m" "k \<ge> 0 \<longrightarrow> m > 0"
  shows "let r = main_loop cs (length pre) k m; all = pre @ cs in
    (r < 0 \<longrightarrow> r = - 1 \<and> (\<forall>c \<in> set all. c = [])) \<and> (r \<ge> 0 \<longrightarrow> nat r < length all \<and> all ! nat r \<noteq> [] \<and>
       (\<forall>c \<in> set all. length c \<le> length (all ! nat r)) \<and> (\<forall>j < nat r. length (all ! j) < length (all ! nat r)))"
  using assms
proof (induction cs arbitrary: pre k m main)
  case Nil
  then show ?case by (auto simp: Let_def split: if_splits)
next
  case (Cons c cs)
  have step: "main_loop (c # cs) (length pre) k m = (if int (length c) > m then main_loop cs (length (pre @ [c])) (int (length pre)) (int (length c))
      else main_loop cs (length (pre @ [c])) k m)" by simp
  have all: "pre @ c # cs = (pre @ [c]) @ cs" by simp
  show ?case
  proof (cases "int (length c) > m")
    case True
    show ?thesis unfolding step all if_P [OF True] 
      by (rule Cons.IH [where main = c]) (use True Cons.prems in \<open>auto simp: nth_append intro: order_le_less_trans less_imp_le dest!: nth_mem\<close>)
  next
    case False
    show ?thesis unfolding step all if_not_P [OF False]
      by (rule Cons.IH [where main = main]) (use False Cons.prems in \<open>auto simp: nth_append\<close>)
  qed
qed

lemma pod_name_loop_spec:
  "pod_name_loop n pods ex = (e, r) \<Longrightarrow> (e \<longleftrightarrow> ex \<or> (\<exists>p \<in> set pods. pod_Name p = n_PodName n)) \<and>
     (r \<longleftrightarrow> (\<exists>p \<in> set pods. pod_Name p = n_PodName n \<and> pod_PodIP p = n_IP n))"
  by (induction pods arbitrary: ex) (auto split: if_splits)

text \<open>The calls that deleting the pod of an untrusted node may make, and when it is done.\<close>

definition may_delete :: "Pod list \<Rightarrow> string \<Rightarrow> node list \<Rightarrow> node \<Rightarrow> kcall \<Rightarrow> bool" where
  "may_delete pods ns known n x \<longleftrightarrow>
     (x = KGetPod ns (n_PodName n) \<or> x = KDeletePod ns (n_PodName n)) \<and>
     (\<exists>p \<in> set pods. pod_Name p = n_PodName n) \<and> (\<forall>p \<in> set pods. pod_Name p = n_PodName n \<longrightarrow> pod_PodIP p \<noteq> n_IP n) \<and>
     (\<forall>m \<in> set known. n_IP m = n_IP n \<longrightarrow> n_ID m = n_ID n)"

lemma heal_forget_calls: "heal_forget env i w = Some (e, w') \<Longrightarrow> hw_calls w' = hw_calls w"
  by (auto simp: heal_forget_def)

lemma fix_untrusted_spec:
  assumes "fix_untrusted k env c cluster infos i n a errs w = Some ((a', errs'), w')"
  shows "\<exists>cs. hw_calls w' = hw_calls w @ cs \<and> (\<forall>x \<in> set cs. may_delete (ch_Pods c) (drc_Namespace cluster) (GetNodes infos) n x) \<and>
    (ch_DryRun c \<longrightarrow> hw_redis w' = hw_redis w)"
proof (cases "\<exists>m \<in> set (GetNodes infos). n_IP m = n_IP n \<and> n_ID m \<noteq> n_ID n")
  case True
  then have "filter (\<lambda>m. if n_IP m = n_IP n \<and> n_ID m \<noteq> n_ID n then True else False) (GetNodes infos) \<noteq> []" by (auto simp: filter_empty_conv)
  with assms have "w' = w" by (auto simp: fix_untrusted_def nodes_by_func_def Let_def)
  then show ?thesis by simp
next
  case False
  then have none: "filter (\<lambda>m. if n_IP m = n_IP n \<and> n_ID m \<noteq> n_ID n then True else False) (GetNodes infos) = []" by (auto simp: filter_empty_conv)
  obtain ex re where chk: "checkIfPodNameExistAndIsReused n (ch_Pods c) = (ex, re)" by (metis surj_pair)
  obtain errs1 w1 where del: "(if ex \<and> \<not> re then case DeletePodByName k (drc_Namespace cluster) (n_PodName n) w of
      (err, w) \<Rightarrow> (case err of Some e \<Rightarrow> errs @ [e] | None \<Rightarrow> errs, w) else (errs, w)) = (errs1, w1)" by (metis surj_pair)
  have "\<exists>cs. hw_calls w1 = hw_calls w @ cs \<and> hw_redis w1 = hw_redis w \<and> (\<forall>x \<in> set cs. may_delete (ch_Pods c) (drc_Namespace cluster) (GetNodes infos) n x)"
  proof (cases "ex \<and> \<not> re")
    case True
    obtain e w2 where d: "DeletePodByName k (drc_Namespace cluster) (n_PodName n) w = (e, w2)" by (metis surj_pair)
    then have "w1 = w2" using del True by simp
    moreover have "\<exists>p \<in> set (ch_Pods c). pod_Name p = n_PodName n" "\<forall>p \<in> set (ch_Pods c). pod_Name p = n_PodName n \<longrightarrow> pod_PodIP p \<noteq> n_IP n"
      using chk True pod_name_loop_spec [of n "ch_Pods c" False] by (auto simp: checkIfPodNameExistAndIsReused_def split: if_splits)
    ultimately show ?thesis using DeletePodByName_spec [OF d] False unfolding may_delete_def by blast
  qed (use del in auto)
  then obtain cs where cs: "hw_calls w1 = hw_calls w @ cs" "hw_redis w1 = hw_redis w" "\<forall>x \<in> set cs. may_delete (ch_Pods c) (drc_Namespace cluster) (GetNodes infos) n x" by blast
  have "fix_untrusted k env c cluster infos i n a errs w = (if \<not> ch_DryRun c then
        (case heal_forget env i w1 of None \<Rightarrow> None | Some (err, w) \<Rightarrow> Some ((True, case err of Some e \<Rightarrow> errs1 @ [e] | None \<Rightarrow> errs1), w))
      else Some ((True, errs1), w1))"
    unfolding fix_untrusted_def nodes_by_func_def Let_def none chk prod.case del by (simp add: IsNodeNotFoundedError_def)
  with assms have "hw_calls w' = hw_calls w1" "ch_DryRun c \<longrightarrow> w' = w1"
    using heal_forget_calls [of env i w1] by (auto split: if_splits option.splits)
  with cs show ?thesis by auto
qed

lemma FixUntrustedNodes_loop_spec:
  "FixUntrustedNodes_loop k env c cluster infos m ids a errs w = Some ((a', errs'), w') \<Longrightarrow>
   \<exists>cs. hw_calls w' = hw_calls w @ cs \<and> (\<forall>x \<in> set cs. \<exists>i \<in> set ids. may_delete (ch_Pods c) (drc_Namespace cluster) (GetNodes infos) (the (m i)) x) \<and>
    (ch_DryRun c \<longrightarrow> hw_redis w' = hw_redis w)"
proof (induction ids arbitrary: a errs w)
  case (Cons i ids)
  from Cons.prems obtain a1 errs1 w1 where f: "fix_untrusted k env c cluster infos i (the (m i)) a errs w = Some ((a1, errs1), w1)"
    and l: "FixUntrustedNodes_loop k env c cluster infos m ids a1 errs1 w1 = Some ((a', errs'), w')" by (auto split: option.splits)
  from fix_untrusted_spec [OF f] Cons.IH [OF l] show ?case
    by (elim exE conjE) (rule_tac x = "cs @ csa" in exI, auto)
qed auto

lemma FixFailedNodes_loop_calls:
  "FixFailedNodes_loop env c ids a errs w = Some ((a', errs'), w') \<Longrightarrow> hw_calls w' = hw_calls w \<and> (ch_DryRun c \<longrightarrow> w' = w) \<and> (a' \<longleftrightarrow> a \<or> ids \<noteq> [])"
  by (induction ids arbitrary: a errs w) (auto split: if_splits option.splits dest: heal_forget_calls)

section \<open>Properties\<close>

text \<open>
  \<^verbatim>\<open>FixTerminatingPods\<close> acts on the overdue pods only: it reports an action exactly if the limit is not
  zero and some pod is overdue; in a dry run (or with no limit) it calls nothing; otherwise every call
  is about an overdue pod, and if no error is reported each overdue pod was fetched and deleted, in
  the order of the list. Redis is never contacted.
\<close>

theorem FixTerminatingPods_spec:
  assumes agg: "\<forall>es. agg es = None \<longleftrightarrow> es = []" and run: "FixTerminatingPods k agg now c cluster d w = ((a, e), w')"
  defines "late \<equiv> filter (overdue now d) (ch_Pods c)" and "ns \<equiv> drc_Namespace cluster"
  shows "hw_redis w' = hw_redis w \<and> (a \<longleftrightarrow> d \<noteq> 0 \<and> late \<noteq> []) \<and>
    (if d = 0 \<or> ch_DryRun c then w' = w \<and> e = None
     else \<exists>cs. hw_calls w' = hw_calls w @ cs \<and> set cs \<subseteq> (\<Union>p \<in> set late. {KGetPod ns (pod_Name p), KDeletePod ns (pod_Name p)}) \<and>
       (e = None \<longrightarrow> cs = concat (map (\<lambda>p. [KGetPod ns (pod_Name p), KDeletePod ns (pod_Name p)]) late)))"
proof (cases "d = 0")
  case True
  with run show ?thesis by (simp add: FixTerminatingPods_def)
next
  case False
  obtain errs where l: "FixTerminatingPods_loop k now c ns d (ch_Pods c) False [] w = ((a, errs), w')" and e: "e = agg errs"
    using run False by (auto simp: FixTerminatingPods_def ns_def split: prod.splits)
  from FixTerminatingPods_loop_spec [OF l] False agg show ?thesis
    unfolding e late_def by (auto simp: filter_empty_conv split: if_splits)
qed

definition agg_all :: "err list \<Rightarrow> err option" where
  "agg_all es = (case es of [] \<Rightarrow> None | _ \<Rightarrow> Some (Errorf ''aggregate'' []))"

text \<open>An API server that knows every object it is asked for and accepts every call.\<close>

definition example_template :: PodTemplate where
  "example_template = \<lparr>pt_Labels = Map.empty, pt_Annotations = Map.empty, pt_ImagePullSecrets = [], pt_Affinity = None, pt_Tolerations = [],
     pt_SecurityContext = None, pt_NodeSelector = Map.empty, pt_TopologySpreadConstraints = [], pt_Containers = [], pt_InitContainers = [],
     pt_Volumes = [], pt_TerminationGracePeriodSeconds = None\<rparr>"

definition example_set :: "string \<Rightarrow> StatefulSet" where
  "example_set name = \<lparr>ss_Name = name, ss_Namespace = ''n'', ss_Labels = Map.empty, ss_OwnerReferences = [], ss_ServiceName = '''', ss_Replicas = 2,
     ss_UpdateStrategy = ''OnDelete'', ss_Selector = Map.empty, ss_Template = example_template, ss_VolumeClaimTemplates = [],
     ss_ReadyReplicas = 2, ss_UpdateRevision = name @ ''-abc''\<rparr>"

definition example_secret :: "string \<Rightarrow> Secret" where
  "example_secret name = \<lparr>sec_Name = name, sec_Namespace = ''ns'', sec_OwnerReferences = [], sec_Data = [''username'' \<mapsto> name, ''password'' \<mapsto> ''pw'', ''acl'' \<mapsto> ''+@all''], sec_ResourceVersion = ''7''\<rparr>"

definition example_kube :: kube where
  "example_kube = \<lparr>k_get_pod = (\<lambda>_ _ _. None), k_delete_pod = (\<lambda>_ _ _. None), k_update_pod = (\<lambda>_ _. None),
     k_list_pods = (\<lambda>_ _ _. Inr []), k_list_sets = (\<lambda>_ _ _. Inr []), k_list_pvcs = (\<lambda>_ _ _. Inr []), k_delete_pvc = (\<lambda>_ _ _. None),
     k_get_set = (\<lambda>_ _ name. Inr (example_set name)),
     k_get = (\<lambda>_ _ _ _. None), k_delete = (\<lambda>_ _ _ _. None), k_update_status = (\<lambda>_ _. None), k_update_cr = (\<lambda>_ _. None),
     k_get_cr = (\<lambda>_ _ _. Inr example_drc), k_get_secret = (\<lambda>_ _ name. Inr (example_secret name)),
     k_get_config = (\<lambda>_ ns name. Inr \<lparr>cm_Name = name, cm_Namespace = ns, cm_Labels = Map.empty, cm_OwnerReferences = [], cm_Data = Map.empty\<rparr>),
     k_create = (\<lambda>_ _. None), k_update = (\<lambda>_ _. None),
     k_get_deployment = (\<lambda>_ _ _. Inl (Errorf ''not found'' [])), k_get_job = (\<lambda>_ _ _. Inl (Errorf ''not found'' [])),
     k_get_backup = (\<lambda>_ _ _. Inl (Errorf ''not found'' [])), k_list_deployments = (\<lambda>_ _ _. Inr []), k_list_jobs = (\<lambda>_ _ _. Inr []),
     k_list_backups = (\<lambda>_ _ _. Inr []), k_update_backup_status = (\<lambda>_ _. None), k_IsNotFound = (\<lambda>_. False), k_IsServiceUnavailable = (\<lambda>_. False),
     k_IsTimeout = (\<lambda>_. False), k_IsServerTimeout = (\<lambda>_. False), k_IsTooManyRequests = (\<lambda>_. False)\<rparr>"

definition example_pod :: "string \<Rightarrow> string \<Rightarrow> int option \<Rightarrow> Pod" where
  "example_pod name ip t = \<lparr>pod_Name = name, pod_Labels = Map.empty, pod_Annotations = Map.empty, pod_DeletionTimestamp = t, pod_OwnerReferences = [], pod_NodeName = ''n1'',
     pod_Ports = [], pod_PodIP = ip, pod_Phase = ''Running''\<rparr>"

definition example_hworld :: hworld where
  "example_hworld = \<lparr>hw_redis = example_world, hw_calls = []\<rparr>"

theorem FixTerminatingPods_spec_witness:
  "\<exists>w'. FixTerminatingPods example_kube agg_all 100 \<lparr>ch_Pods = [example_pod ''p0'' ''1'' (Some 0), example_pod ''p1'' ''2'' None], ch_DryRun = False\<rparr>
      example_drc 60 example_hworld = ((True, None), w') \<and>
     hw_calls w' = [KGetPod (drc_Namespace example_drc) ''p0'', KDeletePod (drc_Namespace example_drc) ''p0'']"
proof -
  define c where "c = \<lparr>ch_Pods = [example_pod ''p0'' ''1'' (Some 0), example_pod ''p1'' ''2'' None], ch_DryRun = False\<rparr>"
  obtain w' where w': "FixTerminatingPods example_kube agg_all 100 c example_drc 60 example_hworld = ((True, None), w')"
    by (simp add: FixTerminatingPods_def c_def example_pod_def DeletePodByName_def GetPod_def example_kube_def agg_all_def)
  have "\<forall>es. agg_all es = None \<longleftrightarrow> es = []" by (auto simp: agg_all_def split: list.splits)
  from FixTerminatingPods_spec [OF this w'] w' show ?thesis
    by (auto simp: c_def example_pod_def overdue_def example_hworld_def)
qed

text \<open>
  \<^verbatim>\<open>FixFailedNodes\<close> forgets a node exactly if the reports about it (one for the flag noaddr, one for the
  flag fail, from each node that lists it) reach half of the pods the specification asks for. So two of
  six servers suffice to have a node forgotten when their entries carry both flags.
\<close>

theorem listGhostNodes_reports:
  "dom (listGhostNodes cluster (Some infos)) = {i. 0 < reports infos i \<and> ghost_threshold cluster \<le> reports infos i} \<and>
   dom (listGhostNodes cluster None) = {}"
proof -
  have "i \<in> dom (listGhostNodes cluster (Some infos)) \<longleftrightarrow> 0 < reports infos i \<and> ghost_threshold cluster \<le> reports infos i" for i
    using listGhostNodes_iff [of cluster infos i] by (metis domIff option.distinct(1))
  moreover have "dom (listGhostNodes cluster None) = {}" by (simp add: listGhostNodes_def)
  ultimately show ?thesis by blast
qed

text \<open>
  C14: \<^verbatim>\<open>Heal\<close> touches pods only for untrusted nodes: every pod it fetches or deletes bears the name of a node
  some server has in handshake, exists, has another address than that node, and no known node
  with another identifier uses the address of that node. In a dry run it sends nothing to redis.
\<close>

theorem Heal_safe:
  assumes run: "Heal k env agg ordf ordu h cluster infos w = Some ((a, e), w')" and ord: "set (ordu (listUntrustedNodes infos)) \<subseteq> dom (listUntrustedNodes infos)"
  shows "\<exists>cs. hw_calls w' = hw_calls w @ cs \<and>
    (\<forall>x \<in> set cs. \<exists>n \<in> ran (listUntrustedNodes infos).
       (x = KGetPod (drc_Namespace cluster) (n_PodName n) \<or> x = KDeletePod (drc_Namespace cluster) (n_PodName n)) \<and>
       (\<exists>p \<in> set (ch_Pods h). pod_Name p = n_PodName n) \<and> (\<forall>p \<in> set (ch_Pods h). pod_Name p = n_PodName n \<longrightarrow> pod_PodIP p \<noteq> n_IP n) \<and>
       (\<forall>i. infos = Some i \<longrightarrow> (\<forall>m \<in> set (GetNodes i). n_IP m = n_IP n \<longrightarrow> n_ID m = n_ID n))) \<and>
    (ch_DryRun h \<longrightarrow> hw_redis w' = hw_redis w)"
proof -
  define inf where "inf = (case infos of Some i \<Rightarrow> i | None \<Rightarrow> NewClusterInfos)"
  obtain a1 errs1 w1 where f: "FixFailedNodes_loop env h (ordf (listGhostNodes cluster infos)) False [] w = Some ((a1, errs1), w1)"
    using run by (auto simp: Heal_def FixFailedNodes_def Let_def split: option.splits)
  note F = FixFailedNodes_loop_calls [OF f]
  show ?thesis
  proof (cases "agg errs1 \<noteq> None \<or> a1")
    case True
    with run f have "w' = w1" by (auto simp: Heal_def FixFailedNodes_def Let_def split: if_splits)
    with F show ?thesis by simp
  next
    case False
    then obtain a2 errs2 where u: "FixUntrustedNodes_loop k env h cluster inf (listUntrustedNodes infos) (ordu (listUntrustedNodes infos)) False [] w1 = Some ((a2, errs2), w')"
      using run f by (auto simp: Heal_def FixFailedNodes_def FixUntrustedNodes_def Let_def inf_def split: option.splits if_splits)
    from FixUntrustedNodes_loop_spec [OF u] obtain cs where cs: "hw_calls w' = hw_calls w1 @ cs"
      "\<forall>x \<in> set cs. \<exists>i \<in> set (ordu (listUntrustedNodes infos)). may_delete (ch_Pods h) (drc_Namespace cluster) (GetNodes inf) (the (listUntrustedNodes infos i)) x"
      "ch_DryRun h \<longrightarrow> hw_redis w' = hw_redis w1" by blast
    have R: "the (listUntrustedNodes infos i) \<in> ran (listUntrustedNodes infos)" if "i \<in> set (ordu (listUntrustedNodes infos))" for i
    proof -
      from ord that obtain n where "listUntrustedNodes infos i = Some n" by blast
      then show ?thesis by (simp add: ranI)
    qed
    have I: "infos = Some i \<Longrightarrow> inf = i" for i by (simp add: inf_def)
    have "\<exists>n \<in> ran (listUntrustedNodes infos).
       (x = KGetPod (drc_Namespace cluster) (n_PodName n) \<or> x = KDeletePod (drc_Namespace cluster) (n_PodName n)) \<and>
       (\<exists>p \<in> set (ch_Pods h). pod_Name p = n_PodName n) \<and> (\<forall>p \<in> set (ch_Pods h). pod_Name p = n_PodName n \<longrightarrow> pod_PodIP p \<noteq> n_IP n) \<and>
       (\<forall>i. infos = Some i \<longrightarrow> (\<forall>m \<in> set (GetNodes i). n_IP m = n_IP n \<longrightarrow> n_ID m = n_ID n))" if "x \<in> set cs" for x
    proof -
      from that cs(2) obtain i where i: "i \<in> set (ordu (listUntrustedNodes infos))"
        and m: "may_delete (ch_Pods h) (drc_Namespace cluster) (GetNodes inf) (the (listUntrustedNodes infos i)) x" by blast
      from m I R [OF i] show ?thesis unfolding may_delete_def by (intro bexI [of _ "the (listUntrustedNodes infos i)"]) auto
    qed
    with cs(1,3) F show ?thesis by auto
  qed
qed

text \<open>A server with a node in handshake whose pod name now belongs to another address.\<close>

definition stale :: node where
  "stale = NewDefaultNode\<lparr>n_ID := ''x'', n_IP := ''9'', n_PodName := ''p0'', n_FailStatus := [NodeStatusHandshake]\<rparr>"

definition stale_infos :: ClusterInfos where
  "stale_infos = NewClusterInfos\<lparr>ci_Infos := [(''1:6379'', \<lparr>ni_Node = NewDefaultNode\<lparr>n_ID := ''a'', n_IP := ''1''\<rparr>, ni_Friends = [stale]\<rparr>)]\<rparr>"

definition dry_heal :: CheckAndHeal where
  "dry_heal = \<lparr>ch_Pods = [example_pod ''p0'' ''1'' None], ch_DryRun = True\<rparr>"

definition map_keys :: "(string \<rightharpoonup> 'v) \<Rightarrow> string list" where
  "map_keys m = sorted_list_of_set (dom m)"

lemma stale_facts:
  "listUntrustedNodes (Some stale_infos) = [''x'' \<mapsto> stale]" "map_keys [''x'' \<mapsto> stale] = [''x'']"
  "listGhostNodes example_drc (Some stale_infos) = Map.empty" "map_keys (Map.empty :: string \<rightharpoonup> bool) = []"
  by (simp_all add: listUntrustedNodes_def stale_infos_def NewClusterInfos_def untrust_def stale_def HasStatus_def map_keys_def listGhostNodes_def ghostNodesDetect_def
      ghost_detect_def NodeStatusHandshake_def NodeStatusNoAddr_def NodeStatusFail_def NewDefaultNode_def)

lemma Heal_dry_run_deletes:
  "Heal example_kube dead_env agg_all map_keys map_keys dry_heal example_drc (Some stale_infos) example_hworld
     = Some ((True, None), example_hworld\<lparr>hw_calls := [KGetPod (drc_Namespace example_drc) ''p0'', KDeletePod (drc_Namespace example_drc) ''p0'']\<rparr>)"
  unfolding Heal_def FixFailedNodes_def FixUntrustedNodes_def Let_def stale_facts
  by (simp add: fix_untrusted_def nodes_by_func_def GetNodes_def stale_infos_def stale_def NewDefaultNode_def checkIfPodNameExistAndIsReused_def dry_heal_def
      example_pod_def DeletePodByName_def GetPod_def example_kube_def agg_all_def example_hworld_def IsNodeNotFoundedError_def)

theorem Heal_safe_witness:
  "\<exists>w' cs. hw_calls (w' :: hworld) = hw_calls example_hworld @ cs \<and> cs \<noteq> [] \<and>
    (\<forall>x \<in> set cs. \<exists>n \<in> ran (listUntrustedNodes (Some stale_infos)).
       (x = KGetPod (drc_Namespace example_drc) (n_PodName n) \<or> x = KDeletePod (drc_Namespace example_drc) (n_PodName n)) \<and>
       (\<exists>p \<in> set (ch_Pods dry_heal). pod_Name p = n_PodName n)) \<and> hw_redis w' = hw_redis example_hworld"
proof -
  have "set (map_keys (listUntrustedNodes (Some stale_infos))) \<subseteq> dom (listUntrustedNodes (Some stale_infos))" by (simp add: stale_facts)
  from Heal_safe [OF Heal_dry_run_deletes this] show ?thesis
    by (elim exE conjE) (rule exI, rule exI, intro conjI, assumption, auto simp: example_hworld_def dry_heal_def)
qed

text \<open>
  \<^verbatim>\<open>buildClustersLists\<close> returns lists that are pairwise disjoint, each the healthy addresses one server
  sees, and the healthy addresses every server sees are one of the lists or meet one. If all servers
  see some common healthy address there is at most one list, and \<^verbatim>\<open>FixClusterSplit\<close> does nothing.
\<close>

theorem buildClustersLists_spec:
  "(\<forall>i < length (buildClustersLists infos). \<forall>j < length (buildClustersLists infos).
      i \<noteq> j \<longrightarrow> set (buildClustersLists infos ! i) \<inter> set (buildClustersLists infos ! j) = {}) \<and>
   set (buildClustersLists infos) \<subseteq> view_addrs ` snd ` set (ci_Infos infos) \<and>
   (\<forall>ni \<in> snd ` set (ci_Infos infos). view_addrs ni \<in> set (buildClustersLists infos) \<or>
      (\<exists>c \<in> set (buildClustersLists infos). set (view_addrs ni) \<inter> set c \<noteq> {})) \<and>
   ((\<exists>addr. \<forall>ni \<in> snd ` set (ci_Infos infos). addr \<in> set (view_addrs ni)) \<longrightarrow>
      length (buildClustersLists infos) \<le> 1 \<and> FixClusterSplit env env' agg c infos w = ((False, None), w))"
proof -
  have "split_ok []" by (simp add: split_ok_def)
  from buildClustersLists_loop_spec [OF this, of "map snd (ci_Infos infos)"]
  have ok: "split_ok (buildClustersLists infos)" and views: "set (buildClustersLists infos) \<subseteq> view_addrs ` snd ` set (ci_Infos infos)"
    and cover: "\<forall>ni \<in> snd ` set (ci_Infos infos). view_addrs ni \<in> set (buildClustersLists infos) \<or> overlaps (view_addrs ni) (buildClustersLists infos)"
    by (auto simp: buildClustersLists_def)
  have one: "length (buildClustersLists infos) \<le> 1" if common: "\<exists>addr. \<forall>ni \<in> snd ` set (ci_Infos infos). addr \<in> set (view_addrs ni)"
  proof (rule ccontr)
    assume "\<not> length (buildClustersLists infos) \<le> 1"
    then have len: "0 < length (buildClustersLists infos)" "1 < length (buildClustersLists infos)" by auto
    from common obtain addr where addr: "\<forall>ni \<in> snd ` set (ci_Infos infos). addr \<in> set (view_addrs ni)" ..
    have "addr \<in> set (buildClustersLists infos ! i)" if "i < length (buildClustersLists infos)" for i
    proof -
      from views nth_mem [OF that] have "buildClustersLists infos ! i \<in> view_addrs ` snd ` set (ci_Infos infos)" by (rule subsetD)
      then obtain ni where "buildClustersLists infos ! i = view_addrs ni" "ni \<in> snd ` set (ci_Infos infos)" by (rule imageE)
      with addr show ?thesis by auto
    qed
    with len have "addr \<in> set (buildClustersLists infos ! 0)" "addr \<in> set (buildClustersLists infos ! 1)" by blast+
    moreover have "set (buildClustersLists infos ! 0) \<inter> set (buildClustersLists infos ! 1) = {}" using ok len unfolding split_ok_def by (meson zero_neq_one)
    ultimately show False by blast
  qed
  then have "FixClusterSplit env env' agg c infos w = ((False, None), w)" if "\<exists>addr. \<forall>ni \<in> snd ` set (ci_Infos infos). addr \<in> set (view_addrs ni)"
    using that by (simp add: FixClusterSplit_def Let_def)
  moreover have "\<forall>ni \<in> snd ` set (ci_Infos infos). view_addrs ni \<in> set (buildClustersLists infos) \<or>
      (\<exists>c \<in> set (buildClustersLists infos). set (view_addrs ni) \<inter> set c \<noteq> {})" using cover unfolding overlaps_iff by blast
  ultimately show ?thesis using ok views one unfolding split_ok_def by blast
qed

theorem buildClustersLists_spec_witness:
  "(\<exists>addr. \<forall>ni \<in> snd ` set (ci_Infos stale_infos). addr \<in> set (view_addrs ni)) \<and>
   length (buildClustersLists stale_infos) \<le> 1 \<and> FixClusterSplit dead_env dead_env agg_all dry_heal stale_infos example_world = ((False, None), example_world)"
proof -
  have "\<exists>addr. \<forall>ni \<in> snd ` set (ci_Infos stale_infos). addr \<in> set (view_addrs ni)"
    by (simp add: stale_infos_def view_addrs_def NewDefaultNode_def)
  with buildClustersLists_spec [of stale_infos dead_env dead_env agg_all dry_heal example_world] show ?thesis by blast
qed

text \<open>
  \<^verbatim>\<open>splitMainCluster\<close> elects the first of the largest clusters and returns the others in their order;
  it elects an empty cluster only if all are empty, and then loses the others.
\<close>

theorem splitMainCluster_spec:
  "case splitMainCluster cs of (main, others) \<Rightarrow>
     (if \<forall>c \<in> set cs. c = [] then main = [] \<and> others = []
      else \<exists>pre post. cs = pre @ main # post \<and> others = pre @ post \<and> main \<noteq> [] \<and>
        (\<forall>c \<in> set pre. length c < length main) \<and> (\<forall>c \<in> set post. length c \<le> length main))"
proof (cases "cs = []")
  case True
  then show ?thesis by (simp add: splitMainCluster_def)
next
  case False
  define r where "r = main_loop cs 0 (- 1) 0"
  have spec: "(r < 0 \<longrightarrow> r = - 1 \<and> (\<forall>c \<in> set cs. c = [])) \<and> (r \<ge> 0 \<longrightarrow> nat r < length cs \<and> cs ! nat r \<noteq> [] \<and>
       (\<forall>c \<in> set cs. length c \<le> length (cs ! nat r)) \<and> (\<forall>j < nat r. length (cs ! j) < length (cs ! nat r)))"
    using main_loop_spec [of "[]" "- 1" "[]" 0 cs] by (simp add: r_def Let_def)
  show ?thesis
  proof (cases "r < 0")
    case True
    with spec have "r = - 1" "\<forall>c \<in> set cs. c = []" by auto
    moreover from this False have "cs ! 0 = []" by simp
    ultimately show ?thesis using False by (simp add: splitMainCluster_def r_def [symmetric])
  next
    case pos: False
    define i where "i = nat r"
    from spec pos have i: "i < length cs" "cs ! i \<noteq> []" "\<forall>c \<in> set cs. length c \<le> length (cs ! i)" "\<forall>j < i. length (cs ! j) < length (cs ! i)"
      by (auto simp: i_def)
    have "splitMainCluster cs = (cs ! i, take i cs @ drop (Suc i) cs)" using False pos by (simp add: splitMainCluster_def r_def [symmetric] i_def)
    moreover have "cs = take i cs @ cs ! i # drop (Suc i) cs" using i(1) by (simp add: Cons_nth_drop_Suc)
    moreover have "\<forall>c \<in> set (take i cs). length c < length (cs ! i)" using i(1,4) by (auto simp: in_set_conv_nth)
    moreover have "\<forall>c \<in> set (drop (Suc i) cs). length c \<le> length (cs ! i)" using i(3) by (meson in_set_dropD)
    moreover have "\<not> (\<forall>c \<in> set cs. c = [])" using i(1,2) nth_mem by blast
    ultimately show ?thesis using i(2) by auto
  qed
qed

theorem splitMainCluster_spec_witness:
  "splitMainCluster [[''a''], [''b'', ''c''], [''d'', ''e'']] = ([''b'', ''c''], [[''a''], [''d'', ''e'']]) \<and>
   (case splitMainCluster [[''a''], [''b'', ''c''], [''d'', ''e'']] of (main, others) \<Rightarrow>
     (if \<forall>c \<in> set [[''a''], [''b'', ''c''], [''d'', ''e'']]. c = [] then main = [] \<and> others = []
      else \<exists>pre post. [[''a''], [''b'', ''c''], [''d'', ''e'']] = pre @ main # post \<and> others = pre @ post \<and> main \<noteq> [] \<and>
        (\<forall>c \<in> set pre. length c < length main) \<and> (\<forall>c \<in> set post. length c \<le> length main)))"
  by (rule conjI, simp add: splitMainCluster_def, rule splitMainCluster_spec)

text \<open>Two of the six servers, each reporting a node with both flags, outvote the other four.\<close>

definition six_pods :: DistributedRedisCluster where
  "six_pods = example_drc\<lparr>drc_Spec := (drc_Spec example_drc)\<lparr>spec_MasterSize := 3, spec_ClusterReplicas := 1\<rparr>\<rparr>"

definition two_reports :: ClusterInfos where
  "two_reports = (let x = NewDefaultNode\<lparr>n_ID := ''x'', n_FailStatus := [NodeStatusFail, NodeStatusNoAddr]\<rparr>;
       view = (\<lambda>ip ns. (ip @ '':6379'', \<lparr>ni_Node = NewDefaultNode\<lparr>n_ID := ip, n_IP := ip\<rparr>, ni_Friends = ns\<rparr>))
     in NewClusterInfos\<lparr>ci_Infos := [view ''1'' [x], view ''2'' [x], view ''3'' [], view ''4'' [], view ''5'' [], view ''6'' []]\<rparr>)"

lemma ghost_by_minority: "listGhostNodes six_pods (Some two_reports) ''x'' = Some True"
  by (simp add: listGhostNodes_iff two_reports_def reports_def node_reports_def HasStatus_def NodeStatusFail_def NodeStatusNoAddr_def NewClusterInfos_def
      ghost_threshold_def six_pods_def half_def wrap_int32_def Let_def)

end
