(* ===== verification/Cluster_Status.thy ===== *)
theory Cluster_Status
  imports Placement_V2 Kube Common_Utils
begin

text \<open>
  The status of a cluster (\<^verbatim>\<open>controllers/distributedrediscluster/status.go\<close>, \<^verbatim>\<open>helper.go\<close>, \<^verbatim>\<open>errors.go\<close> and
  \<^verbatim>\<open>utils/k8sutil/node.go\<close>): what the reconciler writes into the custom resource, whether masters sit
  in the right zones, when a status counts as changed, and the kinds of errors. The Kubernetes client
  is a parameter: \<open>get_node\<close> gives the labels of a machine, \<open>list_nodes\<close> the machines of a zone.
\<close>

section \<open>Setting the status\<close>

type_synonym drc_status = DistributedRedisClusterStatus

definition SetClusterFailed :: "string \<Rightarrow> drc_status \<Rightarrow> drc_status" where
  "SetClusterFailed reason status = status\<lparr>st_Status := ClusterStatusKO, st_Reason := reason\<rparr>"
definition SetClusterOK :: "string \<Rightarrow> drc_status \<Rightarrow> drc_status" where
  "SetClusterOK reason status = status\<lparr>st_Status := ClusterStatusOK, st_Reason := reason\<rparr>"
definition SetClusterNOK :: "string \<Rightarrow> drc_status \<Rightarrow> drc_status" where
  "SetClusterNOK reason status = status\<lparr>st_Status := ClusterStatusNOK, st_Reason := reason\<rparr>"
definition SetClusterRebalancing :: "string \<Rightarrow> drc_status \<Rightarrow> drc_status" where
  "SetClusterRebalancing reason status = status\<lparr>st_Status := ClusterStatusRebalancing, st_Reason := reason\<rparr>"
definition SetClusterScaling :: "string \<Rightarrow> drc_status \<Rightarrow> drc_status" where
  "SetClusterScaling reason status = status\<lparr>st_Status := ClusterStatusScaling, st_Reason := reason\<rparr>"
definition SetClusterUpdating :: "string \<Rightarrow> drc_status \<Rightarrow> drc_status" where
  "SetClusterUpdating reason status = status\<lparr>st_Status := ClusterStatusOnDelete, st_Reason := reason\<rparr>"
definition SetSecretStatus :: "string \<Rightarrow> drc_status \<Rightarrow> drc_status" where
  "SetSecretStatus secretstate status = status\<lparr>st_SecretStatus := secretstate\<rparr>"
definition SetHAStatus :: "HaStatus \<Rightarrow> drc_status \<Rightarrow> drc_status" where
  "SetHAStatus HAstate status = status\<lparr>st_HAStatus := HAstate\<rparr>"
definition SetClusterResetPassword :: "string \<Rightarrow> drc_status \<Rightarrow> drc_status" where
  "SetClusterResetPassword reason status = status\<lparr>st_Status := ClusterStatusResetPassword, st_Reason := reason\<rparr>"

text \<open>The part of a string after its last hyphen, the whole string if there is none.\<close>

definition after_dash :: "string \<Rightarrow> string" where
  "after_dash s = (case LastIndex s (CHR ''-'') of None \<Rightarrow> s | Some i \<Rightarrow> drop (i + 1) s)"

fun fail_reasons :: "string list \<Rightarrow> string list \<Rightarrow> string list" where
  "fail_reasons [] failreason = failreason"
| "fail_reasons (value # values) failreason =
     (if length failreason = 0 then fail_reasons values (failreason @ [after_dash value])
      else
        let foundReason = (\<exists>reason \<in> set failreason. reason = after_dash value)
        in fail_reasons values (if \<not> foundReason then failreason @ [after_dash value] else failreason))"

text \<open>\<open>ord\<close> is the order in which the loop visits the reasons.\<close>

definition CheackandUpdateClusterHealth ::
    "((string \<rightharpoonup> string) \<Rightarrow> string list) \<Rightarrow> drc_status \<Rightarrow> ClusterInfos \<Rightarrow> DistributedRedisCluster \<Rightarrow> bool \<times> drc_status" where
  "CheackandUpdateClusterHealth ord clusterStatus clusterInfos cluster =
     (if ci_Status clusterInfos = ClusterInfosInconsistent
      then (False, SetClusterNOK ''Cluster view is inconsistent'' clusterStatus)
      else if st_MinReplicationFactor clusterStatus < spec_ClusterReplicas (drc_Spec cluster)
      then (False, SetClusterNOK ''Cluster Replication Factor is not met'' clusterStatus)
      else
        let keys = ord (ci_ClusterNokReason clusterInfos) in
        if ci_ClusterState clusterInfos = ''NOK'' \<and> length keys > 0
        then (False, SetClusterNOK (Join '','' (fail_reasons (map (\<lambda>k. the (ci_ClusterNokReason clusterInfos k)) keys) [])) clusterStatus)
        else (True, SetClusterOK ''Cluster is healthy'' clusterStatus))"

section \<open>Zones\<close>

definition zoneLabel :: string where "zoneLabel = ''topology.kubernetes.io/zone''"

definition GetZoneLabel :: "(string \<rightharpoonup> string) option \<Rightarrow> string" where
  "GetZoneLabel node =
     (case node of None \<Rightarrow> ''unknown''
      | Some labels \<Rightarrow> (case labels zoneLabel of Some value \<Rightarrow> value | None \<Rightarrow> ''unknown''))"

definition CheckZoneAvailable :: "(string \<Rightarrow> err + nat) \<Rightarrow> string \<Rightarrow> bool \<times> err option" where
  "CheckZoneAvailable list_nodes zonename =
     (if zonename = '''' then (False, Some (Errorf ''zonename is empty'' []))
      else case list_nodes (TrimSpace zonename) of
             Inl err \<Rightarrow> (False, Some err)
           | Inr n \<Rightarrow> if n > 0 then (True, None) else (False, None))"

fun zones_active :: "(string \<Rightarrow> err + nat) \<Rightarrow> string list \<Rightarrow> int \<Rightarrow> int \<times> err option" where
  "zones_active list_nodes [] activeZones = (activeZones, None)"
| "zones_active list_nodes (zone # zones) activeZones =
     (case CheckZoneAvailable list_nodes zone of
        (_, Some err) \<Rightarrow> (0, Some err)
      | (zoneactive, None) \<Rightarrow> zones_active list_nodes zones (if zoneactive then activeZones + 1 else activeZones))"

text \<open>\<open>None\<close> is the use of a nil HA configuration.\<close>

definition CheckallZonesActive ::
    "(string \<Rightarrow> err + nat) \<Rightarrow> ((string \<rightharpoonup> string) \<Rightarrow> string list) \<Rightarrow> DistributedRedisCluster \<Rightarrow> (bool \<times> int \<times> err option) option" where
  "CheckallZonesActive list_nodes ord cluster =
     (case spec_HaConfig (drc_Spec cluster) of
        None \<Rightarrow> None
      | Some ha \<Rightarrow>
          let zones = ord (ha_ZonesInfo ha) in
          case zones_active list_nodes zones 0 of
            (activeZones, Some err) \<Rightarrow> Some (False, 0, Some err)
          | (activeZones, None) \<Rightarrow>
              Some (if activeZones = int (length zones) then (True, activeZones, None) else (False, activeZones, None)))"

definition getSTSindex :: "string \<Rightarrow> int \<times> err option" where
  "getSTSindex stsName =
     (case LastIndex stsName (CHR ''-'') of
        None \<Rightarrow> (- 1, Some (Errorf ''Unable to find the last index of '-' in %s'' [stsName]))
      | Some lastIndex \<Rightarrow>
          (case ParseInt (drop (lastIndex + 1) stsName) of
             (stsindex, None) \<Rightarrow> (stsindex, None)
           | (_, Some _) \<Rightarrow> (- 1, Some (Errorf ''invalid statefulset index in %s'' [stsName]))))"

text \<open>
  The loop over the masters: the number of well placed masters and the misplaced ones, or the error
  of a set without an index. The outer \<open>None\<close> is the remainder by a zero number of zones.
\<close>

fun ha_masters :: "string list \<Rightarrow> node list \<Rightarrow> int \<Rightarrow> node list \<Rightarrow> (err + int \<times> node list) option" where
  "ha_masters zones [] nb misplaced = Some (Inr (nb, misplaced))"
| "ha_masters zones (node # nodes) nb misplaced =
     (case getSTSindex (n_StatefulSet node) of
        (_, Some err) \<Rightarrow> Some (Inl err)
      | (stsindex, None) \<Rightarrow>
          if length zones = 0 then None
          else
            let zonename = zones ! nat (stsindex mod int (length zones)) in
            if n_Zonename node = zonename then ha_masters zones nodes (nb + 1) misplaced
            else ha_masters zones nodes nb (misplaced @ [node]))"

definition buildHAStatus ::
    "((string \<rightharpoonup> string) \<Rightarrow> string list) \<Rightarrow> ClusterInfos \<Rightarrow> DistributedRedisCluster \<Rightarrow> (HaStatus \<times> node list \<times> err option) option" where
  "buildHAStatus ord clusterInfos cluster =
     (case spec_HaConfig (drc_Spec cluster) of
        None \<Rightarrow> None
      | Some ha \<Rightarrow>
          let zones = sort (ord (ha_ZonesInfo ha));
              masterNodes = filter (\<lambda>node. n_Role node = RedisMasterRole) (GetNodes clusterInfos);
              err = (if length masterNodes = 0 then Some nodeNotFoundedError else None)
          in if err \<noteq> None \<or> int (length masterNodes) \<noteq> spec_MasterSize (drc_Spec cluster)
             then Some (HaStatusFailed, [], err)
             else
               (case ha_masters zones masterNodes 0 [] of
                  None \<Rightarrow> None
                | Some (Inl err) \<Rightarrow> Some (HaStatusFailed, [], Some err)
                | Some (Inr (numMastersHAPlaced, misplacemasters)) \<Rightarrow>
                    if numMastersHAPlaced \<noteq> spec_MasterSize (drc_Spec cluster)
                    then Some (HaStatusRedistribute, misplacemasters, Some (Errorf ''master placement not suitable for cluster ha'' []))
                    else Some (HaStatusHealthy, [], None)))"

section \<open>Building the status\<close>

text \<open>What the loop over the pods carries: the infos (whose nodes it changes), the counters and the nodes so far.\<close>

record building =
  b_infos :: ClusterInfos
  b_nbMaster :: int
  b_nbSlaveByMaster :: "string \<rightharpoonup> int"
  b_Nodes :: "RedisClusterNode list"

text \<open>The change of the one node with the address of the pod, through the pointer the infos share.\<close>

definition change_node :: "string \<Rightarrow> (node \<Rightarrow> node) \<Rightarrow> ClusterInfos \<Rightarrow> ClusterInfos" where
  "change_node ip f infos = infos\<lparr>ci_Infos := map (\<lambda>(addr, ni). (addr, if n_IP (ni_Node ni) = ip then ni\<lparr>ni_Node := f (ni_Node ni)\<rparr> else ni)) (ci_Infos infos)\<rparr>"

definition place_node :: "(string \<Rightarrow> (string \<rightharpoonup> string) option) \<Rightarrow> Pod \<Rightarrow> node \<Rightarrow> node" where
  "place_node get_node pod n =
     n\<lparr>n_NodeName := pod_NodeName pod, n_PodName := pod_Name pod,
       n_Zonename := (case get_node (pod_NodeName pod) of Some labels \<Rightarrow> GetZoneLabel (Some labels) | None \<Rightarrow> ''unknown''),
       n_StatefulSet := (if length (pod_OwnerReferences pod) > 0 \<and> fst (pod_OwnerReferences pod ! 0) = ''StatefulSet''
                         then snd (pod_OwnerReferences pod ! 0) else '''')\<rparr>"

definition api_node :: "(string \<Rightarrow> (string \<rightharpoonup> string) option) \<Rightarrow> Pod \<Rightarrow> node \<Rightarrow> RedisClusterNode" where
  "api_node get_node pod n =
     \<lparr>cn_ID = n_ID n, cn_Role = GetRole n, cn_IP = pod_PodIP pod, cn_Port = n_Port n,
      cn_Slots = (if length (n_Slots n) > 0 then map SlotRange_String (snd (SlotRangesFromSlots (n_Slots n))) else []),
      cn_MasterRef = (if IsSlave n \<and> n_MasterReferent n \<noteq> '''' then n_MasterReferent n else ''''),
      cn_PodName = pod_Name pod, cn_NodeName = pod_NodeName pod, cn_Zonename = n_Zonename (place_node get_node pod n),
      cn_StatefulSet = n_StatefulSet (place_node get_node pod n)\<rparr>"

definition count_node :: "node \<Rightarrow> building \<Rightarrow> building" where
  "count_node n b =
     (let b = (if IsMasterWithSlot n
               then b\<lparr>b_nbSlaveByMaster := (if b_nbSlaveByMaster b (n_ID n) = None then (b_nbSlaveByMaster b)(n_ID n \<mapsto> 0) else b_nbSlaveByMaster b),
                      b_nbMaster := b_nbMaster b + 1\<rparr>
               else b)
      in if IsSlave n \<and> n_MasterReferent n \<noteq> ''''
         then b\<lparr>b_nbSlaveByMaster := (b_nbSlaveByMaster b)(n_MasterReferent n \<mapsto>
                  (case b_nbSlaveByMaster b (n_MasterReferent n) of None \<Rightarrow> 0 | Some c \<Rightarrow> c) + 1)\<rparr>
         else b)"

definition status_pod :: "(string \<Rightarrow> (string \<rightharpoonup> string) option) \<Rightarrow> bool \<Rightarrow> Pod \<Rightarrow> building \<Rightarrow> building" where
  "status_pod get_node updateClusterInfo pod b =
     (case filter (\<lambda>node. n_IP node = pod_PodIP pod) (GetNodes (b_infos b)) of
        [n] \<Rightarrow>
          let n = (if updateClusterInfo then place_node get_node pod n else n);
              b = count_node n b;
              sorted = (if length (n_Slots n) > 0 then n\<lparr>n_Slots := fst (SlotRangesFromSlots (n_Slots n))\<rparr> else n)
          in b\<lparr>b_infos := change_node (pod_PodIP pod) (\<lambda>_. sorted) (b_infos b), b_Nodes := b_Nodes b @ [api_node get_node pod n]\<rparr>
      | _ \<Rightarrow> b)"

fun status_pods :: "(string \<Rightarrow> (string \<rightharpoonup> string) option) \<Rightarrow> bool \<Rightarrow> Pod list \<Rightarrow> building \<Rightarrow> building" where
  "status_pods get_node updateClusterInfo [] b = b"
| "status_pods get_node updateClusterInfo (pod # pods) b = status_pods get_node updateClusterInfo pods (status_pod get_node updateClusterInfo pod b)"

definition MaxInt32 :: int where "MaxInt32 = 2 ^ 31 - 1"

fun replication_factors :: "int list \<Rightarrow> int \<Rightarrow> int \<Rightarrow> int \<times> int" where
  "replication_factors [] mn mx = (mn, mx)"
| "replication_factors (counter # cs) mn mx =
     replication_factors cs (if counter < mn then counter else mn) (if counter > mx then counter else mx)"

definition buildClusterStatus ::
    "(string \<Rightarrow> (string \<rightharpoonup> string) option) \<Rightarrow> ((string \<rightharpoonup> int) \<Rightarrow> string list) \<Rightarrow> ClusterInfos \<Rightarrow> Pod list \<Rightarrow> DistributedRedisCluster \<Rightarrow> bool
       \<Rightarrow> drc_status \<times> ClusterInfos" where
  "buildClusterStatus get_node ord clusterInfos pods cluster updateClusterInfo =
     (let oldStatus = drc_Status cluster;
          b = status_pods get_node updateClusterInfo pods \<lparr>b_infos = clusterInfos, b_nbMaster = 0, b_nbSlaveByMaster = Map.empty, b_Nodes = []\<rparr>;
          keys = ord (b_nbSlaveByMaster b);
          (minReplicationFactor, maxReplicationFactor) = replication_factors (map (\<lambda>k. the (b_nbSlaveByMaster b k)) keys) MaxInt32 0;
          minReplicationFactor = (if length keys = 0 then 0 else minReplicationFactor)
      in (\<lparr>st_Status = st_Status oldStatus, st_HAStatus = st_HAStatus oldStatus, st_SecretStatus = st_SecretStatus oldStatus,
           st_SecretsVer = st_SecretsVer oldStatus, st_Reason = st_Reason oldStatus, st_NumberOfMaster = b_nbMaster b,
           st_MinReplicationFactor = minReplicationFactor, st_MaxReplicationFactor = maxReplicationFactor,
           st_Nodes = b_Nodes b, st_RestorePhase = st_RestorePhase oldStatus\<rparr>, b_infos b))"

section \<open>Comparing statuses\<close>

definition compareNodes :: "RedisClusterNode \<Rightarrow> RedisClusterNode \<Rightarrow> bool" where
  "compareNodes nodeA nodeB =
     (if CompareStringValue (cn_IP nodeA) (cn_IP nodeB) then True
      else if CompareStringValue (cn_MasterRef nodeA) (cn_MasterRef nodeB) then True
      else if CompareStringValue (cn_PodName nodeA) (cn_PodName nodeB) then True
      else if CompareStringValue (cn_Port nodeA) (cn_Port nodeB) then True
      else if cn_Role nodeA \<noteq> cn_Role nodeB then True
      else if length (cn_Slots nodeA) \<noteq> length (cn_Slots nodeB) then True
      else if length (cn_Slots nodeA) \<noteq> 0 \<and> cn_Slots nodeA \<noteq> cn_Slots nodeB then True
      else False)"

text \<open>The inner loop: whether a node with the identifier was found and whether one of them differs.\<close>

fun compare_with :: "RedisClusterNode \<Rightarrow> RedisClusterNode list \<Rightarrow> bool \<Rightarrow> bool \<times> bool" where
  "compare_with nodeA [] found = (found, False)"
| "compare_with nodeA (nodeB # nodes) found =
     (if cn_ID nodeA = cn_ID nodeB then if compareNodes nodeA nodeB then (True, True) else compare_with nodeA nodes True
      else compare_with nodeA nodes found)"

fun compare_all :: "RedisClusterNode list \<Rightarrow> RedisClusterNode list \<Rightarrow> bool" where
  "compare_all [] new = False"
| "compare_all (nodeA # old) new =
     (case compare_with nodeA new False of (found, differ) \<Rightarrow> if differ then True else if \<not> found then True else compare_all old new)"

definition compareStatus :: "drc_status \<Rightarrow> drc_status \<Rightarrow> bool" where
  "compareStatus old new =
     (if CompareStringValue (st_Status old) (st_Status new) then True
      else if CompareStringValue (st_HAStatus old) (st_HAStatus new) then True
      else if CompareStringValue (st_SecretStatus old) (st_SecretStatus new) then True
      else if dom (st_SecretsVer old) = {} then True
      else if CompareStringValue (st_Reason old) (st_Reason new) then True
      else if CompareInt32 (st_NumberOfMaster old) (st_NumberOfMaster new) then True
      else if CompareInt32 (int (length (st_Nodes old))) (int (length (st_Nodes new))) then True
      else if CompareStringValue (st_RestorePhase old) (st_RestorePhase new) then True
      else compare_all (st_Nodes old) (st_Nodes new))"

text \<open>The cluster in memory and, if it is written, the status sent to the API server.\<close>

definition updateClusterIfNeed :: "DistributedRedisCluster \<Rightarrow> drc_status \<Rightarrow> DistributedRedisCluster \<times> drc_status option" where
  "updateClusterIfNeed cluster newStatus =
     (if compareStatus (drc_Status cluster) newStatus then (cluster\<lparr>drc_Status := newStatus\<rparr>, Some newStatus) else (cluster, None))"

section \<open>Helpers of the reconciler\<close>

text \<open>The port named \<^verbatim>\<open>client\<close> of the container \<^verbatim>\<open>redis\<close>, the last one if there are several.\<close>

definition redis_port :: "Pod \<Rightarrow> string" where
  "redis_port pod =
     foldl (\<lambda>redisPort (cname, ports). if cname = ''redis''
              then foldl (\<lambda>redisPort (pname, containerPort). if pname = ''client'' then Itoa containerPort else redisPort) redisPort ports
              else redisPort) DefaultRedisPort (pod_Ports pod)"

definition admin_addrs :: "Pod list \<Rightarrow> string list" where
  "admin_addrs pods = map (\<lambda>pod. JoinHostPort (pod_PodIP pod) (redis_port pod)) pods"

definition newRedisAdmin :: "env \<Rightarrow> Pod list \<Rightarrow> world \<Rightarrow> world" where
  "newRedisAdmin env pods w = NewAdmin env (admin_addrs pods) w"

text \<open>
  \<^verbatim>\<open>newRedisCluster\<close> makes the heap of nodes the clustering code works on: the nodes of the infos, at the
  positions they have in the slice.
\<close>

definition nodes_heap :: "node list \<Rightarrow> heap" where
  "nodes_heap ns = (\<lambda>r. if r < length ns then ns ! r else NewDefaultNode)"

fun newRedisCluster_loop :: "heap \<Rightarrow> Nodes \<Rightarrow> Cluster \<Rightarrow> err + Cluster" where
  "newRedisCluster_loop h [] rCluster = Inr rCluster"
| "newRedisCluster_loop h (r # rs) rCluster =
     (let rCluster = rCluster\<lparr>c_Nodes := (c_Nodes rCluster)(n_ID (h r) \<mapsto> r)\<rparr> in
      if n_Zonename (h r) = '''' \<or> n_Zonename (h r) = ''unknown''
      then Inl (Errorf ''zone label not found in node %s'' [n_NodeName (h r)])
      else newRedisCluster_loop h rs rCluster)"

definition newRedisCluster :: "ClusterInfos \<Rightarrow> DistributedRedisCluster \<Rightarrow> err + heap \<times> Cluster \<times> Nodes" where
  "newRedisCluster infos cluster =
     (let ns = GetNodes infos; h = nodes_heap ns; nodes = [0..<length ns];
          rCluster = (NewCluster (drc_Name cluster) (drc_Namespace cluster))\<lparr>c_HaStatus := st_HAStatus (drc_Status cluster)\<rparr>
      in case newRedisCluster_loop h nodes rCluster of Inl err \<Rightarrow> Inl err | Inr rCluster \<Rightarrow> Inr (h, rCluster, nodes))"

definition clusterPods :: "Pod list \<Rightarrow> Pod list" where
  "clusterPods pods = filter (\<lambda>pod. pod_Phase pod = ''Running'') pods"

definition needClusterOperation :: "DistributedRedisCluster \<Rightarrow> bool" where
  "needClusterOperation cluster =
     (if CompareIntValue (Some (st_NumberOfMaster (drc_Status cluster))) (Some (spec_MasterSize (drc_Spec cluster))) then True
      else if CompareIntValue (Some (st_MinReplicationFactor (drc_Status cluster))) (Some (spec_ClusterReplicas (drc_Spec cluster))) then True
      else if CompareIntValue (Some (st_MaxReplicationFactor (drc_Status cluster))) (Some (spec_ClusterReplicas (drc_Spec cluster))) then True
      else False)"

definition getLabels :: "DistributedRedisCluster \<Rightarrow> (string \<rightharpoonup> string)" where
  "getLabels cluster = MergeLabels [[(LabelManagedByKey, OperatorName)], [(LabelClusterName, drc_Name cluster)], drc_Labels cluster]"

text \<open>The answer \<open>None\<close> of a handler says that the wait is over.\<close>

definition waitPodTerminating_Handler :: "kube \<Rightarrow> DistributedRedisCluster \<Rightarrow> string \<Rightarrow> hworld \<Rightarrow> err option \<times> hworld" where
  "waitPodTerminating_Handler k cluster statefulSet w =
     (let labels = (getLabels cluster)(StatefulSetLabel \<mapsto> statefulSet) in
      case GetStatefulSetPodsByLabels k (drc_Namespace cluster) labels w of
        (Inl err, w) \<Rightarrow> (Some err, w)
      | (Inr podList, w) \<Rightarrow>
          (case find (\<lambda>pod. pod_Phase pod = ''Running'') podList of
             Some pod \<Rightarrow> (Some (Errorf ''[%s] pod still runing'' [pod_Name pod]), w)
           | None \<Rightarrow> (None, w)))"

definition waitStatefulSetUpdating_Handler :: "kube \<Rightarrow> DistributedRedisCluster \<Rightarrow> hworld \<Rightarrow> err option \<times> hworld" where
  "waitStatefulSetUpdating_Handler k cluster w =
     (case ListStatefulSetByLabels k (drc_Namespace cluster) (getLabels cluster) w of
        (Inl err, w) \<Rightarrow> (Some err, w)
      | (Inr stsList, w) \<Rightarrow>
          if \<exists>sts \<in> set stsList. ss_ReadyReplicas sts \<noteq> spec_ClusterReplicas (drc_Spec cluster) + 1 then (None, w)
          else (Some (Errorf ''statefulSet still not updated'' []), w))"

text \<open>The waiting loop: the handler is asked at each of the \<open>ticks\<close> that come before the timeout.\<close>

fun waiting :: "nat \<Rightarrow> string \<Rightarrow> ('w \<Rightarrow> err option \<times> 'w) \<Rightarrow> 'w \<Rightarrow> err option \<times> 'w" where
  "waiting 0 name handler w = (Some (Errorf ''%s timed out'' [name]), w)"
| "waiting (Suc ticks) name handler w =
     (case handler w of (None, w) \<Rightarrow> (None, w) | (Some err, w) \<Rightarrow> waiting ticks name handler w)"

section \<open>Kinds of errors\<close>

datatype ErrorType = NoType | Requeue | Kubernetes | Redis | Cluster_error | StopRetry

text \<open>
  An error of the reconciler. \<open>wrapf\<close> stands for \<^verbatim>\<open>errors.Wrapf\<close> of \<^verbatim>\<open>github.com/pkg/errors\<close>, which
  returns nil for a nil error; a custom error may therefore hold no error at all.
\<close>

datatype rerror = PlainError err | CustomError ErrorType "rerror option"

definition ErrorType_New :: "ErrorType \<Rightarrow> string \<Rightarrow> rerror" where
  "ErrorType_New errorType msg = CustomError errorType (Some (PlainError (Errorf msg [])))"

definition ErrorType_Newf :: "ErrorType \<Rightarrow> string \<Rightarrow> string list \<Rightarrow> rerror" where
  "ErrorType_Newf errorType msg args = CustomError errorType (Some (PlainError (Errorf msg args)))"

definition ErrorType_Wrapf :: "(rerror option \<Rightarrow> string \<Rightarrow> rerror option) \<Rightarrow> ErrorType \<Rightarrow> rerror option \<Rightarrow> string \<Rightarrow> rerror" where
  "ErrorType_Wrapf wrapf errorType err msg = CustomError errorType (wrapf err msg)"

definition ErrorType_Wrap :: "(rerror option \<Rightarrow> string \<Rightarrow> rerror option) \<Rightarrow> ErrorType \<Rightarrow> rerror option \<Rightarrow> string \<Rightarrow> rerror" where
  "ErrorType_Wrap wrapf errorType err msg = ErrorType_Wrapf wrapf errorType err msg"

definition Error_Wrapf :: "(rerror option \<Rightarrow> string \<Rightarrow> rerror option) \<Rightarrow> rerror option \<Rightarrow> string \<Rightarrow> rerror" where
  "Error_Wrapf wrapf err msg =
     (let wrappedError = wrapf err msg in
      case err of
        Some (CustomError errorType _) \<Rightarrow> CustomError errorType wrappedError
      | _ \<Rightarrow> CustomError NoType wrappedError)"

definition GetType :: "rerror option \<Rightarrow> ErrorType" where
  "GetType err = (case err of Some (CustomError errorType _) \<Rightarrow> errorType | _ \<Rightarrow> NoType)"

text \<open>\<^verbatim>\<open>Error()\<close>: \<open>None\<close> is the call of a method on a nil error; \<open>text\<close> gives the message of an error of another type.\<close>

fun Error_text :: "(err \<Rightarrow> string) \<Rightarrow> rerror \<Rightarrow> string option" where
  "Error_text msg (PlainError e) = Some (msg e)"
| "Error_text msg (CustomError errorType None) = None"
| "Error_text msg (CustomError errorType (Some e)) = Error_text msg e"

section \<open>Lemmas\<close>

lemma Itoa_no_dash: "CHR ''-'' \<notin> set (Itoa (int i))"
  using format_nat_no_char [of "CHR ''-''"] by (simp add: Itoa_def is_digit_def)

lemma getSTSindex_name: "i < 2 ^ 63 \<Longrightarrow> getSTSindex (ClusterStatefulSetName n (int i)) = (int i, None)"
proof -
  assume i: "i < 2 ^ 63"
  define pre where "pre = ''drc-'' @ n"
  have name: "ClusterStatefulSetName n (int i) = pre @ CHR ''-'' # Itoa (int i)" by (simp add: ClusterStatefulSetName_def pre_def)
  have "LastIndex (ClusterStatefulSetName n (int i)) (CHR ''-'') = Some (length pre)" unfolding name by (rule LastIndex_append_last [OF Itoa_no_dash])
  moreover have "drop (length pre + 1) (ClusterStatefulSetName n (int i)) = Itoa (int i)" unfolding name by simp
  moreover have "ParseInt (Itoa (int i)) = (int i, None)" by (rule ParseInt_Itoa) (use i in simp_all)
  ultimately show ?thesis by (simp add: getSTSindex_def)
qed

definition well_placed :: "string list \<Rightarrow> node \<Rightarrow> bool" where
  "well_placed zones n \<longleftrightarrow> n_Zonename n = zones ! nat (fst (getSTSindex (n_StatefulSet n)) mod int (length zones))"

lemma ha_masters_spec:
  "zones \<noteq> [] \<Longrightarrow> \<forall>n \<in> set ns. snd (getSTSindex (n_StatefulSet n)) = None \<Longrightarrow>
   ha_masters zones ns k mis = Some (Inr (k + int (length (filter (well_placed zones) ns)), mis @ filter (\<lambda>n. \<not> well_placed zones n) ns))"
  by (induction ns arbitrary: k mis) (auto simp: well_placed_def Let_def split: prod.splits option.splits)

lemma fail_reasons_spec:
  "distinct rs \<Longrightarrow> distinct (fail_reasons vs rs) \<and> set (fail_reasons vs rs) = set rs \<union> after_dash ` set vs"
  by (induction vs arbitrary: rs) (auto simp: Let_def)

section \<open>Counting\<close>

text \<open>The node a pod belongs to, and what of a node the counters depend on.\<close>

definition node_of :: "ClusterInfos \<Rightarrow> Pod \<Rightarrow> node option" where
  "node_of infos p = (case filter (\<lambda>n. n_IP n = pod_PodIP p) (GetNodes infos) of [n] \<Rightarrow> Some n | _ \<Rightarrow> None)"

definition core :: "node \<Rightarrow> string \<times> string \<times> string \<times> string \<times> nat" where
  "core n = (n_IP n, n_ID n, n_Role n, n_MasterReferent n, length (n_Slots n))"

lemma core_eqD:
  assumes "core n = core m"
  shows "n_IP n = n_IP m" "n_ID n = n_ID m" "GetRole n = GetRole m" "n_MasterReferent n = n_MasterReferent m"
    "IsMasterWithSlot n = IsMasterWithSlot m" "IsSlave n = IsSlave m"
proof -
  from assms have c: "n_IP n = n_IP m" "n_ID n = n_ID m" "n_Role n = n_Role m" "n_MasterReferent n = n_MasterReferent m" "length (n_Slots n) = length (n_Slots m)"
    by (simp_all add: core_def)
  then show "n_IP n = n_IP m" "n_ID n = n_ID m" "n_MasterReferent n = n_MasterReferent m" by simp_all
  show r: "GetRole n = GetRole m" unfolding GetRole_def c ..
  show "IsMasterWithSlot n = IsMasterWithSlot m" "IsSlave n = IsSlave m" unfolding IsMasterWithSlot_def IsSlave_def TotalSlots_def r c by simp_all
qed

lemma core_changes [simp]: "core (place_node g p n) = core n" "core (n\<lparr>n_Slots := sort (n_Slots n)\<rparr>) = core n"
  by (simp_all add: core_def place_node_def)

lemma GetNodes_change_node: "GetNodes (change_node ip f infos) = map (\<lambda>n. if n_IP n = ip then f n else n) (GetNodes infos)"
  by (auto simp: GetNodes_def change_node_def)

lemma node_of_core:
  assumes "map core (GetNodes infos) = map core (GetNodes infos')"
  shows "map_option core (node_of infos p) = map_option core (node_of infos' p)"
proof -
  have "map core (filter (\<lambda>n. n_IP n = ip) ns) = filter (\<lambda>c. fst c = ip) (map core ns)" for ns ip
    by (induction ns) (auto simp: core_def)
  with assms have "map core (filter (\<lambda>n. n_IP n = pod_PodIP p) (GetNodes infos)) = map core (filter (\<lambda>n. n_IP n = pod_PodIP p) (GetNodes infos'))" by simp
  then show ?thesis unfolding node_of_def
    by (auto split: list.splits simp: Cons_eq_map_conv)
qed

definition counted :: "(string \<rightharpoonup> int) \<Rightarrow> node list \<Rightarrow> bool" where
  "counted m ns \<longleftrightarrow>
     dom m = n_ID ` {n \<in> set ns. IsMasterWithSlot n} \<union> n_MasterReferent ` {n \<in> set ns. IsSlave n \<and> n_MasterReferent n \<noteq> ''''} \<and>
     (\<forall>i c. m i = Some c \<longrightarrow> c = int (length (filter (\<lambda>n. IsSlave n \<and> n_MasterReferent n \<noteq> '''' \<and> n_MasterReferent n = i) ns)))"

lemma count_node_spec:
  assumes "counted (b_nbSlaveByMaster b) ns" "b_nbMaster b = int (length (filter IsMasterWithSlot ns))"
  shows "counted (b_nbSlaveByMaster (count_node n b)) (ns @ [n])" "b_nbMaster (count_node n b) = int (length (filter IsMasterWithSlot (ns @ [n])))"
    "b_infos (count_node n b) = b_infos b" "b_Nodes (count_node n b) = b_Nodes b"
proof -
  show "b_nbMaster (count_node n b) = int (length (filter IsMasterWithSlot (ns @ [n])))" "b_infos (count_node n b) = b_infos b" "b_Nodes (count_node n b) = b_Nodes b"
    using assms(2) by (auto simp: count_node_def Let_def)
  let ?m = "b_nbSlaveByMaster b"
  define m1 where "m1 = (if IsMasterWithSlot n \<and> ?m (n_ID n) = None then ?m(n_ID n \<mapsto> 0) else ?m)"
  let ?slaves = "\<lambda>i ns. filter (\<lambda>n. IsSlave n \<and> n_MasterReferent n \<noteq> '''' \<and> n_MasterReferent n = i) ns"
  have none: "length (?slaves i ns) = 0" if "?m i = None" for i
  proof -
    from that have "i \<notin> dom ?m" by (simp add: domIff)
    then have "\<forall>x \<in> set ns. \<not> (IsSlave x \<and> n_MasterReferent x \<noteq> '''' \<and> n_MasterReferent x = i)"
      using assms(1) unfolding counted_def by blast
    then show ?thesis by (simp add: filter_empty_conv)
  qed
  have dom1: "dom m1 = (if IsMasterWithSlot n then insert (n_ID n) (dom ?m) else dom ?m)" by (auto simp: m1_def)
  have val1: "\<forall>i c. m1 i = Some c \<longrightarrow> c = int (length (?slaves i ns))"
    using assms(1) none by (auto simp: m1_def counted_def)
  define m2 where "m2 = (if IsSlave n \<and> n_MasterReferent n \<noteq> '''' then m1(n_MasterReferent n \<mapsto>
      (case m1 (n_MasterReferent n) of None \<Rightarrow> 0 | Some c \<Rightarrow> c) + 1) else m1)"
  have m2: "b_nbSlaveByMaster (count_node n b) = m2" by (auto simp: count_node_def m2_def m1_def Let_def)
  have none1: "length (?slaves i ns) = 0" if "m1 i = None" for i
    using that none by (auto simp: m1_def split: if_splits)
  have "dom m2 = n_ID ` {x \<in> set (ns @ [n]). IsMasterWithSlot x} \<union> n_MasterReferent ` {x \<in> set (ns @ [n]). IsSlave x \<and> n_MasterReferent x \<noteq> ''''}"
    using dom1 assms(1) by (auto simp: m2_def counted_def)
  moreover have "\<forall>i c. m2 i = Some c \<longrightarrow> c = int (length (?slaves i (ns @ [n])))"
    using val1 none1 by (auto simp: m2_def split: option.splits if_splits)
  ultimately show "counted (b_nbSlaveByMaster (count_node n b)) (ns @ [n])" unfolding m2 counted_def by blast
qed

lemma SlotRangesFromSlots_sort: "fst (SlotRangesFromSlots slots) = sort slots"
  by (simp add: SlotRangesFromSlots_def Let_def split: prod.splits)

text \<open>What the loop over the pods keeps, for the pods it has seen.\<close>

definition status_inv :: "ClusterInfos \<Rightarrow> Pod list \<Rightarrow> building \<Rightarrow> bool" where
  "status_inv infos pods b \<longleftrightarrow>
     (let ns = map (\<lambda>p. the (node_of infos p)) (filter (\<lambda>p. node_of infos p \<noteq> None) pods) in
      map core (GetNodes (b_infos b)) = map core (GetNodes infos) \<and>
      counted (b_nbSlaveByMaster b) ns \<and> b_nbMaster b = int (length (filter IsMasterWithSlot ns)) \<and>
      map cn_PodName (b_Nodes b) = map pod_Name (filter (\<lambda>p. node_of infos p \<noteq> None) pods) \<and>
      map cn_ID (b_Nodes b) = map n_ID ns \<and> map cn_Role (b_Nodes b) = map GetRole ns)"

lemma count_node_core: "core n = core m \<Longrightarrow> count_node n b = count_node m b"
  unfolding count_node_def Let_def using core_eqD [of n m] by simp

lemma status_pod_eq:
  "status_pod g u p b =
     (case node_of (b_infos b) p of
        None \<Rightarrow> b
      | Some n \<Rightarrow>
          let n' = (if u then place_node g p n else n); sorted = (if length (n_Slots n') > 0 then n'\<lparr>n_Slots := sort (n_Slots n')\<rparr> else n')
          in (count_node n' b)\<lparr>b_infos := change_node (pod_PodIP p) (\<lambda>_. sorted) (b_infos (count_node n' b)),
               b_Nodes := b_Nodes (count_node n' b) @ [api_node g p n']\<rparr>)"
  by (simp add: status_pod_def node_of_def Let_def SlotRangesFromSlots_sort split: list.splits)

lemma change_node_core:
  assumes "node_of infos p = Some n" "core n' = core n"
  shows "map core (GetNodes (change_node (pod_PodIP p) (\<lambda>_. n') infos)) = map core (GetNodes infos)"
proof -
  have "filter (\<lambda>n. n_IP n = pod_PodIP p) (GetNodes infos) = [n]" using assms(1) by (auto simp: node_of_def split: list.splits)
  from arg_cong [OF this, of set] have "{x \<in> set (GetNodes infos). n_IP x = pod_PodIP p} = {n}" by simp
  then have "x = n" if "x \<in> set (GetNodes infos)" "n_IP x = pod_PodIP p" for x using that by blast
  then show ?thesis using assms(2) by (auto simp: GetNodes_change_node)
qed

lemma status_pod_inv:
  assumes inv: "status_inv infos pods b"
  shows "status_inv infos (pods @ [p]) (status_pod g u p b)"
proof (cases "node_of (b_infos b) p")
  case None
  have "map core (GetNodes (b_infos b)) = map core (GetNodes infos)" using inv by (simp add: status_inv_def Let_def)
  from node_of_core [OF this, of p] None have "node_of infos p = None" by simp
  with inv None show ?thesis by (simp add: status_pod_eq status_inv_def Let_def)
next
  case (Some n)
  have cores: "map core (GetNodes (b_infos b)) = map core (GetNodes infos)" using inv by (simp add: status_inv_def Let_def)
  from node_of_core [OF this, of p] Some obtain n0 where n0: "node_of infos p = Some n0" "core n = core n0"
    by (cases "node_of infos p") auto
  define n' where "n' = (if u then place_node g p n else n)"
  define srt where "srt = (if length (n_Slots n') > 0 then n'\<lparr>n_Slots := sort (n_Slots n')\<rparr> else n')"
  have n': "core n' = core n0" "core srt = core n" using n0(2) by (simp_all add: n'_def srt_def)
  define ns where "ns = map (\<lambda>p. the (node_of infos p)) (filter (\<lambda>p. node_of infos p \<noteq> None) pods)"
  have I: "counted (b_nbSlaveByMaster b) ns" "b_nbMaster b = int (length (filter IsMasterWithSlot ns))"
    "map cn_PodName (b_Nodes b) = map pod_Name (filter (\<lambda>p. node_of infos p \<noteq> None) pods)" "map cn_ID (b_Nodes b) = map n_ID ns" "map cn_Role (b_Nodes b) = map GetRole ns"
    using inv by (simp_all add: status_inv_def Let_def ns_def)
  note C = count_node_spec [OF I(1,2), of n0]
  have eq: "status_pod g u p b = (count_node n0 b)\<lparr>b_infos := change_node (pod_PodIP p) (\<lambda>_. srt) (b_infos b), b_Nodes := b_Nodes b @ [api_node g p n']\<rparr>"
    using Some count_node_core [OF n'(1), of b] C(3,4) by (simp add: status_pod_eq n'_def [symmetric] srt_def Let_def)
  have "map (\<lambda>p. the (node_of infos p)) (filter (\<lambda>p. node_of infos p \<noteq> None) (pods @ [p])) = ns @ [n0]" using n0(1) by (simp add: ns_def)
  moreover have "map core (GetNodes (change_node (pod_PodIP p) (\<lambda>_. srt) (b_infos b))) = map core (GetNodes infos)"
    using change_node_core [OF Some n'(2)] cores by simp
  ultimately show ?thesis
    unfolding status_inv_def Let_def using C(1,2) I(3-5) n0(1) core_eqD [OF n'(1)] by (simp add: eq api_node_def)
qed

lemma status_pods_inv: "status_inv infos done b \<Longrightarrow> status_inv infos (done @ pods) (status_pods g u pods b)"
proof (induction pods arbitrary: "done" b)
  case (Cons p pods)
  from Cons.IH [OF status_pod_inv [OF Cons.prems]] show ?case by simp
qed simp

lemma replication_factors_spec:
  "replication_factors cs mn mx = (mn', mx') \<Longrightarrow> mn' \<le> mn \<and> mx \<le> mx' \<and> (\<forall>c \<in> set cs. mn' \<le> c \<and> c \<le> mx') \<and> mn' \<in> insert mn (set cs) \<and> mx' \<in> insert mx (set cs)"
  by (induction cs arbitrary: mn mx) (fastforce split: if_splits)+

text \<open>The pods that belong to exactly one node, and the slaves of a master among them.\<close>

definition known_nodes :: "ClusterInfos \<Rightarrow> Pod list \<Rightarrow> node list" where
  "known_nodes infos pods = map (\<lambda>p. the (node_of infos p)) (filter (\<lambda>p. node_of infos p \<noteq> None) pods)"

definition slaves_in :: "node list \<Rightarrow> string \<Rightarrow> nat" where
  "slaves_in ns i = length (filter (\<lambda>n. IsSlave n \<and> n_MasterReferent n \<noteq> '''' \<and> n_MasterReferent n = i) ns)"

lemma buildClusterStatus_counts:
  fixes infos pods cluster u g
  assumes ord: "\<And>m. finite (dom m) \<Longrightarrow> range_order (ord m) m" and len: "int (length pods) \<le> MaxInt32"
  defines "st \<equiv> fst (buildClusterStatus g ord infos pods cluster u)" and "ns \<equiv> known_nodes infos pods"
  shows "map cn_PodName (st_Nodes st) = map pod_Name (filter (\<lambda>p. node_of infos p \<noteq> None) pods)"
    and "map cn_ID (st_Nodes st) = map n_ID ns" and "map cn_Role (st_Nodes st) = map GetRole ns"
    and "st_NumberOfMaster st = int (length (filter IsMasterWithSlot ns))"
    and "0 \<le> st_MinReplicationFactor st" "st_MinReplicationFactor st \<le> st_MaxReplicationFactor st" "st_MaxReplicationFactor st \<le> int (length pods)"
    and "\<forall>n \<in> set ns. IsMasterWithSlot n \<longrightarrow> st_MinReplicationFactor st \<le> int (slaves_in ns (n_ID n)) \<and> int (slaves_in ns (n_ID n)) \<le> st_MaxReplicationFactor st"
proof -
  define b where "b = status_pods g u pods \<lparr>b_infos = infos, b_nbMaster = 0, b_nbSlaveByMaster = Map.empty, b_Nodes = []\<rparr>"
  have "status_inv infos [] \<lparr>b_infos = infos, b_nbMaster = 0, b_nbSlaveByMaster = Map.empty, b_Nodes = []\<rparr>"
    by (simp add: status_inv_def counted_def)
  from status_pods_inv [OF this, of pods g u] have "status_inv infos pods b" by (simp add: b_def)
  then have inv: "counted (b_nbSlaveByMaster b) ns" "b_nbMaster b = int (length (filter IsMasterWithSlot ns))"
      "map cn_PodName (b_Nodes b) = map pod_Name (filter (\<lambda>p. node_of infos p \<noteq> None) pods)"
      "map cn_ID (b_Nodes b) = map n_ID ns" "map cn_Role (b_Nodes b) = map GetRole ns"
    by (simp_all add: status_inv_def Let_def ns_def known_nodes_def)
  define keys where "keys = ord (b_nbSlaveByMaster b)"
  have "finite (dom (b_nbSlaveByMaster b))" using inv(1) by (simp add: counted_def)
  then have keys: "set keys = dom (b_nbSlaveByMaster b)" using ord by (simp add: keys_def range_order_def)
  obtain mn mx where f: "replication_factors (map (\<lambda>k. the (b_nbSlaveByMaster b k)) keys) MaxInt32 0 = (mn, mx)" by (metis surj_pair)
  note F = replication_factors_spec [OF f]
  have val: "the (b_nbSlaveByMaster b k) = int (slaves_in ns k)" if "k \<in> dom (b_nbSlaveByMaster b)" for k
  proof -
    from that obtain c where "b_nbSlaveByMaster b k = Some c" by blast
    with inv(1) show ?thesis by (simp add: counted_def slaves_in_def)
  qed
  have bound: "int (slaves_in ns k) \<le> int (length pods)" for k
  proof -
    have "slaves_in ns k \<le> length ns" unfolding slaves_in_def by (rule length_filter_le)
    also have "length ns \<le> length pods" unfolding ns_def known_nodes_def by simp
    finally show ?thesis by simp
  qed
  have st: "st_NumberOfMaster st = b_nbMaster b" "st_Nodes st = b_Nodes b" "st_MinReplicationFactor st = (if keys = [] then 0 else mn)" "st_MaxReplicationFactor st = mx"
    by (simp_all add: st_def buildClusterStatus_def b_def [symmetric] keys_def [symmetric] f Let_def)
  show "map cn_PodName (st_Nodes st) = map pod_Name (filter (\<lambda>p. node_of infos p \<noteq> None) pods)" "map cn_ID (st_Nodes st) = map n_ID ns"
    "map cn_Role (st_Nodes st) = map GetRole ns" "st_NumberOfMaster st = int (length (filter IsMasterWithSlot ns))" using inv by (simp_all add: st)
  have vals: "set (map (\<lambda>k. the (b_nbSlaveByMaster b k)) keys) = (\<lambda>k. int (slaves_in ns k)) ` dom (b_nbSlaveByMaster b)" using keys val by auto
  have mx: "0 \<le> mx" "mx \<le> int (length pods)" using F vals bound by auto
  show "st_MaxReplicationFactor st \<le> int (length pods)" using mx by (simp add: st)
  have "0 \<le> mn" using F vals by (auto simp: MaxInt32_def)
  then show "0 \<le> st_MinReplicationFactor st" by (simp add: st)
  show "st_MinReplicationFactor st \<le> st_MaxReplicationFactor st"
  proof (cases keys)
    case (Cons k ks)
    then have "the (b_nbSlaveByMaster b k) \<in> set (map (\<lambda>k. the (b_nbSlaveByMaster b k)) keys)" by simp
    with F Cons show ?thesis by (auto simp: st)
  qed (use mx in \<open>simp add: st\<close>)
  show "\<forall>n \<in> set ns. IsMasterWithSlot n \<longrightarrow> st_MinReplicationFactor st \<le> int (slaves_in ns (n_ID n)) \<and> int (slaves_in ns (n_ID n)) \<le> st_MaxReplicationFactor st"
  proof (intro ballI impI)
    fix n assume "n \<in> set ns" "IsMasterWithSlot n"
    then have d: "n_ID n \<in> dom (b_nbSlaveByMaster b)" using inv(1) unfolding counted_def by blast
    then have "int (slaves_in ns (n_ID n)) \<in> set (map (\<lambda>k. the (b_nbSlaveByMaster b k)) keys)" unfolding vals by blast
    with F have "mn \<le> int (slaves_in ns (n_ID n))" "int (slaves_in ns (n_ID n)) \<le> mx" by auto
    moreover have "keys \<noteq> []" using d keys by auto
    ultimately show "st_MinReplicationFactor st \<le> int (slaves_in ns (n_ID n)) \<and> int (slaves_in ns (n_ID n)) \<le> st_MaxReplicationFactor st" by (simp add: st)
  qed
qed

section \<open>Comparing\<close>

definition node_view :: "RedisClusterNode \<Rightarrow> string \<times> string \<times> string \<times> string \<times> string \<times> RedisRole \<times> string list" where
  "node_view n = (cn_ID n, cn_IP n, cn_MasterRef n, cn_PodName n, cn_Port n, cn_Role n, cn_Slots n)"

lemma compareNodes_iff: "cn_ID a = cn_ID b \<Longrightarrow> compareNodes a b \<longleftrightarrow> node_view a \<noteq> node_view b"
  by (auto simp: compareNodes_def CompareStringValue_def node_view_def)

lemma compare_with_spec:
  "compare_with a ns f = (found, differ) \<Longrightarrow> (differ \<longleftrightarrow> (\<exists>b \<in> set ns. cn_ID b = cn_ID a \<and> node_view b \<noteq> node_view a)) \<and>
   (\<not> differ \<longrightarrow> (found \<longleftrightarrow> f \<or> (\<exists>b \<in> set ns. cn_ID b = cn_ID a)))"
proof (induction ns arbitrary: f)
  case (Cons b ns)
  show ?case
  proof (cases "cn_ID a = cn_ID b")
    case True
    with Cons compareNodes_iff [OF True] show ?thesis by (cases "node_view a = node_view b") auto
  next
    case False
    with Cons show ?thesis by auto
  qed
qed simp

lemma compare_all_iff:
  "\<not> compare_all old new \<longleftrightarrow> (\<forall>a \<in> set old. (\<exists>b \<in> set new. cn_ID b = cn_ID a) \<and> (\<forall>b \<in> set new. cn_ID b = cn_ID a \<longrightarrow> node_view b = node_view a))"
proof (induction old)
  case (Cons a old)
  obtain found differ where c: "compare_with a new False = (found, differ)" by (metis surj_pair)
  from compare_with_spec [OF c] c Cons show ?case by auto
qed simp

lemma distinct_subset_mset:
  assumes "distinct xs" "set xs \<subseteq> set ys" "length xs = length ys"
  shows "mset xs = mset ys"
proof -
  have "mset xs \<subseteq># mset ys"
    using assms(1,2) by (auto simp: subseteq_mset_def distinct_count_atmost_1 count_mset_0_iff intro: Suc_leI)
  moreover have "\<not> mset xs \<subset># mset ys" using assms(3) mset_subset_size [of "mset xs" "mset ys"] by auto
  ultimately show ?thesis by (simp add: subset_mset.less_le)
qed

section \<open>Properties\<close>

text \<open>
  the index \<^verbatim>\<open>getSTSindex\<close> reads from a name is the index \<^verbatim>\<open>ClusterStatefulSetName\<close> wrote into it, for
  every name of a cluster, also one with hyphens.
\<close>

theorem getSTSindex_roundtrip: "i < 2 ^ 63 \<Longrightarrow> getSTSindex (ClusterStatefulSetName name (int i)) = (int i, None)"
  by (rule getSTSindex_name)

theorem getSTSindex_roundtrip_witness: "(7::nat) < 2 ^ 63 \<and> getSTSindex (ClusterStatefulSetName ''my-cluster'' (int 7)) = (int 7, None)"
  using getSTSindex_roundtrip [of 7 "''my-cluster''"] by simp

text \<open>
  C7: what a status means. For a status that \<^verbatim>\<open>buildClusterStatus\<close> computed, the entries are those of the pods
  that belong to exactly one node, in the order of the pods; the number of masters counts the masters with
  slots among them, and the replication factors bound the number of slaves of every such master from
  below and above, with 0 \<open>\<le>\<close> minimum \<open>\<le>\<close> maximum \<open>\<le>\<close> number of pods. So when \<^verbatim>\<open>needClusterOperation\<close> sees no need to act,
  there are as many masters as specified, and each has exactly the specified number of slaves.
\<close>

theorem buildClusterStatus_meaning:
  assumes "\<And>m. finite (dom m) \<Longrightarrow> range_order (ord m) m" and "int (length pods) \<le> MaxInt32"
    and "st = fst (buildClusterStatus g ord infos pods cluster u)" and "ns = known_nodes infos pods"
  shows "map cn_PodName (st_Nodes st) = map pod_Name (filter (\<lambda>p. node_of infos p \<noteq> None) pods) \<and>
    map cn_ID (st_Nodes st) = map n_ID ns \<and> map cn_Role (st_Nodes st) = map GetRole ns \<and>
    st_NumberOfMaster st = int (length (filter IsMasterWithSlot ns)) \<and>
    0 \<le> st_MinReplicationFactor st \<and> st_MinReplicationFactor st \<le> st_MaxReplicationFactor st \<and> st_MaxReplicationFactor st \<le> int (length pods) \<and>
    (\<forall>n \<in> set ns. IsMasterWithSlot n \<longrightarrow> st_MinReplicationFactor st \<le> int (slaves_in ns (n_ID n)) \<and> int (slaves_in ns (n_ID n)) \<le> st_MaxReplicationFactor st) \<and>
    (\<not> needClusterOperation (cluster\<lparr>drc_Status := st\<rparr>) \<longrightarrow>
       int (length (filter IsMasterWithSlot ns)) = spec_MasterSize (drc_Spec cluster) \<and>
       (\<forall>n \<in> set ns. IsMasterWithSlot n \<longrightarrow> int (slaves_in ns (n_ID n)) = spec_ClusterReplicas (drc_Spec cluster)))"
  using buildClusterStatus_counts [where ord = ord and pods = pods and infos = infos and cluster = cluster and u = u and g = g, OF assms(1,2)]
  unfolding assms(3,4) by (auto simp: needClusterOperation_def CompareIntValue_def split: if_splits)

definition keys_of :: "(string \<rightharpoonup> 'v) \<Rightarrow> string list" where
  "keys_of m = sorted_list_of_set (dom m)"

lemma keys_of_ok: "finite (dom m) \<Longrightarrow> range_order (keys_of m) m"
  by (simp add: keys_of_def range_order_def)

definition one_master :: ClusterInfos where
  "one_master = NewClusterInfos\<lparr>ci_Infos := [(''1:6379'', \<lparr>ni_Node = NewDefaultNode\<lparr>n_ID := ''a'', n_IP := ''1'', n_Role := RedisMasterRole, n_Slots := [0],
     n_StatefulSet := ''drc-c-0'', n_Zonename := ''z1''\<rparr>, ni_Friends = []\<rparr>)]\<rparr>"

definition one_pod :: Pod where
  "one_pod = \<lparr>pod_Name = ''p0'', pod_Labels = Map.empty, pod_Annotations = Map.empty, pod_DeletionTimestamp = None, pod_OwnerReferences = [(''StatefulSet'', ''drc-c-0'')], pod_NodeName = ''n1'',
     pod_Ports = [], pod_PodIP = ''1'', pod_Phase = ''Running''\<rparr>"

theorem buildClusterStatus_meaning_witness:
  "\<exists>st ns. st = fst (buildClusterStatus (\<lambda>_. None) keys_of one_master [one_pod] example_drc True) \<and> ns = known_nodes one_master [one_pod] \<and> length ns = 1 \<and>
    map cn_PodName (st_Nodes st) = map pod_Name (filter (\<lambda>p. node_of one_master p \<noteq> None) [one_pod]) \<and>
    st_NumberOfMaster st = int (length (filter IsMasterWithSlot ns)) \<and> st_MinReplicationFactor st \<le> st_MaxReplicationFactor st"
proof -
  have "int (length [one_pod]) \<le> MaxInt32" by (simp add: MaxInt32_def)
  from buildClusterStatus_meaning [OF keys_of_ok this refl refl, where g = "\<lambda>_. None" and infos = one_master and cluster = example_drc and u = True] show ?thesis
    by (simp add: known_nodes_def node_of_def one_master_def one_pod_def GetNodes_def)
qed

text \<open>
  \<^verbatim>\<open>buildHAStatus\<close>, with zones configured and masters of sets with an index, reports failure if the number
  of masters differs from the specification (without an error if there is one master at all), otherwise
  the misplaced masters, in order, and health exactly if there are none.
\<close>

theorem buildHAStatus_spec:
  assumes "spec_HaConfig (drc_Spec cluster) = Some ha" and "ord (ha_ZonesInfo ha) \<noteq> []"
    and "ms = filter (\<lambda>n. n_Role n = RedisMasterRole) (GetNodes infos)" and "\<forall>n \<in> set ms. snd (getSTSindex (n_StatefulSet n)) = None"
    and "mis = filter (\<lambda>n. \<not> well_placed (sort (ord (ha_ZonesInfo ha))) n) ms"
  shows "buildHAStatus ord infos cluster =
    (if ms = [] then Some (HaStatusFailed, [], Some nodeNotFoundedError)
     else if int (length ms) \<noteq> spec_MasterSize (drc_Spec cluster) then Some (HaStatusFailed, [], None)
     else if mis = [] then Some (HaStatusHealthy, [], None)
     else Some (HaStatusRedistribute, mis, Some (Errorf ''master placement not suitable for cluster ha'' [])))"
proof -
  define zones where "zones = sort (ord (ha_ZonesInfo ha))"
  have "zones \<noteq> []" using assms(2) by (metis length_0_conv length_sort zones_def)
  then have "ha_masters zones ms 0 [] = Some (Inr (int (length (filter (well_placed zones) ms)), mis))"
    using ha_masters_spec [OF _ assms(4), of zones 0 "[]"] assms(5) by (simp add: zones_def)
  moreover have "length (filter (well_placed zones) ms) + length mis = length ms"
    unfolding assms(5) zones_def [symmetric] by (rule sum_length_filter_compl)
  then have "int (length (filter (well_placed zones) ms)) = int (length ms) \<longleftrightarrow> mis = []" by (metis add_cancel_left_right length_0_conv of_nat_eq_iff)
  ultimately show ?thesis
    using assms(1) unfolding buildHAStatus_def Let_def zones_def [symmetric] assms(3) [symmetric] by (auto simp: zones_def [symmetric])
qed

definition ha_drc :: DistributedRedisCluster where
  "ha_drc = example_drc\<lparr>drc_Spec := (drc_Spec example_drc)\<lparr>spec_HaConfig := Some \<lparr>ha_HaEnabled = True, ha_ZonesInfo = [''z1'' \<mapsto> '''']\<rparr>, spec_MasterSize := 1\<rparr>\<rparr>"

theorem buildHAStatus_spec_witness:
  "buildHAStatus keys_of one_master ha_drc = Some (HaStatusHealthy, [], None)"
proof -
  have "ClusterStatefulSetName ''c'' (int 0) = ''drc-c-0''" by code_simp
  with getSTSindex_name [of 0 "''c''"] have i: "getSTSindex ''drc-c-0'' = (0, None)" by simp
  have "spec_HaConfig (drc_Spec ha_drc) = Some \<lparr>ha_HaEnabled = True, ha_ZonesInfo = [''z1'' \<mapsto> '''']\<rparr>" by (simp add: ha_drc_def)
  from buildHAStatus_spec [OF this _ refl _ refl, of keys_of one_master] show ?thesis
    by (simp add: keys_of_def one_master_def GetNodes_def i well_placed_def ha_drc_def)
qed

text \<open>
  C23: after a placement with HA being created, \<^verbatim>\<open>buildHAStatus\<close> finds the cluster healthy: if \<^verbatim>\<open>DispatchMasters\<close> succeeded
  on nodes none of which serves slots yet, and the masters the servers then report are one for each
  set, in the zone of the pod that was chosen, no master is misplaced.
\<close>

theorem HA_placement_healthy:
  assumes ord: "\<And>m. finite (dom m) \<Longrightarrow> range_order (co_masters co m) m"
    and ha: "ha_HaEnabled ha" "c_HaStatus cl = HaStatusCreating" "co_zones co (ha_ZonesInfo ha) \<noteq> []"
    and fresh: "\<forall>r \<in> set nodes. \<not> IsMasterWithSlot (h r)"
    and dispatch: "Ctx_DispatchMasters co h (NewCtx h (Some ha) cl nodes n name) = Some (None, c')"
    and spec: "spec_HaConfig (drc_Spec cluster) = Some ha" "spec_MasterSize (drc_Spec cluster) = n" "0 < n" "n < 2 ^ 31"
    and masters: "int (length (filter (\<lambda>x. n_Role x = RedisMasterRole) (GetNodes infos))) = n"
      "\<forall>x \<in> set (filter (\<lambda>x. n_Role x = RedisMasterRole) (GetNodes infos)). \<exists>i < nat n. n_StatefulSet x = ClusterStatefulSetName name (int i) \<and>
         (\<forall>m. x_newMastersBySts c' (ClusterStatefulSetName name (int i)) = Some m \<longrightarrow> n_Zonename x = n_Zonename (h m))"
  shows "buildHAStatus (co_zones co) infos cluster = Some (HaStatusHealthy, [], None)"
proof -
  define c where "c = NewCtx h (Some ha) cl nodes n name"
  define zones where "zones = sort (co_zones co (ha_ZonesInfo ha))"
  define ms where "ms = filter (\<lambda>x. n_Role x = RedisMasterRole) (GetNodes infos)"
  have zones: "zones \<noteq> []" using ha(3) by (metis length_0_conv length_sort zones_def)
  have creating: "ha_creating c" using ha by (simp add: ha_creating_def c_def NewCtx_spec)
  have "ctx_ok co h c" unfolding c_def by (rule NewCtx_ok) (use ha in simp)
  moreover have "placed co h c {}" by (simp add: placed_def c_def NewCtx_spec)
  ultimately obtain e M be where l: "Ctx_DispatchMasters_loop co h [0..<nat n] c = Some (e, chosen c M be)" "e = None \<longrightarrow> placed co h (chosen c M be) ({} \<union> set [0..<nat n])"
    using Ctx_DispatchMasters_loop_spec [OF ord] finite.emptyI by metis
  moreover have "x_expectedMasterNum c = n" by (simp add: c_def NewCtx_spec)
  ultimately have c': "c' = chosen c M be" and pl: "placed co h c' {..<nat n}"
    using dispatch unfolding c_def [symmetric] Ctx_DispatchMasters_def by (auto simp: atLeast0LessThan)
  have sel: "x_clusterName c = name" "x_haconfig c = Some ha" by (simp_all add: c_def NewCtx_spec)
  have ok: "snd (getSTSindex (n_StatefulSet x)) = None \<and> well_placed zones x" if "x \<in> set ms" for x
  proof -
    from masters(2) that obtain i where i: "i < nat n" "n_StatefulSet x = ClusterStatefulSetName name (int i)"
      "\<forall>m. x_newMastersBySts c' (ClusterStatefulSetName name (int i)) = Some m \<longrightarrow> n_Zonename x = n_Zonename (h m)" unfolding ms_def by blast
    from pl i(1) obtain m where m: "x_newMastersBySts c' (ClusterStatefulSetName name (int i)) = Some m" "master_ok co h c i m"
      unfolding placed_def c' by (auto simp: sel)
    have "m \<in> set nodes" using m(2) unfolding master_ok_def Let_def by (auto simp: c_def NewCtx_spec)
    with m(2) fresh creating have "n_Zonename (h m) = zone_of co c i" unfolding master_ok_def Let_def by blast
    moreover have "getSTSindex (n_StatefulSet x) = (int i, None)" unfolding i(2) by (rule getSTSindex_name) (use i(1) spec(4) in simp)
    moreover have "nat (int i mod int (length zones)) = i mod length zones" by (metis nat_int zmod_int)
    ultimately show ?thesis using i(3) m(1) unfolding well_placed_def zone_of_def Let_def sel zones_def option.sel by simp
  qed
  have "filter (\<lambda>n. \<not> well_placed zones n) ms = []" using ok by (simp add: filter_empty_conv)
  moreover have "ms \<noteq> []" using masters(1) spec(3) by (auto simp: ms_def)
  ultimately show ?thesis
    using buildHAStatus_spec [where ord = "co_zones co", OF spec(1) ha(3) ms_def _ refl] ok masters(1) spec(2) unfolding zones_def [symmetric] ms_def [symmetric] by simp
qed

definition zoned :: heap where
  "zoned = two_sets(0 := (two_sets 0)\<lparr>n_Zonename := ''z1''\<rparr>)"

definition creating_cluster :: Cluster where
  "creating_cluster = two_vm_cluster\<lparr>c_HaStatus := HaStatusCreating\<rparr>"

theorem HA_placement_healthy_witness:
  "buildHAStatus (co_zones sorted_ctx) one_master ha_drc = Some (HaStatusHealthy, [], None)"
proof -
  define ha where "ha = \<lparr>ha_HaEnabled = True, ha_ZonesInfo = [''z1'' \<mapsto> '''']\<rparr>"
  have name: "ClusterStatefulSetName ''c'' 0 = ''drc-c-0''" by code_simp
  define c where "c = \<lparr>x_expectedMasterNum = 1, x_clusterName = ''c'', x_cluster = creating_cluster, x_nodes = [''drc-c-0'' \<mapsto> [0]],
     x_currentMasters = [], x_newMastersBySts = Map.empty, x_slavesByMaster = Map.empty, x_bestEffort = False, x_haconfig = Some ha, x_hastatus = HaStatusCreating\<rparr>"
  have c: "NewCtx zoned (Some ha) creating_cluster [0] 1 ''c'' = c"
    by (simp add: NewCtx_def sortRedisNodeByStatefulSet_def c_def zoned_def creating_cluster_def example_defs)
  have d: "Ctx_DispatchMasters sorted_ctx zoned c = Some (None, c\<lparr>x_newMastersBySts := [''drc-c-0'' \<mapsto> 0]\<rparr>)"
    by (simp add: Ctx_DispatchMasters_def dispatch_sts_def place_for_sts_def PlaceMastersHA_def sorted_ctx_def Let_def c_def ha_def zoned_def name example_defs)
  show ?thesis
  proof (rule HA_placement_healthy [OF sorted_ctx_ok(1), where ha = ha and cl = creating_cluster and nodes = "[0]" and h = zoned and n = 1 and name = "''c''", unfolded c, OF _ _ _ _ _ d])
    show "\<forall>x \<in> set (filter (\<lambda>x. n_Role x = RedisMasterRole) (GetNodes one_master)). \<exists>i < nat 1. n_StatefulSet x = ClusterStatefulSetName ''c'' (int i) \<and>
         (\<forall>m. x_newMastersBySts (c\<lparr>x_newMastersBySts := [''drc-c-0'' \<mapsto> 0]\<rparr>) (ClusterStatefulSetName ''c'' (int i)) = Some m \<longrightarrow> n_Zonename x = n_Zonename (zoned m))"
      by (simp add: one_master_def GetNodes_def name zoned_def)
  qed (simp_all add: ha_def sorted_ctx_def creating_cluster_def zoned_def ha_drc_def one_master_def GetNodes_def example_defs)
qed

text \<open>
  \<^verbatim>\<open>updateClusterIfNeed\<close> writes nothing only if the new status has the same phase, reason, HA and secret status, number
  of masters and restore phase and lists the same nodes in some order (identifier, address, master, pod, port, role
  and slots), the old status having distinct identifiers; and it writes nothing when nothing
  changed. A status without secret versions is always written.
\<close>

theorem updateClusterIfNeed_spec:
  assumes "distinct (map cn_ID (st_Nodes (drc_Status cluster)))"
  shows "(snd (updateClusterIfNeed cluster new) = None \<longrightarrow>
     fst (updateClusterIfNeed cluster new) = cluster \<and> st_Status new = st_Status (drc_Status cluster) \<and> st_HAStatus new = st_HAStatus (drc_Status cluster) \<and>
     st_SecretStatus new = st_SecretStatus (drc_Status cluster) \<and> st_Reason new = st_Reason (drc_Status cluster) \<and>
     st_NumberOfMaster new = st_NumberOfMaster (drc_Status cluster) \<and> st_RestorePhase new = st_RestorePhase (drc_Status cluster) \<and>
     mset (map node_view (st_Nodes new)) = mset (map node_view (st_Nodes (drc_Status cluster)))) \<and>
   (snd (updateClusterIfNeed cluster new) \<noteq> None \<longrightarrow> updateClusterIfNeed cluster new = (cluster\<lparr>drc_Status := new\<rparr>, Some new)) \<and>
   (snd (updateClusterIfNeed cluster (drc_Status cluster)) = None \<longleftrightarrow> dom (st_SecretsVer (drc_Status cluster)) \<noteq> {})"
proof -
  define old where "old = drc_Status cluster"
  have nodes: "mset (map node_view (st_Nodes new)) = mset (map node_view (st_Nodes old))"
    if c: "\<not> compare_all (st_Nodes old) (st_Nodes new)" and len: "length (st_Nodes old) = length (st_Nodes new)"
  proof -
    have "map cn_ID (st_Nodes old) = map fst (map node_view (st_Nodes old))" by (simp add: node_view_def)
    then have "distinct (map fst (map node_view (st_Nodes old)))" using assms unfolding old_def by metis
    then have "distinct (map node_view (st_Nodes old))" using distinct_map by blast
    moreover have "set (map node_view (st_Nodes old)) \<subseteq> set (map node_view (st_Nodes new))"
    proof
      fix v assume "v \<in> set (map node_view (st_Nodes old))"
      then obtain a where a: "a \<in> set (st_Nodes old)" "v = node_view a" by auto
      with c obtain b where "b \<in> set (st_Nodes new)" "node_view b = node_view a" unfolding compare_all_iff by metis
      with a(2) show "v \<in> set (map node_view (st_Nodes new))" by (metis image_eqI list.set_map)
    qed
    ultimately show ?thesis using distinct_subset_mset [of "map node_view (st_Nodes old)" "map node_view (st_Nodes new)"] len by simp
  qed
  have "\<not> compare_all (st_Nodes old) (st_Nodes old)"
    unfolding compare_all_iff using assms by (auto simp: old_def distinct_map dest: inj_onD)
  then have refl: "compareStatus old old \<longleftrightarrow> dom (st_SecretsVer old) = {}" by (simp add: compareStatus_def CompareStringValue_def CompareInt32_def)
  show ?thesis
    using nodes refl unfolding old_def updateClusterIfNeed_def
    by (auto simp: compareStatus_def [of _ new] CompareStringValue_def CompareInt32_def split: if_splits)
qed

theorem updateClusterIfNeed_spec_witness:
  "distinct (map cn_ID (st_Nodes (drc_Status example_drc))) \<and>
   (snd (updateClusterIfNeed example_drc (drc_Status example_drc)) = None \<longleftrightarrow> dom (st_SecretsVer (drc_Status example_drc)) \<noteq> {})"
proof -
  have d: "distinct (map cn_ID (st_Nodes (drc_Status example_drc)))" by (simp add: example_drc_def example_status_def)
  from updateClusterIfNeed_spec [OF d, of "drc_Status example_drc"] d show ?thesis by blast
qed

text \<open>
  the kind of an error survives wrapping: \<^verbatim>\<open>GetType\<close> of an error wrapped with a kind is that kind, of one wrapped
  without is the kind it had. Wrapping a nil error with a kind gives an error that is not nil and
  whose \<^verbatim>\<open>Error()\<close> panics.
\<close>

theorem error_kinds:
  assumes "\<And>m. wrapf None m = None"
  shows "GetType (Some (ErrorType_Wrap wrapf t err msg)) = t \<and> GetType (Some (Error_Wrapf wrapf err msg)) = GetType err \<and>
    Error_text txt (ErrorType_Wrap wrapf t None msg) = None"
  using assms by (auto simp: GetType_def ErrorType_Wrap_def ErrorType_Wrapf_def Error_Wrapf_def Let_def split: option.splits rerror.splits)

theorem error_kinds_witness:
  "GetType (Some (ErrorType_Wrap (\<lambda>e m. e) Redis None ''newRedisAdmin'')) = Redis \<and>
   GetType (Some (Error_Wrapf (\<lambda>e m. e) None ''newRedisAdmin'')) = GetType None \<and>
   Error_text (\<lambda>_. '''') (ErrorType_Wrap (\<lambda>e m. e) Redis None ''newRedisAdmin'') = None"
  by (rule error_kinds) simp

end
