(* ===== verification/Go_Sha256.thy ===== *)
theory Go_Sha256
  imports Go_Base
begin

text \<open>
  The digest of \<^verbatim>\<open>crypto/sha256\<close> that the operator puts into access control lists, as FIPS 180-4 defines it: words of
  32 bits, blocks of 64 bytes, and the hexadecimal text \<^verbatim>\<open>%x\<close> prints. A Go string is a sequence of bytes; its
  characters are taken by their codes.
\<close>

unbundle bit_operations_syntax

type_synonym word32 = "32 word"

definition rotr :: "nat \<Rightarrow> word32 \<Rightarrow> word32" where
  "rotr n x = drop_bit n x OR push_bit (32 - n) x"

text \<open>
  The constants are the first 32 bits of the fractional parts of roots of primes: of the cube roots of the first 64 for
  the rounds, of the square roots of the first 8 for the initial state. \<open>root_bits d x b r\<close> finds the lower \<open>b\<close> bits of
  the \<open>d\<close>-th root of \<open>x\<close>; the integer part of the root is cut off by the width of the word.
\<close>

fun root_bits :: "nat \<Rightarrow> int \<Rightarrow> nat \<Rightarrow> int \<Rightarrow> int" where
  "root_bits d x 0 r = r"
| "root_bits d x (Suc b) r = root_bits d x b (if (r + 2 ^ b) ^ d \<le> x then r + 2 ^ b else r)"

definition root_fraction :: "nat \<Rightarrow> int \<Rightarrow> word32" where
  "root_fraction d p = word_of_int (root_bits d (p * 2 ^ (32 * d)) 40 0)"

definition small_primes :: "int list" where
  "small_primes = filter (\<lambda>p. \<forall>d \<in> set [2..p - 1]. p mod d \<noteq> 0) [2..311]"

definition sha_k :: "word32 list" where
  "sha_k = map (root_fraction 3) small_primes"

definition sha_init :: "word32 list" where
  "sha_init = map (root_fraction 2) (take 8 small_primes)"

text \<open>The bytes of a number, most significant byte first.\<close>

fun be_bytes :: "nat \<Rightarrow> int \<Rightarrow> int list" where
  "be_bytes 0 x = []"
| "be_bytes (Suc n) x = be_bytes n (x div 256) @ [x mod 256]"

definition sha_pad :: "int list \<Rightarrow> int list" where
  "sha_pad bs = bs @ 128 # replicate ((119 - length bs mod 64) mod 64) 0 @ be_bytes 8 (8 * int (length bs))"

fun be_words :: "int list \<Rightarrow> word32 list" where
  "be_words (a # b # c # d # bs) = word_of_int (((a * 256 + b) * 256 + c) * 256 + d) # be_words bs"
| "be_words bs = []"

text \<open>The message schedule: each further word from the words 16, 15, 7 and 2 places before it.\<close>

fun sha_schedule :: "nat \<Rightarrow> word32 list \<Rightarrow> word32 list" where
  "sha_schedule 0 ws = ws"
| "sha_schedule (Suc n) ws =
     (let t = length ws; w15 = ws ! (t - 15); w2 = ws ! (t - 2);
          s0 = rotr 7 w15 XOR rotr 18 w15 XOR drop_bit 3 w15;
          s1 = rotr 17 w2 XOR rotr 19 w2 XOR drop_bit 10 w2
      in sha_schedule n (ws @ [ws ! (t - 16) + s0 + ws ! (t - 7) + s1]))"

definition sha_round :: "word32 list \<Rightarrow> word32 \<times> word32 \<Rightarrow> word32 list" where
  "sha_round st kw =
     (let a = st ! 0; b = st ! 1; c = st ! 2; d = st ! 3; e = st ! 4; f = st ! 5; g = st ! 6; h = st ! 7;
          s1 = rotr 6 e XOR rotr 11 e XOR rotr 25 e; ch = (e AND f) XOR (NOT e AND g); t1 = h + s1 + ch + fst kw + snd kw;
          s0 = rotr 2 a XOR rotr 13 a XOR rotr 22 a; maj = (a AND b) XOR (a AND c) XOR (b AND c)
      in [t1 + (s0 + maj), a, b, c, d + t1, e, f, g])"

definition sha_block :: "word32 list \<Rightarrow> word32 list \<Rightarrow> word32 list" where
  "sha_block st ws = map2 (+) st (foldl sha_round st (zip sha_k (sha_schedule 48 ws)))"

fun sha_blocks :: "nat \<Rightarrow> word32 list \<Rightarrow> word32 list \<Rightarrow> word32 list" where
  "sha_blocks 0 st ws = st"
| "sha_blocks (Suc n) st ws = sha_blocks n (sha_block st (take 16 ws)) (drop 16 ws)"

definition hex_digit :: "int \<Rightarrow> char" where
  "hex_digit d = ''0123456789abcdef'' ! nat d"

definition hex_byte :: "int \<Rightarrow> string" where
  "hex_byte b = [hex_digit (b div 16), hex_digit (b mod 16)]"

definition sha256_hex :: "string \<Rightarrow> string" where
  "sha256_hex s =
     (let ws = be_words (sha_pad (map of_char s))
      in concat (map (\<lambda>w. concat (map hex_byte (be_bytes 4 (uint w)))) (sha_blocks (length ws div 16) sha_init ws)))"

section \<open>Lemmas\<close>

lemma be_bytes_range: "b \<in> set (be_bytes n x) \<Longrightarrow> 0 \<le> b \<and> b < 256"
  by (induction n arbitrary: x) auto

lemma hex_digit_ok: "0 \<le> d \<Longrightarrow> d < 16 \<Longrightarrow> hex_digit d \<in> set ''0123456789abcdef''"
  unfolding hex_digit_def by (rule nth_mem) simp

text \<open>A digest is made of hexadecimal digits; in particular it holds no space.\<close>

lemma sha256_hex_digits: "set (sha256_hex s) \<subseteq> set ''0123456789abcdef''"
proof -
  have "set (hex_byte b) \<subseteq> set ''0123456789abcdef''" if "b \<in> set (be_bytes 4 x)" for b x
  proof -
    have "0 \<le> b" "b < 256" using be_bytes_range [OF that] by auto
    then have "hex_digit (b div 16) \<in> set ''0123456789abcdef''" "hex_digit (b mod 16) \<in> set ''0123456789abcdef''"
      by (intro hex_digit_ok; linarith)+
    then show ?thesis unfolding hex_byte_def by (simp only: list.set insert_subset empty_subsetI)
  qed
  then show ?thesis unfolding sha256_hex_def Let_def set_concat set_map by (intro UN_least) (elim imageE, simp only: set_concat set_map, blast)
qed

end
