(* ===== verification/Acl.thy ===== *)
theory Acl
  imports Checker Heal Go_Sha256
begin

text \<open>
  The access control lists of the servers: \<^verbatim>\<open>resources/configmaps/configmap.go\<close>, which makes the configuration and the
  lists from the secrets, \<^verbatim>\<open>resources/statefulsets/helper.go\<close>, which makes the commands that bring running servers up to
  date, and \<^verbatim>\<open>CheckPasswordChanged\<close> of \<^verbatim>\<open>controllers/manager/checker.go\<close>. The digest of a password is \<open>sha256_hex\<close>.
\<close>

section \<open>Strings\<close>

text \<open>
  \<^verbatim>\<open>strings.Split(s, sep)\<close> for a separator that is not empty, and the piece before the first occurrence of a space with
  what follows it, \<^verbatim>\<open>strings.SplitN(s, " ", 2)\<close>. \<open>drop 1 sep\<close> more characters are skipped after a separator.
\<close>

fun split_loop :: "string \<Rightarrow> nat \<Rightarrow> string \<Rightarrow> string \<Rightarrow> string list" where
  "split_loop sep n [] w = [w]"
| "split_loop sep (Suc n) (c # cs) w = split_loop sep n cs w"
| "split_loop sep 0 (c # cs) w =
     (if take (length sep) (c # cs) = sep then w # split_loop sep (length sep - 1) cs []
      else split_loop sep 0 cs (w @ [c]))"

definition SplitStr :: "string \<Rightarrow> string \<Rightarrow> string list" where
  "SplitStr sep s = split_loop sep 0 s []"

definition newline_char :: char where "newline_char = CHR 0x0A"

section \<open>Names and the configuration\<close>

definition RestoreSucceeded :: string where "RestoreSucceeded = ''succeeded''"
definition RedisConfKey :: string where "RedisConfKey = ''redis.conf''"
definition Aclfile :: string where "Aclfile = ''users.acl''"

definition ErrBadInput :: err where "ErrBadInput = ErrConst ''admin-secret-missing''"

text \<open>\<^verbatim>\<open>fmt.Errorf("...: %w", ErrBadInput)\<close> and \<^verbatim>\<open>errors.Is(err, ErrBadInput)\<close>.\<close>

definition bad_input :: err where "bad_input = Errorf ''invalid custom resource: %w'' [''admin-secret-missing'']"

definition is_bad_input :: "err \<Rightarrow> bool" where
  "is_bad_input err \<longleftrightarrow> err = ErrBadInput \<or> err = bad_input"

definition RedisConfigMapName :: "string \<Rightarrow> string" where
  "RedisConfigMapName clusterName = ''redis-cluster-'' @ clusterName"

definition RestoreConfigMapName :: "string \<Rightarrow> string" where
  "RestoreConfigMapName clusterName = ''rediscluster-restore-'' @ clusterName"

definition AclConfigMapName :: "string \<Rightarrow> string" where
  "AclConfigMapName clusterName = ''rediscluster-acl-'' @ clusterName"

text \<open>\<open>ord\<close> is the order in which the loop over the map collects the keys before it sorts them.\<close>

definition conf_line :: "(string \<rightharpoonup> string) \<Rightarrow> string \<Rightarrow> string" where
  "conf_line m k = (let v = the (m k) in if length v = 0 then '''' else k @ '' '' @ v @ [newline_char])"

definition generateRedisConfContent :: "((string \<rightharpoonup> string) \<Rightarrow> string list) \<Rightarrow> (string \<rightharpoonup> string) option \<Rightarrow> string" where
  "generateRedisConfContent ord configMap =
     (let buffer = ''aclfile /acl/'' @ Aclfile @ [newline_char] in
      case configMap of
        None \<Rightarrow> buffer
      | Some m \<Rightarrow> buffer @ concat (map (conf_line m) (sort (ord m))))"

definition fixIPContent :: string where
  \<open>fixIPContent = Join [newline_char]
     [''#!/bin/sh'', ''CLUSTER_CONFIG="/data/nodes.conf"'', ''if [ -f ${CLUSTER_CONFIG} ]; then'', ''    if [ -z "${POD_IP}" ]; then'',
      ''    echo "Unable to determine Pod IP address!"'', ''    exit 1'', ''    fi'', ''    echo "Updating my IP to ${POD_IP} in ${CLUSTER_CONFIG}"'',
      ''    sed -i.bak -e "/myself/ s/ .*:6379@16379/ ${POD_IP}:6379@16379/" ${CLUSTER_CONFIG}'', ''fi'', ''exec "$@"'']\<close>

definition NewConfigMapForCR ::
    "((string \<rightharpoonup> string) \<Rightarrow> string list) \<Rightarrow> DistributedRedisCluster \<Rightarrow> (string \<rightharpoonup> string) \<Rightarrow> ConfigMap" where
  "NewConfigMapForCR ord cluster labels =
     \<lparr>cm_Name = RedisConfigMapName (drc_Name cluster), cm_Namespace = drc_Namespace cluster, cm_Labels = labels,
      cm_OwnerReferences = DefaultOwnerReferences cluster,
      cm_Data = [''fix-ip.sh'' \<mapsto> fixIPContent, RedisConfKey \<mapsto> generateRedisConfContent ord (spec_Config (drc_Spec cluster))]\<rparr>"

definition NewConfigMapForRestore :: "DistributedRedisCluster \<Rightarrow> (string \<rightharpoonup> string) \<Rightarrow> ConfigMap" where
  "NewConfigMapForRestore cluster labels =
     \<lparr>cm_Name = RestoreConfigMapName (drc_Name cluster), cm_Namespace = drc_Namespace cluster, cm_Labels = labels,
      cm_OwnerReferences = DefaultOwnerReferences cluster, cm_Data = [RestoreSucceeded \<mapsto> Itoa 0]\<rparr>"

section \<open>Access control lists from secrets\<close>

definition GetHashedPassword :: "string \<Rightarrow> string" where
  "GetHashedPassword password = sha256_hex password"

text \<open>A missing key of a map of strings reads as the empty string.\<close>

definition key_at :: "(string \<rightharpoonup> string) \<Rightarrow> string \<Rightarrow> string" where
  "key_at m key = (case m key of None \<Rightarrow> '''' | Some v \<Rightarrow> v)"

definition GetAcldataFromSecrets ::
    "kube \<Rightarrow> DistributedRedisCluster \<Rightarrow> string \<Rightarrow> hworld \<Rightarrow> ((string \<rightharpoonup> string) \<times> string \<times> err option) \<times> hworld" where
  "GetAcldataFromSecrets k cluster secretname w =
     (case GetSecret k (drc_Namespace cluster) secretname w of
        (Inl err, w) \<Rightarrow> ((Map.empty, '''', Some err), w)
      | (Inr secret, w) \<Rightarrow>
          let d = key_at (sec_Data secret) in
          if length (d ''username'') = 0 \<or> length (d ''password'') = 0 \<or> length (d ''acl'') = 0
          then ((Map.empty, sec_ResourceVersion secret, Some (Errorf ''secret has missing data'' [])), w)
          else (([''username'' \<mapsto> TrimSpace (d ''username''), ''password'' \<mapsto> TrimSpace (d ''password''), ''acl'' \<mapsto> TrimSpace (d ''acl'')],
                 sec_ResourceVersion secret, None), w))"

definition GetAclStringFromSecrets ::
    "kube \<Rightarrow> DistributedRedisCluster \<Rightarrow> string \<Rightarrow> hworld \<Rightarrow> (string \<times> string \<times> err option) \<times> hworld" where
  "GetAclStringFromSecrets k cluster secretname w =
     (case GetAcldataFromSecrets k cluster secretname w of
        ((_, _, Some err), w) \<Rightarrow> (('''', '''', Some err), w)
      | ((aclsecret, versionId, None), w) \<Rightarrow>
          ((''user '' @ key_at aclsecret ''username'' @ '' on '' @ key_at aclsecret ''acl'' @ '' #'' @ GetHashedPassword (key_at aclsecret ''password''),
            versionId, None), w))"

text \<open>One secret: its line goes into the buffer and its version into the map.\<close>

definition add_secret ::
    "kube \<Rightarrow> DistributedRedisCluster \<Rightarrow> string \<Rightarrow> string \<times> (string \<rightharpoonup> string) \<Rightarrow> hworld \<Rightarrow> ((string \<times> (string \<rightharpoonup> string)) \<times> err option) \<times> hworld" where
  "add_secret k cluster name = (\<lambda>(buffer, secretversion) w.
     case GetAclStringFromSecrets k cluster name w of
       ((_, _, Some err), w) \<Rightarrow> (((buffer, secretversion), Some err), w)
     | ((acldata, versionID, None), w) \<Rightarrow> (((buffer @ acldata @ [newline_char], secretversion(name \<mapsto> versionID)), None), w))"

fun add_secrets ::
    "kube \<Rightarrow> DistributedRedisCluster \<Rightarrow> string list \<Rightarrow> string \<times> (string \<rightharpoonup> string) \<Rightarrow> hworld \<Rightarrow> ((string \<times> (string \<rightharpoonup> string)) \<times> err option) \<times> hworld" where
  "add_secrets k cluster [] acc w = ((acc, None), w)"
| "add_secrets k cluster (ref # refs) acc w =
     (case add_secret k cluster ref acc w of
        ((acc, Some err), w) \<Rightarrow> ((acc, Some err), w)
      | ((acc, None), w) \<Rightarrow> add_secrets k cluster refs acc w)"

definition add_default ::
    "kube \<Rightarrow> DistributedRedisCluster \<Rightarrow> string \<times> (string \<rightharpoonup> string) \<Rightarrow> hworld \<Rightarrow> ((string \<times> (string \<rightharpoonup> string)) \<times> err option) \<times> hworld" where
  "add_default k cluster = (\<lambda>(buffer, secretversion) w.
     case spec_DefaultSecret (drc_Spec cluster) of
       None \<Rightarrow> (((buffer @ ''user default on ~* +@all -@dangerous >defaultpwd'' @ [newline_char], secretversion(''default-secret'' \<mapsto> ''default'')), None), w)
     | Some name \<Rightarrow> add_secret k cluster name (buffer, secretversion) w)"

text \<open>The text is empty when there is an error; the versions are those read so far.\<close>

definition GenerateAclconf ::
    "kube \<Rightarrow> DistributedRedisCluster \<Rightarrow> hworld \<Rightarrow> (string \<times> (string \<rightharpoonup> string) \<times> err option) \<times> hworld" where
  "GenerateAclconf k cluster w =
     (case spec_AdminSecret (drc_Spec cluster) of
        None \<Rightarrow> (('''', Map.empty, Some bad_input), w)
      | Some admin \<Rightarrow>
          (case add_secret k cluster admin ('''', Map.empty) w of
             ((acc, Some err), w) \<Rightarrow> (('''', snd acc, Some err), w)
           | ((acc, None), w) \<Rightarrow>
               (case add_default k cluster acc w of
                  ((acc, Some err), w) \<Rightarrow> (('''', snd acc, Some err), w)
                | ((acc, None), w) \<Rightarrow>
                    (case add_secrets k cluster (spec_AdditionalSecret (drc_Spec cluster)) acc w of
                       ((acc, Some err), w) \<Rightarrow> (('''', snd acc, Some err), w)
                     | ((acc, None), w) \<Rightarrow> ((fst acc, snd acc, None), w)))))"

definition NewACLConfigMap ::
    "kube \<Rightarrow> DistributedRedisCluster \<Rightarrow> (string \<rightharpoonup> string) \<Rightarrow> hworld \<Rightarrow> (ConfigMap option \<times> (string \<rightharpoonup> string) \<times> err option \<times> bool) \<times> hworld" where
  "NewACLConfigMap k cluster labels w =
     (case GenerateAclconf k cluster w of
        ((_, secretversion, Some err), w) \<Rightarrow> ((None, secretversion, Some err, is_bad_input err), w)
      | ((aclfileContent, secretversion, None), w) \<Rightarrow>
          ((Some \<lparr>cm_Name = AclConfigMapName (drc_Name cluster), cm_Namespace = drc_Namespace cluster, cm_Labels = labels,
              cm_OwnerReferences = DefaultOwnerReferences cluster, cm_Data = [Aclfile \<mapsto> aclfileContent]\<rparr>, secretversion, None, False), w))"

text \<open>\<^verbatim>\<open>Getsecretversions\<close> reads the same secrets for their versions only.\<close>

definition add_version ::
    "kube \<Rightarrow> DistributedRedisCluster \<Rightarrow> string \<Rightarrow> (string \<rightharpoonup> string) \<Rightarrow> hworld \<Rightarrow> ((string \<rightharpoonup> string) \<times> err option) \<times> hworld" where
  "add_version k cluster name secretversion w =
     (case GetAclStringFromSecrets k cluster name w of
        ((_, _, Some err), w) \<Rightarrow> ((secretversion, Some err), w)
      | ((_, versionID, None), w) \<Rightarrow> ((secretversion(name \<mapsto> versionID), None), w))"

fun add_versions ::
    "kube \<Rightarrow> DistributedRedisCluster \<Rightarrow> string list \<Rightarrow> (string \<rightharpoonup> string) \<Rightarrow> hworld \<Rightarrow> ((string \<rightharpoonup> string) \<times> err option) \<times> hworld" where
  "add_versions k cluster [] secretversion w = ((secretversion, None), w)"
| "add_versions k cluster (ref # refs) secretversion w =
     (case add_version k cluster ref secretversion w of
        ((v, Some err), w) \<Rightarrow> ((v, Some err), w)
      | ((v, None), w) \<Rightarrow> add_versions k cluster refs v w)"

definition Getsecretversions :: "kube \<Rightarrow> DistributedRedisCluster \<Rightarrow> hworld \<Rightarrow> ((string \<rightharpoonup> string) \<times> err option) \<times> hworld" where
  "Getsecretversions k cluster w =
     (case spec_AdminSecret (drc_Spec cluster) of
        None \<Rightarrow> ((Map.empty, Some (Errorf ''invalid custom resource - admin secret missing'' [])), w)
      | Some admin \<Rightarrow>
          (case add_version k cluster admin Map.empty w of
             ((v, Some err), w) \<Rightarrow> ((v, Some err), w)
           | ((v, None), w) \<Rightarrow>
               (case (case spec_DefaultSecret (drc_Spec cluster) of
                        None \<Rightarrow> ((v(''default-secret'' \<mapsto> ''default''), None), w)
                      | Some name \<Rightarrow> add_version k cluster name v w) of
                  ((v, Some err), w) \<Rightarrow> ((v, Some err), w)
                | ((v, None), w) \<Rightarrow> add_versions k cluster (spec_AdditionalSecret (drc_Spec cluster)) v w)))"

section \<open>Commands for running servers\<close>

definition getAdminPassword :: "string \<Rightarrow> EnvVar list \<Rightarrow> string" where
  "getAdminPassword key envSet =
     (case find (\<lambda>value. key = env_Name value \<and> length (env_Value value) \<noteq> 0) envSet of Some value \<Rightarrow> env_Value value | None \<Rightarrow> '''')"

definition GetRedisClusterAdminPassword :: "kube \<Rightarrow> DistributedRedisCluster \<Rightarrow> hworld \<Rightarrow> (string \<times> err option) \<times> hworld" where
  "GetRedisClusterAdminPassword k cluster w =
     (case spec_AdminSecret (drc_Spec cluster) of
        None \<Rightarrow> (('''', None), w)
      | Some name \<Rightarrow>
          (case GetSecret k (drc_Namespace cluster) name w of
             (Inl err, w) \<Rightarrow> (('''', Some err), w)
           | (Inr secret, w) \<Rightarrow> ((key_at (sec_Data secret) ''password'', None), w)))"

definition parse_acl_line :: "(string \<rightharpoonup> string) \<Rightarrow> string \<Rightarrow> (string \<rightharpoonup> string)" where
  "parse_acl_line data line =
     (let fields = Fields (TrimSpace line) in
      if length fields \<ge> 3 \<and> fields ! 0 = ''user'' then
        if fields ! 1 \<noteq> ''admin'' then data(fields ! 1 \<mapsto> Join '' '' (drop 1 fields)) else data
      else data)"

definition parseAclInput :: "string \<Rightarrow> (string \<rightharpoonup> string)" where
  "parseAclInput input = foldl parse_acl_line Map.empty (Split newline_char input)"

definition acl_user :: "string \<Rightarrow> string" where
  "acl_user key = last (SplitStr ''--'' key)"

definition set_command :: "(string \<rightharpoonup> string) \<Rightarrow> (string \<rightharpoonup> string) \<Rightarrow> (string \<rightharpoonup> string) \<Rightarrow> (string \<rightharpoonup> string) \<Rightarrow> string \<Rightarrow> (string \<rightharpoonup> string)" where
  "set_command newacldata existingsecretver newsecretver cmds key =
     (case existingsecretver key of
        None \<Rightarrow> cmds(key \<mapsto> ''acl setuser '' @ key_at newacldata (acl_user key))
      | Some map1Value \<Rightarrow>
          if map1Value \<noteq> key_at newsecretver key then cmds(key \<mapsto> ''acl setuser '' @ key_at newacldata (acl_user key)) else cmds)"

definition del_command :: "(string \<rightharpoonup> string) \<Rightarrow> (string \<rightharpoonup> string) \<Rightarrow> string \<Rightarrow> (string \<rightharpoonup> string)" where
  "del_command newsecretver cmds key =
     (case newsecretver key of None \<Rightarrow> cmds(key \<mapsto> ''acl deluser '' @ acl_user key) | Some _ \<Rightarrow> cmds)"

text \<open>\<open>ord\<close> gives the order of the loops over the maps of versions.\<close>

definition GenerateAclcommands ::
    "((string \<rightharpoonup> string) \<Rightarrow> string list) \<Rightarrow> DistributedRedisCluster \<Rightarrow> string \<Rightarrow> (string \<rightharpoonup> string) \<Rightarrow> (string \<rightharpoonup> string) \<times> err option" where
  "GenerateAclcommands ord cluster newaclconf newsecretver =
     (let existingsecretver = st_SecretsVer (drc_Status cluster) in
      if length (ord existingsecretver) = 0 then (Map.empty, Some (Errorf ''secrets version map invalid in status'' []))
      else if length newaclconf = 0 then (Map.empty, Some (Errorf ''invalid new secrets'' []))
      else
        let newacldata = parseAclInput newaclconf;
            cmds = foldl (set_command newacldata existingsecretver newsecretver) Map.empty (ord newsecretver);
            cmds = foldl (del_command newsecretver) cmds (ord existingsecretver)
        in if length (ord cmds) = 0 then (Map.empty, Some (Errorf ''unexpected error when trying to create acl comands'' []))
           else (cmds, None))"

text \<open>\<^verbatim>\<open>IsdiffAclConfigs\<close> repeats \<^verbatim>\<open>IsdiffAclVerions\<close>.\<close>

definition IsdiffAclConfigs :: "((string \<rightharpoonup> string) \<Rightarrow> string list) \<Rightarrow> (string \<rightharpoonup> string) \<Rightarrow> (string \<rightharpoonup> string) \<Rightarrow> bool" where
  "IsdiffAclConfigs ord curr_map check_map =
     (if \<exists>key \<in> set (ord curr_map). check_map key = None then True
      else if \<exists>key \<in> set (ord check_map). curr_map key = None then True
      else if \<exists>key \<in> set (ord curr_map). (case check_map key of Some map2Value \<Rightarrow> curr_map key \<noteq> Some map2Value | None \<Rightarrow> False) then True
      else False)"

section \<open>Noticing a change\<close>

text \<open>
  The error of \<^verbatim>\<open>GetConfigMap\<close> is kept unless the map is missing; it is also what is returned when the secrets cannot
  be read.
\<close>

definition CheckPasswordChanged ::
    "kube \<Rightarrow> ((string \<rightharpoonup> string) \<Rightarrow> string list) \<Rightarrow> DistributedRedisCluster \<Rightarrow> hworld \<Rightarrow> (bool \<times> string \<times> (string \<rightharpoonup> string) \<times> err option) \<times> hworld" where
  "CheckPasswordChanged k ord cluster w =
     (case GetConfigMap k (drc_Namespace cluster) (AclConfigMapName (drc_Name cluster)) w of
        (res, w) \<Rightarrow>
          let err = (case res of Inl err \<Rightarrow> Some err | Inr _ \<Rightarrow> None) in
          if (case err of Some e \<Rightarrow> k_IsNotFound k e | None \<Rightarrow> False) then ((False, '''', Map.empty, err), w)
          else if length (ord (st_SecretsVer (drc_Status cluster))) = 0 then ((False, '''', Map.empty, err), w)
          else
            (case GenerateAclconf k cluster w of
               ((acldata_new, secretversion, Some err2), w) \<Rightarrow> ((False, '''', secretversion, err), w)
             | ((acldata_new, secretversion, None), w) \<Rightarrow>
                 ((IsdiffAclVerions ord (st_SecretsVer (drc_Status cluster)) secretversion, acldata_new, secretversion, None), w)))"

section \<open>Lemmas\<close>

lemma fields_loop_word: "\<forall>c \<in> set s. \<not> is_space c \<Longrightarrow> fields_loop s w = (if w @ s = [] then [] else [w @ s])"
  by (induction s arbitrary: w) auto

lemma fields_loop_space: "is_space c \<Longrightarrow> fields_loop (s @ c # t) w = fields_loop s w @ fields_loop t []"
  by (induction s arbitrary: w) auto

lemma Fields_word: "w \<noteq> '''' \<Longrightarrow> \<forall>c \<in> set w. \<not> is_space c \<Longrightarrow> Fields w = [w]"
  by (simp add: Fields_def fields_loop_word)

lemma Fields_space: "is_space c \<Longrightarrow> Fields (s @ c # t) = Fields s @ Fields t"
  by (simp add: Fields_def fields_loop_space)

lemma fields_loop_spaces: "\<forall>c \<in> set s. is_space c \<Longrightarrow> fields_loop (t @ s) w = fields_loop t w"
proof (induction t arbitrary: w)
  case Nil
  have "\<forall>c \<in> set s. is_space c \<Longrightarrow> fields_loop s [] = []" for s by (induction s) auto
  with Nil show ?case by (cases s) auto
qed auto

lemma Fields_TrimSpace: "Fields (TrimSpace s) = Fields s"
proof -
  have left: "Fields (dropWhile is_space s) = Fields s" for s by (induction s) (auto simp: Fields_def)
  have right: "Fields (rev (dropWhile is_space (rev s))) = Fields s" for s
  proof -
    have s: "s = rev (dropWhile is_space (rev s)) @ rev (takeWhile is_space (rev s))"
      by (metis rev_append rev_rev_ident takeWhile_dropWhile_id)
    have "\<forall>c \<in> set (rev (takeWhile is_space (rev s))). is_space c" by (auto dest: set_takeWhileD)
    from fields_loop_spaces [OF this, of "rev (dropWhile is_space (rev s))" "[]"] s show ?thesis by (simp add: Fields_def)
  qed
  show ?thesis unfolding TrimSpace_def right left ..
qed

lemma sha256_no_space: "c \<in> set (sha256_hex s) \<Longrightarrow> \<not> is_space c"
proof -
  assume "c \<in> set (sha256_hex s)"
  with sha256_hex_digits [of s] have "c \<in> set ''0123456789abcdef''" by blast
  then show ?thesis by (auto simp: is_space_def)
qed

subsection \<open>Lines\<close>

text \<open>The line of a user, and the rule the servers are told for it.\<close>

definition acl_line :: "string \<Rightarrow> string \<Rightarrow> string \<Rightarrow> string" where
  "acl_line u a p = ''user '' @ u @ '' on '' @ a @ '' #'' @ sha256_hex p"

definition acl_rule :: "string \<Rightarrow> string \<Rightarrow> string \<Rightarrow> string" where
  "acl_rule u a p = Join '' '' (u # ''on'' # Fields a @ [CHR ''#'' # sha256_hex p])"

lemma acl_line_fields:
  assumes "u \<noteq> ''''" and "\<forall>c \<in> set u. \<not> is_space c"
  shows "Fields (acl_line u a p) = ''user'' # u # ''on'' # Fields a @ [CHR ''#'' # sha256_hex p]"
proof -
  have sp: "is_space (CHR '' '')" by (simp add: is_space_def)
  have h: "Fields (CHR ''#'' # sha256_hex p) = [CHR ''#'' # sha256_hex p]"
    by (rule Fields_word) (auto dest: sha256_no_space, simp add: is_space_def)
  have w: "Fields ''user'' = [''user'']" "Fields ''on'' = [''on'']" by code_simp+
  have "acl_line u a p = ''user'' @ CHR '' '' # (u @ CHR '' '' # (''on'' @ CHR '' '' # (a @ CHR '' '' # (CHR ''#'' # sha256_hex p))))"
    by (simp add: acl_line_def)
  then have "Fields (acl_line u a p) = Fields (''user'' @ CHR '' '' # (u @ CHR '' '' # (''on'' @ CHR '' '' # (a @ CHR '' '' # (CHR ''#'' # sha256_hex p)))))"
    by (rule arg_cong)
  also have "\<dots> = [''user''] @ [u] @ [''on''] @ Fields a @ [CHR ''#'' # sha256_hex p]"
    by (simp only: Fields_space [OF sp] h w Fields_word [OF assms])
  finally show ?thesis by simp
qed

lemma parse_acl_line_user:
  assumes "u \<noteq> ''''" and "\<forall>c \<in> set u. \<not> is_space c"
  shows "parse_acl_line data (acl_line u a p) = (if u = ''admin'' then data else data(u \<mapsto> acl_rule u a p))"
  by (simp add: parse_acl_line_def Fields_TrimSpace acl_line_fields [OF assms] acl_rule_def Let_def)

lemma parse_acl_line_empty: "parse_acl_line data '''' = data"
  by (simp add: parse_acl_line_def TrimSpace_def Fields_def)

lemma parse_admin: "parseAclInput input ''admin'' = None"
proof -
  have "data ''admin'' = None \<Longrightarrow> foldl parse_acl_line data ls ''admin'' = None" for data ls
    by (induction ls arbitrary: data) (auto simp: parse_acl_line_def Let_def)
  then show ?thesis by (simp add: parseAclInput_def)
qed

lemma split_lines:
  "\<forall>l \<in> set ls. c \<notin> set l \<Longrightarrow> Split c (concat (map (\<lambda>l. l @ [c]) ls)) = ls @ [[]]"
  by (induction ls) (simp_all add: Split_append_sep)

subsection \<open>Reading secrets\<close>

text \<open>What the operator takes from a secret.\<close>

definition secret_user :: "Secret \<Rightarrow> string" where "secret_user s = TrimSpace (key_at (sec_Data s) ''username'')"
definition secret_acl :: "Secret \<Rightarrow> string" where "secret_acl s = TrimSpace (key_at (sec_Data s) ''acl'')"
definition secret_password :: "Secret \<Rightarrow> string" where "secret_password s = TrimSpace (key_at (sec_Data s) ''password'')"

definition secret_line :: "Secret \<Rightarrow> string" where
  "secret_line s = acl_line (secret_user s) (secret_acl s) (secret_password s)"

lemma add_secret_ok:
  assumes "add_secret k cluster name acc w = ((acc', None), w')" and "\<forall>h name. k_get_secret k h (drc_Namespace cluster) name = get name"
  shows "\<exists>s. get name = Inr s \<and> acc' = (fst acc @ secret_line s @ [newline_char], (snd acc)(name \<mapsto> sec_ResourceVersion s))"
proof (cases "get name")
  case (Inl e)
  with assms have False by (cases acc) (simp add: add_secret_def GetAclStringFromSecrets_def GetAcldataFromSecrets_def GetSecret_def)
  then show ?thesis ..
next
  case (Inr s)
  with assms have "acc' = (fst acc @ secret_line s @ [newline_char], (snd acc)(name \<mapsto> sec_ResourceVersion s))"
    by (cases acc) (auto simp: add_secret_def GetAclStringFromSecrets_def GetAcldataFromSecrets_def GetSecret_def Let_def secret_line_def
        acl_line_def secret_user_def secret_acl_def secret_password_def GetHashedPassword_def key_at_def split: if_splits)
  with Inr show ?thesis by blast
qed

text \<open>The secrets read one after the other.\<close>

definition read_secrets :: "(string \<Rightarrow> err + Secret) \<Rightarrow> string list \<Rightarrow> string \<times> (string \<rightharpoonup> string) \<Rightarrow> string \<times> (string \<rightharpoonup> string) \<Rightarrow> bool" where
  "read_secrets get names acc acc' \<longleftrightarrow>
     (\<exists>ss. map get names = map Inr ss \<and> fst acc' = fst acc @ concat (map (\<lambda>l. l @ [newline_char]) (map secret_line ss)) \<and>
           snd acc' = snd acc ++ map_of (rev (zip names (map sec_ResourceVersion ss))))"

lemma read_secrets_Nil: "read_secrets get [] acc acc"
  by (simp add: read_secrets_def)

lemma read_secrets_Cons:
  assumes "get name = Inr s" and "read_secrets get names acc1 acc'" and "acc1 = (fst acc @ secret_line s @ [newline_char], (snd acc)(name \<mapsto> sec_ResourceVersion s))"
  shows "read_secrets get (name # names) acc acc'"
proof -
  from assms(2) [unfolded assms(3)] obtain ss where ss: "map get names = map Inr ss"
    "fst acc' = (fst acc @ secret_line s @ [newline_char]) @ concat (map (\<lambda>l. l @ [newline_char]) (map secret_line ss))"
    "snd acc' = (snd acc)(name \<mapsto> sec_ResourceVersion s) ++ map_of (rev (zip names (map sec_ResourceVersion ss)))"
    by (auto simp: read_secrets_def)
  then show ?thesis unfolding read_secrets_def using assms(1) by (intro exI [of _ "s # ss"]) (auto simp: map_add_def fun_eq_iff split: option.split)
qed

lemma add_secrets_ok:
  "add_secrets k cluster names acc w = ((acc', None), w') \<Longrightarrow> \<forall>h name. k_get_secret k h (drc_Namespace cluster) name = get name \<Longrightarrow>
   read_secrets get names acc acc'"
proof (induction names arbitrary: acc w)
  case Nil
  then show ?case by (simp add: read_secrets_Nil)
next
  case (Cons name names)
  then obtain acc1 w1 where one: "add_secret k cluster name acc w = ((acc1, None), w1)" and rest: "add_secrets k cluster names acc1 w1 = ((acc', None), w')"
    by (auto split: prod.splits option.splits)
  from add_secret_ok [OF one Cons.prems(2)] obtain s where s: "get name = Inr s"
    "acc1 = (fst acc @ secret_line s @ [newline_char], (snd acc)(name \<mapsto> sec_ResourceVersion s))" by blast
  show ?case by (rule read_secrets_Cons [OF s(1) Cons.IH [OF rest Cons.prems(2)] s(2)])
qed

lemma GenerateAclconf_ok:
  assumes "GenerateAclconf k cluster w = ((conf, vers, None), w')" and get: "\<forall>h name. k_get_secret k h (drc_Namespace cluster) name = get name"
    and secrets: "spec_AdminSecret (drc_Spec cluster) = Some a" "spec_DefaultSecret (drc_Spec cluster) = Some d"
  shows "read_secrets get (a # d # spec_AdditionalSecret (drc_Spec cluster)) ('''', Map.empty) (conf, vers)"
proof -
  define e :: "string \<times> (string \<rightharpoonup> string)" where "e = ('''', Map.empty)"
  from assms(1) secrets obtain acc1 w1 acc2 w2 where one: "add_secret k cluster a e w = ((acc1, None), w1)"
    and two: "add_secret k cluster d acc1 w1 = ((acc2, None), w2)"
    and rest: "add_secrets k cluster (spec_AdditionalSecret (drc_Spec cluster)) acc2 w2 = (((conf, vers), None), w')"
    by (auto simp: e_def GenerateAclconf_def add_default_def split: prod.splits option.splits)
  have rest: "read_secrets get (spec_AdditionalSecret (drc_Spec cluster)) acc2 (conf, vers)" by (rule add_secrets_ok [OF rest get])
  from add_secret_ok [OF one get] obtain s where s: "get a = Inr s"
    "acc1 = (fst e @ secret_line s @ [newline_char], (snd e)(a \<mapsto> sec_ResourceVersion s))" by (elim exE conjE) (rule that)
  from add_secret_ok [OF two get] obtain t where t: "get d = Inr t"
    "acc2 = (fst acc1 @ secret_line t @ [newline_char], (snd acc1)(d \<mapsto> sec_ResourceVersion t))" by (elim exE conjE) (rule that)
  show ?thesis unfolding e_def [symmetric] by (rule read_secrets_Cons [OF s(1) read_secrets_Cons [OF t(1) rest t(2)] s(2)])
qed

subsection \<open>Commands\<close>

lemma set_commands:
  "foldl (set_command d old new) cmds ks key =
     (if key \<in> set ks \<and> old key \<noteq> Some (key_at new key) then Some (''acl setuser '' @ key_at d (acl_user key)) else cmds key)"
  by (induction ks arbitrary: cmds) (auto simp: set_command_def split: option.split)

lemma del_commands:
  "foldl (del_command new) cmds ks key =
     (if key \<in> set ks \<and> new key = None then Some (''acl deluser '' @ acl_user key) else cmds key)"
  by (induction ks arbitrary: cmds) (auto simp: del_command_def split: option.split)

text \<open>The commands for the secrets whose version changed.\<close>

definition acl_commands :: "(string \<rightharpoonup> string) \<Rightarrow> (string \<rightharpoonup> string) \<Rightarrow> (string \<rightharpoonup> string) \<Rightarrow> string \<rightharpoonup> string" where
  "acl_commands rules old new key =
     (if old key = new key then None
      else if new key = None then Some (''acl deluser '' @ acl_user key)
      else Some (''acl setuser '' @ key_at rules (acl_user key)))"

lemma acl_commands_None: "acl_commands rules old new key = None \<longleftrightarrow> old key = new key"
  by (simp add: acl_commands_def)

lemma commands_eq:
  assumes "set ks = dom old" and "set ks' = dom new"
  shows "foldl (del_command new) (foldl (set_command d old new) Map.empty ks') ks = acl_commands d old new"
  using assms by (auto simp: fun_eq_iff set_commands del_commands acl_commands_def key_at_def split: option.splits)

lemma finite_commands: "finite (dom old) \<Longrightarrow> finite (dom new) \<Longrightarrow> finite (dom (acl_commands d old new))"
  by (rule finite_subset [of _ "dom old \<union> dom new"]) (auto simp: acl_commands_def split: if_splits)

lemma add_secret_finite: "finite (dom (snd acc)) \<Longrightarrow> finite (dom (snd (fst (fst (add_secret k cluster name acc w)))))"
  by (cases acc) (auto simp: add_secret_def split: prod.split option.split)

lemma add_secrets_finite: "finite (dom (snd acc)) \<Longrightarrow> finite (dom (snd (fst (fst (add_secrets k cluster names acc w)))))"
proof (induction names arbitrary: acc w)
  case (Cons name names)
  from add_secret_finite [OF Cons.prems, of k cluster name w] show ?case
    by (auto split: prod.splits option.splits intro: Cons.IH [of "(_, _)", simplified])
qed simp

lemma add_secret_nonempty: "add_secret k cluster name acc w = ((acc', None), w') \<Longrightarrow> fst acc' \<noteq> ''''"
  by (cases acc) (auto simp: add_secret_def split: prod.splits option.splits)

lemma add_secrets_nonempty: "add_secrets k cluster names acc w = ((acc', None), w') \<Longrightarrow> fst acc \<noteq> '''' \<Longrightarrow> fst acc' \<noteq> ''''"
  by (induction names arbitrary: acc w) (auto split: prod.splits option.splits dest: add_secret_nonempty)

lemma add_default_ok:
  assumes "add_default k cluster acc w = ((acc', None), w')" and "finite (dom (snd acc))"
  shows "fst acc' \<noteq> '''' \<and> finite (dom (snd acc'))"
proof (cases "spec_DefaultSecret (drc_Spec cluster)")
  case None
  with assms show ?thesis by (cases acc) (auto simp: add_default_def)
next
  case (Some name)
  with assms(1) have step: "add_secret k cluster name acc w = ((acc', None), w')" by (cases acc) (simp add: add_default_def)
  from add_secret_finite [OF assms(2), of k cluster name w] add_secret_nonempty [OF step] show ?thesis unfolding step by simp
qed

lemma GenerateAclconf_facts:
  assumes "GenerateAclconf k cluster w = ((conf, vers, None), w')"
  shows "conf \<noteq> ''''" and "finite (dom vers)"
proof -
  from assms obtain a acc1 w1 acc2 w2 where one: "add_secret k cluster a ('''', Map.empty) w = ((acc1, None), w1)"
    and two: "add_default k cluster acc1 w1 = ((acc2, None), w2)"
    and rest: "add_secrets k cluster (spec_AdditionalSecret (drc_Spec cluster)) acc2 w2 = (((conf, vers), None), w')"
    by (auto simp: GenerateAclconf_def split: prod.splits option.splits)
  have "finite (dom (snd acc1))" using add_secret_finite [of "('''', Map.empty)" k cluster a w] one by simp
  note acc2 = add_default_ok [OF two this]
  show "conf \<noteq> ''''" using add_secrets_nonempty [OF rest conjunct1 [OF acc2]] by simp
  show "finite (dom vers)" using add_secrets_finite [OF conjunct2 [OF acc2], of k cluster _ w2] rest by (metis fst_conv snd_conv)
qed

lemma IsdiffAclVerions_same: "range_order (ord m) m \<Longrightarrow> \<not> IsdiffAclVerions ord m m"
  by (auto simp: IsdiffAclVerions_def range_order_def split: option.splits)

lemma parse_lines:
  assumes "\<forall>s \<in> set ss. secret_user s \<noteq> '''' \<and> (\<forall>c \<in> set (secret_user s). \<not> is_space c) \<and> newline_char \<notin> set (secret_acl s)"
  shows "parseAclInput (concat (map (\<lambda>l. l @ [newline_char]) (map secret_line ss))) =
    foldl (\<lambda>data s. if secret_user s = ''admin'' then data else data(secret_user s \<mapsto> acl_rule (secret_user s) (secret_acl s) (secret_password s))) Map.empty ss"
proof -
  have nl: "is_space newline_char" by (simp add: newline_char_def is_space_def)
  have "newline_char \<notin> set (secret_line s)" if "s \<in> set ss" for s
  proof -
    have "newline_char \<notin> set (secret_user s)" "newline_char \<notin> set (secret_acl s)" "newline_char \<notin> set (sha256_hex (secret_password s))"
      using assms that nl sha256_no_space by blast+
    moreover have "newline_char \<notin> set ''user on #''" by (simp add: newline_char_def)
    ultimately show ?thesis by (auto simp: secret_line_def acl_line_def)
  qed
  then have split: "Split newline_char (concat (map (\<lambda>l. l @ [newline_char]) (map secret_line ss))) = map secret_line ss @ ['''']"
    by (intro split_lines) auto
  have "foldl parse_acl_line data (map secret_line ss) =
    foldl (\<lambda>data s. if secret_user s = ''admin'' then data else data(secret_user s \<mapsto> acl_rule (secret_user s) (secret_acl s) (secret_password s))) data ss" for data
    using assms by (induction ss arbitrary: data) (simp_all add: secret_line_def parse_acl_line_user)
  then show ?thesis unfolding parseAclInput_def split by (simp add: parse_acl_line_empty)
qed

lemma foldl_user:
  "\<forall>s \<in> set ss. \<forall>t \<in> set ss. u s = u t \<longrightarrow> s = t \<Longrightarrow> s \<in> set ss \<Longrightarrow> u s \<noteq> x \<Longrightarrow>
   foldl (\<lambda>data s. if u s = x then data else data(u s \<mapsto> r s)) D ss (u s) = Some (r s)"
proof (induction ss rule: rev_induct)
  case (snoc t ss)
  show ?case
  proof (cases "t = s")
    case True
    with snoc.prems(3) show ?thesis by simp
  next
    case False
    with snoc.prems have "s \<in> set ss" "u t \<noteq> u s" by auto
    with snoc show ?thesis by simp
  qed
qed simp

subsection \<open>After a change\<close>

lemma changed_commands:
  assumes ord: "\<forall>m. finite (dom m) \<longrightarrow> range_order (ord m) m" and old: "old = st_SecretsVer (drc_Status cluster)" "finite (dom old)"
    and change: "CheckPasswordChanged k ord cluster w = ((True, conf, vers, err), w')"
  shows "err = None" and "old \<noteq> vers" and "finite (dom vers)" and "GenerateAclcommands ord cluster conf vers = (acl_commands (parseAclInput conf) old vers, None)"
proof -
  from change obtain w1 where gen: "GenerateAclconf k cluster w1 = ((conf, vers, None), w')" and err: "err = None"
    and diff: "IsdiffAclVerions ord old vers" and nonempty: "length (ord old) \<noteq> 0"
    unfolding CheckPasswordChanged_def Let_def old(1) by (auto split: prod.splits if_splits option.splits)
  note facts = GenerateAclconf_facts [OF gen]
  show "finite (dom vers)" by (rule facts(2))
  show "err = None" by (rule err)
  have o: "range_order (ord old) old" "range_order (ord vers) vers" using ord old(2) facts(2) by blast+
  show "old \<noteq> vers" using diff IsdiffAclVerions_same [of ord, OF o(1)] by auto
  from this obtain key where "acl_commands (parseAclInput conf) old vers key \<noteq> None" unfolding acl_commands_None by blast
  moreover have "range_order (ord (acl_commands (parseAclInput conf) old vers)) (acl_commands (parseAclInput conf) old vers)"
    using ord finite_commands [OF old(2) facts(2)] by blast
  ultimately have ne: "ord (acl_commands (parseAclInput conf) old vers) \<noteq> []" by (auto simp: range_order_def)
  have "foldl (del_command vers) (foldl (set_command (parseAclInput conf) old vers) Map.empty (ord vers)) (ord old) = acl_commands (parseAclInput conf) old vers"
    using o by (intro commands_eq) (simp_all add: range_order_def)
  then show "GenerateAclcommands ord cluster conf vers = (acl_commands (parseAclInput conf) old vers, None)"
    using facts(1) nonempty ne unfolding GenerateAclcommands_def Let_def old(1) by simp
qed

lemma GenerateAclconf_redis: "hw_redis (snd (GenerateAclconf k cluster w)) = hw_redis w"
proof -
  have one: "hw_redis (snd (add_secret k cluster n acc w)) = hw_redis w" for n acc w
    by (cases acc) (simp add: add_secret_def GetAclStringFromSecrets_def GetAcldataFromSecrets_def GetSecret_def Let_def split: prod.split sum.split option.split)
  have two: "hw_redis (snd (add_secrets k cluster ns acc w)) = hw_redis w" for ns acc w
    by (induction ns arbitrary: acc w) (auto split: prod.split option.split, metis one snd_conv, metis one snd_conv)
  have def_: "hw_redis (snd (add_default k cluster acc w)) = hw_redis w" for acc w
    by (cases acc) (simp add: add_default_def one split: option.split)
  show ?thesis unfolding GenerateAclconf_def
    by (auto split: prod.split option.split) (metis one two def_ snd_conv)+
qed

lemma CheckPasswordChanged_redis: "hw_redis (snd (CheckPasswordChanged k ord cluster w)) = hw_redis w"
proof -
  have "hw_redis w1 = hw_redis w" if "GenerateAclconf k cluster (call c w) = (x, w1)" for c x w1
    using GenerateAclconf_redis [of k cluster "call c w"] that by simp
  then show ?thesis unfolding CheckPasswordChanged_def Let_def GetConfigMap_def by (auto split: prod.split option.split sum.split)
qed

section \<open>Properties\<close>

text \<open>
  C30: What the operator tells running servers about changed secrets. When \<^verbatim>\<open>CheckPasswordChanged\<close> reports a change, with
  a list and the versions of the secrets, there was no error, and \<^verbatim>\<open>GenerateAclcommands\<close> makes a command for exactly
  the secrets whose version differs: the deletion of the user of a secret that is gone, and the rule of the list for a
  user whose secret is new or changed, whatever the order of the loops. The rule of the administrator is not in the list:
  for a secret whose name ends in \<^verbatim>\<open>--admin\<close> the command is an \<^verbatim>\<open>acl setuser\<close> without a user.
\<close>

theorem acl_change_commands:
  assumes ord: "\<forall>m. finite (dom m) \<longrightarrow> range_order (ord m) m" and old: "old = st_SecretsVer (drc_Status cluster)" "finite (dom old)"
    and change: "CheckPasswordChanged k ord cluster w = ((True, conf, vers, err), w')"
  shows "err = None \<and> old \<noteq> vers \<and> GenerateAclcommands ord cluster conf vers = (acl_commands (parseAclInput conf) old vers, None) \<and>
    (\<forall>key v. acl_user key = ''admin'' \<and> vers key = Some v \<and> old key \<noteq> Some v \<longrightarrow> acl_commands (parseAclInput conf) old vers key = Some ''acl setuser '')"
proof -
  note c = changed_commands [OF assms]
  have "acl_commands (parseAclInput conf) old vers key = Some ''acl setuser ''"
    if "acl_user key = ''admin''" "vers key = Some v" "old key \<noteq> Some v" for key v
    using that by (simp add: acl_commands_def key_at_def parse_admin)
  with c show ?thesis by blast
qed

definition acl_drc :: DistributedRedisCluster where
  "acl_drc = example_drc\<lparr>drc_Spec := example_spec\<lparr>spec_AdminSecret := Some ''x--admin'', spec_DefaultSecret := Some ''x--default''\<rparr>,
     drc_Status := example_status\<lparr>st_SecretsVer := [''x--admin'' \<mapsto> ''6'']\<rparr>\<rparr>"

lemma acl_example:
  "\<exists>conf w'. GenerateAclconf example_kube acl_drc w = ((conf, [''x--admin'' \<mapsto> ''7'', ''x--default'' \<mapsto> ''7''], None), w')"
  by (simp add: GenerateAclconf_def acl_drc_def add_secret_def add_default_def GetAclStringFromSecrets_def GetAcldataFromSecrets_def GetSecret_def
      example_kube_def example_secret_def example_spec_def key_at_def Let_def)

lemma acl_changed:
  "\<exists>conf w'. CheckPasswordChanged example_kube map_keys acl_drc example_hworld = ((True, conf, [''x--admin'' \<mapsto> ''7'', ''x--default'' \<mapsto> ''7''], None), w')"
proof -
  let ?vers = "[''x--admin'' \<mapsto> ''7'', ''x--default'' \<mapsto> ''7'']"
  have old: "[''x--admin'' \<mapsto> ''6''] = st_SecretsVer (drc_Status acl_drc)" by (simp add: acl_drc_def)
  define w1 where "w1 = call (KGetConfigMap (drc_Namespace acl_drc) (AclConfigMapName (drc_Name acl_drc))) example_hworld"
  obtain conf w' where gen: "GenerateAclconf example_kube acl_drc w1 = ((conf, ?vers, None), w')" using acl_example by blast
  have "map_keys [''x--admin'' \<mapsto> ''6''] \<noteq> []" by (simp add: map_keys_def)
  moreover have "IsdiffAclVerions map_keys [''x--admin'' \<mapsto> ''6''] ?vers" by (simp add: IsdiffAclVerions_def map_keys_def)
  ultimately have "CheckPasswordChanged example_kube map_keys acl_drc example_hworld = ((True, conf, ?vers, None), w')"
    using gen unfolding CheckPasswordChanged_def GetConfigMap_def w1_def old [symmetric] by (simp add: example_kube_def)
  then show ?thesis by blast
qed

lemma map_keys_ord: "\<forall>m. finite (dom m) \<longrightarrow> range_order (map_keys m) m" by (simp add: map_keys_def range_order_def)

theorem acl_change_commands_witness:
  "\<exists>conf vers w'. CheckPasswordChanged example_kube map_keys acl_drc example_hworld = ((True, conf, vers, None), w') \<and>
     snd (GenerateAclcommands map_keys acl_drc conf vers) = None \<and>
     acl_commands (parseAclInput conf) [''x--admin'' \<mapsto> ''6''] vers ''x--admin'' = Some ''acl setuser ''"
proof -
  let ?vers = "[''x--admin'' \<mapsto> ''7'', ''x--default'' \<mapsto> ''7'']"
  from acl_changed obtain conf w' where run: "CheckPasswordChanged example_kube map_keys acl_drc example_hworld = ((True, conf, ?vers, None), w')" by blast
  have old: "[''x--admin'' \<mapsto> ''6''] = st_SecretsVer (drc_Status acl_drc)" by (simp add: acl_drc_def)
  have user: "acl_user ''x--admin'' = ''admin''" by (simp add: acl_user_def SplitStr_def numeral_eq_Suc)
  have "finite (dom [''x--admin'' \<mapsto> ''6''])" by simp
  from acl_change_commands [OF map_keys_ord old this run] have "snd (GenerateAclcommands map_keys acl_drc conf ?vers) = None \<and>
    acl_commands (parseAclInput conf) [''x--admin'' \<mapsto> ''6''] ?vers ''x--admin'' = Some ''acl setuser ''"
    using user by auto
  with run show ?thesis by blast
qed

text \<open>
  C31: The list written for the servers says what the secrets say, the administrator's excepted. If there are an administrator's
  and a default secret, the secrets do not change while they are read, every user name is one word and every rule one line, and
  different secrets name different users, then reading the list back gives the rule made of its user, its permissions and
  the digest of its password for every secret whose user is not \<^verbatim>\<open>admin\<close>, and no rule for the user \<^verbatim>\<open>admin\<close>; the
  versions are those of all the secrets.
\<close>

theorem GenerateAclconf_roundtrip:
  assumes run: "GenerateAclconf k cluster w = ((conf, vers, None), w')" and get: "\<forall>h name. k_get_secret k h (drc_Namespace cluster) name = get name"
    and names: "spec_AdminSecret (drc_Spec cluster) = Some a" "spec_DefaultSecret (drc_Spec cluster) = Some d"
      "names = a # d # spec_AdditionalSecret (drc_Spec cluster)"
    and words: "\<forall>name \<in> set names. \<forall>s. get name = Inr s \<longrightarrow>
      secret_user s \<noteq> '''' \<and> (\<forall>c \<in> set (secret_user s). \<not> is_space c) \<and> newline_char \<notin> set (secret_acl s)"
    and users: "\<forall>x \<in> set names. \<forall>y \<in> set names. \<forall>s t. get x = Inr s \<and> get y = Inr t \<and> secret_user s = secret_user t \<longrightarrow> x = y"
  shows "\<forall>name \<in> set names. \<exists>s. get name = Inr s \<and> vers name = Some (sec_ResourceVersion s) \<and>
    parseAclInput conf (secret_user s) =
      (if secret_user s = ''admin'' then None else Some (acl_rule (secret_user s) (secret_acl s) (secret_password s)))"
proof
  fix name assume name: "name \<in> set names"
  from GenerateAclconf_ok [OF run get names(1,2)] obtain ss where ss: "map get names = map Inr ss"
    "conf = concat (map (\<lambda>l. l @ [newline_char]) (map secret_line ss))" "vers = map_of (rev (zip names (map sec_ResourceVersion ss)))"
    unfolding read_secrets_def names(3) [symmetric] by auto
  have len: "length ss = length names" using ss(1) by (metis length_map)
  have nth: "get (names ! i) = Inr (ss ! i)" if "i < length names" for i using ss(1) that len by (metis nth_map)
  from name obtain i where i: "i < length names" "name = names ! i" by (auto simp: in_set_conv_nth)
  define s where "s = ss ! i"
  have s: "get name = Inr s" "s \<in> set ss" using nth i len by (simp_all add: s_def)
  have of_name: "\<exists>x \<in> set names. get x = Inr t" if "t \<in> set ss" for t
    using that len nth by (metis in_set_conv_nth nth_mem)
  have "(name, sec_ResourceVersion s) \<in> set (rev (zip names (map sec_ResourceVersion ss)))"
    using i len by (auto simp: set_zip s_def)
  moreover have "v = sec_ResourceVersion s" if "(name, v) \<in> set (rev (zip names (map sec_ResourceVersion ss)))" for v
    using that len nth s(1) by (auto simp: set_zip)
  ultimately have vers: "vers name = Some (sec_ResourceVersion s)"
    unfolding ss(3) by (metis map_of_SomeD map_of_eq_None_iff fst_conv image_eqI not_Some_eq)
  have ws: "\<forall>t \<in> set ss. secret_user t \<noteq> '''' \<and> (\<forall>c \<in> set (secret_user t). \<not> is_space c) \<and> newline_char \<notin> set (secret_acl t)"
    using words of_name by blast
  have uniq: "\<forall>t \<in> set ss. \<forall>t' \<in> set ss. secret_user t = secret_user t' \<longrightarrow> t = t'"
    using users of_name by (metis sum.inject(2))
  have "parseAclInput conf (secret_user s) = (if secret_user s = ''admin'' then None else Some (acl_rule (secret_user s) (secret_acl s) (secret_password s)))"
  proof (cases "secret_user s = ''admin''")
    case True
    then show ?thesis by (simp add: parse_admin)
  next
    case False
    from foldl_user [where u = secret_user and x = "''admin''" and D = Map.empty, OF uniq s(2) False,
      of "\<lambda>s. acl_rule (secret_user s) (secret_acl s) (secret_password s)"] False
    show ?thesis unfolding ss(2) parse_lines [OF ws] by simp
  qed
  with s(1) vers show "\<exists>s. get name = Inr s \<and> vers name = Some (sec_ResourceVersion s) \<and> parseAclInput conf (secret_user s) =
      (if secret_user s = ''admin'' then None else Some (acl_rule (secret_user s) (secret_acl s) (secret_password s)))" by blast
qed

theorem GenerateAclconf_roundtrip_witness:
  "\<exists>conf vers w'. GenerateAclconf example_kube acl_drc example_hworld = ((conf, vers, None), w') \<and> vers ''x--admin'' = Some ''7'' \<and>
     parseAclInput conf ''x--default'' = Some (acl_rule ''x--default'' ''+@all'' ''pw'')"
proof -
  obtain conf w' where run: "GenerateAclconf example_kube acl_drc example_hworld = ((conf, [''x--admin'' \<mapsto> ''7'', ''x--default'' \<mapsto> ''7''], None), w')"
    using acl_example by blast
  have trim: "TrimSpace ''x--admin'' = ''x--admin''" "TrimSpace ''x--default'' = ''x--default''" "TrimSpace ''+@all'' = ''+@all''" "TrimSpace ''pw'' = ''pw''"
    by code_simp+
  have get: "\<forall>h name. k_get_secret example_kube h (drc_Namespace acl_drc) name = Inr (example_secret name)" by (simp add: example_kube_def)
  have names: "spec_AdminSecret (drc_Spec acl_drc) = Some ''x--admin''" "spec_DefaultSecret (drc_Spec acl_drc) = Some ''x--default''"
    "[''x--admin'', ''x--default''] = ''x--admin'' # ''x--default'' # spec_AdditionalSecret (drc_Spec acl_drc)" by (simp_all add: acl_drc_def example_spec_def)
  have sec: "secret_user (example_secret n) = TrimSpace n" "secret_acl (example_secret n) = ''+@all''" "secret_password (example_secret n) = ''pw''" for n
    by (simp_all add: secret_user_def secret_acl_def secret_password_def example_secret_def key_at_def trim)
  note parts = GenerateAclconf_roundtrip [OF run get names]
  have "\<forall>name \<in> set [''x--admin'', ''x--default'']. \<exists>s. (Inr (example_secret name) :: err + Secret) = Inr s \<and>
      [''x--admin'' \<mapsto> ''7'', ''x--default'' \<mapsto> ''7''] name = Some (sec_ResourceVersion s) \<and> parseAclInput conf (secret_user s) =
      (if secret_user s = ''admin'' then None else Some (acl_rule (secret_user s) (secret_acl s) (secret_password s)))"
    by (rule parts) (simp_all add: sec trim is_space_def newline_char_def)
  then have "parseAclInput conf ''x--default'' = Some (acl_rule ''x--default'' ''+@all'' ''pw'')" by (simp add: sec trim)
  with run show ?thesis by (intro exI [of _ conf] exI [of _ "[''x--admin'' \<mapsto> ''7'', ''x--default'' \<mapsto> ''7'']"] exI [of _ w']) simp
qed

end
