(* ===== verification/Resources.thy ===== *)
theory Resources
  imports Acl Placement_V2
begin

text \<open>
  The Kubernetes objects of a cluster: the stateful sets (\<^verbatim>\<open>resources/statefulsets/statefulset.go\<close>), services
  (\<^verbatim>\<open>resources/services/service.go\<close>) and disruption budgets (\<^verbatim>\<open>resources/poddisruptionbudgets\<close>) the operator asks the API server
  for. Objects are records of the fields the code sets.
\<close>

section \<open>Constants\<close>

definition redisStorageVolumeName :: string where "redisStorageVolumeName = ''redis-data''"
definition redisServerName :: string where "redisServerName = ''redis''"
definition zonenameTopologyKey :: string where "zonenameTopologyKey = ''topology.kubernetes.io/zone''"
definition hostnameTopologyKey :: string where "hostnameTopologyKey = ''kubernetes.io/hostname''"
definition configMapVolumeName :: string where "configMapVolumeName = ''conf''"
definition aclConfigMapVolName :: string where "aclConfigMapVolName = ''acl''"
definition utilConfigMapVolName :: string where "utilConfigMapVolName = ''utilconf''"
definition readinessConfigmapVolName :: string where "readinessConfigmapVolName = ''readyconf''"
definition livenessConfigmapVolName :: string where "livenessConfigmapVolName = ''liveconf''"
definition startupConfigmapVolName :: string where "startupConfigmapVolName = ''startupconf''"
definition shutdownConfigmapVolName :: string where "shutdownConfigmapVolName = ''shutdownconf''"

definition ClusterHeadlessSvcName :: "string \<Rightarrow> int \<Rightarrow> string" where
  "ClusterHeadlessSvcName name i = name @ ''-'' @ Itoa i"

section \<open>Scheduling\<close>

definition getTopolgyspreadConstraints :: "string \<Rightarrow> TopologySpreadConstraint list" where
  "getTopolgyspreadConstraints ssname =
     [\<lparr>ts_MaxSkew = 1, ts_TopologyKey = zonenameTopologyKey, ts_WhenUnsatisfiable = ''DoNotSchedule'', ts_MatchLabels = [''statefulSet'' \<mapsto> ssname]\<rparr>,
      \<lparr>ts_MaxSkew = 1, ts_TopologyKey = hostnameTopologyKey, ts_WhenUnsatisfiable = ''DoNotSchedule'', ts_MatchLabels = [''statefulSet'' \<mapsto> ssname]\<rparr>]"

definition getAffinity :: "DistributedRedisCluster \<Rightarrow> (string \<rightharpoonup> string) \<Rightarrow> Affinity" where
  "getAffinity cluster labels =
     (case spec_Affinity (drc_Spec cluster) of
        Some affinity \<Rightarrow> affinity
      | None \<Rightarrow>
          if spec_RequiredAntiAffinity (drc_Spec cluster)
          then PodAntiAffinity [(100, \<lparr>at_TopologyKey = hostnameTopologyKey, at_MatchLabels = [LabelClusterName \<mapsto> drc_Name cluster]\<rparr>)]
                 [\<lparr>at_TopologyKey = hostnameTopologyKey, at_MatchLabels = labels\<rparr>]
          else PodAntiAffinity [] [\<lparr>at_TopologyKey = hostnameTopologyKey, at_MatchLabels = labels\<rparr>])"

section \<open>Storage\<close>

definition persistentClaim :: "RedisStorage \<Rightarrow> (string \<rightharpoonup> string) \<Rightarrow> PersistentVolumeClaim" where
  "persistentClaim storage labels =
     \<lparr>pvc_Name = redisStorageVolumeName, pvc_Labels = labels, pvc_OwnerReferences = [], pvc_AccessModes = [''ReadWriteOnce''],
      pvc_Storage = sg_Size storage, pvc_StorageClassName = sg_Class storage, pvc_VolumeMode = ''Filesystem''\<rparr>"

definition emptyVolume :: "string \<times> volume_source" where
  "emptyVolume = (redisStorageVolumeName, EmptyDir)"

definition redisDataVolume :: "DistributedRedisCluster \<Rightarrow> (string \<times> volume_source) option" where
  "redisDataVolume cluster =
     (case spec_Storage (drc_Spec cluster) of
        None \<Rightarrow> Some emptyVolume
      | Some storage \<Rightarrow>
          if sg_Type storage = Ephemeral then Some emptyVolume
          else if sg_Type storage = PersistentClaim then None
          else Some emptyVolume)"

text \<open>\<open>0755\<close> in octal is 493.\<close>

definition redisVolumes :: "DistributedRedisCluster \<Rightarrow> (string \<times> volume_source) list" where
  "redisVolumes cluster =
     (let executeMode = 493;
          volumes =
            [(configMapVolumeName, ConfigMapVolume (RedisConfigMapName (drc_Name cluster)) executeMode),
             (aclConfigMapVolName, ConfigMapVolume (AclConfigMapName (drc_Name cluster)) executeMode),
             (utilConfigMapVolName, ConfigMapVolume (spec_UtilConfig (drc_Spec cluster)) executeMode),
             (readinessConfigmapVolName, ConfigMapVolume ''readiness-data'' executeMode),
             (livenessConfigmapVolName, ConfigMapVolume ''liveness-data'' executeMode),
             (startupConfigmapVolName, ConfigMapVolume ''startup-data'' executeMode),
             (shutdownConfigmapVolName, ConfigMapVolume ''shutdown-data'' executeMode)]
      in volumes @ (case redisDataVolume cluster of Some dataVolume \<Rightarrow> [dataVolume] | None \<Rightarrow> []))"

definition volumeMounts :: "(string \<times> string) list" where
  "volumeMounts =
     [(redisStorageVolumeName, ''/data''), (configMapVolumeName, ''/conf''), (aclConfigMapVolName, ''/acl''),
      (utilConfigMapVolName, ''/config''), (livenessConfigmapVolName, ''/liveprobe''), (readinessConfigmapVolName, ''/readyprobe''),
      (startupConfigmapVolName, ''/startupprobe''), (shutdownConfigmapVolName, ''/shutdown'')]"

section \<open>Containers\<close>

text \<open>The result \<open>None\<close> of \<open>redisPassword\<close> is the use of a nil secret.\<close>

definition redisPassword :: "DistributedRedisCluster \<Rightarrow> EnvVar option" where
  "redisPassword cluster =
     (case spec_AdminSecret (drc_Spec cluster) of
        None \<Rightarrow> None
      | Some secretName \<Rightarrow> Some \<lparr>env_Name = PasswordENV, env_Value = '''', env_ValueFrom = Some (SecretKeyRef secretName ''password'')\<rparr>)"

text \<open>\<open>ord\<close> is the order of the loop over the map of renamed commands; the lines are sorted afterwards.\<close>

definition mergeRenameCmds :: "((string \<rightharpoonup> string) \<Rightarrow> string list) \<Rightarrow> string list \<Rightarrow> (string \<rightharpoonup> string) \<Rightarrow> string list" where
  "mergeRenameCmds ord userCmds systemRenameCmdMap =
     filter (\<lambda>cmd. let splitedCmd = Fields cmd in
               \<not> (length splitedCmd = 3 \<and> ToLower (splitedCmd ! 0) = ''--rename-command'' \<and> systemRenameCmdMap (splitedCmd ! 1) \<noteq> None)) userCmds
     @ sort (map (\<lambda>key. ''--rename-command '' @ key @ '' '' @ the (systemRenameCmdMap key)) (ord systemRenameCmdMap))"

text \<open>\<open>file\<close> holds the lines of the file of renamed commands, \<open>None\<close> if it cannot be opened.\<close>

definition getRedisCommand :: "((string \<rightharpoonup> string) \<Rightarrow> string list) \<Rightarrow> string list option \<Rightarrow> DistributedRedisCluster \<Rightarrow> EnvVar option \<Rightarrow> string list" where
  "getRedisCommand ord file cluster password =
     (let cmd = [''/conf/fix-ip.sh'', ''redis-server'', ''/conf/redis.conf'', ''--cluster-enabled yes'', ''--cluster-config-file /data/nodes.conf''];
          cmd = (if password \<noteq> None
                 then cmd @ [''--requirepass no'', ''--masterauth '' @ [CHR 0x27] @ ''$('' @ PasswordENV @ '')'' @ [CHR 0x27], ''-- masteruser admin'']
                 else cmd);
          mergedCmd = mergeRenameCmds ord (spec_Command (drc_Spec cluster)) (BuildCommandReplaceMapping file)
      in if length mergedCmd > 0 then cmd @ mergedCmd else cmd)"

definition customContainerEnv :: "EnvVar list \<Rightarrow> EnvVar list \<Rightarrow> EnvVar list" where
  "customContainerEnv env customEnv = env @ customEnv"

definition with_password :: "EnvVar option \<Rightarrow> EnvVar list \<Rightarrow> EnvVar list" where
  "with_password password env = (case password of Some p \<Rightarrow> env @ [p] | None \<Rightarrow> env)"

text \<open>\<open>None\<close> is the use of nil resources.\<close>

definition redisServerContainer ::
    "((string \<rightharpoonup> string) \<Rightarrow> string list) \<Rightarrow> string list option \<Rightarrow> DistributedRedisCluster \<Rightarrow> EnvVar option \<Rightarrow> Container option" where
  "redisServerContainer ord file cluster password =
     (let spec = drc_Spec cluster in
      case spec_Resources spec of
        None \<Rightarrow> None
      | Some resources \<Rightarrow> Some
          \<lparr>ct_Name = redisServerName, ct_Image = spec_Image spec, ct_ImagePullPolicy = spec_ImagePullPolicy spec,
           ct_SecurityContext = spec_ContainerSecurityContext spec,
           ct_Ports = [(''client'', 6379, ''TCP''), (''gossip'', 16379, ''TCP'')],
           ct_VolumeMounts = volumeMounts, ct_Command = getRedisCommand ord file cluster password, ct_Args = None,
           ct_LivenessProbe = Some (spec_CustomLivenessProbe spec), ct_ReadinessProbe = Some (spec_CustomReadinessProbe spec),
           ct_StartupProbe = Some (spec_CustomStartupProbe spec),
           ct_Env = customContainerEnv (with_password password [\<lparr>env_Name = ''POD_IP'', env_Value = '''', env_ValueFrom = Some (FieldRef ''status.podIP'')\<rparr>]) (spec_Env spec),
           ct_Resources = resources,
           ct_PostStart = [''/bin/sh'', ''-c'', ''echo ${REDIS_PASSWORD} > /data/redis_password''],
           ct_PreStop = [''/bin/sh'', ''/shutdown/shutdown.sh'']\<rparr>)"

definition monitor_container :: "DistributedRedisCluster \<Rightarrow> EnvVar option \<Rightarrow> AgentSpec \<Rightarrow> PrometheusSpec \<Rightarrow> Container" where
  "monitor_container cluster password c p =
     \<lparr>ct_Name = ag_Name c, ct_Image = ag_Image c, ct_ImagePullPolicy = ''IfNotPresent'', ct_SecurityContext = ag_SecurityContext c,
      ct_Ports = [(pr_Name p, pr_Port p, ''TCP'')], ct_VolumeMounts = [], ct_Command = ag_Command c, ct_Args = ag_Args c,
      ct_LivenessProbe = None, ct_ReadinessProbe = None, ct_StartupProbe = None,
      ct_Env = customContainerEnv (with_password password (ag_Env c)) (spec_Env (drc_Spec cluster)),
      ct_Resources = ag_Resources c, ct_PostStart = [], ct_PreStop = []\<rparr>"

text \<open>\<open>None\<close> is the use of a nil Prometheus specification.\<close>

fun monitor_containers :: "DistributedRedisCluster \<Rightarrow> EnvVar option \<Rightarrow> AgentSpec list \<Rightarrow> Container list option" where
  "monitor_containers cluster password [] = Some []"
| "monitor_containers cluster password (c # cs) =
     (case ag_Prometheus c of
        None \<Rightarrow> None
      | Some p \<Rightarrow> map_option (\<lambda>containers. monitor_container cluster password c p # containers) (monitor_containers cluster password cs))"

definition redisMonitorContainers :: "DistributedRedisCluster \<Rightarrow> EnvVar option \<Rightarrow> Container list option" where
  "redisMonitorContainers cluster password =
     (case spec_Monitor (drc_Spec cluster) of None \<Rightarrow> None | Some monitor \<Rightarrow> monitor_containers cluster password monitor)"

definition getContainersWithRedisEnv :: "Container list \<Rightarrow> EnvVar list \<Rightarrow> EnvVar option \<Rightarrow> Container list" where
  "getContainersWithRedisEnv cs e password = map (\<lambda>c. c\<lparr>ct_Env := with_password password (ct_Env c @ e)\<rparr>) cs"

definition getInitContainersWithRedisEnv :: "DistributedRedisCluster \<Rightarrow> EnvVar option \<Rightarrow> Container list" where
  "getInitContainersWithRedisEnv cluster password =
     getContainersWithRedisEnv (spec_InitContainers (drc_Spec cluster)) (spec_Env (drc_Spec cluster)) password"

section \<open>The stateful set\<close>

text \<open>The object made of its containers; a new set has no status yet.\<close>

definition stateful_set ::
    "DistributedRedisCluster \<Rightarrow> string \<Rightarrow> string \<Rightarrow> (string \<rightharpoonup> string) \<Rightarrow> HAspec \<Rightarrow> EnvVar option \<Rightarrow> Container list \<Rightarrow> StatefulSet" where
  "stateful_set cluster ssName svcName labels ha password containers =
     (let spec = drc_Spec cluster;
          affinity = (if ha_HaEnabled ha then Some (getAffinity cluster labels) else None);
          topologySpreadConstraints = (if ha_HaEnabled ha then getTopolgyspreadConstraints ssName else []);
          claims = (case spec_Storage spec of
             Some storage \<Rightarrow>
               if sg_Type storage = PersistentClaim
               then [(persistentClaim storage labels)\<lparr>pvc_OwnerReferences := (if sg_DeleteClaim storage then DefaultOwnerReferences cluster else [])\<rparr>]
               else []
           | None \<Rightarrow> [])
      in \<lparr>ss_Name = ssName, ss_Namespace = drc_Namespace cluster, ss_Labels = labels, ss_OwnerReferences = DefaultOwnerReferences cluster,
          ss_ServiceName = svcName, ss_Replicas = spec_ClusterReplicas spec + 1, ss_UpdateStrategy = ''OnDelete'', ss_Selector = labels,
          ss_Template = \<lparr>pt_Labels = labels, pt_Annotations = spec_Annotations spec, pt_ImagePullSecrets = spec_ImagePullSecrets spec,
            pt_Affinity = affinity, pt_Tolerations = spec_ToleRations spec, pt_SecurityContext = spec_SecurityContext spec,
            pt_NodeSelector = spec_NodeSelector spec, pt_TopologySpreadConstraints = topologySpreadConstraints,
            pt_Containers = containers, pt_InitContainers = getInitContainersWithRedisEnv cluster password,
            pt_Volumes = redisVolumes cluster, pt_TerminationGracePeriodSeconds = spec_TerminationGracePeriod spec\<rparr>,
          ss_VolumeClaimTemplates = claims, ss_ReadyReplicas = 0, ss_UpdateRevision = ''''\<rparr>)"

text \<open>
  The grace period is a pointer the set shares with the custom resource: the default is written into both, so the
  custom resource is part of the result. \<open>None\<close> is the use of a nil grace period, HA configuration, resources or
  Prometheus specification.
\<close>

definition with_grace :: "DistributedRedisCluster \<Rightarrow> int \<Rightarrow> DistributedRedisCluster" where
  "with_grace cluster grace =
     cluster\<lparr>drc_Spec := (drc_Spec cluster)\<lparr>spec_TerminationGracePeriod := Some (if grace > 0 then grace else 30)\<rparr>\<rparr>"

definition NewStatefulSetForCR ::
    "((string \<rightharpoonup> string) \<Rightarrow> string list) \<Rightarrow> string list option \<Rightarrow> DistributedRedisCluster \<Rightarrow> string \<Rightarrow> string \<Rightarrow> (string \<rightharpoonup> string)
       \<Rightarrow> (DistributedRedisCluster \<times> (err + StatefulSet)) option" where
  "NewStatefulSetForCR ord file cluster ssName svcName labels =
     (if spec_AdminSecret (drc_Spec cluster) = None then Some (cluster, Inl (Errorf ''missing admin secret'' []))
      else
        do {
          cluster \<leftarrow> map_option (with_grace cluster) (spec_TerminationGracePeriod (drc_Spec cluster));
          ha \<leftarrow> spec_HaConfig (drc_Spec cluster);
          server \<leftarrow> redisServerContainer ord file cluster (redisPassword cluster);
          monitors \<leftarrow> (if spec_Monitor (drc_Spec cluster) \<noteq> None then redisMonitorContainers cluster (redisPassword cluster) else Some []);
          Some (cluster,
            if IsRestoreFromBackup cluster \<and> IsRestoreRunning cluster then Inl (Errorf ''Restore Not supported yet'' [])
            else Inr (stateful_set cluster ssName svcName labels ha (redisPassword cluster) (server # monitors)))
        })"

section \<open>Services and budgets\<close>

definition NewHeadLessSvcForCR :: "DistributedRedisCluster \<Rightarrow> string \<Rightarrow> (string \<rightharpoonup> string) \<Rightarrow> Service" where
  "NewHeadLessSvcForCR cluster name labels =
     \<lparr>svc_Name = name, svc_Namespace = drc_Namespace cluster, svc_Labels = labels, svc_OwnerReferences = DefaultOwnerReferences cluster,
      svc_Ports = [(''client'', 6379), (''gossip'', 16379)], svc_Selector = labels, svc_ClusterIP = ''None''\<rparr>"

definition NewSvcForCR :: "DistributedRedisCluster \<Rightarrow> string \<Rightarrow> (string \<rightharpoonup> string) \<Rightarrow> Service" where
  "NewSvcForCR cluster name labels =
     \<lparr>svc_Name = name, svc_Namespace = drc_Namespace cluster, svc_Labels = labels, svc_OwnerReferences = DefaultOwnerReferences cluster,
      svc_Ports = [(''client'', 6379), (''gossip'', 16379)], svc_Selector = labels, svc_ClusterIP = ''''\<rparr>"

definition NewPodDisruptionBudgetForCR :: "DistributedRedisCluster \<Rightarrow> string \<Rightarrow> (string \<rightharpoonup> string) \<Rightarrow> PodDisruptionBudget" where
  "NewPodDisruptionBudgetForCR cluster name labels =
     \<lparr>pdb_Name = name, pdb_Namespace = drc_Namespace cluster, pdb_Labels = labels, pdb_OwnerReferences = DefaultOwnerReferences cluster,
      pdb_MinAvailable = spec_ClusterReplicas (drc_Spec cluster), pdb_Selector = labels\<rparr>"

end
