(* ===== verification/Sync_Handler.thy ===== *)
theory Sync_Handler
  imports Checker Migration Heal Cluster_Status Resources
begin

text \<open>
  The steps of a reconciliation (\<^verbatim>\<open>controllers/distributedrediscluster/sync_handler.go\<close>): validation of the custom
  resource, waiting for the pods and for the servers to join, and \<^verbatim>\<open>syncCluster\<close>, which creates a cluster, scales it
  up or down or adds slaves. It composes the placement, allocation, rebalancing and migration of the other
  theories. The servers, the API server and the order of the loops are gathered in the record \<open>reconciler\<close>.
\<close>

section \<open>Operations\<close>

text \<open>
  \<open>r_ticks\<close> is the number of ticks before a timeout, \<open>r_node_string\<close> the text of a node in a message, \<open>r_agg\<close> the
  aggregation of errors of the Kubernetes library, \<open>r_wrapf\<close> the wrapping of \<^verbatim>\<open>github.com/pkg/errors\<close>.
\<close>

record reconciler =
  r_env :: env
  r_kube :: kube
  r_ctx :: ctx_orders
  r_orders :: orders
  r_wrapf :: "rerror option \<Rightarrow> string \<Rightarrow> rerror option"
  r_agg :: "err list \<Rightarrow> err option"
  r_now :: int
  r_ticks :: "kcall list \<Rightarrow> nat"
  r_node_string :: "node \<Rightarrow> string"

definition wrap :: "reconciler \<Rightarrow> ErrorType \<Rightarrow> err \<Rightarrow> string \<Rightarrow> rerror option" where
  "wrap r t err msg = Some (ErrorType_Wrap (r_wrapf r) t (Some (PlainError err)) msg)"

subsection \<open>Validation\<close>

text \<open>The length of a map is the number of keys a loop over it visits.\<close>

definition validate_ha :: "reconciler \<Rightarrow> DistributedRedisCluster \<Rightarrow> err option" where
  "validate_ha r cluster =
     (case spec_HaConfig (drc_Spec cluster) of
        None \<Rightarrow> Some (Errorf ''ha config expected missing'' [])
      | Some ha \<Rightarrow>
          let zones = int (length (co_zones (r_ctx r) (ha_ZonesInfo ha))) in
          if ha_HaEnabled ha then
            if zones \<noteq> 3 then Some (Errorf ''haspec missing zone info or incorrect zone info'' [])
            else if spec_ClusterReplicas (drc_Spec cluster) \<noteq> zones - 1
            then Some (Errorf ''cluster replicas should be equal to availabilty zones'' [])
            else None
          else None)"

definition agent_incomplete :: "AgentSpec \<Rightarrow> bool" where
  "agent_incomplete container \<longleftrightarrow> ag_Image container = '''' \<or> (case ag_Prometheus container of None \<Rightarrow> True | Some p \<Rightarrow> pr_Port p = 0)"

text \<open>The outer \<open>None\<close> is the use of a nil list of monitoring containers.\<close>

definition validateAndSetDefault ::
    "reconciler \<Rightarrow> DistributedRedisCluster \<Rightarrow> hworld \<Rightarrow> ((err option \<times> DistributedRedisCluster) \<times> hworld) option" where
  "validateAndSetDefault r cluster w =
     (case validate_ha r cluster of
        Some err \<Rightarrow> Some ((Some err, cluster), w)
      | None \<Rightarrow>
         (case spec_Monitor (drc_Spec cluster) of
            None \<Rightarrow> None
          | Some containers \<Rightarrow>
              if \<exists>container \<in> set containers. agent_incomplete container
              then Some ((Some (Errorf ''required fields missing for monitor'' []), cluster), w)
              else if IsRestoreFromBackup cluster \<and> ShouldInitRestorePhase cluster
              then Some ((Some (Errorf ''restore Not supported yet'' []), cluster), w)
              else
                let cluster = (if IsRestoreFromBackup cluster \<and> (IsRestoreRunning cluster \<or> IsRestoreRestarting cluster)
                               then cluster\<lparr>drc_Spec := (drc_Spec cluster)\<lparr>spec_ClusterReplicas := 0\<rparr>\<rparr> else cluster);
                    (cluster, updateDefault) = DefaultSpec cluster
                in if updateDefault
                   then (case UpdateCR (r_kube r) cluster w of (err, w) \<Rightarrow> Some ((err, cluster), w))
                   else Some ((None, cluster), w)))"

definition dbLoadedFromDiskWhenRestore :: "DistributedRedisCluster \<Rightarrow> DistributedRedisCluster" where
  "dbLoadedFromDiskWhenRestore cluster =
     (if IsRestoreFromBackup cluster \<and> \<not> IsRestored cluster then
        (case spec_Config (drc_Spec cluster) of
           Some config \<Rightarrow> cluster\<lparr>drc_Spec := (drc_Spec cluster)\<lparr>spec_Config := Some (config(''appendonly'' \<mapsto> ''no''))\<rparr>\<rparr>
         | None \<Rightarrow> cluster)
      else cluster)"

subsection \<open>Waiting\<close>

text \<open>Five minutes in nanoseconds.\<close>

definition waitPodReady :: "reconciler \<Rightarrow> CheckAndHeal \<Rightarrow> DistributedRedisCluster \<Rightarrow> hworld \<Rightarrow> rerror option \<times> hworld" where
  "waitPodReady r healer cluster w =
     (case FixTerminatingPods (r_kube r) (r_agg r) (r_now r) healer cluster (5 * 60 * 10 ^ 9) w of
        ((_, Some err), w) \<Rightarrow> (wrap r Kubernetes err ''FixTerminatingPods'', w)
      | ((_, None), w) \<Rightarrow>
          (case CheckRedisNodeNum (r_kube r) cluster w of
             (Some err, w) \<Rightarrow> (wrap r Requeue err ''CheckRedisNodeNum'', w)
           | (None, w) \<Rightarrow> (None, w)))"

text \<open>\<open>None\<close> is the use of a nil node when the infos are empty, or a command that does not return.\<close>

definition waitForClusterJoin :: "reconciler \<Rightarrow> ClusterInfos \<Rightarrow> world \<Rightarrow> (rerror option \<times> world) option" where
  "waitForClusterJoin r clusterInfos w =
     do {
       ((infos, err), w) \<leftarrow> GetClusterInfos (r_env r) w;
       if err = None then Some (None, w)
       else
         (case e_order (r_env r) (w_trace w) (map fst (ci_Infos clusterInfos)) of
            [] \<Rightarrow> None
          | addr # _ \<Rightarrow>
              do {
                nodeInfo \<leftarrow> map_of (ci_Infos clusterInfos) addr;
                (case AttachNodeToCluster (r_env r) (IPPort (ni_Node nodeInfo)) w of
                   (Some err, w) \<Rightarrow> Some (wrap r Redis err ''AttachNodeToCluster'', w)
                 | (None, w) \<Rightarrow>
                     do {
                       ((infos, err), w) \<leftarrow> GetClusterInfos (r_env r) w;
                       Some (case err of Some err \<Rightarrow> wrap r Requeue err ''wait for cluster join'' | None \<Rightarrow> None, w)
                     })
              })
     }"

subsection \<open>Scaling down\<close>

definition remove_set :: "string \<Rightarrow> nodes_by \<Rightarrow> int \<Rightarrow> world \<Rightarrow> world" where
  "remove_set clusterName statefulSetNodes i w =
     foldl (\<lambda>w node. cnx_Remove (IPPort (w_heap w node)) w) w (slice_at statefulSetNodes (ClusterStatefulSetName clusterName i))"

text \<open>The nodes of a set are forgotten one by one; a node that owns slots stops the scaling.\<close>

fun forget_nodes :: "reconciler \<Rightarrow> Nodes \<Rightarrow> hworld \<Rightarrow> (rerror option \<times> hworld) option" where
  "forget_nodes r [] w = Some (None, w)"
| "forget_nodes r (node # nodes) w =
     (let n = w_heap (hw_redis w) node in
      if length (n_Slots n) > 0
      then Some (Some (ErrorType_Newf Redis ''node %s is not empty! Reshard data away and try again'' [r_node_string r n]), w)
      else
        (case heal_forget (r_env r) (n_ID n) w of
           None \<Rightarrow> None
         | Some (Some err, w) \<Rightarrow> Some (wrap r Redis err ''ForgetNode'', w)
         | Some (None, w) \<Rightarrow> forget_nodes r nodes w))"

text \<open>Errors of the deletions are only logged.\<close>

definition delete_resources :: "reconciler \<Rightarrow> DistributedRedisCluster \<Rightarrow> int \<Rightarrow> StatefulSet \<Rightarrow> hworld \<Rightarrow> hworld" where
  "delete_resources r cluster i sts w =
     (let k = r_kube r; ns = drc_Namespace cluster; stsName = ClusterStatefulSetName (drc_Name cluster) i;
          w = snd (DeleteStatefulSetByName k ns stsName w);
          w = snd (DeleteServiceByName k ns (ClusterHeadlessSvcName (drc_Name cluster) i) w);
          w = snd (DeletePodDisruptionBudgetByName k ns stsName w);
          w = snd (DeletePvcByLabels k ns (ss_Labels sts) w)
      in snd (waiting (r_ticks r (hw_calls w)) ''waitPodTerminating'' (waitPodTerminating_Handler k cluster stsName) w))"

fun scalingDown_loop :: "reconciler \<Rightarrow> DistributedRedisCluster \<Rightarrow> nodes_by \<Rightarrow> int list \<Rightarrow> hworld \<Rightarrow> (rerror option \<times> hworld) option" where
  "scalingDown_loop r cluster statefulSetNodes [] w = Some (None, w)"
| "scalingDown_loop r cluster statefulSetNodes (i # is) w =
     (let stsName = ClusterStatefulSetName (drc_Name cluster) i in
      case GetStatefulSet (r_kube r) (drc_Namespace cluster) stsName w of
        (Inl err, w) \<Rightarrow> Some (wrap r Kubernetes err ''GetStatefulSet'', w)
      | (Inr sts, w) \<Rightarrow>
          (case forget_nodes r (slice_at statefulSetNodes stsName) w of
             None \<Rightarrow> None
           | Some (Some err, w) \<Rightarrow> Some (Some err, w)
           | Some (None, w) \<Rightarrow> scalingDown_loop r cluster statefulSetNodes is (delete_resources r cluster i sts w)))"

text \<open>The indices run from \<^verbatim>\<open>currentMasterNum - 1\<close> down to the expected number of masters.\<close>

definition scalingDown ::
    "reconciler \<Rightarrow> DistributedRedisCluster \<Rightarrow> int \<Rightarrow> nodes_by \<Rightarrow> hworld \<Rightarrow> ((rerror option \<times> DistributedRedisCluster) \<times> hworld) option" where
  "scalingDown r cluster currentMasterNum statefulSetNodes w =
     (let expectMasterNum = spec_MasterSize (drc_Spec cluster);
          reason = ''scale down, currentMasterSize: '' @ Itoa currentMasterNum @ '', expectMasterSize '' @ Itoa expectMasterNum;
          cluster = cluster\<lparr>drc_Status := SetClusterRebalancing reason (drc_Status cluster)\<rparr>;
          w = snd (UpdateCRStatus (r_kube r) cluster w);
          is = rev [expectMasterNum..currentMasterNum - 1];
          w = w\<lparr>hw_redis := foldl (\<lambda>w i. remove_set (drc_Name cluster) statefulSetNodes i w) (hw_redis w) is\<rparr>
      in map_option (\<lambda>(err, w). ((err, cluster), w)) (scalingDown_loop r cluster statefulSetNodes is w))"

subsection \<open>Synchronisation\<close>

definition place_and_attach :: "reconciler \<Rightarrow> Ctx \<Rightarrow> world \<Rightarrow> (rerror option \<times> world) option" where
  "place_and_attach r c w =
     (case Ctx_PlaceSlaves (r_ctx r) (w_heap w) c of
        None \<Rightarrow> None
      | Some (Some err, c) \<Rightarrow> Some (wrap r Cluster_error err ''PlaceSlaves'', w)
      | Some (None, c) \<Rightarrow>
          (case AttachingSlavesToMaster (r_env r) (r_ctx r) c w of
             (Some err, w) \<Rightarrow> Some (wrap r Cluster_error err ''AttachingSlavesToMaster'', w)
           | (None, w) \<Rightarrow> Some (None, w)))"

text \<open>The part of \<^verbatim>\<open>syncCluster\<close> after the masters were chosen.\<close>

definition sync_masters ::
    "reconciler \<Rightarrow> DistributedRedisCluster \<Rightarrow> Ctx \<Rightarrow> hworld \<Rightarrow> ((rerror option \<times> DistributedRedisCluster) \<times> hworld) option" where
  "sync_masters r cluster c w =
     (let curMasters = GetCurrentMasters c; newMasters = GetNewMasters (r_ctx r) c;
          spec = drc_Spec cluster; result = (\<lambda>(err, rw). Some ((err, cluster), w\<lparr>hw_redis := rw\<rparr>))
      in if length curMasters = 0 then
           do {
             (err, rw) \<leftarrow> place_and_attach r c (hw_redis w);
             if err \<noteq> None then result (err, rw)
             else do {
               (err, rw) \<leftarrow> AllocSlots (r_env r) newMasters rw;
               result (case err of Some err \<Rightarrow> wrap r Cluster_error err ''AllocSlots'' | None \<Rightarrow> None, rw)
             }
           }
         else if length newMasters > length curMasters then
           do {
             (err, rw) \<leftarrow> place_and_attach r c (hw_redis w);
             if err \<noteq> None then result (err, rw)
             else do {
               ((err, _), rw) \<leftarrow> RebalancedCluster (r_env r) newMasters rw;
               result (case err of Some err \<Rightarrow> wrap r Cluster_error err ''RebalancedCluster'' | None \<Rightarrow> None, rw)
             }
           }
         else if st_MinReplicationFactor (drc_Status cluster) < spec_ClusterReplicas spec then
           do { (err, rw) \<leftarrow> place_and_attach r c (hw_redis w); result (err, rw) }
         else if int (length curMasters) > spec_MasterSize spec then
           do {
             let allMaster = newMasters @ curMasters;
             ((err, _), rw) \<leftarrow> DispatchSlotToNewMasters (r_env r) (r_orders r) (x_cluster c) newMasters curMasters allMaster (hw_redis w);
             (case err of
                Some err \<Rightarrow> result (Some (PlainError err), rw)
              | None \<Rightarrow> scalingDown r cluster (int (length curMasters)) (GetStatefulsetNodes c) (w\<lparr>hw_redis := rw\<rparr>))
           }
         else result (None, hw_redis w))"

text \<open>The nodes the clustering code works on are those of the infos: they make up the heap.\<close>

definition syncCluster ::
    "reconciler \<Rightarrow> ClusterInfos \<Rightarrow> DistributedRedisCluster \<Rightarrow> hworld \<Rightarrow> ((rerror option \<times> DistributedRedisCluster) \<times> hworld) option" where
  "syncCluster r clusterInfos cluster w =
     (case newRedisCluster clusterInfos cluster of
        Inl err \<Rightarrow> Some ((wrap r Cluster_error err ''newRedisCluster'', cluster), w)
      | Inr (h, rCluster, nodes) \<Rightarrow>
          let w = w\<lparr>hw_redis := (hw_redis w)\<lparr>w_heap := h\<rparr>\<rparr>;
              c = NewCtx h (spec_HaConfig (drc_Spec cluster)) rCluster nodes (spec_MasterSize (drc_Spec cluster)) (drc_Name cluster)
          in (case Ctx_DispatchMasters (r_ctx r) h c of
                None \<Rightarrow> None
              | Some (Some err, c) \<Rightarrow> Some ((wrap r Cluster_error err ''DispatchMasters'', cluster), w)
              | Some (None, c) \<Rightarrow> sync_masters r cluster c w))"

section \<open>Creating a cluster\<close>

lemma newRedisCluster_loop_ok:
  "\<forall>r \<in> set rs. n_Zonename (h r) \<noteq> '''' \<and> n_Zonename (h r) \<noteq> ''unknown'' \<Longrightarrow>
   newRedisCluster_loop h rs c = Inr (c\<lparr>c_Nodes := foldl (\<lambda>m r. m(n_ID (h r) \<mapsto> r)) (c_Nodes c) rs\<rparr>)"
  by (induction rs arbitrary: c) simp_all

lemma foldl_register_other: "i \<notin> f ` set rs \<Longrightarrow> foldl (\<lambda>m r. m(f r \<mapsto> r)) m rs i = m i"
  by (induction rs arbitrary: m) simp_all

lemma foldl_register: "distinct (map f rs) \<Longrightarrow> r \<in> set rs \<Longrightarrow> foldl (\<lambda>m r. m(f r \<mapsto> r)) m rs (f r) = Some r"
  by (induction rs arbitrary: m) (auto simp: foldl_register_other)

lemma newRedisCluster_ok:
  assumes "distinct (map n_ID (GetNodes infos))"
    and "\<forall>x \<in> set (GetNodes infos). n_Zonename x \<noteq> '''' \<and> n_Zonename x \<noteq> ''unknown''"
  shows "\<exists>cl. newRedisCluster infos cluster = Inr (nodes_heap (GetNodes infos), cl, [0..<length (GetNodes infos)]) \<and>
    c_HaStatus cl = st_HAStatus (drc_Status cluster) \<and>
    (\<forall>r < length (GetNodes infos). c_Nodes cl (n_ID (nodes_heap (GetNodes infos) r)) = Some r)"
proof -
  define ns h where "ns = GetNodes infos" and "h = nodes_heap (GetNodes infos)"
  define c where "c = (NewCluster (drc_Name cluster) (drc_Namespace cluster))\<lparr>c_HaStatus := st_HAStatus (drc_Status cluster)\<rparr>"
  have h: "h r = ns ! r" if "r < length ns" for r using that by (simp add: h_def ns_def nodes_heap_def)
  have zones: "\<forall>r \<in> set [0..<length ns]. n_Zonename (h r) \<noteq> '''' \<and> n_Zonename (h r) \<noteq> ''unknown''"
    using assms(2) by (simp add: h ns_def)
  have "map (\<lambda>r. n_ID (h r)) [0..<length ns] = map n_ID ns"
    by (rule nth_equalityI) (simp_all add: h)
  then have ids: "distinct (map (\<lambda>r. n_ID (h r)) [0..<length ns])" using assms(1) by (simp add: ns_def)
  show ?thesis
    using newRedisCluster_loop_ok [OF zones, of c] foldl_register [OF ids]
    unfolding newRedisCluster_def Let_def c_def [symmetric] ns_def [symmetric] h_def [symmetric, folded ns_def]
    by (simp add: c_def)
qed

lemma GetNewMasters_placed:
  assumes ord: "range_order (co_masters co (x_newMastersBySts c1)) (x_newMastersBySts c1)"
    and pl: "placed co h c1 {..<n}" and nodes: "x_nodes c1 = x_nodes (NewCtx h ha cl nodes k name)"
  shows "distinct (GetNewMasters co c1)" and "set (GetNewMasters co c1) = ran (x_newMastersBySts c1)" and "length (GetNewMasters co c1) = n"
proof -
  define M where "M = x_newMastersBySts c1"
  have ks: "distinct (co_masters co M)" "set (co_masters co M) = dom M" using ord unfolding M_def by (auto simp: range_order_def)
  have own: "sts_of h cl m = Some s" if "M s = Some m" for s m using placed_master [OF pl nodes] that unfolding M_def by blast
  have "inj_on (\<lambda>k. the (M k)) (dom M)"
  proof (rule inj_onI)
    fix s t assume "s \<in> dom M" "t \<in> dom M" and eq: "the (M s) = the (M t)"
    then obtain m where "M s = Some m" "M t = Some m" by auto
    then have "sts_of h cl m = Some s" "sts_of h cl m = Some t" by (auto intro: own)
    then show "s = t" by simp
  qed
  then show "distinct (GetNewMasters co c1)" using ks by (simp add: GetNewMasters_def M_def distinct_map)
  show "set (GetNewMasters co c1) = ran (x_newMastersBySts c1)" using ks(2) unfolding GetNewMasters_def M_def [symmetric] by (force simp: ran_def)
  have "dom M = (\<lambda>i. ClusterStatefulSetName (x_clusterName c1) (int i)) ` {..<n}" using pl by (simp add: placed_def M_def)
  then have "card (dom M) = n" by (simp add: card_image inj_on_def ClusterStatefulSetName_inj)
  then show "length (GetNewMasters co c1) = n" using ks by (simp add: GetNewMasters_def M_def distinct_card [symmetric])
qed

lemma slots_distinct: "distinct (map word_of_nat [0..<16384] :: slot list)"
  by (simp add: distinct_map inj_on_def word_of_nat_eq_iff take_bit_nat_eq_self)

lemma slots_set: "set (map word_of_nat [0..<16384] :: slot list) = {..<16384}"
proof -
  have "s \<in> word_of_nat ` {0..<16384}" if "s < 16384" for s :: slot
    using that by (intro image_eqI [of _ _ "unat s"]) (auto simp: word_less_nat_alt)
  moreover have "(word_of_nat i :: slot) < 16384" if "i < 16384" for i
    using that by (simp add: word_less_nat_alt unat_of_nat take_bit_nat_eq_self)
  ultimately show ?thesis by auto
qed

lemma one_owner:
  assumes "concat (map f ns) = (map word_of_nat [0..<16384] :: slot list)" and "distinct ns" and "s < 16384"
  shows "\<exists>!m. m \<in> set ns \<and> s \<in> set (f m)"
proof -
  have "distinct (concat (map f ns))" unfolding assms(1) by (rule slots_distinct)
  then have disj: "\<forall>x \<in> set ns. \<forall>y \<in> set ns. x \<noteq> y \<longrightarrow> set (f x) \<inter> set (f y) = {}" using assms(2) by (simp add: distinct_concat_map_iff)
  have "s \<in> set (concat (map f ns))" unfolding assms(1) slots_set using assms(3) by simp
  with disj show ?thesis by auto
qed

text \<open>
  A cluster that can be created: the infos list, for each of the \<open>n\<close> stateful sets, some pods (one of them in the zone
  whose turn it is, if HA is being created) and no others; every pod has a zone and none owns slots.
\<close>

definition creatable :: "ctx_orders \<Rightarrow> ClusterInfos \<Rightarrow> DistributedRedisCluster \<Rightarrow> bool" where
  "creatable co infos cluster \<longleftrightarrow>
     (let nodes = GetNodes infos; n = nat (spec_MasterSize (drc_Spec cluster)); sts = (\<lambda>i. ClusterStatefulSetName (drc_Name cluster) (int i)) in
      (\<exists>ha. spec_HaConfig (drc_Spec cluster) = Some ha \<and>
        (ha_HaEnabled ha \<and> st_HAStatus (drc_Status cluster) = HaStatusCreating \<longrightarrow>
          (let zones = sort (co_zones co (ha_ZonesInfo ha)) in zones \<noteq> [] \<and>
            (\<forall>i < n. \<exists>x \<in> set nodes. n_StatefulSet x = sts i \<and> n_Zonename x = zones ! (i mod length zones))))) \<and>
      0 < n \<and> n \<le> 16384 \<and> distinct (map n_ID nodes) \<and> ''-'' \<notin> n_ID ` set nodes \<and> distinct (map n_IP nodes) \<and>
      (\<forall>x \<in> set nodes. n_Zonename x \<noteq> '''' \<and> n_Zonename x \<noteq> ''unknown'' \<and> n_Slots x = []) \<and>
      n_StatefulSet ` set nodes = sts ` {..<n})"

text \<open>The choice of the masters for such a cluster.\<close>

lemma creatable_dispatch:
  fixes infos cluster co cl ha
  defines "nodes \<equiv> [0..<length (GetNodes infos)]" and "h \<equiv> nodes_heap (GetNodes infos)"
    and "n \<equiv> nat (spec_MasterSize (drc_Spec cluster))" and "sts \<equiv> \<lambda>i. ClusterStatefulSetName (drc_Name cluster) (int i)"
  defines "c \<equiv> NewCtx h (Some ha) cl nodes (spec_MasterSize (drc_Spec cluster)) (drc_Name cluster)"
  assumes ord: "\<And>m. finite (dom m) \<Longrightarrow> range_order (co_masters co m) m"
    and ok: "creatable co infos cluster" and ha: "spec_HaConfig (drc_Spec cluster) = Some ha"
    and cl: "c_HaStatus cl = st_HAStatus (drc_Status cluster)" "\<forall>r < length (GetNodes infos). c_Nodes cl (n_ID (h r)) = Some r"
  shows "\<exists>M be. Ctx_DispatchMasters co h c = Some (None, chosen c M be) \<and> placed co h (chosen c M be) {..<n} \<and>
    x_currentMasters c = [] \<and> dom (x_nodes c) = sts ` {..<n}"
proof -
  define ns where "ns = GetNodes infos"
  have h: "h r = ns ! r" if "r < length ns" for r using that by (simp add: h_def ns_def nodes_heap_def)
  have fresh: "n_Slots x = []" if "x \<in> set ns" for x using ok that by (auto simp: creatable_def Let_def ns_def)
  have named: "sts_of h cl r = Some (sts i) \<longleftrightarrow> n_StatefulSet (ns ! r) = sts i" if "r < length ns" for r i
    using sts_of_named [of cl h r "drc_Name cluster" "int i"] cl(2) that by (simp add: sts_def h ns_def [symmetric])
  have img: "n_StatefulSet ` set ns = sts ` {..<n}" using ok by (simp add: creatable_def Let_def ns_def sts_def n_def)
  have dom: "dom (x_nodes c) = sts ` {..<n}"
  proof -
    have "\<exists>i < n. sts_of h cl r = Some (sts i)" if "r < length ns" for r
    proof -
      have "n_StatefulSet (ns ! r) \<in> sts ` {..<n}" unfolding img [symmetric] using that by simp
      with named [OF that] show ?thesis by auto
    qed
    moreover have "\<exists>r < length ns. sts_of h cl r = Some (sts i)" if "i < n" for i
    proof -
      have "sts i \<in> n_StatefulSet ` set ns" unfolding img using that by simp
      then obtain r where "r < length ns" "n_StatefulSet (ns ! r) = sts i" by (auto simp: in_set_conv_nth)
      with named show ?thesis by blast
    qed
    ultimately show ?thesis unfolding c_def NewCtx_spec(2) nodes_def ns_def [symmetric] by (force simp: image_iff)
  qed
  have no_slots: "\<not> IsMasterWithSlot (h r)" if "r \<in> set nodes" for r
    using that fresh by (simp add: nodes_def h ns_def [symmetric] IsMasterWithSlot_def TotalSlots_def)
  have zone: "\<exists>r \<in> set (slice_at (x_nodes c) (sts i)). n_Zonename (h r) = zone_of co c i" if i: "i < n" and cr: "ha_creating c" for i
  proof -
    have "ha_HaEnabled ha \<and> st_HAStatus (drc_Status cluster) = HaStatusCreating" using cr by (simp add: ha_creating_def c_def NewCtx_spec cl)
    with ok ha i obtain x where x: "x \<in> set ns" "n_StatefulSet x = sts i" "n_Zonename x = zone_of co c i"
      by (auto simp: creatable_def Let_def ns_def sts_def n_def zone_of_def c_def NewCtx_spec)
    then obtain r where "r < length ns" "ns ! r = x" by (auto simp: in_set_conv_nth)
    with x named show ?thesis by (intro bexI [of _ r]) (simp_all add: h c_def NewCtx_spec nodes_def ns_def [symmetric])
  qed
  have "sts_problem co h c i = None" if i: "i < n" for i
  proof -
    have name: "x_clusterName c = drc_Name cluster" by (simp add: c_def NewCtx_spec)
    have "sts i \<in> dom (x_nodes c)" using dom i by simp
    moreover have "filter (\<lambda>r. IsMasterWithSlot (h r)) (slice_at (x_nodes c) (sts i)) = []"
      using no_slots by (auto simp: c_def NewCtx_spec filter_empty_conv)
    moreover have "ClusterStatefulSetName (drc_Name cluster) (int i) = sts i" by (simp add: sts_def)
    ultimately show ?thesis using zone [OF i] unfolding sts_problem_def Let_def name by auto
  qed
  moreover have "ha_HaEnabled ha \<and> c_HaStatus cl = HaStatusCreating \<longrightarrow> co_zones co (ha_ZonesInfo ha) \<noteq> []"
    using ok ha by (auto simp: creatable_def Let_def cl)
  note NewCtx_dispatched [OF ord this, of h nodes "spec_MasterSize (drc_Spec cluster)" "drc_Name cluster", folded c_def n_def]
  moreover have "x_currentMasters c = []" using no_slots by (auto simp: c_def NewCtx_spec filter_empty_conv)
  ultimately show ?thesis using dom by metis
qed

text \<open>Attaching the slaves succeeds on servers that answer, if every set with pods has a master.\<close>

lemma place_and_attach_ok:
  fixes w ha cl nodes k name
  defines "h \<equiv> w_heap w" and "c \<equiv> NewCtx (w_heap w) (Some ha) cl nodes k name"
  assumes ord: "\<And>m. finite (dom m) \<Longrightarrow> range_order (co_nodes (r_ctx r) m) m"
    and env: "ping_returns (r_env r)" "\<And>h a i. \<exists>v. e_do (r_env r) h a [AStr ''CLUSTER'', AStr ''REPLICATE'', AStr i] = RVal v"
    and known: "\<forall>x \<in> set nodes. c_Nodes cl (n_ID (h x)) = Some x \<and> n_ID (h x) \<noteq> ''-''"
    and c1: "c1 = chosen c M be" and pl: "placed (r_ctx r) h c1 {..<nat k}" and dom: "dom (x_nodes c) \<subseteq> dom M"
  shows "\<exists>w1. place_and_attach r c1 w = Some (None, w1) \<and> (\<forall>x. static (w_heap w1 x) = static (h x)) \<and>
    (\<forall>s m. M s = Some m \<longrightarrow> w_heap w1 m = h m \<and>
      (\<forall>x \<in> set nodes. sts_of h cl x = Some s \<and> n_IP (h x) \<noteq> n_IP (h m) \<longrightarrow> slave_of (w_heap w1 x) (n_ID (h m))))"
proof -
  have sel: "x_nodes c1 = x_nodes c" "x_newMastersBySts c1 = M" by (simp_all add: c1)
  have "range_order (co_nodes (r_ctx r) (x_nodes c1)) (x_nodes c1)" unfolding sel by (rule ord) (simp add: c_def finite_NewCtx_nodes)
  note cases = Ctx_PlaceSlaves_cases [OF this, of h]
  have "\<not> (\<exists>s \<in> dom (x_nodes c1). x_newMastersBySts c1 s = None \<and> slice_at (x_nodes c1) s \<noteq> [])" unfolding sel using dom by (auto simp: domIff)
  with cases obtain c2 where place: "Ctx_PlaceSlaves (r_ctx r) h c1 = Some (None, c2)" by (auto split: if_splits)
  obtain w1 where attach: "AttachingSlavesToMaster (r_env r) (r_ctx r) c2 w = (None, w1)"
    using AttachingSlavesToMaster_ok [OF env, of "r_ctx r" c2 w] by (metis prod.collapse)
  have "place_and_attach r c1 w = Some (None, w1)" by (simp add: place_and_attach_def place attach h_def [symmetric])
  moreover have "static (w_heap w1 x) = static (h x)" for x
    using AttachingSlavesToMaster_loop_static attach unfolding AttachingSlavesToMaster_def h_def by metis
  moreover have "w_heap w1 m = h m" if "M s = Some m" for s m
    using that unfolding h_def
    by - (rule placement_attached(1) [OF ord known [unfolded h_def] c1 [unfolded c_def] pl [unfolded h_def] place [unfolded h_def] attach])
  moreover have "slave_of (w_heap w1 x) (n_ID (h m))"
    if "M s = Some m" "x \<in> set nodes" "sts_of h cl x = Some s" "n_IP (h x) \<noteq> n_IP (h m)" for s m x
    using that unfolding h_def
    by - (rule placement_attached(2) [OF ord known [unfolded h_def] c1 [unfolded c_def] pl [unfolded h_def] place [unfolded h_def] attach])
  ultimately show ?thesis by blast
qed

text \<open>What the heaps before (\<open>h\<close>) and after the attachment (\<open>h1\<close>) and the allocation (\<open>h2\<close>) say of the cluster.\<close>

lemma created_cluster:
  fixes h h1 h2 :: heap and N :: nat
  assumes own': "\<forall>s m. M s = Some m \<longrightarrow> m < N \<and> n_StatefulSet (h m) = s" and dom: "dom M = sts ` {..<k}"
    and ips: "inj_on (\<lambda>x. n_IP (h x)) {..<N}" and no_slots': "\<forall>x < N. n_Slots (h x) = []"
    and st': "\<forall>x. static (h1 x) = static (h x)"
    and att': "\<forall>s m x. M s = Some m \<longrightarrow> x < N \<longrightarrow> n_StatefulSet (h x) = s \<longrightarrow> n_IP (h x) \<noteq> n_IP (h m) \<longrightarrow> slave_of (h1 x) (n_ID (h m))"
    and ms: "distinct ms" "set ms = ran M" and parts: "concat (map (\<lambda>m. n_Slots (h2 m)) ms) = (map word_of_nat [0..<16384] :: slot list)"
    and frame': "\<forall>x. x \<notin> set ms \<longrightarrow> h2 x = h1 x" "\<forall>x. h2 x = (h1 x)\<lparr>n_Slots := n_Slots (h2 x)\<rparr>"
  shows "s < 16384 \<Longrightarrow> \<exists>!m. m < N \<and> s \<in> set (n_Slots (h2 m))"
    and "i < k \<Longrightarrow> \<exists>m < N. n_StatefulSet (h2 m) = sts i \<and> m \<in> set ms \<and>
      (\<forall>x < N. n_StatefulSet (h2 x) = sts i \<longrightarrow> x = m \<or>
        n_Slots (h2 x) = [] \<and> GetRole (h2 x) = RedisClusterNodeRoleSlave \<and> n_MasterReferent (h2 x) = n_ID (h2 m))"
proof -
  note own = own' [rule_format] and no_slots = no_slots' [rule_format] and st = st' [rule_format] and att = att' [rule_format]
  note frame = frame'(1) [rule_format] frame'(2) [rule_format]
  have mem: "m < N" if "m \<in> set ms" for m using that own unfolding ms(2) by (auto simp: ran_def)
  have rest: "n_Slots (h2 x) = []" if "x < N" "x \<notin> set ms" for x
    using frame(1) [OF that(2)] st [of x] no_slots [OF that(1)] by (simp add: static_def)
  have same: "n_ID (h2 x) = n_ID (h x)" "n_StatefulSet (h2 x) = n_StatefulSet (h x)" for x
  proof -
    have "n_ID (h2 x) = n_ID (h1 x)" "n_StatefulSet (h2 x) = n_StatefulSet (h1 x)" by (subst frame(2), simp)+
    with st [of x] show "n_ID (h2 x) = n_ID (h x)" "n_StatefulSet (h2 x) = n_StatefulSet (h x)" by (simp_all add: static_def)
  qed
  show "\<exists>!m. m < N \<and> s \<in> set (n_Slots (h2 m))" if "s < 16384"
  proof -
    from one_owner [OF parts ms(1) that] obtain m where m: "m \<in> set ms" "s \<in> set (n_Slots (h2 m))"
      "\<And>y. y \<in> set ms \<Longrightarrow> s \<in> set (n_Slots (h2 y)) \<Longrightarrow> y = m" by blast
    show ?thesis
    proof (rule ex1I [of _ m])
      show "m < N \<and> s \<in> set (n_Slots (h2 m))" using m mem by blast
      show "y = m" if "y < N \<and> s \<in> set (n_Slots (h2 y))" for y using that m(3) rest by (cases "y \<in> set ms") auto
    qed
  qed
  show "\<exists>m < N. n_StatefulSet (h2 m) = sts i \<and> m \<in> set ms \<and> (\<forall>x < N. n_StatefulSet (h2 x) = sts i \<longrightarrow> x = m \<or>
        n_Slots (h2 x) = [] \<and> GetRole (h2 x) = RedisClusterNodeRoleSlave \<and> n_MasterReferent (h2 x) = n_ID (h2 m))" if "i < k"
  proof -
    obtain m where m: "M (sts i) = Some m" using dom \<open>i < k\<close> by blast
    have "n_Slots (h2 x) = [] \<and> GetRole (h2 x) = RedisClusterNodeRoleSlave \<and> n_MasterReferent (h2 x) = n_ID (h2 m)"
      if x: "x < N" "n_StatefulSet (h x) = sts i" "x \<noteq> m" for x
    proof -
      have "x \<notin> set ms" using own x m unfolding ms(2) by (auto simp: ran_def)
      moreover have "n_IP (h x) \<noteq> n_IP (h m)" using ips own [OF m] x by (auto dest: inj_onD)
      ultimately show ?thesis using att [OF m x(1,2)] frame(1) rest x(1) by (simp add: slave_of_def same)
    qed
    with own [OF m] m show ?thesis unfolding same ms(2) by (intro exI [of _ m]) (auto simp: ran_def same)
  qed
qed

text \<open>
  C1: \<^verbatim>\<open>syncCluster\<close> creates a cluster. From infos that list, for every stateful set, its pods with distinct identifiers and
  addresses, none of them with slots, and on servers that accept the commands, it ends without error, whatever the
  order of its loops. Afterwards every one of the 16384 slots has exactly one owner; every set has one pod that
  owns the quotient of slots, rounded down or up, and the other pods of the set are slaves of that pod and own none.
\<close>

theorem syncCluster_creates:
  fixes r infos cluster
  defines "N \<equiv> length (GetNodes infos)" and "n \<equiv> spec_MasterSize (drc_Spec cluster)"
    and "sts \<equiv> \<lambda>i. ClusterStatefulSetName (drc_Name cluster) (int i)"
  assumes ord': "\<forall>m. finite (dom m) \<longrightarrow> range_order (co_masters (r_ctx r) m) m" "\<forall>m. finite (dom m) \<longrightarrow> range_order (co_nodes (r_ctx r) m) m"
    and env: "ping_returns (r_env r)" "\<And>h a i. \<exists>v. e_do (r_env r) h a [AStr ''CLUSTER'', AStr ''REPLICATE'', AStr i] = RVal v" "\<And>h a x y. e_addslots (r_env r) h a x y = None"
    and ok: "creatable (r_ctx r) infos cluster"
  shows "\<exists>w' h. syncCluster r infos cluster w = Some ((None, cluster), w') \<and> h = w_heap (hw_redis w') \<and>
    (\<forall>s < 16384. \<exists>!m. m < N \<and> s \<in> set (n_Slots (h m))) \<and>
    (\<forall>i < nat n. \<exists>m < N. n_StatefulSet (h m) = sts i \<and>
      16384 div n \<le> int (length (n_Slots (h m))) \<and> int (length (n_Slots (h m))) \<le> (16384 + n - 1) div n \<and>
      (\<forall>x < N. n_StatefulSet (h x) = sts i \<longrightarrow> x = m \<or>
        n_Slots (h x) = [] \<and> GetRole (h x) = RedisClusterNodeRoleSlave \<and> n_MasterReferent (h x) = n_ID (h m)))"
proof -
  note ord = ord'(1) [rule_format] ord'(2) [rule_format]
  define ns h where "ns = GetNodes infos" and "h = nodes_heap (GetNodes infos)"
  have okD: "0 < nat n" "nat n \<le> 16384" "distinct (map n_ID ns)" "''-'' \<notin> n_ID ` set ns" "distinct (map n_IP ns)"
    "\<forall>x \<in> set ns. n_Zonename x \<noteq> '''' \<and> n_Zonename x \<noteq> ''unknown''" "\<forall>x \<in> set ns. n_Slots x = []"
    using ok by (auto simp: creatable_def Let_def ns_def n_def)
  obtain ha where ha: "spec_HaConfig (drc_Spec cluster) = Some ha" using ok by (auto simp: creatable_def Let_def)
  have hns: "h x = ns ! x" if "x < N" for x using that by (simp add: h_def ns_def N_def nodes_heap_def)
  obtain cl where new: "newRedisCluster infos cluster = Inr (h, cl, [0..<N])"
    and cl: "c_HaStatus cl = st_HAStatus (drc_Status cluster)" "\<forall>x < N. c_Nodes cl (n_ID (h x)) = Some x"
    using newRedisCluster_ok [OF okD(3,6) [unfolded ns_def], of cluster] unfolding h_def N_def by blast
  define w0 where "w0 = (hw_redis w)\<lparr>w_heap := h\<rparr>"
  have w0: "w_heap w0 = h" by (simp add: w0_def)
  define c where "c = NewCtx h (Some ha) cl [0..<N] n (drc_Name cluster)"
  obtain M be where d: "Ctx_DispatchMasters (r_ctx r) h c = Some (None, chosen c M be)" and pl: "placed (r_ctx r) h (chosen c M be) {..<nat n}"
    and cur: "x_currentMasters c = []" and dom: "dom (x_nodes c) = sts ` {..<nat n}"
    using creatable_dispatch [OF ord(1) ok ha, of cl] cl unfolding c_def h_def N_def n_def sts_def by blast
  have name: "x_clusterName (chosen c M be) = drc_Name cluster" by (simp add: c_def NewCtx_spec)
  have domM: "dom M = sts ` {..<nat n}" using pl unfolding placed_def name sts_def by simp
  have known: "\<forall>x \<in> set [0..<N]. c_Nodes cl (n_ID (w_heap w0 x)) = Some x \<and> n_ID (w_heap w0 x) \<noteq> ''-''"
  proof
    fix x assume x: "x \<in> set [0..<N]"
    then have "ns ! x \<in> set ns" by (simp add: N_def ns_def)
    then have "n_ID (ns ! x) \<noteq> ''-''" using okD(4) by force
    then show "c_Nodes cl (n_ID (w_heap w0 x)) = Some x \<and> n_ID (w_heap w0 x) \<noteq> ''-''" using cl(2) x by (simp add: w0 hns)
  qed
  obtain w1 where pa: "place_and_attach r (chosen c M be) w0 = Some (None, w1)" and st: "\<forall>x. static (w_heap w1 x) = static (h x)"
    and att: "\<And>s m. M s = Some m \<Longrightarrow> w_heap w1 m = h m"
      "\<And>s m x. M s = Some m \<Longrightarrow> x < N \<Longrightarrow> sts_of h cl x = Some s \<Longrightarrow> n_IP (h x) \<noteq> n_IP (h m) \<Longrightarrow> slave_of (w_heap w1 x) (n_ID (h m))"
    using place_and_attach_ok [OF ord(2) env(1,2) known, of "chosen c M be" ha n "drc_Name cluster" M be] pl dom domM
    unfolding w0 c_def by force
  define ms where "ms = GetNewMasters (r_ctx r) (chosen c M be)"
  have ms: "distinct ms" "set ms = ran M" "length ms = nat n"
    using GetNewMasters_placed [of "r_ctx r" "chosen c M be" h "nat n" "Some ha" cl "[0..<N]" n "drc_Name cluster"] ord(1) [of M] pl domM
    by (simp_all add: ms_def c_def)
  obtain w2 where al: "AllocSlots (r_env r) ms w1 = Some (None, w2)"
    and parts: "concat (map (\<lambda>m. n_Slots (w_heap w2 m)) ms) = map word_of_nat [0..<16384]"
    and size: "\<forall>m \<in> set ms. 16384 div n \<le> int (length (n_Slots (w_heap w2 m))) \<and> int (length (n_Slots (w_heap w2 m))) \<le> (16384 + n - 1) div n"
    and frame: "\<forall>x. x \<notin> set ms \<longrightarrow> w_heap w2 x = w_heap w1 x" "\<forall>x. w_heap w2 x = (w_heap w1 x)\<lparr>n_Slots := n_Slots (w_heap w2 x)\<rparr>"
    using AllocSlots_ok [OF env(1,3) ms(1), of w1] ms(3) okD(1,2) by (force simp: zero_less_iff_neq_zero)
  define w' where "w' = w\<lparr>hw_redis := w2\<rparr>"
  have run: "syncCluster r infos cluster w = Some ((None, cluster), w')"
    using d pa al cur by (simp add: syncCluster_def new ha w0_def [symmetric] c_def [symmetric] n_def [symmetric] sync_masters_def GetCurrentMasters_def
        ms_def [symmetric] w'_def Let_def)
  have own: "\<forall>s m. M s = Some m \<longrightarrow> m < N \<and> n_StatefulSet (h m) = s"
  proof (intro allI impI)
    fix s m assume "M s = Some m"
    from placed_master [OF pl, of "Some ha" cl "[0..<N]" n "drc_Name cluster" s m] this obtain i where
      "s = sts i" "m < N" "sts_of h cl m = Some s" by (auto simp: sts_def c_def NewCtx_spec)
    with cl(2) sts_of_named [of cl h m "drc_Name cluster" "int i"] show "m < N \<and> n_StatefulSet (h m) = s" by (simp add: sts_def)
  qed
  have named: "sts_of h cl x = Some s" if "x < N" "M s = Some m" "n_StatefulSet (h x) = s" for x s m
  proof -
    have "s \<in> dom M" using that(2) by blast
    then obtain i where "s = sts i" unfolding domM by blast
    with that cl(2) sts_of_named [of cl h x "drc_Name cluster" "int i"] show ?thesis by (simp add: sts_def)
  qed
  have ips: "inj_on (\<lambda>x. n_IP (h x)) {..<N}" using okD(5) by (auto simp: inj_on_def hns distinct_conv_nth N_def ns_def [symmetric])
  have att': "\<forall>s m x. M s = Some m \<longrightarrow> x < N \<longrightarrow> n_StatefulSet (h x) = s \<longrightarrow> n_IP (h x) \<noteq> n_IP (h m) \<longrightarrow> slave_of (w_heap w1 x) (n_ID (h m))"
    using att(2) named by blast
  have empty: "\<forall>x < N. n_Slots (h x) = []" using okD(7) by (simp add: hns N_def ns_def [symmetric])
  note fin = created_cluster [OF own domM ips empty st att' ms(1,2) parts frame]
  have "\<exists>m < N. n_StatefulSet (w_heap w2 m) = sts i \<and> 16384 div n \<le> int (length (n_Slots (w_heap w2 m))) \<and>
      int (length (n_Slots (w_heap w2 m))) \<le> (16384 + n - 1) div n \<and> (\<forall>x < N. n_StatefulSet (w_heap w2 x) = sts i \<longrightarrow> x = m \<or>
        n_Slots (w_heap w2 x) = [] \<and> GetRole (w_heap w2 x) = RedisClusterNodeRoleSlave \<and> n_MasterReferent (w_heap w2 x) = n_ID (w_heap w2 m))"
    if "i < nat n" for i using fin(2) [OF that] size by blast
  with run fin(1) show ?thesis by (intro exI [of _ w'] exI [of _ "w_heap w2"]) (simp add: w'_def)
qed

definition example_reconciler :: reconciler where
  "example_reconciler = \<lparr>r_env = example_server, r_kube = example_kube, r_ctx = sorted_ctx, r_orders = sorted_orders, r_wrapf = (\<lambda>e _. e),
     r_agg = agg_all, r_now = 0, r_ticks = (\<lambda>_. 3), r_node_string = n_ID\<rparr>"

definition fresh_node :: "string \<Rightarrow> string \<Rightarrow> node" where
  "fresh_node i ip = NewDefaultNode\<lparr>n_ID := i, n_IP := ip, n_Role := RedisMasterRole, n_StatefulSet := ''drc-c-0'', n_Zonename := ''z1''\<rparr>"

definition fresh_pair :: ClusterInfos where
  "fresh_pair = NewClusterInfos\<lparr>ci_Infos := [(''1:6379'', \<lparr>ni_Node = fresh_node ''a'' ''1'', ni_Friends = []\<rparr>),
     (''2:6379'', \<lparr>ni_Node = fresh_node ''b'' ''2'', ni_Friends = []\<rparr>)]\<rparr>"

definition pair_drc :: DistributedRedisCluster where
  "pair_drc = example_drc\<lparr>drc_Spec := example_spec\<lparr>spec_HaConfig := Some no_ha\<rparr>\<rparr>"

lemma fresh_pair_creatable: "creatable sorted_ctx fresh_pair pair_drc"
proof -
  have "ClusterStatefulSetName ''c'' 0 = ''drc-c-0''" by code_simp
  then show ?thesis
    by (simp add: creatable_def fresh_pair_def fresh_node_def NewClusterInfos_def GetNodes_def pair_drc_def example_drc_def example_spec_def no_ha_def NewDefaultNode_def
        lessThan_Suc Let_def)
qed

lemma example_reconciler_ok:
  "\<forall>m. finite (dom m) \<longrightarrow> range_order (co_masters (r_ctx example_reconciler) m) m"
  "\<forall>m. finite (dom m) \<longrightarrow> range_order (co_nodes (r_ctx example_reconciler) m) m"
  "ping_returns (r_env example_reconciler)" "\<exists>v. e_do (r_env example_reconciler) h a [AStr ''CLUSTER'', AStr ''REPLICATE'', AStr i] = RVal v" "e_addslots (r_env example_reconciler) h a x y = None"
  by (simp_all add: example_reconciler_def sorted_ctx_ok ping_returns_def example_server_def server_with_def sendable_def dead_env_def split: list.splits arg.splits)

theorem syncCluster_creates_witness:
  "\<exists>w' h. syncCluster example_reconciler fresh_pair pair_drc example_hworld = Some ((None, pair_drc), w') \<and> h = w_heap (hw_redis w') \<and>
    (\<forall>s < 16384. \<exists>!m. m < length (GetNodes fresh_pair) \<and> s \<in> set (n_Slots (h m))) \<and>
    (\<exists>m < length (GetNodes fresh_pair). n_StatefulSet (h m) = ClusterStatefulSetName ''c'' 0 \<and> length (n_Slots (h m)) = 16384)"
proof -
  have n: "spec_MasterSize (drc_Spec pair_drc) = 1" "drc_Name pair_drc = ''c''" by (simp_all add: pair_drc_def example_drc_def example_spec_def)
  have "creatable (r_ctx example_reconciler) fresh_pair pair_drc" by (simp add: example_reconciler_def fresh_pair_creatable)
  note run = syncCluster_creates [OF example_reconciler_ok this, of example_hworld, unfolded n]
  obtain w' h where w': "syncCluster example_reconciler fresh_pair pair_drc example_hworld = Some ((None, pair_drc), w')" "h = w_heap (hw_redis w')"
    "\<forall>s < 16384. \<exists>!m. m < length (GetNodes fresh_pair) \<and> s \<in> set (n_Slots (h m))"
    and owner: "\<forall>i < nat 1. \<exists>m < length (GetNodes fresh_pair). n_StatefulSet (h m) = ClusterStatefulSetName ''c'' (int i) \<and>
      16384 div 1 \<le> int (length (n_Slots (h m))) \<and> int (length (n_Slots (h m))) \<le> (16384 + 1 - 1) div 1 \<and>
      (\<forall>x < length (GetNodes fresh_pair). n_StatefulSet (h x) = ClusterStatefulSetName ''c'' (int i) \<longrightarrow> x = m \<or>
        n_Slots (h x) = [] \<and> GetRole (h x) = RedisClusterNodeRoleSlave \<and> n_MasterReferent (h x) = n_ID (h m))"
    using run by (elim exE conjE) (rule that)
  from owner [rule_format, of 0] have "\<exists>m < length (GetNodes fresh_pair). n_StatefulSet (h m) = ClusterStatefulSetName ''c'' 0 \<and> length (n_Slots (h m)) = 16384"
    by force
  with w' show ?thesis by blast
qed

end
