(* ===== verification/Pod_Updates.thy ===== *)
theory Pod_Updates
  imports Sync_Handler Acl
begin

text \<open>
  The rest of \<^verbatim>\<open>controllers/distributedrediscluster/sync_handler.go\<close>: \<^verbatim>\<open>checkandUpdatePassword\<close>, which sends changed access
  control lists to the servers, and \<^verbatim>\<open>checkandUpdatePods\<close>, which deletes the pods of an old revision, slaves first and
  then one master, and keeps the labels and annotations of the others up to date.
\<close>

section \<open>Passwords\<close>

fun send_acl_to :: "env \<Rightarrow> string \<Rightarrow> string list \<Rightarrow> world \<Rightarrow> err option \<times> world" where
  "send_acl_to env acl [] w = (None, w)"
| "send_acl_to env acl (addr # addrs) w =
     (let (resp, w) = do_cmd env addr (map AStr (Fields acl)) w;
          (err, w) = ValidateResp env (Some resp) addr ''unable to set ACL'' w
      in if err \<noteq> None then (err, w) else send_acl_to env acl addrs w)"

fun send_acls :: "env \<Rightarrow> string list \<Rightarrow> world \<Rightarrow> err option \<times> world" where
  "send_acls env [] w = (None, w)"
| "send_acls env (acl # acls) w =
     (case send_acl_to env acl (GetAll env w) w of
        (Some err, w) \<Rightarrow> (Some err, w)
      | (None, w) \<Rightarrow> send_acls env acls w)"

text \<open>
  The first component is the map of the new versions, \<open>None\<close> for nil. \<open>ord\<close> is the order of the loops over maps. The
  versions are returned as well when the pods are not ready and nothing was sent.
\<close>

definition checkandUpdatePassword ::
    "reconciler \<Rightarrow> ((string \<rightharpoonup> string) \<Rightarrow> string list) \<Rightarrow> DistributedRedisCluster \<Rightarrow> hworld
       \<Rightarrow> (((string \<rightharpoonup> string) option \<times> err option) \<times> DistributedRedisCluster) \<times> hworld" where
  "checkandUpdatePassword r ord cluster w =
     (case CheckPasswordChanged (r_kube r) ord cluster w of
        ((passChanged, newaclconf, newsecretver, Some err), w) \<Rightarrow> (((None, Some err), cluster), w)
      | ((passChanged, newaclconf, newsecretver, None), w) \<Rightarrow>
          if \<not> passChanged then (((None, None), cluster), w)
          else
            let cluster = cluster\<lparr>drc_Status := SetClusterResetPassword (''Updating ACL'' @ [CHR 0x27] @ ''s'') (drc_Status cluster)\<rparr>;
                w = snd (UpdateCRStatus (r_kube r) cluster w)
            in (case CheckRedisNodeNum (r_kube r) cluster w of
                  (Some _, w) \<Rightarrow> (((Some newsecretver, None), cluster), w)
                | (None, w) \<Rightarrow>
                    (case GenerateAclcommands ord cluster newaclconf newsecretver of
                       (_, Some err) \<Rightarrow> (((Some newsecretver, Some err), cluster), w)
                     | (aclcommands, None) \<Rightarrow>
                         (case send_acls (r_env r) (map (\<lambda>k. the (aclcommands k)) (ord aclcommands)) (hw_redis w) of
                            (Some err, rw) \<Rightarrow> (((None, Some err), cluster), w\<lparr>hw_redis := rw\<rparr>)
                          | (None, rw) \<Rightarrow> (((Some newsecretver, None), cluster), w\<lparr>hw_redis := rw\<rparr>)))))"

lemma ran_the: "(\<lambda>k. the (m k)) ` dom m = ran m"
  by (force simp: ran_def)

text \<open>The commands of a list of events are accepted one after the other, from a given history on.\<close>

fun accepted :: "env \<Rightarrow> history \<Rightarrow> event list \<Rightarrow> bool" where
  "accepted env t [] = True"
| "accepted env t (e # es) =
     ((case e of EDo addr args \<Rightarrow> reply_err (e_do env t addr args) = None | _ \<Rightarrow> True) \<and> accepted env (t @ [e]) es)"

lemma accepted_append [simp]: "accepted env t (xs @ ys) \<longleftrightarrow> accepted env t xs \<and> accepted env (t @ xs) ys"
  by (induction env t xs rule: accepted.induct) auto

lemma accepted_mem: "accepted env t es \<Longrightarrow> EDo a c \<in> set es \<Longrightarrow> \<exists>h. reply_err (e_do env h a c) = None"
  by (induction env t es rule: accepted.induct) auto

text \<open>
  What becomes of commands that are sent until one is refused: all of a set are sent and accepted, or the accepted ones are
  followed by a refused one, after which at most its connection is renewed.
\<close>

definition sent_until_refused :: "env \<Rightarrow> event set \<Rightarrow> world \<Rightarrow> err option \<Rightarrow> world \<Rightarrow> bool" where
  "sent_until_refused env S w err w' \<longleftrightarrow>
     (\<exists>es. accepted env (w_trace w) es \<and> set es \<subseteq> S \<and>
       (if err = None then set es = S \<and> w' = w\<lparr>w_trace := w_trace w @ es\<rparr>
        else (\<exists>addr args rest. EDo addr args \<in> S \<and> reply_err (e_do env (w_trace w @ es) addr args) \<noteq> None \<and>
          w_trace w' = w_trace w @ es @ EDo addr args # rest \<and> set rest \<subseteq> {EClose addr, EPing addr})))"

lemma sent_all: "accepted env (w_trace w) es \<Longrightarrow> set es = S \<Longrightarrow> sent_until_refused env S w None (w\<lparr>w_trace := w_trace w @ es\<rparr>)"
  unfolding sent_until_refused_def by auto

lemma sent_some:
  assumes "accepted env (w_trace w) es" "set es \<subseteq> S" "EDo addr args \<in> S" "reply_err (e_do env (w_trace w @ es) addr args) \<noteq> None"
    "w_trace w' = w_trace w @ es @ EDo addr args # rest" "set rest \<subseteq> {EClose addr, EPing addr}"
  shows "sent_until_refused env S w (Some e) w'"
  using assms unfolding sent_until_refused_def by (intro exI [of _ es]) auto

lemma sent_until_refusedE:
  assumes "sent_until_refused env S w err w'"
  obtains (all) es where "err = None" "accepted env (w_trace w) es" "set es = S" "w' = w\<lparr>w_trace := w_trace w @ es\<rparr>"
    | (some) e es addr args rest where "err = Some e" "accepted env (w_trace w) es" "set es \<subseteq> S" "EDo addr args \<in> S"
      "reply_err (e_do env (w_trace w @ es) addr args) \<noteq> None" "w_trace w' = w_trace w @ es @ EDo addr args # rest"
      "set rest \<subseteq> {EClose addr, EPing addr}"
  using assms unfolding sent_until_refused_def by (cases err) (auto split: if_splits)

text \<open>Commands that were accepted before, from another part of the set.\<close>

lemma sent_after:
  assumes "accepted env (w_trace w) es1" and "set es1 = S1" and "sent_until_refused env S (w\<lparr>w_trace := w_trace w @ es1\<rparr>) err w'"
  shows "sent_until_refused env (S1 \<union> S) w err w'"
  using assms(3)
proof (cases rule: sent_until_refusedE)
  case (all es)
  then have "w' = w\<lparr>w_trace := w_trace w @ (es1 @ es)\<rparr>" by simp
  moreover have "accepted env (w_trace w) (es1 @ es)" "set (es1 @ es) = S1 \<union> S" using all assms(1,2) by simp_all
  ultimately show ?thesis using all(1) sent_all by blast
next
  case (some e es addr args rest)
  show ?thesis unfolding some(1)
    by (rule sent_some [of _ _ "es1 @ es" _ addr args _ rest]) (use some assms(1,2) in auto)
qed

lemma sent_mono_refused:
  assumes "sent_until_refused env S w (Some e) w'" and "S \<subseteq> S'"
  shows "sent_until_refused env S' w (Some e) w'"
  using assms(1)
proof (cases rule: sent_until_refusedE)
  case (some e' es addr args rest)
  then show ?thesis using assms(2) by (intro sent_some [of _ _ es _ addr args _ rest]) auto
qed simp

lemma handleError_events: "\<exists>rest. w_trace (snd (handleError env addr err w)) = w_trace w @ rest \<and> set rest \<subseteq> {EClose addr, EPing addr}"
  by (auto simp: handleError_def Reconnect_def cnx_Add_def cnx_Remove_def Update_def connect_eq Let_def split: option.splits err.splits)

lemma send_acl_to_cases:
  "send_acl_to env acl addrs w = (err, w') \<Longrightarrow>
   sent_until_refused env ((\<lambda>addr. EDo addr (map AStr (Fields acl))) ` set addrs) w err w'"
proof (induction addrs arbitrary: w)
  case Nil
  then show ?case using sent_all [of env w "[]" "{}"] by simp
next
  case (Cons addr addrs)
  let ?args = "map AStr (Fields acl)"
  let ?e = "EDo addr ?args"
  show ?case
  proof (cases "reply_err (e_do env (w_trace w) addr ?args) = None")
    case True
    then have "send_acl_to env acl addrs (w\<lparr>w_trace := w_trace w @ [?e]\<rparr>) = (err, w')"
      using Cons.prems by (simp add: do_cmd_def Let_def emit_def)
    from sent_after [OF _ _ Cons.IH [OF this], of "{?e}"] True show ?thesis by simp
  next
    case False
    let ?v = "ValidateResp env (Some (e_do env (w_trace w) addr ?args)) addr ''unable to set ACL'' (emit ?e w)"
    obtain rest where rest: "w_trace (snd ?v) = w_trace (emit ?e w) @ rest" "set rest \<subseteq> {EClose addr, EPing addr}"
      using handleError_events [of env addr "reply_err (e_do env (w_trace w) addr ?args)" "emit ?e w"] False
      by (auto simp: ValidateResp_def)
    obtain e where "err = Some e" "w' = snd ?v"
      using Cons.prems False by (auto simp: do_cmd_def Let_def ValidateResp_def)
    with False rest show ?thesis by (auto intro: sent_some [of _ _ "[]" _ addr ?args _ rest])
  qed
qed

lemma send_acls_cases:
  assumes "\<forall>h. set (e_order env h (w_clients w)) = set (w_clients w)"
  shows "send_acls env acls w = (err, w') \<Longrightarrow>
    sent_until_refused env {EDo addr (map AStr (Fields acl)) | addr acl. addr \<in> set (w_clients w) \<and> acl \<in> set acls} w err w'"
  using assms
proof (induction acls arbitrary: w)
  case Nil
  then show ?case using sent_all [of env w "[]" "{}"] by simp
next
  case (Cons acl acls)
  let ?f = "\<lambda>acl addr. EDo addr (map AStr (Fields acl))"
  let ?S = "\<lambda>acls. {EDo addr (map AStr (Fields acl)) | addr acl. addr \<in> set (w_clients w) \<and> acl \<in> set acls}"
  have all: "set (GetAll env w) = set (w_clients w)" using Cons.prems(2) by (simp add: GetAll_def)
  have S: "?S (acl # acls) = ?f acl ` set (GetAll env w) \<union> ?S acls" unfolding all by auto
  obtain err1 w1 where one: "send_acl_to env acl (GetAll env w) w = (err1, w1)" by fastforce
  from send_acl_to_cases [OF one] show ?case
  proof (cases rule: sent_until_refusedE)
    case (some e)
    then have "err = Some e" "w' = w1" using Cons.prems(1) one by simp_all
    with some(1) send_acl_to_cases [OF one] show ?thesis unfolding S by (simp add: sent_mono_refused)
  next
    case (all es1)
    then have "send_acls env acls w1 = (err, w')" using Cons.prems(1) one by simp
    from Cons.IH [OF this] Cons.prems(2) all(4) have "sent_until_refused env (?S acls) w1 err w'" by simp
    with sent_after [OF all(2,3)] all(4) show ?thesis unfolding S by simp
  qed
qed

text \<open>
  C20: A change of a secret. If some stateful set does not have all its pods ready, no command is sent to redis, and yet the
  versions of the secrets are returned without an error; the caller stores them in the status, so that the next pass sees
  no change. Otherwise the commands of the keys whose versions changed are sent to the connected servers until one is
  refused: without an error every server has accepted the command of every changed key, and the versions are returned; with
  an error none is returned, the commands before the refused one stay in force and no other is sent.
\<close>

theorem checkandUpdatePassword_spec:
  assumes ord: "\<forall>m. finite (dom m) \<longrightarrow> range_order (ord m) m" and finite: "finite (dom (st_SecretsVer (drc_Status cluster)))"
    and changed: "CheckPasswordChanged (r_kube r) ord cluster w = ((True, conf, vers, err), w1)"
    and cluster': "cluster' = cluster\<lparr>drc_Status := SetClusterResetPassword (''Updating ACL'' @ [CHR 0x27] @ ''s'') (drc_Status cluster)\<rparr>"
    and ready: "CheckRedisNodeNum (r_kube r) cluster' (snd (UpdateCRStatus (r_kube r) cluster' w1)) = (unready, w2)"
    and order: "\<forall>h. set (e_order (r_env r) h (w_clients (hw_redis w))) = set (w_clients (hw_redis w))"
  shows "\<exists>failure redis. checkandUpdatePassword r ord cluster w =
      (((if failure = None then Some vers else None, failure), cluster'), w2\<lparr>hw_redis := redis\<rparr>) \<and>
    (unready \<noteq> None \<longrightarrow> failure = None \<and> redis = hw_redis w) \<and>
    (unready = None \<longrightarrow> sent_until_refused (r_env r) {EDo addr (map AStr (Fields cmd)) | addr cmd. addr \<in> set (w_clients (hw_redis w)) \<and>
         cmd \<in> ran (acl_commands (parseAclInput conf) (st_SecretsVer (drc_Status cluster)) vers)} (hw_redis w) failure redis)"
proof -
  let ?old = "st_SecretsVer (drc_Status cluster)"
  let ?cmds = "acl_commands (parseAclInput conf) ?old vers"
  note c = changed_commands [OF ord refl finite changed]
  have "st_SecretsVer (drc_Status cluster') = ?old" by (simp add: cluster' SetClusterResetPassword_def)
  then have cmds: "GenerateAclcommands ord cluster' conf vers = (?cmds, None)" using c(4) by (simp add: GenerateAclcommands_def)
  have "hw_redis w1 = hw_redis w" using CheckPasswordChanged_redis [of "r_kube r" ord cluster w] changed by simp
  then have redis: "hw_redis w2 = hw_redis w"
    using CheckRedisNodeNum_loop_spec [OF ready [unfolded CheckRedisNodeNum_def]] by (simp add: UpdateCRStatus_def)
  note run = checkandUpdatePassword_def [of r ord cluster w, unfolded changed c(1) prod.case option.case Let_def, folded cluster', unfolded ready]
  show ?thesis
  proof (cases unready)
    case (Some e)
    then have "checkandUpdatePassword r ord cluster w = (((Some vers, None), cluster'), w2)" using run by simp
    with Some redis show ?thesis by (intro exI [of _ None] exI [of _ "hw_redis w"]) (cases w2, simp)
  next
    case None
    have "range_order (ord ?cmds) ?cmds" using ord finite_commands [OF finite c(3)] by blast
    then have set: "set (map (\<lambda>k. the (?cmds k)) (ord ?cmds)) = ran ?cmds" using ran_the [of ?cmds] by (simp add: range_order_def)
    obtain failure rw where s: "send_acls (r_env r) (map (\<lambda>k. the (?cmds k)) (ord ?cmds)) (hw_redis w) = (failure, rw)" by fastforce
    have "checkandUpdatePassword r ord cluster w =
      (((if failure = None then Some vers else None, failure), cluster'), w2\<lparr>hw_redis := rw\<rparr>)"
      using None run cmds redis s by (simp split: option.splits)
    with None send_acls_cases [OF order s, unfolded set] show ?thesis by blast
  qed
qed

text \<open>A server that refuses a command with too few arguments.\<close>

definition strict_reconciler :: reconciler where
  "strict_reconciler = example_reconciler\<lparr>r_env := example_server\<lparr>
     e_do := (\<lambda>_ _ args. if length args < 3 then RErr (Errorf ''wrong number of arguments'' []) else RVal VNil)\<rparr>\<rparr>"

theorem checkandUpdatePassword_spec_witness:
  "\<exists>e c' w'. checkandUpdatePassword strict_reconciler map_keys acl_drc example_hworld = (((None, Some e), c'), w')"
proof -
  let ?vers = "[''x--admin'' \<mapsto> ''7'', ''x--default'' \<mapsto> ''7'']"
  let ?c = "acl_drc\<lparr>drc_Status := SetClusterResetPassword (''Updating ACL'' @ [CHR 0x27] @ ''s'') (drc_Status acl_drc)\<rparr>"
  have k: "r_kube strict_reconciler = example_kube" by (simp add: strict_reconciler_def example_reconciler_def)
  from acl_changed obtain conf w1 where run: "CheckPasswordChanged (r_kube strict_reconciler) map_keys acl_drc example_hworld = ((True, conf, ?vers, None), w1)"
    unfolding k by blast
  have old: "st_SecretsVer (drc_Status acl_drc) = [''x--admin'' \<mapsto> ''6'']" by (simp add: acl_drc_def)
  obtain w2 where ready: "CheckRedisNodeNum (r_kube strict_reconciler) ?c (snd (UpdateCRStatus (r_kube strict_reconciler) ?c w1)) = (None, w2)"
    by (simp add: k CheckRedisNodeNum_def acl_drc_def example_spec_def GetStatefulSet_def example_kube_def example_set_def checkRedisNodeNum_def)
  have one: "acl_commands (parseAclInput conf) [''x--admin'' \<mapsto> ''6''] ?vers ''x--admin'' = Some ''acl setuser ''"
    by (simp add: acl_commands_def key_at_def parse_admin acl_user_def SplitStr_def numeral_eq_Suc)
  have clients: "w_clients (hw_redis example_hworld) = [''a:1'']" by (simp add: example_hworld_def example_world_def)
  let ?cmd = "EDo ''a:1'' (map AStr (Fields ''acl setuser ''))"
  let ?S = "{EDo addr (map AStr (Fields cmd)) | addr cmd. addr \<in> set [''a:1''] \<and> cmd \<in> ran (acl_commands (parseAclInput conf) [''x--admin'' \<mapsto> ''6''] ?vers)}"
  have cmd: "?cmd \<in> ?S" using ranI [where m = "acl_commands (parseAclInput conf) [''x--admin'' \<mapsto> ''6''] ?vers", OF one] by auto
  have refused: "reply_err (e_do (r_env strict_reconciler) h ''a:1'' (map AStr (Fields ''acl setuser ''))) \<noteq> None" for h
  proof -
    have "length (Fields ''acl setuser '') = 2" by code_simp
    then show ?thesis by (simp add: strict_reconciler_def reply_err_def)
  qed
  have fin: "finite (dom [''x--admin'' \<mapsto> ''6''])" by simp
  have order: "\<forall>h. set (e_order (r_env strict_reconciler) h [''a:1'']) = set [''a:1'']"
    by (simp add: strict_reconciler_def example_server_def server_with_def dead_env_def)
  from checkandUpdatePassword_spec [OF map_keys_ord _ run refl ready, unfolded old clients, OF fin order] obtain failure redis
    where f: "checkandUpdatePassword strict_reconciler map_keys acl_drc example_hworld =
        (((if failure = None then Some ?vers else None, failure), ?c), w2\<lparr>hw_redis := redis\<rparr>)"
      "sent_until_refused (r_env strict_reconciler) ?S (hw_redis example_hworld) failure redis"
    by (elim exE conjE) (rule that, assumption, simp only: simp_thms)
  from f(2) have "failure \<noteq> None"
  proof (cases rule: sent_until_refusedE)
    case (all es)
    from cmd have "?cmd \<in> set es" unfolding all(3) .
    from accepted_mem [OF all(2) this] refused show ?thesis by blast
  qed simp
  with f(1) show ?thesis by auto
qed

section \<open>Roles and revisions\<close>

definition IsSlaveReady :: "reconciler \<Rightarrow> string \<Rightarrow> world \<Rightarrow> (err + bool) \<times> world" where
  "IsSlaveReady r ip w =
     (case cnx_Get (r_env r) ip w of
        ((c, Some err), w) \<Rightarrow> (Inl err, w)
      | ((c, None), w) \<Rightarrow>
          (case e_info (r_env r) (w_trace w) ip of
             Inl err \<Rightarrow> (Inl err, emit (EInfo ip) w)
           | Inr info \<Rightarrow>
               (Inr (\<not> str_contains info RedisSyncing \<and> \<not> str_contains info RedisMasterSillPending \<and> str_contains info RedisLinkUp),
                emit (EInfo ip) w)))"

fun ips_by_role :: "env \<Rightarrow> string list \<Rightarrow> string list \<Rightarrow> string list \<Rightarrow> world \<Rightarrow> (err + string list \<times> string list) \<times> world" where
  "ips_by_role env [] masterNodes slaveNodes w = (Inr (masterNodes, slaveNodes), w)"
| "ips_by_role env (addr # addrs) masterNodes slaveNodes w =
     (case e_info env (w_trace w) addr of
        Inl err \<Rightarrow> (Inl err, emit (EInfo addr) w)
      | Inr info \<Rightarrow>
          if str_contains info ''role:master'' then ips_by_role env addrs (masterNodes @ [addr]) slaveNodes (emit (EInfo addr) w)
          else if str_contains info ''role:slave'' then ips_by_role env addrs masterNodes (slaveNodes @ [addr]) (emit (EInfo addr) w)
          else ips_by_role env addrs masterNodes slaveNodes (emit (EInfo addr) w))"

definition getRedisIPsByRole :: "reconciler \<Rightarrow> world \<Rightarrow> (err + string list \<times> string list) \<times> world" where
  "getRedisIPsByRole r w = ips_by_role (r_env r) (GetAll (r_env r) w) [] [] w"

fun updated_revisions :: "reconciler \<Rightarrow> DistributedRedisCluster \<Rightarrow> nat list \<Rightarrow> string list \<Rightarrow> hworld \<Rightarrow> (string list \<times> rerror option) \<times> hworld" where
  "updated_revisions r cluster [] hashes w = ((hashes, None), w)"
| "updated_revisions r cluster (i # is) hashes w =
     (case GetStatefulSet (r_kube r) (drc_Namespace cluster) (ClusterStatefulSetName (drc_Name cluster) (int i)) w of
        (Inl err, w) \<Rightarrow> ((hashes, wrap r Kubernetes err ''GetStatefulSet''), w)
      | (Inr sts, w) \<Rightarrow>
          let cssUR = Split (CHR ''-'') (ss_UpdateRevision sts) in
          updated_revisions r cluster is (if length cssUR > 0 then hashes @ [last cssUR] else hashes) w)"

definition getStatefulsetUpdatedRevision :: "reconciler \<Rightarrow> DistributedRedisCluster \<Rightarrow> hworld \<Rightarrow> (string list \<times> rerror option) \<times> hworld" where
  "getStatefulsetUpdatedRevision r cluster w = updated_revisions r cluster [0..<nat (spec_MasterSize (drc_Spec cluster))] [] w"

section \<open>One pod\<close>

text \<open>Pods are changed through their pointers: the changed pod is part of the result.\<close>

definition setRoleLabelIfNeeded :: "kube \<Rightarrow> Pod \<Rightarrow> string \<Rightarrow> hworld \<Rightarrow> (Pod \<times> err option) \<times> hworld" where
  "setRoleLabelIfNeeded k pod role w =
     (if pod_Labels pod RedisRoleLabelKey = Some role then ((pod, None), w) else UpdatePodLabels k pod RedisRoleLabelKey role w)"

definition setPodAnnotationIfNeeded :: "kube \<Rightarrow> string \<Rightarrow> Pod \<Rightarrow> hworld \<Rightarrow> (Pod \<times> err option) \<times> hworld" where
  "setPodAnnotationIfNeeded k role pod w =
     (if role = ''Master'' then (case UpdatePodAnnotations k pod PodEvictAnnotation ''false'' w of ((pod, _), w) \<Rightarrow> ((pod, None), w))
      else if role = ''Slave'' then (case UpdatePodAnnotations k pod PodEvictAnnotation ''true'' w of ((pod, _), w) \<Rightarrow> ((pod, None), w))
      else ((pod, Some (Errorf ''setPodAnnotationIfNeeded - invalid role'' [])), w))"

definition ControllerRevisionHashLabelKey :: string where "ControllerRevisionHashLabelKey = ''controller-revision-hash''"

text \<open>
  The pod that was found. \<open>None\<close> is an index out of range: a pod name without a hyphen, or a set for which no
  revision is known.
\<close>

definition update_pod ::
    "kube \<Rightarrow> Pod \<Rightarrow> string list \<Rightarrow> string \<Rightarrow> string \<Rightarrow> hworld \<Rightarrow> ((Pod \<times> bool \<times> err option) \<times> hworld) option" where
  "update_pod k pod revision_hashes namespace role w =
     (let pod_name = Split (CHR ''-'') (pod_Name pod) in
      if length pod_name < 2 then None
      else case ParseInt (pod_name ! (length pod_name - 2)) of
        (_, Some _) \<Rightarrow> Some ((pod, False, Some (Errorf ''unable to convert pod hash identifier to int'' [])), w)
      | (stsIdentifier, None) \<Rightarrow>
          let pod_hash = Split (CHR ''-'') (key_at (pod_Labels pod) ControllerRevisionHashLabelKey) in
          if length pod_hash < 3 then Some ((pod, False, Some (Errorf ''pod hash is invalid'' [])), w)
          else if stsIdentifier < 0 \<or> int (length revision_hashes) \<le> stsIdentifier then None
          else if revision_hashes ! nat stsIdentifier \<noteq> last pod_hash then
            (case DeletePodByName k namespace (pod_Name pod) w of
               (Some err, w) \<Rightarrow> Some ((pod, False, Some err), w)
             | (None, w) \<Rightarrow> Some ((pod, True, None), w))
          else
            (case setRoleLabelIfNeeded k pod role w of
               ((pod, Some err), w) \<Rightarrow> Some ((pod, False, Some err), w)
             | ((pod, None), w) \<Rightarrow> (case setPodAnnotationIfNeeded k role pod w of ((pod, err1), w) \<Rightarrow> Some ((pod, False, err1), w))))"

text \<open>The address without its port.\<close>

definition strip_port :: "string \<Rightarrow> string" where
  "strip_port ip = (case IndexByte ip (CHR '':'') of Some index \<Rightarrow> if index > 0 then take index ip else ip | None \<Rightarrow> ip)"

fun updatePodIfNeeded ::
    "kube \<Rightarrow> string \<Rightarrow> Pod list \<Rightarrow> string list \<Rightarrow> string \<Rightarrow> string \<Rightarrow> hworld \<Rightarrow> ((Pod list \<times> bool \<times> err option) \<times> hworld) option" where
  "updatePodIfNeeded k ip [] revision_hashes namespace role w = Some (([], False, Some (Errorf ''pod not found'' [])), w)"
| "updatePodIfNeeded k ip (pod # pods) revision_hashes namespace role w =
     (if strip_port ip = pod_PodIP pod
      then map_option (\<lambda>((pod, updated, err), w). ((pod # pods, updated, err), w)) (update_pod k pod revision_hashes namespace role w)
      else map_option (\<lambda>((pods, updated, err), w). ((pod # pods, updated, err), w)) (updatePodIfNeeded k ip pods revision_hashes namespace role w))"

section \<open>All pods\<close>

text \<open>
  The loop over the slaves carries the pods and the two flags of the last iteration. The error of reading the
  revisions survives only if there is no slave.
\<close>

fun update_slaves ::
    "reconciler \<Rightarrow> DistributedRedisCluster \<Rightarrow> string list \<Rightarrow> string list \<Rightarrow> Pod list \<Rightarrow> bool \<times> bool \<times> rerror option \<Rightarrow> hworld
       \<Rightarrow> ((Pod list \<times> (rerror + bool \<times> bool \<times> rerror option)) \<times> hworld) option" where
  "update_slaves r cluster ssUR [] pods acc w = Some ((pods, Inr acc), w)"
| "update_slaves r cluster ssUR (slave_ip # ips) pods (ok, updated, err) w =
     (case IsSlaveReady r slave_ip (hw_redis w) of
        (Inl err, rw) \<Rightarrow> Some ((pods, Inl (PlainError err)), w\<lparr>hw_redis := rw\<rparr>)
      | (Inr ok, rw) \<Rightarrow>
          if ok then
            (case updatePodIfNeeded (r_kube r) slave_ip pods ssUR (drc_Namespace cluster) ''Slave'' (w\<lparr>hw_redis := rw\<rparr>) of
               None \<Rightarrow> None
             | Some ((pods, updated, Some err), w) \<Rightarrow> Some ((pods, Inl (PlainError err)), w)
             | Some ((pods, updated, None), w) \<Rightarrow> update_slaves r cluster ssUR ips pods (ok, updated, None) w)
          else update_slaves r cluster ssUR ips pods (ok, updated, None) (w\<lparr>hw_redis := rw\<rparr>))"

text \<open>The masters are visited until one of them was deleted; an error is overwritten by the next master.\<close>

fun update_masters ::
    "reconciler \<Rightarrow> DistributedRedisCluster \<Rightarrow> string list \<Rightarrow> string list \<Rightarrow> Pod list \<Rightarrow> rerror option \<Rightarrow> hworld
       \<Rightarrow> ((Pod list \<times> bool \<times> rerror option) \<times> hworld) option" where
  "update_masters r cluster ssUR [] pods err w = Some ((pods, False, err), w)"
| "update_masters r cluster ssUR (master_ip # ips) pods err w =
     (case updatePodIfNeeded (r_kube r) master_ip pods ssUR (drc_Namespace cluster) ''Master'' w of
        None \<Rightarrow> None
      | Some ((pods, True, err), w) \<Rightarrow> Some ((pods, True, map_option PlainError err), w)
      | Some ((pods, False, err), w) \<Rightarrow> update_masters r cluster ssUR ips pods (map_option PlainError err) w)"

definition wait_update :: "reconciler \<Rightarrow> DistributedRedisCluster \<Rightarrow> hworld \<Rightarrow> err option \<times> hworld" where
  "wait_update r cluster w = waiting (r_ticks r (hw_calls w)) ''waitStatefulSetUpdating'' (waitStatefulSetUpdating_Handler (r_kube r) cluster) w"

definition checkandUpdatePods ::
    "reconciler \<Rightarrow> DistributedRedisCluster \<Rightarrow> Pod list \<Rightarrow> hworld \<Rightarrow> ((Pod list \<times> bool \<times> rerror option) \<times> hworld) option" where
  "checkandUpdatePods r cluster pods w =
     (case getRedisIPsByRole r (hw_redis w) of
        (Inl err, rw) \<Rightarrow> Some ((pods, False, Some (PlainError err)), w\<lparr>hw_redis := rw\<rparr>)
      | (Inr (master_ips, slave_ips), rw) \<Rightarrow>
          (case getStatefulsetUpdatedRevision r cluster (w\<lparr>hw_redis := rw\<rparr>) of
             ((ssUR, err), w) \<Rightarrow>
               (case update_slaves r cluster ssUR slave_ips pods (False, False, err) w of
                  None \<Rightarrow> None
                | Some ((pods, Inl err), w) \<Rightarrow> Some ((pods, False, Some err), w)
                | Some ((pods, Inr (ok, updated, err)), w) \<Rightarrow>
                    if updated then
                      (case wait_update r cluster w of
                         (Some err, w) \<Rightarrow> Some ((pods, False, Some (PlainError err)), w)
                       | (None, w) \<Rightarrow> Some ((pods, True, None), w))
                    else if \<not> ok then Some ((pods, True, err), w)
                    else
                      (case update_masters r cluster ssUR master_ips pods err w of
                         None \<Rightarrow> None
                       | Some ((pods, True, err), w) \<Rightarrow>
                           (case wait_update r cluster w of
                              (Some err, w) \<Rightarrow> Some ((pods, False, Some (PlainError err)), w)
                            | (None, w) \<Rightarrow> Some ((pods, True, err), w))
                       | Some ((pods, False, err), w) \<Rightarrow> Some ((pods, False, err), w)))))"

section \<open>Which pods are deleted\<close>

text \<open>The names of the pods that the API server did delete, \<open>h\<close> being the calls made before.\<close>

fun deletions :: "kube \<Rightarrow> kcall list \<Rightarrow> kcall list \<Rightarrow> string list" where
  "deletions k h [] = []"
| "deletions k h (c # cs) =
     (case c of KDeletePod ns n \<Rightarrow> if k_delete_pod k h ns n = None then [n] else [] | _ \<Rightarrow> []) @ deletions k (h @ [c]) cs"

definition dels :: "kube \<Rightarrow> hworld \<Rightarrow> hworld \<Rightarrow> string list \<Rightarrow> bool" where
  "dels k w w' D \<longleftrightarrow> (\<exists>cs. hw_calls w' = hw_calls w @ cs \<and> deletions k (hw_calls w) cs = D)"

lemma deletions_append: "deletions k h (cs @ ds) = deletions k h cs @ deletions k (h @ cs) ds"
  by (induction cs arbitrary: h) simp_all

lemma deletions_none: "\<forall>c \<in> set cs. \<forall>ns n. c \<noteq> KDeletePod ns n \<Longrightarrow> deletions k h cs = []"
  by (induction cs arbitrary: h) (auto split: kcall.split)

lemma dels_redis [simp]: "dels k (w\<lparr>hw_redis := x\<rparr>) w' D = dels k w w' D" "dels k w (w'\<lparr>hw_redis := x\<rparr>) D = dels k w w' D"
  by (simp_all add: dels_def)

lemma dels_refl [simp]: "dels k w w []"
  by (simp add: dels_def)

lemma dels_trans: "dels k w w' D \<Longrightarrow> dels k w' w'' D' \<Longrightarrow> dels k w w'' (D @ D')"
  unfolding dels_def by (elim exE conjE) (rule exI, rule conjI, simp, simp add: deletions_append)

lemma dels_none: "only_calls (\<lambda>c. \<forall>ns n. c \<noteq> KDeletePod ns n) w w' \<Longrightarrow> dels k w w' []"
  unfolding only_calls_def dels_def using deletions_none by blast

lemma DeletePodByName_dels:
  "DeletePodByName k ns n w = (e, w') \<Longrightarrow> dels k w w' (if e = None then [n] else [])"
  by (auto simp: DeletePodByName_def GetPod_def dels_def split: option.splits)

text \<open>What of a pod no update changes, and when its revision is not the one its set should have.\<close>

definition same_pod :: "Pod \<Rightarrow> Pod \<Rightarrow> bool" where
  "same_pod p p' \<longleftrightarrow> pod_Name p' = pod_Name p \<and> pod_PodIP p' = pod_PodIP p \<and>
     pod_Labels p' ControllerRevisionHashLabelKey = pod_Labels p ControllerRevisionHashLabelKey"

definition old_revision :: "string list \<Rightarrow> Pod \<Rightarrow> bool" where
  "old_revision hashes p \<longleftrightarrow> (let ns = Split (CHR ''-'') (pod_Name p) in
     \<exists>i. ParseInt (ns ! (length ns - 2)) = (i, None) \<and> 0 \<le> i \<and> i < int (length hashes) \<and>
         hashes ! nat i \<noteq> last (Split (CHR ''-'') (key_at (pod_Labels p) ControllerRevisionHashLabelKey)))"

lemma same_pod_refl [simp]: "same_pod p p"
  by (simp add: same_pod_def)

lemma same_pods_refl [simp]: "list_all2 same_pod ps ps"
  by (simp add: list_all2_conv_all_nth)

lemma same_pod_old: "same_pod p p' \<Longrightarrow> old_revision hs p' = old_revision hs p"
  by (simp add: same_pod_def old_revision_def key_at_def)

lemma same_pod_trans: "same_pod p q \<Longrightarrow> same_pod q r \<Longrightarrow> same_pod p r"
  by (simp add: same_pod_def)

lemma same_pods_trans: "list_all2 same_pod ps qs \<Longrightarrow> list_all2 same_pod qs rs \<Longrightarrow> list_all2 same_pod ps rs"
  by (rule list_all2_trans [OF same_pod_trans])

definition removable :: "string list \<Rightarrow> string set \<Rightarrow> Pod list \<Rightarrow> string \<Rightarrow> bool" where
  "removable hashes addrs pods n \<longleftrightarrow> (\<exists>p \<in> set pods. pod_Name p = n \<and> pod_PodIP p \<in> addrs \<and> old_revision hashes p)"

lemma same_pods_removable: "list_all2 same_pod ps qs \<Longrightarrow> removable hs A qs n = removable hs A ps n"
  unfolding removable_def by (induction rule: list_all2_induct) (auto simp: same_pod_old, auto simp: same_pod_def)

lemma removable_mono: "removable hs A ps n \<Longrightarrow> A \<subseteq> B \<Longrightarrow> removable hs B ps n"
  by (auto simp: removable_def)

lemma key_ne: "RedisRoleLabelKey \<noteq> ControllerRevisionHashLabelKey"
  by (simp add: RedisRoleLabelKey_def ControllerRevisionHashLabelKey_def)

lemma setRoleLabel_pod: "setRoleLabelIfNeeded k p role w = ((p', e), w') \<Longrightarrow> same_pod p p' \<and> dels k w w' []"
  by (auto simp: setRoleLabelIfNeeded_def UpdatePodLabels_def UpdatePod_def same_pod_def key_ne key_ne [symmetric] Let_def intro: dels_none split: if_splits)

lemma UpdatePodAnnotations_pod: "UpdatePodAnnotations k p a b w = ((p', e), w') \<Longrightarrow> same_pod p p' \<and> dels k w w' []"
  by (auto simp: UpdatePodAnnotations_def UpdatePod_def same_pod_def Let_def intro: dels_none split: if_splits option.splits)

lemma setPodAnnotation_pod: "setPodAnnotationIfNeeded k role p w = ((p', e), w') \<Longrightarrow> same_pod p p' \<and> dels k w w' []"
  by (auto simp: setPodAnnotationIfNeeded_def dest: UpdatePodAnnotations_pod split: if_splits prod.splits)

lemma update_pod_spec:
  assumes "update_pod k p hs ns role w = Some ((p', u, e), w')"
  shows "same_pod p p' \<and> dels k w w' (if u then [pod_Name p] else []) \<and> (u \<longrightarrow> old_revision hs p)"
proof -
  define names where "names = Split (CHR ''-'') (pod_Name p)"
  define hash where "hash = Split (CHR ''-'') (key_at (pod_Labels p) ControllerRevisionHashLabelKey)"
  obtain i pe where i: "ParseInt (names ! (length names - 2)) = (i, pe)" by (rule prod.exhaust)
  note run = assms [unfolded update_pod_def Let_def, folded names_def hash_def]
  show ?thesis
  proof (cases "length names < 2 \<or> pe \<noteq> None \<or> length hash < 3 \<or> i < 0 \<or> int (length hs) \<le> i")
    case True
    with run i show ?thesis by (auto split: if_splits option.splits)
  next
    case False
    then have pe: "pe = None" by simp
    note run = run [unfolded i pe, simplified, simplified False, simplified]
    show ?thesis
    proof (cases "hs ! nat i \<noteq> last hash")
      case True
      with False i have "old_revision hs p" by (auto simp: old_revision_def names_def hash_def)
      with run True False show ?thesis
        by (auto split: prod.splits option.splits if_splits dest!: DeletePodByName_dels)
    next
      case 2: False
      obtain p1 e1 w1 where one: "setRoleLabelIfNeeded k p role w = ((p1, e1), w1)" by (metis prod.exhaust)
      note s1 = setRoleLabel_pod [OF one]
      show ?thesis
      proof (cases e1)
        case (Some err)
        with run 2 one False s1 show ?thesis by (auto split: if_splits)
      next
        case None
        obtain p2 e2 w2 where two: "setPodAnnotationIfNeeded k role p1 w1 = ((p2, e2), w2)" by (metis prod.exhaust)
        note s2 = setPodAnnotation_pod [OF two]
        have "p' = p2" "u = False" "w' = w2" using run 2 one two None False by (auto split: if_splits)
        with s1 s2 dels_trans [of k w w1 "[]" w2 "[]"] same_pod_trans show ?thesis by auto
      qed
    qed
  qed
qed

lemma updatePod_spec:
  "updatePodIfNeeded k ip pods hs ns role w = Some ((pods', u, e), w') \<Longrightarrow>
   list_all2 same_pod pods pods' \<and> (\<exists>D. dels k w w' D \<and> (if u then \<exists>n. D = [n] \<and> removable hs {strip_port ip} pods n else D = []))"
proof (induction pods arbitrary: pods')
  case (Cons p pods)
  show ?case
  proof (cases "strip_port ip = pod_PodIP p")
    case True
    with Cons.prems obtain p' where p': "update_pod k p hs ns role w = Some ((p', u, e), w')" "pods' = p' # pods" by auto
    from update_pod_spec [OF p'(1)] True p'(2) show ?thesis by (auto simp: removable_def)
  next
    case False
    with Cons.prems obtain ps where ps: "updatePodIfNeeded k ip pods hs ns role w = Some ((ps, u, e), w')" "pods' = p # ps" by auto
    from Cons.IH [OF ps(1)] ps(2) show ?thesis by (auto simp: removable_def split: if_splits)
  qed
qed simp

lemma update_slaves_spec:
  "update_slaves r c hs ips pods acc w = Some ((pods', res), w') \<Longrightarrow>
   list_all2 same_pod pods pods' \<and> (\<exists>D. dels (r_kube r) w w' D \<and> (\<forall>n \<in> set D. removable hs (strip_port ` set ips) pods n))"
proof (induction ips arbitrary: pods acc w)
  case (Cons ip ips)
  obtain ok updated err where acc: "acc = (ok, updated, err)" by (rule prod_cases3)
  obtain ready rw where ready: "IsSlaveReady r ip (hw_redis w) = (ready, rw)" by (rule prod.exhaust)
  note run = Cons.prems [unfolded acc update_slaves.simps ready prod.case]
  have sub: "removable hs (strip_port ` set (ip # ips)) pods n" if "removable hs (strip_port ` set ips) pods n" for n
    using removable_mono [OF that] by auto
  consider (err) e where "ready = Inl e" | (no) "ready = Inr False" | (yes) "ready = Inr True" by (cases ready) auto
  then show ?case
  proof cases
    case err
    with run show ?thesis by (auto intro: exI [of _ "[]"])
  next
    case no
    with run Cons.IH [of pods "(False, updated, None)" "w\<lparr>hw_redis := rw\<rparr>"] sub show ?thesis by auto
  next
    case yes
    then obtain ps u e w1 where one: "updatePodIfNeeded (r_kube r) ip pods hs (drc_Namespace c) ''Slave'' (w\<lparr>hw_redis := rw\<rparr>) = Some ((ps, u, e), w1)"
      using run by (auto split: option.splits)
    from updatePod_spec [OF one] obtain D where D0: "list_all2 same_pod pods ps" "dels (r_kube r) w w1 D"
      "if u then \<exists>n. D = [n] \<and> removable hs {strip_port ip} pods n else D = []" by (simp only: dels_redis) blast
    have "\<forall>n \<in> set D. removable hs (strip_port ` set (ip # ips)) pods n"
      using D0(3) removable_mono [of hs "{strip_port ip}" pods _ "strip_port ` set (ip # ips)"] by (auto split: if_splits)
    note D = D0(1,2) this
    show ?thesis
    proof (cases e)
      case (Some x)
      with run yes one D show ?thesis by auto
    next
      case None
      with run yes one have rest: "update_slaves r c hs ips ps (True, u, None) w1 = Some ((pods', res), w')" by simp
      from Cons.IH [OF rest] obtain D' where D': "list_all2 same_pod ps pods'" "dels (r_kube r) w1 w' D'" "\<forall>n \<in> set D'. removable hs (strip_port ` set ips) ps n" by blast
      have "\<forall>n \<in> set (D @ D'). removable hs (strip_port ` set (ip # ips)) pods n"
        using D(3) D'(3) sub same_pods_removable [OF D(1)] by auto
      with D D' dels_trans show ?thesis using same_pods_trans by blast
    qed
  qed
qed (auto intro: exI [of _ "[]"])

lemma update_masters_spec:
  "update_masters r c hs ips pods err w = Some ((pods', u, e), w') \<Longrightarrow>
   \<exists>D. dels (r_kube r) w w' D \<and> (if u then \<exists>n. D = [n] \<and> removable hs (strip_port ` set ips) pods n else D = [])"
proof (induction ips arbitrary: pods err w)
  case (Cons ip ips)
  then obtain ps u1 e1 w1 where one: "updatePodIfNeeded (r_kube r) ip pods hs (drc_Namespace c) ''Master'' w = Some ((ps, u1, e1), w1)"
    by (auto split: option.splits)
  note spec = updatePod_spec [OF one]
  show ?case
  proof (cases u1)
    case True
    with Cons.prems one spec show ?thesis by (auto intro: removable_mono)
  next
    case False
    with Cons.prems one have rest: "update_masters r c hs ips ps (map_option PlainError e1) w1 = Some ((pods', u, e), w')" by simp
    from spec False have D: "list_all2 same_pod pods ps" "dels (r_kube r) w w1 []" by auto
    from Cons.IH [OF rest] obtain D' where "dels (r_kube r) w1 w' D'" "if u then \<exists>n. D' = [n] \<and> removable hs (strip_port ` set ips) ps n else D' = []" by blast
    moreover have "removable hs (strip_port ` set ips) ps n = removable hs (strip_port ` set ips) pods n" for n
      using same_pods_removable [OF D(1)] .
    ultimately show ?thesis using dels_trans [OF D(2)] removable_mono [of hs "strip_port ` set ips" pods _ "strip_port ` set (ip # ips)"]
      by (fastforce split: if_splits)
  qed
qed (auto intro: exI [of _ "[]"])

lemma waiting_calls:
  assumes "\<And>w. only_calls P w (snd (handler w))"
  shows "only_calls P w (snd (waiting n name handler w))"
proof (induction n arbitrary: w)
  case (Suc n)
  show ?case using assms [of w] Suc [of "snd (handler w)"] by (auto split: prod.split option.split intro: only_calls_trans)
qed simp

lemma wait_update_dels: "wait_update r c w = (e, w') \<Longrightarrow> dels k w w' []"
proof -
  assume wait: "wait_update r c w = (e, w')"
  have "only_calls (\<lambda>c. \<forall>ns n. c \<noteq> KDeletePod ns n) w (snd (waitStatefulSetUpdating_Handler (r_kube r) c w))" for w
    by (auto simp: waitStatefulSetUpdating_Handler_def ListStatefulSetByLabels_def split: sum.split)
  from waiting_calls [of "\<lambda>c. \<forall>ns n. c \<noteq> KDeletePod ns n", OF this, of w "r_ticks r (hw_calls w)" "''waitStatefulSetUpdating''"] wait
  show ?thesis by (auto simp: wait_update_def intro: dels_none)
qed

lemma revisions_dels: "updated_revisions r c is hs w = (res, w') \<Longrightarrow> dels k w w' []"
proof -
  have "only_calls (\<lambda>c. \<forall>ns n. c \<noteq> KDeletePod ns n) w (snd (updated_revisions r c is hs w))" for hs w
    by (induction "is" arbitrary: hs w) (auto simp: GetStatefulSet_def Let_def split: sum.split intro: only_calls_call_trans)
  then show "updated_revisions r c is hs w = (res, w') \<Longrightarrow> dels k w w' []" by (metis dels_none snd_conv)
qed

section \<open>Properties\<close>

text \<open>
  C19: Which pods a rolling update deletes. Every pod that \<^verbatim>\<open>checkandUpdatePods\<close> deletes has a revision that is not the
  one its set asks for; first come pods of slaves, then at most one pod of a master, after which the reconciliation ends
  with a request to be called again or with an error. The example shows that a master may be deleted in the same pass
  as a slave: only the result for the last slave decides whether the masters are looked at.
\<close>

theorem checkandUpdatePods_safe:
  assumes roles: "getRedisIPsByRole r (hw_redis w) = (Inr (masters, slaves), rw)"
    and hashes: "getStatefulsetUpdatedRevision r cluster (w\<lparr>hw_redis := rw\<rparr>) = ((hashes, herr), w1)"
    and run: "checkandUpdatePods r cluster pods w = Some ((pods', requeue, err), w')"
  shows "\<exists>cs ds1 ds2. hw_calls w' = hw_calls w @ cs \<and> deletions (r_kube r) (hw_calls w) cs = ds1 @ ds2 \<and>
    (\<forall>n \<in> set ds1. removable hashes (strip_port ` set slaves) pods n) \<and> (\<forall>n \<in> set ds2. removable hashes (strip_port ` set masters) pods n) \<and>
    length ds2 \<le> 1 \<and> (ds2 \<noteq> [] \<longrightarrow> requeue \<or> err \<noteq> None)"
proof -
  let ?k = "r_kube r"
  have w1: "dels ?k w w1 []" using revisions_dels [OF hashes [unfolded getStatefulsetUpdatedRevision_def], of ?k] by simp
  note run = run [unfolded checkandUpdatePods_def roles, simplified, unfolded hashes prod.case]
  obtain ps res w2 where slaves: "update_slaves r cluster hashes slaves pods (False, False, herr) w1 = Some ((ps, res), w2)"
    using run by (auto split: option.splits)
  from update_slaves_spec [OF slaves] obtain D where D: "list_all2 same_pod pods ps" "dels ?k w1 w2 D"
    "\<forall>n \<in> set D. removable hashes (strip_port ` set slaves) pods n" by blast
  have two: "dels ?k w w2 D" using dels_trans [OF w1 D(2)] by simp
  note run = run [unfolded slaves, simplified]
  have "\<exists>ds2. dels ?k w w' (D @ ds2) \<and> (\<forall>n \<in> set ds2. removable hashes (strip_port ` set masters) pods n) \<and> length ds2 \<le> 1 \<and> (ds2 \<noteq> [] \<longrightarrow> requeue \<or> err \<noteq> None)"
  proof (cases "\<exists>e. res = Inr (True, False, e)")
    case False
    have "w' = w2 \<or> dels ?k w2 w' []"
      using run False wait_update_dels [of r cluster w2 _ _ ?k] by (auto split: sum.splits if_splits prod.splits option.splits)
    then have "dels ?k w2 w' []" by auto
    from dels_trans [OF two this] show ?thesis by (intro exI [of _ "[]"]) simp
  next
    case True
    then obtain e where e: "res = Inr (True, False, e)" by blast
    with run obtain qs u me w3 where masters: "update_masters r cluster hashes masters ps e w2 = Some ((qs, u, me), w3)"
      by (auto split: option.splits)
    from update_masters_spec [OF masters] obtain D' where D': "dels ?k w2 w3 D'"
      "if u then \<exists>n. D' = [n] \<and> removable hashes (strip_port ` set masters) ps n else D' = []" by blast
    have last: "dels ?k w3 w' [] \<and> (u \<longrightarrow> requeue \<or> err \<noteq> None)"
      using run e masters wait_update_dels [of r cluster w3 _ _ ?k] by (cases u) (auto split: option.splits prod.splits)
    have "dels ?k w w' (D @ D')" using dels_trans [OF dels_trans [OF two D'(1)] conjunct1 [OF last]] by simp
    with last D'(2) same_pods_removable [OF D(1)] show ?thesis by (intro exI [of _ D']) (auto split: if_splits)
  qed
  then show ?thesis using D(3) unfolding dels_def by blast
qed

text \<open>One master and two slaves. The first slave and the master have an old revision, the second slave a current one.\<close>

definition roles_env :: env where
  "roles_env = example_server\<lparr>e_info := (\<lambda>_ a. Inr (if a = ''m:1'' then ''role:master'' else ''role:slave,master_link_status:up''))\<rparr>"

definition update_reconciler :: reconciler where
  "update_reconciler = example_reconciler\<lparr>r_env := roles_env, r_ticks := (\<lambda>_. 0)\<rparr>"

definition revision_pod :: "string \<Rightarrow> string \<Rightarrow> string \<Rightarrow> Pod" where
  "revision_pod name ip hash = (example_pod name ip None)\<lparr>pod_Labels := [ControllerRevisionHashLabelKey \<mapsto> ''drc-c-'' @ hash, RedisRoleLabelKey \<mapsto> ''Slave'']\<rparr>"

definition revision_pods :: "Pod list" where
  "revision_pods = [revision_pod ''p-0-0'' ''m'' ''old'', revision_pod ''p-0-1'' ''a'' ''old'', revision_pod ''p-0-2'' ''b'' ''abc'']"

definition update_world :: hworld where
  "update_world = \<lparr>hw_redis = example_world\<lparr>w_clients := [''m:1'', ''a:1'', ''b:1'']\<rparr>, hw_calls = []\<rparr>"

lemma update_strings:
  "str_contains ''role:master'' ''role:master''" "\<not> str_contains ''role:slave,master_link_status:up'' ''role:master''"
  "str_contains ''role:slave,master_link_status:up'' ''role:slave''" "\<not> str_contains ''role:slave,master_link_status:up'' RedisSyncing"
  "\<not> str_contains ''role:slave,master_link_status:up'' RedisMasterSillPending" "str_contains ''role:slave,master_link_status:up'' RedisLinkUp"
  "strip_port ''m:1'' = ''m''" "strip_port ''a:1'' = ''a''" "strip_port ''b:1'' = ''b''" "Split (CHR ''-'') ''p-0-0'' = [''p'', ''0'', ''0'']"
  "Split (CHR ''-'') ''p-0-1'' = [''p'', ''0'', ''1'']" "Split (CHR ''-'') ''p-0-2'' = [''p'', ''0'', ''2'']"
  "Split (CHR ''-'') ''drc-c-old'' = [''drc'', ''c'', ''old'']" "Split (CHR ''-'') ''drc-c-abc'' = [''drc'', ''c'', ''abc'']"
  "Split (CHR ''-'') (ClusterStatefulSetName ''c'' 0 @ ''-abc'') = [''drc'', ''c'', ''0'', ''abc'']"
  by code_simp+

lemma parse_zero: "ParseInt ''0'' = (0, None)"
proof -
  have "Itoa 0 = ''0''" by code_simp
  with ParseInt_Itoa [of 0] show ?thesis by simp
qed

lemma update_roles: "getRedisIPsByRole update_reconciler (hw_redis update_world) =
    (Inr ([''m:1''], [''a:1'', ''b:1'']), (hw_redis update_world)\<lparr>w_trace := [EInfo ''m:1'', EInfo ''a:1'', EInfo ''b:1'']\<rparr>)"
  by (simp add: getRedisIPsByRole_def GetAll_def update_reconciler_def roles_env_def example_server_def server_with_def sendable_def dead_env_def update_world_def example_world_def emit_def update_strings del: str_contains.simps)

lemma update_revisions: "getStatefulsetUpdatedRevision update_reconciler example_drc w =
    (([''abc''], None), call (KGet KStatefulSet (drc_Namespace example_drc) (ClusterStatefulSetName (drc_Name example_drc) 0)) w)"
  by (simp add: getStatefulsetUpdatedRevision_def update_reconciler_def example_reconciler_def GetStatefulSet_def example_kube_def example_set_def example_drc_def
      example_spec_def Let_def update_strings)

lemma ready_slave:
  "w_clients w = [''m:1'', ''a:1'', ''b:1''] \<Longrightarrow> IsSlaveReady update_reconciler ''a:1'' w = (Inr True, emit (EInfo ''a:1'') w)"
  "w_clients w = [''m:1'', ''a:1'', ''b:1''] \<Longrightarrow> IsSlaveReady update_reconciler ''b:1'' w = (Inr True, emit (EInfo ''b:1'') w)"
  by (simp_all add: IsSlaveReady_def cnx_Get_def update_reconciler_def roles_env_def update_strings del: str_contains.simps)

theorem checkandUpdatePods_safe_witness:
  "\<exists>pods' requeue err w' ds1 ds2. checkandUpdatePods update_reconciler example_drc revision_pods update_world = Some ((pods', requeue, err), w') \<and>
     [''p-0-1'', ''p-0-0''] = ds1 @ ds2 \<and> deletions example_kube [] (hw_calls w') = ds1 @ ds2 \<and> length ds2 \<le> 1 \<and>
     (\<forall>n \<in> set ds1. removable [''abc''] {''a'', ''b''} revision_pods n)"
proof -
  have k: "r_kube update_reconciler = example_kube" by (simp add: update_reconciler_def example_reconciler_def)
  have pods: "pod_Name (revision_pod n i h) = n" "pod_PodIP (revision_pod n i h) = i" "pod_Labels (revision_pod n i h) RedisRoleLabelKey = Some ''Slave''"
    "key_at (pod_Labels (revision_pod n i h)) ControllerRevisionHashLabelKey = ''drc-c-'' @ h" "pod_Annotations (revision_pod n i h) = Map.empty" for n i h
    by (simp_all add: revision_pod_def example_pod_def key_at_def key_ne key_ne [symmetric])
  have delete: "DeletePodByName example_kube ns n w = (None, call (KDeletePod ns n) (call (KGetPod ns n) w))" for ns n w
    by (simp add: DeletePodByName_def GetPod_def example_kube_def call_def)
  have role: "setRoleLabelIfNeeded example_kube (revision_pod n i h) ''Slave'' w = ((revision_pod n i h, None), w)"
    "setPodAnnotationIfNeeded example_kube ''Slave'' (revision_pod n i h) w = ((revision_pod n i h, None), w)" for n i h w
    by (simp_all add: setRoleLabelIfNeeded_def setPodAnnotationIfNeeded_def UpdatePodAnnotations_def pods)
  have d: "k_delete_pod example_kube h ns n = None" for h ns n by (simp add: example_kube_def)
  have "wait_update update_reconciler example_drc w = (Some (Errorf ''%s timed out'' [''waitStatefulSetUpdating'']), w)" for w
    by (simp add: wait_update_def update_reconciler_def)
  then obtain pods' requeue err w' where run: "checkandUpdatePods update_reconciler example_drc revision_pods update_world = Some ((pods', requeue, err), w')"
    and del: "deletions example_kube [] (hw_calls w') = [''p-0-1'', ''p-0-0'']"
    unfolding checkandUpdatePods_def update_roles
    by (simp add: update_revisions ready_slave k pods revision_pods_def update_pod_def update_strings parse_zero update_world_def example_world_def Let_def delete role d) blast
  from checkandUpdatePods_safe [OF update_roles update_revisions run] del show ?thesis
    unfolding k by (elim exE conjE) (intro exI conjI, rule run, auto simp: update_world_def update_strings)
qed

end
