(* ===== verification/Ensurer.thy ===== *)
theory Ensurer
  imports Resources Heal
begin

text \<open>
  The resources of a cluster are created and kept up to date by \<^verbatim>\<open>controllers/manager/ensurer.go\<close>: configuration maps,
  stateful sets with their disruption budgets, services. The map of labels and the custom resource are changed through
  the references the code shares, so they are threaded through the operations. \<open>None\<close> is a panic.
\<close>

section \<open>Parameters\<close>

text \<open>
  \<open>en_ord\<close> is the order of a loop over a map, \<open>en_file\<close> the lines of the file of renamed commands, \<open>en_cmp\<close> the comparison
  of two quantities of the Kubernetes libraries, where \<open>None\<close> is a quantity that is not listed.
\<close>

record ensurer =
  en_kube :: kube
  en_ord :: "(string \<rightharpoonup> string) \<Rightarrow> string list"
  en_file :: "string list option"
  en_cmp :: "string option \<Rightarrow> string option \<Rightarrow> int"

type_synonym labels = "string \<rightharpoonup> string"

section \<open>Comparing\<close>

definition resources_differ :: "(string option \<Rightarrow> string option \<Rightarrow> int) \<Rightarrow> ResourceRequirements \<Rightarrow> ResourceRequirements \<Rightarrow> bool" where
  "resources_differ q expect current \<longleftrightarrow>
     q (map_of (rr_Requests expect) ''memory'') (map_of (rr_Requests current) ''memory'') \<noteq> 0 \<or>
     q (map_of (rr_Requests expect) ''cpu'') (map_of (rr_Requests current) ''cpu'') \<noteq> 0 \<or>
     q (map_of (rr_Limits expect) ''memory'') (map_of (rr_Limits current) ''memory'') \<noteq> 0 \<or>
     q (map_of (rr_Limits expect) ''cpu'') (map_of (rr_Limits current) ''cpu'') \<noteq> 0"

text \<open>\<open>None\<close> is a set without containers or a custom resource without resources.\<close>

definition shouldUpdateRedis :: "(string option \<Rightarrow> string option \<Rightarrow> int) \<Rightarrow> DistributedRedisCluster \<Rightarrow> StatefulSet \<Rightarrow> bool option" where
  "shouldUpdateRedis q cluster sts =
     (if spec_ClusterReplicas (drc_Spec cluster) + 1 \<noteq> ss_Replicas sts then Some True
      else case pt_Containers (ss_Template sts) of
        [] \<Rightarrow> None
      | c # _ \<Rightarrow>
          if spec_Image (drc_Spec cluster) \<noteq> ct_Image c then Some True
          else (case spec_Resources (drc_Spec cluster) of
                  None \<Rightarrow> None
                | Some expectResource \<Rightarrow> Some (resources_differ q expectResource (ct_Resources c))))"

text \<open>
  The arguments are sorted in place, in the custom resource as well. They are compared with
  \<open>reflect.DeepEqual\<close>, which tells a nil slice (\<open>None\<close>) from an empty one (\<open>Some []\<close>).
\<close>

fun monitor_differs :: "(string option \<Rightarrow> string option \<Rightarrow> int) \<Rightarrow> AgentSpec \<Rightarrow> Container list \<Rightarrow> AgentSpec \<times> bool" where
  "monitor_differs q crspec [] = (crspec, False)"
| "monitor_differs q crspec (cspec # cs) =
     (if ag_Name crspec = ct_Name cspec then
        if ag_Image crspec \<noteq> ct_Image cspec then (crspec, True)
        else
          let crspec = crspec\<lparr>ag_Args := map_option sort (ag_Args crspec)\<rparr> in
          if ag_Args crspec \<noteq> map_option sort (ct_Args cspec) then (crspec, True)
          else if resources_differ q (ag_Resources crspec) (ct_Resources cspec) then (crspec, True)
          else monitor_differs q crspec cs
      else monitor_differs q crspec cs)"

fun monitors_differ :: "(string option \<Rightarrow> string option \<Rightarrow> int) \<Rightarrow> AgentSpec list \<Rightarrow> Container list \<Rightarrow> AgentSpec list \<times> bool" where
  "monitors_differ q [] cs = ([], False)"
| "monitors_differ q (crspec # crspecs) cs =
     (case monitor_differs q crspec cs of
        (crspec, True) \<Rightarrow> (crspec # crspecs, True)
      | (crspec, False) \<Rightarrow> (case monitors_differ q crspecs cs of (crspecs, d) \<Rightarrow> (crspec # crspecs, d)))"

definition shouldUpdateMonitor ::
    "(string option \<Rightarrow> string option \<Rightarrow> int) \<Rightarrow> DistributedRedisCluster \<Rightarrow> StatefulSet \<Rightarrow> (DistributedRedisCluster \<times> bool) option" where
  "shouldUpdateMonitor q cluster sts =
     (case spec_Monitor (drc_Spec cluster) of
        None \<Rightarrow> None
      | Some monitor \<Rightarrow>
          (case monitors_differ q monitor (pt_Containers (ss_Template sts)) of
             (monitor, d) \<Rightarrow> Some (cluster\<lparr>drc_Spec := (drc_Spec cluster)\<lparr>spec_Monitor := Some monitor\<rparr>\<rparr>, d)))"

text \<open>A line is cut at its first space; a line without one is only logged.\<close>

definition cut_line :: "string \<Rightarrow> (string \<times> string) option" where
  "cut_line line = (case IndexByte line (CHR '' '') of None \<Rightarrow> None | Some i \<Rightarrow> Some (take i line, drop (i + 1) line))"

fun conf_lines_differ :: "(string \<rightharpoonup> string) \<Rightarrow> string list \<Rightarrow> bool" where
  "conf_lines_differ currentConf [] = False"
| "conf_lines_differ currentConf (line # lines) =
     (case cut_line (TrimSuffix line '' '') of
        Some (key, value) \<Rightarrow> if currentConf key \<noteq> Some value then True else conf_lines_differ currentConf lines
      | None \<Rightarrow> conf_lines_differ currentConf lines)"

definition isRedisConfChanged :: "((string \<rightharpoonup> string) \<Rightarrow> string list) \<Rightarrow> string \<Rightarrow> (string \<rightharpoonup> string) option \<Rightarrow> bool" where
  "isRedisConfChanged ord confInCm currentConf =
     (let currentConf = (case currentConf of Some m \<Rightarrow> m | None \<Rightarrow> Map.empty);
          lines = Split newline_char (TrimSuffix confInCm [newline_char])
      in if length lines \<noteq> length (ord currentConf) then True else conf_lines_differ currentConf lines)"

section \<open>Stateful sets\<close>

definition ensureRedisPDB :: "ensurer \<Rightarrow> DistributedRedisCluster \<Rightarrow> string \<Rightarrow> labels \<Rightarrow> hworld \<Rightarrow> err option \<times> hworld" where
  "ensureRedisPDB r cluster name labels w =
     (case GetPodDisruptionBudget (en_kube r) (drc_Namespace cluster) name w of
        (Some err, w) \<Rightarrow>
          if k_IsNotFound (en_kube r) err then CreatePodDisruptionBudget (en_kube r) (NewPodDisruptionBudgetForCR cluster name labels) w
          else (Some err, w)
      | (None, w) \<Rightarrow> (None, w))"

text \<open>
  The boolean is true only when a set was updated. The custom resource is returned because a new set and the
  comparison of the monitoring containers change it.
\<close>

definition ensureRedisStatefulset ::
    "ensurer \<Rightarrow> DistributedRedisCluster \<Rightarrow> string \<Rightarrow> string \<Rightarrow> labels \<Rightarrow> hworld
       \<Rightarrow> ((bool \<times> err option) \<times> DistributedRedisCluster \<times> hworld) option" where
  "ensureRedisStatefulset r cluster ssName svcName labels w =
     (let k = en_kube r; new = NewStatefulSetForCR (en_ord r) (en_file r) in
      case (if spec_PdbEnabled (drc_Spec cluster) then ensureRedisPDB r cluster ssName labels w else (None, w)) of
        (Some err, w) \<Rightarrow> Some ((False, Some err), cluster, w)
      | (None, w) \<Rightarrow>
          (case GetStatefulSet k (drc_Namespace cluster) ssName w of
             (Inr ss, w) \<Rightarrow>
               do {
                 redis \<leftarrow> shouldUpdateRedis (en_cmp r) cluster ss;
                 (cluster, update) \<leftarrow> (if redis then Some (cluster, True) else shouldUpdateMonitor (en_cmp r) cluster ss);
                 if update then
                   do {
                     (cluster, res) \<leftarrow> new cluster ssName svcName labels;
                     Some (case res of
                             Inl err \<Rightarrow> ((False, Some err), cluster, w)
                           | Inr newSS \<Rightarrow> (case UpdateStatefulSet k newSS w of (err, w) \<Rightarrow> ((True, err), cluster, w)))
                   }
                 else Some ((False, None), cluster, w)
               }
           | (Inl err, w) \<Rightarrow>
               if k_IsNotFound k err then
                 do {
                   (cluster, res) \<leftarrow> new cluster ssName svcName labels;
                   Some (case res of
                           Inl err \<Rightarrow> ((False, Some err), cluster, w)
                         | Inr newSS \<Rightarrow> (case CreateStatefulSet k newSS w of (err, w) \<Rightarrow> ((False, err), cluster, w)))
                 }
               else Some ((False, Some err), cluster, w)))"

definition set_labels :: "string \<Rightarrow> labels \<Rightarrow> labels" where
  "set_labels name labels = labels(StatefulSetLabel \<mapsto> name, ShardLabel \<mapsto> name)"

fun ensure_sets ::
    "ensurer \<Rightarrow> int list \<Rightarrow> bool \<Rightarrow> DistributedRedisCluster \<Rightarrow> labels \<Rightarrow> hworld \<Rightarrow> ((bool \<times> err option) \<times> DistributedRedisCluster \<times> labels \<times> hworld) option" where
  "ensure_sets r [] isSTScreated cluster labels w = Some ((isSTScreated, None), cluster, labels, w)"
| "ensure_sets r (i # is) isSTScreated cluster labels w =
     (let name = ClusterStatefulSetName (drc_Name cluster) i;
          svcName = ClusterHeadlessSvcName (spec_ServiceName (drc_Spec cluster)) i;
          labels = set_labels name labels
      in case ensureRedisStatefulset r cluster name svcName labels w of
           None \<Rightarrow> None
         | Some ((stsStatus, Some err), cluster, w) \<Rightarrow> Some ((isSTScreated, Some err), cluster, labels, w)
         | Some ((stsStatus, None), cluster, w) \<Rightarrow> ensure_sets r is (isSTScreated \<or> \<not> stsStatus) cluster labels w)"

definition EnsureRedisStatefulsets ::
    "ensurer \<Rightarrow> DistributedRedisCluster \<Rightarrow> labels \<Rightarrow> hworld \<Rightarrow> ((bool \<times> err option) \<times> DistributedRedisCluster \<times> labels \<times> hworld) option" where
  "EnsureRedisStatefulsets r cluster labels w = ensure_sets r [0..spec_MasterSize (drc_Spec cluster) - 1] False cluster labels w"

definition updateRedisStatefulset ::
    "ensurer \<Rightarrow> DistributedRedisCluster \<Rightarrow> string \<Rightarrow> string \<Rightarrow> labels \<Rightarrow> hworld \<Rightarrow> (err option \<times> DistributedRedisCluster \<times> hworld) option" where
  "updateRedisStatefulset r cluster ssName svcName labels w =
     do {
       (cluster, res) \<leftarrow> NewStatefulSetForCR (en_ord r) (en_file r) cluster ssName svcName labels;
       Some (case res of
               Inl err \<Rightarrow> (Some err, cluster, w)
             | Inr newSS \<Rightarrow> (case UpdateStatefulSet (en_kube r) newSS w of (err, w) \<Rightarrow> (err, cluster, w)))
     }"

fun update_sets :: "ensurer \<Rightarrow> int list \<Rightarrow> DistributedRedisCluster \<Rightarrow> labels \<Rightarrow> hworld \<Rightarrow> (err option \<times> DistributedRedisCluster \<times> labels \<times> hworld) option" where
  "update_sets r [] cluster labels w = Some (None, cluster, labels, w)"
| "update_sets r (i # is) cluster labels w =
     (let name = ClusterStatefulSetName (drc_Name cluster) i;
          svcName = ClusterHeadlessSvcName (spec_ServiceName (drc_Spec cluster)) i;
          labels = set_labels name labels
      in case updateRedisStatefulset r cluster name svcName labels w of
           None \<Rightarrow> None
         | Some (Some err, cluster, w) \<Rightarrow> Some (Some err, cluster, labels, w)
         | Some (None, cluster, w) \<Rightarrow> update_sets r is cluster labels w)"

definition UpdateRedisStatefulsets ::
    "ensurer \<Rightarrow> DistributedRedisCluster \<Rightarrow> labels \<Rightarrow> hworld \<Rightarrow> (err option \<times> DistributedRedisCluster \<times> labels \<times> hworld) option" where
  "UpdateRedisStatefulsets r cluster labels w = update_sets r [0..spec_MasterSize (drc_Spec cluster) - 1] cluster labels w"

section \<open>Services\<close>

definition ensureRedisHeadLessSvc :: "ensurer \<Rightarrow> DistributedRedisCluster \<Rightarrow> string \<Rightarrow> labels \<Rightarrow> hworld \<Rightarrow> err option \<times> hworld" where
  "ensureRedisHeadLessSvc r cluster name labels w =
     (case GetService (en_kube r) (drc_Namespace cluster) name w of
        (Some err, w) \<Rightarrow>
          if k_IsNotFound (en_kube r) err then CreateService (en_kube r) (NewHeadLessSvcForCR cluster name labels) w else (Some err, w)
      | (None, w) \<Rightarrow> (None, w))"

fun ensure_services :: "ensurer \<Rightarrow> DistributedRedisCluster \<Rightarrow> int list \<Rightarrow> labels \<Rightarrow> hworld \<Rightarrow> (err option \<times> labels) \<times> hworld" where
  "ensure_services r cluster [] labels w = ((None, labels), w)"
| "ensure_services r cluster (i # is) labels w =
     (let svcName = ClusterHeadlessSvcName (spec_ServiceName (drc_Spec cluster)) i;
          name = ClusterStatefulSetName (drc_Name cluster) i;
          labels = set_labels name labels
      in case ensureRedisHeadLessSvc r cluster svcName labels w of
           (Some err, w) \<Rightarrow> ((Some err, labels), w)
         | (None, w) \<Rightarrow> ensure_services r cluster is labels w)"

definition EnsureClusterShardsHeadLessSvcs :: "ensurer \<Rightarrow> DistributedRedisCluster \<Rightarrow> labels \<Rightarrow> hworld \<Rightarrow> (err option \<times> labels) \<times> hworld" where
  "EnsureClusterShardsHeadLessSvcs r cluster labels w = ensure_services r cluster [0..spec_MasterSize (drc_Spec cluster) - 1] labels w"

definition EnsureClusterHeadLessSvc :: "ensurer \<Rightarrow> DistributedRedisCluster \<Rightarrow> labels \<Rightarrow> hworld \<Rightarrow> (err option \<times> labels) \<times> hworld" where
  "EnsureClusterHeadLessSvc r cluster labels w =
     (let name = spec_ServiceName (drc_Spec cluster); labels = labels(StatefulSetLabel := None) in
      case GetService (en_kube r) (drc_Namespace cluster) name w of
        (Some err, w) \<Rightarrow>
          if k_IsNotFound (en_kube r) err
          then (case CreateService (en_kube r) (NewHeadLessSvcForCR cluster name labels) w of (err, w) \<Rightarrow> ((err, labels), w))
          else ((Some err, labels), w)
      | (None, w) \<Rightarrow> ((None, labels), w))"

definition EnsureRedisRCloneSecret :: "DistributedRedisCluster \<Rightarrow> err option" where
  "EnsureRedisRCloneSecret cluster =
     (if \<not> IsRestoreFromBackup cluster \<or> IsRestored cluster then None else Some (Errorf ''Restore Not supported yet'' []))"

section \<open>Configuration maps\<close>

text \<open>The boolean says that the custom resource is at fault and a retry is useless.\<close>

definition ensure_conf :: "ensurer \<Rightarrow> DistributedRedisCluster \<Rightarrow> labels \<Rightarrow> hworld \<Rightarrow> err option \<times> hworld" where
  "ensure_conf r cluster labels w =
     (let k = en_kube r; cm = NewConfigMapForCR (en_ord r) cluster labels in
      case GetConfigMap k (drc_Namespace cluster) (RedisConfigMapName (drc_Name cluster)) w of
        (Inl err, w) \<Rightarrow> if k_IsNotFound k err then CreateConfigMap k cm w else (Some err, w)
      | (Inr drcCm, w) \<Rightarrow>
          if isRedisConfChanged (en_ord r) (key_at (cm_Data drcCm) RedisConfKey) (spec_Config (drc_Spec cluster))
          then UpdateConfigMap k cm w else (None, w))"

definition ensure_acl :: "ensurer \<Rightarrow> DistributedRedisCluster \<Rightarrow> labels \<Rightarrow> hworld \<Rightarrow> (err option \<times> bool) \<times> hworld" where
  "ensure_acl r cluster labels w =
     (let k = en_kube r in
      case GetConfigMap k (drc_Namespace cluster) (AclConfigMapName (drc_Name cluster)) w of
        (Inl err2, w) \<Rightarrow>
          if k_IsNotFound k err2 then
            (case NewACLConfigMap k cluster labels w of
               ((aclcm, _, Some conferr, abortcr), w) \<Rightarrow> ((Some conferr, abortcr), w)
             | ((aclcm, _, None, _), w) \<Rightarrow> (case CreateConfigMap k (the aclcm) w of (err3, w) \<Rightarrow> ((err3, False), w)))
          else ((Some err2, False), w)
      | (Inr _, w) \<Rightarrow> ((None, False), w))"

text \<open>When the map was just created the code goes on with the empty object of the failed read.\<close>

definition ensure_restore :: "ensurer \<Rightarrow> DistributedRedisCluster \<Rightarrow> labels \<Rightarrow> hworld \<Rightarrow> err option \<times> hworld" where
  "ensure_restore r cluster labels w =
     (let k = en_kube r; cm = NewConfigMapForRestore cluster labels in
      case GetConfigMap k (drc_Namespace cluster) (RestoreConfigMapName (drc_Name cluster)) w of
        (Inl err, w) \<Rightarrow> if k_IsNotFound k err then CreateConfigMap k cm w else (Some err, w)
      | (Inr restoreCm, w) \<Rightarrow>
          if st_RestorePhase (drc_Status cluster) = RestorePhaseRestart \<and> key_at (cm_Data restoreCm) RestoreSucceeded = ''0''
          then UpdateConfigMap k cm w else (None, w))"

definition EnsureRedisConfigMap :: "ensurer \<Rightarrow> DistributedRedisCluster \<Rightarrow> labels \<Rightarrow> hworld \<Rightarrow> (err option \<times> bool) \<times> hworld" where
  "EnsureRedisConfigMap r cluster labels w =
     (case ensure_conf r cluster labels w of
        (Some err, w) \<Rightarrow> ((Some err, False), w)
      | (None, w) \<Rightarrow>
          (case ensure_acl r cluster labels w of
             ((Some err, abort), w) \<Rightarrow> ((Some err, abort), w)
           | ((None, _), w) \<Rightarrow>
               if IsRestoreFromBackup cluster
               then (case ensure_restore r cluster labels w of (err, w) \<Rightarrow> ((err, False), w))
               else ((None, False), w)))"

section \<open>Lemmas\<close>

subsection \<open>The configuration map\<close>

lemma lines_Join: "ls \<noteq> [] \<Longrightarrow> concat (map (\<lambda>l. l @ [c]) ls) = Join [c] ls @ [c]"
  by (induction "[c]" ls rule: Join.induct) simp_all

definition conf_lines :: "(string \<rightharpoonup> string) \<Rightarrow> string list \<Rightarrow> string list" where
  "conf_lines m ks = ''aclfile /acl/users.acl'' # map (\<lambda>k. k @ '' '' @ the (m k)) (filter (\<lambda>k. the (m k) \<noteq> '''') ks)"

lemma generate_lines:
  "generateRedisConfContent ord (Some m) = concat (map (\<lambda>l. l @ [newline_char]) (conf_lines m (sort (ord m))))"
proof -
  have "concat (map (conf_line m) ks) = concat (map (\<lambda>l. l @ [newline_char]) (map (\<lambda>k. k @ '' '' @ the (m k)) (filter (\<lambda>k. the (m k) \<noteq> '''') ks)))" for ks
    by (induction ks) (simp_all add: conf_line_def Let_def)
  then show ?thesis by (simp add: generateRedisConfContent_def conf_lines_def Aclfile_def)
qed

lemma cut_aclfile: "cut_line (TrimSuffix ''aclfile /acl/users.acl'' '' '') = Some (''aclfile'', ''/acl/users.acl'')"
  by code_simp

lemma generated_conf_changed:
  assumes ord: "range_order (ord m) m" and plain: "\<forall>k v. m k = Some v \<longrightarrow> newline_char \<notin> set k \<and> newline_char \<notin> set v"
    and acl: "m ''aclfile'' \<noteq> Some ''/acl/users.acl''"
  shows "isRedisConfChanged ord (generateRedisConfContent ord (Some m)) (Some m)"
proof -
  define ls where "ls = conf_lines m (sort (ord m))"
  have "newline_char \<notin> set l" if "l \<in> set ls" for l
  proof -
    have "newline_char \<notin> set ''aclfile /acl/users.acl''" by (simp add: newline_char_def)
    moreover have "newline_char \<notin> set (k @ '' '' @ the (m k))" if "k \<in> set (ord m)" for k
      using that plain ord by (auto simp: range_order_def newline_char_def)
    ultimately show ?thesis using that by (auto simp: ls_def conf_lines_def)
  qed
  moreover have ne: "ls \<noteq> []" by (simp add: ls_def conf_lines_def)
  ultimately have split: "Split newline_char (TrimSuffix (generateRedisConfContent ord (Some m)) [newline_char]) = ls"
    unfolding generate_lines ls_def [symmetric] lines_Join [OF ne] TrimSuffix_append by (intro Split_Join) simp_all
  have "conf_lines_differ m ls"
    using acl unfolding ls_def conf_lines_def by (simp only: conf_lines_differ.simps cut_aclfile option.case prod.case if_True simp_thms)
  then show ?thesis by (simp add: isRedisConfChanged_def split)
qed

subsection \<open>Sets that are up to date\<close>

text \<open>What the two comparisons look at, with the arguments of the monitoring containers up to order.\<close>

definition agrees :: "(string option \<Rightarrow> string option \<Rightarrow> int) \<Rightarrow> Container list \<Rightarrow> AgentSpec \<Rightarrow> bool" where
  "agrees q cs a \<longleftrightarrow> (\<forall>c \<in> set cs. ag_Name a = ct_Name c \<longrightarrow>
     ag_Image a = ct_Image c \<and> map_option sort (ag_Args a) = map_option sort (ct_Args c) \<and> \<not> resources_differ q (ag_Resources a) (ct_Resources c))"

definition set_current :: "(string option \<Rightarrow> string option \<Rightarrow> int) \<Rightarrow> DistributedRedisCluster \<Rightarrow> StatefulSet \<Rightarrow> bool" where
  "set_current q cluster ss \<longleftrightarrow> ss_Replicas ss = spec_ClusterReplicas (drc_Spec cluster) + 1 \<and>
     (\<exists>c cs rr ms. pt_Containers (ss_Template ss) = c # cs \<and> ct_Image c = spec_Image (drc_Spec cluster) \<and>
        spec_Resources (drc_Spec cluster) = Some rr \<and> \<not> resources_differ q rr (ct_Resources c) \<and>
        spec_Monitor (drc_Spec cluster) = Some ms \<and> (\<forall>a \<in> set ms. agrees q (c # cs) a))"

definition same_agent :: "AgentSpec \<Rightarrow> AgentSpec \<Rightarrow> bool" where
  "same_agent a b \<longleftrightarrow> ag_Name b = ag_Name a \<and> ag_Image b = ag_Image a \<and> map_option sort (ag_Args b) = map_option sort (ag_Args a) \<and> ag_Resources b = ag_Resources a"

lemma same_agent_refl [simp]: "same_agent a a"
  by (simp add: same_agent_def)

lemma same_agents_refl: "list_all2 same_agent as as"
  by (simp add: list_all2_conv_all_nth)

lemma same_agent_agrees: "same_agent a b \<Longrightarrow> agrees q cs b = agrees q cs a"
  by (simp add: same_agent_def agrees_def)

lemma map_option_sort_sort: "map_option sort (map_option sort x) = map_option sort x"
  by (cases x) (simp_all add: sorted_sort_id)

lemma monitor_differs_agrees: "agrees q cs a \<Longrightarrow> \<exists>b. monitor_differs q a cs = (b, False) \<and> same_agent a b"
proof (induction cs arbitrary: a)
  case (Cons c cs)
  show ?case
  proof (cases "ag_Name a = ct_Name c")
    case True
    let ?a = "a\<lparr>ag_Args := map_option sort (ag_Args a)\<rparr>"
    have "agrees q cs ?a" using Cons.prems by (simp add: agrees_def map_option_sort_sort)
    from Cons.IH [OF this] obtain b where "monitor_differs q ?a cs = (b, False)" "same_agent ?a b" by blast
    with True Cons.prems show ?thesis by (auto simp: agrees_def same_agent_def Let_def map_option_sort_sort)
  next
    case False
    have "agrees q cs a" using Cons.prems by (simp add: agrees_def)
    from Cons.IH [OF this] False show ?thesis by simp
  qed
qed simp

lemma monitors_differ_agree:
  "\<forall>a \<in> set ms. agrees q cs a \<Longrightarrow> \<exists>ms'. monitors_differ q ms cs = (ms', False) \<and> list_all2 same_agent ms ms'"
proof (induction ms)
  case (Cons a ms)
  then obtain b ms' where "monitor_differs q a cs = (b, False)" "same_agent a b" "monitors_differ q ms cs = (ms', False)" "list_all2 same_agent ms ms'"
    using monitor_differs_agrees [of q cs a] by auto
  then show ?case by simp
qed simp

lemma same_agents_agree: "list_all2 same_agent ms ms' \<Longrightarrow> (\<forall>a \<in> set ms'. agrees q cs a) = (\<forall>a \<in> set ms. agrees q cs a)"
  by (induction rule: list_all2_induct) (simp_all add: same_agent_agrees)

text \<open>The custom resource up to the order of arguments.\<close>

definition same_cluster :: "DistributedRedisCluster \<Rightarrow> DistributedRedisCluster \<Rightarrow> bool" where
  "same_cluster c c' \<longleftrightarrow> (\<exists>ms ms'. spec_Monitor (drc_Spec c) = Some ms \<and> list_all2 same_agent ms ms' \<and>
     c' = c\<lparr>drc_Spec := (drc_Spec c)\<lparr>spec_Monitor := Some ms'\<rparr>\<rparr>)"

lemma same_cluster_current: "same_cluster c c' \<Longrightarrow> set_current q c' ss = set_current q c ss"
  unfolding same_cluster_def set_current_def by (elim exE conjE) (simp add: same_agents_agree)

lemma current_unchanged:
  assumes "set_current q cluster ss"
  shows "shouldUpdateRedis q cluster ss = Some False \<and> (\<exists>c'. shouldUpdateMonitor q cluster ss = Some (c', False) \<and> same_cluster cluster c')"
proof -
  from assms obtain c cs rr ms where ss: "pt_Containers (ss_Template ss) = c # cs" "ct_Image c = spec_Image (drc_Spec cluster)"
    "spec_Resources (drc_Spec cluster) = Some rr" "\<not> resources_differ q rr (ct_Resources c)" "spec_Monitor (drc_Spec cluster) = Some ms"
    "\<forall>a \<in> set ms. agrees q (c # cs) a" "ss_Replicas ss = spec_ClusterReplicas (drc_Spec cluster) + 1"
    unfolding set_current_def by (elim exE conjE) (rule that)
  from monitors_differ_agree [OF ss(6)] obtain ms' where ms': "monitors_differ q ms (c # cs) = (ms', False)" "list_all2 same_agent ms ms'" by blast
  have "shouldUpdateRedis q cluster ss = Some False" using ss by (simp add: shouldUpdateRedis_def)
  moreover have "shouldUpdateMonitor q cluster ss = Some (cluster\<lparr>drc_Spec := (drc_Spec cluster)\<lparr>spec_Monitor := Some ms'\<rparr>\<rparr>, False)"
    unfolding shouldUpdateMonitor_def ss(1,5) by (simp only: option.case ms' prod.case)
  moreover have "same_cluster cluster (cluster\<lparr>drc_Spec := (drc_Spec cluster)\<lparr>spec_Monitor := Some ms'\<rparr>\<rparr>)"
    unfolding same_cluster_def using ss(5) ms'(2) by blast
  ultimately show ?thesis by blast
qed

subsection \<open>Sets that were just made\<close>

lemma resources_same: "(\<And>x. q x x = 0) \<Longrightarrow> \<not> resources_differ q r r"
  by (simp add: resources_differ_def)

lemma monitor_containers_set:
  "monitor_containers cluster password ms = Some cs \<Longrightarrow> c \<in> set cs \<Longrightarrow> \<exists>a \<in> set ms. \<exists>p. c = monitor_container cluster password a p"
  by (induction ms arbitrary: cs) (auto split: option.splits)

text \<open>The monitoring containers have names of their own.\<close>

definition monitors_named :: "DistributedRedisCluster \<Rightarrow> bool" where
  "monitors_named cluster \<longleftrightarrow> (\<exists>ms. spec_Monitor (drc_Spec cluster) = Some ms \<and> distinct (map ag_Name ms) \<and> redisServerName \<notin> ag_Name ` set ms)"

lemma NewStatefulSet_parts:
  assumes "NewStatefulSetForCR ord file cluster name svc labels = Some (cluster', Inr ss)"
  shows "\<exists>g server monitors. cluster' = with_grace cluster g \<and> redisServerContainer ord file cluster' (redisPassword cluster') = Some server \<and>
    (spec_Monitor (drc_Spec cluster) \<noteq> None \<longrightarrow> redisMonitorContainers cluster' (redisPassword cluster') = Some monitors) \<and>
    pt_Containers (ss_Template ss) = server # monitors \<and> ss_Replicas ss = spec_ClusterReplicas (drc_Spec cluster) + 1"
proof -
  have set: "pt_Containers (ss_Template (stateful_set c name svc labels ha p cs)) = cs"
    "ss_Replicas (stateful_set c name svc labels ha p cs) = spec_ClusterReplicas (drc_Spec c) + 1" for c ha p cs
    by (simp_all add: stateful_set_def Let_def)
  have "spec_AdminSecret (drc_Spec cluster) \<noteq> None" using assms by (intro notI) (simp add: NewStatefulSetForCR_def)
  from assms [unfolded NewStatefulSetForCR_def if_not_P [OF this] Option.bind_eq_Some_conv]
  obtain c ha server monitors where c: "map_option (with_grace cluster) (spec_TerminationGracePeriod (drc_Spec cluster)) = Some c"
    and server: "redisServerContainer ord file c (redisPassword c) = Some server"
    and monitors: "(if spec_Monitor (drc_Spec c) \<noteq> None then redisMonitorContainers c (redisPassword c) else Some []) = Some monitors"
    and res: "Some (c, if IsRestoreFromBackup c \<and> IsRestoreRunning c then Inl (Errorf ''Restore Not supported yet'' [])
      else Inr (stateful_set c name svc labels ha (redisPassword c) (server # monitors))) = Some (cluster', Inr ss)"
    by (elim exE conjE) (rule that)
  from c obtain g where g: "c = with_grace cluster g" by auto
  from res have eq: "cluster' = c" "ss = stateful_set c name svc labels ha (redisPassword c) (server # monitors)" by (auto split: if_split_asm)
  have "spec_Monitor (drc_Spec c) = spec_Monitor (drc_Spec cluster)" by (simp add: g with_grace_def)
  with monitors have mon: "spec_Monitor (drc_Spec cluster) \<noteq> None \<longrightarrow> redisMonitorContainers c (redisPassword c) = Some monitors" by auto
  have rep: "spec_ClusterReplicas (drc_Spec c) = spec_ClusterReplicas (drc_Spec cluster)" by (simp add: g with_grace_def)
  show ?thesis unfolding eq set rep
    by (intro exI [of _ g] exI [of _ server] exI [of _ monitors] conjI) (rule g, rule server, rule mon, rule refl, rule refl)
qed

lemma NewStatefulSet_current:
  assumes new: "NewStatefulSetForCR ord file cluster name svc labels = Some (cluster', Inr ss)" and q: "\<And>x. q x x = 0"
    and ms: "monitors_named cluster"
  shows "set_current q cluster' ss"
proof -
  define password where "password = redisPassword cluster'"
  from ms obtain ms where ms: "spec_Monitor (drc_Spec cluster) = Some ms" "distinct (map ag_Name ms)" "redisServerName \<notin> ag_Name ` set ms"
    by (auto simp: monitors_named_def)
  from new ms(1) obtain g server monitors where c': "cluster' = with_grace cluster g"
    and server: "redisServerContainer ord file cluster' password = Some server"
    and monitors: "redisMonitorContainers cluster' password = Some monitors"
    and ss: "pt_Containers (ss_Template ss) = server # monitors" "ss_Replicas ss = spec_ClusterReplicas (drc_Spec cluster) + 1"
    using NewStatefulSet_parts [OF new] by (auto simp: password_def)
  from server obtain rr where rr: "spec_Resources (drc_Spec cluster) = Some rr" "ct_Resources server = rr" "ct_Image server = spec_Image (drc_Spec cluster)"
    "ct_Name server = redisServerName"
    by (auto simp: redisServerContainer_def Let_def c' with_grace_def split: option.splits)
  from monitors ms(1) have mc: "monitor_containers cluster' password ms = Some monitors" by (simp add: redisMonitorContainers_def c' with_grace_def)
  have "agrees q (server # monitors) a" if a: "a \<in> set ms" for a
  proof -
    have "ag_Name a \<noteq> ct_Name server" using ms(3) a rr(4) by (metis image_eqI)
    moreover have "ag_Image a = ct_Image c \<and> map_option sort (ag_Args a) = map_option sort (ct_Args c) \<and> \<not> resources_differ q (ag_Resources a) (ct_Resources c)"
      if "c \<in> set monitors" "ag_Name a = ct_Name c" for c
    proof -
      from monitor_containers_set [OF mc that(1)] obtain b p where b: "b \<in> set ms" "c = monitor_container cluster' password b p" by blast
      with that(2) have "ag_Name b = ag_Name a" by (simp add: monitor_container_def)
      with ms(2) a b(1) have "b = a" by (auto simp: distinct_map dest: inj_onD)
      with b(2) show ?thesis using resources_same [of q, OF q] by (simp add: monitor_container_def)
    qed
    ultimately show ?thesis by (auto simp: agrees_def)
  qed
  then show ?thesis using ss rr ms(1) resources_same [of q, OF q] unfolding set_current_def c' by (auto simp: with_grace_def)
qed

lemma current_status: "set_current q cluster (ss\<lparr>ss_ReadyReplicas := rr, ss_UpdateRevision := ur\<rparr>) = set_current q cluster ss"
  by (simp add: set_current_def)

subsection \<open>A pass over sets that are up to date\<close>

abbreviation reads_only :: "hworld \<Rightarrow> hworld \<Rightarrow> bool" where
  "reads_only w w' \<equiv> only_calls (\<lambda>c. \<exists>kind ns n. c = KGet kind ns n) w w'"

lemma ensure_set_idle:
  assumes get: "\<forall>h. \<exists>ss. k_get_set (en_kube r) h (drc_Namespace cluster) name = Inr ss \<and> set_current (en_cmp r) cluster ss"
    and pdb: "spec_PdbEnabled (drc_Spec cluster) \<Longrightarrow> \<forall>h. k_get (en_kube r) h KPodDisruptionBudget (drc_Namespace cluster) name = None"
  shows "\<exists>c' w'. ensureRedisStatefulset r cluster name svc labels w = Some ((False, None), c', w') \<and> same_cluster cluster c' \<and> reads_only w w'"
proof -
  define w1 where "w1 = (if spec_PdbEnabled (drc_Spec cluster) then call (KGet KPodDisruptionBudget (drc_Namespace cluster) name) w else w)"
  have one: "(if spec_PdbEnabled (drc_Spec cluster) then ensureRedisPDB r cluster name labels w else (None, w)) = (None, w1)"
    using pdb by (simp add: w1_def ensureRedisPDB_def GetPodDisruptionBudget_def)
  obtain ss where ss: "k_get_set (en_kube r) (hw_calls w1) (drc_Namespace cluster) name = Inr ss" "set_current (en_cmp r) cluster ss" using get by blast
  from current_unchanged [OF ss(2)] obtain c' where c': "shouldUpdateRedis (en_cmp r) cluster ss = Some False"
    "shouldUpdateMonitor (en_cmp r) cluster ss = Some (c', False)" "same_cluster cluster c'" by blast
  have "ensureRedisStatefulset r cluster name svc labels w = Some ((False, None), c', call (KGet KStatefulSet (drc_Namespace cluster) name) w1)"
    unfolding ensureRedisStatefulset_def Let_def one by (simp add: GetStatefulSet_def ss c')
  moreover have "reads_only w (call (KGet KStatefulSet (drc_Namespace cluster) name) w1)"
    by (rule only_calls_trans [of _ w w1]) (simp_all add: w1_def)
  ultimately show ?thesis using c'(3) by blast
qed

lemma same_cluster_fields:
  "same_cluster c c' \<Longrightarrow> drc_Name c' = drc_Name c \<and> drc_Namespace c' = drc_Namespace c \<and> spec_PdbEnabled (drc_Spec c') = spec_PdbEnabled (drc_Spec c)"
  by (auto simp: same_cluster_def)

lemma ensure_sets_idle:
  assumes get: "\<forall>h. \<forall>i \<in> set is. \<exists>ss. k_get_set (en_kube r) h (drc_Namespace cluster) (ClusterStatefulSetName (drc_Name cluster) i) = Inr ss \<and> set_current (en_cmp r) cluster ss"
    and pdb: "spec_PdbEnabled (drc_Spec cluster) \<Longrightarrow> \<forall>h n. k_get (en_kube r) h KPodDisruptionBudget (drc_Namespace cluster) n = None"
  shows "\<exists>c' l' w'. ensure_sets r is b cluster labels w = Some ((b \<or> is \<noteq> [], None), c', l', w') \<and> reads_only w w'"
  using assms
proof (induction "is" arbitrary: b cluster labels w)
  case (Cons i "is")
  let ?name = "ClusterStatefulSetName (drc_Name cluster) i"
  have "\<forall>h. \<exists>ss. k_get_set (en_kube r) h (drc_Namespace cluster) ?name = Inr ss \<and> set_current (en_cmp r) cluster ss" using Cons.prems(1) by auto
  from ensure_set_idle [OF this, of "ClusterHeadlessSvcName (spec_ServiceName (drc_Spec cluster)) i" "set_labels ?name labels" w] Cons.prems(2)
  obtain c1 w1 where one: "ensureRedisStatefulset r cluster ?name (ClusterHeadlessSvcName (spec_ServiceName (drc_Spec cluster)) i) (set_labels ?name labels) w =
    Some ((False, None), c1, w1)" "same_cluster cluster c1" "reads_only w w1" by blast
  note f = same_cluster_fields [OF one(2)]
  have "\<exists>c' l' w'. ensure_sets r is True c1 (set_labels ?name labels) w1 = Some ((True \<or> is \<noteq> [], None), c', l', w') \<and> reads_only w1 w'"
    by (rule Cons.IH) (use Cons.prems f same_cluster_current [OF one(2)] in auto)
  with one show ?case by (auto simp: Let_def intro: only_calls_trans)
qed simp

section \<open>Properties\<close>

text \<open>
  C32: A pass over a cluster whose sets are as the operator made them is idle. If every set the API server returns is one
  that \<^verbatim>\<open>NewStatefulSetForCR\<close> makes of the custom resource, whatever its status, and the budgets exist, then
  \<^verbatim>\<open>EnsureRedisStatefulsets\<close> only reads and ends without error: no set is updated again. It nevertheless reports that a set
  was created, because \<^verbatim>\<open>ensureRedisStatefulset\<close> returns false for a set that it leaves alone.
\<close>

theorem EnsureRedisStatefulsets_stable:
  assumes made: "\<forall>h. \<forall>i \<in> {0..<spec_MasterSize (drc_Spec cluster)}. \<exists>svc ls ss rr ur.
      NewStatefulSetForCR (en_ord r) (en_file r) cluster (ClusterStatefulSetName (drc_Name cluster) i) svc ls = Some (cluster, Inr ss) \<and>
      k_get_set (en_kube r) h (drc_Namespace cluster) (ClusterStatefulSetName (drc_Name cluster) i) = Inr (ss\<lparr>ss_ReadyReplicas := rr, ss_UpdateRevision := ur\<rparr>)"
    and pdb: "spec_PdbEnabled (drc_Spec cluster) \<Longrightarrow> \<forall>h n. k_get (en_kube r) h KPodDisruptionBudget (drc_Namespace cluster) n = None"
    and cmp: "\<forall>x. en_cmp r x x = 0" and ms: "monitors_named cluster" and size: "0 < spec_MasterSize (drc_Spec cluster)"
  shows "\<exists>c' l' w'. EnsureRedisStatefulsets r cluster labels w = Some ((True, None), c', l', w') \<and> reads_only w w'"
proof -
  have "\<forall>h. \<forall>i \<in> set [0..spec_MasterSize (drc_Spec cluster) - 1]. \<exists>ss. k_get_set (en_kube r) h (drc_Namespace cluster)
      (ClusterStatefulSetName (drc_Name cluster) i) = Inr ss \<and> set_current (en_cmp r) cluster ss"
  proof (intro allI ballI)
    fix h i assume "i \<in> set [0..spec_MasterSize (drc_Spec cluster) - 1]"
    then have "i \<in> {0..<spec_MasterSize (drc_Spec cluster)}" by simp
    with made obtain svc ls ss rr ur where
      new: "NewStatefulSetForCR (en_ord r) (en_file r) cluster (ClusterStatefulSetName (drc_Name cluster) i) svc ls = Some (cluster, Inr ss)"
      and get: "k_get_set (en_kube r) h (drc_Namespace cluster) (ClusterStatefulSetName (drc_Name cluster) i) = Inr (ss\<lparr>ss_ReadyReplicas := rr, ss_UpdateRevision := ur\<rparr>)"
      by blast
    from NewStatefulSet_current [OF new _ ms, of "en_cmp r"] cmp get
    show "\<exists>ss. k_get_set (en_kube r) h (drc_Namespace cluster) (ClusterStatefulSetName (drc_Name cluster) i) = Inr ss \<and> set_current (en_cmp r) cluster ss"
      by (simp add: current_status)
  qed
  from ensure_sets_idle [OF this pdb, of False labels w] size show ?thesis by (auto simp: EnsureRedisStatefulsets_def)
qed

definition monitored :: DistributedRedisCluster where
  "monitored = example_drc\<lparr>drc_Spec := example_spec\<lparr>spec_AdminSecret := Some ''x--admin'', spec_TerminationGracePeriod := Some 60,
     spec_HaConfig := Some no_ha, spec_Resources := Some defaultResource,
     spec_Monitor := Some [\<lparr>ag_Name = ''exporter'', ag_Image = ''e:1'', ag_Prometheus = Some \<lparr>pr_Port = 9100, pr_Name = ''prom''\<rparr>, ag_Command = [],
       ag_Args = Some [''--b'', ''--a''], ag_Env = [], ag_Resources = defaultResource, ag_SecurityContext = None\<rparr>]\<rparr>\<rparr>"

definition made_set :: "string \<Rightarrow> StatefulSet" where
  "made_set name = (case NewStatefulSetForCR map_keys None monitored name ''svc'' Map.empty of Some (_, Inr ss) \<Rightarrow> ss | _ \<Rightarrow> example_set name)"

definition example_ensurer :: ensurer where
  "example_ensurer = \<lparr>en_kube = example_kube\<lparr>k_get_set := (\<lambda>_ _ name. Inr (made_set name))\<rparr>, en_ord = map_keys, en_file = None,
     en_cmp = (\<lambda>x y. if x = y then 0 else 1)\<rparr>"

lemma made_set_ok: "NewStatefulSetForCR map_keys None monitored name ''svc'' Map.empty = Some (monitored, Inr (made_set name))"
proof -
  have "\<exists>ss. NewStatefulSetForCR map_keys None monitored name ''svc'' Map.empty = Some (monitored, Inr ss)"
    by (simp add: NewStatefulSetForCR_def monitored_def with_grace_def example_drc_def example_spec_def redisServerContainer_def redisMonitorContainers_def
        IsRestoreFromBackup_def Let_def)
  then show ?thesis by (auto simp: made_set_def)
qed

theorem EnsureRedisStatefulsets_stable_witness:
  "\<exists>c' l' w'. EnsureRedisStatefulsets example_ensurer monitored Map.empty example_hworld = Some ((True, None), c', l', w') \<and> reads_only example_hworld w'"
proof (rule EnsureRedisStatefulsets_stable)
  have status: "ss\<lparr>ss_ReadyReplicas := ss_ReadyReplicas ss, ss_UpdateRevision := ss_UpdateRevision ss\<rparr> = ss" for ss :: StatefulSet by simp
  show "\<forall>h. \<forall>i \<in> {0..<spec_MasterSize (drc_Spec monitored)}. \<exists>svc ls ss rr ur.
      NewStatefulSetForCR (en_ord example_ensurer) (en_file example_ensurer) monitored (ClusterStatefulSetName (drc_Name monitored) i) svc ls = Some (monitored, Inr ss) \<and>
      k_get_set (en_kube example_ensurer) h (drc_Namespace monitored) (ClusterStatefulSetName (drc_Name monitored) i) = Inr (ss\<lparr>ss_ReadyReplicas := rr, ss_UpdateRevision := ur\<rparr>)"
  proof (intro allI ballI)
    fix h i
    define s where "s = made_set (ClusterStatefulSetName (drc_Name monitored) i)"
    show "\<exists>svc ls ss rr ur.
      NewStatefulSetForCR (en_ord example_ensurer) (en_file example_ensurer) monitored (ClusterStatefulSetName (drc_Name monitored) i) svc ls = Some (monitored, Inr ss) \<and>
      k_get_set (en_kube example_ensurer) h (drc_Namespace monitored) (ClusterStatefulSetName (drc_Name monitored) i) = Inr (ss\<lparr>ss_ReadyReplicas := rr, ss_UpdateRevision := ur\<rparr>)"
      by (rule exI [of _ "''svc''"], rule exI [of _ Map.empty], rule exI [of _ s], rule exI [of _ "ss_ReadyReplicas s"], rule exI [of _ "ss_UpdateRevision s"])
        (simp add: status s_def made_set_ok example_ensurer_def)
  qed
  show "\<forall>x. en_cmp example_ensurer x x = 0" by (simp add: example_ensurer_def)
  show "monitors_named monitored" by (simp add: monitors_named_def monitored_def redisServerName_def)
  show "0 < spec_MasterSize (drc_Spec monitored)" by (simp add: monitored_def example_spec_def)
qed (simp add: monitored_def example_spec_def)

text \<open>
  C33: The configuration map is written in every pass. If the API server returns the map that \<^verbatim>\<open>NewConfigMapForCR\<close> makes of
  the custom resource, the configuration counts as changed and the same map is sent again: the generated text starts with
  a line for the access control file that the comparison does not expect. The only exception is a configuration that
  itself names this file.
\<close>

theorem ensure_conf_rewrites:
  assumes conf: "spec_Config (drc_Spec cluster) = Some m" "range_order (en_ord r m) m" "m ''aclfile'' \<noteq> Some ''/acl/users.acl''"
    and plain: "\<forall>k v. m k = Some v \<longrightarrow> newline_char \<notin> set k \<and> newline_char \<notin> set v"
    and get: "\<forall>h. k_get_config (en_kube r) h (drc_Namespace cluster) (RedisConfigMapName (drc_Name cluster)) = Inr (NewConfigMapForCR (en_ord r) cluster old)"
  shows "hw_calls (snd (ensure_conf r cluster labels w)) = hw_calls w @
    [KGetConfigMap (drc_Namespace cluster) (RedisConfigMapName (drc_Name cluster)), KUpdate (OConfigMap (NewConfigMapForCR (en_ord r) cluster labels))]"
proof -
  have "key_at (cm_Data (NewConfigMapForCR (en_ord r) cluster old)) RedisConfKey = generateRedisConfContent (en_ord r) (Some m)"
    by (simp add: NewConfigMapForCR_def key_at_def conf(1))
  moreover have "isRedisConfChanged (en_ord r) (generateRedisConfContent (en_ord r) (Some m)) (Some m)"
    by (rule generated_conf_changed [of "en_ord r", OF conf(2) plain conf(3)])
  ultimately show ?thesis using get conf(1) by (simp add: ensure_conf_def GetConfigMap_def UpdateConfigMap_def Let_def)
qed

definition configured :: DistributedRedisCluster where
  "configured = monitored\<lparr>drc_Spec := (drc_Spec monitored)\<lparr>spec_Config := Some [''maxmemory'' \<mapsto> ''1gb'']\<rparr>\<rparr>"

definition conf_ensurer :: ensurer where
  "conf_ensurer = example_ensurer\<lparr>en_kube := example_kube\<lparr>k_get_config := (\<lambda>_ _ _. Inr (NewConfigMapForCR map_keys configured Map.empty))\<rparr>\<rparr>"

theorem ensure_conf_rewrites_witness:
  "hw_calls (snd (ensure_conf conf_ensurer configured Map.empty example_hworld)) =
    [KGetConfigMap (drc_Namespace configured) (RedisConfigMapName (drc_Name configured)), KUpdate (OConfigMap (NewConfigMapForCR map_keys configured Map.empty))]"
proof -
  have conf: "spec_Config (drc_Spec configured) = Some [''maxmemory'' \<mapsto> ''1gb'']" by (simp add: configured_def)
  have ord: "range_order (en_ord conf_ensurer [''maxmemory'' \<mapsto> ''1gb'']) [''maxmemory'' \<mapsto> ''1gb'']"
    by (simp add: conf_ensurer_def example_ensurer_def map_keys_def range_order_def)
  have e: "en_ord conf_ensurer = map_keys" by (simp add: conf_ensurer_def example_ensurer_def)
  have get: "\<forall>h. k_get_config (en_kube conf_ensurer) h (drc_Namespace configured) (RedisConfigMapName (drc_Name configured)) =
      Inr (NewConfigMapForCR (en_ord conf_ensurer) configured Map.empty)" unfolding e by (simp add: conf_ensurer_def)
  have plain: "\<forall>k v. [''maxmemory'' \<mapsto> ''1gb''] k = Some v \<longrightarrow> newline_char \<notin> set k \<and> newline_char \<notin> set v" by (simp add: newline_char_def)
  from ensure_conf_rewrites [OF conf ord _ plain get, of Map.empty example_hworld] show ?thesis unfolding e by (simp add: example_hworld_def)
qed

end
