(* ===== verification/Controller.thy ===== *)
theory Controller
  imports Pod_Updates Ensurer Common_Utils "HOL-Library.Signed_Division"
begin

text \<open>
  The reconciler (\<^verbatim>\<open>distributedrediscluster_controller.go\<close> and \<^verbatim>\<open>ensureCluster\<close> of \<^verbatim>\<open>sync_handler.go\<close>): one pass over a custom
  resource, from its validation to the healing of high availability. The stages of \<^verbatim>\<open>Reconcile\<close> are definitions of their
  own; a stage returns from \<^verbatim>\<open>Reconcile\<close> (\<open>Inl\<close>) or hands on what the next one needs (\<open>Inr\<close>). \<open>None\<close> is a panic or a
  command that does not return. The fields the API server sets in the object of an update are not modelled.
\<close>

section \<open>Parameters\<close>

text \<open>
  \<open>op_ord\<close>, \<open>op_counts\<close>, \<open>op_failed\<close> and \<open>op_untrusted\<close> are the orders of loops over maps, \<open>op_get_node\<close> the labels of a
  node of Kubernetes, \<open>op_list_nodes\<close> the number of nodes in a zone, \<open>op_msg\<close> the text of an error,
  \<open>op_reconcileTime\<close> the flag \<^verbatim>\<open>ctr-reconciletime\<close> in seconds.
\<close>

record operator =
  op_rec :: reconciler
  op_ord :: "(string \<rightharpoonup> string) \<Rightarrow> string list"
  op_counts :: "(string \<rightharpoonup> int) \<Rightarrow> string list"
  op_failed :: "(string \<rightharpoonup> bool) \<Rightarrow> string list"
  op_untrusted :: "(string \<rightharpoonup> node) \<Rightarrow> string list"
  op_file :: "string list option"
  op_cmp :: "string option \<Rightarrow> string option \<Rightarrow> int"
  op_get_node :: "kcall list \<Rightarrow> string \<Rightarrow> (string \<rightharpoonup> string) option"
  op_list_nodes :: "kcall list \<Rightarrow> string \<Rightarrow> err + nat"
  op_msg :: "err \<Rightarrow> string"
  op_reconcileTime :: int

abbreviation op_kube :: "operator \<Rightarrow> kube" where "op_kube op \<equiv> r_kube (op_rec op)"

abbreviation op_env :: "operator \<Rightarrow> env" where "op_env op \<equiv> r_env (op_rec op)"

abbreviation op_zones :: "operator \<Rightarrow> (string \<rightharpoonup> string) \<Rightarrow> string list" where "op_zones op \<equiv> co_zones (r_ctx (op_rec op))"

definition op_ensurer :: "operator \<Rightarrow> ensurer" where
  "op_ensurer op = \<lparr>en_kube = op_kube op, en_ord = op_ord op, en_file = op_file op, en_cmp = op_cmp op\<rparr>"

section \<open>Events\<close>

text \<open>Whether an event of an object leads to a pass. The object is given by its namespace and annotations.\<close>

definition UpdateFunc :: "scope \<Rightarrow> string \<Rightarrow> (string \<rightharpoonup> string) \<Rightarrow> int \<Rightarrow> int \<Rightarrow> bool" where
  "UpdateFunc sc ns annotations oldGeneration newGeneration =
     (if \<not> ShoudManage sc ns annotations then False else if oldGeneration \<noteq> newGeneration then True else False)"

definition DeleteFunc :: "scope \<Rightarrow> string \<Rightarrow> (string \<rightharpoonup> string) \<Rightarrow> bool \<Rightarrow> bool" where
  "DeleteFunc sc ns annotations deleteStateUnknown = (if \<not> ShoudManage sc ns annotations then False else \<not> deleteStateUnknown)"

definition CreateFunc :: "scope \<Rightarrow> string \<Rightarrow> (string \<rightharpoonup> string) \<Rightarrow> bool" where
  "CreateFunc sc ns annotations = (if \<not> ShoudManage sc ns annotations then False else True)"

section \<open>The resources\<close>

text \<open>
  The errors of the services and of the secret for backups are wrapped with the wrong variable, which is nil there:
  the result is an error without a cause (\<open>wrap_nil\<close>).
\<close>

definition wrap_nil :: "reconciler \<Rightarrow> ErrorType \<Rightarrow> string \<Rightarrow> rerror option" where
  "wrap_nil r t msg = Some (ErrorType_Wrap (r_wrapf r) t None msg)"

definition ensureCluster :: "operator \<Rightarrow> DistributedRedisCluster \<Rightarrow> hworld \<Rightarrow> ((bool \<times> rerror option) \<times> DistributedRedisCluster \<times> hworld) option" where
  "ensureCluster op cluster w =
     (let r = op_rec op; k = r_kube r; en = op_ensurer op in
      case validateAndSetDefault r cluster w of
        None \<Rightarrow> None
      | Some ((Some err, cluster), w) \<Rightarrow>
          Some ((False, if IsRequestRetryable k err then wrap r Kubernetes err ''Validate'' else wrap r StopRetry err ''stop retry''), cluster, w)
      | Some ((None, cluster), w) \<Rightarrow>
          let cluster = dbLoadedFromDiskWhenRestore cluster; labels = getLabels cluster in
          (case EnsureRedisConfigMap en cluster labels w of
             ((Some err, crdeferr), w) \<Rightarrow>
               Some ((False, if crdeferr then wrap r StopRetry err ''AdminSecretMissing'' else wrap r Kubernetes err ''EnsureRedisConfigMap''), cluster, w)
           | ((None, _), w) \<Rightarrow>
               (case EnsureRedisStatefulsets en cluster labels w of
                  None \<Rightarrow> None
                | Some ((_, Some err), cluster, labels, w) \<Rightarrow> Some ((False, wrap r Kubernetes err ''EnsureRedisStatefulSets''), cluster, w)
                | Some ((isSTScreated, None), cluster, labels, w) \<Rightarrow>
                    (case EnsureClusterShardsHeadLessSvcs en cluster labels w of
                       ((Some err1, labels), w) \<Rightarrow> Some ((isSTScreated, wrap_nil r Kubernetes ''EnsureRedisHeadLessSvcs''), cluster, w)
                     | ((None, labels), w) \<Rightarrow>
                         (case EnsureClusterHeadLessSvc en cluster labels w of
                            ((Some err2, labels), w) \<Rightarrow> Some ((isSTScreated, wrap_nil r Kubernetes ''EnsureRedisSvc''), cluster, w)
                          | ((None, labels), w) \<Rightarrow>
                              (case EnsureRedisRCloneSecret cluster of
                                 Some err3 \<Rightarrow> Some ((isSTScreated, wrap_nil r StopRetry ''stop retry''), cluster, w)
                               | None \<Rightarrow> Some ((isSTScreated, None), cluster, w)))))))"

text \<open>\<^verbatim>\<open>IsRequestRetryable\<close> of a nil error, in the last case, is false.\<close>

section \<open>Zones\<close>

definition isScalingDown :: "kube \<Rightarrow> DistributedRedisCluster \<Rightarrow> hworld \<Rightarrow> bool \<times> hworld" where
  "isScalingDown k cluster w =
     (case ListStatefulSetByLabels k (drc_Namespace cluster) (getLabels cluster) w of
        (Inl err, w) \<Rightarrow> (False, w)
      | (Inr stsList, w) \<Rightarrow> (int (length stsList) > spec_MasterSize (drc_Spec cluster), w))"

text \<open>The nodes of a set in a zone; an unknown role is an error.\<close>

definition zone_nodes :: "string \<Rightarrow> node list \<Rightarrow> err + node list" where
  "zone_nodes zone stsNodes =
     (let ns = filter (\<lambda>node. n_Zonename node = zone) stsNodes in
      case find (\<lambda>node. n_Role node \<noteq> RedisMasterRole \<and> n_Role node \<noteq> RedisSlaveRole) ns of
        Some node \<Rightarrow> Inl (Errorf ''invalid Role %s'' [n_Role node])
      | None \<Rightarrow> Inr ns)"

type_synonym zone_map = "string \<times> string \<rightharpoonup> node list"

fun count_zones :: "int \<Rightarrow> string \<Rightarrow> node list \<Rightarrow> string list \<Rightarrow> int \<times> zone_map \<Rightarrow> err + int \<times> zone_map" where
  "count_zones mn stsname stsNodes [] acc = Inr acc"
| "count_zones mn stsname stsNodes (zone # zones) (numNodesToDelete, m) =
     (case zone_nodes zone stsNodes of
        Inl err \<Rightarrow> Inl err
      | Inr ns \<Rightarrow>
          count_zones mn stsname stsNodes zones
            (if length ns = 0 then numNodesToDelete + mn
             else if int (length ns) < mn then numNodesToDelete + (mn - int (length ns)) else numNodesToDelete,
             m((zone, stsname) \<mapsto> ns)))"

fun count_sets :: "DistributedRedisCluster \<Rightarrow> node list \<Rightarrow> int \<Rightarrow> string list \<Rightarrow> nat list \<Rightarrow> int \<times> zone_map \<Rightarrow> err + int \<times> zone_map" where
  "count_sets cluster nodes mn zones [] acc = Inr acc"
| "count_sets cluster nodes mn zones (i # is) acc =
     (let stsname = ClusterStatefulSetName (drc_Name cluster) (int i);
          stsNodes = filter (\<lambda>node. n_StatefulSet node = stsname) nodes
      in if length stsNodes = 0 then Inl nodeNotFoundedError
         else if int (length stsNodes) < spec_ClusterReplicas (drc_Spec cluster) + 1
         then Inl (Errorf ''invalid number of nodes in sts %s'' [stsname])
         else (case count_zones mn stsname stsNodes zones acc of
                 Inl err \<Rightarrow> Inl err
               | Inr acc \<Rightarrow> count_sets cluster nodes mn zones is acc))"

text \<open>A slave of a crowded zone is noted under its set, after what is noted under the name of the zone.\<close>

definition note_slave :: "string \<Rightarrow> (string \<rightharpoonup> node list) \<times> int \<Rightarrow> node \<Rightarrow> (string \<rightharpoonup> node list) \<times> int" where
  "note_slave zone acc node =
     (case acc of (nodesToDelete, t) \<Rightarrow>
        if n_Role node = RedisSlaveRole
        then (nodesToDelete(n_StatefulSet node \<mapsto> (case nodesToDelete zone of Some ns \<Rightarrow> ns | None \<Rightarrow> []) @ [node]), t - 1)
        else acc)"

definition note_zone :: "int \<Rightarrow> zone_map \<Rightarrow> string \<Rightarrow> (string \<rightharpoonup> node list) \<times> int \<Rightarrow> string \<Rightarrow> (string \<rightharpoonup> node list) \<times> int" where
  "note_zone mx m stsname acc zone =
     (case m (zone, stsname) of
        Some ns \<Rightarrow> if int (length ns) > mx then foldl (note_slave zone) acc ns else acc
      | None \<Rightarrow> acc)"

text \<open>\<open>None\<close> is a missing HA configuration or a division by zero. Sizes stay far below the bounds of \<^verbatim>\<open>int32\<close>.\<close>

definition getListofNodestoDelete ::
    "operator \<Rightarrow> DistributedRedisCluster \<Rightarrow> ClusterInfos \<Rightarrow> (err + int \<times> (string \<rightharpoonup> node list)) option" where
  "getListofNodestoDelete op cluster clusterinfos =
     (case spec_HaConfig (drc_Spec cluster) of
        None \<Rightarrow> None
      | Some ha \<Rightarrow>
          let zones = sort (op_zones op (ha_ZonesInfo ha)); nz = int (length zones); size = 1 + spec_ClusterReplicas (drc_Spec cluster);
              is = [0..<nat (spec_MasterSize (drc_Spec cluster))]
          in if nz = 0 then None
             else
               let mn = size sdiv nz; mx = (size + (nz - 1)) sdiv nz in
               (case count_sets cluster (GetNodes clusterinfos) mn zones is (0, Map.empty) of
                  Inl err \<Rightarrow> Some (Inl err)
                | Inr (numNodesToDelete, m) \<Rightarrow>
                    if numNodesToDelete > 0 then
                      (case foldl (\<lambda>acc i. foldl (note_zone mx m (ClusterStatefulSetName (drc_Name cluster) (int i))) acc zones) (Map.empty, numNodesToDelete) is of
                         (nodesToDelete, t) \<Rightarrow>
                           if t = 0 then Some (Inr (numNodesToDelete, nodesToDelete))
                           else Some (Inl (Errorf ''unsucess/Invalid number of nodes to delete'' [])))
                    else if numNodesToDelete = 0 then Some (Inr (0, Map.empty))
                    else Some (Inl (Errorf ''unsucess/Invalid number of nodes to delete'' []))))"

text \<open>
  The nodes of a set in the zone whose turn it is: slaves are told to take over. Nodes are references into the heap,
  because a slave that took over counts as a master afterwards.
\<close>

fun promote :: "env \<Rightarrow> string \<Rightarrow> Nodes \<Rightarrow> world \<Rightarrow> err option \<times> world" where
  "promote env zonename [] w = (None, w)"
| "promote env zonename (node # nodes) w =
     (let n = w_heap w node in
      if n_Zonename n = zonename then
        if n_Role n = RedisMasterRole then promote env zonename nodes w
        else if n_Role n = RedisSlaveRole then
          (case FailoverSlaveToMaster env node RedisFailoverDefault w of
             (Some err, w) \<Rightarrow> (Some err, w)
           | (None, w) \<Rightarrow> promote env zonename nodes w)
        else (Some (Errorf ''invalid Role %s'' [n_Role n]), w)
      else promote env zonename nodes w)"

fun place_displaced :: "env \<Rightarrow> DistributedRedisCluster \<Rightarrow> string list \<Rightarrow> Nodes \<Rightarrow> node list \<Rightarrow> world \<Rightarrow> (err option \<times> world) option" where
  "place_displaced env cluster zones nodes [] w = Some (None, w)"
| "place_displaced env cluster zones nodes (node # displacedMasters) w =
     (let stsname = n_StatefulSet node; stsNodes = filter (\<lambda>r. n_StatefulSet (w_heap w r) = stsname) nodes in
      if length stsNodes = 0 then Some (Some nodeNotFoundedError, w)
      else if int (length stsNodes) < spec_ClusterReplicas (drc_Spec cluster) + 1
      then Some (Some (Errorf ''invalid number of nodes in sts %s'' [stsname]), w)
      else case getSTSindex stsname of
        (_, Some err) \<Rightarrow> Some (Some err, w)
      | (stsindex, None) \<Rightarrow>
          if length zones = 0 then None
          else
            (case promote env (zones ! nat (stsindex mod int (length zones))) stsNodes w of
               (Some err, w) \<Rightarrow> Some (Some err, w)
             | (None, w) \<Rightarrow> place_displaced env cluster zones nodes displacedMasters w))"

text \<open>The infos give the heap of nodes, as in \<^verbatim>\<open>syncCluster\<close>.\<close>

definition PlaceMastersbySTS ::
    "operator \<Rightarrow> DistributedRedisCluster \<Rightarrow> node list \<Rightarrow> ClusterInfos \<Rightarrow> world \<Rightarrow> (err option \<times> world) option" where
  "PlaceMastersbySTS op cluster displacedMasters clusterinfos w =
     (case spec_HaConfig (drc_Spec cluster) of
        None \<Rightarrow> None
      | Some ha \<Rightarrow>
          let nodes = GetNodes clusterinfos in
          place_displaced (op_env op) cluster (sort (op_zones op (ha_ZonesInfo ha))) [0..<length nodes] displacedMasters (w\<lparr>w_heap := nodes_heap nodes\<rparr>))"

section \<open>A pass\<close>

record reconcile_result =
  re_Requeue :: bool
  re_RequeueAfter :: int

type_synonym outcome = "reconcile_result \<times> rerror option"

definition requeueAfter :: int where "requeueAfter = 10"

definition no_requeue :: reconcile_result where "no_requeue = \<lparr>re_Requeue = False, re_RequeueAfter = 0\<rparr>"

definition after :: "int \<Rightarrow> reconcile_result" where "after seconds = \<lparr>re_Requeue = False, re_RequeueAfter = seconds\<rparr>"

definition write_status :: "operator \<Rightarrow> DistributedRedisCluster \<Rightarrow> drc_status \<Rightarrow> hworld \<Rightarrow> DistributedRedisCluster \<times> hworld" where
  "write_status op cluster newStatus w =
     (case updateClusterIfNeed cluster newStatus of
        (cluster, Some _) \<Rightarrow> (cluster, snd (UpdateCRStatus (op_kube op) cluster w))
      | (cluster, None) \<Rightarrow> (cluster, w))"

definition ha_creating_status :: "DistributedRedisCluster \<Rightarrow> bool \<Rightarrow> drc_status \<Rightarrow> drc_status" where
  "ha_creating_status cluster isStsCreated newStatus =
     (if st_HAStatus (drc_Status cluster) = '''' \<or> isStsCreated then SetHAStatus HaStatusCreating newStatus else newStatus)"

definition reconcile_ensure :: "operator \<Rightarrow> DistributedRedisCluster \<Rightarrow> hworld \<Rightarrow> ((outcome + DistributedRedisCluster) \<times> hworld) option" where
  "reconcile_ensure op instance w =
     do {
       ((isStsCreated, err), instance, w) \<leftarrow> ensureCluster op instance w;
       (case err of
          Some e \<Rightarrow>
            if GetType (Some e) = StopRetry then Some (Inl (no_requeue, None), w)
            else
              do {
                reason \<leftarrow> Error_text (op_msg op) e;
                let newStatus = SetClusterScaling reason (ha_creating_status instance isStsCreated (drc_Status instance));
                Some (Inl (after requeueAfter, None), snd (write_status op instance newStatus w))
              }
        | None \<Rightarrow>
            let (newStatus, w) =
                  (if st_SecretStatus (drc_Status instance) = '''' then
                     (case Getsecretversions (op_kube op) instance w of
                        ((_, Some err), w) \<Rightarrow> (SetSecretStatus ''aclconferror'' (drc_Status instance), w)
                      | ((secretVersions, None), w) \<Rightarrow>
                          ((SetSecretStatus ''aclconfdone'' (drc_Status instance))\<lparr>st_SecretsVer := secretVersions\<rparr>, w))
                   else (drc_Status instance, w));
                (instance, w) = write_status op instance (ha_creating_status instance isStsCreated newStatus) w
            in Some (Inr instance, w))
     }"

text \<open>The running pods of the cluster.\<close>

definition reconcile_pods ::
    "operator \<Rightarrow> DistributedRedisCluster \<Rightarrow> hworld \<Rightarrow> ((outcome + DistributedRedisCluster \<times> Pod list) \<times> hworld) option" where
  "reconcile_pods op instance w =
     (let r = op_rec op in
      case GetStatefulSetPodsByLabels (r_kube r) (drc_Namespace instance) (getLabels instance) w of
        (Inl err, w) \<Rightarrow> Some (Inl (no_requeue, wrap r Kubernetes err ''GetStatefulSetPods''), w)
      | (Inr redisClusterPods, w) \<Rightarrow>
          let pods = clusterPods redisClusterPods in
          (case waitPodReady r \<lparr>ch_Pods = pods, ch_DryRun = False\<rparr> instance w of
             (None, w) \<Rightarrow> Some (Inr (instance, pods), w)
           | (Some e, w) \<Rightarrow>
               if GetType (Some e) = Kubernetes then Some (Inl (no_requeue, Some e), w)
               else
                 do {
                   reason \<leftarrow> Error_text (op_msg op) e;
                   let newStatus = SetClusterScaling reason (drc_Status instance);
                   Some (Inl (after requeueAfter, None), snd (write_status op instance newStatus w))
                 }))"

text \<open>The password of the connections becomes part of the environment of the redis client.\<close>

definition with_client_password :: "operator \<Rightarrow> string \<Rightarrow> operator" where
  "with_client_password op password =
     op\<lparr>op_rec := (op_rec op)\<lparr>r_env := (op_env op)\<lparr>e_password := password\<rparr>\<rparr>\<rparr>"

definition reconcile_password :: "operator \<Rightarrow> DistributedRedisCluster \<Rightarrow> hworld \<Rightarrow> DistributedRedisCluster \<times> hworld" where
  "reconcile_password op instance w =
     (case checkandUpdatePassword (op_rec op) (op_ord op) instance w of
        (((secretver, err), instance), w) \<Rightarrow>
          let newsecretStatus = drc_Status instance;
              newsecretStatus = (if err \<noteq> None then SetSecretStatus ''ACLupdateERR'' newsecretStatus else newsecretStatus);
              newsecretStatus =
                (case secretver of
                   Some v \<Rightarrow> (SetSecretStatus ''ACLupdateSuccess'' newsecretStatus)\<lparr>st_SecretsVer := v\<rparr>
                 | None \<Rightarrow> if err = None then SetSecretStatus ''ACLintact'' newsecretStatus else newsecretStatus)
          in write_status op instance newsecretStatus w)"

text \<open>Healing and joining.\<close>

definition reconcile_join ::
    "operator \<Rightarrow> DistributedRedisCluster \<Rightarrow> Pod list \<Rightarrow> hworld \<Rightarrow> ((outcome + ClusterInfos) \<times> hworld) option" where
  "reconcile_join op instance pods w =
     do {
       let r = op_rec op;
       ((clusterInfos, err), rw) \<leftarrow> GetClusterInfos (r_env r) (hw_redis w);
       let w = w\<lparr>hw_redis := rw\<rparr>;
       let stop = (case err of Some e \<Rightarrow> if ci_Status clusterInfos = ClusterInfosPartial then wrap r Redis e ''GetClusterInfos'' else None | None \<Rightarrow> None);
       if stop \<noteq> None then Some (Inl (no_requeue, stop), w)
       else
         do {
           ((requeue, err), w) \<leftarrow> Heal (r_kube r) (r_env r) (r_agg r) (op_failed op) (op_untrusted op) \<lparr>ch_Pods = pods, ch_DryRun = False\<rparr>
             instance (Some clusterInfos) w;
           (case err of
              Some err \<Rightarrow> Some (Inl (no_requeue, wrap r Redis err ''Heal''), w)
            | None \<Rightarrow>
                if requeue then Some (Inl (after requeueAfter, None), w)
                else
                  do {
                    (err, rw) \<leftarrow> waitForClusterJoin r clusterInfos (hw_redis w);
                    let w = w\<lparr>hw_redis := rw\<rparr>;
                    (case err of
                       None \<Rightarrow> Some (Inr clusterInfos, w)
                     | Some e \<Rightarrow>
                         if GetType (Some e) = Requeue then Some (Inl (after requeueAfter, None), w)
                         else
                           do {
                             reason \<leftarrow> Error_text (op_msg op) e;
                             let newStatus = SetClusterFailed reason (drc_Status instance);
                             Some (Inl (no_requeue, Some e), snd (write_status op instance newStatus w))
                           })
                  })
         }
     }"

definition reconcile_restore :: "operator \<Rightarrow> DistributedRedisCluster \<Rightarrow> hworld \<Rightarrow> ((outcome + DistributedRedisCluster) \<times> hworld) option" where
  "reconcile_restore op instance w =
     (let r = op_rec op; k = r_kube r; phase = (\<lambda>p. instance\<lparr>drc_Status := (drc_Status instance)\<lparr>st_RestorePhase := p\<rparr>\<rparr>) in
      if IsRestoreFromBackup instance \<and> IsRestoreRunning instance then
        let instance = phase RestorePhaseRestart in
        (case UpdateCRStatus k instance w of
           (Some err, w) \<Rightarrow> Some (Inl (no_requeue, Some (PlainError err)), w)
         | (None, w) \<Rightarrow>
             do {
               (err, instance, labels, w) \<leftarrow> UpdateRedisStatefulsets (op_ensurer op) instance (getLabels instance) w;
               (case err of
                  Some err \<Rightarrow> Some (Inl (no_requeue, Some (PlainError err)), w)
                | None \<Rightarrow>
                    (case waiting (r_ticks r (hw_calls w)) ''waitMasterNodeRestarting'' (waitStatefulSetUpdating_Handler k instance) w of
                       (Some err, w) \<Rightarrow> Some (Inl (no_requeue, Some (PlainError err)), w)
                     | (None, w) \<Rightarrow> Some (Inl (no_requeue\<lparr>re_Requeue := True\<rparr>, None), w)))
             })
      else if IsRestoreFromBackup instance \<and> IsRestoreRestarting instance then
        let instance = phase RestorePhaseSucceeded in
        (case UpdateCRStatus k instance w of
           (Some err, w) \<Rightarrow> Some (Inl (no_requeue, Some (PlainError err)), w)
         | (None, w) \<Rightarrow> Some (Inl (no_requeue, None), w))
      else Some (Inr instance, w))"

text \<open>Configuration of the servers, status, and the clustering operations.\<close>

definition config_pairs :: "operator \<Rightarrow> (string \<rightharpoonup> string) option \<Rightarrow> (string \<times> string) list" where
  "config_pairs op config = (case config of None \<Rightarrow> [] | Some m \<Rightarrow> map (\<lambda>k. (k, the (m k))) (op_ord op m))"

definition reconcile_cluster ::
    "operator \<Rightarrow> DistributedRedisCluster \<Rightarrow> ClusterInfos \<Rightarrow> Pod list \<Rightarrow> hworld \<Rightarrow> ((outcome + DistributedRedisCluster) \<times> hworld) option" where
  "reconcile_cluster op instance clusterInfos pods w =
     do {
       let r = op_rec op;
       (err, rw) \<leftarrow> SetConfigIfNeed (r_env r) (config_pairs op (spec_Config (drc_Spec instance))) (hw_redis w);
       let w = w\<lparr>hw_redis := rw\<rparr>;
       (case err of
          Some err \<Rightarrow> Some (Inl (no_requeue, wrap r Redis err ''SetConfigIfNeed''), w)
        | None \<Rightarrow>
            let (status, clusterInfos) = buildClusterStatus (op_get_node op (hw_calls w)) (op_counts op) clusterInfos pods instance True;
                (scaling, w) = isScalingDown (r_kube r) instance w;
                status = (if scaling then SetClusterRebalancing ''scaling down'' status else status);
                (instance, w) = write_status op instance status w;
                instance = instance\<lparr>drc_Status := status\<rparr>
            in if needClusterOperation instance then
                 do {
                   ((err, instance), w) \<leftarrow> syncCluster r clusterInfos instance w;
                   (case err of
                      None \<Rightarrow> Some (Inr instance, w)
                    | Some e \<Rightarrow>
                        do {
                          reason \<leftarrow> Error_text (op_msg op) e;
                          let newStatus = SetClusterFailed reason (drc_Status instance);
                          Some (Inl (no_requeue, Some e), snd (write_status op instance newStatus w))
                        })
                 }
               else Some (Inr instance, w))
     }"

text \<open>
  The new infos, the health of the cluster and the rolling update. The partial status that is asked for is that of the
  old infos, which were not partial.
\<close>

definition reconcile_update ::
    "operator \<Rightarrow> DistributedRedisCluster \<Rightarrow> ClusterInfos \<Rightarrow> Pod list \<Rightarrow> hworld
       \<Rightarrow> ((outcome + DistributedRedisCluster \<times> ClusterInfos \<times> HaStatus) \<times> hworld) option" where
  "reconcile_update op instance clusterInfos pods w =
     do {
       let r = op_rec op;
       ((newClusterInfos, err), rw) \<leftarrow> GetClusterInfos (r_env r) (hw_redis w);
       let w = w\<lparr>hw_redis := rw\<rparr>;
       if err \<noteq> None \<and> ci_Status clusterInfos = ClusterInfosPartial then Some (Inl (after 10, None), w)
       else
         do {
           let (newStatus, newClusterInfos) = buildClusterStatus (op_get_node op (hw_calls w)) (op_counts op) newClusterInfos pods instance True;
           (haStatus, _, _) \<leftarrow> buildHAStatus (op_zones op) newClusterInfos instance;
           let newStatus = SetHAStatus haStatus newStatus;
           let (clusterHealthOk, newStatus) = CheackandUpdateClusterHealth (op_ord op) newStatus newClusterInfos instance;
           let (instance, w) = write_status op instance newStatus w;
           if \<not> clusterHealthOk then Some (Inl (after 20, None), w)
           else
             do {
               ((pods, requeue, err), w) \<leftarrow> checkandUpdatePods r instance pods w;
               (case err of
                  Some e \<Rightarrow>
                    do {
                      reason \<leftarrow> Error_text (op_msg op) e;
                      let failed = SetClusterFailed reason (drc_Status instance);
                      Some (Inl (after (op_reconcileTime op), None), snd (write_status op instance failed w))
                    }
                | None \<Rightarrow>
                    if requeue then
                      let w = (if st_Status newStatus \<noteq> ClusterStatusOnDelete
                               then snd (write_status op instance (SetClusterUpdating ''Cluster Upgrade in Progress'' (drc_Status instance)) w) else w)
                      in Some (Inl (after 10, None), w)
                    else Some (Inr (instance, newClusterInfos, haStatus), w))
             }
         }
     }"

fun delete_nodes :: "kube \<Rightarrow> string \<Rightarrow> node list \<Rightarrow> hworld \<Rightarrow> err option \<times> hworld" where
  "delete_nodes k ns [] w = (None, w)"
| "delete_nodes k ns (delRedisNode # nodes) w =
     (case DeletePodByName k ns (n_PodName delRedisNode) w of
        (Some err2, w) \<Rightarrow> (Some err2, w)
      | (None, w) \<Rightarrow> delete_nodes k ns nodes w)"

fun delete_surplus :: "kube \<Rightarrow> DistributedRedisCluster \<Rightarrow> (string \<rightharpoonup> node list) \<Rightarrow> nat list \<Rightarrow> hworld \<Rightarrow> err option \<times> hworld" where
  "delete_surplus k instance delNodes [] w = (None, w)"
| "delete_surplus k instance delNodes (i # is) w =
     (case delete_nodes k (drc_Namespace instance) (case delNodes (ClusterStatefulSetName (drc_Name instance) (int i)) of Some ns \<Rightarrow> ns | None \<Rightarrow> []) w of
        (Some err2, w) \<Rightarrow> (Some err2, w)
      | (None, w) \<Rightarrow> delete_surplus k instance delNodes is w)"

definition reconcile_ha :: "operator \<Rightarrow> DistributedRedisCluster \<Rightarrow> ClusterInfos \<Rightarrow> HaStatus \<Rightarrow> hworld \<Rightarrow> (outcome \<times> hworld) option" where
  "reconcile_ha op instance newClusterInfos haStatus w =
     (let r = op_rec op; k = r_kube r; again = (after (op_reconcileTime op), None :: rerror option) in
      if haStatus = HaStatusFailed then Some (again, w)
      else if haStatus = HaStatusRedistribute then
        do {
          (isAllactive, _, err) \<leftarrow> CheckallZonesActive (op_list_nodes op (hw_calls w)) (op_zones op) instance;
          if err \<noteq> None then Some ((after 20, None), w)
          else if isAllactive \<and> drc_Annotations instance ''reDistributeNode'' = Some ''true'' then
            (case GetStatefulSetPodsByLabels k (drc_Namespace instance) (getLabels instance) w of
               (Inl err, w) \<Rightarrow> Some (again, w)
             | (Inr redisClusterPods, w) \<Rightarrow>
                 do {
                   res \<leftarrow> getListofNodestoDelete op instance newClusterInfos;
                   (case res of
                      Inl err1 \<Rightarrow> Some (again, w)
                    | Inr (numofNodestoDel, delNodes) \<Rightarrow>
                        if numofNodestoDel > 0
                        then Some (again, snd (delete_surplus k instance delNodes [0..<nat (spec_MasterSize (drc_Spec instance))] w))
                        else
                          do {
                            (haStatus, displacedMasters, _) \<leftarrow> buildHAStatus (op_zones op) newClusterInfos instance;
                            if haStatus = HaStatusFailed then Some (again, w)
                            else if haStatus = HaStatusRedistribute \<and> length displacedMasters > 0 then
                              do {
                                (err, rw) \<leftarrow> PlaceMastersbySTS op instance displacedMasters newClusterInfos (hw_redis w);
                                (case UpdateCrdAnnotations k instance ''reDistributeNode'' ''false'' (w\<lparr>hw_redis := rw\<rparr>) of
                                   ((_, Some err), w) \<Rightarrow> Some ((no_requeue, Some (PlainError err)), w)
                                 | ((_, None), w) \<Rightarrow> Some (again, w))
                              }
                            else if haStatus = HaStatusHealthy \<and> length displacedMasters = 0
                            then Some (again, snd (write_status op instance (SetHAStatus HaStatusHealthy (drc_Status instance)) w))
                            else Some (again, w)
                          })
                 })
          else Some (again, w)
        }
      else Some (again, w))"

text \<open>\<^verbatim>\<open>next_stage\<close> runs a stage unless the one before it returned.\<close>

definition next_stage :: "((outcome + 'a) \<times> hworld) option \<Rightarrow> ('a \<Rightarrow> hworld \<Rightarrow> (outcome \<times> hworld) option) \<Rightarrow> (outcome \<times> hworld) option" where
  "next_stage m f = (case m of None \<Rightarrow> None | Some (Inl out, w) \<Rightarrow> Some (out, w) | Some (Inr a, w) \<Rightarrow> f a w)"

text \<open>The stages that use connections. The connections are closed when \<^verbatim>\<open>Reconcile\<close> returns.\<close>

definition reconcile_redis :: "operator \<Rightarrow> DistributedRedisCluster \<Rightarrow> Pod list \<Rightarrow> hworld \<Rightarrow> (outcome \<times> hworld) option" where
  "reconcile_redis op instance pods w =
     (let w = w\<lparr>hw_redis := newRedisAdmin (op_env op) pods (hw_redis w)\<rparr>;
          (instance, w) = reconcile_password op instance w
      in map_option (\<lambda>(out, w). (out, w\<lparr>hw_redis := Admin_Close (op_env op) (hw_redis w)\<rparr>))
           (next_stage (reconcile_join op instance pods w) (\<lambda>clusterInfos w.
            next_stage (reconcile_restore op instance w) (\<lambda>instance w.
            next_stage (reconcile_cluster op instance clusterInfos pods w) (\<lambda>instance w.
            next_stage (reconcile_update op instance clusterInfos pods w) (\<lambda>(instance, newClusterInfos, haStatus) w.
            reconcile_ha op instance newClusterInfos haStatus w))))))"

definition Reconcile :: "operator \<Rightarrow> string \<Rightarrow> string \<Rightarrow> hworld \<Rightarrow> (outcome \<times> hworld) option" where
  "Reconcile op namespace name w =
     (let r = op_rec op in
      case GetDistributedRedisCluster (r_kube r) namespace name w of
        (Inl err, w) \<Rightarrow>
          if k_IsNotFound (r_kube r) err then Some ((no_requeue, None), w) else Some ((no_requeue, Some (PlainError err)), w)
      | (Inr instance, w) \<Rightarrow>
          next_stage (reconcile_ensure op instance w) (\<lambda>instance w.
          next_stage (reconcile_pods op instance w) (\<lambda>(instance, pods) w.
          (case GetRedisClusterAdminPassword (r_kube r) instance w of
             ((_, Some err), w) \<Rightarrow> Some ((no_requeue, wrap r Kubernetes err ''getClusterPassword''), w)
           | ((password, None), w) \<Rightarrow> reconcile_redis (with_client_password op password) instance pods w))))"

section \<open>Stages that only talk to Kubernetes\<close>

definition kube_only :: "hworld \<Rightarrow> hworld \<Rightarrow> bool" where "kube_only w w' = only_calls (\<lambda>_. True) w w'"

lemma kube_only_refl [simp, intro]: "kube_only w w" "kube_only w (call c w)" by (simp_all add: kube_only_def)

lemma kube_trans: "kube_only w w1 \<Longrightarrow> kube_only w1 w2 \<Longrightarrow> kube_only w w2"
  unfolding kube_only_def by (rule only_calls_trans)

named_theorems kube_ops

lemma base_ops [kube_ops]:
  "GetConfigMap k ns n w = (c, w') \<Longrightarrow> kube_only w w'" "CreateConfigMap k cm w = (e, w') \<Longrightarrow> kube_only w w'"
  "UpdateConfigMap k cm w = (e, w') \<Longrightarrow> kube_only w w'" "GetSecret k ns n w = (s, w') \<Longrightarrow> kube_only w w'"
  "GetStatefulSet k ns n w = (ss, w') \<Longrightarrow> kube_only w w'" "CreateStatefulSet k ss' w = (e, w') \<Longrightarrow> kube_only w w'"
  "UpdateStatefulSet k ss' w = (e, w') \<Longrightarrow> kube_only w w'" "GetService k ns n w = (e, w') \<Longrightarrow> kube_only w w'"
  "CreateService k svc w = (e, w') \<Longrightarrow> kube_only w w'" "GetPodDisruptionBudget k ns n w = (e, w') \<Longrightarrow> kube_only w w'"
  "CreatePodDisruptionBudget k pdb w = (e, w') \<Longrightarrow> kube_only w w'" "UpdateCR k cr w = (e, w') \<Longrightarrow> kube_only w w'"
  "UpdateCRStatus k cr w = (e, w') \<Longrightarrow> kube_only w w'" "GetStatefulSetPodsByLabels k ns ls w = (ps, w') \<Longrightarrow> kube_only w w'"
  "ListStatefulSetByLabels k ns ls w = (sl, w') \<Longrightarrow> kube_only w w'" "GetDistributedRedisCluster k ns n w = (cr', w') \<Longrightarrow> kube_only w w'"
  by (auto simp: GetConfigMap_def CreateConfigMap_def UpdateConfigMap_def GetSecret_def GetStatefulSet_def CreateStatefulSet_def UpdateStatefulSet_def
      GetService_def CreateService_def GetPodDisruptionBudget_def CreatePodDisruptionBudget_def UpdateCR_def UpdateCRStatus_def
      GetStatefulSetPodsByLabels_def ListStatefulSetByLabels_def GetDistributedRedisCluster_def Let_def split: option.splits sum.splits if_splits)

lemma DeletePod_op [kube_ops]: "DeletePodByName k ns n w = (e, w') \<Longrightarrow> kube_only w w'"
  using DeletePodByName_calls [of "\<lambda>_. True" ns n w k] by (simp add: kube_only_def)

lemma validate_op [kube_ops]: "validateAndSetDefault r cluster w = Some ((e, c), w') \<Longrightarrow> kube_only w w'"
  by (auto simp: validateAndSetDefault_def Let_def split: option.splits if_splits prod.splits dest: kube_ops)

lemma acl_ops [kube_ops]:
  "GetAclStringFromSecrets k cluster n w = (res, w') \<Longrightarrow> kube_only w w'"
  by (auto simp: GetAclStringFromSecrets_def GetAcldataFromSecrets_def Let_def split: option.splits if_splits prod.splits sum.splits dest!: kube_ops)

lemma add_secret_op [kube_ops]: "add_secret k cluster n acc w = (res, w') \<Longrightarrow> kube_only w w'"
  by (auto simp: add_secret_def split: option.splits prod.splits dest!: kube_ops)

lemma add_version_op [kube_ops]: "add_version k cluster n acc w = (res, w') \<Longrightarrow> kube_only w w'"
  by (auto simp: add_version_def split: option.splits prod.splits dest!: kube_ops)

lemma add_secrets_op [kube_ops]: "add_secrets k cluster ns acc w = (res, w') \<Longrightarrow> kube_only w w'"
  by (induction ns arbitrary: acc w) (auto split: option.splits prod.splits dest!: kube_ops intro: kube_trans)

lemma add_versions_op [kube_ops]: "add_versions k cluster ns acc w = (res, w') \<Longrightarrow> kube_only w w'"
  by (induction ns arbitrary: acc w) (auto split: option.splits prod.splits dest!: kube_ops intro: kube_trans)

lemma add_default_op [kube_ops]: "add_default k cluster acc w = (res, w') \<Longrightarrow> kube_only w w'"
  by (auto simp: add_default_def split: option.splits prod.splits dest!: kube_ops)

lemma GenerateAclconf_op [kube_ops]: "GenerateAclconf k cluster w = (res, w') \<Longrightarrow> kube_only w w'"
  by (auto simp: GenerateAclconf_def split: option.splits prod.splits dest!: kube_ops intro: kube_trans)

lemma Getsecretversions_op [kube_ops]: "Getsecretversions k cluster w = (res, w') \<Longrightarrow> kube_only w w'"
  by (auto simp: Getsecretversions_def split: option.splits prod.splits dest!: kube_ops intro: kube_trans)

lemma config_ops [kube_ops]:
  "ensure_conf r cluster ls w = (e, w') \<Longrightarrow> kube_only w w'"
  "ensure_restore r cluster ls w = (e, w') \<Longrightarrow> kube_only w w'"
  by (auto simp: ensure_conf_def ensure_restore_def Let_def split: if_splits sum.splits prod.splits dest!: kube_ops intro: kube_trans)

lemma ensure_acl_op [kube_ops]: "ensure_acl r cluster ls w = (e2, w') \<Longrightarrow> kube_only w w'"
  by (auto simp: ensure_acl_def NewACLConfigMap_def Let_def split: if_splits sum.splits prod.splits option.splits dest!: kube_ops intro: kube_trans)

lemma EnsureRedisConfigMap_op [kube_ops]: "EnsureRedisConfigMap r cluster ls w = (e2, w') \<Longrightarrow> kube_only w w'"
  by (auto simp: EnsureRedisConfigMap_def split: if_splits prod.splits option.splits dest!: kube_ops intro: kube_trans)

lemma ensureRedisPDB_op [kube_ops]: "ensureRedisPDB r cluster n ls w = (e, w') \<Longrightarrow> kube_only w w'"
  by (auto simp: ensureRedisPDB_def split: if_splits prod.splits option.splits dest!: kube_ops intro: kube_trans)

lemma ensureRedisStatefulset_op [kube_ops]: "ensureRedisStatefulset r cluster n s ls w = Some (res, c, w') \<Longrightarrow> kube_only w w'"
  by (auto simp: ensureRedisStatefulset_def Let_def split: if_splits prod.splits option.splits sum.splits Option.bind_splits dest!: kube_ops intro: kube_trans)

lemma ensure_sets_op [kube_ops]: "ensure_sets r is b cluster ls w = Some (res, c, ls', w') \<Longrightarrow> kube_only w w'"
  by (induction "is" arbitrary: b cluster ls w) (auto simp: Let_def split: option.splits prod.splits dest!: kube_ops intro: kube_trans)

lemma EnsureRedisStatefulsets_op [kube_ops]: "EnsureRedisStatefulsets r cluster ls w = Some (res, c, ls', w') \<Longrightarrow> kube_only w w'"
  by (auto simp: EnsureRedisStatefulsets_def dest: kube_ops)

lemma ensure_service_op [kube_ops]: "ensureRedisHeadLessSvc r cluster n ls w = (e, w') \<Longrightarrow> kube_only w w'"
  by (auto simp: ensureRedisHeadLessSvc_def split: if_splits prod.splits option.splits dest!: kube_ops intro: kube_trans)

lemma ensure_services_op: "ensure_services r cluster is ls w = (res, w') \<Longrightarrow> kube_only w w'"
  by (induction "is" arbitrary: ls w) (auto simp: Let_def split: option.splits prod.splits dest!: kube_ops intro: kube_trans)

lemma service_ops [kube_ops]:
  "EnsureClusterShardsHeadLessSvcs r cluster ls w = (res, w') \<Longrightarrow> kube_only w w'"
  "EnsureClusterHeadLessSvc r cluster ls w = (res, w') \<Longrightarrow> kube_only w w'"
  by (auto simp: EnsureClusterShardsHeadLessSvcs_def EnsureClusterHeadLessSvc_def Let_def split: if_splits prod.splits option.splits
      dest!: kube_ops intro: kube_trans ensure_services_op)

lemma ensureCluster_op [kube_ops]: "ensureCluster op cluster w = Some (res, c, w') \<Longrightarrow> kube_only w w'"
  by (auto simp: ensureCluster_def Let_def split: if_splits prod.splits option.splits dest!: kube_ops) (metis kube_trans)+

lemma write_status_op [kube_ops]: "write_status op cluster st w = (c, w') \<Longrightarrow> kube_only w w'"
  by (auto simp: write_status_def UpdateCRStatus_def split: prod.splits option.splits)

lemma write_status_snd: "kube_only w w1 \<Longrightarrow> kube_only w (snd (write_status op cluster st w1))"
  using write_status_op [of op cluster st w1] by (cases "write_status op cluster st w1") (auto intro: kube_trans)

lemma reconcile_ensure_op [kube_ops]: "reconcile_ensure op cluster w = Some (res, w') \<Longrightarrow> kube_only w w'"
  by (auto simp: reconcile_ensure_def Let_def Option.bind_eq_Some_conv split: if_splits prod.splits option.splits dest!: kube_ops
      intro: kube_trans write_status_snd)

lemma FixTerminatingPods_op [kube_ops]: "FixTerminatingPods k agg now c cluster d w = (res, w') \<Longrightarrow> kube_only w w'"
proof -
  have "kube_only w w1" if "FixTerminatingPods_loop k now c ns mx ps b es w = (res', w1)" for ns mx ps b es res' w1
    using that
    by (induction ps arbitrary: b es w) (auto simp: Let_def split: if_splits prod.splits option.splits dest!: kube_ops intro: kube_trans)
  then show "FixTerminatingPods k agg now c cluster d w = (res, w') \<Longrightarrow> kube_only w w'"
    by (auto simp: FixTerminatingPods_def split: if_splits prod.splits)
qed

lemma CheckRedisNodeNum_op [kube_ops]: "CheckRedisNodeNum k cluster w = (e, w') \<Longrightarrow> kube_only w w'"
  using CheckRedisNodeNum_loop_spec by (fastforce simp: CheckRedisNodeNum_def kube_only_def only_calls_def)

lemma reconcile_pods_op [kube_ops]: "reconcile_pods op instance w = Some (res, w') \<Longrightarrow> kube_only w w'"
  by (auto simp: reconcile_pods_def waitPodReady_def Let_def Option.bind_eq_Some_conv split: if_splits prod.splits option.splits sum.splits dest!: kube_ops
      intro: kube_trans write_status_snd)

text \<open>What a pass does not change in the custom resource before it looks at the pods, but for the defaults.\<close>

definition frame :: "DistributedRedisCluster \<Rightarrow> string \<times> string \<times> int \<times> int" where
  "frame c = (drc_Name c, drc_Namespace c, spec_MasterSize (drc_Spec c), spec_ClusterReplicas (drc_Spec c))"

definition expected_replicas :: "DistributedRedisCluster \<Rightarrow> int" where
  "expected_replicas c =
     (if IsRestoreFromBackup c \<and> (IsRestoreRunning c \<or> IsRestoreRestarting c) then 0 else spec_ClusterReplicas (drc_Spec c))"

definition defaulted_frame :: "DistributedRedisCluster \<Rightarrow> string \<times> string \<times> int \<times> int" where
  "defaulted_frame c = (drc_Name c, drc_Namespace c, max minMasterSize (spec_MasterSize (drc_Spec c)), expected_replicas c)"

lemma DefaultSpec_frame: "DefaultSpec c = (c', b) \<Longrightarrow>
    frame c' = (drc_Name c, drc_Namespace c, max minMasterSize (spec_MasterSize (drc_Spec c)), spec_ClusterReplicas (drc_Spec c))"
  by (auto simp: DefaultSpec_def Let_def frame_def max_def split: if_splits option.splits)

lemma validate_frame:
  assumes "validateAndSetDefault r c w = Some ((None, c'), w')"
  shows "frame c' = defaulted_frame c"
proof -
  define d where "d = (if IsRestoreFromBackup c \<and> (IsRestoreRunning c \<or> IsRestoreRestarting c)
    then c\<lparr>drc_Spec := (drc_Spec c)\<lparr>spec_ClusterReplicas := 0\<rparr>\<rparr> else c)"
  have "c' = fst (DefaultSpec d)"
    using assms unfolding validateAndSetDefault_def d_def [symmetric] Let_def by (auto split: option.splits if_splits prod.splits)
  then have "frame c' = (drc_Name d, drc_Namespace d, max minMasterSize (spec_MasterSize (drc_Spec d)), spec_ClusterReplicas (drc_Spec d))"
    using DefaultSpec_frame [of d "fst (DefaultSpec d)" "snd (DefaultSpec d)"] by simp
  then show ?thesis
    by (cases "IsRestoreFromBackup c \<and> (IsRestoreRunning c \<or> IsRestoreRestarting c)") (auto simp: d_def defaulted_frame_def expected_replicas_def)
qed

lemma dbLoaded_frame [simp]: "frame (dbLoadedFromDiskWhenRestore c) = frame c"
  by (simp add: dbLoadedFromDiskWhenRestore_def frame_def split: option.split)

lemma with_grace_frame: "frame (with_grace c g) = frame c"
  by (simp add: with_grace_def frame_def)

lemma NewStatefulSet_frame:
  assumes "NewStatefulSetForCR ord file c n s ls = Some (c', res)"
  shows "frame c' = frame c"
proof (cases "spec_AdminSecret (drc_Spec c)")
  case None
  with assms show ?thesis by (simp add: NewStatefulSetForCR_def)
next
  case (Some _)
  then have "spec_AdminSecret (drc_Spec c) \<noteq> None" by simp
  from assms [unfolded NewStatefulSetForCR_def if_not_P [OF this] Option.bind_eq_Some_conv]
  obtain d where "map_option (with_grace c) (spec_TerminationGracePeriod (drc_Spec c)) = Some d" and "d = c'"
    by (elim exE conjE) (simp only: option.inject prod.inject)
  then show ?thesis by (auto simp: with_grace_frame)
qed

lemma shouldUpdateMonitor_frame: "shouldUpdateMonitor q c ss = Some (c', b) \<Longrightarrow> frame c' = frame c"
  by (auto simp: shouldUpdateMonitor_def frame_def split: option.splits prod.splits)

lemma ensureRedisStatefulset_frame: "ensureRedisStatefulset r c n s ls w = Some (res, c', w') \<Longrightarrow> frame c' = frame c"
  by (auto simp: ensureRedisStatefulset_def Let_def split: if_splits prod.splits option.splits sum.splits Option.bind_splits
      dest!: NewStatefulSet_frame shouldUpdateMonitor_frame)

lemma ensure_sets_frame: "ensure_sets r is b c ls w = Some (res, c', ls', w') \<Longrightarrow> frame c' = frame c"
  by (induction "is" arbitrary: b c ls w) (auto simp: Let_def split: option.splits prod.splits dest!: ensureRedisStatefulset_frame)

lemma write_status_frame: "write_status op c st w = (c', w') \<Longrightarrow> frame c' = frame c"
  by (auto simp: write_status_def updateClusterIfNeed_def frame_def split: prod.splits option.splits if_splits)

lemma ensureCluster_frame: "ensureCluster op c w = Some ((b, None), c', w') \<Longrightarrow> frame c' = defaulted_frame c"
  by (auto simp: ensureCluster_def Let_def wrap_def wrap_nil_def EnsureRedisStatefulsets_def split: if_splits prod.splits option.splits
      dest!: validate_frame ensure_sets_frame)

lemma reconcile_ensure_frame: "reconcile_ensure op c w = Some (Inr c', w') \<Longrightarrow> frame c' = defaulted_frame c"
  by (auto simp: reconcile_ensure_def Let_def split: if_splits prod.splits option.splits Option.bind_splits
      dest!: ensureCluster_frame write_status_frame)

lemma reconcile_pods_ready:
  assumes "reconcile_pods op instance w = Some (Inr (c', pods), w')"
  shows "c' = instance \<and> (\<forall>i < nat (spec_MasterSize (drc_Spec instance)). \<exists>cs ss.
    k_get_set (op_kube op) (hw_calls w @ cs) (drc_Namespace instance) (ClusterStatefulSetName (drc_Name instance) (int i)) = Inr ss \<and>
    ss_Replicas ss = spec_ClusterReplicas (drc_Spec instance) + 1 \<and> ss_ReadyReplicas ss = spec_ClusterReplicas (drc_Spec instance) + 1)"
proof -
  from assms obtain w1 w2 w3 where c': "c' = instance" and w1: "kube_only w w1" "kube_only w1 w2"
    and check: "CheckRedisNodeNum (op_kube op) instance w2 = (None, w3)"
    by (auto simp: reconcile_pods_def waitPodReady_def Let_def wrap_def split: if_splits prod.splits option.splits sum.splits Option.bind_splits dest: kube_ops)
  from kube_trans [OF w1] obtain cs where cs: "hw_calls w2 = hw_calls w @ cs" by (auto simp: kube_only_def only_calls_def)
  show ?thesis using c' CheckRedisNodeNum_loop_spec [OF check [unfolded CheckRedisNodeNum_def]] by (auto simp: cs) (metis append_assoc)
qed

section \<open>Properties\<close>

text \<open>
  C15: A pass that does anything to redis, be it only to connect to a server, was told by the API server before, in the same pass,
  that every stateful set has exactly the pods the defaulted specification asks for and all of them are ready.
\<close>

theorem Reconcile_waits_for_pods:
  assumes "Reconcile op ns name w = Some (out, w')" and "hw_redis w' \<noteq> hw_redis w"
  shows "\<exists>instance. k_get_cr (op_kube op) (hw_calls w) ns name = Inr instance \<and>
    (\<forall>i < nat (max minMasterSize (spec_MasterSize (drc_Spec instance))). \<exists>cs ss.
       k_get_set (op_kube op) (hw_calls w @ cs) (drc_Namespace instance) (ClusterStatefulSetName (drc_Name instance) (int i)) = Inr ss \<and>
       ss_Replicas ss = expected_replicas instance + 1 \<and> ss_ReadyReplicas ss = expected_replicas instance + 1)"
proof -
  have redis: "hw_redis w2 = hw_redis w1" if "kube_only w1 w2" for w1 w2 using that by (simp add: kube_only_def only_calls_redis)
  define w0 where "w0 = call (KGetCR ns name) w"
  from assms obtain inst where get: "k_get_cr (op_kube op) (hw_calls w) ns name = Inr inst"
    and run: "next_stage (reconcile_ensure op inst w0) (\<lambda>instance w.
          next_stage (reconcile_pods op instance w) (\<lambda>(instance, pods) w.
          (case GetRedisClusterAdminPassword (op_kube op) instance w of
             ((_, Some err), w) \<Rightarrow> Some ((no_requeue, wrap (op_rec op) Kubernetes err ''getClusterPassword''), w)
           | ((password, None), w) \<Rightarrow> reconcile_redis (with_client_password op password) instance pods w))) = Some (out, w')"
    unfolding Reconcile_def GetDistributedRedisCluster_def w0_def Let_def by (auto split: sum.splits if_splits)
  have w0: "kube_only w w0" by (simp add: w0_def)
  obtain c w1 where ensure: "reconcile_ensure op inst w0 = Some (Inr c, w1)"
    using run assms(2) redis [OF kube_trans [OF w0]] by (auto simp: next_stage_def split: option.splits sum.splits dest: kube_ops)
  have w1: "kube_only w w1" using w0 kube_trans reconcile_ensure_op [OF ensure] by blast
  then obtain cs where cs: "hw_calls w1 = hw_calls w @ cs" by (auto simp: kube_only_def only_calls_def)
  obtain c2 pods w2 where pods: "reconcile_pods op c w1 = Some (Inr (c2, pods), w2)"
    using run [unfolded ensure] assms(2) redis [OF kube_trans [OF w1]] by (auto simp: next_stage_def split: option.splits sum.splits prod.splits dest: kube_ops)
  have f: "drc_Name c = drc_Name inst" "drc_Namespace c = drc_Namespace inst" "spec_MasterSize (drc_Spec c) = max minMasterSize (spec_MasterSize (drc_Spec inst))"
    "spec_ClusterReplicas (drc_Spec c) = expected_replicas inst"
    using reconcile_ensure_frame [OF ensure] by (simp_all add: frame_def defaulted_frame_def)
  from reconcile_pods_ready [OF pods, unfolded f cs append_assoc] get show ?thesis by blast
qed

text \<open>
  C17: A headless service that cannot be read or created makes the pass panic. \<^verbatim>\<open>ensureCluster\<close> wraps the variable of an earlier,
  successful call: the error it returns is not nil but has no cause, and asking it for its text is a call on nil. The hypothesis
  on \<open>r_wrapf\<close> is what \<^verbatim>\<open>github.com/pkg/errors\<close> documents of \<^verbatim>\<open>Wrapf\<close>.
\<close>

theorem Reconcile_service_panics:
  assumes "k_get_cr (op_kube op) (hw_calls w) ns name = Inr c0"
    and "validateAndSetDefault (op_rec op) c0 (call (KGetCR ns name) w) = Some ((None, c), w1)"
    and "c1 = dbLoadedFromDiskWhenRestore c"
    and "EnsureRedisConfigMap (op_ensurer op) c1 (getLabels c1) w1 = ((None, b), w2)"
    and "EnsureRedisStatefulsets (op_ensurer op) c1 (getLabels c1) w2 = Some ((created, None), c2, ls, w3)"
    and "EnsureClusterShardsHeadLessSvcs (op_ensurer op) c2 ls w3 = ((Some e, ls'), w4)"
    and nil: "\<forall>msg. r_wrapf (op_rec op) None msg = None"
  shows "Reconcile op ns name w = None"
proof -
  have "ensureCluster op c0 (call (KGetCR ns name) w) = Some ((created, wrap_nil (op_rec op) Kubernetes ''EnsureRedisHeadLessSvcs''), c2, w4)"
    unfolding ensureCluster_def Let_def using assms(2-6) by simp
  moreover have "wrap_nil (op_rec op) Kubernetes ''EnsureRedisHeadLessSvcs'' = Some (CustomError Kubernetes None)"
    using nil by (simp add: wrap_nil_def ErrorType_Wrap_def ErrorType_Wrapf_def)
  ultimately have "reconcile_ensure op c0 (call (KGetCR ns name) w) = None"
    by (simp add: reconcile_ensure_def GetType_def)
  with assms(1) show ?thesis by (simp add: Reconcile_def GetDistributedRedisCluster_def next_stage_def)
qed

section \<open>Healing of high availability\<close>

definition in_zone :: "node list \<Rightarrow> string \<Rightarrow> string \<Rightarrow> node list" where
  "in_zone nodes zone sts = filter (\<lambda>n. n_Zonename n = zone) (filter (\<lambda>n. n_StatefulSet n = sts) nodes)"

lemma count_zones_map:
  "count_zones mn sts (filter (\<lambda>n. n_StatefulSet n = sts) nodes) zones (k, m) = Inr (k', m') \<Longrightarrow>
   \<forall>z s ns. m (z, s) = Some ns \<longrightarrow> ns = in_zone nodes z s \<Longrightarrow> \<forall>z s ns. m' (z, s) = Some ns \<longrightarrow> ns = in_zone nodes z s"
proof (induction zones arbitrary: k m)
  case (Cons zone zones)
  from Cons.prems(1) obtain ns k1 where ns: "zone_nodes zone (filter (\<lambda>n. n_StatefulSet n = sts) nodes) = Inr ns"
    and rest: "count_zones mn sts (filter (\<lambda>n. n_StatefulSet n = sts) nodes) zones (k1, m((zone, sts) \<mapsto> ns)) = Inr (k', m')"
    by (auto split: sum.splits)
  have "ns = in_zone nodes zone sts" using ns by (auto simp: zone_nodes_def in_zone_def Let_def split: option.splits)
  with Cons.prems(2) show ?case by (intro Cons.IH [OF rest]) (auto split: if_splits)
qed simp

lemma count_sets_map:
  "count_sets c nodes mn zones is (k, m) = Inr (k', m') \<Longrightarrow>
   \<forall>z s ns. m (z, s) = Some ns \<longrightarrow> ns = in_zone nodes z s \<Longrightarrow> \<forall>z s ns. m' (z, s) = Some ns \<longrightarrow> ns = in_zone nodes z s"
proof (induction "is" arbitrary: k m)
  case (Cons i "is")
  let ?sts = "ClusterStatefulSetName (drc_Name c) (int i)"
  from Cons.prems(1) obtain k1 m1 where one: "count_zones mn ?sts (filter (\<lambda>n. n_StatefulSet n = ?sts) nodes) zones (k, m) = Inr (k1, m1)"
    and rest: "count_sets c nodes mn zones is (k1, m1) = Inr (k', m')"
    by (auto simp: Let_def split: sum.splits if_splits)
  show ?case by (rule Cons.IH [OF rest count_zones_map [OF one Cons.prems(2)]])
qed simp

text \<open>What is noted for deletion: for a set at most one node, a slave in a zone with too many nodes of the set.\<close>

definition crowded_slave :: "node list \<Rightarrow> int \<Rightarrow> node \<Rightarrow> bool" where
  "crowded_slave nodes mx n \<longleftrightarrow> n \<in> set nodes \<and> n_Role n = RedisSlaveRole \<and> mx < int (length (in_zone nodes (n_Zonename n) (n_StatefulSet n)))"

definition noted :: "node list \<Rightarrow> int \<Rightarrow> (string \<rightharpoonup> node list) \<Rightarrow> bool" where
  "noted nodes mx D \<longleftrightarrow> (\<forall>s ns. D s = Some ns \<longrightarrow> (\<exists>n. ns = [n] \<and> n_StatefulSet n = s \<and> crowded_slave nodes mx n))"

lemma note_slaves_noted:
  assumes "\<forall>n \<in> set nodes. n_StatefulSet n \<noteq> zone"
  shows "noted nodes mx (fst acc) \<Longrightarrow> \<forall>n \<in> set ns. n_Role n = RedisSlaveRole \<longrightarrow> crowded_slave nodes mx n \<Longrightarrow>
    noted nodes mx (fst (foldl (note_slave zone) acc ns))"
proof (induction ns arbitrary: acc)
  case (Cons n ns)
  obtain D t where acc: "acc = (D, t)" by (cases acc)
  have "D zone = None"
  proof (cases "D zone")
    case (Some xs)
    with Cons.prems(1) acc obtain m where "n_StatefulSet m = zone" "crowded_slave nodes mx m" by (auto simp: noted_def)
    with assms show ?thesis by (auto simp: crowded_slave_def)
  qed
  then have "noted nodes mx (fst (note_slave zone acc n))" using Cons.prems acc by (auto simp: note_slave_def noted_def)
  with Cons.IH [of "note_slave zone acc n"] Cons.prems(2) show ?case by simp
qed simp

lemma note_zones_noted:
  assumes names: "\<forall>zone \<in> set zones. \<forall>n \<in> set nodes. n_StatefulSet n \<noteq> zone"
    and m: "\<forall>z s ns. m (z, s) = Some ns \<longrightarrow> ns = in_zone nodes z s"
  shows "noted nodes mx (fst acc) \<Longrightarrow> noted nodes mx (fst (foldl (note_zone mx m sts) acc zones))"
  using names
proof (induction zones arbitrary: acc)
  case (Cons zone zones)
  have "noted nodes mx (fst (note_zone mx m sts acc zone))"
  proof (cases "\<exists>ns. m (zone, sts) = Some ns \<and> mx < int (length ns)")
    case True
    then obtain ns where ns: "m (zone, sts) = Some ns" "mx < int (length ns)" by blast
    with m have "ns = in_zone nodes zone sts" by blast
    with ns(2) have "\<forall>n \<in> set ns. n_Role n = RedisSlaveRole \<longrightarrow> crowded_slave nodes mx n" by (auto simp: crowded_slave_def in_zone_def)
    with note_slaves_noted [of nodes zone mx acc ns] Cons.prems ns show ?thesis by (simp add: note_zone_def)
  next
    case False
    with Cons.prems(1) show ?thesis by (auto simp: note_zone_def split: option.split)
  qed
  with Cons.IH Cons.prems(2) show ?case by simp
qed simp

lemma note_sets_noted:
  assumes "\<forall>zone \<in> set zones. \<forall>n \<in> set nodes. n_StatefulSet n \<noteq> zone" and "\<forall>z s ns. m (z, s) = Some ns \<longrightarrow> ns = in_zone nodes z s"
  shows "noted nodes mx (fst acc) \<Longrightarrow> noted nodes mx (fst (foldl (\<lambda>acc i. foldl (note_zone mx m (f i)) acc zones) acc is))"
  by (induction "is" arbitrary: acc) (simp_all add: note_zones_noted [OF assms])

definition zone_limit :: "operator \<Rightarrow> DistributedRedisCluster \<Rightarrow> HAspec \<Rightarrow> int" where
  "zone_limit op c ha = (let nz = int (length (op_zones op (ha_ZonesInfo ha))) in (1 + spec_ClusterReplicas (drc_Spec c) + (nz - 1)) sdiv nz)"

lemma getListofNodestoDelete_noted:
  assumes run: "getListofNodestoDelete op c infos = Some (Inr (k, D))" and ha: "spec_HaConfig (drc_Spec c) = Some ha"
    and names: "\<forall>zone \<in> set (op_zones op (ha_ZonesInfo ha)). \<forall>n \<in> set (GetNodes infos). n_StatefulSet n \<noteq> zone"
  shows "noted (GetNodes infos) (zone_limit op c ha) D"
proof -
  define zones where "zones = sort (op_zones op (ha_ZonesInfo ha))"
  define mx where "mx = zone_limit op c ha"
  have len: "length (op_zones op (ha_ZonesInfo ha)) = length zones" by (simp add: zones_def)
  have names: "\<forall>zone \<in> set zones. \<forall>n \<in> set (GetNodes infos). n_StatefulSet n \<noteq> zone" using names by (simp add: zones_def)
  have mx: "(1 + spec_ClusterReplicas (drc_Spec c) + (int (length zones) - 1)) sdiv int (length zones) = mx" by (simp add: mx_def zone_limit_def Let_def len)
  note run = run [unfolded getListofNodestoDelete_def ha option.case Let_def, folded zones_def, unfolded mx]
  obtain mn j m where count: "count_sets c (GetNodes infos) mn zones [0..<nat (spec_MasterSize (drc_Spec c))] (0, Map.empty) = Inr (j, m)"
    and D: "D = Map.empty \<or> D = fst (foldl (\<lambda>acc i. foldl (note_zone mx m (ClusterStatefulSetName (drc_Name c) (int i))) acc zones) (Map.empty, j) [0..<nat (spec_MasterSize (drc_Spec c))])"
    using run by (auto split: if_splits sum.splits prod.splits)
  have "\<forall>z s ns. m (z, s) = Some ns \<longrightarrow> ns = in_zone (GetNodes infos) z s" by (rule count_sets_map [OF count]) simp
  note step = note_sets_noted [OF names this, of mx]
  have none: "noted (GetNodes infos) mx Map.empty" by (simp add: noted_def)
  then have "noted (GetNodes infos) mx (fst (Map.empty, j))" by simp
  note step = step [OF this]
  from D show ?thesis unfolding mx_def [symmetric] by (elim disjE) (simp_all only: none step)
qed

lemma delete_nodes_dels:
  "delete_nodes k ns [n] w = (e, w') \<Longrightarrow> dels k w w' (if e = None then [n_PodName n] else []) \<and> kube_only w w'"
  using DeletePodByName_dels [of k ns "n_PodName n" w] DeletePod_op [of k ns "n_PodName n" w]
  by (cases "DeletePodByName k ns (n_PodName n) w") (auto split: option.splits)

lemma delete_surplus_dels:
  assumes "noted nodes mx D"
  shows "delete_surplus k c D is w = (e, w') \<Longrightarrow> distinct is \<Longrightarrow>
    \<exists>N. dels k w w' (map n_PodName N) \<and> kube_only w w' \<and> distinct (map n_StatefulSet N) \<and>
      (\<forall>n \<in> set N. crowded_slave nodes mx n \<and> n_StatefulSet n \<in> (\<lambda>i. ClusterStatefulSetName (drc_Name c) (int i)) ` set is)"
proof (induction "is" arbitrary: w)
  case (Cons i "is")
  let ?s = "ClusterStatefulSetName (drc_Name c) (int i)"
  obtain e1 w1 where one: "delete_nodes k (drc_Namespace c) (case D ?s of Some ns \<Rightarrow> ns | None \<Rightarrow> []) w = (e1, w1)" by fastforce
  obtain N1 where N1: "dels k w w1 (map n_PodName N1)" "kube_only w w1" "N1 = [] \<or> (\<exists>n. N1 = [n] \<and> n_StatefulSet n = ?s \<and> crowded_slave nodes mx n)"
  proof (cases "D ?s")
    case None
    with one have "w1 = w" by simp
    then show ?thesis by (intro that [of "[]"]) simp_all
  next
    case (Some ns)
    with assms obtain n where n: "ns = [n]" "n_StatefulSet n = ?s" "crowded_slave nodes mx n" unfolding noted_def by blast
    with Some one have "delete_nodes k (drc_Namespace c) [n] w = (e1, w1)" by simp
    from delete_nodes_dels [OF this] n show ?thesis by (intro that [of "if e1 = None then [n] else []"]) auto
  qed
  show ?case
  proof (cases e1)
    case (Some _)
    with Cons.prems one have "w' = w1" by simp
    with N1 show ?thesis by (intro exI [of _ N1]) auto
  next
    case None
    with Cons.prems one have rest: "delete_surplus k c D is w1 = (e, w')" by simp
    from Cons.IH [OF this] Cons.prems(2) obtain N where N: "dels k w1 w' (map n_PodName N)" "kube_only w1 w'" "distinct (map n_StatefulSet N)"
      "\<forall>n \<in> set N. crowded_slave nodes mx n \<and> n_StatefulSet n \<in> (\<lambda>i. ClusterStatefulSetName (drc_Name c) (int i)) ` set is" by auto
    have "?s \<notin> (\<lambda>i. ClusterStatefulSetName (drc_Name c) (int i)) ` set is" using Cons.prems(2) by (auto simp: ClusterStatefulSetName_inj)
    then have "distinct (map n_StatefulSet (N1 @ N))" using N1(3) N(3,4) by auto
    with dels_trans [OF N1(1) N(1)] kube_trans [OF N1(2) N(2)] N1(3) N(4) show ?thesis by (intro exI [of _ "N1 @ N"]) auto
  qed
qed (auto intro: exI [of _ "[]"])

lemma write_status_dels: "dels k w (snd (write_status op c st w)) []"
  by (rule dels_none) (auto simp: write_status_def UpdateCRStatus_def split: prod.split option.split)

lemma UpdateCrd_dels: "UpdateCrdAnnotations k c a v w = (res, w') \<Longrightarrow> dels k' w w' []"
  by (rule dels_none) (auto simp: UpdateCrdAnnotations_def UpdateCR_def Let_def split: option.splits if_splits)

lemma call_dels: "\<forall>ns n. c \<noteq> KDeletePod ns n \<Longrightarrow> dels k w (call c w) []"
  by (rule dels_none) simp

text \<open>What a pass with HA to heal does: it deletes pods, or moves masters, or neither.\<close>

lemma reconcile_ha_cases:
  assumes run: "reconcile_ha op c infos st w = Some (out, w')"
  shows "hw_redis w' = hw_redis w \<and> dels (op_kube op) w w' [] \<or>
    st = HaStatusRedistribute \<and> drc_Annotations c ''reDistributeNode'' = Some ''true'' \<and>
      (dels (op_kube op) w w' [] \<or>
       (\<exists>k D. getListofNodestoDelete op c infos = Some (Inr (k, D)) \<and>
         w' = snd (delete_surplus (op_kube op) c D [0..<nat (spec_MasterSize (drc_Spec c))] (call (KListPods (drc_Namespace c) (getLabels c)) w))))"
proof (cases "st = HaStatusRedistribute \<and> drc_Annotations c ''reDistributeNode'' = Some ''true''")
  case False
  then have "w' = w" using run by (auto simp: reconcile_ha_def Let_def split: if_splits Option.bind_splits)
  then show ?thesis by simp
next
  case True
  define w1 where "w1 = call (KListPods (drc_Namespace c) (getLabels c)) w"
  have w1: "dels (op_kube op) w w1 []" unfolding w1_def by (rule call_dels) simp
  have status: "dels (op_kube op) w (snd (write_status op c s w1)) []" for s using dels_trans [OF w1 write_status_dels] by simp
  have crd: "dels (op_kube op) w w2 []" if "UpdateCrdAnnotations k c a v (w1\<lparr>hw_redis := rw\<rparr>) = (res, w2)" for k a v rw res w2
    using dels_trans [OF w1, of w2 "[]"] UpdateCrd_dels [OF that, of "op_kube op"] by simp
  have ne: "HaStatusRedistribute \<noteq> HaStatusFailed" by (simp add: HaStatusRedistribute_def HaStatusFailed_def)
  have "w' = w \<or> dels (op_kube op) w w' [] \<or> (\<exists>k D. getListofNodestoDelete op c infos = Some (Inr (k, D)) \<and>
         w' = snd (delete_surplus (op_kube op) c D [0..<nat (spec_MasterSize (drc_Spec c))] w1))"
    using run True ne w1 status unfolding reconcile_ha_def Let_def GetStatefulSetPodsByLabels_def w1_def [symmetric]
    by (auto split: if_split_asm Option.bind_split_asm sum.split_asm option.split_asm prod.split_asm dest!: crd)
  with True show ?thesis unfolding w1_def by auto
qed

text \<open>
  C16: Healing of high availability. It deletes pods or moves masters only for a cluster whose masters are misplaced and whose
  annotation asks for it. It deletes at most one pod of each stateful set in a pass, always that of a slave, in a
  zone that holds more nodes of the set than its share, and in such a pass it sends nothing to redis. (Every slave
  found replaces the one noted before it, so of several surplus slaves the last one goes.) The names of zones must not
  be names of stateful sets: the code looks the former up among the latter.
\<close>

theorem reconcile_ha_safe:
  assumes run: "reconcile_ha op c infos st w = Some (out, w')" and ha: "spec_HaConfig (drc_Spec c) = Some ha"
    and names: "\<forall>zone \<in> set (op_zones op (ha_ZonesInfo ha)). \<forall>n \<in> set (GetNodes infos). n_StatefulSet n \<noteq> zone"
  shows "\<exists>N. dels (op_kube op) w w' (map n_PodName N) \<and> distinct (map n_StatefulSet N) \<and>
    (\<forall>n \<in> set N. crowded_slave (GetNodes infos) (zone_limit op c ha) n) \<and> (N \<noteq> [] \<longrightarrow> hw_redis w' = hw_redis w) \<and>
    (N \<noteq> [] \<or> hw_redis w' \<noteq> hw_redis w \<longrightarrow> st = HaStatusRedistribute \<and> drc_Annotations c ''reDistributeNode'' = Some ''true'')"
proof (cases "dels (op_kube op) w w' []")
  case True
  with reconcile_ha_cases [OF run] have "hw_redis w' = hw_redis w \<or> st = HaStatusRedistribute \<and> drc_Annotations c ''reDistributeNode'' = Some ''true''" by blast
  with True show ?thesis by (intro exI [of _ "[]"]) auto
next
  case False
  let ?is = "[0..<nat (spec_MasterSize (drc_Spec c))]"
  let ?w1 = "call (KListPods (drc_Namespace c) (getLabels c)) w"
  from False reconcile_ha_cases [OF run] obtain k D where st: "st = HaStatusRedistribute" "drc_Annotations c ''reDistributeNode'' = Some ''true''"
    and list: "getListofNodestoDelete op c infos = Some (Inr (k, D))" and w': "w' = snd (delete_surplus (op_kube op) c D ?is ?w1)" by blast
  from w' have "delete_surplus (op_kube op) c D ?is ?w1 = (fst (delete_surplus (op_kube op) c D ?is ?w1), w')" by simp
  from delete_surplus_dels [OF getListofNodestoDelete_noted [OF list ha names] this] obtain N where N: "dels (op_kube op) ?w1 w' (map n_PodName N)"
    "kube_only ?w1 w'" "distinct (map n_StatefulSet N)" "\<forall>n \<in> set N. crowded_slave (GetNodes infos) (zone_limit op c ha) n" by auto
  have "dels (op_kube op) w ?w1 []" by (rule call_dels) simp
  from dels_trans [OF this N(1)] have "dels (op_kube op) w w' (map n_PodName N)" by simp
  moreover have "hw_redis w' = hw_redis w" using only_calls_redis [OF N(2) [unfolded kube_only_def]] by simp
  ultimately show ?thesis using N(3,4) st by blast
qed

subsection \<open>Masters take over in their zone\<close>

definition accepts_failover :: "env \<Rightarrow> bool" where
  "accepts_failover env \<longleftrightarrow> (\<forall>h a. \<exists>v. e_do env h a [AStr ''CLUSTER'', AStr ''FAILOVER''] = RVal v)"

definition failover :: "node \<Rightarrow> event" where
  "failover n = EDo (IPPort n) [AStr ''CLUSTER'', AStr ''FAILOVER'']"

definition valid_role :: "node \<Rightarrow> bool" where
  "valid_role n \<longleftrightarrow> n_Role n = RedisMasterRole \<or> n_Role n = RedisSlaveRole"

definition same_place :: "node \<Rightarrow> node \<Rightarrow> bool" where
  "same_place n n' \<longleftrightarrow> IPPort n' = IPPort n \<and> n_StatefulSet n' = n_StatefulSet n \<and> n_Zonename n' = n_Zonename n \<and> (valid_role n \<longrightarrow> valid_role n')"

lemma same_place_refl [simp]: "same_place n n" by (simp add: same_place_def)

lemma same_place_trans: "same_place a b \<Longrightarrow> same_place b c \<Longrightarrow> same_place a c" by (simp add: same_place_def)

lemma FailoverSlaveToMaster_ok:
  assumes "accepts_failover env" "IPPort (w_heap w r) \<in> set (w_clients w)"
  shows "FailoverSlaveToMaster env r RedisFailoverDefault w = (None, set_node r (become '''' RedisMasterRole) (emit (failover (w_heap w r)) w))"
proof -
  from assms(1) obtain v where "e_do env (w_trace w) (IPPort (w_heap w r)) [AStr ''CLUSTER'', AStr ''FAILOVER''] = RVal v"
    unfolding accepts_failover_def by blast
  with assms(2) show ?thesis
    by (simp add: FailoverSlaveToMaster_def cnx_Get_def do_cmd_def ValidateResp_def reply_err_def Let_def failover_def emit_def)
qed

lemma become_master: "same_place n (become ref RedisMasterRole n)"
  by (simp add: same_place_def become_def SetRole_def SetReferentMaster_def IPPort_def valid_role_def Let_def RedisMasterRole_def)

lemma promote_ok:
  assumes accept: "accepts_failover env"
  shows "distinct rs \<Longrightarrow> \<forall>r \<in> set rs. IPPort (w_heap w r) \<in> set (w_clients w) \<and> valid_role (w_heap w r) \<Longrightarrow>
    \<exists>w'. promote env z rs w = (None, w') \<and> w_clients w' = w_clients w \<and>
      w_trace w' = w_trace w @ map (\<lambda>r. failover (w_heap w r)) (filter (\<lambda>r. n_Zonename (w_heap w r) = z \<and> n_Role (w_heap w r) = RedisSlaveRole) rs) \<and>
      (\<forall>r. same_place (w_heap w r) (w_heap w' r)) \<and> (\<forall>r. r \<notin> set rs \<longrightarrow> w_heap w' r = w_heap w r)"
proof (induction rs arbitrary: w)
  case (Cons r rs)
  have ne: "RedisSlaveRole \<noteq> RedisMasterRole" by (simp add: RedisSlaveRole_def RedisMasterRole_def)
  show ?case
  proof (cases "n_Zonename (w_heap w r) = z \<and> n_Role (w_heap w r) = RedisSlaveRole")
    case False
    then have skip: "promote env z (r # rs) w = promote env z rs w" using Cons.prems(2) by (auto simp: Let_def valid_role_def)
    have "\<forall>r \<in> set rs. IPPort (w_heap w r) \<in> set (w_clients w) \<and> valid_role (w_heap w r)" using Cons.prems(2) by simp
    from Cons.IH [OF _ this] Cons.prems(1) False show ?thesis unfolding skip by auto
  next
    case True
    define w1 where "w1 = set_node r (become '''' RedisMasterRole) (emit (failover (w_heap w r)) w)"
    have h: "w_heap w1 = (w_heap w)(r := become '''' RedisMasterRole (w_heap w r))" "w_clients w1 = w_clients w"
      "w_trace w1 = w_trace w @ [failover (w_heap w r)]" by (simp_all add: w1_def set_node_def emit_def)
    have place: "same_place (w_heap w x) (w_heap w1 x)" for x by (simp add: h become_master)
    have run: "promote env z (r # rs) w = promote env z rs w1"
      using FailoverSlaveToMaster_ok [OF accept, of w r] True Cons.prems(2) ne by (simp add: Let_def w1_def)
    have out: "w_heap w1 x = w_heap w x" if "x \<in> set rs" for x using that Cons.prems(1) by (auto simp: h)
    have "\<forall>r \<in> set rs. IPPort (w_heap w1 r) \<in> set (w_clients w1) \<and> valid_role (w_heap w1 r)" using Cons.prems(2) out by (simp add: h(2))
    from Cons.IH [OF _ this] Cons.prems(1) obtain w' where w': "promote env z rs w1 = (None, w')" "w_clients w' = w_clients w1"
      "w_trace w' = w_trace w1 @ map (\<lambda>r. failover (w_heap w1 r)) (filter (\<lambda>r. n_Zonename (w_heap w1 r) = z \<and> n_Role (w_heap w1 r) = RedisSlaveRole) rs)"
      "\<forall>r. same_place (w_heap w1 r) (w_heap w' r)" "\<forall>r. r \<notin> set rs \<longrightarrow> w_heap w' r = w_heap w1 r" by auto
    have "map (\<lambda>r. failover (w_heap w1 r)) (filter (\<lambda>r. n_Zonename (w_heap w1 r) = z \<and> n_Role (w_heap w1 r) = RedisSlaveRole) rs) =
      map (\<lambda>r. failover (w_heap w r)) (filter (\<lambda>r. n_Zonename (w_heap w r) = z \<and> n_Role (w_heap w r) = RedisSlaveRole) rs)"
      using out by (intro map_cong filter_cong) auto
    with w' run True h place show ?thesis by (intro exI [of _ w']) (auto intro: same_place_trans)
  qed
qed simp

definition turn :: "string list \<Rightarrow> node \<Rightarrow> string" where
  "turn zones m = zones ! nat (fst (getSTSindex (n_StatefulSet m)) mod int (length zones))"

definition promoted :: "string list \<Rightarrow> node list \<Rightarrow> node \<Rightarrow> node list" where
  "promoted zones nodes m = filter (\<lambda>n. n_StatefulSet n = n_StatefulSet m \<and> n_Zonename n = turn zones m \<and> n_Role n = RedisSlaveRole) nodes"

lemma place_displaced_ok:
  assumes accept: "accepts_failover env" and zones: "zones \<noteq> []" and rs: "distinct rs"
    and conn: "\<forall>r \<in> set rs. IPPort (h r) \<in> set cl \<and> valid_role (h r)"
  shows "distinct (map n_StatefulSet ms) \<Longrightarrow> w_clients w = cl \<Longrightarrow> \<forall>r. same_place (h r) (w_heap w r) \<Longrightarrow>
    \<forall>r \<in> set rs. n_StatefulSet (h r) \<in> n_StatefulSet ` set ms \<longrightarrow> w_heap w r = h r \<Longrightarrow>
    \<forall>m \<in> set ms. snd (getSTSindex (n_StatefulSet m)) = None \<and>
      max 1 (spec_ClusterReplicas (drc_Spec c) + 1) \<le> int (length (filter (\<lambda>r. n_StatefulSet (h r) = n_StatefulSet m) rs)) \<Longrightarrow>
    \<exists>w'. place_displaced env c zones rs ms w = Some (None, w') \<and> w_trace w' = w_trace w @ concat (map (\<lambda>m. map failover (promoted zones (map h rs) m)) ms)"
proof (induction ms arbitrary: w)
  case (Cons m ms)
  define own where "own = filter (\<lambda>r. n_StatefulSet (w_heap w r) = n_StatefulSet m) rs"
  have own: "own = filter (\<lambda>r. n_StatefulSet (h r) = n_StatefulSet m) rs" unfolding own_def using Cons.prems(3) by (simp add: same_place_def)
  have eq: "w_heap w r = h r" if "r \<in> set own" for r using Cons.prems(4) that by (auto simp: own)
  have "\<forall>r \<in> set own. IPPort (w_heap w r) \<in> set (w_clients w) \<and> valid_role (w_heap w r)" using conn eq Cons.prems(2) by (auto simp: own)
  moreover have "distinct own" using rs by (simp add: own)
  ultimately obtain w1 where w1: "promote env (turn zones m) own w = (None, w1)" "w_clients w1 = w_clients w"
    "w_trace w1 = w_trace w @ map (\<lambda>r. failover (w_heap w r)) (filter (\<lambda>r. n_Zonename (w_heap w r) = turn zones m \<and> n_Role (w_heap w r) = RedisSlaveRole) own)"
    "\<forall>r. same_place (w_heap w r) (w_heap w1 r)" "\<forall>r. r \<notin> set own \<longrightarrow> w_heap w1 r = w_heap w r" using promote_ok [OF accept] by blast
  have "map (\<lambda>r. failover (w_heap w r)) (filter (\<lambda>r. n_Zonename (w_heap w r) = turn zones m \<and> n_Role (w_heap w r) = RedisSlaveRole) own) =
    map (\<lambda>r. failover (h r)) (filter (\<lambda>r. n_Zonename (h r) = turn zones m \<and> n_Role (h r) = RedisSlaveRole) own)"
    using eq by (intro map_cong filter_cong) auto
  also have "\<dots> = map failover (promoted zones (map h rs) m)"
    by (simp add: promoted_def own filter_map comp_def conj_comms)
  finally have tr: "w_trace w1 = w_trace w @ map failover (promoted zones (map h rs) m)" using w1(3) by simp
  obtain idx where idx: "getSTSindex (n_StatefulSet m) = (idx, None)" using Cons.prems(5) by (cases "getSTSindex (n_StatefulSet m)") auto
  have size: "length own \<noteq> 0" "\<not> int (length own) < spec_ClusterReplicas (drc_Spec c) + 1" using Cons.prems(5) by (auto simp: own)
  have run: "place_displaced env c zones rs (m # ms) w = place_displaced env c zones rs ms w1"
    using w1(1) size zones idx by (simp add: Let_def own_def [symmetric] turn_def)
  have "\<forall>r. same_place (h r) (w_heap w1 r)" using Cons.prems(3) w1(4) same_place_trans by blast
  moreover have "\<forall>r \<in> set rs. n_StatefulSet (h r) \<in> n_StatefulSet ` set ms \<longrightarrow> w_heap w1 r = h r"
  proof (intro ballI impI)
    fix r assume r: "r \<in> set rs" "n_StatefulSet (h r) \<in> n_StatefulSet ` set ms"
    with Cons.prems(1) have "r \<notin> set own" by (auto simp: own)
    with r w1(5) Cons.prems(4) show "w_heap w1 r = h r" by simp
  qed
  ultimately obtain w' where "place_displaced env c zones rs ms w1 = Some (None, w')"
    "w_trace w' = w_trace w1 @ concat (map (\<lambda>m. map failover (promoted zones (map h rs) m)) ms)"
    using Cons.IH [of w1] Cons.prems(1,2,5) w1(2) by auto
  with run tr show ?case by simp
qed simp

text \<open>
  C18: Misplaced masters are moved into the zone whose turn it is for their set. If the servers accept the command, \<^verbatim>\<open>CLUSTER FAILOVER\<close> is sent
  exactly to the slaves of the set in that zone, set by set, and nothing else is sent. (All the slaves in the zone are told to
  take over, not one of them.)
\<close>

theorem PlaceMastersbySTS_promotes:
  assumes ha: "spec_HaConfig (drc_Spec c) = Some ha" and zones: "zones = sort (op_zones op (ha_ZonesInfo ha))" "zones \<noteq> []"
    and accept: "accepts_failover (op_env op)" and conn: "\<forall>n \<in> set (GetNodes infos). IPPort n \<in> set (w_clients w) \<and> valid_role n"
    and sets: "distinct (map n_StatefulSet displaced)" "\<forall>m \<in> set displaced. snd (getSTSindex (n_StatefulSet m)) = None \<and>
      max 1 (spec_ClusterReplicas (drc_Spec c) + 1) \<le> int (length (filter (\<lambda>n. n_StatefulSet n = n_StatefulSet m) (GetNodes infos)))"
  shows "\<exists>w'. PlaceMastersbySTS op c displaced infos w = Some (None, w') \<and>
    w_trace w' = w_trace w @ concat (map (\<lambda>m. map failover (promoted zones (GetNodes infos) m)) displaced)"
proof -
  let ?ns = "GetNodes infos"
  let ?h = "nodes_heap ?ns"
  have h: "map ?h [0..<length ?ns] = ?ns" by (rule nth_equalityI) (simp_all add: nodes_heap_def)
  have len: "length (filter (\<lambda>r. P (?h r)) [0..<length ?ns]) = length (filter P ?ns)" for P
    using arg_cong [OF h, of "\<lambda>ns. length (filter P ns)"] by (simp add: filter_map comp_def)
  have size: "length (filter (\<lambda>r. n_StatefulSet (?h r) = s) [0..<length ?ns]) = length (filter (\<lambda>n. n_StatefulSet n = s) ?ns)" for s
    by (rule len)
  have "\<forall>r \<in> set [0..<length ?ns]. IPPort (?h r) \<in> set (w_clients w) \<and> valid_role (?h r)" using conn by (simp add: nodes_heap_def)
  from place_displaced_ok [OF accept zones(2) distinct_upt this, of displaced "w\<lparr>w_heap := ?h\<rparr>" c] sets
  show ?thesis by (simp add: PlaceMastersbySTS_def ha zones(1) [symmetric] size h Let_def)
qed

text \<open>A set with all its pods in the first of three zones, the master and two slaves.\<close>

definition three_zones :: HAspec where
  "three_zones = \<lparr>ha_HaEnabled = True, ha_ZonesInfo = [''z1'' \<mapsto> '''', ''z2'' \<mapsto> '''', ''z3'' \<mapsto> '''']\<rparr>"

definition zone_operator :: operator where
  "zone_operator = \<lparr>op_rec = example_reconciler\<lparr>r_ctx := \<lparr>co_zones = (\<lambda>_. [''z1'', ''z2'', ''z3'']), co_masters = (\<lambda>_. []), co_nodes = (\<lambda>_. [])\<rparr>\<rparr>,
     op_ord = map_keys, op_counts = (\<lambda>_. []), op_failed = (\<lambda>_. []), op_untrusted = (\<lambda>_. []), op_file = None, op_cmp = (\<lambda>x y. if x = y then 0 else 1),
     op_get_node = (\<lambda>_ _. None), op_list_nodes = (\<lambda>_ _. Inr 1), op_msg = (\<lambda>_. ''error''), op_reconcileTime = 60\<rparr>"

definition zone_pod :: "string \<Rightarrow> string \<Rightarrow> string \<Rightarrow> node" where
  "zone_pod ip role zone = NewDefaultNode\<lparr>n_ID := ip, n_IP := ip, n_Role := role, n_Zonename := zone, n_StatefulSet := ''drc-c-0'', n_PodName := ''pod-'' @ ip\<rparr>"

definition zone_infos :: "node list \<Rightarrow> ClusterInfos" where
  "zone_infos ns = NewClusterInfos\<lparr>ci_Infos := map (\<lambda>n. (IPPort n, \<lparr>ni_Node = n, ni_Friends = []\<rparr>)) ns\<rparr>"

definition crowded_zone :: "node list" where
  "crowded_zone = [zone_pod ''1'' RedisMasterRole ''z1'', zone_pod ''2'' RedisSlaveRole ''z1'', zone_pod ''3'' RedisSlaveRole ''z1'']"

definition zone_drc :: DistributedRedisCluster where
  "zone_drc = example_drc\<lparr>drc_Annotations := [''reDistributeNode'' \<mapsto> ''true''],
     drc_Spec := example_spec\<lparr>spec_ClusterReplicas := 2, spec_HaConfig := Some three_zones\<rparr>\<rparr>"

lemma GetNodes_zone_infos [simp]: "GetNodes (zone_infos ns) = ns"
  by (simp add: GetNodes_def zone_infos_def comp_def)

lemma set_name: "ClusterStatefulSetName ''c'' 0 = ''drc-c-0''"
  by code_simp

lemma roles_differ: "RedisMasterRole \<noteq> RedisSlaveRole" "RedisSlaveRole \<noteq> RedisMasterRole"
  by (simp_all add: RedisMasterRole_def RedisSlaveRole_def)

lemma zone_fields:
  "n_Role (zone_pod i r z) = r" "n_Zonename (zone_pod i r z) = z" "n_StatefulSet (zone_pod i r z) = ''drc-c-0''" "n_PodName (zone_pod i r z) = ''pod-'' @ i"
  by (simp_all add: zone_pod_def)

lemma crowded_list: "getListofNodestoDelete zone_operator zone_drc (zone_infos crowded_zone) =
    Some (Inr (2, [''drc-c-0'' \<mapsto> [zone_pod ''3'' RedisSlaveRole ''z1'']]))"
  by (simp add: getListofNodestoDelete_def zone_drc_def three_zones_def zone_operator_def example_drc_def example_spec_def crowded_zone_def set_name zone_fields
      zone_nodes_def roles_differ Let_def note_zone_def note_slave_def signed_divide_int_def)

theorem reconcile_ha_safe_witness:
  "\<exists>out w' (N :: node list). reconcile_ha zone_operator zone_drc (zone_infos crowded_zone) HaStatusRedistribute example_hworld = Some (out, w') \<and>
     dels (op_kube zone_operator) example_hworld w' (map n_PodName N) \<and> deletions example_kube [] (hw_calls w') = [''pod-3''] \<and> distinct (map n_StatefulSet N)"
proof -
  have k: "op_kube zone_operator = example_kube" by (simp add: zone_operator_def example_reconciler_def)
  have ha: "spec_HaConfig (drc_Spec zone_drc) = Some three_zones" by (simp add: zone_drc_def)
  have zones: "op_zones zone_operator (ha_ZonesInfo three_zones) = [''z1'', ''z2'', ''z3'']" by (simp add: zone_operator_def)
  have active: "CheckallZonesActive (op_list_nodes zone_operator h) (op_zones zone_operator) zone_drc = Some (True, 3, None)" for h
    by (simp add: CheckallZonesActive_def ha zones CheckZoneAvailable_def zone_operator_def)
  have delete: "DeletePodByName example_kube ns n w = (None, call (KDeletePod ns n) (call (KGetPod ns n) w))" for ns n w
    by (simp add: DeletePodByName_def GetPod_def example_kube_def call_def)
  have pods: "GetStatefulSetPodsByLabels example_kube ns ls w = (Inr [], call (KListPods ns ls) w)" for ns ls w
    by (simp add: GetStatefulSetPodsByLabels_def example_kube_def)
  have ann: "drc_Annotations zone_drc ''reDistributeNode'' = Some ''true''" "nat (spec_MasterSize (drc_Spec zone_drc)) = 1" "drc_Name zone_drc = ''c''"
    by (simp_all add: zone_drc_def example_spec_def example_drc_def)
  have d: "k_delete_pod example_kube h ns n = None" for h ns n by (simp add: example_kube_def)
  obtain out w' where run: "reconcile_ha zone_operator zone_drc (zone_infos crowded_zone) HaStatusRedistribute example_hworld = Some (out, w')"
    and del: "deletions example_kube [] (hw_calls w') = [''pod-3'']"
    by (simp add: reconcile_ha_def k active pods crowded_list ann set_name zone_fields delete Let_def HaStatusRedistribute_def HaStatusFailed_def d example_hworld_def)
  have "\<forall>zone \<in> set (op_zones zone_operator (ha_ZonesInfo three_zones)). \<forall>n \<in> set (GetNodes (zone_infos crowded_zone)). n_StatefulSet n \<noteq> zone"
    by (simp add: zones crowded_zone_def zone_fields)
  from reconcile_ha_safe [OF run ha this] have "\<exists>N :: node list. dels (op_kube zone_operator) example_hworld w' (map n_PodName N) \<and> distinct (map n_StatefulSet N)"
    by blast
  with run del show ?thesis by blast
qed

text \<open>The master of the first set runs in the second zone, a slave in the first.\<close>

definition displaced_nodes :: "node list" where
  "displaced_nodes = [zone_pod ''1'' RedisMasterRole ''z2'', zone_pod ''2'' RedisSlaveRole ''z1'', zone_pod ''3'' RedisSlaveRole ''z3'']"

theorem PlaceMastersbySTS_promotes_witness:
  "\<exists>w'. PlaceMastersbySTS zone_operator zone_drc [zone_pod ''1'' RedisMasterRole ''z2''] (zone_infos displaced_nodes)
      (example_world\<lparr>w_clients := map IPPort displaced_nodes\<rparr>) = Some (None, w') \<and>
     w_trace w' = [failover (zone_pod ''2'' RedisSlaveRole ''z1'')]"
proof -
  let ?w = "example_world\<lparr>w_clients := map IPPort displaced_nodes\<rparr>"
  have ha: "spec_HaConfig (drc_Spec zone_drc) = Some three_zones" by (simp add: zone_drc_def)
  have zones: "[''z1'', ''z2'', ''z3''] = sort (op_zones zone_operator (ha_ZonesInfo three_zones))" by (simp add: zone_operator_def)
  have accept: "accepts_failover (op_env zone_operator)"
    by (simp add: accepts_failover_def zone_operator_def example_reconciler_def example_server_def server_with_def sendable_def)
  have conn: "\<forall>n \<in> set (GetNodes (zone_infos displaced_nodes)). IPPort n \<in> set (w_clients ?w) \<and> valid_role n"
    by (simp add: displaced_nodes_def valid_role_def zone_fields)
  have index: "getSTSindex ''drc-c-0'' = (0, None)" using getSTSindex_name [of 0 "''c''"] by (simp add: set_name)
  from PlaceMastersbySTS_promotes [OF ha zones _ accept conn, of "[zone_pod ''1'' RedisMasterRole ''z2'']"]
  show ?thesis
    by (simp add: zone_fields index displaced_nodes_def promoted_def turn_def roles_differ zone_drc_def example_world_def)
qed

text \<open>
  A cluster that is up, seen by an API server whose answers for services are given, and by redis servers that accept
  connections and nothing else.
\<close>

definition live :: DistributedRedisCluster where
  "live = example_drc\<lparr>drc_Spec := example_spec\<lparr>spec_MasterSize := 3, spec_Image := ''i'', spec_ServiceName := ''s'', spec_Resources := Some defaultResource,
     spec_Monitor := Some [], spec_HaConfig := Some no_ha, spec_AdminSecret := Some ''x--admin'', spec_TerminationGracePeriod := Some 60\<rparr>,
     drc_Status := example_status\<lparr>st_HAStatus := HaStatusCreating, st_SecretStatus := ''ACLintact''\<rparr>\<rparr>"

definition live_set :: "string \<Rightarrow> StatefulSet" where
  "live_set name = (case NewStatefulSetForCR map_keys None live name ''svc'' Map.empty of Some (_, Inr ss) \<Rightarrow> ss | _ \<Rightarrow> example_set name)
     \<lparr>ss_ReadyReplicas := 2\<rparr>"

definition live_operator :: "err option \<Rightarrow> operator" where
  "live_operator services = zone_operator\<lparr>op_rec := example_reconciler\<lparr>r_env := dead_env, r_wrapf := (\<lambda>e _. e),
     r_kube := example_kube\<lparr>k_get_cr := (\<lambda>_ _ _. Inr live), k_get := (\<lambda>_ kind _ _. if kind = KService then services else None),
       k_list_pods := (\<lambda>_ _ _. Inr [example_pod ''p'' ''1'' None]), k_get_set := (\<lambda>_ _ name. Inr (live_set name))\<rparr>\<rparr>\<rparr>"

lemma live_new: "\<exists>ss. NewStatefulSetForCR map_keys None live name ''svc'' Map.empty = Some (live, Inr ss)"
  by (simp add: NewStatefulSetForCR_def live_def with_grace_def example_drc_def example_spec_def redisServerContainer_def redisMonitorContainers_def
      IsRestoreFromBackup_def Let_def)

lemma live_set_current:
  "ss_Replicas (live_set n) = 2" "ss_ReadyReplicas (live_set n) = 2" "\<exists>c cs. pt_Containers (ss_Template (live_set n)) = c # cs \<and> ct_Image c = ''i'' \<and>
    \<not> resources_differ (\<lambda>x y. if x = y then 0 else 1) defaultResource (ct_Resources c)"
proof -
  obtain ss where ss: "NewStatefulSetForCR map_keys None live n ''svc'' Map.empty = Some (live, Inr ss)" using live_new by blast
  then have l: "live_set n = ss\<lparr>ss_ReadyReplicas := 2\<rparr>" by (simp add: live_set_def)
  have "monitors_named live" by (simp add: monitors_named_def live_def)
  from NewStatefulSet_current [OF ss, of "\<lambda>x y. if x = y then 0 else 1", OF _ this]
  have "set_current (\<lambda>x y. if x = y then 0 else 1) live ss" by simp
  then show "ss_Replicas (live_set n) = 2" "ss_ReadyReplicas (live_set n) = 2" "\<exists>c cs. pt_Containers (ss_Template (live_set n)) = c # cs \<and> ct_Image c = ''i'' \<and>
    \<not> resources_differ (\<lambda>x y. if x = y then 0 else 1) defaultResource (ct_Resources c)"
    unfolding set_current_def by (auto simp: l live_def example_spec_def)
qed

lemma live_fields:
  "spec_MasterSize (drc_Spec live) = 3" "spec_ClusterReplicas (drc_Spec live) = 1" "spec_PdbEnabled (drc_Spec live) = False" "spec_Image (drc_Spec live) = ''i''"
  "spec_Resources (drc_Spec live) = Some defaultResource" "spec_Monitor (drc_Spec live) = Some []" "spec_HaConfig (drc_Spec live) = Some no_ha"
  "spec_AdminSecret (drc_Spec live) = Some ''x--admin''" "spec_Config (drc_Spec live) = None" "\<not> IsRestoreFromBackup live" "spec_ServiceName (drc_Spec live) = ''s''"
  "st_HAStatus (drc_Status live) = HaStatusCreating" "st_SecretStatus (drc_Status live) = ''ACLintact''" "st_SecretsVer (drc_Status live) = Map.empty"
  "live\<lparr>drc_Spec := (drc_Spec live)\<lparr>spec_Monitor := Some []\<rparr>\<rparr> = live" "SetHAStatus HaStatusCreating (drc_Status live) = drc_Status live"
  "SetSecretStatus ''ACLintact'' (drc_Status live) = drc_Status live" "DefaultSpec live = (live, False)"
  by (simp_all add: live_def example_drc_def example_spec_def example_status_def IsRestoreFromBackup_def SetHAStatus_def SetSecretStatus_def
      DefaultSpec_def minMasterSize_def defaultResource_def Let_def)

lemma live_operator_sel:
  "op_ensurer (live_operator s) = \<lparr>en_kube = op_kube (live_operator s), en_ord = map_keys, en_file = None, en_cmp = (\<lambda>x y. if x = y then 0 else 1)\<rparr>"
  "op_env (live_operator s) = dead_env" "k_get_set (op_kube (live_operator s)) h ns n = Inr (live_set n)" "r_wrapf (op_rec (live_operator s)) e m = e"
  "op_ord (live_operator s) = map_keys" "k_get_cr (op_kube (live_operator s)) h ns n = Inr live"
  "k_list_pods (op_kube (live_operator s)) h ns ls = Inr [example_pod ''p'' ''1'' None]"
  "k_get (op_kube (live_operator s)) h kind ns n = (if kind = KService then s else None)" "\<not> k_IsNotFound (op_kube (live_operator s)) e'"
  "k_get_config (op_kube (live_operator s)) h ns n = Inr \<lparr>cm_Name = n, cm_Namespace = ns, cm_Labels = Map.empty, cm_OwnerReferences = [], cm_Data = Map.empty\<rparr>"
  "k_get_secret (op_kube (live_operator s)) h ns n = Inr (example_secret n)" "k_update (op_kube (live_operator s)) h obj = None"
  by (simp_all add: op_ensurer_def live_operator_def zone_operator_def example_kube_def)

lemma live_valid: "validateAndSetDefault (op_rec (live_operator s)) live w = Some ((None, live), w)"
  by (simp add: validateAndSetDefault_def validate_ha_def live_fields no_ha_def)

lemma live_loaded: "dbLoadedFromDiskWhenRestore live = live"
  by (simp add: dbLoadedFromDiskWhenRestore_def live_fields)

lemma live_config: "\<exists>b w'. EnsureRedisConfigMap (op_ensurer (live_operator s)) live ls w = ((None, b), w')"
  by (intro exI [of _ False]) (simp add: EnsureRedisConfigMap_def ensure_conf_def ensure_acl_def live_operator_sel GetConfigMap_def UpdateConfigMap_def live_fields Let_def)

lemma live_ensure_set: "\<exists>w'. ensureRedisStatefulset (op_ensurer (live_operator s)) live n svc ls w = Some ((False, None), live, w')"
proof -
  obtain c cs where c: "pt_Containers (ss_Template (live_set n)) = c # cs" "ct_Image c = ''i''"
    "\<not> resources_differ (\<lambda>x y. if x = y then 0 else 1) defaultResource (ct_Resources c)" using live_set_current(3) by blast
  show ?thesis
    by (simp add: ensureRedisStatefulset_def live_operator_sel GetStatefulSet_def live_fields shouldUpdateRedis_def live_set_current(1) c
        shouldUpdateMonitor_def Let_def)
qed

lemma live_ensure_sets: "\<exists>b ls' w'. ensure_sets (op_ensurer (live_operator s)) is b0 live ls w = Some ((b, None), live, ls', w')"
proof (induction "is" arbitrary: b0 ls w)
  case (Cons i "is")
  let ?n = "ClusterStatefulSetName (drc_Name live) i"
  obtain w1 where "ensureRedisStatefulset (op_ensurer (live_operator s)) live ?n (ClusterHeadlessSvcName (spec_ServiceName (drc_Spec live)) i) (set_labels ?n ls) w =
    Some ((False, None), live, w1)" using live_ensure_set by blast
  with Cons show ?case by (simp add: Let_def)
qed simp


theorem Reconcile_service_panics_witness:
  "Reconcile (live_operator (Some (ErrServer ''forbidden''))) ''n'' ''c'' example_hworld = None"
proof -
  let ?op = "live_operator (Some (ErrServer ''forbidden''))"
  let ?w = "call (KGetCR ''n'' ''c'') example_hworld"
  obtain b w2 where conf: "EnsureRedisConfigMap (op_ensurer ?op) live (getLabels live) ?w = ((None, b), w2)" using live_config by blast
  obtain created ls w3 where sets: "EnsureRedisStatefulsets (op_ensurer ?op) live (getLabels live) w2 = Some ((created, None), live, ls, w3)"
    unfolding EnsureRedisStatefulsets_def using live_ensure_sets by blast
  obtain ls' w4 where svc: "EnsureClusterShardsHeadLessSvcs (op_ensurer ?op) live ls w3 = ((Some (ErrServer ''forbidden''), ls'), w4)"
    by (simp add: EnsureClusterShardsHeadLessSvcs_def live_fields ensureRedisHeadLessSvc_def GetService_def live_operator_sel Let_def upto_rec1)
  show ?thesis
    by (rule Reconcile_service_panics [OF _ live_valid _ conf sets svc]) (simp_all add: live_operator_sel live_loaded)
qed

lemma live_write: "\<exists>w'. write_status op live (drc_Status live) w = (live, w')"
  by (simp add: write_status_def updateClusterIfNeed_def)

lemma live_ensure_services: "\<exists>ls' w'. ensure_services (op_ensurer (live_operator None)) live is ls w = ((None, ls'), w')"
  by (induction "is" arbitrary: ls w) (simp_all add: ensureRedisHeadLessSvc_def GetService_def live_operator_sel Let_def)

lemma live_reconcile_ensure: "\<exists>w'. reconcile_ensure (live_operator None) live w = Some (Inr live, w')"
proof -
  let ?op = "live_operator None"
  obtain b w2 where conf: "EnsureRedisConfigMap (op_ensurer ?op) live (getLabels live) w = ((None, b), w2)" using live_config by blast
  obtain created ls w3 where sets: "EnsureRedisStatefulsets (op_ensurer ?op) live (getLabels live) w2 = Some ((created, None), live, ls, w3)"
    unfolding EnsureRedisStatefulsets_def using live_ensure_sets by blast
  obtain ls' w4 where svc: "EnsureClusterShardsHeadLessSvcs (op_ensurer ?op) live ls w3 = ((None, ls'), w4)"
    unfolding EnsureClusterShardsHeadLessSvcs_def using live_ensure_services by blast
  obtain ls'' w5 where svc2: "EnsureClusterHeadLessSvc (op_ensurer ?op) live ls' w4 = ((None, ls''), w5)"
    by (simp add: EnsureClusterHeadLessSvc_def GetService_def live_operator_sel)
  have clone: "EnsureRedisRCloneSecret live = None" by (simp add: EnsureRedisRCloneSecret_def live_fields)
  have "ensureCluster ?op live w = Some ((created, None), live, w5)"
    unfolding ensureCluster_def Let_def live_valid prod.case option.case live_loaded conf sets svc svc2 clone by simp
  moreover obtain w6 where "write_status ?op live (drc_Status live) w5 = (live, w6)" using live_write by blast
  ultimately show ?thesis by (simp add: reconcile_ensure_def ha_creating_status_def live_fields)
qed

lemma live_reconcile_pods: "\<exists>w'. reconcile_pods (live_operator None) live w = Some (Inr (live, [example_pod ''p'' ''1'' None]), w')"
proof -
  let ?op = "live_operator None"
  have check: "\<exists>w'. CheckRedisNodeNum_loop (op_kube ?op) live is w = (None, w')" for "is" w
    by (induction "is" arbitrary: w) (simp_all add: GetStatefulSet_def live_operator_sel checkRedisNodeNum_def live_set_current live_fields Let_def)
  have agg: "r_agg (op_rec ?op) = agg_all" by (simp add: live_operator_def example_reconciler_def)
  have "FixTerminatingPods (op_kube ?op) agg_all now \<lparr>ch_Pods = [example_pod ''p'' ''1'' None], ch_DryRun = False\<rparr> live d w = ((False, None), w)" for now d w
    by (simp add: FixTerminatingPods_def example_pod_def agg_all_def)
  moreover obtain w' where "CheckRedisNodeNum_loop (op_kube ?op) live [0..<nat 3] (call (KListPods (drc_Namespace live) (getLabels live)) w) = (None, w')"
    using check by blast
  moreover have "clusterPods [example_pod ''p'' ''1'' None] = [example_pod ''p'' ''1'' None]" by (simp add: clusterPods_def example_pod_def)
  ultimately show ?thesis
    by (simp add: reconcile_pods_def GetStatefulSetPodsByLabels_def live_operator_sel waitPodReady_def agg CheckRedisNodeNum_def live_fields Let_def)
qed

text \<open>The servers refuse every command: the pass ends when it asks for the state of the cluster.\<close>

lemma live_redis:
  "\<exists>out w'. reconcile_redis (with_client_password (live_operator None) pw) live [example_pod ''p'' ''1'' None] w = Some (out, w') \<and> w_clients (hw_redis w') = []"
proof -
  let ?op = "with_client_password (live_operator None) pw"
  let ?env = "dead_env\<lparr>e_password := pw\<rparr>"
  have op: "op_env ?op = ?env" "op_kube ?op = op_kube (live_operator None)" "op_ord ?op = map_keys" "r_wrapf (op_rec ?op) e m = e" for e m
    by (simp_all add: with_client_password_def live_operator_sel)
  obtain addr where addr: "admin_addrs [example_pod ''p'' ''1'' None] = [addr]" by (simp add: admin_addrs_def)
  define rw where "rw = newRedisAdmin ?env [example_pod ''p'' ''1'' None] (hw_redis w)"
  have rw: "w_clients rw = [addr]"
    by (simp add: rw_def newRedisAdmin_def addr NewAdmin_def NewAdminConnections_def cnx_Add_def Update_def connect_def NewClient_def dead_env_def put_client_def Let_def emit_def)
  have check: "\<exists>w'. CheckPasswordChanged (op_kube ?op) map_keys live (w\<lparr>hw_redis := rw\<rparr>) = ((False, '''', Map.empty, None), w') \<and> hw_redis w' = rw"
    by (simp add: CheckPasswordChanged_def GetConfigMap_def op live_operator_sel live_fields map_keys_def)
  then obtain w1 where w1: "checkandUpdatePassword (op_rec ?op) map_keys live (w\<lparr>hw_redis := rw\<rparr>) = (((None, None), live), w1)" "hw_redis w1 = rw"
    by (auto simp: checkandUpdatePassword_def)
  obtain w2 where w2: "write_status ?op live (drc_Status live) w1 = (live, w2)" using live_write by blast
  have "kube_only w1 w2" by (rule write_status_op [OF w2])
  then have rw2: "hw_redis w2 = rw" using w1(2) by (simp add: kube_only_def only_calls_redis)
  have pass: "reconcile_password ?op live (w\<lparr>hw_redis := rw\<rparr>) = (live, w2)"
    using w1(1) w2 by (simp add: reconcile_password_def op live_fields)
  obtain e infos rw' where infos: "GetClusterInfos ?env rw = Some ((infos, Some e), rw')" "ci_Status infos = ClusterInfosPartial"
    by (simp add: GetClusterInfos_def GetAll_def rw dead_env_def getInfos_def do_cmd_def ValidateResp_def reply_err_def emit_def handleError_def Let_def
        ClusterInfosPartial_def ClusterInfosConsistent_def)
  have "\<exists>out w3. reconcile_join ?op live [example_pod ''p'' ''1'' None] w2 = Some (Inl out, w3)"
    using infos by (simp add: reconcile_join_def op rw2 wrap_def Let_def)
  then show ?thesis
    by (auto simp: reconcile_redis_def op rw_def [symmetric] pass next_stage_def Admin_Close_def Reset_def)
qed

theorem Reconcile_waits_for_pods_witness:
  "\<exists>out w' cs ss. Reconcile (live_operator None) ''n'' ''c'' example_hworld = Some (out, w') \<and> hw_redis w' \<noteq> hw_redis example_hworld \<and>
     k_get_set (op_kube (live_operator None)) cs ''n'' (ClusterStatefulSetName ''c'' 2) = Inr ss \<and> ss_ReadyReplicas ss = 2"
proof -
  let ?op = "live_operator None"
  obtain w1 where w1: "reconcile_ensure ?op live (call (KGetCR ''n'' ''c'') example_hworld) = Some (Inr live, w1)" using live_reconcile_ensure by blast
  obtain w2 where w2: "reconcile_pods ?op live w1 = Some (Inr (live, [example_pod ''p'' ''1'' None]), w2)" using live_reconcile_pods by blast
  obtain pw w3 where w3: "GetRedisClusterAdminPassword (op_kube ?op) live w2 = ((pw, None), w3)"
    by (simp add: GetRedisClusterAdminPassword_def live_fields GetSecret_def live_operator_sel)
  obtain out w' where w': "reconcile_redis (with_client_password ?op pw) live [example_pod ''p'' ''1'' None] w3 = Some (out, w')"
    "w_clients (hw_redis w') = []" using live_redis by blast
  have run: "Reconcile ?op ''n'' ''c'' example_hworld = Some (out, w')"
    by (simp add: Reconcile_def GetDistributedRedisCluster_def live_operator_sel next_stage_def w1 w2 w3 w')
  have "w_clients (hw_redis example_hworld) \<noteq> []" by (simp add: example_hworld_def example_world_def)
  with w'(2) have touched: "hw_redis w' \<noteq> hw_redis example_hworld" by metis
  from Reconcile_waits_for_pods [OF run touched] have "\<forall>i < nat 3. \<exists>cs ss. k_get_set (op_kube ?op) (hw_calls example_hworld @ cs) (drc_Namespace live)
      (ClusterStatefulSetName (drc_Name live) (int i)) = Inr ss \<and> ss_ReadyReplicas ss = expected_replicas live + 1"
    by (auto simp: live_operator_sel live_fields minMasterSize_def)
  from this [rule_format, of 2] run touched show ?thesis by (auto simp: live_def example_drc_def expected_replicas_def IsRestoreFromBackup_def example_spec_def)
qed

end
