(* ===== verification/Backup.thy ===== *)
theory Backup
  imports Controller Backup_Types
begin

text \<open>
  The backup controller (\<^verbatim>\<open>controllers/redisclusterbackup\<close>) and the deployment it keeps for every backup
  (\<^verbatim>\<open>resources/deployments\<close>). A pass reads the backup, makes or updates the deployment of the utilities of its cluster,
  and adds a finalizer; once the backup is marked as deleted a pass deletes the deployment and removes the finalizer.
  \<open>None\<close> is a panic. Most of \<^verbatim>\<open>sync_handler.go\<close> (the jobs) is commented out there.
\<close>

section \<open>Parameters\<close>

text \<open>
  \<open>bo_cmp\<close> compares quantities, \<open>bo_now\<close> is the clock; the finalizer functions are those of the library
  \<^verbatim>\<open>controllerutil\<close>, and \<open>documented_finalizers\<close> says what they promise.
\<close>

record backup_operator =
  bo_kube :: kube
  bo_cmp :: "string option \<Rightarrow> string option \<Rightarrow> int"
  bo_now :: "hworld \<Rightarrow> int"
  bo_ContainsFinalizer :: "RedisClusterBackup \<Rightarrow> string \<Rightarrow> bool"
  bo_AddFinalizer :: "RedisClusterBackup \<Rightarrow> string \<Rightarrow> RedisClusterBackup"
  bo_RemoveFinalizer :: "RedisClusterBackup \<Rightarrow> string \<Rightarrow> RedisClusterBackup"

definition documented_finalizers :: "backup_operator \<Rightarrow> bool" where
  "documented_finalizers op \<longleftrightarrow>
     (\<forall>b f. bo_ContainsFinalizer op b f = (f \<in> set (rb_Finalizers b)) \<and>
            bo_AddFinalizer op b f = (if f \<in> set (rb_Finalizers b) then b else b\<lparr>rb_Finalizers := rb_Finalizers b @ [f]\<rparr>) \<and>
            bo_RemoveFinalizer op b f = b\<lparr>rb_Finalizers := filter (\<lambda>g. g \<noteq> f) (rb_Finalizers b)\<rparr>)"

definition backupFinalizer :: string where "backupFinalizer = ''finalizer.backup.redis.kun''"

section \<open>The deployment of the utilities\<close>

definition configMapMountPath :: string where "configMapMountPath = ''/config''"
definition utilContainerName :: string where "utilContainerName = ''rediscluster-util-container''"

definition util_labels :: "RedisClusterBackup \<Rightarrow> (string \<rightharpoonup> string)" where
  "util_labels b = [''app'' \<mapsto> bk_RedisClusterName (rb_Spec b), ''container'' \<mapsto> utilContainerName]"

text \<open>\<open>0755\<close> in octal is 493.\<close>

definition utilGenerateConfigmapVolumeSpec :: "DistributedRedisCluster \<Rightarrow> (string \<times> volume_source) list" where
  "utilGenerateConfigmapVolumeSpec cluster =
     (let executeMode = 493 in
      [(''configmap-volume'', ConfigMapVolume (spec_UtilConfig (drc_Spec cluster)) executeMode), (''redis-data'', EmptyDir)])"

definition plain_env :: "string \<Rightarrow> string \<Rightarrow> EnvVar" where
  "plain_env name value = \<lparr>env_Name = name, env_Value = value, env_ValueFrom = None\<rparr>"

definition secret_env :: "string \<Rightarrow> string \<Rightarrow> string \<Rightarrow> EnvVar" where
  "secret_env name secretName key = \<lparr>env_Name = name, env_Value = '''', env_ValueFrom = Some (SecretKeyRef secretName key)\<rparr>"

definition util_env :: "RedisClusterBackup \<Rightarrow> UtilSpec \<Rightarrow> DistributedRedisCluster \<Rightarrow> string \<Rightarrow> EnvVar list" where
  "util_env b u cluster secretName =
     [secret_env ''REDIS_USER'' secretName ''username'',
      secret_env ''REDIS_PASSWORD'' secretName ''password'',
      plain_env ''REDIS_PORT'' ''6379'',
      plain_env ''MASTER_SIZE'' (Itoa (spec_MasterSize (drc_Spec cluster))),
      plain_env ''CLUSTER_REPLICAS'' (Itoa (spec_ClusterReplicas (drc_Spec cluster))),
      plain_env ''CLUSTER_NAME'' (bk_RedisClusterName (rb_Spec b)),
      plain_env ''S3_BUCKET'' (us_S3Bucket u),
      plain_env ''CLUSTER_NAMESPACE'' (rb_Namespace b)]"

text \<open>\<open>None\<close> is the use of a nil pointer: no utilities, no grace period or no resources.\<close>

definition utilGeneratePodTemplate :: "RedisClusterBackup \<Rightarrow> DistributedRedisCluster \<Rightarrow> string \<Rightarrow> PodTemplate option" where
  "utilGeneratePodTemplate b cluster secretName =
     do {
       u \<leftarrow> bk_UtilSpec (rb_Spec b);
       grace \<leftarrow> us_TerminationGracePeriod u;
       resources \<leftarrow> us_Resources u;
       let imagePullPolicy = (if us_ImagePullPolicy u = '''' then ''Always'' else us_ImagePullPolicy u);
       let terminationGracePeriodSeconds = (if grace = 0 then 30 else grace);
       Some \<lparr>pt_Labels = util_labels b,
             pt_Annotations = [''0.prometheus.io/path'' \<mapsto> ''/metrics'', ''0.prometheus.io/port'' \<mapsto> ''9999'', ''0.prometheus.io/scrape'' \<mapsto> ''true''],
             pt_ImagePullSecrets = [], pt_Affinity = None, pt_Tolerations = [],
             pt_SecurityContext = bk_SecurityContext (rb_Spec b), pt_NodeSelector = Map.empty, pt_TopologySpreadConstraints = [],
             pt_Containers =
               [\<lparr>ct_Name = utilContainerName, ct_Image = us_Image u, ct_ImagePullPolicy = imagePullPolicy,
                 ct_SecurityContext = us_ContainerSecurityContext u, ct_Ports = [(''metrics-0'', 9999, '''')],
                 ct_VolumeMounts = [(''configmap-volume'', configMapMountPath), (''redis-data'', ''/data'')],
                 ct_Command = [us_StartUpCommand u], ct_Args = None, ct_LivenessProbe = None, ct_ReadinessProbe = None,
                 ct_StartupProbe = None, ct_Env = util_env b u cluster secretName, ct_Resources = resources,
                 ct_PostStart = [], ct_PreStop = []\<rparr>],
             pt_InitContainers = [],
             pt_Volumes = utilGenerateConfigmapVolumeSpec cluster,
             pt_TerminationGracePeriodSeconds = Some terminationGracePeriodSeconds\<rparr>
     }"

definition utilGenerateDeploymentSpec :: "RedisClusterBackup \<Rightarrow> DistributedRedisCluster \<Rightarrow> string \<Rightarrow> string \<Rightarrow> Deployment option" where
  "utilGenerateDeploymentSpec b cluster dpName secretName =
     do {
       u \<leftarrow> bk_UtilSpec (rb_Spec b);
       template \<leftarrow> utilGeneratePodTemplate b cluster secretName;
       Some \<lparr>dp_Name = dpName, dp_Namespace = rb_Namespace b, dp_Labels = util_labels b, dp_Replicas = us_Replicas u,
             dp_Template = template, dp_Selector = util_labels b\<rparr>
     }"

definition UtilNewDeploymentForCR :: "RedisClusterBackup \<Rightarrow> DistributedRedisCluster \<Rightarrow> string \<Rightarrow> string \<Rightarrow> Deployment option" where
  "UtilNewDeploymentForCR b cluster dpName secretName = utilGenerateDeploymentSpec b cluster dpName secretName"

section \<open>Helpers\<close>

definition markAsFailedBackup :: "backup_operator \<Rightarrow> RedisClusterBackup \<Rightarrow> string \<Rightarrow> hworld \<Rightarrow> (err option \<times> RedisClusterBackup) \<times> hworld" where
  "markAsFailedBackup op b reason w =
     (let b = b\<lparr>rb_Status := (rb_Status b)\<lparr>bs_CompletionTime := Some (bo_now op w), bs_Phase := BackupPhaseFailed, bs_Reason := reason\<rparr>\<rparr>
      in case UpdateBackupStatus (bo_kube op) b w of (err, w) \<Rightarrow> ((err, b), w))"

definition markAsIgnoredBackup :: "backup_operator \<Rightarrow> RedisClusterBackup \<Rightarrow> string \<Rightarrow> hworld \<Rightarrow> (err option \<times> RedisClusterBackup) \<times> hworld" where
  "markAsIgnoredBackup op b reason w =
     (let b = b\<lparr>rb_Status := (rb_Status b)\<lparr>bs_CompletionTime := Some (bo_now op w), bs_Phase := BackupPhaseIgnored, bs_Reason := reason\<rparr>\<rparr>
      in case UpdateBackupStatus (bo_kube op) b w of (err, w) \<Rightarrow> ((err, b), w))"

definition isBackupRunning :: "backup_operator \<Rightarrow> RedisClusterBackup \<Rightarrow> hworld \<Rightarrow> (bool \<times> err option) \<times> hworld" where
  "isBackupRunning op b w =
     (let k = bo_kube op; ns = rb_Namespace b;
          labMap = [LabelBackupStatus \<mapsto> BackupPhaseRunning, LabelClusterName \<mapsto> bk_RedisClusterName (rb_Spec b)]
      in case (k_list_backups k (hw_calls w) ns labMap, call (KList KBackup ns labMap) w) of
        (Inl err, w) \<Rightarrow> ((False, Some err), w)
      | (Inr backupList, w) \<Rightarrow>
          let jobLabMap = [LabelClusterName \<mapsto> bk_RedisClusterName (rb_Spec b), AnnotationJobType \<mapsto> JobTypeBackup] in
          (case ListJobByLabels k ns jobLabMap w of
             (Inl err, w) \<Rightarrow> ((False, Some err), w)
           | (Inr backupJobList, w) \<Rightarrow>
               if length backupList > 0 \<and> length backupJobList > 0 then ((True, None), w) else ((False, None), w)))"

fun upsert :: "EnvVar list \<Rightarrow> EnvVar \<Rightarrow> EnvVar list" where
  "upsert [] env = [env]"
| "upsert (v # vars) env = (if env_Name v = env_Name env then env # vars else v # upsert vars env)"

definition upsertEnvVars :: "EnvVar list \<Rightarrow> EnvVar list \<Rightarrow> EnvVar list" where
  "upsertEnvVars vars nv = foldl upsert vars nv"

text \<open>\<open>None\<close> is the use of a nil secret.\<close>

definition backup_redisPassword :: "DistributedRedisCluster \<Rightarrow> EnvVar option" where
  "backup_redisPassword cluster =
     map_option (\<lambda>secretName. secret_env ''REDIS_PASSWORD'' secretName ''password'') (spec_AdminSecret (drc_Spec cluster))"

fun conditions_finished :: "(string \<times> string) list \<Rightarrow> bool" where
  "conditions_finished [] = False"
| "conditions_finished ((t, s) # cs) = (if (t = ''Complete'' \<or> t = ''Failed'') \<and> s = ''True'' then True else conditions_finished cs)"

definition isJobFinished :: "Job \<Rightarrow> bool" where
  "isJobFinished j = conditions_finished (job_Conditions j)"

section \<open>Events\<close>

definition backup_UpdateFunc :: "scope \<Rightarrow> RedisClusterBackup \<Rightarrow> RedisClusterBackup \<Rightarrow> bool" where
  "backup_UpdateFunc sc objectOld objectNew =
     (if \<not> ShoudManage sc (rb_Namespace objectNew) (rb_Annotations objectNew) then False
      else if rb_Generation objectOld \<noteq> rb_Generation objectNew then True else False)"

definition backup_DeleteFunc :: "scope \<Rightarrow> RedisClusterBackup \<Rightarrow> bool \<Rightarrow> bool" where
  "backup_DeleteFunc sc object deleteStateUnknown =
     (if \<not> ShoudManage sc (rb_Namespace object) (rb_Annotations object) then False else \<not> deleteStateUnknown)"

definition backup_CreateFunc :: "scope \<Rightarrow> RedisClusterBackup \<Rightarrow> bool" where
  "backup_CreateFunc sc object = (if \<not> ShoudManage sc (rb_Namespace object) (rb_Annotations object) then False else True)"

section \<open>One pass\<close>

fun validate_sets :: "kube \<Rightarrow> DistributedRedisCluster \<Rightarrow> nat list \<Rightarrow> hworld \<Rightarrow> err option \<times> hworld" where
  "validate_sets k cluster [] w = (None, w)"
| "validate_sets k cluster (i # is) w =
     (case GetStatefulSet k (drc_Namespace cluster) (ClusterStatefulSetName (drc_Name cluster) (int i)) w of
        (Inl serr, w) \<Rightarrow> (Some serr, w)
      | (Inr ss, w) \<Rightarrow>
          if ss_ReadyReplicas ss \<noteq> spec_ClusterReplicas (drc_Spec cluster) + 1
          then (Some (Errorf ''cluster STS not yet ready'' []), w)
          else validate_sets k cluster is w)"

definition ValidateBackup :: "kube \<Rightarrow> RedisClusterBackup \<Rightarrow> hworld \<Rightarrow> err option \<times> hworld" where
  "ValidateBackup k b w =
     (case RedisClusterBackup_Validate b of
        Some err \<Rightarrow> (Some err, w)
      | None \<Rightarrow>
          (case GetDistributedRedisCluster k (rb_Namespace b) (bk_RedisClusterName (rb_Spec b)) w of
             (Inl err, w) \<Rightarrow> (Some err, w)
           | (Inr cluster, w) \<Rightarrow> validate_sets k cluster [0..<nat (spec_MasterSize (drc_Spec cluster))] w))"

text \<open>The loop over the containers ends at the first one that differs; the environment is that of the last one of that name it saw.\<close>

fun scan_containers :: "(string option \<Rightarrow> string option \<Rightarrow> int) \<Rightarrow> UtilSpec \<Rightarrow> Container list \<Rightarrow> EnvVar list \<Rightarrow> (EnvVar list \<times> bool) option" where
  "scan_containers q u [] envs = Some (envs, False)"
| "scan_containers q u (c # cs) envs =
     (if ct_Name c = ''rediscluster-util-container'' then
        if us_Image u \<noteq> ct_Image c then Some (ct_Env c, True)
        else case us_Resources u of
          None \<Rightarrow> None
        | Some expectedResources \<Rightarrow>
            if resources_differ q expectedResources (ct_Resources c) then Some (ct_Env c, True)
            else scan_containers q u cs (ct_Env c)
      else scan_containers q u cs envs)"

definition env_differs :: "DistributedRedisCluster \<Rightarrow> EnvVar \<Rightarrow> bool" where
  "env_differs cluster env \<longleftrightarrow>
     (env_Name env = ''MASTER_SIZE'' \<and> env_Value env \<noteq> Itoa (spec_MasterSize (drc_Spec cluster))) \<or>
     (env_Name env = ''CLUSTER_REPLICAS'' \<and> env_Value env \<noteq> Itoa (spec_ClusterReplicas (drc_Spec cluster)))"

definition validateUtilCRandDeploymentSpec ::
    "(string option \<Rightarrow> string option \<Rightarrow> int) \<Rightarrow> RedisClusterBackup \<Rightarrow> Deployment \<Rightarrow> DistributedRedisCluster \<Rightarrow> bool option" where
  "validateUtilCRandDeploymentSpec q b deployment cluster =
     do {
       u \<leftarrow> bk_UtilSpec (rb_Spec b);
       (envs, deploymentUpdate) \<leftarrow> scan_containers q u (pt_Containers (dp_Template deployment)) [];
       Some (deploymentUpdate \<or> list_ex (env_differs cluster) envs)
     }"

definition reconcileUtilDeployment ::
    "backup_operator \<Rightarrow> RedisClusterBackup \<Rightarrow> DistributedRedisCluster \<Rightarrow> hworld \<Rightarrow> (err option \<times> hworld) option" where
  "reconcileUtilDeployment op b cluster w =
     (let k = bo_kube op; ns = rb_Namespace b; deplName = bk_RedisClusterName (rb_Spec b) in
      case spec_AdminSecret (drc_Spec cluster) of
        None \<Rightarrow> Some (None, w)
      | Some secretName \<Rightarrow>
          (case GetSecret k ns secretName w of
             (Inl _, w) \<Rightarrow> Some (None, w)
           | (Inr _, w) \<Rightarrow>
               (case ValidateBackup k b w of
                  (Some _, w) \<Rightarrow> Some (None, w)
                | (None, w) \<Rightarrow>
                    (case GetDeployment k ns deplName w of
                       (Inl err, w) \<Rightarrow>
                         if k_IsNotFound k err then
                           do { d \<leftarrow> UtilNewDeploymentForCR b cluster deplName secretName; Some (CreateDeployment k d w) }
                         else Some (Some err, w)
                     | (Inr dp, w) \<Rightarrow>
                         do {
                           changed \<leftarrow> validateUtilCRandDeploymentSpec (bo_cmp op) b dp cluster;
                           if changed then
                             do { d \<leftarrow> UtilNewDeploymentForCR b cluster deplName secretName; Some (UpdateDeployment k d w) }
                           else Some (None, w)
                         }))))"

definition finalizeBackup :: "backup_operator \<Rightarrow> string \<Rightarrow> RedisClusterBackup \<Rightarrow> hworld \<Rightarrow> err option \<times> hworld" where
  "finalizeBackup op ns b w =
     (case GetDeployment (bo_kube op) ns (bk_RedisClusterName (rb_Spec b)) w of
        (Inl err, w) \<Rightarrow> (Some err, w)
      | (Inr dp, w) \<Rightarrow> DeleteDeployment (bo_kube op) dp w)"

text \<open>The result of a pass: the time after which it is repeated, and the error that has it repeated with backoff.\<close>

definition Backup_Reconcile :: "backup_operator \<Rightarrow> string \<Rightarrow> string \<Rightarrow> hworld \<Rightarrow> ((reconcile_result \<times> err option) \<times> hworld) option" where
  "Backup_Reconcile op ns name w =
     (let k = bo_kube op in
      case GetRedisClusterBackup k ns name w of
        (Inl err, w) \<Rightarrow> Some ((no_requeue, if k_IsNotFound k err then None else Some err), w)
      | (Inr b, w) \<Rightarrow>
          if rb_DeletionTimestamp b \<noteq> None then
            if bo_ContainsFinalizer op b backupFinalizer then
              (case finalizeBackup op ns b w of
                 (Some err, w) \<Rightarrow> Some ((no_requeue, Some err), w)
               | (None, w) \<Rightarrow>
                   (case UpdateBackup k (bo_RemoveFinalizer op b backupFinalizer) w of (err, w) \<Rightarrow> Some ((no_requeue, err), w)))
            else Some ((no_requeue, None), w)
          else
            (case GetDistributedRedisCluster k (rb_Namespace b) (bk_RedisClusterName (rb_Spec b)) w of
               (Inl err, w) \<Rightarrow> Some ((after 60, None), w)
             | (Inr cluster, w) \<Rightarrow>
                 do {
                   (_, w) \<leftarrow> reconcileUtilDeployment op b cluster w;
                   if \<not> bo_ContainsFinalizer op b backupFinalizer then
                     (case UpdateBackup k (bo_AddFinalizer op b backupFinalizer) w of
                        (Some err, w) \<Rightarrow> Some ((no_requeue, Some err), w)
                      | (None, w) \<Rightarrow> Some ((after 60, None), w))
                   else Some ((after 60, None), w)
                 }))"

section \<open>When the deployment is updated\<close>

lemma Itoa_int_inj: "Itoa i = Itoa j \<longleftrightarrow> i = j"
proof
  assume eq: "Itoa i = Itoa j"
  have sign: "CHR ''-'' # xs = format_nat n \<Longrightarrow> P" for xs n P
    using hd_format_nat_sign(1) [of n] by (metis list.sel(1))
  consider "i < 0" "j < 0" | "\<not> i < 0" "\<not> j < 0" | "i < 0" "\<not> j < 0" | "\<not> i < 0" "j < 0" by blast
  then show "i = j"
  proof cases
    case 1
    with eq have "format_nat (nat (- i)) = format_nat (nat (- j))" by (simp add: Itoa_def)
    from format_nat_inj [OF this] 1 show ?thesis by simp
  next
    case 2
    with eq have "format_nat (nat i) = format_nat (nat j)" by (simp add: Itoa_def)
    from format_nat_inj [OF this] 2 show ?thesis by simp
  next
    case 3
    with eq have "CHR ''-'' # format_nat (nat (- i)) = format_nat (nat j)" by (simp add: Itoa_def)
    then show ?thesis by (rule sign)
  next
    case 4
    with eq have "CHR ''-'' # format_nat (nat (- j)) = format_nat (nat i)" by (simp add: Itoa_def)
    then show ?thesis by (rule sign)
  qed
qed simp

lemma env_differs_util_env:
  "list_ex (env_differs c') (util_env b u c sn) \<longleftrightarrow>
     spec_MasterSize (drc_Spec c') \<noteq> spec_MasterSize (drc_Spec c) \<or> spec_ClusterReplicas (drc_Spec c') \<noteq> spec_ClusterReplicas (drc_Spec c)"
  by (auto simp: util_env_def env_differs_def plain_env_def secret_env_def Itoa_int_inj)

lemma UtilNewDeploymentForCR_containers:
  assumes "UtilNewDeploymentForCR b c n sn = Some d"
  obtains u r ct where "bk_UtilSpec (rb_Spec b) = Some u" "us_Resources u = Some r" "pt_Containers (dp_Template d) = [ct]"
    "ct_Name ct = utilContainerName" "ct_Image ct = us_Image u" "ct_Resources ct = r" "ct_Env ct = util_env b u c sn"
proof -
  from assms obtain u g r where u: "bk_UtilSpec (rb_Spec b) = Some u" "us_TerminationGracePeriod u = Some g" "us_Resources u = Some r"
    by (auto simp: UtilNewDeploymentForCR_def utilGenerateDeploymentSpec_def utilGeneratePodTemplate_def Option.bind_eq_Some_conv)
  note d = assms [unfolded UtilNewDeploymentForCR_def utilGenerateDeploymentSpec_def utilGeneratePodTemplate_def Let_def u Option.bind.bind_lunit option.inject]
  show thesis
    by (rule that [OF u(1,3)], unfold d [symmetric], simp) simp_all
qed

lemma validate_made:
  assumes "UtilNewDeploymentForCR b c n sn = Some d"
    and "bk_UtilSpec (rb_Spec b) = Some u" and "us_Resources u = Some r"
    and "bk_UtilSpec (rb_Spec b') = Some u'" and "us_Resources u' = Some r'"
  shows "validateUtilCRandDeploymentSpec q b' d c' =
    Some (us_Image u' \<noteq> us_Image u \<or> resources_differ q r' r \<or>
          spec_MasterSize (drc_Spec c') \<noteq> spec_MasterSize (drc_Spec c) \<or> spec_ClusterReplicas (drc_Spec c') \<noteq> spec_ClusterReplicas (drc_Spec c))"
proof -
  obtain u0 r0 ct where made: "bk_UtilSpec (rb_Spec b) = Some u0" "us_Resources u0 = Some r0" "pt_Containers (dp_Template d) = [ct]"
      "ct_Name ct = utilContainerName" "ct_Image ct = us_Image u0" "ct_Resources ct = r0" "ct_Env ct = util_env b u0 c sn"
    by (rule UtilNewDeploymentForCR_containers [OF assms(1)])
  with assms(2,3) have ct: "pt_Containers (dp_Template d) = [ct]" "ct_Name ct = utilContainerName" "ct_Image ct = us_Image u"
      "ct_Resources ct = r" "ct_Env ct = util_env b u c sn"
    by simp_all
  have "scan_containers q u' (pt_Containers (dp_Template d)) [] = Some (util_env b u c sn, us_Image u' \<noteq> us_Image u \<or> resources_differ q r' r)"
    unfolding ct scan_containers.simps utilContainerName_def assms(5) option.case by simp
  then show ?thesis
    using assms(4) by (simp add: validateUtilCRandDeploymentSpec_def env_differs_util_env disj_assoc)
qed

text \<open>
  C27: what makes a pass update the deployment of an earlier pass is a new image, other resources, or another number of masters or
  of replicas in the cluster, and nothing else: an edit of the number of replicas of the deployment, the bucket, the command, the pull
  policy, the grace period or a security context of the backup, or of the secret of the cluster, is never rolled out.
\<close>

theorem util_update_condition:
  assumes "UtilNewDeploymentForCR b c n sn = Some d" and "\<And>x. q x x = 0"
    and "bk_UtilSpec (rb_Spec b) = Some u" and "bk_UtilSpec (rb_Spec b') = Some u'" and "us_Resources u' = Some r'"
  shows "(validateUtilCRandDeploymentSpec q b' d c' = Some True \<longleftrightarrow>
          us_Image u' \<noteq> us_Image u \<or> (\<exists>r. us_Resources u = Some r \<and> resources_differ q r' r) \<or>
          spec_MasterSize (drc_Spec c') \<noteq> spec_MasterSize (drc_Spec c) \<or> spec_ClusterReplicas (drc_Spec c') \<noteq> spec_ClusterReplicas (drc_Spec c)) \<and>
    validateUtilCRandDeploymentSpec q (b\<lparr>rb_Spec := (rb_Spec b)\<lparr>bk_SecurityContext := sec, bk_UtilSpec := Some (u\<lparr>us_Replicas := replicas,
      us_S3Bucket := bucket, us_StartUpCommand := command, us_ImagePullPolicy := policy, us_TerminationGracePeriod := grace, us_ContainerSecurityContext := sec'\<rparr>)\<rparr>\<rparr>)
      d (c\<lparr>drc_Spec := (drc_Spec c)\<lparr>spec_AdminSecret := sn'\<rparr>\<rparr>) = Some False"
proof -
  obtain r where r: "us_Resources u = Some r"
    using assms(3) by (rule_tac UtilNewDeploymentForCR_containers [OF assms(1)]) simp
  let ?u = "u\<lparr>us_Replicas := replicas, us_S3Bucket := bucket, us_StartUpCommand := command, us_ImagePullPolicy := policy,
      us_TerminationGracePeriod := grace, us_ContainerSecurityContext := sec'\<rparr>"
  note made = validate_made [OF assms(1,3) r]
  have "\<not> resources_differ q r r" by (rule resources_same) (rule assms(2))
  then have "validateUtilCRandDeploymentSpec q (b\<lparr>rb_Spec := (rb_Spec b)\<lparr>bk_SecurityContext := sec, bk_UtilSpec := Some ?u\<rparr>\<rparr>)
      d (c\<lparr>drc_Spec := (drc_Spec c)\<lparr>spec_AdminSecret := sn'\<rparr>\<rparr>) = Some False"
    by (subst made [where u' = ?u and r' = r]) (simp_all add: r)
  with made [OF assms(4,5), of q c'] r show ?thesis by simp
qed

section \<open>An example\<close>

definition example_util :: UtilSpec where
  "example_util = \<lparr>us_Image = ''u'', us_StartUpCommand = ''run'', us_S3Bucket = ''s3'', us_ImagePullPolicy = '''', us_Replicas = 1,
     us_TerminationGracePeriod = Some 0, us_Resources = Some defaultResource, us_ContainerSecurityContext = None\<rparr>"

definition example_backup :: RedisClusterBackup where
  "example_backup = \<lparr>rb_Name = ''b'', rb_Namespace = ''n'', rb_Annotations = Map.empty, rb_Generation = 1, rb_Finalizers = [],
     rb_DeletionTimestamp = None, rb_Spec = \<lparr>bk_RedisClusterName = ''c'', bk_UtilSpec = Some example_util, bk_SecurityContext = None\<rparr>,
     rb_Status = \<lparr>bs_StartTime = None, bs_CompletionTime = None, bs_Phase = '''', bs_Reason = '''', bs_MasterSize = 0,
       bs_ClusterReplicas = 0, bs_ClusterImage = ''''\<rparr>\<rparr>"

lemma example_made: "\<exists>d. UtilNewDeploymentForCR example_backup c n sn = Some d"
  by (simp add: UtilNewDeploymentForCR_def utilGenerateDeploymentSpec_def utilGeneratePodTemplate_def example_backup_def example_util_def)

theorem util_update_condition_witness:
  "\<exists>d. UtilNewDeploymentForCR example_backup example_drc ''c'' ''s'' = Some d \<and>
     validateUtilCRandDeploymentSpec (\<lambda>x y. if x = y then 0 else 1)
       (example_backup\<lparr>rb_Spec := (rb_Spec example_backup)\<lparr>bk_UtilSpec := Some (example_util\<lparr>us_Image := ''v''\<rparr>)\<rparr>\<rparr>) d example_drc = Some True \<and>
     validateUtilCRandDeploymentSpec (\<lambda>x y. if x = y then 0 else 1)
       (example_backup\<lparr>rb_Spec := (rb_Spec example_backup)\<lparr>bk_SecurityContext := Some ''root'', bk_UtilSpec := Some (example_util\<lparr>us_Replicas := 3,
          us_S3Bucket := ''other'', us_StartUpCommand := ''new'', us_ImagePullPolicy := ''Never'', us_TerminationGracePeriod := None,
          us_ContainerSecurityContext := None\<rparr>)\<rparr>\<rparr>)
       d (example_drc\<lparr>drc_Spec := (drc_Spec example_drc)\<lparr>spec_AdminSecret := None\<rparr>\<rparr>) = Some False"
proof -
  obtain d where d: "UtilNewDeploymentForCR example_backup example_drc ''c'' ''s'' = Some d"
    using example_made by blast
  let ?q = "\<lambda>x y :: string option. if x = y then 0 else 1 :: int"
  have "bk_UtilSpec (rb_Spec example_backup) = Some example_util" by (simp add: example_backup_def)
  note cond = util_update_condition [OF d _ this, where q = ?q and u' = "example_util\<lparr>us_Image := ''v''\<rparr>"
      and b' = "example_backup\<lparr>rb_Spec := (rb_Spec example_backup)\<lparr>bk_UtilSpec := Some (example_util\<lparr>us_Image := ''v''\<rparr>)\<rparr>\<rparr>"
      and r' = defaultResource and c' = example_drc and sec = "Some ''root''" and replicas = 3 and bucket = "''other''" and command = "''new''"
      and policy = "''Never''" and grace = None and sec' = None and sn' = None]
  have "us_Image (example_util\<lparr>us_Image := ''v''\<rparr>) \<noteq> us_Image example_util" by (simp add: example_util_def)
  with cond have "validateUtilCRandDeploymentSpec ?q (example_backup\<lparr>rb_Spec := (rb_Spec example_backup)\<lparr>bk_UtilSpec := Some (example_util\<lparr>us_Image := ''v''\<rparr>)\<rparr>\<rparr>) d example_drc = Some True"
    by (simp add: example_util_def)
  moreover note cond
  ultimately show ?thesis using d by (intro exI [of _ d]) (simp add: example_util_def)
qed

end
