(* ===== verification/Backup_Store.thy ===== *)
theory Backup_Store
  imports Backup
begin

text \<open>
  The backup controller together with an API server: a store of objects, the answers and effects of the calls the
  controller makes on it, and a step relation for the passes of the controller, the users and the rest of the cluster.
  Any call of a pass may fail; a write that meets a newer version of its object is such a failure, so that a pass is one step.
\<close>

section \<open>The store\<close>

type_synonym key = "string \<times> string"

record store =
  s_backups :: "key \<rightharpoonup> RedisClusterBackup"
  s_deployments :: "key \<rightharpoonup> Deployment"
  s_clusters :: "key \<rightharpoonup> DistributedRedisCluster"
  s_sets :: "key \<rightharpoonup> StatefulSet"
  s_secrets :: "key \<rightharpoonup> Secret"

type_synonym faults = "kcall \<Rightarrow> err option"

definition not_found :: err where "not_found = Errorf ''not found'' []"
definition already_exists :: err where "already_exists = Errorf ''already exists'' []"

definition backup_key :: "RedisClusterBackup \<Rightarrow> key" where "backup_key b = (rb_Namespace b, rb_Name b)"
definition deployment_key :: "Deployment \<Rightarrow> key" where "deployment_key d = (dp_Namespace d, dp_Name d)"

text \<open>The answer to a write in a state of the store, and its effect. An object marked as deleted goes with its last finalizer.\<close>

definition refused :: "kcall \<Rightarrow> store \<Rightarrow> err option" where
  "refused c s =
     (case c of
        KCreate (ODeployment d) \<Rightarrow> (case s_deployments s (deployment_key d) of None \<Rightarrow> None | Some _ \<Rightarrow> Some already_exists)
      | KUpdate (ODeployment d) \<Rightarrow> (case s_deployments s (deployment_key d) of None \<Rightarrow> Some not_found | Some _ \<Rightarrow> None)
      | KDelete KDeployment ns n \<Rightarrow> (case s_deployments s (ns, n) of None \<Rightarrow> Some not_found | Some _ \<Rightarrow> None)
      | KUpdate (OBackup b) \<Rightarrow> (case s_backups s (backup_key b) of None \<Rightarrow> Some not_found | Some _ \<Rightarrow> None)
      | _ \<Rightarrow> None)"

definition answer :: "faults \<Rightarrow> kcall \<Rightarrow> store \<Rightarrow> err option" where
  "answer f c s = (case f c of Some e \<Rightarrow> Some e | None \<Rightarrow> refused c s)"

definition effect :: "kcall \<Rightarrow> store \<Rightarrow> store" where
  "effect c s =
     (case c of
        KCreate (ODeployment d) \<Rightarrow> s\<lparr>s_deployments := (s_deployments s)(deployment_key d \<mapsto> d)\<rparr>
      | KUpdate (ODeployment d) \<Rightarrow> s\<lparr>s_deployments := (s_deployments s)(deployment_key d \<mapsto> d)\<rparr>
      | KDelete KDeployment ns n \<Rightarrow> s\<lparr>s_deployments := (s_deployments s)((ns, n) := None)\<rparr>
      | KUpdate (OBackup b) \<Rightarrow>
          s\<lparr>s_backups := (s_backups s)(backup_key b := (if rb_DeletionTimestamp b \<noteq> None \<and> rb_Finalizers b = [] then None else Some b))\<rparr>
      | _ \<Rightarrow> s)"

definition attempt :: "faults \<Rightarrow> kcall \<Rightarrow> store \<Rightarrow> store" where
  "attempt f c s = (if answer f c s = None then effect c s else s)"

definition replay :: "faults \<Rightarrow> store \<Rightarrow> kcall list \<Rightarrow> store" where
  "replay f s cs = foldl (\<lambda>s c. attempt f c s) s cs"

text \<open>The API server as the parameter of the controller; \<open>k\<close> answers the calls the controller does not make.\<close>

definition found :: "faults \<Rightarrow> kcall \<Rightarrow> 'a option \<Rightarrow> err + 'a" where
  "found f c x = (case f c of Some e \<Rightarrow> Inl e | None \<Rightarrow> (case x of None \<Rightarrow> Inl not_found | Some y \<Rightarrow> Inr y))"

definition serve :: "faults \<Rightarrow> store \<Rightarrow> kube \<Rightarrow> kube" where
  "serve f s k =
     k\<lparr>k_get_backup := (\<lambda>h ns n. found f (KGet KBackup ns n) (s_backups (replay f s h) (ns, n))),
       k_get_deployment := (\<lambda>h ns n. found f (KGet KDeployment ns n) (s_deployments (replay f s h) (ns, n))),
       k_get_cr := (\<lambda>h ns n. found f (KGetCR ns n) (s_clusters s (ns, n))),
       k_get_set := (\<lambda>h ns n. found f (KGet KStatefulSet ns n) (s_sets s (ns, n))),
       k_get_secret := (\<lambda>h ns n. found f (KGetSecret ns n) (s_secrets s (ns, n))),
       k_create := (\<lambda>h ob. answer f (KCreate ob) (replay f s h)),
       k_update := (\<lambda>h ob. answer f (KUpdate ob) (replay f s h)),
       k_delete := (\<lambda>h kd ns n. answer f (KDelete kd ns n) (replay f s h)),
       k_IsNotFound := (\<lambda>e. e = not_found)\<rparr>"

definition pass :: "backup_operator \<Rightarrow> world \<Rightarrow> faults \<Rightarrow> key \<Rightarrow> store \<Rightarrow> ((reconcile_result \<times> err option) \<times> store) option" where
  "pass op rw f k s =
     map_option (\<lambda>(res, w). (res, replay f s (hw_calls w)))
       (Backup_Reconcile (op\<lparr>bo_kube := serve f s (bo_kube op)\<rparr>) (fst k) (snd k) \<lparr>hw_redis = rw, hw_calls = []\<rparr>)"

section \<open>Steps\<close>

text \<open>
  A user submits a backup without finalizers, edits its specification, or deletes it, which only marks it if it has a
  finalizer. The clusters, their sets and the secrets change freely.
\<close>

inductive step :: "backup_operator \<Rightarrow> store \<Rightarrow> store \<Rightarrow> bool" for op where
  pass: "pass op rw f k s = Some (res, t) \<Longrightarrow> step op s t"
| submit: "s_backups s (backup_key b) = None \<Longrightarrow> rb_Finalizers b = [] \<Longrightarrow> rb_DeletionTimestamp b = None \<Longrightarrow>
     step op s (s\<lparr>s_backups := (s_backups s)(backup_key b \<mapsto> b)\<rparr>)"
| edit: "s_backups s k = Some b \<Longrightarrow> step op s (s\<lparr>s_backups := (s_backups s)(k \<mapsto> b\<lparr>rb_Spec := spec\<rparr>)\<rparr>)"
| remove: "s_backups s k = Some b \<Longrightarrow>
     step op s (s\<lparr>s_backups := (s_backups s)(k := (if rb_Finalizers b = [] then None else Some (b\<lparr>rb_DeletionTimestamp := Some t\<rparr>)))\<rparr>)"
| environment: "step op s (s\<lparr>s_clusters := clusters, s_sets := sets, s_secrets := secrets\<rparr>)"

definition empty_store :: store where
  "empty_store = \<lparr>s_backups = Map.empty, s_deployments = Map.empty, s_clusters = Map.empty, s_sets = Map.empty, s_secrets = Map.empty\<rparr>"

inductive reachable :: "backup_operator \<Rightarrow> store \<Rightarrow> bool" for op where
  start: "reachable op empty_store"
| steps: "reachable op s \<Longrightarrow> step op s t \<Longrightarrow> reachable op t"

section \<open>Calls and the store\<close>

lemma replay_simps [simp]:
  "replay f s [] = s"
  "replay f s (c # cs) = replay f (attempt f c s) cs"
  "replay f s (cs @ ds) = replay f (replay f s cs) ds"
  by (simp_all add: replay_def)

definition reading :: "kcall \<Rightarrow> bool" where
  "reading c \<longleftrightarrow> (case c of KGet _ _ _ \<Rightarrow> True | KGetCR _ _ \<Rightarrow> True | KGetSecret _ _ \<Rightarrow> True | _ \<Rightarrow> False)"

lemma attempt_reading [simp]: "reading c \<Longrightarrow> attempt f c s = s"
  by (cases c) (auto simp: attempt_def effect_def reading_def)

lemma reading_simps [simp]: "reading (KGet a b c)" "reading (KGetCR b c)" "reading (KGetSecret b c)"
  by (simp_all add: reading_def)

lemma replay_reads: "\<forall>c \<in> set cs. reading c \<Longrightarrow> replay f s cs = s"
  by (induction cs) auto

section \<open>A pass as a function of the store\<close>

fun valid_sets :: "faults \<Rightarrow> store \<Rightarrow> DistributedRedisCluster \<Rightarrow> nat list \<Rightarrow> err option" where
  "valid_sets f s cluster [] = None"
| "valid_sets f s cluster (i # is) =
     (let ns = drc_Namespace cluster; name = ClusterStatefulSetName (drc_Name cluster) (int i) in
      case found f (KGet KStatefulSet ns name) (s_sets s (ns, name)) of
        Inl e \<Rightarrow> Some e
      | Inr ss \<Rightarrow>
          if ss_ReadyReplicas ss = spec_ClusterReplicas (drc_Spec cluster) + 1 then valid_sets f s cluster is
          else Some (Errorf ''cluster STS not yet ready'' []))"

definition valid :: "faults \<Rightarrow> store \<Rightarrow> RedisClusterBackup \<Rightarrow> err option" where
  "valid f s b =
     (let ns = rb_Namespace b; name = bk_RedisClusterName (rb_Spec b) in
      if name = '''' then RedisClusterBackup_Validate b
      else case found f (KGetCR ns name) (s_clusters s (ns, name)) of
        Inl e \<Rightarrow> Some e
      | Inr cluster \<Rightarrow> valid_sets f s cluster [0..<nat (spec_MasterSize (drc_Spec cluster))])"

definition util_store :: "backup_operator \<Rightarrow> faults \<Rightarrow> RedisClusterBackup \<Rightarrow> DistributedRedisCluster \<Rightarrow> store \<Rightarrow> store option" where
  "util_store op f b cluster s =
     (let ns = rb_Namespace b; name = bk_RedisClusterName (rb_Spec b) in
      case spec_AdminSecret (drc_Spec cluster) of
        None \<Rightarrow> Some s
      | Some secretName \<Rightarrow>
          if (\<exists>e. found f (KGetSecret ns secretName) (s_secrets s (ns, secretName)) = Inl e) \<or> valid f s b \<noteq> None then Some s
          else case found f (KGet KDeployment ns name) (s_deployments s (ns, name)) of
            Inl e \<Rightarrow>
              if e = not_found then map_option (\<lambda>d. attempt f (KCreate (ODeployment d)) s) (UtilNewDeploymentForCR b cluster name secretName)
              else Some s
          | Inr dp \<Rightarrow>
              do {
                changed \<leftarrow> validateUtilCRandDeploymentSpec (bo_cmp op) b dp cluster;
                if changed then map_option (\<lambda>d. attempt f (KUpdate (ODeployment d)) s) (UtilNewDeploymentForCR b cluster name secretName)
                else Some s
              })"

definition pass_store :: "backup_operator \<Rightarrow> faults \<Rightarrow> key \<Rightarrow> store \<Rightarrow> ((reconcile_result \<times> err option) \<times> store) option" where
  "pass_store op f k s =
     (case found f (KGet KBackup (fst k) (snd k)) (s_backups s k) of
        Inl e \<Rightarrow> Some ((no_requeue, if e = not_found then None else Some e), s)
      | Inr b \<Rightarrow>
          let name = bk_RedisClusterName (rb_Spec b) in
          if rb_DeletionTimestamp b \<noteq> None then
            if bo_ContainsFinalizer op b backupFinalizer then
              (case found f (KGet KDeployment (fst k) name) (s_deployments s (fst k, name)) of
                 Inl e \<Rightarrow> Some ((no_requeue, Some e), s)
               | Inr dp \<Rightarrow>
                   let c = KDelete KDeployment (dp_Namespace dp) (dp_Name dp) in
                   if answer f c s \<noteq> None then Some ((no_requeue, answer f c s), s)
                   else
                     let s = effect c s; u = KUpdate (OBackup (bo_RemoveFinalizer op b backupFinalizer))
                     in Some ((no_requeue, answer f u s), attempt f u s))
            else Some ((no_requeue, None), s)
          else
            (case found f (KGetCR (rb_Namespace b) name) (s_clusters s (rb_Namespace b, name)) of
               Inl e \<Rightarrow> Some ((after 60, None), s)
             | Inr cluster \<Rightarrow>
                 do {
                   s \<leftarrow> util_store op f b cluster s;
                   if bo_ContainsFinalizer op b backupFinalizer then Some ((after 60, None), s)
                   else
                     let u = KUpdate (OBackup (bo_AddFinalizer op b backupFinalizer))
                     in Some (if answer f u s = None then (after 60, None) else (no_requeue, answer f u s), attempt f u s)
                 }))"

lemma validate_sets_store:
  assumes "k' = serve f s k"
  shows "\<exists>w'. validate_sets k' cluster is w = (valid_sets f s cluster is, w') \<and> only_calls reading w w'"
  using assms
proof (induction "is" arbitrary: w)
  case (Cons i "is")
  let ?n = "ClusterStatefulSetName (drc_Name cluster) (int i)" and ?ns = "drc_Namespace cluster"
  let ?w = "call (KGet KStatefulSet ?ns ?n) w"
  obtain w' where w': "validate_sets k' cluster is ?w = (valid_sets f s cluster is, w')" "only_calls reading ?w w'"
    using Cons.IH [OF Cons.prems, of ?w] by blast
  have get: "GetStatefulSet k' ?ns ?n w = (found f (KGet KStatefulSet ?ns ?n) (s_sets s (?ns, ?n)), ?w)"
    using Cons.prems by (simp add: GetStatefulSet_def serve_def)
  have "only_calls reading w w'"
    by (rule only_calls_call_trans [OF _ w'(2)]) simp
  with w' get show ?case
    by (cases "found f (KGet KStatefulSet ?ns ?n) (s_sets s (?ns, ?n))") (auto simp: Let_def)
qed simp

lemma ValidateBackup_store:
  assumes "k' = serve f s k"
  shows "\<exists>w'. ValidateBackup k' b w = (valid f s b, w') \<and> only_calls reading w w'"
proof (cases "bk_RedisClusterName (rb_Spec b) = ''''")
  case True
  then show ?thesis
    by (auto simp: ValidateBackup_def valid_def RedisClusterBackup_Validate_def)
next
  case False
  let ?c = "KGetCR (rb_Namespace b) (bk_RedisClusterName (rb_Spec b))"
  show ?thesis
  proof (cases "found f ?c (s_clusters s (rb_Namespace b, bk_RedisClusterName (rb_Spec b)))")
    case (Inl e)
    with False assms show ?thesis
      by (auto simp: ValidateBackup_def valid_def RedisClusterBackup_Validate_def GetDistributedRedisCluster_def serve_def)
  next
    case (Inr cluster)
    obtain w' where w': "validate_sets k' cluster [0..<nat (spec_MasterSize (drc_Spec cluster))] (call ?c w)
        = (valid_sets f s cluster [0..<nat (spec_MasterSize (drc_Spec cluster))], w')" "only_calls reading (call ?c w) w'"
      using validate_sets_store [OF assms] by blast
    have "only_calls reading w w'"
      by (rule only_calls_call_trans [OF _ w'(2)]) simp
    moreover have "GetDistributedRedisCluster k' (rb_Namespace b) (bk_RedisClusterName (rb_Spec b)) w = (Inr cluster, call ?c w)"
      using assms Inr by (simp add: GetDistributedRedisCluster_def serve_def)
    ultimately show ?thesis
      using w'(1) False Inr by (auto simp: ValidateBackup_def valid_def RedisClusterBackup_Validate_def)
  qed
qed

lemma only_reading_replay:
  assumes "only_calls reading w w'"
  shows "replay f s (hw_calls w') = replay f s (hw_calls w)"
proof -
  from assms obtain cs where cs: "hw_calls w' = hw_calls w @ cs" "\<forall>c \<in> set cs. reading c"
    by (auto simp: only_calls_def)
  then show ?thesis by (simp add: replay_reads)
qed

lemma reconcileUtilDeployment_store:
  assumes "k' = serve f s k" and "replay f s (hw_calls w) = s"
  shows "map_option (\<lambda>(err, w). replay f s (hw_calls w)) (reconcileUtilDeployment (op\<lparr>bo_kube := k'\<rparr>) b cluster w) = util_store op f b cluster s"
proof (cases "spec_AdminSecret (drc_Spec cluster)")
  case None
  with assms show ?thesis by (simp add: reconcileUtilDeployment_def util_store_def Let_def)
next
  case (Some sn)
  let ?ns = "rb_Namespace b" and ?n = "bk_RedisClusterName (rb_Spec b)"
  let ?w1 = "call (KGetSecret ?ns sn) w"
  have secret: "GetSecret k' ?ns sn w = (found f (KGetSecret ?ns sn) (s_secrets s (?ns, sn)), ?w1)"
    using assms(1) by (simp add: GetSecret_def serve_def)
  obtain w2 where w2: "ValidateBackup k' b ?w1 = (valid f s b, w2)" "only_calls reading ?w1 w2"
    using ValidateBackup_store [OF assms(1)] by blast
  have r1: "replay f s (hw_calls ?w1) = s"
    using assms(2) by simp
  then have r2: "replay f s (hw_calls w2) = s"
    by (simp only: only_reading_replay [OF w2(2)])
  have get: "GetDeployment k' ?ns ?n w2 = (found f (KGet KDeployment ?ns ?n) (s_deployments s (?ns, ?n)), call (KGet KDeployment ?ns ?n) w2)"
    using assms(1) r2 by (simp add: GetDeployment_def serve_def)
  have notfound: "k_IsNotFound k' e = (e = not_found)" for e
    using assms(1) by (simp add: serve_def)
  let ?w3 = "call (KGet KDeployment ?ns ?n) w2"
  have r3: "replay f s (hw_calls ?w3) = s"
    using r2 by simp
  have c: "hw_calls (snd (CreateDeployment k' d ?w3)) = hw_calls ?w3 @ [KCreate (ODeployment d)]"
    "hw_calls (snd (UpdateDeployment k' d ?w3)) = hw_calls ?w3 @ [KUpdate (ODeployment d)]" for d
    by (simp_all add: CreateDeployment_def UpdateDeployment_def)
  from c have wr: "replay f s (hw_calls (snd (CreateDeployment k' d ?w3))) = attempt f (KCreate (ODeployment d)) s"
    "replay f s (hw_calls (snd (UpdateDeployment k' d ?w3))) = attempt f (KUpdate (ODeployment d)) s" for d
    using r3 by (simp_all del: call_sel)
  note defs = reconcileUtilDeployment_def util_store_def Let_def Some secret
  show ?thesis
  proof (cases "found f (KGetSecret ?ns sn) (s_secrets s (?ns, sn))")
    case (Inl e)
    with r1 show ?thesis by (simp add: defs)
  next
    case secret_found: (Inr x)
    show ?thesis
    proof (cases "valid f s b")
      case (Some e)
      with secret_found w2(1) r2 show ?thesis by (simp add: defs)
    next
      case valid: None
      show ?thesis
      proof (cases "found f (KGet KDeployment ?ns ?n) (s_deployments s (?ns, ?n))")
        case (Inl e)
        with secret_found valid w2(1) get notfound r3 wr show ?thesis
          by (cases "UtilNewDeploymentForCR b cluster ?n sn") (auto simp: defs case_prod_unfold simp del: call_sel)
      next
        case (Inr dp)
        with secret_found valid w2(1) get r3 wr show ?thesis
          by (cases "UtilNewDeploymentForCR b cluster ?n sn"; cases "validateUtilCRandDeploymentSpec (bo_cmp op) b dp cluster")
            (auto simp: defs case_prod_unfold simp del: call_sel)
      qed
    qed
  qed
qed

lemma pass_refines_store: "pass op rw f k s = pass_store op f k s"
proof -
  let ?ns = "fst k" and ?n = "snd k" and ?k = "serve f s (bo_kube op)"
  let ?w0 = "\<lparr>hw_redis = rw, hw_calls = []\<rparr>" and ?op = "op\<lparr>bo_kube := ?k\<rparr>"
  let ?w1 = "call (KGet KBackup ?ns ?n) ?w0"
  have get: "GetRedisClusterBackup ?k ?ns ?n ?w0 = (found f (KGet KBackup ?ns ?n) (s_backups s k), ?w1)"
    by (simp add: GetRedisClusterBackup_def serve_def)
  have notfound: "k_IsNotFound ?k e = (e = not_found)" for e
    by (simp add: serve_def)
  have update: "UpdateBackup ?k b w = (answer f (KUpdate (OBackup b)) (replay f s (hw_calls w)), call (KUpdate (OBackup b)) w)" for b w
    by (simp add: UpdateBackup_def serve_def)
  note defs = pass_def Backup_Reconcile_def pass_store_def Let_def get notfound
  show ?thesis
  proof (cases "found f (KGet KBackup ?ns ?n) (s_backups s k)")
    case (Inl e)
    then show ?thesis by (simp add: defs)
  next
    case b: (Inr b)
    let ?cn = "bk_RedisClusterName (rb_Spec b)"
    show ?thesis
    proof (cases "rb_DeletionTimestamp b")
      case marked: (Some t)
      let ?w2 = "call (KGet KDeployment ?ns ?cn) ?w1"
      have dep: "GetDeployment ?k ?ns ?cn ?w1 = (found f (KGet KDeployment ?ns ?cn) (s_deployments s (?ns, ?cn)), ?w2)"
        by (simp add: GetDeployment_def serve_def)
      have del: "DeleteDeployment ?k d ?w2 = (answer f (KDelete KDeployment (dp_Namespace d) (dp_Name d)) s, call (KDelete KDeployment (dp_Namespace d) (dp_Name d)) ?w2)" for d
        by (simp add: DeleteDeployment_def serve_def)
      show ?thesis
      proof (cases "found f (KGet KDeployment ?ns ?cn) (s_deployments s (?ns, ?cn))")
        case (Inl e)
        with b marked dep show ?thesis by (simp add: defs finalizeBackup_def)
      next
        case (Inr d)
        show ?thesis
          by (cases "answer f (KDelete KDeployment (dp_Namespace d) (dp_Name d)) s")
            (simp_all add: defs finalizeBackup_def b marked dep Inr del update attempt_def [of f "KDelete KDeployment a c" for a c])
      qed
    next
      case None
      let ?w2 = "call (KGetCR (rb_Namespace b) ?cn) ?w1"
      have cr: "GetDistributedRedisCluster ?k (rb_Namespace b) ?cn ?w1 = (found f (KGetCR (rb_Namespace b) ?cn) (s_clusters s (rb_Namespace b, ?cn)), ?w2)"
        by (simp add: GetDistributedRedisCluster_def serve_def)
      show ?thesis
      proof (cases "found f (KGetCR (rb_Namespace b) ?cn) (s_clusters s (rb_Namespace b, ?cn))")
        case (Inl e)
        with b None cr show ?thesis by (simp add: defs)
      next
        case (Inr cluster)
        have "util_store op f b cluster s = map_option (\<lambda>(err, w). replay f s (hw_calls w)) (reconcileUtilDeployment ?op b cluster ?w2)"
          by (rule reconcileUtilDeployment_store [symmetric]) simp_all
        with b None cr Inr show ?thesis
          by (cases "reconcileUtilDeployment ?op b cluster ?w2") (auto simp: defs update split: option.splits)
      qed
    qed
  qed
qed

section \<open>What a pass does to the store\<close>

definition utilities :: "RedisClusterBackup \<Rightarrow> key" where
  "utilities b = (rb_Namespace b, bk_RedisClusterName (rb_Spec b))"

lemma UtilNewDeploymentForCR_key:
  "UtilNewDeploymentForCR b c n sn = Some d \<Longrightarrow> deployment_key d = (rb_Namespace b, n)"
  by (auto simp: UtilNewDeploymentForCR_def utilGenerateDeploymentSpec_def deployment_key_def Option.bind_eq_Some_conv)

lemma attempt_deployment:
  "attempt f (KCreate (ODeployment d)) s = s \<or> attempt f (KCreate (ODeployment d)) s = s\<lparr>s_deployments := (s_deployments s)(deployment_key d \<mapsto> d)\<rparr>"
  "attempt f (KUpdate (ODeployment d)) s = s \<or> attempt f (KUpdate (ODeployment d)) s = s\<lparr>s_deployments := (s_deployments s)(deployment_key d \<mapsto> d)\<rparr>"
  by (simp_all add: attempt_def effect_def)

lemma util_store_cases:
  assumes "util_store op f b cluster s = Some t"
  obtains "t = s"
  | d sn where "UtilNewDeploymentForCR b cluster (snd (utilities b)) sn = Some d"
      "t = s\<lparr>s_deployments := (s_deployments s)(utilities b \<mapsto> d)\<rparr>"
proof -
  let ?n = "bk_RedisClusterName (rb_Spec b)"
  have "t = s \<or> (\<exists>d sn. UtilNewDeploymentForCR b cluster ?n sn = Some d \<and>
      (t = attempt f (KCreate (ODeployment d)) s \<or> t = attempt f (KUpdate (ODeployment d)) s))"
    using assms by (auto simp: util_store_def Let_def Option.bind_eq_Some_conv split: option.splits sum.splits if_splits)
  then show thesis
  proof (elim disjE exE conjE)
    assume "t = s" then show thesis by (rule that(1))
  next
    fix d sn assume d: "UtilNewDeploymentForCR b cluster ?n sn = Some d" "t = attempt f (KCreate (ODeployment d)) s"
    from attempt_deployment(1) [of f d s] d that show thesis
      by (auto simp: utilities_def UtilNewDeploymentForCR_key [OF d(1)])
  next
    fix d sn assume d: "UtilNewDeploymentForCR b cluster ?n sn = Some d" "t = attempt f (KUpdate (ODeployment d)) s"
    from attempt_deployment(2) [of f d s] d that show thesis
      by (auto simp: utilities_def UtilNewDeploymentForCR_key [OF d(1)])
  qed
qed

lemma found_Inr: "found f c x = Inr y \<longleftrightarrow> f c = None \<and> x = Some y"
  by (auto simp: found_def split: option.splits)

definition put_backup :: "RedisClusterBackup \<Rightarrow> store \<Rightarrow> store" where
  "put_backup b s =
     s\<lparr>s_backups := (s_backups s)(backup_key b := (if rb_DeletionTimestamp b \<noteq> None \<and> rb_Finalizers b = [] then None else Some b))\<rparr>"

lemma attempt_backup: "attempt f (KUpdate (OBackup b)) s = (if answer f (KUpdate (OBackup b)) s = None then put_backup b s else s)"
  by (simp add: attempt_def effect_def put_backup_def)

lemma put_backup_simps [simp]:
  "s_deployments (put_backup b s) = s_deployments s" "s_clusters (put_backup b s) = s_clusters s"
  "s_sets (put_backup b s) = s_sets s" "s_secrets (put_backup b s) = s_secrets s"
  by (simp_all add: put_backup_def)

definition unfinalized :: "RedisClusterBackup \<Rightarrow> RedisClusterBackup" where
  "unfinalized b = b\<lparr>rb_Finalizers := filter (\<lambda>g. g \<noteq> backupFinalizer) (rb_Finalizers b)\<rparr>"

definition finalized :: "RedisClusterBackup \<Rightarrow> RedisClusterBackup" where
  "finalized b = b\<lparr>rb_Finalizers := rb_Finalizers b @ [backupFinalizer]\<rparr>"

lemma finalized_simps [simp]:
  "backup_key (finalized b) = backup_key b" "backup_key (unfinalized b) = backup_key b"
  "utilities (finalized b) = utilities b" "utilities (unfinalized b) = utilities b"
  "rb_DeletionTimestamp (finalized b) = rb_DeletionTimestamp b" "rb_DeletionTimestamp (unfinalized b) = rb_DeletionTimestamp b"
  by (simp_all add: finalized_def unfinalized_def backup_key_def utilities_def)

text \<open>The five things a pass can do: nothing, delete, delete and let go, make or update, and any of the last with the finalizer.\<close>

lemma pass_cases:
  assumes "pass_store op f k s = Some (res, t)" and "documented_finalizers op"
  obtains (unchanged) "t = s" "snd res = None \<longrightarrow> f (KGet KBackup (fst k) (snd k)) = Some not_found \<or> s_backups s k = None \<or>
      (\<exists>b. s_backups s k = Some b \<and> (rb_DeletionTimestamp b = None \<or> backupFinalizer \<notin> set (rb_Finalizers b)))"
  | (deletes) b d u where "s_backups s k = Some b" "rb_DeletionTimestamp b \<noteq> None" "backupFinalizer \<in> set (rb_Finalizers b)"
      "s_deployments s (fst k, bk_RedisClusterName (rb_Spec b)) = Some d"
      "u = s\<lparr>s_deployments := (s_deployments s)(deployment_key d := None)\<rparr>" "t = u \<or> t = put_backup (unfinalized b) u"
      "t = (if snd res = None then put_backup (unfinalized b) u else u)"
  | (keeps) b u where "s_backups s k = Some b" "rb_DeletionTimestamp b = None"
      "u = s \<or> (\<exists>c sn d. UtilNewDeploymentForCR b c (snd (utilities b)) sn = Some d \<and> u = s\<lparr>s_deployments := (s_deployments s)(utilities b \<mapsto> d)\<rparr>)"
      "t = u \<or> backupFinalizer \<notin> set (rb_Finalizers b) \<and> t = put_backup (finalized b) u"
      "if backupFinalizer \<in> set (rb_Finalizers b) then t = u \<and> snd res = None
       else t = (if snd res = None then put_backup (finalized b) u else u)"
proof -
  have ops: "bo_ContainsFinalizer op b f = (f \<in> set (rb_Finalizers b))"
    "bo_RemoveFinalizer op b backupFinalizer = unfinalized b"
    "f \<notin> set (rb_Finalizers b) \<Longrightarrow> f = backupFinalizer \<Longrightarrow> bo_AddFinalizer op b f = finalized b" for b f
    using assms(2) by (auto simp: documented_finalizers_def unfinalized_def finalized_def)
  show thesis
  proof (cases "found f (KGet KBackup (fst k) (snd k)) (s_backups s k)")
    case (Inl e)
    with assms(1) have "t = s" "snd res = None \<longrightarrow> e = not_found" by (auto simp: pass_store_def split: if_splits)
    with Inl show thesis by (intro unchanged) (auto simp: found_def split: option.splits)
  next
    case (Inr b)
    then have b: "s_backups s k = Some b" by (simp add: found_Inr)
    let ?n = "bk_RedisClusterName (rb_Spec b)"
    show thesis
    proof (cases "rb_DeletionTimestamp b")
      case None
      show thesis
      proof (cases "found f (KGetCR (rb_Namespace b) ?n) (s_clusters s (rb_Namespace b, ?n))")
        case (Inl e)
        with None assms(1) \<open>found f _ (s_backups s k) = Inr b\<close> have "t = s" by (simp add: pass_store_def Let_def)
        then show thesis by (rule unchanged) (use b None in blast)
      next
        case cluster: (Inr cluster)
        obtain u where u: "util_store op f b cluster s = Some u"
            "if backupFinalizer \<in> set (rb_Finalizers b) then t = u \<and> snd res = None
             else t = (if snd res = None then put_backup (finalized b) u else u)"
          using None assms(1) Inr cluster
          by (auto simp: pass_store_def Let_def ops attempt_backup Option.bind_eq_Some_conv split: if_splits)
        then have "t = u \<or> backupFinalizer \<notin> set (rb_Finalizers b) \<and> t = put_backup (finalized b) u" by (auto split: if_splits)
        note k = keeps [OF b None _ this u(2)]
        from u(1) show thesis
          by (rule util_store_cases) (use k in blast)+
      qed
    next
      case (Some time)
      show thesis
      proof (cases "backupFinalizer \<in> set (rb_Finalizers b)")
        case False
        with Some assms(1) Inr have "t = s" by (simp add: pass_store_def Let_def ops)
        then show thesis by (rule unchanged) (use b False in blast)
      next
        case fin: True
        show thesis
        proof (cases "found f (KGet KDeployment (fst k) ?n) (s_deployments s (fst k, ?n))")
          case (Inl e)
          with fin Some assms(1) \<open>found f _ (s_backups s k) = Inr b\<close> have "t = s" "snd res \<noteq> None" by (auto simp: pass_store_def Let_def ops)
          then show thesis by (intro unchanged) auto
        next
          case d: (Inr d)
          let ?c = "KDelete KDeployment (dp_Namespace d) (dp_Name d)"
          show thesis
          proof (cases "answer f ?c s")
            case (Some e)
            with d fin \<open>rb_DeletionTimestamp b = _\<close> assms(1) Inr have "t = s" "snd res \<noteq> None" by (auto simp: pass_store_def Let_def ops)
            then show thesis by (intro unchanged) auto
          next
            case None
            have "effect ?c s = s\<lparr>s_deployments := (s_deployments s)(deployment_key d := None)\<rparr>"
              by (simp add: effect_def deployment_key_def)
            moreover have "t = (if snd res = None then put_backup (unfinalized b) (effect ?c s) else effect ?c s)"
              using None d fin Some assms(1) Inr by (auto simp: pass_store_def Let_def ops attempt_backup)
            ultimately show thesis
              using deletes [OF b _ fin, of d] Some d by (auto simp: found_Inr split: if_splits)
          qed
        qed
      qed
    qed
  qed
qed

section \<open>What holds in every reachable state\<close>

definition built_for :: "key \<Rightarrow> Deployment \<Rightarrow> bool" where
  "built_for k d \<longleftrightarrow> deployment_key d = k \<and> (\<exists>b c sn. utilities b = k \<and> UtilNewDeploymentForCR b c (snd k) sn = Some d)"

definition backup_ok :: "key \<Rightarrow> RedisClusterBackup \<Rightarrow> bool" where
  "backup_ok k b \<longleftrightarrow> backup_key b = k \<and> set (rb_Finalizers b) \<subseteq> {backupFinalizer} \<and>
     (rb_DeletionTimestamp b \<noteq> None \<longrightarrow> backupFinalizer \<in> set (rb_Finalizers b))"

definition store_ok :: "store \<Rightarrow> bool" where
  "store_ok s \<longleftrightarrow> (\<forall>k d. s_deployments s k = Some d \<longrightarrow> built_for k d) \<and> (\<forall>k b. s_backups s k = Some b \<longrightarrow> backup_ok k b)"

lemma store_okD:
  "store_ok s \<Longrightarrow> s_deployments s k = Some d \<Longrightarrow> built_for k d"
  "store_ok s \<Longrightarrow> s_backups s k = Some b \<Longrightarrow> backup_ok k b"
  unfolding store_ok_def by blast+

lemma store_ok_put_backup:
  assumes "store_ok s" and "rb_DeletionTimestamp b \<noteq> None \<and> rb_Finalizers b = [] \<or> backup_ok (backup_key b) b"
  shows "store_ok (put_backup b s)"
  using assms by (auto simp: store_ok_def put_backup_def)

lemma store_ok_deploy:
  assumes "store_ok s" and "UtilNewDeploymentForCR b c (snd (utilities b)) sn = Some d"
  shows "store_ok (s\<lparr>s_deployments := (s_deployments s)(utilities b \<mapsto> d)\<rparr>)"
proof -
  have "built_for (utilities b) d"
    using assms(2) UtilNewDeploymentForCR_key [OF assms(2)] by (auto simp: built_for_def utilities_def)
  with assms(1) show ?thesis by (simp add: store_ok_def)
qed

lemma store_ok_pass:
  assumes "store_ok s" and "pass_store op f k s = Some (res, t)" and "documented_finalizers op"
  shows "store_ok t"
  using assms(2,3)
proof (cases rule: pass_cases)
  case unchanged
  with assms(1) show ?thesis by simp
next
  case (deletes b d u)
  have u: "store_ok u" using assms(1) deletes(5) by (simp add: store_ok_def)
  have "backup_ok k b" using store_okD(2) [OF assms(1) deletes(1)] .
  then have "rb_Finalizers (unfinalized b) = []"
    by (auto simp: backup_ok_def unfinalized_def filter_empty_conv)
  with u deletes(2,6) store_ok_put_backup [OF u] show ?thesis by auto
next
  case (keeps b u)
  have u: "store_ok u" using keeps(3) assms(1) store_ok_deploy by blast
  have "backup_ok k b" using store_okD(2) [OF assms(1) keeps(1)] .
  then have "backup_ok (backup_key b) (finalized b)"
    using keeps(2) by (auto simp: backup_ok_def finalized_def backup_key_def)
  with u keeps(4) store_ok_put_backup [OF u] show ?thesis by auto
qed

lemma store_ok_step:
  assumes "step op s t" and "documented_finalizers op" and "store_ok s"
  shows "store_ok t"
  using assms(1)
proof cases
  case (pass rw f k res)
  with assms(2,3) show ?thesis by (metis pass_refines_store store_ok_pass)
next
  case (submit b)
  with assms(3) show ?thesis by (auto simp: store_ok_def backup_ok_def)
next
  case (edit k b spec)
  have "backup_ok k b" using store_okD(2) [OF assms(3)] edit(2) .
  then have "backup_ok k (b\<lparr>rb_Spec := spec\<rparr>)" by (simp add: backup_ok_def backup_key_def)
  with edit assms(3) show ?thesis by (simp add: store_ok_def)
next
  case (remove k b time)
  have "backup_ok k b" using store_okD(2) [OF assms(3)] remove(2) .
  then have "rb_Finalizers b \<noteq> [] \<Longrightarrow> backup_ok k (b\<lparr>rb_DeletionTimestamp := Some time\<rparr>)"
    by (cases "rb_Finalizers b") (auto simp: backup_ok_def backup_key_def)
  with remove assms(3) show ?thesis by (simp add: store_ok_def)
next
  case environment
  with assms(3) show ?thesis by (simp add: store_ok_def)
qed

lemma reachable_store_ok: "reachable op s \<Longrightarrow> documented_finalizers op \<Longrightarrow> store_ok s"
proof (induction rule: reachable.induct)
  case start
  show ?case by (simp add: store_ok_def empty_store_def)
next
  case (steps s t)
  then show ?case by (blast intro: store_ok_step)
qed

section \<open>Finalization\<close>

text \<open>A backup that carries the finalizer goes only in a pass that deletes its deployment.\<close>

lemma removal_deletes:
  assumes "store_ok s" and "documented_finalizers op" and "step op s t"
    and "s_backups s k = Some b" and "backupFinalizer \<in> set (rb_Finalizers b)" and "s_backups t k = None"
  shows "s_deployments s (utilities b) \<noteq> None \<and> s_deployments t (utilities b) = None"
  using assms(3)
proof cases
  case (pass rw f j res)
  then have p: "pass_store op f j s = Some (res, t)" by (simp add: pass_refines_store)
  from p assms(2) show ?thesis
  proof (cases rule: pass_cases)
    case unchanged
    with assms(4,6) show ?thesis by simp
  next
    case (deletes c d u)
    have c: "backup_key c = j" using store_okD(2) [OF assms(1) deletes(1)] by (simp add: backup_ok_def)
    have b: "backup_key b = k" using store_okD(2) [OF assms(1) assms(4)] by (simp add: backup_ok_def)
    have "t = put_backup (unfinalized c) u" "k = j"
      using deletes(5,6) assms(4,6) c by (auto simp: put_backup_def split: if_splits)
    moreover have "c = b" using \<open>k = j\<close> deletes(1) assms(4) by simp
    moreover have "deployment_key d = (fst j, bk_RedisClusterName (rb_Spec c))"
      using store_okD(1) [OF assms(1) deletes(4)] by (simp add: built_for_def)
    moreover have "fst j = rb_Namespace c" using c by (auto simp: backup_key_def)
    ultimately show ?thesis using deletes(4,5) by (simp add: utilities_def)
  next
    case (keeps c u)
    have "s_backups u = s_backups s" using keeps(3) by auto
    with keeps(2,4) assms(4,6) show ?thesis by (auto simp: put_backup_def split: if_splits)
  qed
next
  case (remove j c time)
  with assms(4,5,6) show ?thesis by (auto split: if_splits)
qed (use assms(4,6) in \<open>auto split: if_splits\<close>)

section \<open>A backup that cannot go away\<close>

text \<open>What happens without a user: passes, for any backup and with any failures, and changes of the rest of the cluster.\<close>

inductive unattended :: "backup_operator \<Rightarrow> store \<Rightarrow> store \<Rightarrow> bool" for op where
  here: "unattended op s s"
| passes: "unattended op s t \<Longrightarrow> pass op rw f k t = Some (res, u) \<Longrightarrow> unattended op s u"
| changes: "unattended op s t \<Longrightarrow> unattended op s (t\<lparr>s_clusters := clusters, s_sets := sets, s_secrets := secrets\<rparr>)"

definition stuck :: "key \<Rightarrow> RedisClusterBackup \<Rightarrow> store \<Rightarrow> bool" where
  "stuck k b s \<longleftrightarrow> s_backups s k = Some b \<and> rb_DeletionTimestamp b \<noteq> None \<and> backupFinalizer \<in> set (rb_Finalizers b) \<and>
     s_deployments s (utilities b) = None \<and> (\<forall>j c. s_backups s j = Some c \<and> utilities c = utilities b \<longrightarrow> rb_DeletionTimestamp c \<noteq> None)"

lemma stuckD:
  assumes "stuck k b s"
  shows "s_backups s k = Some b" "rb_DeletionTimestamp b \<noteq> None" "backupFinalizer \<in> set (rb_Finalizers b)" "s_deployments s (utilities b) = None"
    "\<And>j c. s_backups s j = Some c \<Longrightarrow> utilities c = utilities b \<Longrightarrow> rb_DeletionTimestamp c \<noteq> None"
  using assms unfolding stuck_def by blast+

lemma stuck_put_backup:
  assumes "stuck k b s" and "backup_key c \<noteq> k" and "utilities c = utilities b \<Longrightarrow> rb_DeletionTimestamp c \<noteq> None"
  shows "stuck k b (put_backup c s)"
proof -
  have "rb_DeletionTimestamp e \<noteq> None" if e: "s_backups (put_backup c s) j = Some e" "utilities e = utilities b" for j e
  proof (cases "j = backup_key c")
    case True
    with e assms(3) show ?thesis by (auto simp: put_backup_def split: if_splits)
  next
    case False
    with e stuckD(5) [OF assms(1)] show ?thesis by (simp add: put_backup_def)
  qed
  moreover have "s_backups (put_backup c s) k = s_backups s k"
    using assms(2) by (simp add: put_backup_def)
  ultimately show ?thesis
    using stuckD(1-4) [OF assms(1)] unfolding stuck_def put_backup_simps by metis
qed

lemma environment_simps:
  "stuck k b (s\<lparr>s_clusters := clusters, s_sets := sets, s_secrets := secrets\<rparr>) = stuck k b s"
  "store_ok (s\<lparr>s_clusters := clusters, s_sets := sets, s_secrets := secrets\<rparr>) = store_ok s"
  by (simp_all add: stuck_def store_ok_def)

lemma stuck_pass:
  assumes "store_ok s" and "documented_finalizers op" and "stuck k b s" and "pass_store op f j s = Some (res, t)"
  shows "stuck k b t"
  using assms(4,2)
proof (cases rule: pass_cases)
  case unchanged
  with assms(3) show ?thesis by simp
next
  case (deletes c d u)
  have c: "backup_key c = j" using store_okD(2) [OF assms(1) deletes(1)] by (simp add: backup_ok_def)
  then have "fst j = rb_Namespace c" by (auto simp: backup_key_def)
  then have "c \<noteq> b" using deletes(4) stuckD(4) [OF assms(3)] by (auto simp: utilities_def)
  then have "j \<noteq> k" using deletes(1) stuckD(1) [OF assms(3)] by auto
  moreover have "stuck k b u"
    using assms(3) deletes(5) by (auto simp: stuck_def simp del: split_paired_All)
  ultimately show ?thesis
    using deletes(2,6) c stuck_put_backup [of k b u "unfinalized c"] by auto
next
  case (keeps c u)
  have c: "backup_key c = j" using store_okD(2) [OF assms(1) keeps(1)] by (simp add: backup_ok_def)
  have other: "utilities c \<noteq> utilities b" using stuckD(5) [OF assms(3) keeps(1)] keeps(2) by blast
  then have "j \<noteq> k" using keeps(1) stuckD(1) [OF assms(3)] by auto
  moreover have "stuck k b u"
    using keeps(3) assms(3) other by (auto simp: stuck_def)
  ultimately show ?thesis
    using keeps(4) c other stuck_put_backup [of k b u "finalized c"] by auto
qed

lemma stuck_unattended:
  assumes "unattended op s t" and "documented_finalizers op" and "store_ok s" and "stuck k b s"
  shows "store_ok t \<and> stuck k b t"
  using assms
proof (induction rule: unattended.induct)
  case (passes s t rw f j res u)
  then have p: "pass_store op f j t = Some (res, u)" and t: "store_ok t" "stuck k b t"
    by (simp_all add: pass_refines_store)
  from store_ok_pass [OF t(1) p passes.prems(1)] stuck_pass [OF t(1) passes.prems(1) t(2) p] show ?case ..
next
  case (changes s t clusters sets secrets)
  then show ?case by (simp add: environment_simps)
qed simp

section \<open>The life of a backup\<close>

abbreviation no_faults :: faults where "no_faults \<equiv> \<lambda>_. None"

text \<open>The cluster of the backup is known, all its sets are ready and its secret is there: \<open>d\<close> is the deployment to be made.\<close>

definition ready :: "store \<Rightarrow> RedisClusterBackup \<Rightarrow> DistributedRedisCluster \<Rightarrow> Deployment \<Rightarrow> bool" where
  "ready s b c d \<longleftrightarrow> bk_RedisClusterName (rb_Spec b) \<noteq> '''' \<and> s_clusters s (utilities b) = Some c \<and>
     (\<forall>i < nat (spec_MasterSize (drc_Spec c)). \<exists>ss. s_sets s (drc_Namespace c, ClusterStatefulSetName (drc_Name c) (int i)) = Some ss \<and>
        ss_ReadyReplicas ss = spec_ClusterReplicas (drc_Spec c) + 1) \<and>
     (\<exists>sn. spec_AdminSecret (drc_Spec c) = Some sn \<and> s_secrets s (rb_Namespace b, sn) \<noteq> None \<and>
        UtilNewDeploymentForCR b c (snd (utilities b)) sn = Some d)"

lemma valid_sets_ready:
  "\<forall>i \<in> set is. \<exists>ss. s_sets s (drc_Namespace c, ClusterStatefulSetName (drc_Name c) (int i)) = Some ss \<and> ss_ReadyReplicas ss = spec_ClusterReplicas (drc_Spec c) + 1
   \<Longrightarrow> valid_sets no_faults s c is = None"
  by (induction "is") (auto simp: found_def Let_def)

lemma valid_ready: "ready s b c d \<Longrightarrow> valid no_faults s b = None"
  using valid_sets_ready [of "[0..<nat (spec_MasterSize (drc_Spec c))]" s c]
  by (auto simp: ready_def valid_def found_def utilities_def Let_def)

lemma util_store_ready:
  assumes "ready s b c d"
  shows "s_deployments s (utilities b) = None \<Longrightarrow>
      util_store op no_faults b c s = Some (s\<lparr>s_deployments := (s_deployments s)(utilities b \<mapsto> d)\<rparr>)"
    and "s_deployments s (utilities b) = Some dp \<Longrightarrow>
      util_store op no_faults b c s = map_option (\<lambda>changed. if changed then s\<lparr>s_deployments := (s_deployments s)(utilities b \<mapsto> d)\<rparr> else s)
        (validateUtilCRandDeploymentSpec (bo_cmp op) b dp c)"
proof -
  from assms obtain sn where sn: "spec_AdminSecret (drc_Spec c) = Some sn" "s_secrets s (rb_Namespace b, sn) \<noteq> None"
      "UtilNewDeploymentForCR b c (bk_RedisClusterName (rb_Spec b)) sn = Some d"
    by (auto simp: ready_def utilities_def)
  have key: "deployment_key d = utilities b"
    using UtilNewDeploymentForCR_key [OF sn(3)] by (simp add: utilities_def)
  note defs = util_store_def Let_def sn(1,3) valid_ready [OF assms] found_def attempt_def answer_def refused_def effect_def key
  show "s_deployments s (utilities b) = None \<Longrightarrow>
      util_store op no_faults b c s = Some (s\<lparr>s_deployments := (s_deployments s)(utilities b \<mapsto> d)\<rparr>)"
    using sn(2) by (auto simp: defs simp flip: utilities_def)
  show "s_deployments s (utilities b) = Some dp \<Longrightarrow>
      util_store op no_faults b c s = map_option (\<lambda>changed. if changed then s\<lparr>s_deployments := (s_deployments s)(utilities b \<mapsto> d)\<rparr> else s)
        (validateUtilCRandDeploymentSpec (bo_cmp op) b dp c)"
    using sn(2) by (cases "validateUtilCRandDeploymentSpec (bo_cmp op) b dp c") (auto simp: defs simp flip: utilities_def)
qed

lemma found_no_faults: "found no_faults c (Some x) = Inr x" "found no_faults c None = Inl not_found"
  by (simp_all add: found_def)

lemma attempt_no_faults:
  "s_backups s (backup_key b) \<noteq> None \<Longrightarrow> answer no_faults (KUpdate (OBackup b)) s = None"
  "s_backups s (backup_key b) \<noteq> None \<Longrightarrow> attempt no_faults (KUpdate (OBackup b)) s = put_backup b s"
  by (auto simp: attempt_def answer_def refused_def effect_def put_backup_def)

text \<open>A pass without failures for a backup that is not marked, when its cluster is ready.\<close>

lemma pass_ready:
  assumes "documented_finalizers op" and "s_backups s k = Some b" and "backup_key b = k" and "rb_DeletionTimestamp b = None"
    and "ready s b c d" and "util_store op no_faults b c s = Some t"
  shows "pass op rw no_faults k s =
    Some ((after 60, None), if backupFinalizer \<in> set (rb_Finalizers b) then t else put_backup (finalized b) t)"
proof -
  have ops: "bo_ContainsFinalizer op b backupFinalizer = (backupFinalizer \<in> set (rb_Finalizers b))"
    "backupFinalizer \<notin> set (rb_Finalizers b) \<Longrightarrow> bo_AddFinalizer op b backupFinalizer = finalized b"
    using assms(1) by (simp_all add: documented_finalizers_def finalized_def)
  have cluster: "s_clusters s (rb_Namespace b, bk_RedisClusterName (rb_Spec b)) = Some c"
    using assms(5) by (simp add: ready_def utilities_def)
  have "s_backups t = s_backups s"
    by (rule util_store_cases [OF assms(6)]) simp_all
  then have "s_backups t (backup_key (finalized b)) \<noteq> None"
    using assms(2,3) by simp
  then show ?thesis
    using assms(2,4,6) cluster by (auto simp: pass_refines_store pass_store_def found_no_faults Let_def ops attempt_no_faults)
qed

lemma pass_finalizes:
  assumes "documented_finalizers op" and "s_backups s k = Some b" and "backup_key b = k" and "rb_DeletionTimestamp b \<noteq> None"
    and "rb_Finalizers b = [backupFinalizer]" and "s_deployments s (utilities b) = Some d" and "deployment_key d = utilities b"
  shows "pass op rw no_faults k s = Some ((no_requeue, None),
    s\<lparr>s_deployments := (s_deployments s)(utilities b := None), s_backups := (s_backups s)(k := None)\<rparr>)"
proof -
  have ops: "bo_ContainsFinalizer op b backupFinalizer" "bo_RemoveFinalizer op b backupFinalizer = unfinalized b"
    using assms(1,5) by (simp_all add: documented_finalizers_def unfinalized_def)
  have k: "k = (rb_Namespace b, rb_Name b)" "utilities b = (rb_Namespace b, bk_RedisClusterName (rb_Spec b))"
      "dp_Namespace d = rb_Namespace b" "dp_Name d = bk_RedisClusterName (rb_Spec b)"
    using assms(3,7) by (auto simp: backup_key_def utilities_def deployment_key_def)
  let ?c = "KDelete KDeployment (dp_Namespace d) (dp_Name d)" and ?s = "s\<lparr>s_deployments := (s_deployments s)(utilities b := None)\<rparr>"
  have c: "answer no_faults ?c s = None" "effect ?c s = ?s"
    using assms(6) by (simp_all add: answer_def refused_def effect_def k)
  have "s_backups ?s (backup_key (unfinalized b)) \<noteq> None"
    using assms(2,3) by simp
  then have "pass op rw no_faults k s = Some ((no_requeue, None), put_backup (unfinalized b) ?s)"
    using assms(2,4,6) k(1,2) by (simp add: pass_refines_store pass_store_def found_no_faults Let_def ops c attempt_no_faults)
  moreover have "put_backup (unfinalized b) ?s = ?s\<lparr>s_backups := (s_backups s)(k := None)\<rparr>"
    using assms(3,4,5) by (simp add: put_backup_def unfinalized_def backup_key_def)
  ultimately show ?thesis by simp
qed

section \<open>The life of a backup as an automaton\<close>

text \<open>
  What the controller promises for one backup, without the store: the phase of the backup and whether its cluster has
  utilities. A pass that reports no error waits, or protects the backup, with or without making the utilities, or ends the life
  of a marked one together with them. A pass that fails leaves things alone, or has made the utilities of a backup it could
  not protect, or has deleted those of a backup it could not let go.
\<close>

datatype phase = Absent | Fresh | Kept | Marked

inductive life :: "phase \<times> bool \<Rightarrow> bool \<Rightarrow> phase \<times> bool \<Rightarrow> bool" where
  waits: "p \<in> {Fresh, Kept} \<Longrightarrow> life (p, d) True (p, d)"
| protects: "d \<longrightarrow> d' \<Longrightarrow> life (Fresh, d) True (Kept, d')"
| serves: "d \<longrightarrow> d' \<Longrightarrow> life (Kept, d) True (Kept, d')"
| ends: "life (Marked, True) True (Absent, False)"
| fails: "p \<noteq> Absent \<Longrightarrow> life (p, d) False (p, d)"
| unprotected: "life (Fresh, d) False (Fresh, True)"
| held: "life (Marked, True) False (Marked, False)"

inductive_simps life_Marked_ok: "life (Marked, d) True (p, d')"

definition phase_of :: "key \<Rightarrow> store \<Rightarrow> phase" where
  "phase_of k s =
     (case s_backups s k of
        None \<Rightarrow> Absent
      | Some b \<Rightarrow>
          if rb_DeletionTimestamp b \<noteq> None then Marked
          else if backupFinalizer \<in> set (rb_Finalizers b) then Kept else Fresh)"

definition served_by :: "key \<Rightarrow> store \<Rightarrow> bool" where
  "served_by u s \<longleftrightarrow> s_deployments s u \<noteq> None"

lemma phase_of_put:
  assumes "backup_key b = k"
  shows "rb_DeletionTimestamp b = None \<Longrightarrow> phase_of k (put_backup (finalized b) s) = Kept"
    and "rb_DeletionTimestamp b \<noteq> None \<Longrightarrow> rb_Finalizers (unfinalized b) = [] \<Longrightarrow> phase_of k (put_backup (unfinalized b) s) = Absent"
  using assms by (auto simp: phase_of_def put_backup_def finalized_def unfinalized_def backup_key_def)

section \<open>A deployment that nobody deletes\<close>

definition unclaimed :: "key \<Rightarrow> Deployment \<Rightarrow> store \<Rightarrow> bool" where
  "unclaimed u d s \<longleftrightarrow> s_deployments s u = Some d \<and> (\<forall>j c. s_backups s j = Some c \<longrightarrow> utilities c \<noteq> u)"

lemma unclaimed_put_backup: "unclaimed u d s \<Longrightarrow> utilities b \<noteq> u \<Longrightarrow> unclaimed u d (put_backup b s)"
  by (auto simp: unclaimed_def put_backup_def)

lemma unclaimed_pass:
  assumes "store_ok s" and "documented_finalizers op" and "unclaimed u d s" and "pass_store op f j s = Some (res, t)"
  shows "unclaimed u d t"
  using assms(4,2)
proof (cases rule: pass_cases)
  case unchanged
  with assms(3) show ?thesis by simp
next
  case (deletes c e v)
  have "backup_key c = j" using store_okD(2) [OF assms(1) deletes(1)] by (simp add: backup_ok_def)
  then have "deployment_key e = utilities c"
    using store_okD(1) [OF assms(1) deletes(4)] by (auto simp: built_for_def utilities_def backup_key_def)
  moreover have c: "utilities c \<noteq> u" using assms(3) deletes(1) unfolding unclaimed_def by blast
  ultimately have "unclaimed u d v" using assms(3) deletes(5) by (auto simp: unclaimed_def)
  with deletes(6) c unclaimed_put_backup [of u d v "unfinalized c"] show ?thesis by auto
next
  case (keeps c v)
  have c: "utilities c \<noteq> u" using assms(3) keeps(1) unfolding unclaimed_def by blast
  then have "unclaimed u d v" using assms(3) keeps(3) unfolding unclaimed_def by (elim disjE exE conjE) simp_all
  with keeps(4) c unclaimed_put_backup [of u d v "finalized c"] show ?thesis by auto
qed

lemma unclaimed_unattended:
  assumes "unattended op s t" and "documented_finalizers op" and "store_ok s" and "unclaimed u d s"
  shows "store_ok t \<and> unclaimed u d t"
  using assms
proof (induction rule: unattended.induct)
  case (passes s t rw f j res v)
  then have p: "pass_store op f j t = Some (res, v)" and t: "store_ok t" "unclaimed u d t"
    by (simp_all add: pass_refines_store)
  from store_ok_pass [OF t(1) p passes.prems(1)] unclaimed_pass [OF t(1) passes.prems(1) t(2) p] show ?case ..
next
  case (changes s t clusters sets secrets)
  then show ?case by (simp add: environment_simps unclaimed_def)
qed simp

text \<open>Failures of the update that adds the finalizer, and of nothing else.\<close>

definition finalizer_fails :: "RedisClusterBackup \<Rightarrow> err \<Rightarrow> faults" where
  "finalizer_fails b e = (\<lambda>c. if c = KUpdate (OBackup (finalized b)) then Some e else None)"

lemma finalizer_fails_other [simp]:
  "finalizer_fails b e (KGet kd ns n) = None" "finalizer_fails b e (KGetCR ns n) = None" "finalizer_fails b e (KGetSecret ns n) = None"
  "finalizer_fails b e (KCreate ob) = None" "finalizer_fails b e (KUpdate (ODeployment d)) = None"
  by (simp_all add: finalizer_fails_def)

lemma valid_finalizer_fails: "valid (finalizer_fails b e) s b' = valid no_faults s b'"
proof -
  have "valid_sets (finalizer_fails b e) s c is = valid_sets no_faults s c is" for c "is"
    by (induction "is") (simp_all add: found_def Let_def split: option.split)
  then show ?thesis by (simp add: valid_def found_def Let_def split: option.split)
qed

lemma util_store_finalizer_fails: "util_store op (finalizer_fails b e) b' c s = util_store op no_faults b' c s"
proof -
  have "attempt (finalizer_fails b e) (KCreate (ODeployment d)) s = attempt no_faults (KCreate (ODeployment d)) s"
    "attempt (finalizer_fails b e) (KUpdate (ODeployment d)) s = attempt no_faults (KUpdate (ODeployment d)) s" for d
    by (simp_all add: attempt_def answer_def)
  then show ?thesis by (simp only: util_store_def valid_finalizer_fails found_def finalizer_fails_other option.case)
qed

lemma pass_unprotected:
  assumes "documented_finalizers op" and "s_backups s k = Some b" and "backup_key b = k" and "rb_DeletionTimestamp b = None"
    and "rb_Finalizers b = []" and "ready s b c d" and "s_deployments s (utilities b) = None"
  shows "pass op rw (finalizer_fails b e) k s = Some ((no_requeue, Some e), s\<lparr>s_deployments := (s_deployments s)(utilities b \<mapsto> d)\<rparr>)"
proof -
  let ?f = "finalizer_fails b e"
  have ops: "\<not> bo_ContainsFinalizer op b backupFinalizer" "bo_AddFinalizer op b backupFinalizer = finalized b"
    using assms(1,5) by (simp_all add: documented_finalizers_def finalized_def)
  have cluster: "s_clusters s (rb_Namespace b, bk_RedisClusterName (rb_Spec b)) = Some c"
    using assms(6) by (simp add: ready_def utilities_def)
  have fails: "answer ?f (KUpdate (OBackup (finalized b))) t = Some e" for t by (simp add: answer_def finalizer_fails_def)
  then have "attempt ?f (KUpdate (OBackup (finalized b))) t = t" for t by (simp add: attempt_def)
  then show ?thesis
    using assms(2,4) cluster fails
    by (simp add: pass_refines_store pass_store_def found_def Let_def ops util_store_finalizer_fails util_store_ready(1) [OF assms(6,7)])
qed

section \<open>Properties\<close>

text \<open>
  C13: one pass of the backup controller against the API server, with its reads, its writes and any of them failing, is one
  step of the automaton \<open>life\<close> for its backup, unless a read falsely denies that the backup exists; no other backup, no
  utilities of another cluster and nothing else of the store changes.
\<close>

theorem pass_simulates:
  assumes "documented_finalizers op" and "reachable op s" and "s_backups s k = Some b"
    and "pass op rw f k s = Some (res, t)" and "f (KGet KBackup (fst k) (snd k)) \<noteq> Some not_found"
  shows "life (phase_of k s, served_by (utilities b) s) (snd res = None) (phase_of k t, served_by (utilities b) t) \<and>
    (\<forall>j. j \<noteq> k \<longrightarrow> s_backups t j = s_backups s j) \<and> (\<forall>u. u \<noteq> utilities b \<longrightarrow> s_deployments t u = s_deployments s u) \<and>
    s_clusters t = s_clusters s \<and> s_sets t = s_sets s \<and> s_secrets t = s_secrets s"
proof -
  have ok: "store_ok s" by (rule reachable_store_ok [OF assms(2,1)])
  have b: "backup_key b = k" "rb_DeletionTimestamp b \<noteq> None \<Longrightarrow> backupFinalizer \<in> set (rb_Finalizers b)" "rb_Finalizers (unfinalized b) = []"
    using store_okD(2) [OF ok assms(3)] by (auto simp: backup_ok_def unfinalized_def filter_empty_conv)
  have "pass_store op f k s = Some (res, t)" using assms(4) by (simp add: pass_refines_store)
  then show ?thesis
    using assms(1)
  proof (cases rule: pass_cases)
    case unchanged
    have "life (phase_of k s, d) (snd res = None) (phase_of k s, d)" for d
      using unchanged(2) assms(3,5) b(2) by (cases "snd res") (auto simp: phase_of_def intro: life.intros)
    with unchanged(1) show ?thesis by simp
  next
    case (deletes c d u)
    then have c: "c = b" using assms(3) by simp
    have "deployment_key d = utilities b" "(fst k, bk_RedisClusterName (rb_Spec b)) = utilities b"
      using store_okD(1) [OF ok deletes(4)] c b(1) by (auto simp: built_for_def utilities_def backup_key_def)
    then have s: "phase_of k s = Marked" "served_by (utilities b) s" and u: "\<not> served_by (utilities b) u" "phase_of k u = Marked"
      using deletes(1,2,4,5) c by (auto simp: phase_of_def served_by_def)
    show ?thesis
    proof (cases "snd res")
      case None
      then have t: "t = put_backup (unfinalized b) u" using deletes(7) c by simp
      then have "phase_of k t = Absent" "\<not> served_by (utilities b) t"
        using phase_of_put(2) [OF b(1) _ b(3)] deletes(2) c u(1) by (simp_all add: served_by_def)
      with s u None have "life (phase_of k s, served_by (utilities b) s) (snd res = None) (phase_of k t, served_by (utilities b) t)"
        by (simp add: life.ends)
      then show ?thesis
        using t deletes(5) \<open>deployment_key d = utilities b\<close> b(1) by (auto simp: put_backup_def)
    next
      case (Some e)
      then have "t = u" using deletes(7) by simp
      with s u Some show ?thesis
        using deletes(5) \<open>deployment_key d = utilities b\<close> by (auto simp: life.held)
    qed
  next
    case (keeps c u)
    then have c: "c = b" using assms(3) by simp
    have u: "s_backups u = s_backups s" "\<And>v. v \<noteq> utilities b \<Longrightarrow> s_deployments u v = s_deployments s v"
      "s_clusters u = s_clusters s" "s_sets u = s_sets s" "s_secrets u = s_secrets s" "u = s \<or> served_by (utilities b) u"
      using keeps(3) c by (auto simp: served_by_def)
    have frame: "(\<forall>j. j \<noteq> k \<longrightarrow> s_backups t j = s_backups s j) \<and> (\<forall>v. v \<noteq> utilities b \<longrightarrow> s_deployments t v = s_deployments s v) \<and>
        s_clusters t = s_clusters s \<and> s_sets t = s_sets s \<and> s_secrets t = s_secrets s"
      using keeps(4) c u b(1) by (auto simp: put_backup_def)
    have "served_by (utilities b) t = served_by (utilities b) u" using keeps(4) by (auto simp: served_by_def)
    moreover have "phase_of k u = phase_of k s" by (simp add: phase_of_def u(1))
    moreover have "phase_of k s = (if backupFinalizer \<in> set (rb_Finalizers b) then Kept else Fresh)"
      using keeps(2) c assms(3) by (simp add: phase_of_def)
    moreover have "phase_of k (put_backup (finalized b) u) = Kept" using phase_of_put(1) [OF b(1)] keeps(2) c by simp
    moreover have "served_by (utilities b) s \<longrightarrow> served_by (utilities b) u" using u(6) by auto
    ultimately have "life (phase_of k s, served_by (utilities b) s) (snd res = None) (phase_of k t, served_by (utilities b) t)"
      using keeps(5) c u(6) by (auto simp: life.protects life.serves life.fails life.unprotected split: if_splits)
    with frame show ?thesis by blast
  qed
qed

text \<open>
  C25: in every state the backup controller and its surroundings can reach, whatever fails, a deployment lies under its own name, which is the
  name of a cluster, and is one the code builds for some backup of that cluster; a backup carries no finalizer but the one of the
  controller, and carries that one when it is marked as deleted.
\<close>

theorem reachable_objects:
  assumes "documented_finalizers op" and "reachable op s"
  shows "(\<forall>k d. s_deployments s k = Some d \<longrightarrow> (dp_Namespace d, dp_Name d) = k \<and>
      (\<exists>b c sn. rb_Namespace b = fst k \<and> bk_RedisClusterName (rb_Spec b) = snd k \<and> UtilNewDeploymentForCR b c (snd k) sn = Some d)) \<and>
    (\<forall>k b. s_backups s k = Some b \<longrightarrow> (rb_Namespace b, rb_Name b) = k \<and> set (rb_Finalizers b) \<subseteq> {backupFinalizer} \<and>
      (rb_DeletionTimestamp b \<noteq> None \<longrightarrow> backupFinalizer \<in> set (rb_Finalizers b)))"
proof -
  have ok: "store_ok s" by (rule reachable_store_ok [OF assms(2,1)])
  have "(dp_Namespace d, dp_Name d) = k \<and>
      (\<exists>b c sn. rb_Namespace b = fst k \<and> bk_RedisClusterName (rb_Spec b) = snd k \<and> UtilNewDeploymentForCR b c (snd k) sn = Some d)"
    if "s_deployments s k = Some d" for k d
    using store_okD(1) [OF ok that] by (fastforce simp: built_for_def deployment_key_def utilities_def)
  moreover have "(rb_Namespace b, rb_Name b) = k \<and> set (rb_Finalizers b) \<subseteq> {backupFinalizer} \<and>
      (rb_DeletionTimestamp b \<noteq> None \<longrightarrow> backupFinalizer \<in> set (rb_Finalizers b))" if "s_backups s k = Some b" for k b
    using store_okD(2) [OF ok that] by (simp add: backup_ok_def backup_key_def)
  ultimately show ?thesis by blast
qed

text \<open>
  C11: a backup that carries the finalizer of the controller goes, in whatever way, only in a step that deletes the deployment of the
  utilities of its cluster.
\<close>

theorem finalizer_protects:
  assumes "documented_finalizers op" and "reachable op s" and "step op s t"
    and "s_backups s k = Some b" and "backupFinalizer \<in> set (rb_Finalizers b)" and "s_backups t k = None"
  shows "s_deployments s (rb_Namespace b, bk_RedisClusterName (rb_Spec b)) \<noteq> None \<and>
    s_deployments t (rb_Namespace b, bk_RedisClusterName (rb_Spec b)) = None"
  using removal_deletes [OF reachable_store_ok [OF assms(2,1)] assms(1,3-6)] by (simp add: utilities_def)

text \<open>
  C12: a backup that is marked as deleted while its cluster has no deployment does not go away as long as every backup of the same
  cluster is marked: without a user, no number of passes for any backups and no change of the cluster removes it, and every
  pass for it changes nothing and, if it could read the backup, ends with an error. A backup of the cluster that is not marked would
  have its next pass make the deployment again, and so free the others.
\<close>

theorem deleted_backup_stuck:
  assumes "documented_finalizers op" and "reachable op s" and "s_backups s k = Some b" and "rb_DeletionTimestamp b \<noteq> None"
    and "s_deployments s (utilities b) = None"
    and "\<forall>j c. s_backups s j = Some c \<and> utilities c = utilities b \<longrightarrow> rb_DeletionTimestamp c \<noteq> None"
    and "unattended op s t"
  shows "s_backups t k = Some b \<and> (\<exists>res. pass op rw f k t = Some (res, t) \<and> (f (KGet KBackup (fst k) (snd k)) = None \<longrightarrow> snd res \<noteq> None))"
proof -
  have ok: "store_ok s" by (rule reachable_store_ok [OF assms(2,1)])
  have fin: "backupFinalizer \<in> set (rb_Finalizers b)" and key: "backup_key b = k"
    using store_okD(2) [OF ok assms(3)] assms(4) by (simp_all add: backup_ok_def)
  have "stuck k b s" using assms(3-6) fin unfolding stuck_def by blast
  then have t: "s_backups t k = Some b" "s_deployments t (utilities b) = None"
    using stuck_unattended [OF assms(7,1) ok] stuckD(1,4) by blast+
  have "fst k = rb_Namespace b" "bo_ContainsFinalizer op b backupFinalizer"
    using key fin assms(1) by (auto simp: backup_key_def documented_finalizers_def)
  then show ?thesis
    using t assms(4) by (auto simp: pass_refines_store pass_store_def found_def utilities_def Let_def split: option.splits)
qed

text \<open>
  C10: when nothing fails and the cluster is ready, the first pass for a new backup makes the deployment and adds the finalizer, further
  passes change nothing, and once the backup is deleted one more pass removes the deployment and lets the backup go: the store is as it
  was before the backup was submitted.
\<close>

theorem backup_lifecycle:
  assumes "documented_finalizers op" and "\<And>x. bo_cmp op x x = 0"
    and "s_backups s k = Some b" and "backup_key b = k" and "rb_DeletionTimestamp b = None" and "rb_Finalizers b = []"
    and "ready s b c d" and "s_deployments s (utilities b) = None"
  shows "\<exists>t u. pass op rw no_faults k s = Some ((after 60, None), t) \<and> s_deployments t (utilities b) = Some d \<and>
    pass op rw no_faults k t = Some ((after 60, None), t) \<and>
    step op t u \<and> u = t\<lparr>s_backups := (s_backups t)(k \<mapsto> (finalized b)\<lparr>rb_DeletionTimestamp := Some now\<rparr>)\<rparr> \<and>
    pass op rw no_faults k u = Some ((no_requeue, None), s\<lparr>s_backups := (s_backups s)(k := None)\<rparr>)"
proof -
  let ?s = "s\<lparr>s_deployments := (s_deployments s)(utilities b \<mapsto> d)\<rparr>" and ?b = "finalized b"
  let ?t = "put_backup ?b ?s"
  let ?m = "?b\<lparr>rb_DeletionTimestamp := Some now\<rparr>"
  let ?u = "?t\<lparr>s_backups := (s_backups ?t)(k \<mapsto> ?m)\<rparr>"
  have t: "s_backups ?t k = Some ?b" "s_deployments ?t (utilities b) = Some d"
    using assms(4,5) by (simp_all add: put_backup_def)
  have first: "pass op rw no_faults k s = Some ((after 60, None), ?t)"
    using pass_ready [OF assms(1,3-5,7) util_store_ready(1) [OF assms(7,8)]] assms(6) by simp
  obtain sn where made: "UtilNewDeploymentForCR b c (snd (utilities b)) sn = Some d"
    using assms(7) by (auto simp: ready_def)
  obtain us r where us: "bk_UtilSpec (rb_Spec b) = Some us" "us_Resources us = Some r"
    by (rule UtilNewDeploymentForCR_containers [OF made])
  have same: "rb_Spec ?b = rb_Spec b" by (simp add: finalized_def)
  have "\<not> resources_differ (bo_cmp op) r r" by (rule resources_same) (rule assms(2))
  then have unchanged: "validateUtilCRandDeploymentSpec (bo_cmp op) ?b d c = Some False"
    using validate_made [OF made us, of ?b us r "bo_cmp op" c] us same by simp
  have "UtilNewDeploymentForCR ?b c n sn = UtilNewDeploymentForCR b c n sn" for n sn
    by (simp add: UtilNewDeploymentForCR_def utilGenerateDeploymentSpec_def utilGeneratePodTemplate_def util_labels_def util_env_def finalized_def)
  then have ready: "ready ?t ?b c d"
    using assms(7) by (simp add: ready_def same) (simp add: finalized_def)
  have "util_store op no_faults ?b c ?t = Some ?t"
    using util_store_ready(2) [OF ready, of d op] t(2) unchanged by simp
  from pass_ready [OF assms(1) t(1) _ _ ready this] have second: "pass op rw no_faults k ?t = Some ((after 60, None), ?t)"
    using assms(4,5) by (simp add: finalized_def backup_key_def)
  have marks: "step op ?t ?u"
    using step.remove [OF t(1), of op now] by (simp add: finalized_def)
  have "utilities ?m = utilities b" "deployment_key d = utilities b" "backup_key ?m = k"
    using UtilNewDeploymentForCR_key [OF made] assms(4) by (simp_all add: utilities_def finalized_def backup_key_def)
  then have last: "pass op rw no_faults k ?u = Some ((no_requeue, None),
      ?u\<lparr>s_deployments := (s_deployments ?u)(utilities b := None), s_backups := (s_backups ?u)(k := None)\<rparr>)"
    using pass_finalizes [OF assms(1), of ?u k ?m d rw] t(2) assms(6) by (simp add: finalized_def)
  have "?u\<lparr>s_deployments := (s_deployments ?u)(utilities b := None), s_backups := (s_backups ?u)(k := None)\<rparr> = s\<lparr>s_backups := (s_backups s)(k := None)\<rparr>"
    using assms(4,5,8) by (auto simp: put_backup_def fun_upd_idem)
  with first second marks last t(2) show ?thesis by (intro exI [of _ ?t] exI [of _ ?u]) simp
qed

section \<open>Examples\<close>

definition real_operator :: backup_operator where
  "real_operator = \<lparr>bo_kube = example_kube, bo_cmp = (\<lambda>x y. if x = y then 0 else 1), bo_now = (\<lambda>_. 0),
     bo_ContainsFinalizer = (\<lambda>b f. f \<in> set (rb_Finalizers b)),
     bo_AddFinalizer = (\<lambda>b f. if f \<in> set (rb_Finalizers b) then b else b\<lparr>rb_Finalizers := rb_Finalizers b @ [f]\<rparr>),
     bo_RemoveFinalizer = (\<lambda>b f. b\<lparr>rb_Finalizers := filter (\<lambda>g. g \<noteq> f) (rb_Finalizers b)\<rparr>)\<rparr>"

lemma real_operator_documented: "documented_finalizers real_operator"
  by (simp add: documented_finalizers_def real_operator_def)

text \<open>A cluster with one ready set, with or without a secret for its administrator, and a backup of it.\<close>

definition served :: "string option \<Rightarrow> DistributedRedisCluster" where
  "served secret = example_drc\<lparr>drc_Spec := example_spec\<lparr>spec_AdminSecret := secret\<rparr>\<rparr>"

definition submitted :: "string option \<Rightarrow> store" where
  "submitted secret = empty_store\<lparr>s_clusters := [(''n'', ''c'') \<mapsto> served secret], s_sets := (\<lambda>k. Some (example_set (snd k))),
     s_secrets := (\<lambda>k. Some (example_secret (snd k))), s_backups := [(''n'', ''b'') \<mapsto> example_backup]\<rparr>"

lemma example_backup_simps [simp]:
  "backup_key example_backup = (''n'', ''b'')" "utilities example_backup = (''n'', ''c'')" "rb_DeletionTimestamp example_backup = None"
  "rb_Finalizers example_backup = []" "rb_Name example_backup = ''b''" "rb_Namespace example_backup = ''n''" "bk_RedisClusterName (rb_Spec example_backup) = ''c''"
  "rb_Finalizers (finalized example_backup) = [backupFinalizer]"
  by (simp_all add: backup_key_def utilities_def example_backup_def finalized_def)

lemma submitted_simps [simp]:
  "s_backups (submitted x) = [(''n'', ''b'') \<mapsto> example_backup]" "s_deployments (submitted x) = Map.empty"
  "s_clusters (submitted x) = [(''n'', ''c'') \<mapsto> served x]"
  by (simp_all add: submitted_def empty_store_def)

lemma reachable_submitted: "reachable op (submitted x)"
proof -
  let ?e = "empty_store\<lparr>s_clusters := [(''n'', ''c'') \<mapsto> served x], s_sets := (\<lambda>k. Some (example_set (snd k))), s_secrets := (\<lambda>k. Some (example_secret (snd k)))\<rparr>"
  have "reachable op ?e"
    by (rule reachable.steps [OF reachable.start step.environment])
  moreover have "step op ?e (?e\<lparr>s_backups := (s_backups ?e)(backup_key example_backup \<mapsto> example_backup)\<rparr>)"
    by (rule step.submit) (simp_all add: empty_store_def)
  ultimately have "reachable op (?e\<lparr>s_backups := (s_backups ?e)(backup_key example_backup \<mapsto> example_backup)\<rparr>)"
    by (rule reachable.steps)
  then show ?thesis by (simp add: submitted_def empty_store_def)
qed

lemma submitted_ready: "\<exists>d. ready (submitted (Some ''s'')) example_backup (served (Some ''s'')) d"
proof -
  obtain d where "UtilNewDeploymentForCR example_backup (served (Some ''s'')) ''c'' ''s'' = Some d" using example_made by blast
  then show ?thesis
    by (intro exI [of _ d]) (simp add: ready_def served_def submitted_def example_drc_def example_spec_def example_set_def)
qed

text \<open>The store after the first pass with the deployment \<open>d\<close>, and the store once the backup was deleted.\<close>

definition deployed :: "Deployment \<Rightarrow> store" where
  "deployed d = put_backup (finalized example_backup) ((submitted (Some ''s''))\<lparr>s_deployments := [(''n'', ''c'') \<mapsto> d]\<rparr>)"

definition marked :: "store \<Rightarrow> store" where
  "marked s = s\<lparr>s_backups := (s_backups s)((''n'', ''b'') \<mapsto> (finalized example_backup)\<lparr>rb_DeletionTimestamp := Some 1\<rparr>)\<rparr>"

lemma reachable_deployed:
  assumes "ready (submitted (Some ''s'')) example_backup (served (Some ''s'')) d"
  shows "reachable real_operator (deployed d)" "s_backups (deployed d) (''n'', ''b'') = Some (finalized example_backup)"
    "s_deployments (deployed d) (''n'', ''c'') = Some d"
proof -
  have "pass real_operator rw no_faults (''n'', ''b'') (submitted (Some ''s'')) = Some ((after 60, None), deployed d)" for rw
    using pass_ready [OF real_operator_documented, of "submitted (Some ''s'')" "(''n'', ''b'')" example_backup, OF _ _ _ assms util_store_ready(1) [OF assms]]
    by (simp add: deployed_def)
  then show "reachable real_operator (deployed d)"
    using reachable.steps [OF reachable_submitted step.pass] by blast
qed (simp_all add: deployed_def put_backup_def)

lemma reachable_marked:
  assumes "reachable op s" and "s_backups s (''n'', ''b'') = Some (finalized example_backup)"
  shows "reachable op (marked s)"
  using reachable.steps [OF assms(1) step.remove [OF assms(2), where t = 1]] by (simp add: marked_def)

theorem pass_simulates_witness:
  "\<exists>s t e. reachable real_operator s \<and> phase_of (''n'', ''b'') s = Marked \<and> served_by (''n'', ''c'') s \<and>
     pass real_operator example_world no_faults (''n'', ''b'') s = Some ((e, None), t) \<and>
     phase_of (''n'', ''b'') t = Absent \<and> \<not> served_by (''n'', ''c'') t"
proof -
  obtain d where d: "ready (submitted (Some ''s'')) example_backup (served (Some ''s'')) d" using submitted_ready by blast
  let ?s = "marked (deployed d)" and ?b = "(finalized example_backup)\<lparr>rb_DeletionTimestamp := Some 1\<rparr>"
  have r: "reachable real_operator ?s" using reachable_marked reachable_deployed(1,2) [OF d] by blast
  have b: "s_backups ?s (''n'', ''b'') = Some ?b" "s_deployments ?s (''n'', ''c'') = Some d"
    using reachable_deployed(3) [OF d] by (simp_all add: marked_def)
  have u: "utilities ?b = (''n'', ''c'')" "backup_key ?b = (''n'', ''b'')"
    by (simp_all add: utilities_def backup_key_def finalized_def)
  have "deployment_key d = (''n'', ''c'')"
    using d UtilNewDeploymentForCR_key by (fastforce simp: ready_def)
  then obtain t where p: "pass real_operator example_world no_faults (''n'', ''b'') ?s = Some ((no_requeue, None), t)"
    using pass_finalizes [OF real_operator_documented b(1), of d example_world] b(2) u by simp
  have m: "phase_of (''n'', ''b'') ?s = Marked" "served_by (''n'', ''c'') ?s"
    using b by (simp_all add: phase_of_def served_by_def)
  from pass_simulates [OF real_operator_documented r b(1) p] u m
  have "life (Marked, True) True (phase_of (''n'', ''b'') t, served_by (''n'', ''c'') t)" by simp
  then have "phase_of (''n'', ''b'') t = Absent" "\<not> served_by (''n'', ''c'') t" by (auto simp: life_Marked_ok)
  with r m p show ?thesis by blast
qed

theorem reachable_objects_witness:
  "\<exists>s d b. reachable real_operator s \<and> s_deployments s (''n'', ''c'') = Some d \<and> s_backups s (''n'', ''b'') = Some b \<and>
     dp_Name d = ''c'' \<and> (\<exists>b c sn. bk_RedisClusterName (rb_Spec b) = ''c'' \<and> UtilNewDeploymentForCR b c ''c'' sn = Some d) \<and>
     rb_DeletionTimestamp b \<noteq> None \<and> backupFinalizer \<in> set (rb_Finalizers b)"
proof -
  obtain d where d: "ready (submitted (Some ''s'')) example_backup (served (Some ''s'')) d" using submitted_ready by blast
  let ?s = "marked (deployed d)"
  have r: "reachable real_operator ?s" using reachable_marked reachable_deployed(1,2) [OF d] by blast
  obtain b where b: "s_backups ?s (''n'', ''b'') = Some b" "rb_DeletionTimestamp b \<noteq> None" by (auto simp: marked_def)
  have "s_deployments ?s (''n'', ''c'') = Some d" using reachable_deployed(3) [OF d] by (simp add: marked_def)
  with reachable_objects [OF real_operator_documented r] b r show ?thesis by fastforce
qed

theorem finalizer_protects_witness:
  "\<exists>s t b. reachable real_operator s \<and> step real_operator s t \<and> s_backups s (''n'', ''b'') = Some b \<and> s_backups t (''n'', ''b'') = None \<and>
     s_deployments s (''n'', ''c'') \<noteq> None \<and> s_deployments t (''n'', ''c'') = None"
proof -
  obtain d where d: "ready (submitted (Some ''s'')) example_backup (served (Some ''s'')) d" using submitted_ready by blast
  let ?s = "marked (deployed d)" and ?b = "(finalized example_backup)\<lparr>rb_DeletionTimestamp := Some 1\<rparr>"
  let ?t = "?s\<lparr>s_deployments := (s_deployments ?s)((''n'', ''c'') := None), s_backups := (s_backups ?s)((''n'', ''b'') := None)\<rparr>"
  have r: "reachable real_operator ?s" using reachable_marked reachable_deployed(1,2) [OF d] by blast
  have b: "s_backups ?s (''n'', ''b'') = Some ?b" "s_deployments ?s (''n'', ''c'') = Some d"
    using reachable_deployed(3) [OF d] by (simp_all add: marked_def)
  have u: "utilities ?b = (''n'', ''c'')" "backup_key ?b = (''n'', ''b'')" "rb_Namespace ?b = ''n''" "bk_RedisClusterName (rb_Spec ?b) = ''c''"
    by (simp_all add: utilities_def backup_key_def finalized_def)
  have "deployment_key d = (''n'', ''c'')"
    using d UtilNewDeploymentForCR_key by (fastforce simp: ready_def)
  then have "pass real_operator rw no_faults (''n'', ''b'') ?s = Some ((no_requeue, None), ?t)" for rw
    using pass_finalizes [OF real_operator_documented b(1), of d rw] b(2) u by simp
  then have step: "step real_operator ?s ?t" by (rule step.pass)
  have "s_deployments ?s (rb_Namespace ?b, bk_RedisClusterName (rb_Spec ?b)) \<noteq> None \<and>
      s_deployments ?t (rb_Namespace ?b, bk_RedisClusterName (rb_Spec ?b)) = None"
    by (rule finalizer_protects [OF real_operator_documented r step b(1)]) simp_all
  with r step b u show ?thesis by (intro exI [of _ ?s] exI [of _ ?t] exI [of _ ?b]) simp
qed

theorem backup_lifecycle_witness:
  "\<exists>t d. pass real_operator example_world no_faults (''n'', ''b'') (submitted (Some ''s'')) = Some ((after 60, None), t) \<and> s_deployments t (''n'', ''c'') = Some d \<and>
     pass real_operator example_world no_faults (''n'', ''b'') t = Some ((after 60, None), t)"
proof -
  obtain d where d: "ready (submitted (Some ''s'')) example_backup (served (Some ''s'')) d" using submitted_ready by blast
  have "bo_cmp real_operator x x = 0" for x by (simp add: real_operator_def)
  from backup_lifecycle [OF real_operator_documented this _ _ _ _ d, of "(''n'', ''b'')" example_world 0] show ?thesis by auto
qed

text \<open>Without a secret for the administrator the first pass makes no deployment, but adds the finalizer.\<close>

definition undeployed :: store where
  "undeployed = put_backup (finalized example_backup) (submitted None)"

lemma reachable_undeployed:
  "reachable real_operator undeployed" "s_backups undeployed (''n'', ''b'') = Some (finalized example_backup)"
  "s_deployments undeployed (''n'', ''c'') = None" "s_backups undeployed k = Some c \<longleftrightarrow> k = (''n'', ''b'') \<and> c = finalized example_backup"
proof -
  have "bo_AddFinalizer real_operator example_backup backupFinalizer = finalized example_backup"
    "\<not> bo_ContainsFinalizer real_operator example_backup backupFinalizer"
    by (simp_all add: real_operator_def finalized_def)
  then have "pass real_operator rw no_faults (''n'', ''b'') (submitted None) = Some ((after 60, None), undeployed)" for rw
    by (simp add: pass_refines_store pass_store_def found_no_faults util_store_def served_def Let_def attempt_no_faults undeployed_def)
  then show "reachable real_operator undeployed"
    using reachable.steps [OF reachable_submitted step.pass] by blast
qed (auto simp: undeployed_def put_backup_def)

theorem deleted_backup_stuck_witness:
  "\<exists>s t b res. reachable real_operator s \<and> unattended real_operator s t \<and> s_clusters t = Map.empty \<and> s_backups t (''n'', ''b'') = Some b \<and>
     rb_DeletionTimestamp b \<noteq> None \<and> pass real_operator example_world no_faults (''n'', ''b'') t = Some (res, t) \<and> snd res \<noteq> None"
proof -
  let ?b = "(finalized example_backup)\<lparr>rb_DeletionTimestamp := Some 1\<rparr>" and ?s = "marked undeployed"
  let ?t = "?s\<lparr>s_clusters := Map.empty, s_sets := s_sets ?s, s_secrets := s_secrets ?s\<rparr>"
  have r: "reachable real_operator ?s" using reachable_marked reachable_undeployed(1,2) by blast
  have u: "unattended real_operator ?s ?t" by (rule unattended.changes [OF unattended.here])
  have key: "utilities ?b = (''n'', ''c'')" by (simp add: utilities_def finalized_def)
  have only: "\<forall>j c. s_backups ?s j = Some c \<and> utilities c = utilities ?b \<longrightarrow> rb_DeletionTimestamp c \<noteq> None"
    using reachable_undeployed(4) by (auto simp: marked_def)
  have b: "s_backups ?s (''n'', ''b'') = Some ?b" "rb_DeletionTimestamp ?b \<noteq> None" "s_deployments ?s (utilities ?b) = None"
    using reachable_undeployed(3) unfolding key by (simp_all add: marked_def)
  have "s_backups ?t (''n'', ''b'') = Some ?b \<and> (\<exists>res. pass real_operator example_world no_faults (''n'', ''b'') ?t = Some (res, ?t) \<and>
      (no_faults (KGet KBackup (fst (''n'', ''b'')) (snd (''n'', ''b''))) = None \<longrightarrow> snd res \<noteq> None))"
    by (rule deleted_backup_stuck [OF real_operator_documented r b only u])
  then obtain res where "pass real_operator example_world no_faults (''n'', ''b'') ?t = Some (res, ?t)" "snd res \<noteq> None" "s_backups ?t (''n'', ''b'') = Some ?b"
    by auto
  with r u b(2) show ?thesis by (intro exI [of _ ?s] exI [of _ ?t] exI [of _ ?b] exI [of _ res]) simp
qed

text \<open>
  C26: a deployment can outlive its backup. The first pass for a new backup of a ready cluster makes the deployment before it adds
  the finalizer. When that update fails, the pass ends with its error, the deployment stays and the backup has no
  finalizer, so that a user who deletes it takes it out of the store at once; if the cluster has no other backup, no number of
  passes and no change of the cluster removes the deployment after that.
\<close>

theorem deployment_leaks:
  assumes "documented_finalizers op" and "reachable op s" and "s_backups s k = Some b" and "rb_DeletionTimestamp b = None"
    and "rb_Finalizers b = []" and "ready s b c d" and "s_deployments s (utilities b) = None"
    and "\<forall>j c. s_backups s j = Some c \<and> utilities c = utilities b \<longrightarrow> j = k"
  shows "\<exists>t u. pass op rw (finalizer_fails b e) k s = Some ((no_requeue, Some e), t) \<and> s_backups t = s_backups s \<and>
    s_deployments t (utilities b) = Some d \<and> step op t u \<and> u = t\<lparr>s_backups := (s_backups t)(k := None)\<rparr> \<and>
    (\<forall>v. unattended op u v \<longrightarrow> s_deployments v (utilities b) = Some d)"
proof -
  have ok: "store_ok s" by (rule reachable_store_ok [OF assms(2,1)])
  then have key: "backup_key b = k" using store_okD(2) [OF _ assms(3)] by (simp add: backup_ok_def)
  let ?t = "s\<lparr>s_deployments := (s_deployments s)(utilities b \<mapsto> d)\<rparr>"
  let ?u = "?t\<lparr>s_backups := (s_backups ?t)(k := None)\<rparr>"
  have p: "pass op rw (finalizer_fails b e) k s = Some ((no_requeue, Some e), ?t)"
    by (rule pass_unprotected [OF assms(1,3) key assms(4-7)])
  have r: "step op ?t ?u" using step.remove [of ?t k b op] assms(3,5) by simp
  have "store_ok ?u"
    by (rule store_ok_step [OF r assms(1)], rule store_ok_step [OF step.pass [OF p] assms(1) ok])
  moreover have "unclaimed (utilities b) d ?u"
    using assms(8) by (auto simp: unclaimed_def simp del: split_paired_All)
  ultimately have "\<forall>v. unattended op ?u v \<longrightarrow> s_deployments v (utilities b) = Some d"
    using unclaimed_unattended [OF _ assms(1)] unfolding unclaimed_def by blast
  with p r show ?thesis by (intro exI [of _ ?t] exI [of _ ?u]) simp
qed

theorem deployment_leaks_witness:
  "\<exists>s t u d e. reachable real_operator s \<and> pass real_operator example_world (finalizer_fails example_backup e) (''n'', ''b'') s = Some ((no_requeue, Some e), t) \<and>
     step real_operator t u \<and> s_backups u = Map.empty \<and> s_deployments u (''n'', ''c'') = Some d"
proof -
  obtain d where d: "ready (submitted (Some ''s'')) example_backup (served (Some ''s'')) d" using submitted_ready by blast
  let ?s = "submitted (Some ''s'')" and ?e = "Errorf ''conflict'' []"
  have b: "s_backups ?s (''n'', ''b'') = Some example_backup" "\<forall>j c. s_backups ?s j = Some c \<and> utilities c = utilities example_backup \<longrightarrow> j = (''n'', ''b'')"
    "s_deployments ?s (utilities example_backup) = None"
    by (auto split: if_splits)
  obtain t u where t: "pass real_operator example_world (finalizer_fails example_backup ?e) (''n'', ''b'') ?s = Some ((no_requeue, Some ?e), t)"
      "s_backups t = s_backups ?s" "step real_operator t u" "u = t\<lparr>s_backups := (s_backups t)((''n'', ''b'') := None)\<rparr>"
      "s_deployments t (utilities example_backup) = Some d"
    using deployment_leaks [OF real_operator_documented reachable_submitted b(1) _ _ d b(3,2), of example_world ?e] by auto
  then have "s_backups u = Map.empty" "s_deployments u (''n'', ''c'') = Some d" by auto
  with t(1,3) reachable_submitted show ?thesis by blast
qed

end
