(* ===== verification/Scaling.thy ===== *)
theory Scaling
  imports Pod_Updates
begin

text \<open>
  Scaling down (\<^verbatim>\<open>scalingDown\<close> of \<^verbatim>\<open>sync_handler.go\<close>, modelled in \<open>Sync_Handler\<close>): what it deletes, and that it deletes nothing
  of a set with a node that still owns slots.
\<close>

section \<open>The redis side leaves the nodes alone\<close>

lemma AttachNodeToCluster_loop_heap [simp]: "w_heap (snd (AttachNodeToCluster_loop env addr a b cs w)) = w_heap w"
  by (induction cs arbitrary: w) (simp_all add: case_prod_unfold Let_def)

lemma AttachNodeToCluster_heap [simp]: "w_heap (snd (AttachNodeToCluster env addr w)) = w_heap w"
  by (simp add: AttachNodeToCluster_def case_prod_unfold)

lemma DetachSlave_heap [simp]: "w_heap (snd (snd (DetachSlave env n w))) = w_heap w"
  by (simp add: DetachSlave_def case_prod_unfold Let_def)




lemma remove_set_heap [simp]: "w_heap (remove_set name N i w) = w_heap w"
proof -
  have "w_heap (foldl (\<lambda>w node. cnx_Remove (IPPort (w_heap w node)) w) w ns) = w_heap w" for ns
    by (induction ns arbitrary: w) simp_all
  then show ?thesis by (simp add: remove_set_def)
qed

lemma remove_sets_heap [simp]: "w_heap (foldl (\<lambda>w i. remove_set name N i w) w is) = w_heap w"
  by (induction "is" arbitrary: w) simp_all

section \<open>What is deleted\<close>


text \<open>
  A volume claim that the API server listed for the labels of a set, and a call that does not touch the objects of sets but
  those of the set with index \<open>i\<close>.
\<close>

definition listed_claim :: "kube \<Rightarrow> string \<Rightarrow> (string \<rightharpoonup> string) \<Rightarrow> string \<Rightarrow> bool" where
  "listed_claim k ns labels name \<longleftrightarrow> (\<exists>h pvcs. k_list_pvcs k h ns labels = Inr pvcs \<and> name \<in> set pvcs)"

definition set_was_read :: "kube \<Rightarrow> string \<Rightarrow> string \<Rightarrow> StatefulSet \<Rightarrow> bool" where
  "set_was_read k ns name sts \<longleftrightarrow> (\<exists>h. k_get_set k h ns name = Inr sts)"

definition of_set :: "kube \<Rightarrow> DistributedRedisCluster \<Rightarrow> int \<Rightarrow> kcall \<Rightarrow> bool" where
  "of_set k cluster i c \<longleftrightarrow>
     (case c of
        KDelete kind ns name \<Rightarrow> ns = drc_Namespace cluster \<and>
          (kind = KService \<and> name = ClusterHeadlessSvcName (drc_Name cluster) i \<or>
           (kind = KStatefulSet \<or> kind = KPodDisruptionBudget) \<and> name = ClusterStatefulSetName (drc_Name cluster) i)
      | KDeletePvc ns name \<Rightarrow> ns = drc_Namespace cluster \<and>
          (\<exists>sts. set_was_read k ns (ClusterStatefulSetName (drc_Name cluster) i) sts \<and> listed_claim k ns (ss_Labels sts) name)
      | KDeletePod _ _ \<Rightarrow> False | KUpdatePod _ \<Rightarrow> False | KCreate _ \<Rightarrow> False | KUpdate _ \<Rightarrow> False
      | KUpdateCR _ \<Rightarrow> False | KUpdateStatus _ \<Rightarrow> False | KUpdateBackupStatus _ \<Rightarrow> False
      | _ \<Rightarrow> True)"

lemma of_set_simps [simp]:
  "of_set k cluster i (KGet kd ns n)" "of_set k cluster i (KListPods ns ls)" "of_set k cluster i (KListPvcs ns ls)"
  "of_set k cluster i (KDeletePvc ns n) = (ns = drc_Namespace cluster \<and>
     (\<exists>sts. set_was_read k ns (ClusterStatefulSetName (drc_Name cluster) i) sts \<and> listed_claim k ns (ss_Labels sts) n))"
  "of_set k cluster i (KDelete KStatefulSet ns n) = (ns = drc_Namespace cluster \<and> n = ClusterStatefulSetName (drc_Name cluster) i)"
  "of_set k cluster i (KDelete KPodDisruptionBudget ns n) = (ns = drc_Namespace cluster \<and> n = ClusterStatefulSetName (drc_Name cluster) i)"
  "of_set k cluster i (KDelete KService ns n) = (ns = drc_Namespace cluster \<and> n = ClusterHeadlessSvcName (drc_Name cluster) i)"
  by (simp_all add: of_set_def)








end
