(* ===== verification/Storage.thy ===== *)
theory Storage
  imports Kube
begin

text \<open>
  Access to the stores of backups (\<^verbatim>\<open>osm/osm.go\<close>, \<^verbatim>\<open>osm/rclone.go\<close>): the configuration of the object store library for each kind of
  backend, the check that a bucket can be written, and the secret with the configuration of rclone. The backend is a type of another
  package; its fields that the code reads make up \<open>Backend\<close>.
\<close>

section \<open>Parameters\<close>

text \<open>
  The names of the keys of a secret, of the kinds of stores and of the keys of a configuration come from other packages:
  \<open>lib_key\<close> and \<open>lib_name\<close> give their values.
\<close>

datatype osm_key =
    AWS_ACCESS_KEY_ID | AWS_SECRET_ACCESS_KEY | CA_CERT_DATA | GOOGLE_PROJECT_ID | GOOGLE_SERVICE_ACCOUNT_JSON_KEY
  | AZURE_ACCOUNT_NAME | AZURE_ACCOUNT_KEY
  | OS_USERNAME | OS_PASSWORD | OS_REGION_NAME | OS_AUTH_URL | OS_USER_DOMAIN_NAME | OS_PROJECT_NAME | OS_PROJECT_DOMAIN_NAME
  | OS_TENANT_ID | OS_TENANT_NAME | ST_AUTH | ST_USER | ST_KEY | OS_STORAGE_URL | OS_AUTH_TOKEN

datatype osm_name =
    S3_Kind | S3_ConfigAccessKeyID | S3_ConfigSecretKey | S3_ConfigAuthType | S3_ConfigRegion | S3_ConfigEndpoint
  | S3_ConfigDisableSSL | S3_ConfigCACertData
  | GCS_Kind | GCS_ConfigProjectId | GCS_ConfigJSON | Azure_Kind | Azure_ConfigAccount | Azure_ConfigKey
  | Local_Kind | Local_ConfigKeyPath
  | Swift_Kind | Swift_ConfigUsername | Swift_ConfigKey | Swift_ConfigRegion | Swift_ConfigTenantAuthURL | Swift_ConfigDomain
  | Swift_ConfigTenantName | Swift_ConfigTenantDomain | Swift_ConfigTenantId | Swift_ConfigStorageURL | Swift_ConfigAuthToken

record S3Spec =
  s3_Endpoint :: string
  s3_Bucket :: string

record Backend =
  be_StorageSecretName :: string
  be_S3 :: "S3Spec option"
  be_GCS :: bool
  be_Azure :: bool
  be_Local :: "string option"
  be_Swift :: bool

type_synonym config_map = "string \<rightharpoonup> string"

text \<open>
  \<open>lib_session\<close> opens a session with a key pair or without, \<open>lib_location\<close> asks it for the location of a bucket, and \<open>lib_region\<close>
  is \<^verbatim>\<open>stringz.Val(types.String(p), "us-east-1")\<close>. \<open>lib_Config\<close> looks a key up in a configuration, \<open>lib_scheme\<close> parses a URL.
  The last six are the library of the stores and the methods of a backend.
\<close>

record osm_library =
  lib_key :: "osm_key \<Rightarrow> string"
  lib_name :: "osm_name \<Rightarrow> string"
  lib_session :: "(string \<times> string) option \<Rightarrow> err option"
  lib_location :: "(string \<times> string) option \<Rightarrow> string \<Rightarrow> err + string option"
  lib_region :: "string option \<Rightarrow> string"
  lib_scheme :: "string \<Rightarrow> err + string"
  lib_Config :: "config_map \<Rightarrow> string \<Rightarrow> string option"
  lib_Container :: "Backend \<Rightarrow> err + string"
  lib_Provider :: "Backend \<Rightarrow> err + string"
  lib_dial :: "string \<Rightarrow> config_map \<Rightarrow> err option"
  lib_open :: "string \<Rightarrow> config_map \<Rightarrow> string \<Rightarrow> err option"
  lib_write_access :: "string \<Rightarrow> config_map \<Rightarrow> string \<Rightarrow> err option"

definition SecretMountPath :: string where "SecretMountPath = ''/etc/rclone''"
definition CaCertFileName :: string where "CaCertFileName = ''ca.crt''"

section \<open>The context of the object store\<close>

record osm_context =
  oc_Name :: string
  oc_Provider :: string
  oc_Config :: config_map

text \<open>A missing key of the secret is read as the empty string.\<close>

definition data_at :: "osm_library \<Rightarrow> config_map \<Rightarrow> osm_key \<Rightarrow> string" where
  "data_at l config k = (case config (lib_key l k) of Some v \<Rightarrow> v | None \<Rightarrow> '''')"

definition storage_secret :: "kube \<Rightarrow> Backend \<Rightarrow> string \<Rightarrow> hworld \<Rightarrow> (err + config_map) \<times> hworld" where
  "storage_secret k spec namespace w =
     (if be_StorageSecretName spec \<noteq> '''' then
        (case GetSecret k namespace (be_StorageSecretName spec) w of
           (Inl err, w) \<Rightarrow> (Inl err, w)
         | (Inr secret, w) \<Rightarrow> (Inr (sec_Data secret), w))
      else (Inr Map.empty, w))"

definition s3_keys :: "osm_library \<Rightarrow> config_map \<Rightarrow> (string \<times> string) option" where
  "s3_keys l config =
     (case (config (lib_key l AWS_ACCESS_KEY_ID), config (lib_key l AWS_SECRET_ACCESS_KEY)) of
        (Some keyID, Some key) \<Rightarrow> Some (keyID, key)
      | _ \<Rightarrow> None)"

text \<open>Without the two keys the session is opened with the credentials of the machine.\<close>

definition s3_context :: "osm_library \<Rightarrow> config_map \<Rightarrow> S3Spec \<Rightarrow> err + osm_context" where
  "s3_context l config s3 =
     (let keys = s3_keys l config; n = lib_name l;
          conf = (case keys of
                    Some (keyID, key) \<Rightarrow> [n S3_ConfigAccessKeyID \<mapsto> keyID, n S3_ConfigSecretKey \<mapsto> key, n S3_ConfigAuthType \<mapsto> ''accesskey'']
                  | None \<Rightarrow> [n S3_ConfigAuthType \<mapsto> ''iam'']);
          result = (\<lambda>conf. Inr \<lparr>oc_Name = ''objectstore'', oc_Provider = n S3_Kind, oc_Config = conf\<rparr>)
      in if s3_Endpoint s3 = '''' \<or> HasSuffix (s3_Endpoint s3) ''.amazonaws.com'' then
           (case lib_session l keys of
              Some err \<Rightarrow> Inl err
            | None \<Rightarrow>
                (case lib_location l keys (s3_Bucket s3) of
                   Inl err \<Rightarrow> Inl err
                 | Inr location \<Rightarrow> result (conf(n S3_ConfigRegion \<mapsto> lib_region l location))))
         else
           let conf = conf(n S3_ConfigEndpoint \<mapsto> s3_Endpoint s3) in
           (case lib_scheme l (s3_Endpoint s3) of
              Inl err \<Rightarrow> Inl err
            | Inr scheme \<Rightarrow>
                let conf = conf(n S3_ConfigDisableSSL \<mapsto> (if scheme = ''http'' then ''true'' else ''false'')) in
                result (case config (lib_key l CA_CERT_DATA) of
                          Some cacertData \<Rightarrow> if scheme = ''https'' then conf(n S3_ConfigCACertData \<mapsto> cacertData) else conf
                        | None \<Rightarrow> conf)))"

definition swift_rows :: "(osm_name \<times> osm_key) list" where
  "swift_rows =
     [(Swift_ConfigUsername, OS_USERNAME), (Swift_ConfigKey, OS_PASSWORD), (Swift_ConfigRegion, OS_REGION_NAME),
      (Swift_ConfigTenantAuthURL, OS_AUTH_URL),
      (Swift_ConfigDomain, OS_USER_DOMAIN_NAME), (Swift_ConfigTenantName, OS_PROJECT_NAME), (Swift_ConfigTenantDomain, OS_PROJECT_DOMAIN_NAME),
      (Swift_ConfigTenantId, OS_TENANT_ID), (Swift_ConfigTenantName, OS_TENANT_NAME),
      (Swift_ConfigTenantAuthURL, ST_AUTH), (Swift_ConfigUsername, ST_USER), (Swift_ConfigKey, ST_KEY),
      (Swift_ConfigStorageURL, OS_STORAGE_URL), (Swift_ConfigAuthToken, OS_AUTH_TOKEN)]"

fun swift_config :: "osm_library \<Rightarrow> config_map \<Rightarrow> (osm_name \<times> osm_key) list \<Rightarrow> config_map \<Rightarrow> config_map" where
  "swift_config l config [] conf = conf"
| "swift_config l config ((stowKey, secretKey) # rows) conf =
     swift_config l config rows
       (if lib_Config l conf (lib_name l stowKey) = None then conf(lib_name l stowKey \<mapsto> data_at l config secretKey) else conf)"

definition osm_context_of :: "osm_library \<Rightarrow> config_map \<Rightarrow> Backend \<Rightarrow> err + osm_context" where
  "osm_context_of l config spec =
     (let n = lib_name l; result = (\<lambda>provider conf. Inr \<lparr>oc_Name = ''objectstore'', oc_Provider = n provider, oc_Config = conf\<rparr>) in
      case be_S3 spec of
        Some s3 \<Rightarrow> s3_context l config s3
      | None \<Rightarrow>
          if be_GCS spec then
            result GCS_Kind [n GCS_ConfigProjectId \<mapsto> data_at l config GOOGLE_PROJECT_ID, n GCS_ConfigJSON \<mapsto> data_at l config GOOGLE_SERVICE_ACCOUNT_JSON_KEY]
          else if be_Azure spec then
            result Azure_Kind [n Azure_ConfigAccount \<mapsto> data_at l config AZURE_ACCOUNT_NAME, n Azure_ConfigKey \<mapsto> data_at l config AZURE_ACCOUNT_KEY]
          else (case be_Local spec of
                  Some mountPath \<Rightarrow> result Local_Kind [n Local_ConfigKeyPath \<mapsto> mountPath]
                | None \<Rightarrow>
                    if be_Swift spec then result Swift_Kind (swift_config l config swift_rows Map.empty)
                    else Inl (Errorf ''no storage provider is configured'' [])))"

definition NewOSMContext :: "osm_library \<Rightarrow> kube \<Rightarrow> Backend \<Rightarrow> string \<Rightarrow> hworld \<Rightarrow> (err + osm_context) \<times> hworld" where
  "NewOSMContext l k spec namespace w =
     (case storage_secret k spec namespace w of
        (Inl err, w) \<Rightarrow> (Inl err, w)
      | (Inr config, w) \<Rightarrow> (osm_context_of l config spec, w))"

definition CheckBucketAccess :: "osm_library \<Rightarrow> kube \<Rightarrow> Backend \<Rightarrow> string \<Rightarrow> hworld \<Rightarrow> err option \<times> hworld" where
  "CheckBucketAccess l k spec namespace w =
     (case NewOSMContext l k spec namespace w of
        (Inl err, w) \<Rightarrow> (Some err, w)
      | (Inr cfg, w) \<Rightarrow>
          (case lib_dial l (oc_Provider cfg) (oc_Config cfg) of
             Some err \<Rightarrow> (Some err, w)
           | None \<Rightarrow>
               (case lib_Container l spec of
                  Inl err \<Rightarrow> (Some err, w)
                | Inr bucket \<Rightarrow>
                    (case lib_open l (oc_Provider cfg) (oc_Config cfg) bucket of
                       Some err \<Rightarrow> (Some err, w)
                     | None \<Rightarrow> (lib_write_access l (oc_Provider cfg) (oc_Config cfg) bucket, w)))))"

section \<open>The configuration of rclone\<close>

definition line :: "string \<Rightarrow> string" where "line s = s @ [CHR 0x0A]"

definition cephContext :: "osm_library \<Rightarrow> config_map \<Rightarrow> string \<Rightarrow> S3Spec \<Rightarrow> string" where
  "cephContext l config provider s3 =
     (let keyID = data_at l config AWS_ACCESS_KEY_ID; key = data_at l config AWS_SECRET_ACCESS_KEY in
      line (''['' @ provider @ '']'') @ line ''type = s3'' @ line ''provider = Ceph'' @ line ''env_auth = false'' @
      line (''access_key_id = '' @ keyID) @ line (''secret_access_key = '' @ key) @ line ''region ='' @
      line (''endpoint = '' @ s3_Endpoint s3) @ line ''location_constraint ='' @ line ''acl ='' @
      line ''server_side_encryption ='' @ line ''storage_class ='')"

definition localContext :: "string \<Rightarrow> string" where
  "localContext provider = line (''['' @ provider @ '']'') @ line ''type = local''"

definition newContext :: "osm_library \<Rightarrow> kube \<Rightarrow> Backend \<Rightarrow> string \<Rightarrow> hworld \<Rightarrow> (err + string) \<times> hworld" where
  "newContext l k spec namespace w =
     (case storage_secret k spec namespace w of
        (Inl err, w) \<Rightarrow> (Inl err, w)
      | (Inr config, w) \<Rightarrow>
          (case lib_Provider l spec of
             Inl err \<Rightarrow> (Inl err, w)
           | Inr provider \<Rightarrow>
               (case be_S3 spec of
                  Some s3 \<Rightarrow> (Inr (cephContext l config provider s3), w)
                | None \<Rightarrow>
                    if be_Local spec \<noteq> None then (Inr (localContext provider), w)
                    else (Inl (Errorf ''no storage provider is configured'' []), w))))"

definition NewRcloneSecret ::
    "osm_library \<Rightarrow> kube \<Rightarrow> string \<Rightarrow> string \<Rightarrow> Backend \<Rightarrow> (string \<times> string) list \<Rightarrow> hworld \<Rightarrow> (err + Secret) \<times> hworld" where
  "NewRcloneSecret l k name namespace spec ownerReference w =
     (case newContext l k spec namespace w of
        (Inl err, w) \<Rightarrow> (Inl err, w)
      | (Inr rcloneCtx, w) \<Rightarrow>
          (Inr \<lparr>sec_Name = name, sec_Namespace = namespace, sec_OwnerReferences = ownerReference,
             sec_Data = [''config'' \<mapsto> rcloneCtx], sec_ResourceVersion = ''''\<rparr>, w))"

section \<open>Properties\<close>

lemma map_of_renamed:
  assumes "inj_on f (set (map fst rows))" and "x \<in> set (map fst rows)"
  shows "map_of (map (\<lambda>(s, d). (f s, d)) rows) (f x) = map_of rows x"
  using assms
proof (induction rows)
  case (Cons row rows)
  have "f (fst row) = f x \<longleftrightarrow> fst row = x"
    using Cons.prems by (auto dest: inj_onD)
  then show ?case
    using Cons by (cases "fst row = x") (auto simp: split_beta)
qed simp

lemma swift_config_first:
  assumes "\<And>c k. lib_Config l c k = c k"
  shows "swift_config l config rows conf k =
    (case conf k of Some v \<Rightarrow> Some v | None \<Rightarrow> map_option (data_at l config) (map_of (map (\<lambda>(s, d). (lib_name l s, d)) rows) k))"
  by (induction rows arbitrary: conf) (auto simp: assms split: option.split)

text \<open>
  C28: for a Swift backend every key takes the value of the first row of the table that names it, an empty string if the secret lacks that
  row's key: the variables of version 1 (\<^verbatim>\<open>ST_AUTH\<close>, \<^verbatim>\<open>ST_USER\<close>, \<^verbatim>\<open>ST_KEY\<close>) and the tenant name of version 2 are never read, so
  two secrets that differ only in them give the same configuration.
\<close>

theorem swift_fallback_unused:
  assumes "\<And>c k. lib_Config l c k = c k" and "inj_on (lib_name l) (set (map fst swift_rows))"
    and "be_S3 spec = None" and "\<not> be_GCS spec" and "\<not> be_Azure spec" and "be_Local spec = None" and "be_Swift spec"
    and "\<And>k. k \<notin> {ST_AUTH, ST_USER, ST_KEY, OS_TENANT_NAME} \<Longrightarrow> config (lib_key l k) = config' (lib_key l k)"
  shows "osm_context_of l config spec = osm_context_of l config' spec \<and>
    (\<exists>c. osm_context_of l config spec = Inr c \<and> oc_Config c (lib_name l Swift_ConfigUsername) = Some (data_at l config OS_USERNAME) \<and>
       oc_Config c (lib_name l Swift_ConfigKey) = Some (data_at l config OS_PASSWORD) \<and>
       oc_Config c (lib_name l Swift_ConfigTenantAuthURL) = Some (data_at l config OS_AUTH_URL) \<and>
       oc_Config c (lib_name l Swift_ConfigTenantName) = Some (data_at l config OS_PROJECT_NAME))"
proof -
  have at_name: "map_of (map (\<lambda>(s, d). (lib_name l s, d)) swift_rows) (lib_name l x) = map_of swift_rows x"
    if "x \<in> set (map fst swift_rows)" for x
    using map_of_renamed [OF assms(2) that] .
  have rows: "map_of swift_rows Swift_ConfigUsername = Some OS_USERNAME" "map_of swift_rows Swift_ConfigKey = Some OS_PASSWORD"
      "map_of swift_rows Swift_ConfigTenantAuthURL = Some OS_AUTH_URL" "map_of swift_rows Swift_ConfigTenantName = Some OS_PROJECT_NAME"
    by (simp_all add: swift_rows_def)
  have data: "data_at l config k = data_at l config' k" if "k \<notin> {ST_AUTH, ST_USER, ST_KEY, OS_TENANT_NAME}" for k
    using assms(8) [OF that] by (simp add: data_at_def)
  have first: "swift_config l c swift_rows Map.empty k = map_option (data_at l c) (map_of (map (\<lambda>(s, d). (lib_name l s, d)) swift_rows) k)" for c k
    by (simp add: swift_config_first [OF assms(1)])
  have "swift_config l config swift_rows Map.empty k = swift_config l config' swift_rows Map.empty k" for k
  proof (cases "map_of (map (\<lambda>(s, d). (lib_name l s, d)) swift_rows) k")
    case (Some d)
    then have "d \<notin> {ST_AUTH, ST_USER, ST_KEY, OS_TENANT_NAME}"
      by (simp add: swift_rows_def split: if_split_asm)
    with data Some show ?thesis by (simp add: first)
  qed (simp add: first)
  then have "swift_config l config swift_rows Map.empty = swift_config l config' swift_rows Map.empty" by blast
  moreover have "set (map fst swift_rows) \<supseteq> {Swift_ConfigUsername, Swift_ConfigKey, Swift_ConfigTenantAuthURL, Swift_ConfigTenantName}"
    by (simp add: swift_rows_def)
  ultimately show ?thesis
    using assms(3-7) by (simp add: osm_context_of_def Let_def first at_name rows data)
qed

definition name_index :: "osm_name \<Rightarrow> nat" where
  "name_index k = (case k of
     S3_Kind \<Rightarrow> 0 | S3_ConfigAccessKeyID \<Rightarrow> 1 | S3_ConfigSecretKey \<Rightarrow> 2 | S3_ConfigAuthType \<Rightarrow> 3 | S3_ConfigRegion \<Rightarrow> 4
   | S3_ConfigEndpoint \<Rightarrow> 5 | S3_ConfigDisableSSL \<Rightarrow> 6 | S3_ConfigCACertData \<Rightarrow> 7
   | GCS_Kind \<Rightarrow> 8 | GCS_ConfigProjectId \<Rightarrow> 9 | GCS_ConfigJSON \<Rightarrow> 10 | Azure_Kind \<Rightarrow> 11 | Azure_ConfigAccount \<Rightarrow> 12 | Azure_ConfigKey \<Rightarrow> 13
   | Local_Kind \<Rightarrow> 14 | Local_ConfigKeyPath \<Rightarrow> 15
   | Swift_Kind \<Rightarrow> 16 | Swift_ConfigUsername \<Rightarrow> 17 | Swift_ConfigKey \<Rightarrow> 18 | Swift_ConfigRegion \<Rightarrow> 19 | Swift_ConfigTenantAuthURL \<Rightarrow> 20
   | Swift_ConfigDomain \<Rightarrow> 21 | Swift_ConfigTenantName \<Rightarrow> 22 | Swift_ConfigTenantDomain \<Rightarrow> 23 | Swift_ConfigTenantId \<Rightarrow> 24
   | Swift_ConfigStorageURL \<Rightarrow> 25 | Swift_ConfigAuthToken \<Rightarrow> 26)"

lemma name_of_index:
  "[S3_Kind, S3_ConfigAccessKeyID, S3_ConfigSecretKey, S3_ConfigAuthType, S3_ConfigRegion, S3_ConfigEndpoint, S3_ConfigDisableSSL,
    S3_ConfigCACertData, GCS_Kind, GCS_ConfigProjectId, GCS_ConfigJSON, Azure_Kind, Azure_ConfigAccount, Azure_ConfigKey, Local_Kind,
    Local_ConfigKeyPath, Swift_Kind, Swift_ConfigUsername, Swift_ConfigKey, Swift_ConfigRegion, Swift_ConfigTenantAuthURL,
    Swift_ConfigDomain, Swift_ConfigTenantName, Swift_ConfigTenantDomain, Swift_ConfigTenantId, Swift_ConfigStorageURL,
    Swift_ConfigAuthToken] ! name_index k = k"
  by (cases k) (simp_all add: name_index_def)

definition example_library :: osm_library where
  "example_library = \<lparr>lib_key = (\<lambda>k. if k = ST_USER then ''ST_USER'' else ''other''), lib_name = (\<lambda>k. replicate (name_index k) CHR ''x''),
     lib_session = (\<lambda>_. None), lib_location = (\<lambda>_ _. Inr None), lib_region = (\<lambda>_. ''us-east-1''), lib_scheme = (\<lambda>_. Inr ''https''),
     lib_Config = (\<lambda>c k. c k), lib_Container = (\<lambda>_. Inr ''bucket''), lib_Provider = (\<lambda>_. Inr ''swift''),
     lib_dial = (\<lambda>_ _. None), lib_open = (\<lambda>_ _ _. None), lib_write_access = (\<lambda>_ _ _. None)\<rparr>"

definition swift_backend :: Backend where
  "swift_backend = \<lparr>be_StorageSecretName = '''', be_S3 = None, be_GCS = False, be_Azure = False, be_Local = None, be_Swift = True\<rparr>"

theorem swift_fallback_unused_witness:
  "osm_context_of example_library [''ST_USER'' \<mapsto> ''me''] swift_backend = osm_context_of example_library Map.empty swift_backend \<and>
   (\<exists>c. osm_context_of example_library [''ST_USER'' \<mapsto> ''me''] swift_backend = Inr c \<and>
      oc_Config c (lib_name example_library Swift_ConfigUsername) = Some '''')"
proof -
  let ?me = "[''ST_USER'' \<mapsto> ''me'']"
  have names: "inj_on (lib_name example_library) (set (map fst swift_rows))"
  proof (rule inj_onI)
    fix x y assume "lib_name example_library x = lib_name example_library y"
    then have "name_index x = name_index y" by (simp add: example_library_def replicate_eq_replicate)
    then show "x = y" by (metis name_of_index)
  qed
  have lookup: "lib_Config example_library c k = c k" for c k by (simp add: example_library_def)
  have spec: "be_S3 swift_backend = None" "\<not> be_GCS swift_backend" "\<not> be_Azure swift_backend" "be_Local swift_backend = None" "be_Swift swift_backend"
    by (simp_all add: swift_backend_def)
  have same: "?me (lib_key example_library k) = Map.empty (lib_key example_library k)"
    if "k \<notin> {ST_AUTH, ST_USER, ST_KEY, OS_TENANT_NAME}" for k
    using that by (simp add: example_library_def)
  have "data_at example_library ?me OS_USERNAME = ''''" by (simp add: data_at_def example_library_def)
  with swift_fallback_unused [of example_library swift_backend ?me Map.empty, OF lookup names spec same] show ?thesis by metis
qed

end
