(* ===== verification/Startup.thy ===== *)
theory Startup
  imports Common_Utils
begin

text \<open>
  The entry point (\<^verbatim>\<open>main.go\<close>) with the metrics (\<^verbatim>\<open>metrics\<close>), the redis settings of the command line
  (\<^verbatim>\<open>redisconfig\<close>) and the execution of commands in pods (\<^verbatim>\<open>utils/exec\<close>). The steps of \<^verbatim>\<open>main\<close> are recorded
  as events; the libraries it wires together are parameters. The goroutine that serves the metrics runs beside it, and its
  failure ends the process by a panic before or during any later step.
\<close>

section \<open>Settings of redis\<close>

definition DefaultRedisTimeout :: int where "DefaultRedisTimeout = 2000"
definition DefaultClusterNodeTimeout :: int where "DefaultClusterNodeTimeout = 2000"
definition RedisRenameCommandsDefaultPath :: string where "RedisRenameCommandsDefaultPath = ''/etc/secret-volume''"
definition RedisRenameCommandsDefaultFile :: string where "RedisRenameCommandsDefaultFile = ''''"
definition RedisConfigFileDefault :: string where "RedisConfigFileDefault = ''/redis-conf/redis.conf''"
definition RedisServerBinDefault :: string where "RedisServerBinDefault = ''redis-server''"
definition RedisServerPortDefault :: string where "RedisServerPortDefault = ''6379''"
definition RedisMaxMemoryDefault :: "32 word" where "RedisMaxMemoryDefault = 0"
definition RedisMaxMemoryPolicyDefault :: string where "RedisMaxMemoryPolicyDefault = ''noeviction''"

record Redis =
  rd_DialTimeout :: int
  rd_ClusterNodeTimeout :: int
  rd_ConfigFileName :: string
  rd_RenameCommandsPath :: string
  rd_RenameCommandsFile :: string
  rd_HTTPServerAddr :: string
  rd_ServerBin :: string
  rd_ServerPort :: string
  rd_ServerIP :: string
  rd_MaxMemory :: "32 word"
  rd_MaxMemoryPolicy :: string
  rd_ConfigFiles :: "string list"

definition redisConf :: Redis where
  "redisConf = \<lparr>rd_DialTimeout = 0, rd_ClusterNodeTimeout = 0, rd_ConfigFileName = '''', rd_RenameCommandsPath = '''',
     rd_RenameCommandsFile = '''', rd_HTTPServerAddr = '''', rd_ServerBin = '''', rd_ServerPort = '''', rd_ServerIP = '''',
     rd_MaxMemory = 0, rd_MaxMemoryPolicy = '''', rd_ConfigFiles = []\<rparr>"

text \<open>Defining a flag twice is a panic (\<open>None\<close>); defining it sets its variable to the default value.\<close>

fun define_flags :: "string list \<Rightarrow> string list \<Rightarrow> string list option" where
  "define_flags fs [] = Some fs"
| "define_flags fs (name # names) = (if name \<in> set fs then None else define_flags (fs @ [name]) names)"

definition redis_flags :: "string list" where
  "redis_flags = [''rdt'', ''cluster-node-timeout'', ''c'', ''rename-command-path'', ''rename-command-file'', ''max-memory'',
     ''max-memory-policy'', ''bin'', ''port'', ''ip'', ''config-file'']"

definition AddFlags :: "Redis \<Rightarrow> string list \<Rightarrow> (Redis \<times> string list) option" where
  "AddFlags r fs =
     map_option (\<lambda>fs.
       (r\<lparr>rd_DialTimeout := DefaultRedisTimeout, rd_ClusterNodeTimeout := DefaultClusterNodeTimeout,
          rd_ConfigFileName := RedisConfigFileDefault, rd_RenameCommandsPath := RedisRenameCommandsDefaultPath,
          rd_RenameCommandsFile := RedisRenameCommandsDefaultFile, rd_MaxMemory := RedisMaxMemoryDefault,
          rd_MaxMemoryPolicy := RedisMaxMemoryPolicyDefault, rd_ServerBin := RedisServerBinDefault,
          rd_ServerPort := RedisServerPortDefault, rd_ServerIP := '''', rd_ConfigFiles := []\<rparr>, fs))
       (define_flags fs redis_flags)"

text \<open>\<^verbatim>\<open>path.Clean\<close> on the elements of a path, the last one first, and \<^verbatim>\<open>path.Join\<close> of two parts.\<close>

fun clean_elements :: "bool \<Rightarrow> string list \<Rightarrow> string list \<Rightarrow> string list" where
  "clean_elements rooted [] out = rev out"
| "clean_elements rooted (e # es) out =
     (if e = '''' \<or> e = ''.'' then clean_elements rooted es out
      else if e = ''..'' then
        (case out of
           [] \<Rightarrow> clean_elements rooted es (if rooted then [] else [''..''])
         | x # xs \<Rightarrow> clean_elements rooted es (if x = ''..'' then ''..'' # out else xs))
      else clean_elements rooted es (e # out))"

definition path_Clean :: "string \<Rightarrow> string" where
  "path_Clean p =
     (let rooted = HasPrefix p ''/''; out = Join ''/'' (clean_elements rooted (Split (CHR ''/'') p) [])
      in if rooted then ''/'' @ out else if out = '''' then ''.'' else out)"

definition path_Join :: "string \<Rightarrow> string \<Rightarrow> string" where
  "path_Join a b = (if a = '''' \<and> b = '''' then '''' else path_Clean (if a = '''' then b else a @ ''/'' @ b))"

definition GetRenameCommandsFile :: "Redis \<Rightarrow> string" where
  "GetRenameCommandsFile r =
     (if rd_RenameCommandsFile r = '''' then '''' else path_Join (rd_RenameCommandsPath r) (rd_RenameCommandsFile r))"

section \<open>Metrics\<close>

text \<open>
  A gauge is known by its options and the names of its labels. A registry is the list of gauges it gathers;
  \<^verbatim>\<open>MustRegister\<close> of the library is a parameter, \<open>None\<close> its panic.
\<close>

definition promControllerSubsystemRedis :: string where "promControllerSubsystemRedis = ''rediscontroller''"
definition promControllerSubsystemUtil :: string where "promControllerSubsystemUtil = ''utilcontroller''"
definition promController :: string where "promController = ''maincontroller''"

record GaugeVec =
  gv_Namespace :: string
  gv_Subsystem :: string
  gv_Name :: string
  gv_Help :: string
  gv_Labels :: "string list"

record recorder =
  mr_clusterOK :: GaugeVec
  mr_contollerError :: GaugeVec
  mr_webhookError :: GaugeVec
  mr_controllerSuccess :: GaugeVec

type_synonym registry = "GaugeVec list"
type_synonym gauges = "GaugeVec \<times> string list \<rightharpoonup> int"

definition NewRecorder :: "(GaugeVec list \<Rightarrow> registry \<Rightarrow> registry option) \<Rightarrow> string \<Rightarrow> registry \<Rightarrow> (recorder \<times> registry) option" where
  "NewRecorder mustRegister ns reg =
     (let r = \<lparr>mr_clusterOK = \<lparr>gv_Namespace = ns, gv_Subsystem = promControllerSubsystemRedis, gv_Name = ''cluster_ok'',
                  gv_Help = ''Number of clusters managed by the operator.'', gv_Labels = [''namespace'', ''name'']\<rparr>,
               mr_contollerError = \<lparr>gv_Namespace = '''', gv_Subsystem = promController, gv_Name = ''contoller_error'',
                  gv_Help = ''Controller instance creation failure.'', gv_Labels = [''component'', ''name'']\<rparr>,
               mr_webhookError = \<lparr>gv_Namespace = '''', gv_Subsystem = promController, gv_Name = ''webhook_error'',
                  gv_Help = ''webhook instance creation failure.'', gv_Labels = [''component'', ''name'']\<rparr>,
               mr_controllerSuccess = \<lparr>gv_Namespace = '''', gv_Subsystem = promController, gv_Name = ''contoller_success'',
                  gv_Help = ''controller creation success.'', gv_Labels = [''component'', ''name'']\<rparr>\<rparr>
      in map_option (\<lambda>reg. (r, reg)) (mustRegister [mr_clusterOK r, mr_contollerError r, mr_webhookError r, mr_controllerSuccess r] reg))"

definition SetClusterOK :: "recorder \<Rightarrow> string \<Rightarrow> string \<Rightarrow> gauges \<Rightarrow> gauges" where
  "SetClusterOK r ns name g = g((mr_clusterOK r, [ns, name]) \<mapsto> 1)"

definition SetControllerError :: "recorder \<Rightarrow> string \<Rightarrow> string \<Rightarrow> gauges \<Rightarrow> gauges" where
  "SetControllerError r component name g = g((mr_contollerError r, [component, name]) \<mapsto> 1)"

definition SetWebhookError :: "recorder \<Rightarrow> string \<Rightarrow> string \<Rightarrow> gauges \<Rightarrow> gauges" where
  "SetWebhookError r component name g = g((mr_webhookError r, [component, name]) \<mapsto> 1)"

definition SetControllerSuccess :: "recorder \<Rightarrow> string \<Rightarrow> string \<Rightarrow> gauges \<Rightarrow> gauges" where
  "SetControllerSuccess r component name g = g((mr_controllerSuccess r, [component, name]) \<mapsto> 1)"

section \<open>The entry point\<close>

text \<open>
  The variables that flags set, the settings of the manager and the events of a start. \<open>mo_DefaultNamespaces\<close> are
  the keys of the map of the cache, \<open>None\<close> the default, a cache of all namespaces.
\<close>

record variables =
  v_metricsAddr :: string
  v_probeAddr :: string
  v_enableLeaderElection :: bool
  v_ctr_maxconcurrent :: int
  v_ctr_reconciletime :: int
  v_backupctr_maxconcurrent :: int
  v_redisConf :: Redis

record manager_options =
  mo_MetricsBindAddress :: string
  mo_HealthProbeBindAddress :: string
  mo_LeaderElection :: bool
  mo_LeaderElectionID :: string
  mo_DefaultNamespaces :: "string set option"

datatype startup_event =
    HandlePath string
  | ListenAndServe string
  | NewManager manager_options
  | SetupWithManager string int
  | AddHealthzCheck string
  | AddReadyzCheck string
  | SetupWebhookWithManager string
  | StartManager

datatype ending = Returned | Exited nat | Panicked

record process =
  pr_scope :: scope
  pr_flags :: "string list"
  pr_vars :: variables
  pr_gauges :: gauges
  pr_default :: registry
  pr_events :: "startup_event list"

text \<open>
  The environment of a start: the variables \<^verbatim>\<open>WATCH_NAMESPACE\<close> and \<^verbatim>\<open>ENABLE_WEBHOOKS\<close>, the flags of the standard
  library's \<^verbatim>\<open>flag\<close>, parsing of the arguments (\<open>None\<close> when it ends the process), the error of every step, and the
  error \<^verbatim>\<open>ListenAndServe\<close> has returned in its goroutine by the time certain events have happened, \<open>None\<close> while it serves.
\<close>

record startup_env =
  se_watch_namespace :: "string option"
  se_enable_webhooks :: "string option"
  se_go_flags :: "string list"
  se_Parse :: "string list \<Rightarrow> variables \<Rightarrow> variables option"
  se_MustRegister :: "GaugeVec list \<Rightarrow> registry \<Rightarrow> registry option"
  se_GetConfig :: "err option"
  se_HTTPClient :: "err option"
  se_RESTClient :: "err option"
  se_DirectClient :: "err option"
  se_serving :: "startup_event list \<Rightarrow> err option"
  se_result :: "startup_event \<Rightarrow> err option"

definition add_flag_set :: "string list \<Rightarrow> string list \<Rightarrow> string list" where
  "add_flag_set fs new = fs @ filter (\<lambda>name. name \<notin> set fs) new"

definition distributedrediscluster_FlagSet :: "string list" where
  "distributedrediscluster_FlagSet = [''ctr-maxconcurrent'', ''ctr-reconciletime'']"

definition redisclusterbackup_FlagSet :: "string list" where
  "redisclusterbackup_FlagSet = [''backupctr-maxconcurrent'']"

definition main_flags :: "string list" where
  "main_flags = [''metrics-bind-address'', ''health-probe-bind-address'', ''leader-elect'']"

text \<open>What the initialisation of the packages leaves.\<close>

definition initial_variables :: variables where
  "initial_variables = \<lparr>v_metricsAddr = '''', v_probeAddr = '''', v_enableLeaderElection = False, v_ctr_maxconcurrent = 4,
     v_ctr_reconciletime = 60, v_backupctr_maxconcurrent = 2, v_redisConf = redisConf\<rparr>"

definition initial_process :: "registry \<Rightarrow> process" where
  "initial_process reg0 = \<lparr>pr_scope = \<lparr>isClusterScoped = True, namespaceList = []\<rparr>, pr_flags = [], pr_vars = initial_variables,
     pr_gauges = Map.empty, pr_default = reg0, pr_events = []\<rparr>"

definition happened :: "startup_event \<Rightarrow> process \<Rightarrow> process" where
  "happened e p = p\<lparr>pr_events := pr_events p @ [e]\<rparr>"

text \<open>The panic of the goroutine, if it has come, or else what the main goroutine does.\<close>

definition while_serving :: "startup_env \<Rightarrow> process \<Rightarrow> (ending \<times> process) + 'a \<Rightarrow> (ending \<times> process) + 'a" where
  "while_serving env p r = (case se_serving env (pr_events p) of Some err \<Rightarrow> Inl (Panicked, p) | None \<Rightarrow> r)"

text \<open>The flags and the recorder, up to the parsed arguments.\<close>

definition setup_flags :: "startup_env \<Rightarrow> process \<Rightarrow> (ending \<times> process) + recorder \<times> process" where
  "setup_flags env p =
     (case define_flags (pr_flags p) main_flags of
        None \<Rightarrow> Inl (Panicked, p)
      | Some fs \<Rightarrow>
          let p = p\<lparr>pr_vars := (pr_vars p)\<lparr>v_metricsAddr := '':8080'', v_probeAddr := '':8081'', v_enableLeaderElection := True\<rparr>\<rparr>;
              fs = add_flag_set (add_flag_set fs distributedrediscluster_FlagSet) redisclusterbackup_FlagSet;
              p = happened (ListenAndServe '':9297'') (happened (HandlePath ''/healthz'') (happened (HandlePath ''/metrics'') p))
          in while_serving env p (case NewRecorder (se_MustRegister env) ''redisoperator'' [] of
               None \<Rightarrow> Inl (Panicked, p)
             | Some (recorder, reg) \<Rightarrow>
                 (case AddFlags (v_redisConf (pr_vars p)) (add_flag_set fs (se_go_flags env)) of
                    None \<Rightarrow> Inl (Panicked, p)
                  | Some (conf, fs) \<Rightarrow>
                      let vars = (pr_vars p)\<lparr>v_redisConf := conf\<rparr> in
                      (case se_Parse env fs vars of
                         None \<Rightarrow> Inl (Exited 2, p)
                       | Some vars \<Rightarrow> Inr (recorder, p\<lparr>pr_vars := vars, pr_flags := fs\<rparr>)))))"

definition manager_options_of :: "variables \<Rightarrow> string set option \<Rightarrow> manager_options" where
  "manager_options_of v namespaces =
     \<lparr>mo_MetricsBindAddress = v_metricsAddr v, mo_HealthProbeBindAddress = v_probeAddr v,
      mo_LeaderElection = v_enableLeaderElection v, mo_LeaderElectionID = ''9973c4fe.redis.kun'', mo_DefaultNamespaces = namespaces\<rparr>"

definition setup_scope :: "startup_env \<Rightarrow> process \<Rightarrow> (ending \<times> process) + manager_options \<times> process" where
  "setup_scope env p =
     (let sc = SetOperatorScope (se_watch_namespace env) (pr_scope p) in
      if isClusterScoped sc then Inr (manager_options_of (pr_vars p) None, p\<lparr>pr_scope := sc\<rparr>)
      else case GenerateNamespaceList (se_watch_namespace env) sc of
             (sc, Some err) \<Rightarrow> Inl (Exited 1, p\<lparr>pr_scope := sc\<rparr>)
           | (sc, None) \<Rightarrow> Inr (manager_options_of (pr_vars p) (Some (set (namespaceList sc))), p\<lparr>pr_scope := sc\<rparr>))"

text \<open>One step whose error ends the process after \<open>report\<close>.\<close>

definition try_step :: "startup_env \<Rightarrow> startup_event \<Rightarrow> (gauges \<Rightarrow> gauges) \<Rightarrow> process \<Rightarrow> (ending \<times> process) + process" where
  "try_step env e report p =
     (let p = happened e p in
      while_serving env p
        (case se_result env e of
           Some err \<Rightarrow> Inl (Exited 1, p\<lparr>pr_gauges := report (pr_gauges p)\<rparr>)
         | None \<Rightarrow> Inr p))"

definition exit_on :: "startup_env \<Rightarrow> err option \<Rightarrow> process \<Rightarrow> (ending \<times> process) + process" where
  "exit_on env e p = while_serving env p (case e of Some err \<Rightarrow> Inl (Exited 1, p) | None \<Rightarrow> Inr p)"

text \<open>\<^verbatim>\<open>NewDirectClient\<close> of the backup controller panics when the client cannot be made.\<close>

definition NewDirectClient :: "startup_env \<Rightarrow> process \<Rightarrow> (ending \<times> process) + process" where
  "NewDirectClient env p = while_serving env p (case se_DirectClient env of Some err \<Rightarrow> Inl (Panicked, p) | None \<Rightarrow> Inr p)"

fun and_then :: "(ending \<times> process) + 'a \<Rightarrow> ('a \<Rightarrow> (ending \<times> process) + 'b) \<Rightarrow> (ending \<times> process) + 'b" where
  "and_then (Inl end) f = Inl end"
| "and_then (Inr x) f = f x"

definition setup_manager :: "startup_env \<Rightarrow> recorder \<Rightarrow> manager_options \<Rightarrow> process \<Rightarrow> (ending \<times> process) + process" where
  "setup_manager env recorder opts p =
     and_then (exit_on env (se_GetConfig env) p) (\<lambda>p.
     and_then (try_step env (NewManager opts) id p) (\<lambda>p.
     and_then (exit_on env (se_HTTPClient env) p) (\<lambda>p.
     and_then (exit_on env (se_RESTClient env) p) (\<lambda>p.
     and_then (try_step env (SetupWithManager ''DistributedRedisCluster'' (v_ctr_maxconcurrent (pr_vars p)))
                 (SetControllerError recorder ''Controller'' ''DistributedRedisCluster'') p) (\<lambda>p.
     and_then (NewDirectClient env
                 (p\<lparr>pr_gauges := SetControllerSuccess recorder ''Controller'' ''DistributedRedisCluster'' (pr_gauges p)\<rparr>)) (\<lambda>p.
     and_then (try_step env (SetupWithManager ''RedisClusterBackup'' (v_backupctr_maxconcurrent (pr_vars p)))
                 (SetControllerError recorder ''Controller'' ''RedisClusterBackup'') p) (\<lambda>p.
     and_then (try_step env (AddHealthzCheck ''healthz'') id p) (\<lambda>p.
     try_step env (AddReadyzCheck ''readyz'') id p))))))))"

definition start_manager :: "startup_env \<Rightarrow> process \<Rightarrow> (ending \<times> process) + process" where
  "start_manager env p =
     and_then (if se_enable_webhooks env = Some ''true'' then try_step env (SetupWebhookWithManager ''DistributedRedisCluster'') id p else Inr p)
       (try_step env StartManager id)"

definition main :: "startup_env \<Rightarrow> registry \<Rightarrow> ending \<times> process" where
  "main env reg0 =
     (case and_then (setup_flags env (initial_process reg0)) (\<lambda>(recorder, p).
           and_then (setup_scope env p) (\<lambda>(opts, p).
           and_then (setup_manager env recorder opts p) (start_manager env))) of
        Inl end \<Rightarrow> end
      | Inr p \<Rightarrow> (Returned, p))"

section \<open>Commands in pods\<close>

text \<open>
  The executor of the Kubernetes client is a parameter: \<open>rx_NewExecutor\<close> fails or not, \<open>rx_Stream\<close> gives the two
  outputs and the error for a request, which may depend on the requests streamed before. Of a pod the code reads the
  namespace, the name and the names of the containers.
\<close>

record exec_pod =
  ep_Namespace :: string
  ep_Name :: string
  ep_Containers :: "string list"

record ExecOptions =
  eo_Command :: "string list"
  eo_Namespace :: string
  eo_PodName :: string
  eo_ContainerName :: string
  eo_Stdin :: "string option"
  eo_CaptureStdout :: bool
  eo_CaptureStderr :: bool
  eo_PreserveWhitespace :: bool

record exec_request =
  rq_Name :: string
  rq_Namespace :: string
  rq_Container :: string
  rq_Command :: "string list"
  rq_Stdin :: bool
  rq_Stdout :: bool
  rq_Stderr :: bool
  rq_TTY :: bool

record remote_exec =
  rx_NewExecutor :: "exec_request \<Rightarrow> err option"
  rx_Stream :: "exec_request list \<Rightarrow> exec_request \<Rightarrow> string option \<Rightarrow> string \<times> string \<times> err option"

definition execute :: "remote_exec \<Rightarrow> exec_request \<Rightarrow> string option \<Rightarrow> exec_request list \<Rightarrow> (string \<times> string \<times> err option) \<times> exec_request list" where
  "execute rx url stdin sent =
     (case rx_NewExecutor rx url of
        Some err \<Rightarrow> (('''', '''', Some err), sent)
      | None \<Rightarrow> (rx_Stream rx sent url stdin, sent @ [url]))"

definition ExecWithOptions :: "remote_exec \<Rightarrow> ExecOptions \<Rightarrow> exec_request list \<Rightarrow> (string \<times> string \<times> err option) \<times> exec_request list" where
  "ExecWithOptions rx options sent =
     (let req = \<lparr>rq_Name = eo_PodName options, rq_Namespace = eo_Namespace options, rq_Container = eo_ContainerName options,
                 rq_Command = eo_Command options, rq_Stdin = (eo_Stdin options \<noteq> None), rq_Stdout = eo_CaptureStdout options,
                 rq_Stderr = eo_CaptureStderr options, rq_TTY = False\<rparr>
      in case execute rx req (eo_Stdin options) sent of
           ((stdout, stderr, err), sent) \<Rightarrow>
             if eo_PreserveWhitespace options then ((stdout, stderr, err), sent)
             else ((TrimSpace stdout, TrimSpace stderr, err), sent))"

definition ExecCommandInContainerWithFullOutput ::
    "remote_exec \<Rightarrow> string \<Rightarrow> string \<Rightarrow> string \<Rightarrow> string list \<Rightarrow> exec_request list \<Rightarrow> (string \<times> string \<times> err option) \<times> exec_request list" where
  "ExecCommandInContainerWithFullOutput rx ns podName containerName cmd =
     ExecWithOptions rx \<lparr>eo_Command = cmd, eo_Namespace = ns, eo_PodName = podName, eo_ContainerName = containerName,
       eo_Stdin = None, eo_CaptureStdout = True, eo_CaptureStderr = True, eo_PreserveWhitespace = False\<rparr>"

definition ExecCommandInContainer ::
    "remote_exec \<Rightarrow> string \<Rightarrow> string \<Rightarrow> string \<Rightarrow> string list \<Rightarrow> exec_request list \<Rightarrow> (string \<times> err option) \<times> exec_request list" where
  "ExecCommandInContainer rx ns podName containerName cmd sent =
     (case ExecCommandInContainerWithFullOutput rx ns podName containerName cmd sent of
        ((stdout, stderr, err), sent) \<Rightarrow> ((stdout, err), sent))"

text \<open>\<open>None\<close> is the panic for a pod without containers.\<close>

fun ExecCommandInPodSet :: "remote_exec \<Rightarrow> exec_pod list \<Rightarrow> string list \<Rightarrow> exec_request list \<Rightarrow> (err option \<times> exec_request list) option" where
  "ExecCommandInPodSet rx [] cmd sent = Some (None, sent)"
| "ExecCommandInPodSet rx (pod # podSet) cmd sent =
     (case ep_Containers pod of
        [] \<Rightarrow> None
      | container # _ \<Rightarrow>
          (case ExecCommandInContainer rx (ep_Namespace pod) (ep_Name pod) container cmd sent of
             ((_, Some err), sent) \<Rightarrow> Some (Some err, sent)
           | ((_, None), sent) \<Rightarrow> ExecCommandInPodSet rx podSet cmd sent))"

section \<open>Properties\<close>

lemma define_flags_fresh:
  "distinct names \<Longrightarrow> set names \<inter> set fs = {} \<Longrightarrow> define_flags fs names = Some (fs @ names)"
  by (induction names arbitrary: fs) auto

lemma define_flags_twice: "name \<in> set fs \<Longrightarrow> name \<in> set names \<Longrightarrow> define_flags fs names = None"
  by (induction names arbitrary: fs) auto

lemma GetRenameCommandsFile_default:
  "AddFlags r fs = Some (r', fs') \<Longrightarrow> GetRenameCommandsFile r' = ''''"
  by (auto simp: AddFlags_def GetRenameCommandsFile_def RedisRenameCommandsDefaultFile_def)

text \<open>No step after the scope changes it, the registry that is served, or the options a manager was made with.\<close>

fun end_of :: "(ending \<times> process) + process \<Rightarrow> process" where
  "end_of (Inl end) = snd end"
| "end_of (Inr p) = p"

definition later :: "manager_options \<Rightarrow> process \<Rightarrow> process \<Rightarrow> bool" where
  "later opts p p' \<longleftrightarrow> pr_scope p' = pr_scope p \<and> pr_default p' = pr_default p \<and>
     {o'. NewManager o' \<in> set (pr_events p')} \<subseteq> insert opts {o'. NewManager o' \<in> set (pr_events p)}"

lemma later_refl [simp]: "later opts p p"
  by (auto simp: later_def)

lemma later_trans: "later opts p q \<Longrightarrow> later opts q r \<Longrightarrow> later opts p r"
  by (auto simp: later_def)

lemma later_and_then:
  assumes "later opts p (end_of r)" and "\<And>q. r = Inr q \<Longrightarrow> later opts q (end_of (f q))"
  shows "later opts p (end_of (and_then r f))"
  using assms by (cases r) (auto intro: later_trans)

lemma later_try_step: "(\<And>o'. e = NewManager o' \<Longrightarrow> o' = opts) \<Longrightarrow> later opts p (end_of (try_step env e report p))"
  by (auto simp: try_step_def while_serving_def happened_def later_def Let_def split: option.split)

lemma later_exit_on: "later opts p (end_of (exit_on env e p))"
  by (simp add: exit_on_def while_serving_def split: option.split)

lemma later_NewDirectClient: "later opts p (end_of (NewDirectClient env (p\<lparr>pr_gauges := g\<rparr>)))"
  by (auto simp add: NewDirectClient_def while_serving_def later_def split: option.split)

lemma setup_manager_later: "later opts p (end_of (setup_manager env recorder opts p))"
  unfolding setup_manager_def
  by (intro later_and_then later_exit_on later_try_step later_NewDirectClient) simp_all

lemma start_manager_later: "later opts p (end_of (start_manager env p))"
  unfolding start_manager_def by (intro later_and_then later_try_step) (auto intro: later_try_step)

lemma setup_flags_end:
  "setup_flags env (initial_process reg0) = Inr (recorder, p) \<or> setup_flags env (initial_process reg0) = Inl (e, p) \<Longrightarrow>
     pr_default p = reg0 \<and> {o'. NewManager o' \<in> set (pr_events p)} = {}"
  by (auto simp: setup_flags_def while_serving_def Let_def initial_process_def happened_def split: option.splits)

text \<open>
  The namespaces the options name, and those whose objects the cache holds: the cache library takes the empty name, which a
  comma at the end of \<^verbatim>\<open>WATCH_NAMESPACE\<close> leaves, for all namespaces.
\<close>

definition named :: "manager_options \<Rightarrow> string set" where
  "named opts = (case mo_DefaultNamespaces opts of None \<Rightarrow> UNIV | Some N \<Rightarrow> N)"

definition visible :: "manager_options \<Rightarrow> string set" where
  "visible opts = (if '''' \<in> named opts then UNIV else named opts)"

lemma managed_namespaces:
  "{ns. \<exists>ann. ShoudManage sc ns ann} = (if isClusterScoped sc then UNIV else set (namespaceList sc))"
proof (cases "isClusterScoped sc")
  case True
  then have "ShoudManage sc ns [AnnotationScope \<mapsto> AnnotationClusterScoped]" for ns by (simp add: ShoudManage_def)
  with True show ?thesis by auto
next
  case False
  then have "ShoudManage sc ns Map.empty \<longleftrightarrow> ns \<in> set (namespaceList sc)" for ns by (simp add: ShoudManage_def)
  moreover have "ShoudManage sc ns ann \<Longrightarrow> ns \<in> set (namespaceList sc)" for ns ann
    using False by (simp add: ShoudManage_def split: option.splits if_splits)
  ultimately show ?thesis using False by auto
qed

lemma setup_scope_named:
  "\<exists>opts p'. setup_scope env p = Inr (opts, p') \<and> {ns. \<exists>ann. ShoudManage (pr_scope p') ns ann} = named opts \<and>
     pr_events p' = pr_events p \<and> pr_default p' = pr_default p"
proof (cases "se_watch_namespace env")
  case (Some v)
  then show ?thesis
    unfolding managed_namespaces
    by (cases "v = ''''") (auto simp: setup_scope_def SetOperatorScope_def GenerateNamespaceList_def GetNamespaceWatchList_def
        manager_options_of_def named_def Let_def)
qed (unfold managed_namespaces, simp add: setup_scope_def SetOperatorScope_def manager_options_of_def named_def Let_def)

text \<open>
  C24: when the process makes a manager, its options name exactly the namespaces in which the event filters of the controllers accept
  some object, so that the cache holds all of these, and no other unless one of the names is empty: then it holds the objects of all
  namespaces. No manager is made with other options. The registry that \<^verbatim>\<open>/metrics\<close> serves stays the one of the library:
  the gauges of the recorder, which are registered elsewhere, are not served.
\<close>

theorem startup_namespaces:
  assumes "main env reg0 = (e, p)" and "NewManager opts \<in> set (pr_events p)"
  shows "{ns. \<exists>ann. ShoudManage (pr_scope p) ns ann} = named opts \<and> {ns. \<exists>ann. ShoudManage (pr_scope p) ns ann} \<subseteq> visible opts \<and>
    (visible opts = named opts \<or> '''' \<in> {ns. \<exists>ann. ShoudManage (pr_scope p) ns ann}) \<and>
    {o'. NewManager o' \<in> set (pr_events p)} = {opts} \<and> pr_default p = reg0"
proof -
  let ?flags = "setup_flags env (initial_process reg0)"
  obtain recorder q where flags: "?flags = Inr (recorder, q)"
    using assms setup_flags_end [of env reg0] by (cases ?flags) (auto simp: main_def)
  note q = setup_flags_end [OF disjI1, OF flags]
  obtain o' q' where sc: "setup_scope env q = Inr (o', q')" "{ns. \<exists>ann. ShoudManage (pr_scope q') ns ann} = named o'"
      "pr_events q' = pr_events q" "pr_default q' = pr_default q"
    using setup_scope_named by blast
  have "p = end_of (and_then (setup_manager env recorder o' q') (start_manager env))"
    using assms(1) by (auto simp: main_def flags sc(1) split: sum.splits)
  moreover have "later o' q' (end_of (and_then (setup_manager env recorder o' q') (start_manager env)))"
    by (intro later_and_then setup_manager_later start_manager_later)
  ultimately have "pr_scope p = pr_scope q'" "pr_default p = reg0" and made: "{o''. NewManager o'' \<in> set (pr_events p)} \<subseteq> {o'}"
    using sc q by (simp_all add: later_def)
  moreover from made assms(2) have "opts = o'" by blast
  moreover have "named opts \<subseteq> visible opts" "visible opts = named opts \<or> '''' \<in> named opts" by (auto simp: visible_def)
  ultimately show ?thesis using sc(2) assms(2) by auto
qed

text \<open>
  A manager that is started has served both paths, and has set up both controllers and both checks before, in this order, with the
  concurrency of the flags; the webhook is set up exactly if the environment asks for it.
\<close>

lemma try_step_Inr: "try_step env e report p = Inr q \<longleftrightarrow> se_result env e = None \<and> se_serving env (pr_events (happened e p)) = None \<and> q = happened e p"
  by (auto simp: try_step_def while_serving_def Let_def split: option.split)

lemma exit_on_Inr: "exit_on env e p = Inr q \<longleftrightarrow> e = None \<and> se_serving env (pr_events p) = None \<and> q = p"
  by (auto simp: exit_on_def while_serving_def split: option.split)

lemma NewDirectClient_Inr: "NewDirectClient env p = Inr q \<longleftrightarrow> se_DirectClient env = None \<and> se_serving env (pr_events p) = None \<and> q = p"
  by (auto simp: NewDirectClient_def while_serving_def split: option.split)

lemma and_then_Inr: "and_then r f = Inr z \<longleftrightarrow> (\<exists>x. r = Inr x \<and> f x = Inr z)"
  by (cases r) auto

lemma setup_manager_Inr:
  "setup_manager env recorder opts p = Inr q \<Longrightarrow>
     pr_events q = pr_events p @ [NewManager opts, SetupWithManager ''DistributedRedisCluster'' (v_ctr_maxconcurrent (pr_vars p)),
       SetupWithManager ''RedisClusterBackup'' (v_backupctr_maxconcurrent (pr_vars p)), AddHealthzCheck ''healthz'', AddReadyzCheck ''readyz''] \<and>
     pr_vars q = pr_vars p \<and> pr_gauges q = SetControllerSuccess recorder ''Controller'' ''DistributedRedisCluster'' (pr_gauges p)"
  by (auto simp: setup_manager_def and_then_Inr try_step_Inr exit_on_Inr NewDirectClient_Inr happened_def)

lemma start_manager_Inr:
  "start_manager env p = Inr q \<Longrightarrow>
     pr_events q = pr_events p @ (if se_enable_webhooks env = Some ''true'' then [SetupWebhookWithManager ''DistributedRedisCluster''] else []) @
       [StartManager] \<and> pr_gauges q = pr_gauges p"
  by (auto simp: start_manager_def and_then_Inr try_step_Inr happened_def split: if_splits)

lemma setup_scope_Inr:
  "setup_scope env p = Inr (opts, q) \<Longrightarrow> pr_events q = pr_events p \<and> pr_vars q = pr_vars p \<and> pr_gauges q = pr_gauges p"
  by (auto simp: setup_scope_def Let_def split: if_splits prod.splits option.splits)

lemma setup_flags_Inr:
  "setup_flags env (initial_process reg0) = Inr (recorder, q) \<Longrightarrow>
     pr_events q = [HandlePath ''/metrics'', HandlePath ''/healthz'', ListenAndServe '':9297''] \<and> pr_gauges q = Map.empty"
  by (auto simp: setup_flags_def while_serving_def Let_def initial_process_def happened_def split: option.splits)

definition ends :: "(ending \<times> process) + 'x \<Rightarrow> bool" where
  "ends r = (case r of Inl end \<Rightarrow> fst end \<noteq> Returned | Inr _ \<Rightarrow> True)"

lemma ends_and_then: "ends r \<Longrightarrow> (\<And>x. ends (f x)) \<Longrightarrow> ends (and_then r f)"
  by (cases r) (simp_all add: ends_def)

lemma ends_steps: "ends (try_step env e report p)" "ends (exit_on env err p)" "ends (NewDirectClient env p)" "ends (Inr p)"
  by (auto simp: ends_def try_step_def exit_on_def NewDirectClient_def while_serving_def Let_def split: option.split)

lemma setup_manager_ends: "ends (setup_manager env recorder opts p)"
  unfolding setup_manager_def by (intro ends_and_then ends_steps)

lemma start_manager_ends: "ends (start_manager env p)"
  unfolding start_manager_def by (intro ends_and_then) (simp_all add: ends_steps)

lemma setup_scope_ends: "ends (setup_scope env p)"
  by (auto simp: ends_def setup_scope_def Let_def split: prod.split option.split)

lemma setup_flags_ends: "ends (setup_flags env p)"
  by (auto simp: ends_def setup_flags_def while_serving_def Let_def split: prod.split option.split)

theorem startup_order:
  assumes "main env reg0 = (Returned, p)"
  shows "\<exists>opts (v :: variables) (recorder :: recorder). pr_events p =
      [HandlePath ''/metrics'', HandlePath ''/healthz'', ListenAndServe '':9297'', NewManager opts,
       SetupWithManager ''DistributedRedisCluster'' (v_ctr_maxconcurrent v), SetupWithManager ''RedisClusterBackup'' (v_backupctr_maxconcurrent v),
       AddHealthzCheck ''healthz'', AddReadyzCheck ''readyz''] @
      (if se_enable_webhooks env = Some ''true'' then [SetupWebhookWithManager ''DistributedRedisCluster''] else []) @ [StartManager] \<and>
    pr_gauges p = [(mr_controllerSuccess recorder, [''Controller'', ''DistributedRedisCluster'']) \<mapsto> 1]"
proof -
  let ?run = "and_then (setup_flags env (initial_process reg0)) (\<lambda>(recorder, p).
    and_then (setup_scope env p) (\<lambda>(opts, p). and_then (setup_manager env recorder opts p) (start_manager env)))"
  have "ends ?run"
    by (intro ends_and_then setup_flags_ends)
       (auto simp: split_beta intro!: ends_and_then setup_scope_ends setup_manager_ends start_manager_ends)
  with assms have "?run = Inr p"
    by (auto simp: main_def ends_def split: sum.splits)
  then obtain recorder q opts q' r where "setup_flags env (initial_process reg0) = Inr (recorder, q)" "setup_scope env q = Inr (opts, q')"
      "setup_manager env recorder opts q' = Inr r" "start_manager env r = Inr p"
    by (auto simp: and_then_Inr)
  note steps = setup_flags_Inr [OF this(1)] setup_scope_Inr [OF this(2)] setup_manager_Inr [OF this(3)] start_manager_Inr [OF this(4)]
  show ?thesis
    by (rule exI [of _ opts], rule exI [of _ "pr_vars q'"], rule exI [of _ recorder]) (simp add: steps SetControllerSuccess_def)
qed

definition example_start :: startup_env where
  "example_start = \<lparr>se_watch_namespace = Some ''a,b'', se_enable_webhooks = None, se_go_flags = [''zap-devel'', ''kubeconfig''],
     se_Parse = (\<lambda>_. Some), se_MustRegister = (\<lambda>new reg. Some (reg @ new)), se_GetConfig = None, se_HTTPClient = None,
     se_RESTClient = None, se_DirectClient = None, se_serving = (\<lambda>_. None), se_result = (\<lambda>_. None)\<rparr>"

lemmas main_steps = setup_flags_def setup_scope_def setup_manager_def start_manager_def try_step_def exit_on_def NewDirectClient_def while_serving_def happened_def
  initial_process_def NewRecorder_def AddFlags_def add_flag_set_def

theorem startup_namespaces_witness:
  "\<exists>opts p. main example_start [] = (Returned, p) \<and> NewManager opts \<in> set (pr_events p) \<and>
     {ns. \<exists>ann. ShoudManage (pr_scope p) ns ann} = visible opts \<and> visible opts = {''a'', ''b''}"
proof -
  let ?opts = "\<lparr>mo_MetricsBindAddress = '':8080'', mo_HealthProbeBindAddress = '':8081'', mo_LeaderElection = True,
    mo_LeaderElectionID = ''9973c4fe.redis.kun'', mo_DefaultNamespaces = Some {''a'', ''b''}\<rparr>"
  obtain e p where run: "main example_start [] = (e, p)" by fastforce
  then have "e = Returned" "NewManager ?opts \<in> set (pr_events p)"
    by (auto simp: main_def main_steps Let_def example_start_def main_flags_def distributedrediscluster_FlagSet_def
        redisclusterbackup_FlagSet_def redis_flags_def SetOperatorScope_def GenerateNamespaceList_def GetNamespaceWatchList_def
        manager_options_of_def initial_variables_def)
  moreover have n: "named ?opts = {''a'', ''b''}" "visible ?opts = {''a'', ''b''}" by (simp_all add: visible_def named_def)
  moreover from startup_namespaces [OF run \<open>NewManager ?opts \<in> set (pr_events p)\<close>] n
  have "{ns. \<exists>ann. ShoudManage (pr_scope p) ns ann} = visible ?opts" by simp
  ultimately show ?thesis using run by blast
qed

text \<open>The commands go to a prefix of the pods, in their order, and to all of them exactly if none failed.\<close>

definition exec_request_of :: "string list \<Rightarrow> exec_pod \<Rightarrow> exec_request" where
  "exec_request_of cmd pod = \<lparr>rq_Name = ep_Name pod, rq_Namespace = ep_Namespace pod, rq_Container = hd (ep_Containers pod),
     rq_Command = cmd, rq_Stdin = False, rq_Stdout = True, rq_Stderr = True, rq_TTY = False\<rparr>"

lemma ExecCommandInContainer_sent:
  assumes "ExecCommandInContainer rx ns name container cmd sent = ((out, err), sent')"
  shows "sent' = sent @ (if rx_NewExecutor rx (exec_request_of cmd \<lparr>ep_Namespace = ns, ep_Name = name, ep_Containers = [container]\<rparr>) = None
      then [exec_request_of cmd \<lparr>ep_Namespace = ns, ep_Name = name, ep_Containers = [container]\<rparr>] else [])"
    and "err = None \<Longrightarrow> rx_NewExecutor rx (exec_request_of cmd \<lparr>ep_Namespace = ns, ep_Name = name, ep_Containers = [container]\<rparr>) = None"
  using assms
  by (auto simp: ExecCommandInContainer_def ExecCommandInContainerWithFullOutput_def ExecWithOptions_def execute_def exec_request_of_def Let_def
      split: prod.splits option.splits dest!: sym [of "Some _"])

lemma exec_request_of_first:
  "ep_Containers pod = c # cs \<Longrightarrow>
     exec_request_of cmd \<lparr>ep_Namespace = ep_Namespace pod, ep_Name = ep_Name pod, ep_Containers = [c]\<rparr> = exec_request_of cmd pod"
  by (simp add: exec_request_of_def)

theorem ExecCommandInPodSet_order:
  assumes "ExecCommandInPodSet rx pods cmd sent = Some (err, sent')"
  shows "\<exists>n \<le> length pods. sent' = sent @ map (exec_request_of cmd) (take n pods) \<and> (err = None \<longrightarrow> n = length pods)"
  using assms
proof (induction pods arbitrary: sent)
  case (Cons pod pods)
  then obtain c cs where pod: "ep_Containers pod = c # cs" by (auto split: list.splits)
  obtain out e sent1 where run: "ExecCommandInContainer rx (ep_Namespace pod) (ep_Name pod) c cmd sent = ((out, e), sent1)"
    by (metis prod.exhaust)
  note sent1 = ExecCommandInContainer_sent [OF run, unfolded exec_request_of_first [OF pod]]
  show ?case
  proof (cases e)
    case None
    with Cons.prems pod run have "ExecCommandInPodSet rx pods cmd sent1 = Some (err, sent')" by simp
    from Cons.IH [OF this] obtain n where "n \<le> length pods" "sent' = sent1 @ map (exec_request_of cmd) (take n pods)"
        "err = None \<longrightarrow> n = length pods" by blast
    with sent1 None show ?thesis by (intro exI [of _ "Suc n"]) simp
  next
    case (Some e')
    with Cons.prems pod run have out: "err = Some e'" "sent' = sent1" by simp_all
    show ?thesis
    proof (cases "sent1 = sent")
      case True
      with out show ?thesis by (intro exI [of _ 0]) simp
    next
      case False
      with sent1(1) have "sent1 = sent @ [exec_request_of cmd pod]" by (simp split: if_splits)
      with out show ?thesis by (intro exI [of _ "Suc 0"]) simp
    qed
  qed
qed simp

end
