(* ===== verification/Spec2Isabelle.thy ===== *)
theory Spec2Isabelle
  imports Backup_Store Scaling Storage Startup
begin

text \<open>
  A verification development of the redis cluster operator.

  The operator keeps redis clusters in Kubernetes. Its reconciler reads the state of every redis
  server (\<^verbatim>\<open>utils/redisutil\<close>), decides which pods are masters and which slots they own
  (\<^verbatim>\<open>controllers/clustering\<close>), repairs broken clusters (\<^verbatim>\<open>controllers/heal\<close>) and reports a status. A second controller keeps
  the deployments of the backups (\<^verbatim>\<open>controllers/redisclusterbackup\<close>). The Kubernetes client, the redis
  servers and the client libraries are parameters of the model.

  \<^bold>\<open>Theories.\<close>
  \<^item> \<open>Go_Base\<close>, \<open>Go_Strings\<close>, \<open>Go_Float\<close>: the prelude. Errors, Go maps with their loop order, the
    functions of \<^verbatim>\<open>strings\<close>, \<^verbatim>\<open>strconv\<close> and \<^verbatim>\<open>net\<close> the code uses, and \<^verbatim>\<open>float64\<close> as rational numbers
    rounded to 53 bits to nearest, ties to even (interface \<open>rounding\<close>). \<open>Go_Sha256\<close>: \<^verbatim>\<open>crypto/sha256\<close>.
  \<^item> \<open>Redis_Slot\<close>: \<^verbatim>\<open>slot.go\<close>. Slots are 64-bit words. Round trips of ranges and moving slots, the slice
    operations as an ownership interface (\<open>slot_ops\<close>), and the bound for which a loop does not end.
  \<^item> \<open>Common_Utils\<close>: \<^verbatim>\<open>utils/commonutils\<close>.
  \<^item> \<open>Api_Types\<close>: the specification and status of a cluster, defaulting and the webhook.
  \<^item> \<open>Redis_Node\<close>: \<^verbatim>\<open>node.go\<close> and \<^verbatim>\<open>cluster.go\<close>. Nodes are records; slices and the cluster hold
    pointers into a heap, because the clustering code changes nodes it reaches in several ways
    (interface \<open>registry\<close>).
  \<^item> \<open>Cluster_Infos\<close>: \<^verbatim>\<open>clusterinfo.go\<close> and \<^verbatim>\<open>errors.go\<close>. Decoding of the servers' replies and the
    consistency check, with the aliasing of \<^verbatim>\<open>append\<close> made explicit.
  \<^item> \<open>Redis_Connections\<close>: \<^verbatim>\<open>connections.go\<close>. The world (heap, open connections, history of commands)
    and the environment that answers commands (interface \<open>connection_pool\<close>).
  \<^item> \<open>Redis_Admin\<close>: \<^verbatim>\<open>admin.go\<close>. Every command the operator sends, with its error paths. The
    arguments of \<^verbatim>\<open>MIGRATE\<close> are handed to the client library as one slice, which it refuses to send (\<open>refuses_lists\<close>): the
    theorems on moving keys, here and in the two theories below, show what the code does then.
  \<^item> \<open>Rebalance\<close>: \<^verbatim>\<open>rebalance.go\<close>. The first allocation of slots and the rebalancing of a cluster,
    which gives away slots without keys only, and when it does not end.
  \<^item> \<open>Migration\<close>: \<^verbatim>\<open>migration.go\<close>. The plan that says which slots go where, and its execution. The theorems
    show that every slot ends with one owner, in which order the servers learn of a move, and that the keys stay behind.
  \<^item> \<open>Placement\<close>: \<^verbatim>\<open>placement.go\<close> and the \<^verbatim>\<open>DispatchMasters\<close> of \<^verbatim>\<open>migration.go\<close>. Choice of masters and slaves by
    the machines the pods run on; the order of every loop over a map is a parameter.
  \<^item> \<open>Placement_V2\<close>: \<^verbatim>\<open>placement_v2.go\<close> and \<^verbatim>\<open>roles.go\<close>. Choice of one master for each stateful set, with
    zones or hosts kept apart, and the attachment of the slaves.
  \<^item> \<open>Heal\<close>: \<^verbatim>\<open>controllers/heal\<close> and \<^verbatim>\<open>manager/healer.go\<close>. Overdue pods, failed and untrusted nodes,
    split clusters; the calls to Kubernetes are recorded in a history.
  \<^item> \<open>Cluster_Status\<close>: \<^verbatim>\<open>status.go\<close>, \<^verbatim>\<open>helper.go\<close> and \<^verbatim>\<open>errors.go\<close> of the controller and \<^verbatim>\<open>k8sutil/node.go\<close>. The
    status the operator reports, what it means, and when it is written.
  \<^item> \<open>Kube\<close>: \<^verbatim>\<open>utils/k8sutil\<close>. The API server as a function of the history of calls, and the operations of the
    controllers on it.
  \<^item> \<open>Checker\<close>: \<^verbatim>\<open>manager/checker.go\<close>. Numbers of pods and masters, versions of secrets.
  \<^item> \<open>Sync_Handler\<close>: \<^verbatim>\<open>sync_handler.go\<close> of the controller. Validation, waiting, scaling down and \<^verbatim>\<open>syncCluster\<close>, which
    composes placement, allocation, rebalancing and migration.
  \<^item> \<open>Acl\<close>: \<^verbatim>\<open>resources/configmaps\<close>, \<^verbatim>\<open>statefulsets/helper.go\<close> and the check for changed secrets. The list of
    access control rules made of the secrets, and the commands that change it on running servers.
  \<^item> \<open>Resources\<close>: \<^verbatim>\<open>resources/statefulsets\<close>, \<^verbatim>\<open>services\<close> and \<^verbatim>\<open>poddisruptionbudgets\<close>. The objects of a cluster.
  \<^item> \<open>Ensurer\<close>: \<^verbatim>\<open>manager/ensurer.go\<close>. Creating the objects and keeping them up to date.
  \<^item> \<open>Pod_Updates\<close>: the rest of \<^verbatim>\<open>sync_handler.go\<close>. Sending changed rules, rolling updates, labels of pods.
  \<^item> \<open>Controller\<close>: \<^verbatim>\<open>ensureCluster\<close> and \<^verbatim>\<open>distributedrediscluster_controller.go\<close>. A whole pass of the reconciler as a
    sequence of stages; when it touches redis, when it panics, and what the healing of high availability does.
  \<^item> \<open>Backup_Types\<close>, \<open>Backup\<close>: \<^verbatim>\<open>redisclusterbackup_types.go\<close>, \<^verbatim>\<open>controllers/redisclusterbackup\<close> and \<^verbatim>\<open>resources/deployments\<close>.
    The specification of a backup, the deployment of its utilities, and a pass of the backup controller.
  \<^item> \<open>Backup_Store\<close>: that controller against a store of objects. Any call may fail; \<open>step\<close> and \<open>reachable\<close> are the passes, the
    users and the rest of the cluster. A pass refines a direct function on the store and that a small automaton of the
    phases of a backup (\<open>life\<close>); objects stay well-formed, the finalizer protects the deployment, a backup lives and goes,
    and the two ways in which that fails.
  \<^item> \<open>Scaling\<close>: what scaling down a cluster deletes, on top of \<open>Sync_Handler\<close>.
  \<^item> \<open>Storage\<close>: \<^verbatim>\<open>osm\<close>. The configuration of the object store and of rclone made of a secret.
  \<^item> \<open>Startup\<close>: \<^verbatim>\<open>main.go\<close>, \<^verbatim>\<open>metrics\<close>, \<^verbatim>\<open>redisconfig\<close> and \<^verbatim>\<open>utils/exec\<close>. The steps of the process as events; the namespaces
    it watches are those the event filters accept. The server of the metrics may panic before every step.

  \<^bold>\<open>Conventions.\<close> A Go \<^verbatim>\<open>error\<close> is an option of \<open>err\<close>. A function that may panic or run forever returns
  an option, and its loops are \<^verbatim>\<open>partial_function (option)\<close>: no fuel is used anywhere, and the
  theorems that a loop ends are proved as such. A \<^verbatim>\<open>range\<close> over a map visits the keys in an
  order that is a parameter (\<open>range_order\<close>), and \<^verbatim>\<open>sort.Sort\<close> arranges equal elements as a parameter says
  (\<open>SortByFunc\<close>). Integers that cannot exceed their width are \<^typ>\<open>int\<close>;
  slots, sizes and durations that can wrap are words or wrapped explicitly. Log output is left out.

  \<^bold>\<open>Not modelled.\<close> Deep copies and scheme registration, which are generated or only call a library; log output; the type
  \<^verbatim>\<open>PodSpec\<close> of the backup API, which no code uses; the registration of the reconcilers with the manager beyond its order, its
  concurrency and its error; and the jobs of the backup controller, which are commented out, as are the callers of \<^verbatim>\<open>osm\<close> and of
  \<^verbatim>\<open>utils/exec\<close>. The library calls of the Kubernetes client, of redis, of the object store and of the metrics are parameters.
\<close>

end
